(* ===== verification/Prelude.thy ===== *)
theory Prelude
  imports
    Main
    "HOL-Library.Word"
    "HOL-Library.Char_ord"
    "HOL-Library.List_Lexorder"
    "HOL-Library.Product_Lexorder"
    "HOL-Library.Multiset"
begin

unbundle bit_operations_syntax

text \<open>
  Shared ground of the development: the result type of the operations, the machine integers of
  Go, the readings of the SQL statements the services issue, and the generic lemmas the
  component theories use.

  \<^item> An operation that can fail returns \<open>'e + 'a\<close>: \<open>Inl\<close> is the error branch, \<open>Inr\<close> the value.
    \<open>rbind\<close> is the sequencing that an \<open>if err != nil { return err }\<close> after a call gives.
  \<^item> \<open>int64\<close> is Go's 64-bit two's complement integer: \<open>+\<close>, \<open>-\<close>, \<open>*\<close> wrap, \<open>sint\<close> reads the value.
    \<open>quot\<close> and \<open>rem\<close> are Go's division and remainder, which truncate towards zero.
  \<^item> A database table is the list of its rows in insertion order; \<open>first_row\<close> is a query for one
    row, \<open>update_rows\<close> an \<open>UPDATE ... WHERE\<close>, \<open>affected\<close> its number of rows.
\<close>

named_theorems ledger_simps "unfoldings the ledger proofs share"
named_theorems relay_simps "unfoldings the relayd proofs share"

section \<open>Results\<close>

definition rbind :: "'e + 'a \<Rightarrow> ('a \<Rightarrow> 'e + 'b) \<Rightarrow> 'e + 'b" where
  "rbind m f = (case m of Inl e \<Rightarrow> Inl e | Inr x \<Rightarrow> f x)"

lemma rbind_simps [simp]:
  "rbind (Inl e) f = Inl e"
  "rbind (Inr x) f = f x"
  by (simp_all add: rbind_def)

lemma rbind_Inr_iff [simp]:
  "rbind m f = Inr y \<longleftrightarrow> (\<exists>x. m = Inr x \<and> f x = Inr y)"
  by (cases m) auto

lemma rbind_Inl_iff:
  "rbind m f = Inl e \<longleftrightarrow> m = Inl e \<or> (\<exists>x. m = Inr x \<and> f x = Inl e)"
  by (cases m) auto

lemma rbind_assoc: "rbind (rbind m f) g = rbind m (\<lambda>x. rbind (f x) g)"
  by (cases m) auto

lemma rbind_cong [fundef_cong]:
  "m = m' \<Longrightarrow> (\<And>x. m' = Inr x \<Longrightarrow> f x = f' x) \<Longrightarrow> rbind m f = rbind m' f'"
  by (cases m') (auto simp: rbind_def)

text \<open>\<open>guard b e\<close> is \<open>if b { return e }\<close>.\<close>

definition guard :: "bool \<Rightarrow> 'e \<Rightarrow> 'e + unit" where
  "guard b e = (if b then Inl e else Inr ())"

lemma guard_simps [simp]:
  "guard b e = Inr u \<longleftrightarrow> \<not> b"
  "guard b e = Inl e' \<longleftrightarrow> b \<and> e' = e"
  "guard False e = Inr ()"
  "guard True e = Inl e"
  by (auto simp: guard_def)

text \<open>\<open>is_ok\<close> tells the two branches apart.\<close>

definition is_ok :: "'e + 'a \<Rightarrow> bool" where
  "is_ok r = (case r of Inl _ \<Rightarrow> False | Inr _ \<Rightarrow> True)"

lemma is_ok_simps [simp]: "is_ok (Inr x)" "\<not> is_ok (Inl e)"
  by (simp_all add: is_ok_def)

lemma is_ok_iff: "is_ok r \<longleftrightarrow> (\<exists>x. r = Inr x)"
  by (cases r) auto

text \<open>A loop over a slice whose body can fail, threading a state.\<close>

fun rfold :: "('a \<Rightarrow> 's \<Rightarrow> 'e + 's) \<Rightarrow> 'a list \<Rightarrow> 's \<Rightarrow> 'e + 's" where
  "rfold f [] s = Inr s"
| "rfold f (x # xs) s = rbind (f x s) (rfold f xs)"

lemma rfold_append: "rfold f (xs @ ys) s = rbind (rfold f xs s) (rfold f ys)"
  by (induction xs arbitrary: s) (auto simp: rbind_def split: sum.splits)

lemma rfold_preserves:
  assumes "rfold f xs s = Inr t" and "P s"
    and "\<And>x s t. x \<in> set xs \<Longrightarrow> f x s = Inr t \<Longrightarrow> P s \<Longrightarrow> P t"
  shows "P t"
  using assms by (induction xs arbitrary: s) auto

text \<open>Mapping a fallible function over a slice, stopping at the first error.\<close>

fun rmap :: "('a \<Rightarrow> 'e + 'b) \<Rightarrow> 'a list \<Rightarrow> 'e + 'b list" where
  "rmap f [] = Inr []"
| "rmap f (x # xs) = rbind (f x) (\<lambda>y. rbind (rmap f xs) (\<lambda>ys. Inr (y # ys)))"

lemma rmap_Inr_iff:
  "rmap f xs = Inr ys \<longleftrightarrow> list_all2 (\<lambda>x y. f x = Inr y) xs ys"
  by (induction xs arbitrary: ys) (auto simp: list_all2_Cons1)

section \<open>Go's integers\<close>

type_synonym int64 = "64 word"
type_synonym time = int

definition min_int64 :: int where "min_int64 = - (2 ^ 63)"
definition max_int64 :: int where "max_int64 = 2 ^ 63 - 1"

definition fits64 :: "int \<Rightarrow> bool" where
  "fits64 x \<longleftrightarrow> min_int64 \<le> x \<and> x \<le> max_int64"

lemma sint64_range: "- (2 ^ 63) \<le> sint (w :: int64)" "sint (w :: int64) \<le> 2 ^ 63 - 1"
  using sint_greater_eq [of w] sint_less [of w] by (simp_all)

lemma fits64_sint [simp]: "fits64 (sint (w :: int64))"
  using sint64_range [of w] by (simp add: fits64_def min_int64_def max_int64_def)

lemma sint_of_int64: "fits64 x \<Longrightarrow> sint (of_int x :: int64) = x"
  unfolding fits64_def min_int64_def max_int64_def
  by (simp add: signed_of_int signed_take_bit_int_eq_self)

lemma of_int_sint64 [simp]: "(of_int (sint (w :: int64)) :: int64) = w"
  by simp

lemma sint64_inj: "sint (a :: int64) = sint b \<longleftrightarrow> a = b"
  by (metis of_int_sint64)

lemma sint64_0 [simp]: "sint (0 :: int64) = 0"
  by simp

lemma sint64_eq_0 [simp]: "sint (w :: int64) = 0 \<longleftrightarrow> w = 0"
  by (metis sint64_0 sint64_inj)

lemma sint64_add: "fits64 (sint a + sint b) \<Longrightarrow> sint (a + b :: int64) = sint a + sint b"
  using sint_of_int64 [of "sint a + sint b"] by (simp)

lemma sint64_sub: "fits64 (sint a - sint b) \<Longrightarrow> sint (a - b :: int64) = sint a - sint b"
  using sint_of_int64 [of "sint a - sint b"] by (simp)

lemma sint64_neg: "fits64 (- sint a) \<Longrightarrow> sint (- a :: int64) = - sint a"
  using sint_of_int64 [of "- sint a"] by (simp)

lemma sint64_mult: "fits64 (sint a * sint b) \<Longrightarrow> sint (a * b :: int64) = sint a * sint b"
  using sint_of_int64 [of "sint a * sint b"] by (simp)

text \<open>What the wrap-around can do to a sum, a difference and an exclusive or.\<close>

lemma sint_of_int64_mod: "\<exists>k. sint (of_int x :: int64) = x + k * 2 ^ 64"
proof -
  have "(of_int (sint (of_int x :: int64)) :: int64) = of_int x" by simp
  then have "take_bit 64 (sint (of_int x :: int64)) = take_bit 64 x"
    using word_of_int_eq_iff [where 'a = 64, of "sint (of_int x :: int64)" x] by simp
  then have "2 ^ 64 dvd sint (of_int x :: int64) - x"
    by (simp add: take_bit_eq_mod mod_eq_dvd_iff)
  then obtain k where "sint (of_int x :: int64) - x = 2 ^ 64 * k" by (rule dvdE)
  then have "sint (of_int x :: int64) = x + k * 2 ^ 64" by simp
  then show ?thesis by blast
qed

lemma wrap_cases:
  fixes x y :: int
  assumes "y = x + k * 2 ^ 64" and "- (2 ^ 63) \<le> y" "y \<le> 2 ^ 63 - 1"
    and "- (2 ^ 64) \<le> x" "x \<le> 2 ^ 64"
  shows "y = x \<or> y = x - 2 ^ 64 \<or> y = x + 2 ^ 64"
proof -
  have "k < 2" "-2 < k" using assms by simp_all
  then have "k = -1 \<or> k = 0 \<or> k = 1" by linarith
  then show ?thesis using assms(1) by auto
qed

lemma sint64_add_cases:
  "sint (a + b :: int64) = sint a + sint b \<or>
   sint (a + b) = sint a + sint b - 2 ^ 64 \<or> sint (a + b) = sint a + sint b + 2 ^ 64"
proof -
  obtain k where "sint (a + b) = sint a + sint b + k * 2 ^ 64"
    using sint_of_int64_mod [of "sint a + sint b"] by auto
  then show ?thesis
    using sint64_range [of a] sint64_range [of b] sint64_range [of "a + b"]
    by (intro wrap_cases) auto
qed

lemma sint64_sub_cases:
  "sint (a - b :: int64) = sint a - sint b \<or>
   sint (a - b) = sint a - sint b - 2 ^ 64 \<or> sint (a - b) = sint a - sint b + 2 ^ 64"
proof -
  obtain k where "sint (a - b) = sint a - sint b + k * 2 ^ 64"
    using sint_of_int64_mod [of "sint a - sint b"] by auto
  then show ?thesis
    using sint64_range [of a] sint64_range [of b] sint64_range [of "a - b"]
    by (intro wrap_cases) auto
qed

lemma xor_neg: "(a XOR b :: int64) <s 0 \<longleftrightarrow> (sint a < 0) \<noteq> (sint b < 0)"
  by (simp add: word_sless_alt bit_xor_iff flip: bit_last_iff)
text \<open>Go's \<open>/\<close> and \<open>%\<close> truncate towards zero; division of the smallest value by \<open>-1\<close> wraps.\<close>

definition quot :: "int64 \<Rightarrow> int64 \<Rightarrow> int64" where
  "quot a b = of_int (sgn (sint a) * sgn (sint b) * (\<bar>sint a\<bar> div \<bar>sint b\<bar>))"

definition rem :: "int64 \<Rightarrow> int64 \<Rightarrow> int64" where
  "rem a b = a - quot a b * b"

lemma sint_quot_pos:
  assumes "0 \<le> sint a" and "0 < sint b"
  shows "sint (quot a b) = sint a div sint b"
proof -
  have "0 \<le> sint a div sint b" and "sint a div sint b \<le> sint a"
    using assms zdiv_mono2 [of "sint a" 1 "sint b"] by (simp_all add: pos_imp_zdiv_nonneg_iff)
  then have "fits64 (sint a div sint b)"
    using sint64_range [of a] by (simp add: fits64_def min_int64_def max_int64_def)
  moreover have "sgn (sint a) * sgn (sint b) * (\<bar>sint a\<bar> div \<bar>sint b\<bar>) = sint a div sint b"
    using assms by (auto simp: sgn_if)
  ultimately show ?thesis by (simp add: quot_def sint_of_int64 del: of_int_div)
qed

lemma sint_rem_pos:
  assumes "0 \<le> sint a" and "0 < sint b"
  shows "sint (rem a b) = sint a mod sint b"
proof -
  have q: "sint (quot a b) = sint a div sint b" using assms by (rule sint_quot_pos)
  have m: "sint a - (sint a div sint b) * sint b = sint a mod sint b"
    by (simp add: minus_div_mult_eq_mod)
  have "0 \<le> sint a mod sint b" and "sint a mod sint b \<le> sint a"
    using assms by (simp_all add: zmod_le_nonneg_dividend)
  then have f: "fits64 (sint a mod sint b)"
    using sint64_range [of a] by (simp add: fits64_def min_int64_def max_int64_def)
  have "rem a b = of_int (sint a - sint (quot a b) * sint b)"
    by (simp add: rem_def)
  then show ?thesis using q m f by (simp add: sint_of_int64 del: of_int_diff of_int_mult)
qed

section \<open>Tables\<close>

text \<open>\<open>SELECT ... WHERE p\<close> read with \<open>QueryRow\<close>: the first matching row.\<close>

definition first_row :: "('r \<Rightarrow> bool) \<Rightarrow> 'r list \<Rightarrow> 'r option" where
  "first_row p rows = find p rows"

lemma first_row_Some: "first_row p rows = Some r \<Longrightarrow> r \<in> set rows \<and> p r"
  by (induction rows) (auto simp: first_row_def split: if_splits)

lemma first_row_None: "first_row p rows = None \<longleftrightarrow> (\<forall>r \<in> set rows. \<not> p r)"
  by (auto simp: first_row_def find_None_iff)

lemma first_row_append:
  "first_row p (xs @ ys) = (case first_row p xs of Some r \<Rightarrow> Some r | None \<Rightarrow> first_row p ys)"
  by (induction xs) (auto simp: first_row_def)

lemma first_row_simps [simp]:
  "first_row p [] = None"
  "first_row p (x # xs) = (if p x then Some x else first_row p xs)"
  by (auto simp: first_row_def)

text \<open>A key column identifies its row.\<close>

lemma first_row_unique:
  assumes "distinct (map k rows)" and "r \<in> set rows" and "k r = x"
  shows "first_row (\<lambda>r. k r = x) rows = Some r"
  using assms by (induction rows) (auto simp: image_iff)

lemma first_row_map_key:
  assumes "\<And>r. r \<in> set rows \<Longrightarrow> k (f r) = k r"
  shows "first_row (\<lambda>r. k r = x) (map f rows) = map_option f (first_row (\<lambda>r. k r = x) rows)"
  using assms by (induction rows) auto

text \<open>\<open>UPDATE ... SET f WHERE p\<close>, and the number of rows it touched.\<close>

definition update_rows :: "('r \<Rightarrow> bool) \<Rightarrow> ('r \<Rightarrow> 'r) \<Rightarrow> 'r list \<Rightarrow> 'r list" where
  "update_rows p f rows = map (\<lambda>r. if p r then f r else r) rows"

definition affected :: "('r \<Rightarrow> bool) \<Rightarrow> 'r list \<Rightarrow> nat" where
  "affected p rows = length (filter p rows)"

lemma affected_0: "affected p rows = 0 \<longleftrightarrow> (\<forall>r \<in> set rows. \<not> p r)"
  by (auto simp: affected_def filter_empty_conv)

lemma update_rows_none: "(\<forall>r \<in> set rows. \<not> p r) \<Longrightarrow> update_rows p f rows = rows"
  by (auto simp: update_rows_def map_idI)

lemma length_update_rows [simp]: "length (update_rows p f rows) = length rows"
  by (simp add: update_rows_def)

lemma set_update_rows:
  "r \<in> set (update_rows p f rows) \<longleftrightarrow>
     (\<exists>q \<in> set rows. r = (if p q then f q else q))"
  by (auto simp: update_rows_def)

lemma map_update_rows:
  "(\<And>r. r \<in> set rows \<Longrightarrow> p r \<Longrightarrow> k (f r) = k r) \<Longrightarrow> map k (update_rows p f rows) = map k rows"
  by (auto simp: update_rows_def)

lemma first_row_update_key:
  assumes "\<And>r. p r \<Longrightarrow> k (f r) = k r"
  shows "first_row (\<lambda>r. k r = x) (update_rows p f rows) =
    map_option (\<lambda>r. if p r then f r else r) (first_row (\<lambda>r. k r = x) rows)"
  using assms by (induction rows) (auto simp: update_rows_def)

text \<open>Sums over the rows of a table.\<close>

lemma sum_list_filter_append [simp]:
  "sum_list (map f (filter p (xs @ ys))) = sum_list (map f (filter p xs)) + (sum_list (map f (filter p ys)) :: int)"
  by simp

lemma sum_list_map_perm:
  "mset xs = mset ys \<Longrightarrow> sum_list (map f xs) = (sum_list (map f ys) :: int)"
  by (metis mset_map sum_mset_sum_list)

lemma sum_list_neg: "sum_list (map (\<lambda>x. - f x) xs) = - (sum_list (map f xs) :: int)"
  by (induction xs) auto

lemma sum_list_filter_none:
  "(\<forall>x \<in> set xs. \<not> p x) \<Longrightarrow> sum_list (map f (filter p xs)) = (0 :: int)"
  by (simp add: filter_False)

end
