(* ===== verification/Money.thy ===== *)
theory Money
  imports Prelude
begin

text \<open>
  The money primitive of the ledger and of relayd (\<open>ledger/internal/money\<close>; the package
  \<open>relayd/internal/money\<close> is the same code with other comments): assets, checked arithmetic on
  minor units kept in an \<open>int64\<close>, and the decimal strings of the wire.

  \<^item> \<open>asset\<close> is the closed set of \<open>asset.go\<close>; \<open>OtherAsset s\<close> is any other value of Go's type
    \<open>Asset\<close>, the empty string (the zero value) among them.
  \<^item> \<open>amount\<close> is the struct \<open>Amount\<close>, \<open>Add\<close>, \<open>Sub\<close>, \<open>Neg\<close>, \<open>ParseDecimal\<close> and \<open>Format\<close> its
    operations; an error is the sentinel that \<open>errors.Is\<close> finds in it.
  \<^item> The lemmas show that no operation wraps or rounds, and that a formatted amount parses back.
\<close>

section \<open>Assets\<close>

datatype asset = USDT_BEP20 | USDT_TRC20 | TRX | BNB | OtherAsset string

fun asset_str :: "asset \<Rightarrow> string" where
  "asset_str USDT_BEP20 = ''USDT_BEP20''"
| "asset_str USDT_TRC20 = ''USDT_TRC20''"
| "asset_str TRX = ''TRX''"
| "asset_str BNB = ''BNB''"
| "asset_str (OtherAsset s) = s"

datatype money_error =
    ErrUnknownAsset | ErrZeroValueAmount | ErrAssetMismatch | ErrOverflow
  | ErrInvalidDecimal | ErrTooManyDecimals

fun Decimals :: "asset \<Rightarrow> money_error + nat" where
  "Decimals USDT_BEP20 = Inr 6"
| "Decimals USDT_TRC20 = Inr 6"
| "Decimals TRX = Inr 6"
| "Decimals BNB = Inr 9"
| "Decimals (OtherAsset _) = Inl ErrUnknownAsset"

definition Valid :: "asset \<Rightarrow> bool" where
  "Valid a = is_ok (Decimals a)"

lemma Valid_simps [simp]:
  "Valid USDT_BEP20" "Valid USDT_TRC20" "Valid TRX" "Valid BNB" "\<not> Valid (OtherAsset s)"
  by (simp_all add: Valid_def)

lemma Valid_Decimals: "Valid a \<Longrightarrow> \<exists>d. Decimals a = Inr d \<and> 0 < d"
  by (cases a) auto

lemma Decimals_Inr_Valid: "Decimals a = Inr d \<Longrightarrow> Valid a"
  by (simp add: Valid_def)

lemma asset_str_inj: "Valid a \<Longrightarrow> Valid b \<Longrightarrow> asset_str a = asset_str b \<longleftrightarrow> a = b"
  by (cases a; cases b) auto

section \<open>Amounts\<close>

record amount =
  amt_asset :: asset
  amt_units :: int64

abbreviation Amount :: "asset \<Rightarrow> int64 \<Rightarrow> amount" where
  "Amount a u \<equiv> \<lparr>amt_asset = a, amt_units = u\<rparr>"

lemma Amount_eta [simp]: "Amount (amt_asset a) (amt_units a) = a"
  by (cases a) simp

text \<open>The amount as a mathematical integer.\<close>

abbreviation units :: "amount \<Rightarrow> int" where
  "units a \<equiv> sint (amt_units a)"

definition amount_validate :: "amount \<Rightarrow> money_error + unit" where
  "amount_validate a =
     (if amt_asset a = OtherAsset '''' then Inl ErrZeroValueAmount
      else if \<not> Valid (amt_asset a) then Inl ErrUnknownAsset
      else Inr ())"

lemma amount_validate_Inr [simp]: "amount_validate a = Inr u \<longleftrightarrow> Valid (amt_asset a)"
  by (auto simp: amount_validate_def)

definition checkedAddInt64 :: "int64 \<Rightarrow> int64 \<Rightarrow> int64 \<times> bool" where
  "checkedAddInt64 a b =
     (let res = a + b in
      if 0 <s b \<and> res <s a then (0, False)
      else if b <s 0 \<and> a <s res then (0, False)
      else (res, True))"

definition checkedSubInt64 :: "int64 \<Rightarrow> int64 \<Rightarrow> int64 \<times> bool" where
  "checkedSubInt64 a b =
     (let diff = a - b in
      if (a XOR b) <s 0 \<and> (a XOR diff) <s 0 then (0, False)
      else (diff, True))"

definition Add :: "amount \<Rightarrow> amount \<Rightarrow> money_error + amount" where
  "Add a b =
     rbind (amount_validate a) (\<lambda>_.
     rbind (amount_validate b) (\<lambda>_.
     if amt_asset a \<noteq> amt_asset b then Inl ErrAssetMismatch
     else case checkedAddInt64 (amt_units a) (amt_units b) of (res, ok) \<Rightarrow>
       if \<not> ok then Inl ErrOverflow else Inr (Amount (amt_asset a) res)))"

definition Sub :: "amount \<Rightarrow> amount \<Rightarrow> money_error + amount" where
  "Sub a b =
     rbind (amount_validate a) (\<lambda>_.
     rbind (amount_validate b) (\<lambda>_.
     if amt_asset a \<noteq> amt_asset b then Inl ErrAssetMismatch
     else case checkedSubInt64 (amt_units a) (amt_units b) of (diff, ok) \<Rightarrow>
       if \<not> ok then Inl ErrOverflow else Inr (Amount (amt_asset a) diff)))"

definition MinInt64 :: int64 where "MinInt64 = of_int min_int64"

definition Neg :: "amount \<Rightarrow> money_error + amount" where
  "Neg a =
     rbind (amount_validate a) (\<lambda>_.
     if amt_units a = MinInt64 then Inl ErrOverflow
     else Inr (Amount (amt_asset a) (- amt_units a)))"

text \<open>The sign tests of the checked operations are exactly the range tests.\<close>

lemma checkedAddInt64_eq:
  "checkedAddInt64 a b = (if fits64 (sint a + sint b) then (a + b, True) else (0, False))"
proof -
  have "fits64 (sint a + sint b) \<longleftrightarrow> \<not> (0 < sint b \<and> sint (a + b) < sint a) \<and> \<not> (sint b < 0 \<and> sint a < sint (a + b))"
    using sint64_add_cases [of a b] sint64_range [of a] sint64_range [of b] sint64_range [of "a + b"]
    by (auto simp: fits64_def min_int64_def max_int64_def)
  then show ?thesis by (auto simp: checkedAddInt64_def Let_def word_sless_alt)
qed

lemma checkedSubInt64_eq:
  "checkedSubInt64 a b = (if fits64 (sint a - sint b) then (a - b, True) else (0, False))"
proof -
  have "fits64 (sint a - sint b) \<longleftrightarrow>
      \<not> ((sint a < 0) \<noteq> (sint b < 0) \<and> (sint a < 0) \<noteq> (sint (a - b) < 0))"
    using sint64_sub_cases [of a b] sint64_range [of a] sint64_range [of b] sint64_range [of "a - b"]
    by (auto simp: fits64_def min_int64_def max_int64_def)
  then show ?thesis by (auto simp: checkedSubInt64_def Let_def xor_neg)
qed

lemma Add_Inr:
  "Add a b = Inr c \<longleftrightarrow>
     Valid (amt_asset a) \<and> amt_asset b = amt_asset a \<and> fits64 (units a + units b) \<and>
     c = Amount (amt_asset a) (of_int (units a + units b))"
  by (auto simp: Add_def checkedAddInt64_eq)

lemma Sub_Inr:
  "Sub a b = Inr c \<longleftrightarrow>
     Valid (amt_asset a) \<and> amt_asset b = amt_asset a \<and> fits64 (units a - units b) \<and>
     c = Amount (amt_asset a) (of_int (units a - units b))"
  by (auto simp: Sub_def checkedSubInt64_eq)

lemma units_of_int [simp]: "fits64 x \<Longrightarrow> units (Amount a (of_int x)) = x"
  by (simp add: sint_of_int64)

lemma sint_MinInt64: "sint MinInt64 = min_int64"
  unfolding MinInt64_def by (rule sint_of_int64) (simp add: fits64_def min_int64_def max_int64_def)

lemma MinInt64_iff: "u = MinInt64 \<longleftrightarrow> sint u = min_int64"
  using sint64_inj [of u MinInt64] by (simp add: sint_MinInt64)

lemma fits64_neg_iff: "fits64 (- sint u) \<longleftrightarrow> u \<noteq> MinInt64"
  using sint64_range [of u] by (auto simp: MinInt64_iff fits64_def min_int64_def max_int64_def)

lemma Neg_Inr:
  "Neg a = Inr c \<longleftrightarrow>
     Valid (amt_asset a) \<and> fits64 (- units a) \<and> c = Amount (amt_asset a) (of_int (- units a))"
  by (auto simp: Neg_def fits64_neg_iff)

section \<open>Decimal strings\<close>

text \<open>What the code uses of \<open>strconv\<close> and \<open>strings\<close>: \<open>FormatInt(n, 10)\<close> and \<open>ParseInt(s, 10, 64)\<close>
  on unsigned digit strings (the only ones that reach it), and \<open>strings.Cut\<close> at the first dot.\<close>

definition digit_char :: "nat \<Rightarrow> char" where
  "digit_char n = char_of (48 + n)"

definition is_digit :: "char \<Rightarrow> bool" where
  "is_digit c \<longleftrightarrow> 48 \<le> (of_char c :: nat) \<and> (of_char c :: nat) \<le> 57"

fun nat_digits :: "nat \<Rightarrow> string" where
  "nat_digits n = (if n < 10 then [digit_char n] else nat_digits (n div 10) @ [digit_char (n mod 10)])"

declare nat_digits.simps [simp del]

definition fmt_int :: "int \<Rightarrow> string" where
  "fmt_int i = (if i < 0 then CHR ''-'' # nat_digits (nat (- i)) else nat_digits (nat i))"

definition FormatInt :: "int64 \<Rightarrow> string" where
  "FormatInt w = fmt_int (sint w)"

definition digits_value :: "string \<Rightarrow> nat" where
  "digits_value s = foldl (\<lambda>n c. 10 * n + (of_char c - 48)) 0 s"

definition ParseInt :: "string \<Rightarrow> int64 option" where
  "ParseInt s =
     (if s = [] \<or> \<not> list_all is_digit s \<or> max_int64 < int (digits_value s) then None
      else Some (of_int (int (digits_value s))))"

text \<open>The same with a sign, as the environment and query parameters are parsed.\<close>

definition ParseInt_signed :: "string \<Rightarrow> int option" where
  "ParseInt_signed s =
     (let neg = (s \<noteq> [] \<and> hd s = CHR ''-'');
          digits = (if s \<noteq> [] \<and> (hd s = CHR ''-'' \<or> hd s = CHR ''+'') then tl s else s);
          v = (if neg then - int (digits_value digits) else int (digits_value digits))
      in if digits = [] \<or> \<not> list_all is_digit digits \<or> \<not> fits64 v then None else Some v)"

definition cut_dot :: "string \<Rightarrow> string \<times> string \<times> bool" where
  "cut_dot s =
     (takeWhile (\<lambda>c. c \<noteq> CHR ''.'') s, drop 1 (dropWhile (\<lambda>c. c \<noteq> CHR ''.'') s),
      CHR ''.'' \<in> set s)"

definition isDigits :: "string \<Rightarrow> bool" where
  "isDigits s \<longleftrightarrow> s \<noteq> '''' \<and> list_all is_digit s"

definition strip_sign :: "string \<Rightarrow> bool \<times> string" where
  "strip_sign s =
     (case s of [] \<Rightarrow> (False, [])
      | c # rest \<Rightarrow> if c = CHR ''-'' then (True, rest) else if c = CHR ''+'' then (False, rest)
                   else (False, c # rest))"

definition ParseDecimal :: "string \<Rightarrow> asset \<Rightarrow> money_error + amount" where
  "ParseDecimal s asset =
     rbind (Decimals asset) (\<lambda>decimals.
     if s = '''' then Inl ErrInvalidDecimal else
     (case strip_sign s of (neg, rest) \<Rightarrow>
      if rest = '''' then Inl ErrInvalidDecimal else
      (case cut_dot rest of (intPart, fracPart, hasDot) \<Rightarrow>
       if hasDot \<and> CHR ''.'' \<in> set fracPart then Inl ErrInvalidDecimal
       else if intPart = '''' \<and> fracPart = '''' then Inl ErrInvalidDecimal
       else
        (let intPart = (if intPart = '''' then ''0'' else intPart) in
         if \<not> isDigits intPart then Inl ErrInvalidDecimal
         else if fracPart \<noteq> '''' \<and> \<not> isDigits fracPart then Inl ErrInvalidDecimal
         else if decimals < length fracPart then Inl ErrTooManyDecimals
         else
          (let digits = intPart @ fracPart @ replicate (decimals - length fracPart) (CHR ''0'') in
           case ParseInt digits of
             None \<Rightarrow> Inl ErrOverflow
           | Some u \<Rightarrow>
               if neg then
                 (case Neg (Amount asset u) of
                    Inl _ \<Rightarrow> Inl ErrOverflow
                  | Inr negUnits \<Rightarrow> Inr (Amount asset (amt_units negUnits)))
               else Inr (Amount asset u))))))"

text \<open>\<open>pad_zeros k s\<close> is the loop that puts zeros in front until there are \<open>k\<close> digits.\<close>

function pad_zeros :: "nat \<Rightarrow> string \<Rightarrow> string" where
  "pad_zeros k s = (if length s < k then pad_zeros k (CHR ''0'' # s) else s)"
  by auto
termination by (relation "measure (\<lambda>(k, s). k - length s)") auto

declare pad_zeros.simps [simp del]

definition Format :: "amount \<Rightarrow> money_error + string" where
  "Format a =
     rbind (amount_validate a) (\<lambda>_.
     rbind (Decimals (amt_asset a)) (\<lambda>decimals.
     let neg = amt_units a <s 0;
         digits = FormatInt (amt_units a);
         digits = (if neg then drop 1 digits else digits);
         digits = pad_zeros (decimals + 1) digits;
         intPart = take (length digits - decimals) digits;
         fracPart = drop (length digits - decimals) digits;
         out = (if 0 < decimals then intPart @ ''.'' @ fracPart else intPart)
     in Inr (if neg then ''-'' @ out else out)))"

subsection \<open>Digit strings\<close>

lemma of_char_digit: "n < 10 \<Longrightarrow> (of_char (digit_char n) :: nat) = 48 + n"
  by (simp add: digit_char_def)

lemma is_digit_char: "n < 10 \<Longrightarrow> is_digit (digit_char n)"
  by (simp add: is_digit_def of_char_digit)

lemma not_digit [simp]: "\<not> is_digit (CHR ''.'')" "\<not> is_digit (CHR ''-'')" "\<not> is_digit (CHR ''+'')"
  and digit_0 [simp]: "is_digit (CHR ''0'')"
  by (simp_all add: is_digit_def)

lemma nat_digits_digits [simp]: "list_all is_digit (nat_digits n)"
proof (induction n rule: nat_digits.induct)
  case (1 n)
  show ?case
  proof (cases "n < 10")
    case True
    then show ?thesis by (simp add: nat_digits.simps [of n] is_digit_char)
  next
    case False
    then show ?thesis using 1 by (simp add: nat_digits.simps [of n] is_digit_char)
  qed
qed

lemma nat_digits_nonempty [simp]: "nat_digits n \<noteq> []"
  by (simp add: nat_digits.simps [of n])

lemma digits_value_snoc: "digits_value (s @ [c]) = 10 * digits_value s + (of_char c - 48)"
  by (simp add: digits_value_def)

lemma digits_value_nat_digits [simp]: "digits_value (nat_digits n) = n"
proof (induction n rule: nat_digits.induct)
  case (1 n)
  show ?case
  proof (cases "n < 10")
    case True
    then show ?thesis by (simp add: nat_digits.simps [of n] digits_value_def of_char_digit)
  next
    case False
    then show ?thesis using 1
      by (simp add: nat_digits.simps [of n] digits_value_snoc of_char_digit)
  qed
qed

lemma foldl_digits_add:
  "foldl (\<lambda>n c. 10 * n + (of_char c - 48 :: nat)) n s = n * 10 ^ length s + digits_value s"
proof (induction s rule: rev_induct)
  case Nil
  then show ?case by (simp add: digits_value_def)
next
  case (snoc c s)
  then show ?case by (simp add: digits_value_snoc algebra_simps)
qed

lemma digits_value_append:
  "digits_value (s @ t) = digits_value s * 10 ^ length t + digits_value t"
  using foldl_digits_add [of "digits_value s" t] by (simp add: digits_value_def)

lemma digits_value_zeros [simp]: "digits_value (replicate k (CHR ''0'')) = 0"
  by (induction k) (simp_all add: digits_value_def flip: replicate_append_same)

lemma digits_value_Nil [simp]: "digits_value [] = 0"
  by (simp add: digits_value_def)

lemma pad_zeros_eq: "pad_zeros k s = replicate (k - length s) (CHR ''0'') @ s"
proof (induction k s rule: pad_zeros.induct)
  case (1 k s)
  show ?case
  proof (cases "length s < k")
    case True
    then have "k - length s = Suc (k - Suc (length s))" by simp
    then show ?thesis using 1 True
      by (simp add: pad_zeros.simps [of k s] replicate_app_Cons_same)
  next
    case False
    then show ?thesis by (simp add: pad_zeros.simps [of k s])
  qed
qed

lemma digits_value_pad [simp]: "digits_value (pad_zeros k s) = digits_value s"
  by (simp add: pad_zeros_eq digits_value_append)

lemma pad_zeros_digits: "list_all is_digit s \<Longrightarrow> list_all is_digit (pad_zeros k s)"
  by (auto simp: pad_zeros_eq list_all_iff)

lemma length_pad_zeros: "length (pad_zeros k s) = max k (length s)"
  by (simp add: pad_zeros_eq max_def)

lemma digits_no_dot: "list_all is_digit s \<Longrightarrow> CHR ''.'' \<notin> set s"
  by (auto simp: list_all_iff)

subsection \<open>What is accepted, and the round trip\<close>

lemma ParseInt_Some:
  "ParseInt s = Some u \<longleftrightarrow>
     s \<noteq> [] \<and> list_all is_digit s \<and> int (digits_value s) \<le> max_int64 \<and> u = of_int (int (digits_value s))"
  by (auto simp: ParseInt_def)

lemma ParseInt_None:
  "ParseInt s = None \<longleftrightarrow> s = [] \<or> \<not> list_all is_digit s \<or> max_int64 < int (digits_value s)"
  by (auto simp: ParseInt_def)

lemma fits64_digits: "int n \<le> max_int64 \<Longrightarrow> fits64 (int n)" "int n \<le> max_int64 \<Longrightarrow> fits64 (- int n)"
  by (simp_all add: fits64_def min_int64_def max_int64_def)

lemma units_digits:
  assumes "ParseInt s = Some u"
  shows "sint u = int (digits_value s)"
  using assms by (simp add: ParseInt_Some sint_of_int64 fits64_digits del: of_int_of_nat_eq)

lemma ParseInt_Neg:
  assumes "ParseInt s = Some u" and "Valid a"
  shows "Neg (Amount a u) = Inr (Amount a (of_int (- int (digits_value s))))"
  using assms units_digits [OF assms(1)]
  by (simp add: Neg_Inr fits64_digits ParseInt_Some)

definition parsed_digits :: "nat \<Rightarrow> string \<Rightarrow> string \<Rightarrow> string" where
  "parsed_digits d i f = (if i = '''' then ''0'' else i) @ f @ replicate (d - length f) (CHR ''0'')"

lemma digits_value_parsed:
  "digits_value (parsed_digits d i f) = digits_value (i @ f) * 10 ^ (d - length f)"
  by (simp add: parsed_digits_def digits_value_append digits_value_def [of "''0''"] algebra_simps
      power_add [symmetric])

lemma parsed_digits_digits:
  "list_all is_digit (parsed_digits d i f) \<longleftrightarrow> list_all is_digit (i @ f)"
  by (auto simp: parsed_digits_def list_all_iff)

lemma parsed_digits_nonempty: "parsed_digits d i f \<noteq> []"
  by (simp add: parsed_digits_def)

lemma ParseDecimal_Inr:
  "ParseDecimal s a = Inr r \<longleftrightarrow>
     (\<exists>d neg rest i f hasDot. Decimals a = Inr d \<and> strip_sign s = (neg, rest) \<and>
        cut_dot rest = (i, f, hasDot) \<and> i @ f \<noteq> [] \<and> list_all is_digit (i @ f) \<and> length f \<le> d \<and>
        int (digits_value (i @ f) * 10 ^ (d - length f)) \<le> max_int64 \<and>
        r = Amount a (of_int ((if neg then -1 else 1) * int (digits_value (i @ f) * 10 ^ (d - length f)))))"
    (is "?L \<longleftrightarrow> ?R")
proof (cases "Decimals a")
  case (Inl e)
  then show ?thesis by (simp add: ParseDecimal_def)
next
  case (Inr d)
  obtain neg rest where sg: "strip_sign s = (neg, rest)" by fastforce
  obtain i f h where ct: "cut_dot rest = (i, f, h)" by (metis prod_cases3)
  let ?ds = "parsed_digits d i f"
  have v: "Valid a" using Inr by (rule Decimals_Inr_Valid)
  have empty: "s = [] \<Longrightarrow> rest = []" "rest = [] \<Longrightarrow> i = [] \<and> f = []"
    using sg ct by (auto simp: strip_sign_def cut_dot_def)
  have ok: "?L \<longleftrightarrow> i @ f \<noteq> [] \<and> list_all is_digit (i @ f) \<and> length f \<le> d \<and>
      (case ParseInt ?ds of None \<Rightarrow> False
       | Some u \<Rightarrow> r = (if neg then Amount a (of_int (- int (digits_value ?ds))) else Amount a u))"
    using empty digits_no_dot [of f] Inr sg ct v
    apply (auto simp: ParseDecimal_def isDigits_def parsed_digits_def Let_def ParseInt_Neg
        split: option.splits if_splits)
    done
  show ?thesis
    using Inr sg ct unfolding ok
    by (auto simp: ParseInt_Some ParseInt_None digits_value_parsed parsed_digits_digits parsed_digits_nonempty
        split: option.splits)
qed


lemma sint_abs_digits:
  assumes "w \<noteq> MinInt64"
  shows "(if w <s 0 then -1 else 1) * int (nat \<bar>sint w\<bar>) = sint w"
    and "int (nat \<bar>sint w\<bar>) \<le> max_int64"
  using assms sint64_range [of w]
  by (auto simp: word_sless_alt MinInt64_iff min_int64_def max_int64_def)

lemma FormatInt_digits:
  "w <s 0 \<Longrightarrow> FormatInt w = CHR ''-'' # nat_digits (nat \<bar>sint w\<bar>)"
  "\<not> w <s 0 \<Longrightarrow> FormatInt w = nat_digits (nat \<bar>sint w\<bar>)"
  by (auto simp: FormatInt_def fmt_int_def word_sless_alt)

lemma take_drop_pad:
  assumes "d < length p"
  shows "take (length p - d) p \<noteq> []" "length (drop (length p - d) p) = d"
  using assms by auto

lemma Format_Inr:
  assumes "Decimals (amt_asset a) = Inr d"
  defines "p \<equiv> pad_zeros (d + 1) (nat_digits (nat \<bar>units a\<bar>))"
  shows "Format a = Inr ((if amt_units a <s 0 then ''-'' else '''') @
           take (length p - d) p @ ''.'' @ drop (length p - d) p)"
  using assms Valid_Decimals [of "amt_asset a"] Decimals_Inr_Valid [of "amt_asset a" d]
  by (auto simp: Format_def Let_def FormatInt_digits p_def)

lemma cut_dot_digits:
  assumes "list_all is_digit i"
  shows "cut_dot (i @ ''.'' @ f) = (i, f, True)"
proof -
  have "\<forall>c \<in> set i. c \<noteq> CHR ''.''" using digits_no_dot [OF assms] by blast
  then show ?thesis by (simp add: cut_dot_def takeWhile_append dropWhile_append2)
qed

lemma Format_ParseDecimal:
  assumes v: "Valid (amt_asset a)" and m: "amt_units a \<noteq> MinInt64"
  shows "rbind (Format a) (\<lambda>s. ParseDecimal s (amt_asset a)) = Inr a"
proof -
  obtain d where d: "Decimals (amt_asset a) = Inr d" using v Valid_Decimals by blast
  define p where "p = pad_zeros (d + 1) (nat_digits (nat \<bar>units a\<bar>))"
  define i where "i = take (length p - d) p"
  define f where "f = drop (length p - d) p"
  have p: "i @ f = p" by (simp add: i_def f_def)
  have "d < length p" by (simp add: p_def length_pad_zeros)
  then have i0: "i \<noteq> []" and lf: "length f = d" unfolding i_def f_def by (rule take_drop_pad)+
  have dg: "list_all is_digit (i @ f)" unfolding p p_def by (rule pad_zeros_digits) simp
  have val: "digits_value (i @ f) = nat \<bar>units a\<bar>" by (simp add: p p_def)
  let ?neg = "amt_units a <s 0"
  have fmt: "Format a = Inr ((if ?neg then ''-'' else '''') @ i @ ''.'' @ f)" (is "_ = Inr ?s")
    using Format_Inr [OF d] by (simp add: i_def f_def p_def)
  have sg: "strip_sign ?s = (?neg, i @ ''.'' @ f)"
    using i0 dg by (cases i) (auto simp: strip_sign_def)
  have ct: "cut_dot (i @ ''.'' @ f) = (i, f, True)" using dg by (intro cut_dot_digits) simp
  have "ParseDecimal ?s (amt_asset a) = Inr a"
    unfolding ParseDecimal_Inr using d sg ct i0 dg lf val sint_abs_digits [OF m]
    by (intro exI [of _ d] exI [of _ ?neg] exI [of _ "i @ ''.'' @ f"] exI [of _ i] exI [of _ f]
        exI [of _ True]) (auto simp del: of_int_mult)
  then show ?thesis by (simp add: fmt)
qed

text \<open>The one amount that does not come back: its digits exceed what \<open>ParseInt\<close> takes before the sign
  is applied.\<close>

lemma Format_MinInt64:
  assumes v: "Valid (amt_asset a)" and m: "amt_units a = MinInt64"
  shows "rbind (Format a) (\<lambda>s. ParseDecimal s (amt_asset a)) = Inl ErrOverflow"
proof -
  obtain d where d: "Decimals (amt_asset a) = Inr d" using v Valid_Decimals by blast
  define p where "p = pad_zeros (d + 1) (nat_digits (nat \<bar>units a\<bar>))"
  define i where "i = take (length p - d) p"
  define f where "f = drop (length p - d) p"
  have p: "i @ f = p" by (simp add: i_def f_def)
  have "d < length p" by (simp add: p_def length_pad_zeros)
  then have i0: "i \<noteq> []" and lf: "length f = d" unfolding i_def f_def by (rule take_drop_pad)+
  have dg: "list_all is_digit (i @ f)" unfolding p p_def by (rule pad_zeros_digits) simp
  have val: "digits_value (i @ f) = 2 ^ 63" by (simp add: p p_def m sint_MinInt64 min_int64_def)
  have neg: "amt_units a <s 0" by (simp add: m word_sless_alt sint_MinInt64 min_int64_def)
  have fmt: "Format a = Inr (''-'' @ i @ ''.'' @ f)" (is "_ = Inr ?s")
    using Format_Inr [OF d] neg by (simp add: i_def f_def p_def)
  have ct: "cut_dot (i @ ''.'' @ f) = (i, f, True)" using dg by (intro cut_dot_digits) simp
  have "ParseInt (i @ f) = None" by (simp add: ParseInt_None val max_int64_def)
  then have "ParseDecimal ?s (amt_asset a) = Inl ErrOverflow"
    using d ct i0 dg lf digits_no_dot [of f]
    by (auto simp: ParseDecimal_def strip_sign_def isDigits_def Let_def)
  then show ?thesis by (simp add: fmt)
qed

end
