(* ===== verification/Ledger_Schema.thy ===== *)
theory Ledger_Schema
  imports Money
begin

text \<open>
  The ledger's database (\<open>ledger/migrations\<close>) as the operations of \<open>ledger/internal\<close> see it, and
  the errors they return.

  \<^item> Every table is the list of its rows in insertion order; a \<open>bigserial\<close> column has its sequence
    beside the table. An operation maps a database to an error or to the next database with its
    result: the error branch is the transaction that is rolled back. (PostgreSQL does not roll
    a sequence back, which leaves gaps in the ids and nothing else.)
  \<^item> \<open>db_now\<close> is SQL's \<open>now()\<close>, the time of the current transaction. A Go \<open>time.Time\<close> is a number
    of nanoseconds, \<open>0\<close> the zero time; \<open>timestamptz\<close> keeps microseconds.
  \<^item> \<open>numeric(38,0)\<close> is an integer of at most 38 digits, wider than the \<open>int64\<close> it is read into.
  \<^item> \<open>jsonb\<close> is a list of keys and rendered values.
\<close>

type_synonym metadata = "(string \<times> string) list"
type_synonym hash = string

datatype account_type = Asset | Liability | Revenue | Expense | Equity | Position | OtherType string

record account =
  acc_id :: int
  acc_code :: string
  acc_type :: account_type
  acc_asset :: asset
  normal_side :: int
  is_active :: bool
  opened_at :: time
  acc_metadata :: metadata

record entry_row =
  e_id :: int
  e_key :: string
  e_hash :: hash
  e_type :: string
  e_order :: "int option"
  e_actor :: string
  e_occurred_at :: time
  e_recorded_at :: time
  e_reversal_of :: "int option"
  e_metadata :: metadata

record line_row =
  l_entry :: int
  l_seq :: int
  l_account :: int
  l_asset :: asset
  l_units :: int

record balance_row =
  b_account :: int
  b_asset :: asset
  b_units :: int
  b_last_entry :: int
  b_updated_at :: time

datatype state =
    Quoted | Funded | Screened | Dispatching | Settled | Held | Refunded | Expired
  | OtherState string

datatype tier = Direct | Standard | Sweep | Relay | OtherTier string

datatype direction = BEP20_TO_TRC20 | TRC20_TO_BEP20

record order_row =
  r_id :: int
  r_external_id :: string
  r_customer_id :: string
  r_tier :: tier
  r_state :: state
  r_amount_in :: int
  r_amount_out :: int
  r_fee_units :: int
  r_network_fee_units :: int
  r_recipient :: string
  r_sender :: "string option"
  r_quoted_at :: time
  r_quote_expires_at :: time
  r_version :: int
  r_created_at :: time
  r_updated_at :: time
  r_direction :: "direction option"

record transition_row =
  t_id :: int
  t_order :: int
  t_from :: state
  t_to :: state
  t_entry :: "int option"
  t_actor :: string
  t_reason :: string
  t_occurred_at :: time
  t_recorded_at :: time

record system_state =
  halted :: bool
  halt_reason :: "string option"
  halt_detail :: metadata
  halted_at :: "time option"
  halted_by :: "string option"
  cleared_at :: "time option"
  cleared_by :: "string option"

datatype halt_action = ActionSet | ActionClear

record halt_row =
  h_id :: int
  h_action :: halt_action
  h_reason :: "string option"
  h_detail :: metadata
  h_note :: "string option"
  h_actor :: string
  h_occurred_at :: time

record snapshot_row =
  s_id :: int
  s_account :: int
  s_asset :: asset
  s_observed :: int
  s_chain_ref :: string
  s_ledger :: int
  s_watermark :: int
  s_drift :: int
  s_observed_at :: time
  s_recorded_at :: time

record db =
  accounts :: "account list"
  accounts_seq :: int
  entries :: "entry_row list"
  entries_seq :: int
  lines :: "line_row list"
  balances :: "balance_row list"
  orders :: "order_row list"
  orders_seq :: int
  transitions :: "transition_row list"
  transitions_seq :: int
  sys :: system_state
  halt_log :: "halt_row list"
  halt_seq :: int
  snapshots :: "snapshot_row list"
  snapshots_seq :: int
  db_now :: time

text \<open>The database the migrations leave: no rows but the one of \<open>system_state\<close>.\<close>

definition empty_db :: db where
  "empty_db =
     \<lparr>accounts = [], accounts_seq = 0, entries = [], entries_seq = 0, lines = [], balances = [],
      orders = [], orders_seq = 0, transitions = [], transitions_seq = 0,
      sys = \<lparr>halted = False, halt_reason = None, halt_detail = [], halted_at = None,
             halted_by = None, cleared_at = None, cleared_by = None\<rparr>,
      halt_log = [], halt_seq = 0, snapshots = [], snapshots_seq = 0, db_now = 1\<rparr>"

text \<open>What PostgreSQL itself can answer: a violated constraint, a number that does not fit its
  column or the Go variable it is scanned into, an exception raised by a trigger.\<close>

datatype pg_error =
    UniqueViolation | ForeignKeyViolation | CheckViolation | NumericOverflow | ScanRange
  | RaisedException

datatype ledger_error =
    MoneyErr money_error
  | DbErr pg_error
  | ErrUnknownAccountType | ErrInvalidCode | ErrAccountNotFound
  | ErrTooFewLines | ErrTooManyLines | ErrZeroAmountLine | ErrLineAssetMismatch | ErrUnbalanced
  | ErrInvalidIdempotencyKey | ErrIdempotencyConflict
  | ErrEntryNotFound | ErrAlreadyReversed | ErrCannotReverseAReversal | ErrInvalidReverseParams
  | ErrClearRequiresOperator | ErrSystemHalted | ErrHaltCacheNotConfigured
  | ErrOrderNotFound | ErrIllegalTransition | ErrVersionConflict | ErrEntryRequired
  | ErrEntryNotAllowed | ErrInvalidParams | ErrUnexpectedState
  | ErrInvalidSnapshotParams

text \<open>\<open>fmt.Errorf("...: %w", err)\<close> around an error of the package \<open>money\<close>.\<close>

definition lift_money :: "money_error + 'a \<Rightarrow> ledger_error + 'a" where
  "lift_money r = (case r of Inl e \<Rightarrow> Inl (MoneyErr e) | Inr x \<Rightarrow> Inr x)"

lemma lift_money_Inr [simp]: "lift_money r = Inr x \<longleftrightarrow> r = Inr x"
  by (cases r) (auto simp: lift_money_def)

lemma lift_money_simps [simp]: "lift_money (Inr x) = Inr x" "lift_money (Inl e) = Inl (MoneyErr e)"
  by (simp_all add: lift_money_def)

text \<open>Columns.\<close>

definition numeric38 :: "int \<Rightarrow> bool" where
  "numeric38 x \<longleftrightarrow> \<bar>x\<bar> < 10 ^ 38"

definition pg_time :: "time \<Rightarrow> time" where
  "pg_time t = t div 1000 * 1000"

lemma numeric38_sint [simp]: "numeric38 (sint (w :: int64))"
  using sint64_range [of w] by (simp add: numeric38_def)

text \<open>\<open>row.Scan(&units)\<close> of a numeric column into an \<open>int64\<close>.\<close>

definition scan_int64 :: "int \<Rightarrow> ledger_error + int64" where
  "scan_int64 x = (if fits64 x then Inr (of_int x) else Inl (DbErr ScanRange))"

lemma scan_int64_Inr [simp]: "scan_int64 x = Inr w \<longleftrightarrow> fits64 x \<and> sint w = x"
  by (auto simp: scan_int64_def sint_of_int64)

lemma scan_int64_sint [simp]: "scan_int64 (sint w) = Inr w"
  by (simp add: scan_int64_def)

lemma scan_int64_0 [simp]: "scan_int64 0 = Inr 0"
  using scan_int64_sint [of 0] by simp

end
