(* ===== verification/Accounts.thy ===== *)
theory Accounts
  imports Ledger_Schema
begin

text \<open>
  The chart of accounts (\<open>ledger/internal/accounts\<close>): the sign of an account type, the parser
  of colon-delimited codes, and \<open>Create\<close>, \<open>GetByCode\<close>, \<open>List\<close> and \<open>Seed\<close> on the table.

  \<open>accounts_ok\<close> is the well-formedness of the table: ids and codes identify a row, ids come from
  the sequence, types, assets and signs are the ones the \<open>CHECK\<close> and the enums allow. \<open>Create\<close>
  and \<open>Seed\<close> keep it; \<open>Create\<close> never changes a row that exists.
\<close>

section \<open>Types and signs\<close>

fun NormalSideFor :: "account_type \<Rightarrow> ledger_error + int" where
  "NormalSideFor Asset = Inr 1"
| "NormalSideFor Expense = Inr 1"
| "NormalSideFor Liability = Inr (-1)"
| "NormalSideFor Revenue = Inr (-1)"
| "NormalSideFor Equity = Inr (-1)"
| "NormalSideFor Position = Inr 0"
| "NormalSideFor (OtherType _) = Inl ErrUnknownAccountType"

definition type_valid :: "account_type \<Rightarrow> bool" where
  "type_valid t = is_ok (NormalSideFor t)"

section \<open>Codes\<close>

record code =
  Raw :: string
  Category :: string
  Segments :: "string list"

text \<open>\<open>strings.Split(s, sep)\<close> for a separator of one byte.\<close>

fun split_char :: "char \<Rightarrow> string \<Rightarrow> string list" where
  "split_char sep [] = [[]]"
| "split_char sep (c # cs) =
     (if c = sep then [] # split_char sep cs
      else (case split_char sep cs of [] \<Rightarrow> [[c]] | p # ps \<Rightarrow> (c # p) # ps))"

fun join_char :: "char \<Rightarrow> string list \<Rightarrow> string" where
  "join_char sep [] = []"
| "join_char sep [p] = p"
| "join_char sep (p # q # ps) = p @ sep # join_char sep (q # ps)"

definition ParseCode :: "string \<Rightarrow> ledger_error + code" where
  "ParseCode s =
     (if s = '''' then Inl ErrInvalidCode else
      (let parts = split_char (CHR '':'') s in
       if length parts < 2 then Inl ErrInvalidCode
       else if list_ex (\<lambda>p. p = '''') parts then Inl ErrInvalidCode
       else Inr \<lparr>Raw = s, Category = hd parts, Segments = tl parts\<rparr>))"

definition Segment :: "code \<Rightarrow> int \<Rightarrow> string \<times> bool" where
  "Segment c i =
     (if i < 0 \<or> int (length (Segments c)) \<le> i then ('''', False) else (Segments c ! nat i, True))"

lemma split_char_nonempty [simp]: "split_char sep s \<noteq> []"
  by (cases s) (auto split: list.splits)

lemma join_split [simp]: "join_char sep (split_char sep s) = s"
proof (induction s)
  case (Cons c cs)
  then show ?case
    by (cases "split_char sep cs"; cases "tl (split_char sep cs)") (auto split: list.splits)
qed simp

lemma split_no_sep: "p \<in> set (split_char sep s) \<Longrightarrow> sep \<notin> set p"
proof (induction s arbitrary: p)
  case (Cons c cs)
  then show ?case by (cases "split_char sep cs") (auto split: if_splits list.splits)
qed simp

lemma split_part: "sep \<notin> set p \<Longrightarrow> split_char sep p = [p]"
  by (induction p) auto

lemma split_append: "sep \<notin> set p \<Longrightarrow> split_char sep (p @ sep # s) = p # split_char sep s"
  by (induction p) auto

lemma split_join:
  "ps \<noteq> [] \<Longrightarrow> list_all (\<lambda>p. sep \<notin> set p) ps \<Longrightarrow> split_char sep (join_char sep ps) = ps"
  by (induction sep ps rule: join_char.induct) (auto simp: split_part split_append)

text \<open>\<open>ParseCode\<close> accepts exactly the joins of two or more non-empty parts.\<close>

lemma ParseCode_Inr:
  "ParseCode s = Inr c \<longleftrightarrow>
     s = join_char (CHR '':'') (Category c # Segments c) \<and> Raw c = s \<and> Segments c \<noteq> [] \<and>
     list_all (\<lambda>p. p \<noteq> [] \<and> CHR '':'' \<notin> set p) (Category c # Segments c)"
    (is "?L \<longleftrightarrow> ?R")
proof
  assume ?L
  then have c: "2 \<le> length (split_char (CHR '':'') s)" "[] \<notin> set (split_char (CHR '':'') s)"
    "c = \<lparr>Raw = s, Category = hd (split_char (CHR '':'') s), Segments = tl (split_char (CHR '':'') s)\<rparr>"
    by (auto simp: ParseCode_def Let_def list_ex_iff split: if_splits)
  then have parts: "Category c # Segments c = split_char (CHR '':'') s" by simp
  have "list_all (\<lambda>p. p \<noteq> [] \<and> CHR '':'' \<notin> set p) (split_char (CHR '':'') s)"
    using c(2) split_no_sep by (auto simp: list_all_iff)
  moreover have "Segments c \<noteq> []" using c(1) parts
    by (metis One_nat_def Suc_1 Suc_n_not_le_n length_Cons list.size(3))
  ultimately show ?R unfolding parts using c(3) by simp
next
  assume r: ?R
  have ne: "list_all (\<lambda>p. p \<noteq> [] \<and> CHR '':'' \<notin> set p) (Category c # Segments c)"
    and seg: "Segments c \<noteq> []" and raw: "Raw c = s"
    and s: "s = join_char (CHR '':'') (Category c # Segments c)" using r by blast+
  have sp: "split_char (CHR '':'') s = Category c # Segments c"
    unfolding s by (rule split_join) (use ne in \<open>auto simp: list_all_iff\<close>)
  have "s \<noteq> []" using sp seg by (intro notI) simp
  moreover have "2 \<le> length (Category c # Segments c)" using seg by (cases "Segments c") simp_all
  moreover have "\<not> list_ex (\<lambda>p. p = []) (Category c # Segments c)"
    using ne by (auto simp: list_ex_iff list_all_iff)
  moreover have "c = \<lparr>Raw = s, Category = Category c, Segments = Segments c\<rparr>" using raw by simp
  ultimately show ?L using seg by (simp add: ParseCode_def Let_def sp)
qed

section \<open>The table\<close>

text \<open>\<open>GetByCode\<close>: the row with this code.\<close>

definition GetByCode :: "db \<Rightarrow> string \<Rightarrow> ledger_error + account" where
  "GetByCode db c =
     (case first_row (\<lambda>a. acc_code a = c) (accounts db) of
        None \<Rightarrow> Inl ErrAccountNotFound
      | Some a \<Rightarrow> Inr a)"

text \<open>\<open>INSERT ... ON CONFLICT (code) DO NOTHING\<close>; the sequence advances on a conflict too.\<close>

definition insert_account :: "db \<Rightarrow> string \<Rightarrow> account_type \<Rightarrow> asset \<Rightarrow> int \<Rightarrow> db \<times> account option" where
  "insert_account db c t a side =
     (let i = accounts_seq db + 1;
          row = \<lparr>acc_id = i, acc_code = c, acc_type = t, acc_asset = a, normal_side = side,
                 is_active = True, opened_at = db_now db, acc_metadata = []\<rparr>
      in if first_row (\<lambda>r. acc_code r = c) (accounts db) \<noteq> None
         then (db\<lparr>accounts_seq := i\<rparr>, None)
         else (db\<lparr>accounts := accounts db @ [row], accounts_seq := i\<rparr>, Some row))"

definition CreateAccount :: "db \<Rightarrow> string \<Rightarrow> account_type \<Rightarrow> asset \<Rightarrow> ledger_error + db \<times> account" where
  "CreateAccount db c t a =
     rbind (ParseCode c) (\<lambda>_.
     rbind (guard (\<not> type_valid t) ErrUnknownAccountType) (\<lambda>_.
     rbind (guard (\<not> Valid a) (MoneyErr ErrUnknownAsset)) (\<lambda>_.
     rbind (NormalSideFor t) (\<lambda>side.
     case insert_account db c t a side of
       (db', Some row) \<Rightarrow> Inr (db', row)
     | (db', None) \<Rightarrow> rbind (GetByCode db' c) (\<lambda>row. Inr (db', row))))))"

text \<open>\<open>LIKE\<close>: \<open>%\<close> matches any string, \<open>_\<close> any character, a backslash quotes the next one.\<close>

fun like :: "string \<Rightarrow> string \<Rightarrow> bool" where
  "like [] s = (s = [])"
| "like (p # ps) s =
     (if p = CHR ''%'' then
        like ps s \<or> (case s of [] \<Rightarrow> False | _ # cs \<Rightarrow> like (p # ps) cs)
      else if p = CHR 0x5C then
        (case (ps, s) of (q # qs, c # cs) \<Rightarrow> q = c \<and> like qs cs | _ \<Rightarrow> False)
      else (case s of [] \<Rightarrow> False | c # cs \<Rightarrow> (p = CHR ''_'' \<or> p = c) \<and> like ps cs))"

record list_filter =
  f_prefix :: string
  f_type :: "account_type option"
  f_asset :: "asset option"
  f_inactive :: bool

text \<open>\<open>ORDER BY code\<close> is read in the byte order of the collation \<open>C\<close>.\<close>

definition ListAccounts :: "db \<Rightarrow> list_filter \<Rightarrow> account list" where
  "ListAccounts db f =
     sort_key acc_code
       (filter (\<lambda>a. (f_prefix f = '''' \<or> like (f_prefix f @ ''%'') (acc_code a)) \<and>
                    (case f_type f of None \<Rightarrow> True | Some t \<Rightarrow> acc_type a = t) \<and>
                    (case f_asset f of None \<Rightarrow> True | Some x \<Rightarrow> acc_asset a = x) \<and>
                    (f_inactive f \<or> is_active a))
         (accounts db))"

text \<open>The fixed chart of accounts.\<close>

definition seedChart :: "(string \<times> account_type \<times> asset) list" where
  "seedChart =
     [(''asset:tron:energy_wallet'', Asset, TRX),
      (''position:corridor:USDT_BEP20'', Position, USDT_BEP20),
      (''position:corridor:USDT_TRC20'', Position, USDT_TRC20),
      (''revenue:fee'', Revenue, USDT_TRC20),
      (''revenue:network_fee'', Revenue, USDT_TRC20),
      (''expense:energy'', Expense, TRX),
      (''expense:bandwidth'', Expense, TRX),
      (''expense:gas'', Expense, BNB),
      (''expense:rebalance'', Expense, USDT_TRC20),
      (''expense:loss:reorg'', Expense, USDT_TRC20),
      (''expense:loss:freeze'', Expense, USDT_TRC20),
      (''equity:opening:USDT_BEP20'', Equity, USDT_BEP20),
      (''equity:opening:USDT_TRC20'', Equity, USDT_TRC20),
      (''equity:opening:TRX'', Equity, TRX),
      (''equity:opening:BNB'', Equity, BNB)]"

definition Seed :: "db \<Rightarrow> ledger_error + db" where
  "Seed db = rfold (\<lambda>(c, t, a) db. rbind (CreateAccount db c t a) (\<lambda>(db', _). Inr db')) seedChart db"

section \<open>Well-formedness\<close>

definition account_ok :: "account \<Rightarrow> bool" where
  "account_ok a \<longleftrightarrow>
     NormalSideFor (acc_type a) = Inr (normal_side a) \<and> Valid (acc_asset a) \<and>
     is_ok (ParseCode (acc_code a))"

definition accounts_ok :: "db \<Rightarrow> bool" where
  "accounts_ok db \<longleftrightarrow>
     distinct (map acc_id (accounts db)) \<and> distinct (map acc_code (accounts db)) \<and>
     (\<forall>a \<in> set (accounts db). account_ok a \<and> acc_id a \<le> accounts_seq db)"

lemma accounts_ok_id:
  "accounts_ok db \<Longrightarrow> a \<in> set (accounts db) \<Longrightarrow> b \<in> set (accounts db) \<Longrightarrow> acc_id a = acc_id b \<Longrightarrow> a = b"
  by (auto simp: accounts_ok_def distinct_map dest: inj_onD)

lemma accounts_ok_valid: "accounts_ok db \<Longrightarrow> a \<in> set (accounts db) \<Longrightarrow> Valid (acc_asset a)"
  by (auto simp: accounts_ok_def account_ok_def)

lemma accounts_ok_empty [simp]: "accounts_ok empty_db"
  by (simp add: accounts_ok_def empty_db_def)

lemma GetByCode_Inr:
  "GetByCode db c = Inr a \<Longrightarrow> a \<in> set (accounts db) \<and> acc_code a = c"
  by (auto simp: GetByCode_def dest: first_row_Some split: option.splits)

lemma GetByCode_unique:
  "accounts_ok db \<Longrightarrow> a \<in> set (accounts db) \<Longrightarrow> GetByCode db (acc_code a) = Inr a"
  by (simp add: GetByCode_def accounts_ok_def first_row_unique [where k = acc_code])

lemma GetByCode_cong: "accounts db' = accounts db \<Longrightarrow> GetByCode db' c = GetByCode db c"
  by (simp add: GetByCode_def)

text \<open>What \<open>Create\<close> does, by cases on the code being there.\<close>

lemma CreateAccount_cases:
  assumes "CreateAccount db c t a = Inr (db', row)"
  obtains (existing) "GetByCode db c = Inr row" "db' = db\<lparr>accounts_seq := accounts_seq db + 1\<rparr>"
  | (new) side where "\<forall>r \<in> set (accounts db). acc_code r \<noteq> c" "NormalSideFor t = Inr side" "Valid a"
      "is_ok (ParseCode c)"
      "row = \<lparr>acc_id = accounts_seq db + 1, acc_code = c, acc_type = t, acc_asset = a,
              normal_side = side, is_active = True, opened_at = db_now db, acc_metadata = []\<rparr>"
      "db' = db\<lparr>accounts := accounts db @ [row], accounts_seq := accounts_seq db + 1\<rparr>"
  using assms
  by (auto simp: CreateAccount_def insert_account_def Let_def GetByCode_def first_row_None
      split: if_splits option.splits)

lemma CreateAccount_ok:
  assumes "accounts_ok db" and "CreateAccount db c t a = Inr (db', row)"
  shows "accounts_ok db'"
  using assms(2)
proof (cases rule: CreateAccount_cases)
  case existing
  then show ?thesis using assms(1) by (fastforce simp: accounts_ok_def)
next
  case (new side)
  then show ?thesis using assms(1)
    by (fastforce simp: accounts_ok_def account_ok_def)
qed

lemma CreateAccount_keeps:
  assumes "CreateAccount db c t a = Inr (db', row)" and "GetByCode db k = Inr r"
  shows "GetByCode db' k = Inr r"
  using assms(1)
proof (cases rule: CreateAccount_cases)
  case existing
  then show ?thesis using assms(2) by (simp add: GetByCode_def)
next
  case (new side)
  then show ?thesis using assms(2)
    by (auto simp: GetByCode_def first_row_append split: option.splits)
qed

lemma CreateAccount_get:
  assumes "CreateAccount db c t a = Inr (db', row)"
  shows "GetByCode db' c = Inr row"
  using assms
proof (cases rule: CreateAccount_cases)
  case existing
  then show ?thesis by (simp add: GetByCode_def)
next
  case (new side)
  then have "first_row (\<lambda>a. acc_code a = c) (accounts db) = None" by (simp add: first_row_None)
  then show ?thesis using new by (simp add: GetByCode_def first_row_append)
qed

lemma CreateAccount_total:
  assumes "is_ok (ParseCode c)" and "type_valid t" and "Valid a"
  shows "\<exists>db' row. CreateAccount db c t a = Inr (db', row)"
  using assms
  by (auto simp: CreateAccount_def insert_account_def is_ok_iff type_valid_def Let_def GetByCode_def
      split: option.splits)

lemma Seed_ok:
  assumes "accounts_ok db" and "Seed db = Inr db'"
  shows "accounts_ok db'"
proof (rule rfold_preserves [where P = accounts_ok, OF assms(2) [unfolded Seed_def] assms(1)])
  fix x :: "string \<times> account_type \<times> asset" and s s'
  assume "(\<lambda>(c, t, a) db. rbind (CreateAccount db c t a) (\<lambda>(db', _). Inr db')) x s = Inr s'" "accounts_ok s"
  then show "accounts_ok s'" by (auto split: prod.splits dest: CreateAccount_ok)
qed

end
