(* ===== verification/Journal.thy ===== *)
theory Journal
  imports Accounts "HOL-Library.AList"
begin

text \<open>
  The double-entry journal (\<open>ledger/internal/journal\<close>): validation, the canonical payload hash,
  \<open>Post\<close> with its idempotent replay, \<open>Reverse\<close>, the lookups and the balances.

  The hash itself, SHA-256 of the JSON encoding, is the parameter \<open>digest\<close> of the operations: the
  code computes the payload and relies on the digest only through equality of its bytes. Audit
  logging has no effect on the database and is left out.
\<close>

section \<open>Requests and entries\<close>

record line =
  AccountCode :: string
  LineAmount :: amount

abbreviation Line :: "string \<Rightarrow> amount \<Rightarrow> line" where
  "Line c a \<equiv> \<lparr>AccountCode = c, LineAmount = a\<rparr>"

record entry_request =
  IdempotencyKey :: string
  EntryType :: string
  Actor :: string
  OccurredAt :: time
  OrderID :: "int option"
  Lines :: "line list"
  Metadata :: "metadata option"

record posted_line =
  Seq :: int
  AccountID :: int
  PostedCode :: string
  PostedAmount :: amount

datatype outcome = Created | Replayed

record entry = entry_row +
  e_lines :: "posted_line list"
  e_outcome :: outcome

record resolved_line =
  rl_seq :: int
  rl_account :: account
  rl_amount :: amount

section \<open>The canonical hash\<close>

datatype hash_line = HashLine (hl_code: string) (hl_asset: string) (hl_amount: int)

record hash_payload =
  hp_type :: string
  hp_order :: "int option"
  hp_lines :: "hash_line list"
  hp_occurred :: time

text \<open>The order of the \<open>sort.Slice\<close>: account code, asset, signed amount.\<close>

definition hash_line_before :: "hash_line \<Rightarrow> hash_line \<Rightarrow> bool" where
  "hash_line_before a b \<longleftrightarrow>
     (hl_code a, hl_asset a, hl_amount a) < (hl_code b, hl_asset b, hl_amount b)"

lemma hash_line_before_irrefl: "\<not> hash_line_before a a"
  unfolding hash_line_before_def by (rule less_irrefl)

lemma hash_line_before_trans: "hash_line_before a b \<Longrightarrow> hash_line_before b c \<Longrightarrow> hash_line_before a c"
  unfolding hash_line_before_def by (rule less_trans)

lemma hash_line_before_total: "hash_line_before a b \<or> a = b \<or> hash_line_before b a"
proof -
  have "(hl_code a, hl_asset a, hl_amount a) = (hl_code b, hl_asset b, hl_amount b) \<Longrightarrow> a = b"
    by (cases a; cases b) simp
  then show ?thesis unfolding hash_line_before_def by (metis less_linear)
qed

instantiation hash_line :: linorder
begin

definition less_eq_hash_line :: "hash_line \<Rightarrow> hash_line \<Rightarrow> bool" where
  "less_eq_hash_line a b \<longleftrightarrow> hash_line_before a b \<or> a = b"

definition less_hash_line :: "hash_line \<Rightarrow> hash_line \<Rightarrow> bool" where
  "less_hash_line = hash_line_before"

instance
proof
  fix x y z :: hash_line
  note defs = less_hash_line_def less_eq_hash_line_def
  show "x < y \<longleftrightarrow> x \<le> y \<and> \<not> y \<le> x"
    using hash_line_before_trans [of x y x] hash_line_before_irrefl [of x] by (auto simp: defs)
  show "x \<le> x" by (simp add: defs)
  show "x \<le> z" if "x \<le> y" "y \<le> z"
    using that hash_line_before_trans [of x y z] by (auto simp: defs)
  show "x = y" if "x \<le> y" "y \<le> x"
    using that hash_line_before_trans [of x y x] hash_line_before_irrefl [of x] by (auto simp: defs)
  show "x \<le> y \<or> y \<le> x" using hash_line_before_total [of x y] by (auto simp: defs)
qed

end

definition hash_line_of :: "line \<Rightarrow> hash_line" where
  "hash_line_of l =
     HashLine (AccountCode l) (asset_str (amt_asset (LineAmount l))) (units (LineAmount l))"

definition canonical_payload :: "entry_request \<Rightarrow> hash_payload" where
  "canonical_payload req =
     \<lparr>hp_type = EntryType req, hp_order = OrderID req,
      hp_lines = sort (map hash_line_of (Lines req)),
      hp_occurred = OccurredAt req div 1000 * 1000\<rparr>"

definition canonicalHash :: "(hash_payload \<Rightarrow> hash) \<Rightarrow> entry_request \<Rightarrow> hash" where
  "canonicalHash digest req = digest (canonical_payload req)"

section \<open>Validation\<close>

definition maxLines :: nat where "maxLines = 32767"
definition maxIdempotencyKeyLen :: nat where "maxIdempotencyKeyLen = 255"

definition validateIdempotencyKey :: "string \<Rightarrow> ledger_error + unit" where
  "validateIdempotencyKey key =
     (if key = '''' then Inl ErrInvalidIdempotencyKey
      else if maxIdempotencyKeyLen < length key then Inl ErrInvalidIdempotencyKey
      else Inr ())"

text \<open>One turn of the loop over the lines: \<open>sums\<close> is the map from assets to running totals.\<close>

definition validate_line ::
  "db \<Rightarrow> nat \<times> line \<Rightarrow> resolved_line list \<times> (asset \<times> amount) list \<Rightarrow>
   ledger_error + resolved_line list \<times> (asset \<times> amount) list" where
  "validate_line db il st =
     (case (il, st) of ((i, line), (resolved, sums)) \<Rightarrow>
        rbind (guard (amt_units (LineAmount line) = 0) ErrZeroAmountLine) (\<lambda>_.
        rbind (GetByCode db (AccountCode line)) (\<lambda>acc.
        rbind (guard (amt_asset (LineAmount line) \<noteq> acc_asset acc) ErrLineAssetMismatch) (\<lambda>_.
        let s = (case map_of sums (acc_asset acc) of None \<Rightarrow> Amount (acc_asset acc) 0 | Some s \<Rightarrow> s) in
        rbind (lift_money (Add s (LineAmount line))) (\<lambda>s'.
        Inr (resolved @ [\<lparr>rl_seq = sint (of_nat i :: 16 word), rl_account = acc, rl_amount = LineAmount line\<rparr>],
             AList.update (acc_asset acc) s' sums))))))"

definition validate :: "db \<Rightarrow> entry_request \<Rightarrow> ledger_error + resolved_line list" where
  "validate db req =
     rbind (validateIdempotencyKey (IdempotencyKey req)) (\<lambda>_.
     rbind (guard (length (Lines req) < 2) ErrTooFewLines) (\<lambda>_.
     rbind (guard (maxLines < length (Lines req)) ErrTooManyLines) (\<lambda>_.
     rbind (rfold (validate_line db) (enumerate 0 (Lines req)) ([], [])) (\<lambda>(resolved, sums).
     rbind (guard (list_ex (\<lambda>(_, s). amt_units s \<noteq> 0) sums) ErrUnbalanced) (\<lambda>_.
     Inr resolved)))))"

section \<open>Writing lines and balances\<close>

record line_to_apply =
  la_seq :: int
  la_account :: int
  la_code :: string
  la_asset :: asset
  la_units :: int64

definition has_account :: "db \<Rightarrow> int \<Rightarrow> bool" where
  "has_account db i = list_ex (\<lambda>a. acc_id a = i) (accounts db)"

definition insert_line :: "int \<Rightarrow> line_to_apply \<Rightarrow> db \<Rightarrow> ledger_error + db" where
  "insert_line eid l db =
     (if list_ex (\<lambda>r. l_entry r = eid \<and> l_seq r = la_seq l) (lines db) then Inl (DbErr UniqueViolation)
      else if \<not> has_account db (la_account l) then Inl (DbErr ForeignKeyViolation)
      else Inr (db\<lparr>lines := lines db @
        [\<lparr>l_entry = eid, l_seq = la_seq l, l_account = la_account l, l_asset = la_asset l,
          l_units = sint (la_units l)\<rparr>]\<rparr>))"

text \<open>\<open>INSERT INTO account_balances ... ON CONFLICT (account_id) DO UPDATE\<close>.\<close>

definition apply_balance :: "int \<Rightarrow> line_to_apply \<Rightarrow> db \<Rightarrow> ledger_error + db" where
  "apply_balance eid l db =
     (case first_row (\<lambda>b. b_account b = la_account l) (balances db) of
        None \<Rightarrow>
          if \<not> has_account db (la_account l) then Inl (DbErr ForeignKeyViolation)
          else Inr (db\<lparr>balances := balances db @
            [\<lparr>b_account = la_account l, b_asset = la_asset l, b_units = sint (la_units l),
              b_last_entry = eid, b_updated_at = db_now db\<rparr>]\<rparr>)
      | Some b \<Rightarrow>
          if \<not> numeric38 (b_units b + sint (la_units l)) then Inl (DbErr NumericOverflow)
          else Inr (db\<lparr>balances := update_rows (\<lambda>b. b_account b = la_account l)
            (\<lambda>b. b\<lparr>b_units := b_units b + sint (la_units l), b_last_entry := eid,
                   b_updated_at := db_now db\<rparr>) (balances db)\<rparr>))"

definition posted_of :: "line_to_apply \<Rightarrow> posted_line" where
  "posted_of l = \<lparr>Seq = la_seq l, AccountID = la_account l, PostedCode = la_code l,
     PostedAmount = Amount (la_asset l) (la_units l)\<rparr>"

definition insertLinesAndApplyBalances ::
  "db \<Rightarrow> int \<Rightarrow> line_to_apply list \<Rightarrow> ledger_error + db \<times> posted_line list" where
  "insertLinesAndApplyBalances db eid ls =
     rbind (rfold (insert_line eid) ls db) (\<lambda>db1.
     rbind (rfold (apply_balance eid) (sort_key la_account ls) db1) (\<lambda>db2.
     Inr (db2, map posted_of ls)))"

section \<open>Reading entries\<close>

text \<open>\<open>scanEntry\<close> fills the row; lines and outcome have their zero values.\<close>

definition scanEntry :: "entry_row \<Rightarrow> entry" where
  "scanEntry r = entry_row.extend r (entry.fields [] Created)"

definition getEntryByID :: "db \<Rightarrow> int \<Rightarrow> ledger_error + entry" where
  "getEntryByID db i =
     (case first_row (\<lambda>e. e_id e = i) (entries db) of
        None \<Rightarrow> Inl ErrEntryNotFound | Some r \<Rightarrow> Inr (scanEntry r))"

definition GetEntryByIdempotencyKey :: "db \<Rightarrow> string \<Rightarrow> ledger_error + entry" where
  "GetEntryByIdempotencyKey db k =
     (case first_row (\<lambda>e. e_key e = k) (entries db) of
        None \<Rightarrow> Inl ErrEntryNotFound | Some r \<Rightarrow> Inr (scanEntry r))"

definition joined_lines :: "db \<Rightarrow> int \<Rightarrow> (line_row \<times> account) list" where
  "joined_lines db eid =
     concat (map (\<lambda>l. map (\<lambda>a. (l, a)) (filter (\<lambda>a. acc_id a = l_account l) (accounts db)))
       (sort_key l_seq (filter (\<lambda>l. l_entry l = eid) (lines db))))"

definition scan_line :: "line_row \<times> account \<Rightarrow> ledger_error + posted_line" where
  "scan_line la = (case la of (l, a) \<Rightarrow>
     rbind (scan_int64 (l_units l)) (\<lambda>u.
     Inr \<lparr>Seq = l_seq l, AccountID = l_account l, PostedCode = acc_code a,
          PostedAmount = Amount (l_asset l) u\<rparr>))"

definition loadLines :: "db \<Rightarrow> int \<Rightarrow> ledger_error + posted_line list" where
  "loadLines db eid = rmap scan_line (joined_lines db eid)"

definition withLines :: "db \<Rightarrow> entry \<Rightarrow> ledger_error + entry" where
  "withLines db e = rbind (loadLines db (e_id e)) (\<lambda>ls. Inr (e\<lparr>e_lines := ls\<rparr>))"

definition GetEntry :: "db \<Rightarrow> int \<Rightarrow> ledger_error + entry" where
  "GetEntry db i = rbind (getEntryByID db i) (withLines db)"

definition GetEntryByKey :: "db \<Rightarrow> string \<Rightarrow> ledger_error + entry" where
  "GetEntryByKey db k = rbind (GetEntryByIdempotencyKey db k) (withLines db)"

definition ReversalOf :: "db \<Rightarrow> int \<Rightarrow> ledger_error + entry option" where
  "ReversalOf db i =
     (case first_row (\<lambda>e. e_reversal_of e = Some i) (entries db) of
        None \<Rightarrow> Inr None
      | Some r \<Rightarrow> rbind (withLines db (scanEntry r)) (\<lambda>e. Inr (Some e)))"

section \<open>Post\<close>

text \<open>The row an \<open>INSERT INTO journal_entries\<close> writes: its id is the next of the sequence.\<close>

definition new_entry_row ::
  "db \<Rightarrow> string \<Rightarrow> hash \<Rightarrow> string \<Rightarrow> int option \<Rightarrow> string \<Rightarrow> time \<Rightarrow> int option \<Rightarrow> metadata \<Rightarrow> entry_row" where
  "new_entry_row db key h ty oid actor at ro md =
     \<lparr>e_id = entries_seq db + 1, e_key = key, e_hash = h, e_type = ty, e_order = oid, e_actor = actor,
      e_occurred_at = pg_time at, e_recorded_at = db_now db, e_reversal_of = ro, e_metadata = md\<rparr>"

definition has_order :: "db \<Rightarrow> int \<Rightarrow> bool" where
  "has_order db i = list_ex (\<lambda>r. r_id r = i) (orders db)"

text \<open>The foreign key on \<open>order_id\<close> is checked for a row that is inserted.\<close>

definition order_fk_ok :: "db \<Rightarrow> int option \<Rightarrow> bool" where
  "order_fk_ok db oid = (case oid of None \<Rightarrow> True | Some i \<Rightarrow> has_order db i)"

definition append_entry :: "db \<Rightarrow> entry_row \<Rightarrow> db" where
  "append_entry db r = db\<lparr>entries := entries db @ [r], entries_seq := e_id r\<rparr>"

text \<open>\<open>INSERT ... ON CONFLICT (idempotency_key) DO NOTHING RETURNING ...\<close>.\<close>

definition insert_entry_or_nothing :: "db \<Rightarrow> entry_row \<Rightarrow> ledger_error + db \<times> entry option" where
  "insert_entry_or_nothing db r =
     (if first_row (\<lambda>e. e_key e = e_key r) (entries db) \<noteq> None
      then Inr (db\<lparr>entries_seq := e_id r\<rparr>, None)
      else if \<not> order_fk_ok db (e_order r) then Inl (DbErr ForeignKeyViolation)
      else Inr (append_entry db r, Some (scanEntry r)))"

definition to_apply :: "resolved_line \<Rightarrow> line_to_apply" where
  "to_apply rl = \<lparr>la_seq = rl_seq rl, la_account = acc_id (rl_account rl),
     la_code = acc_code (rl_account rl), la_asset = amt_asset (rl_amount rl),
     la_units = amt_units (rl_amount rl)\<rparr>"

definition postLines :: "db \<Rightarrow> entry \<Rightarrow> resolved_line list \<Rightarrow> ledger_error + db \<times> entry" where
  "postLines db e resolved =
     rbind (insertLinesAndApplyBalances db (e_id e) (map to_apply resolved)) (\<lambda>(db', posted).
     Inr (db', e\<lparr>e_lines := posted, e_outcome := Created\<rparr>))"

definition resolveExisting :: "db \<Rightarrow> entry_request \<Rightarrow> hash \<Rightarrow> ledger_error + entry" where
  "resolveExisting db req newHash =
     rbind (GetEntryByIdempotencyKey db (IdempotencyKey req)) (\<lambda>existing.
     if e_hash existing \<noteq> newHash then Inl ErrIdempotencyConflict
     else
       rbind (loadLines db (e_id existing)) (\<lambda>ls.
       Inr (existing\<lparr>e_lines := ls, e_outcome := Replayed\<rparr>)))"

definition Post :: "(hash_payload \<Rightarrow> hash) \<Rightarrow> db \<Rightarrow> entry_request \<Rightarrow> ledger_error + db \<times> entry" where
  "Post digest db req =
     rbind (validate db req) (\<lambda>resolved.
     let h = canonicalHash digest req;
         metadata = (case Metadata req of None \<Rightarrow> [] | Some m \<Rightarrow> m);
         row = new_entry_row db (IdempotencyKey req) h (EntryType req) (OrderID req) (Actor req)
                 (OccurredAt req) None metadata
     in rbind (insert_entry_or_nothing db row) (\<lambda>(db', inserted).
        case inserted of
          Some e \<Rightarrow> postLines db' e resolved
        | None \<Rightarrow> rbind (resolveExisting db' req h) (\<lambda>e. Inr (db', e))))"

section \<open>Reverse\<close>

record negated_line =
  n_seq :: int
  n_account :: int
  n_code :: string
  n_amount :: amount

definition negate_line :: "posted_line \<Rightarrow> ledger_error + negated_line" where
  "negate_line pl =
     rbind (lift_money (Neg (PostedAmount pl))) (\<lambda>neg.
     Inr \<lparr>n_seq = Seq pl, n_account = AccountID pl, n_code = PostedCode pl, n_amount = neg\<rparr>)"

definition negated_to_apply :: "negated_line \<Rightarrow> line_to_apply" where
  "negated_to_apply n = \<lparr>la_seq = n_seq n, la_account = n_account n, la_code = n_code n,
     la_asset = amt_asset (n_amount n), la_units = amt_units (n_amount n)\<rparr>"

text \<open>The plain \<open>INSERT\<close> of a reversal: a duplicate key or a second reversal of the same entry is a
  unique violation, which the code reports as \<open>ErrAlreadyReversed\<close>.\<close>

definition insert_reversal :: "db \<Rightarrow> entry_row \<Rightarrow> ledger_error + db \<times> entry" where
  "insert_reversal db r =
     (if list_ex (\<lambda>e. e_key e = e_key r \<or> e_reversal_of e = e_reversal_of r) (entries db)
      then Inl ErrAlreadyReversed
      else if \<not> order_fk_ok db (e_order r) then Inl (DbErr ForeignKeyViolation)
      else Inr (append_entry db r, scanEntry r))"

definition reverse_key :: "string \<Rightarrow> string" where
  "reverse_key k = ''ledger:reverse:'' @ k"

definition Reverse ::
  "(hash_payload \<Rightarrow> hash) \<Rightarrow> db \<Rightarrow> int \<Rightarrow> string \<Rightarrow> string \<Rightarrow> time \<Rightarrow> ledger_error + db \<times> entry" where
  "Reverse digest db originalEntryID actor reason occurredAt =
     rbind (guard (actor = '''') ErrInvalidReverseParams) (\<lambda>_.
     rbind (guard (reason = '''') ErrInvalidReverseParams) (\<lambda>_.
     rbind (guard (occurredAt = 0) ErrInvalidReverseParams) (\<lambda>_.
     rbind (getEntryByID db originalEntryID) (\<lambda>original.
     rbind (guard (e_reversal_of original \<noteq> None) ErrCannotReverseAReversal) (\<lambda>_.
     rbind (guard (list_ex (\<lambda>e. e_reversal_of e = Some originalEntryID) (entries db))
       ErrAlreadyReversed) (\<lambda>_.
     rbind (loadLines db originalEntryID) (\<lambda>originalLines.
     rbind (rmap negate_line originalLines) (\<lambda>negated.
     let idempotencyKey = reverse_key (e_key original) in
     rbind (validateIdempotencyKey idempotencyKey) (\<lambda>_.
     let req = \<lparr>IdempotencyKey = idempotencyKey, EntryType = ''reversal'', Actor = actor,
                OccurredAt = occurredAt, OrderID = e_order original,
                Lines = map (\<lambda>n. Line (n_code n) (n_amount n)) negated, Metadata = None\<rparr>;
         metadata = [(''reversal_of_idempotency_key'', e_key original), (''reason'', reason)];
         row = new_entry_row db idempotencyKey (canonicalHash digest req) ''reversal''
                 (e_order original) actor occurredAt (Some originalEntryID) metadata
     in rbind (insert_reversal db row) (\<lambda>(db1, e).
        rbind (insertLinesAndApplyBalances db1 (e_id e) (map negated_to_apply negated)) (\<lambda>(db2, posted).
        Inr (db2, e\<lparr>e_lines := posted, e_outcome := Created\<rparr>))))))))))))"

section \<open>Balances\<close>

definition Balance :: "db \<Rightarrow> string \<Rightarrow> ledger_error + amount" where
  "Balance db c =
     rbind (GetByCode db c) (\<lambda>acc.
     case first_row (\<lambda>b. b_account b = acc_id acc) (balances db) of
       None \<Rightarrow> Inr (Amount (acc_asset acc) 0)
     | Some b \<Rightarrow> rbind (scan_int64 (b_units b)) (\<lambda>u. Inr (Amount (acc_asset acc) u)))"

text \<open>\<open>COALESCE(SUM(amount_units), 0) ... WHERE p\<close>.\<close>

definition sum_lines :: "db \<Rightarrow> (line_row \<Rightarrow> bool) \<Rightarrow> int" where
  "sum_lines db p = sum_list (map l_units (filter p (lines db)))"

definition BalanceComputed :: "db \<Rightarrow> string \<Rightarrow> ledger_error + amount" where
  "BalanceComputed db c =
     rbind (GetByCode db c) (\<lambda>acc.
     rbind (scan_int64 (sum_lines db (\<lambda>l. l_account l = acc_id acc))) (\<lambda>u.
     Inr (Amount (acc_asset acc) u)))"

definition BalanceAsOf :: "db \<Rightarrow> string \<Rightarrow> int \<Rightarrow> ledger_error + amount" where
  "BalanceAsOf db c maxEntryID =
     rbind (GetByCode db c) (\<lambda>acc.
     rbind (scan_int64 (sum_lines db (\<lambda>l. l_account l = acc_id acc \<and> l_entry l \<le> maxEntryID))) (\<lambda>u.
     Inr (Amount (acc_asset acc) u)))"

record discrepancy =
  d_account :: int
  d_code :: string
  d_asset :: asset
  d_cached :: int64
  d_computed :: int64

definition cached_units :: "db \<Rightarrow> int \<Rightarrow> int" where
  "cached_units db i =
     (case first_row (\<lambda>b. b_account b = i) (balances db) of None \<Rightarrow> 0 | Some b \<Rightarrow> b_units b)"

definition computed_units :: "db \<Rightarrow> int \<Rightarrow> int" where
  "computed_units db i = sum_lines db (\<lambda>l. l_account l = i)"

definition scan_discrepancy :: "db \<Rightarrow> account \<Rightarrow> ledger_error + discrepancy" where
  "scan_discrepancy db a =
     rbind (scan_int64 (cached_units db (acc_id a))) (\<lambda>cached.
     rbind (scan_int64 (computed_units db (acc_id a))) (\<lambda>computed.
     Inr \<lparr>d_account = acc_id a, d_code = acc_code a, d_asset = acc_asset a, d_cached = cached,
          d_computed = computed\<rparr>))"

definition VerifyBalances :: "db \<Rightarrow> ledger_error + discrepancy list" where
  "VerifyBalances db =
     rmap (scan_discrepancy db)
       (sort_key acc_code
         (filter (\<lambda>a. cached_units db (acc_id a) \<noteq> computed_units db (acc_id a)) (accounts db)))"

text \<open>The rows of \<open>GROUP BY asset\<close>, one per asset that has a line.\<close>

definition TrialBalance :: "db \<Rightarrow> ledger_error + (asset \<times> int64) list" where
  "TrialBalance db =
     rmap (\<lambda>a. rbind (scan_int64 (sum_lines db (\<lambda>l. l_asset l = a))) (\<lambda>t. Inr (a, t)))
       (remdups (map l_asset (lines db)))"

end
