(* ===== verification/Journal_Inv.thy ===== *)
theory Journal_Inv
  imports Journal
begin

text \<open>
  The journal's invariant and what every operation does to it: what \<open>validate\<close> accepts, the
  effect of writing lines and balances, and \<open>journal_ok\<close> with its preservation by \<open>Post\<close> and
  \<open>Reverse\<close>.

  \<open>journal_ok\<close> says: accounts and entries are identified by their keys, every line belongs to an
  entry and to an account of its asset, every entry sums to zero in every asset, the balance
  cache is the sum of the lines, and a reversal undoes an entry that is not itself a reversal.
\<close>

section \<open>What validation accepts\<close>

text \<open>The sum of the units that lines carry in one asset.\<close>

definition asset_sum :: "asset \<Rightarrow> line list \<Rightarrow> int" where
  "asset_sum a ls = sum_list (map (\<lambda>l. units (LineAmount l)) (filter (\<lambda>l. amt_asset (LineAmount l) = a) ls))"

definition running :: "(asset \<times> amount) list \<Rightarrow> asset \<Rightarrow> int" where
  "running sums a = (case map_of sums a of None \<Rightarrow> 0 | Some s \<Rightarrow> units s)"

definition resolves :: "db \<Rightarrow> nat \<Rightarrow> line \<Rightarrow> resolved_line \<Rightarrow> bool" where
  "resolves db i l r \<longleftrightarrow>
     GetByCode db (AccountCode l) = Inr (rl_account r) \<and> rl_amount r = LineAmount l \<and>
     amt_asset (LineAmount l) = acc_asset (rl_account r) \<and> amt_units (LineAmount l) \<noteq> 0 \<and>
     rl_seq r = sint (of_nat i :: 16 word)"

definition sums_wf :: "(asset \<times> amount) list \<Rightarrow> bool" where
  "sums_wf sums \<longleftrightarrow> distinct (map fst sums) \<and> (\<forall>a s. map_of sums a = Some s \<longrightarrow> amt_asset s = a)"

lemma running_update:
  "running (AList.update a s sums) b = (if b = a then units s else running sums b)"
  by (simp add: running_def update_conv')

lemma sums_wf_update: "sums_wf sums \<Longrightarrow> amt_asset s = a \<Longrightarrow> sums_wf (AList.update a s sums)"
  by (simp add: sums_wf_def distinct_update update_conv')

lemma validate_line_Inr:
  assumes "validate_line db (i, l) (res, sums) = Inr (res', sums')" and "sums_wf sums"
  shows "\<exists>r. res' = res @ [r] \<and> resolves db i l r \<and> sums_wf sums' \<and>
    (\<forall>a. running sums' a = running sums a + asset_sum a [l])"
proof -
  obtain acc s' where st: "GetByCode db (AccountCode l) = Inr acc" "amt_units (LineAmount l) \<noteq> 0"
    "amt_asset (LineAmount l) = acc_asset acc"
    "Add (case map_of sums (acc_asset acc) of None \<Rightarrow> Amount (acc_asset acc) 0 | Some s \<Rightarrow> s) (LineAmount l) = Inr s'"
    "res' = res @ [\<lparr>rl_seq = sint (of_nat i :: 16 word), rl_account = acc, rl_amount = LineAmount l\<rparr>]"
    "sums' = AList.update (acc_asset acc) s' sums"
    using assms(1) by (auto simp: validate_line_def Let_def)
  define s where "s = (case map_of sums (acc_asset acc) of None \<Rightarrow> Amount (acc_asset acc) 0 | Some s \<Rightarrow> s)"
  have a: "amt_asset s = acc_asset acc" and u: "units s = running sums (acc_asset acc)"
    using assms(2) by (auto simp: s_def sums_wf_def running_def split: option.splits)
  have "fits64 (units s + units (LineAmount l))" "s' = Amount (acc_asset acc) (of_int (units s + units (LineAmount l)))"
    using st(4) a unfolding s_def [symmetric] Add_Inr by auto
  then have s': "amt_asset s' = acc_asset acc" "units s' = units s + units (LineAmount l)"
    by (simp_all add: sint_of_int64 del: of_int_add)
  show ?thesis
    using st s' u assms(2)
    by (auto simp: resolves_def sums_wf_update running_update asset_sum_def)
qed

lemma asset_sum_Cons: "asset_sum a (l # ls) = asset_sum a [l] + asset_sum a ls"
  by (simp add: asset_sum_def)

lemma validate_lines_Inr:
  assumes "rfold (validate_line db) (enumerate n ls) (res, sums) = Inr (res', sums')" and "sums_wf sums"
  shows "\<exists>rs. res' = res @ rs \<and> length rs = length ls \<and> (\<forall>i < length ls. resolves db (n + i) (ls ! i) (rs ! i)) \<and>
    sums_wf sums' \<and> (\<forall>a. running sums' a = running sums a + asset_sum a ls)"
  using assms
proof (induction ls arbitrary: n res sums)
  case Nil
  then show ?case by (simp add: asset_sum_def)
next
  case (Cons l ls)
  obtain r1 s1 where v: "validate_line db (n, l) (res, sums) = Inr (r1, s1)"
    and rest: "rfold (validate_line db) (enumerate (Suc n) ls) (r1, s1) = Inr (res', sums')"
    using Cons.prems(1) by auto
  from validate_line_Inr [OF v Cons.prems(2)] obtain r where r: "r1 = res @ [r]" "resolves db n l r"
    "sums_wf s1" "\<forall>a. running s1 a = running sums a + asset_sum a [l]" by blast
  from Cons.IH [OF rest r(3)] obtain rs where rs: "res' = r1 @ rs" "length rs = length ls"
    "\<forall>i < length ls. resolves db (Suc n + i) (ls ! i) (rs ! i)" "sums_wf sums'"
    "\<forall>a. running sums' a = running s1 a + asset_sum a ls" by blast
  have "\<forall>i < length (l # ls). resolves db (n + i) ((l # ls) ! i) ((r # rs) ! i)"
    using r(2) rs(3) by (auto simp: nth_Cons split: nat.splits)
  then show ?case
    using r rs by (intro exI [of _ "r # rs"]) (simp add: asset_sum_Cons [of _ l ls])
qed

lemma running_zero:
  assumes "sums_wf sums" and "\<not> list_ex (\<lambda>(_, s). amt_units s \<noteq> 0) sums"
  shows "running sums a = 0"
  using assms by (auto simp: running_def list_ex_iff split: option.splits dest!: map_of_SomeD)

lemma sint16_index: "i < 32767 \<Longrightarrow> sint (of_nat i :: 16 word) = int i"
proof -
  assume "i < 32767"
  then have "sint (of_int (int i) :: 16 word) = int i"
    by (subst signed_of_int) (simp add: signed_take_bit_int_eq_self)
  then show ?thesis by simp
qed

text \<open>An accepted request: 2 to 32767 non-zero lines, each in its account's asset, balanced in
  every asset, numbered from 0.\<close>

lemma validate_Inr:
  assumes "validate db req = Inr rs"
  shows "validateIdempotencyKey (IdempotencyKey req) = Inr ()"
    and "2 \<le> length (Lines req)" "length (Lines req) \<le> maxLines"
    and "length rs = length (Lines req)"
    and "\<And>i. i < length rs \<Longrightarrow> resolves db i (Lines req ! i) (rs ! i) \<and> rl_seq (rs ! i) = int i"
    and "\<And>a. asset_sum a (Lines req) = 0"
proof -
  obtain sums where v: "validateIdempotencyKey (IdempotencyKey req) = Inr ()"
    "2 \<le> length (Lines req)" "length (Lines req) \<le> maxLines"
    "rfold (validate_line db) (enumerate 0 (Lines req)) ([], []) = Inr (rs, sums)"
    "\<not> list_ex (\<lambda>(_, s). amt_units s \<noteq> 0) sums"
    using assms by (auto simp: validate_def)
  have "sums_wf []" by (simp add: sums_wf_def)
  from validate_lines_Inr [OF v(4) this] have r: "length rs = length (Lines req)"
    "\<forall>i < length (Lines req). resolves db i (Lines req ! i) (rs ! i)" "sums_wf sums"
    "\<forall>a. running sums a = asset_sum a (Lines req)"
    by (auto simp: running_def)
  show "validateIdempotencyKey (IdempotencyKey req) = Inr ()" "2 \<le> length (Lines req)"
    "length (Lines req) \<le> maxLines" "length rs = length (Lines req)"
    using v r by simp_all
  show "asset_sum a (Lines req) = 0" for a using r running_zero [OF r(3) v(5)] by simp
  show "resolves db i (Lines req ! i) (rs ! i) \<and> rl_seq (rs ! i) = int i" if "i < length rs" for i
  proof -
    have "resolves db i (Lines req ! i) (rs ! i)" using r that by simp
    moreover have "sint (of_nat i :: 16 word) = int i"
      using that r(1) v(3) by (intro sint16_index) (simp add: maxLines_def)
    ultimately show ?thesis by (simp add: resolves_def)
  qed
qed

section \<open>The effect of the write loops\<close>

definition line_row_of :: "int \<Rightarrow> line_to_apply \<Rightarrow> line_row" where
  "line_row_of eid l = \<lparr>l_entry = eid, l_seq = la_seq l, l_account = la_account l,
     l_asset = la_asset l, l_units = sint (la_units l)\<rparr>"

lemma insert_line_Inr:
  "insert_line eid l db = Inr db' \<longleftrightarrow>
     (\<forall>r \<in> set (lines db). (l_entry r, l_seq r) \<noteq> (eid, la_seq l)) \<and> has_account db (la_account l) \<and>
     db' = db\<lparr>lines := lines db @ [line_row_of eid l]\<rparr>"
  by (auto simp: insert_line_def line_row_of_def list_ex_iff)

lemma has_account_cong: "accounts db' = accounts db \<Longrightarrow> has_account db' i = has_account db i"
  by (simp add: has_account_def)

lemma insert_lines_Inr:
  "rfold (insert_line eid) ls db = Inr db' \<longleftrightarrow>
     distinct (map la_seq ls) \<and>
     (\<forall>l \<in> set ls. has_account db (la_account l) \<and>
        (\<forall>r \<in> set (lines db). (l_entry r, l_seq r) \<noteq> (eid, la_seq l))) \<and>
     db' = db\<lparr>lines := lines db @ map (line_row_of eid) ls\<rparr>"
proof (induction ls arbitrary: db)
  case Nil
  then show ?case by auto
next
  case (Cons l ls)
  show ?case
    by (auto simp: insert_line_Inr Cons.IH has_account_def line_row_of_def)
qed

text \<open>The balances after an upsert: only the account of the line moves.\<close>

definition applied :: "line_to_apply list \<Rightarrow> int \<Rightarrow> int" where
  "applied ls i = sum_list (map (\<lambda>l. sint (la_units l)) (filter (\<lambda>l. la_account l = i) ls))"

definition balances_ok :: "db \<Rightarrow> bool" where
  "balances_ok db \<longleftrightarrow> distinct (map b_account (balances db)) \<and>
     (\<forall>b \<in> set (balances db). has_account db (b_account b))"

lemma apply_balance_Inr:
  assumes "apply_balance eid l db = Inr db'"
  shows "\<exists>bs. db' = db\<lparr>balances := bs\<rparr>" 
    and "cached_units db' i = cached_units db i + (if la_account l = i then sint (la_units l) else 0)"
    and "balances_ok db \<Longrightarrow> balances_ok db'"
proof -
  show "\<exists>bs. db' = db\<lparr>balances := bs\<rparr>"
    using assms by (auto simp: apply_balance_def split: option.splits if_splits)
  show "cached_units db' i = cached_units db i + (if la_account l = i then sint (la_units l) else 0)"
  proof (cases "first_row (\<lambda>b. b_account b = la_account l) (balances db)")
    case None
    then show ?thesis using assms
      by (auto simp: apply_balance_def cached_units_def first_row_append split: option.splits if_splits)
  next
    case (Some b)
    have key: "b_account x = j" if "first_row (\<lambda>b. b_account b = j) (balances db) = Some x" for j x
      using first_row_Some [OF that] by simp
    have "db' = db\<lparr>balances := update_rows (\<lambda>b. b_account b = la_account l)
            (\<lambda>b. b\<lparr>b_units := b_units b + sint (la_units l), b_last_entry := eid,
                   b_updated_at := db_now db\<rparr>) (balances db)\<rparr>"
      using assms Some by (simp add: apply_balance_def split: if_splits)
    then show ?thesis
      using key [OF Some] Some
      by (auto simp: cached_units_def first_row_update_key split: option.split dest: key)
  qed
  show "balances_ok db \<Longrightarrow> balances_ok db'"
    using assms
    by (auto simp: apply_balance_def balances_ok_def has_account_def map_update_rows set_update_rows
        first_row_None image_iff split: option.splits if_splits; fastforce)
qed

lemma apply_balances_Inr:
  assumes "rfold (apply_balance eid) ls db = Inr db'"
  shows "\<exists>bs. db' = db\<lparr>balances := bs\<rparr>"
    and "cached_units db' i = cached_units db i + applied ls i"
    and "balances_ok db \<Longrightarrow> balances_ok db'"
proof -
  have "(\<exists>bs. db' = db\<lparr>balances := bs\<rparr>) \<and> cached_units db' i = cached_units db i + applied ls i \<and>
    (balances_ok db \<longrightarrow> balances_ok db')"
    using assms
  proof (induction ls arbitrary: db)
    case Nil
    have "\<exists>bs. db = db\<lparr>balances := bs\<rparr>" by (rule exI [of _ "balances db"]) simp
    then show ?case using Nil by (simp add: applied_def)
  next
    case (Cons l ls)
    obtain db1 where a: "apply_balance eid l db = Inr db1" and r: "rfold (apply_balance eid) ls db1 = Inr db'"
      using Cons.prems by auto
    obtain bs where "db1 = db\<lparr>balances := bs\<rparr>" using apply_balance_Inr(1) [OF a] by blast
    then show ?case
      using apply_balance_Inr(2) [OF a, of i] apply_balance_Inr(3) [OF a] Cons.IH [OF r] by (auto simp: applied_def)
  qed
  then show "\<exists>bs. db' = db\<lparr>balances := bs\<rparr>" "cached_units db' i = cached_units db i + applied ls i"
    "balances_ok db \<Longrightarrow> balances_ok db'" by blast+
qed

lemma applied_sort [simp]: "applied (sort_key f ls) = applied ls"
  unfolding applied_def by (intro ext sum_list_map_perm) (simp add: filter_sort)

text \<open>Both loops together.\<close>

lemma insertLinesAndApplyBalances_Inr:
  assumes "insertLinesAndApplyBalances db eid ls = Inr (db', posted)"
  obtains bs where "db' = db\<lparr>lines := lines db @ map (line_row_of eid) ls, balances := bs\<rparr>"
    "distinct (map la_seq ls)" "\<forall>l \<in> set ls. has_account db (la_account l)"
    "\<forall>l \<in> set ls. \<forall>r \<in> set (lines db). (l_entry r, l_seq r) \<noteq> (eid, la_seq l)"
    "\<And>i. cached_units db' i = cached_units db i + applied ls i"
    "balances_ok db \<Longrightarrow> balances_ok db'" "posted = map posted_of ls"
proof -
  obtain db1 where i: "rfold (insert_line eid) ls db = Inr db1"
    and a: "rfold (apply_balance eid) (sort_key la_account ls) db1 = Inr db'"
    and p: "posted = map posted_of ls"
    using assms by (auto simp: insertLinesAndApplyBalances_def)
  have db1: "db1 = db\<lparr>lines := lines db @ map (line_row_of eid) ls\<rparr>" "distinct (map la_seq ls)"
    "\<forall>l \<in> set ls. has_account db (la_account l)"
    "\<forall>l \<in> set ls. \<forall>r \<in> set (lines db). (l_entry r, l_seq r) \<noteq> (eid, la_seq l)"
    using i unfolding insert_lines_Inr by blast+
  obtain bs where "db' = db1\<lparr>balances := bs\<rparr>" using apply_balances_Inr(1) [OF a] by blast
  moreover have "cached_units db1 = cached_units db" by (auto simp: cached_units_def db1)
  moreover have "balances_ok db1 = balances_ok db" by (simp add: balances_ok_def has_account_def db1)
  ultimately show ?thesis
    using that [of bs] db1 p apply_balances_Inr(2,3) [OF a] by auto
qed

section \<open>The invariant\<close>

text \<open>What an entry moves on an account.\<close>

definition net :: "db \<Rightarrow> int \<Rightarrow> int \<Rightarrow> int" where
  "net db eid i = sum_lines db (\<lambda>l. l_entry l = eid \<and> l_account l = i)"

definition entries_ok :: "db \<Rightarrow> bool" where
  "entries_ok db \<longleftrightarrow>
     distinct (map e_id (entries db)) \<and> distinct (map e_key (entries db)) \<and>
     (\<forall>e \<in> set (entries db). e_id e \<le> entries_seq db)"

definition line_ok :: "db \<Rightarrow> line_row \<Rightarrow> bool" where
  "line_ok db l \<longleftrightarrow>
     (\<exists>e \<in> set (entries db). e_id e = l_entry l) \<and>
     (\<exists>a \<in> set (accounts db). acc_id a = l_account l \<and> acc_asset a = l_asset l) \<and>
     fits64 (l_units l)"

definition lines_ok :: "db \<Rightarrow> bool" where
  "lines_ok db \<longleftrightarrow> (\<forall>l \<in> set (lines db). line_ok db l) \<and>
     distinct (map (\<lambda>l. (l_entry l, l_seq l)) (lines db))"

definition balanced :: "db \<Rightarrow> bool" where
  "balanced db \<longleftrightarrow>
     (\<forall>e \<in> set (entries db). \<forall>a \<in> set (map l_asset (lines db)).
        sum_lines db (\<lambda>l. l_entry l = e_id e \<and> l_asset l = a) = 0)"

definition cache_ok :: "db \<Rightarrow> bool" where
  "cache_ok db \<longleftrightarrow> balances_ok db \<and>
     (\<forall>a \<in> set (accounts db). cached_units db (acc_id a) = computed_units db (acc_id a))"

definition undoes :: "db \<Rightarrow> entry_row \<Rightarrow> int \<Rightarrow> bool" where
  "undoes db e i \<longleftrightarrow>
     (\<exists>orig \<in> set (entries db). e_id orig = i \<and> e_reversal_of orig = None) \<and>
     (\<forall>a \<in> set (accounts db). net db (e_id e) (acc_id a) = - net db i (acc_id a))"

definition reversals_ok :: "db \<Rightarrow> bool" where
  "reversals_ok db \<longleftrightarrow>
     distinct (filter (\<lambda>r. r \<noteq> None) (map e_reversal_of (entries db))) \<and>
     (\<forall>e \<in> set (entries db). case e_reversal_of e of None \<Rightarrow> True | Some i \<Rightarrow> undoes db e i)"

definition journal_ok :: "db \<Rightarrow> bool" where
  "journal_ok db \<longleftrightarrow>
     accounts_ok db \<and> entries_ok db \<and> lines_ok db \<and> balanced db \<and> cache_ok db \<and> reversals_ok db"

lemma journal_ok_empty: "journal_ok empty_db"
  by (simp add: journal_ok_def entries_ok_def lines_ok_def balanced_def cache_ok_def
      balances_ok_def reversals_ok_def empty_db_def accounts_ok_def)

text \<open>The invariant reads only the tables of the journal.\<close>

lemma journal_ok_cong:
  assumes "accounts db' = accounts db" "accounts_seq db' = accounts_seq db" "entries db' = entries db"
    "lines db' = lines db" "balances db' = balances db" "entries_seq db \<le> entries_seq db'"
    "journal_ok db"
  shows "journal_ok db'"
proof -
  have "entries_ok db'" using assms by (force simp: journal_ok_def entries_ok_def)
  moreover have "accounts_ok db'" using assms by (simp add: journal_ok_def accounts_ok_def)
  moreover have "lines_ok db'" "balanced db'" "cache_ok db'" "reversals_ok db'"
    using assms
    by (simp_all add: journal_ok_def lines_ok_def line_ok_def balanced_def cache_ok_def balances_ok_def
        reversals_ok_def undoes_def net_def sum_lines_def has_account_def cached_units_def computed_units_def
        cong: option.case_cong)
  ultimately show ?thesis by (simp add: journal_ok_def)
qed

lemma sum_lines_append:
  "lines db' = lines db @ new \<Longrightarrow>
   sum_lines db' p = sum_lines db p + sum_list (map l_units (filter p new))"
  by (simp add: sum_lines_def)

lemma old_line_entry:
  "journal_ok db \<Longrightarrow> l \<in> set (lines db) \<Longrightarrow> l_entry l \<le> entries_seq db"
  by (force simp: journal_ok_def lines_ok_def line_ok_def entries_ok_def)

text \<open>Balance, for every entry id and every asset.\<close>

lemma balanced_all:
  assumes "journal_ok db"
  shows "sum_lines db (\<lambda>l. l_entry l = i \<and> l_asset l = a) = 0"
proof (cases "\<exists>l \<in> set (lines db). l_entry l = i \<and> l_asset l = a")
  case True
  then obtain l where l: "l \<in> set (lines db)" "l_entry l = i" "l_asset l = a" by blast
  then obtain e where "e \<in> set (entries db)" "e_id e = i"
    using assms by (auto simp: journal_ok_def lines_ok_def line_ok_def)
  then show ?thesis using assms l by (auto simp: journal_ok_def balanced_def)
next
  case False
  then show ?thesis by (simp add: sum_lines_def sum_list_filter_none)
qed

lemma cache_all:
  assumes "journal_ok db"
  shows "cached_units db i = computed_units db i"
proof (cases "has_account db i")
  case True
  then show ?thesis using assms by (auto simp: has_account_def list_ex_iff journal_ok_def cache_ok_def)
next
  case False
  have "first_row (\<lambda>b. b_account b = i) (balances db) = None"
    using assms False unfolding first_row_None by (auto simp: journal_ok_def cache_ok_def balances_ok_def)
  moreover have "\<forall>l \<in> set (lines db). l_account l \<noteq> i"
    using assms False by (auto simp: journal_ok_def lines_ok_def line_ok_def has_account_def list_ex_iff)
  ultimately show ?thesis
    by (simp add: cached_units_def computed_units_def sum_lines_def sum_list_filter_none)
qed

text \<open>The sum of the units that the lines to write carry in an asset.\<close>

definition apply_sum :: "asset \<Rightarrow> line_to_apply list \<Rightarrow> int" where
  "apply_sum a ls = sum_list (map (\<lambda>l. sint (la_units l)) (filter (\<lambda>l. la_asset l = a) ls))"

lemma sum_new_lines:
  "sum_list (map l_units (filter p (map (line_row_of eid) ls))) =
   sum_list (map (\<lambda>l. sint (la_units l)) (filter (\<lambda>l. p (line_row_of eid l)) ls))"
  by (induction ls) (auto simp: line_row_of_def)

text \<open>Appending a balanced entry keeps the invariant; \<open>Post\<close> and \<open>Reverse\<close> are instances.\<close>

definition appended :: "db \<Rightarrow> db \<Rightarrow> entry_row \<Rightarrow> line_to_apply list \<Rightarrow> bool" where
  "appended db db' row ls \<longleftrightarrow>
     journal_ok db \<and>
     (\<exists>bs. db' = db\<lparr>entries := entries db @ [row], entries_seq := e_id row,
                      lines := lines db @ map (line_row_of (e_id row)) ls, balances := bs\<rparr>) \<and>
     e_id row = entries_seq db + 1 \<and>
     (\<forall>e \<in> set (entries db). e_key e \<noteq> e_key row) \<and>
     distinct (map la_seq ls) \<and>
     (\<forall>l \<in> set ls. \<exists>a \<in> set (accounts db). acc_id a = la_account l \<and> acc_asset a = la_asset l) \<and>
     (\<forall>a. apply_sum a ls = 0) \<and>
     (\<forall>i. cached_units db' i = cached_units db i + applied ls i) \<and>
     balances_ok db' \<and>
     (case e_reversal_of row of None \<Rightarrow> True | Some i \<Rightarrow>
        (\<exists>orig \<in> set (entries db). e_id orig = i \<and> e_reversal_of orig = None) \<and>
        (\<forall>e \<in> set (entries db). e_reversal_of e \<noteq> Some i) \<and>
        (\<forall>a \<in> set (accounts db). applied ls (acc_id a) = - net db i (acc_id a)))"

lemma appendedD:
  assumes "appended db db' row ls"
  shows "journal_ok db" "accounts db' = accounts db" "accounts_seq db' = accounts_seq db"
    "entries db' = entries db @ [row]" "entries_seq db' = e_id row" "orders db' = orders db"
    "lines db' = lines db @ map (line_row_of (e_id row)) ls" "e_id row = entries_seq db + 1"
    "\<forall>e \<in> set (entries db). e_key e \<noteq> e_key row" "distinct (map la_seq ls)"
    "\<forall>l \<in> set ls. \<exists>a \<in> set (accounts db). acc_id a = la_account l \<and> acc_asset a = la_asset l"
    "apply_sum a ls = 0" "cached_units db' i = cached_units db i + applied ls i" "balances_ok db'"
  using assms by (auto simp: appended_def)

lemma appended_reversal:
  assumes "appended db db' row ls" and "e_reversal_of row = Some i"
  obtains orig where "orig \<in> set (entries db)" "e_id orig = i" "e_reversal_of orig = None"
    "\<forall>e \<in> set (entries db). e_reversal_of e \<noteq> Some i"
    "\<forall>a \<in> set (accounts db). applied ls (acc_id a) = - net db i (acc_id a)"
  using assms by (auto simp: appended_def)

lemma appended_old_entry: "appended db db' row ls \<Longrightarrow> l \<in> set (lines db) \<Longrightarrow> l_entry l < e_id row"
  using old_line_entry [of db l] appendedD(1,8) [of db db' row ls] by fastforce

lemma appended_old_id: "appended db db' row ls \<Longrightarrow> e \<in> set (entries db) \<Longrightarrow> e_id e < e_id row"
  using appendedD(1,8) [of db db' row ls] by (fastforce simp: journal_ok_def entries_ok_def)

lemma appended_sum:
  assumes "appended db db' row ls"
  shows "sum_lines db' p = sum_lines db p +
     sum_list (map (\<lambda>l. sint (la_units l)) (filter (\<lambda>l. p (line_row_of (e_id row) l)) ls))"
  by (simp add: sum_lines_append [OF appendedD(7) [OF assms]] sum_new_lines)

lemma appended_net_old:
  "appended db db' row ls \<Longrightarrow> eid < e_id row \<Longrightarrow> net db' eid i = net db eid i"
  by (simp add: net_def appended_sum line_row_of_def)

lemma appended_net_new:
  assumes "appended db db' row ls"
  shows "net db' (e_id row) i = applied ls i"
proof -
  have "net db (e_id row) i = 0"
    unfolding net_def sum_lines_def using appended_old_entry [OF assms]
    by (intro sum_list_filter_none) force
  then show ?thesis by (simp add: net_def appended_sum [OF assms] line_row_of_def applied_def)
qed

lemma appended_computed:
  "appended db db' row ls \<Longrightarrow> computed_units db' i = computed_units db i + applied ls i"
  by (simp add: computed_units_def appended_sum line_row_of_def applied_def)

lemma appended_entries_ok:
  assumes ap: "appended db db' row ls"
  shows "entries_ok db'"
proof -
  have "entries_ok db" using appendedD(1) [OF ap] by (simp add: journal_ok_def)
  then show ?thesis
    using appended_old_id [OF ap] appendedD(9) [OF ap]
    by (force simp: entries_ok_def appendedD(4,5) [OF ap])
qed

lemma appended_lines_ok:
  assumes ap: "appended db db' row ls"
  shows "lines_ok db'"
proof -
  note d = appendedD [OF ap]
  have "distinct (map (\<lambda>l. (l_entry l, l_seq l)) (map (line_row_of (e_id row)) ls))"
    using d(10) by (auto simp: line_row_of_def distinct_map inj_on_def o_def)
  moreover have "\<forall>l \<in> set (lines db). line_ok db' l"
    using d(1) by (auto simp: journal_ok_def lines_ok_def line_ok_def d(2,4))
  moreover have "\<forall>l \<in> set ls. line_ok db' (line_row_of (e_id row) l)"
    using d(11) by (fastforce simp: line_ok_def line_row_of_def d(2,4))
  ultimately show ?thesis
    using d(1) appended_old_entry [OF ap]
    by (fastforce simp: lines_ok_def d(7) journal_ok_def line_row_of_def)
qed

lemma appended_balanced:
  assumes ap: "appended db db' row ls"
  shows "balanced db'"
  unfolding balanced_def
proof (intro ballI)
  fix e a
  assume "e \<in> set (entries db')" "a \<in> set (map l_asset (lines db'))"
  show "sum_lines db' (\<lambda>l. l_entry l = e_id e \<and> l_asset l = a) = 0"
    using balanced_all [OF appendedD(1) [OF ap], of "e_id e" a] appendedD(12) [OF ap, of a]
    by (cases "e_id e = e_id row") (auto simp: appended_sum [OF ap] line_row_of_def apply_sum_def)
qed

lemma appended_cache_ok: "appended db db' row ls \<Longrightarrow> cache_ok db'"
  by (simp add: cache_ok_def appendedD(13,14) appended_computed cache_all appendedD(1))

lemma appended_undoes_old:
  assumes ap: "appended db db' row ls" and e: "e \<in> set (entries db)" and u: "undoes db e i"
  shows "undoes db' e i"
proof -
  obtain orig where o: "orig \<in> set (entries db)" "e_id orig = i" "e_reversal_of orig = None"
    using u by (auto simp: undoes_def)
  have "i < e_id row" "e_id e < e_id row" using o e appended_old_id [OF ap] by auto
  then show ?thesis using u o appended_net_old [OF ap] by (auto simp: undoes_def appendedD(2,4) [OF ap])
qed

lemma appended_undoes_new:
  assumes ap: "appended db db' row ls" and r: "e_reversal_of row = Some i"
  shows "undoes db' row i"
proof -
  obtain orig where o: "orig \<in> set (entries db)" "e_id orig = i" "e_reversal_of orig = None"
    "\<forall>a \<in> set (accounts db). applied ls (acc_id a) = - net db i (acc_id a)"
    using appended_reversal [OF ap r] by metis
  have "i < e_id row" using o appended_old_id [OF ap] by auto
  then show ?thesis using o appended_net_old [OF ap] appended_net_new [OF ap]
    by (auto simp: undoes_def appendedD(2,4) [OF ap])
qed

lemma appended_reversals_ok:
  assumes ap: "appended db db' row ls"
  shows "reversals_ok db'"
proof -
  have r: "reversals_ok db" using appendedD(1) [OF ap] by (simp add: journal_ok_def)
  have "e_reversal_of e \<noteq> Some i" if "e_reversal_of row = Some i" "e \<in> set (entries db)" for e i
    using appended_reversal [OF ap that(1)] that(2) by blast
  then have "distinct (filter (\<lambda>r. r \<noteq> None) (map e_reversal_of (entries db')))"
    using r by (cases "e_reversal_of row") (force simp: reversals_ok_def appendedD(4) [OF ap])+
  then show ?thesis
    using r appended_undoes_old [OF ap] appended_undoes_new [OF ap]
    by (auto simp: reversals_ok_def appendedD(4) [OF ap] split: option.splits)
qed

lemma appended_ok:
  assumes "appended db db' row ls"
  shows "journal_ok db'"
proof -
  have "accounts_ok db'"
    using appendedD(1-3) [OF assms] by (simp add: journal_ok_def accounts_ok_def)
  then show ?thesis
    using assms by (simp add: journal_ok_def appended_entries_ok appended_lines_ok appended_balanced
        appended_cache_ok appended_reversals_ok)
qed

section \<open>Post keeps the invariant\<close>

lemma resolved_lines:
  assumes "validate db req = Inr rs"
  shows "distinct (map la_seq (map to_apply rs))"
    and "\<forall>l \<in> set (map to_apply rs). \<exists>a \<in> set (accounts db). acc_id a = la_account l \<and>
           acc_code a = la_code l \<and> acc_asset a = la_asset l \<and> la_units l \<noteq> 0"
    and "map (\<lambda>l. (la_code l, Amount (la_asset l) (la_units l))) (map to_apply rs) =
         map (\<lambda>l. (AccountCode l, LineAmount l)) (Lines req)"
    and "apply_sum a (map to_apply rs) = 0"
proof -
  note v = validate_Inr [OF assms]
  have seqs: "map la_seq (map to_apply rs) = map int [0..<length rs]"
    using v(5) by (intro nth_equalityI) (auto simp: to_apply_def)
  show "distinct (map la_seq (map to_apply rs))" unfolding seqs by (simp add: distinct_map)
  have res: "resolves db i (Lines req ! i) (rs ! i)" if "i < length rs" for i using v(5) that by blast
  show "\<forall>l \<in> set (map to_apply rs). \<exists>a \<in> set (accounts db). acc_id a = la_account l \<and>
           acc_code a = la_code l \<and> acc_asset a = la_asset l \<and> la_units l \<noteq> 0"
    using res by (fastforce simp: in_set_conv_nth to_apply_def resolves_def dest: GetByCode_Inr)
  have codes: "rl_account (rs ! i) \<in> set (accounts db) \<and> acc_code (rl_account (rs ! i)) = AccountCode (Lines req ! i)"
    if "i < length rs" for i
    using res [OF that] by (auto simp: resolves_def dest: GetByCode_Inr)
  show eq: "map (\<lambda>l. (la_code l, Amount (la_asset l) (la_units l))) (map to_apply rs) =
         map (\<lambda>l. (AccountCode l, LineAmount l)) (Lines req)"
    using v(4) res codes by (intro nth_equalityI) (auto simp: to_apply_def resolves_def)
  have "map snd (map (\<lambda>l. (la_code l, Amount (la_asset l) (la_units l))) (map to_apply rs)) =
         map snd (map (\<lambda>l. (AccountCode l, LineAmount l)) (Lines req))"
    unfolding eq ..
  then have am: "map rl_amount rs = map LineAmount (Lines req)"
    by (simp add: o_def to_apply_def)
  have "apply_sum a (map to_apply rs) = sum_list (map units (filter (\<lambda>m. amt_asset m = a) (map rl_amount rs)))"
    by (simp add: apply_sum_def filter_map o_def to_apply_def)
  also have "\<dots> = asset_sum a (Lines req)"
    unfolding am by (simp add: asset_sum_def filter_map o_def)
  finally show "apply_sum a (map to_apply rs) = 0" using v(6) by simp
qed

definition request_row :: "(hash_payload \<Rightarrow> hash) \<Rightarrow> db \<Rightarrow> entry_request \<Rightarrow> entry_row" where
  "request_row digest db req =
     new_entry_row db (IdempotencyKey req) (canonicalHash digest req) (EntryType req) (OrderID req)
       (Actor req) (OccurredAt req) None (case Metadata req of None \<Rightarrow> [] | Some m \<Rightarrow> m)"

text \<open>The shared tail of \<open>Post\<close> and \<open>Reverse\<close>: a fresh entry with its lines.\<close>

lemma append_write_appended:
  assumes "journal_ok db"
    and w: "insertLinesAndApplyBalances (append_entry db row) (e_id row) ls = Inr (db', posted)"
    and "e_id row = entries_seq db + 1"
    and "\<forall>e \<in> set (entries db). e_key e \<noteq> e_key row"
    and "\<forall>l \<in> set ls. \<exists>a \<in> set (accounts db). acc_id a = la_account l \<and> acc_asset a = la_asset l"
    and "\<forall>a. apply_sum a ls = 0"
    and "case e_reversal_of row of None \<Rightarrow> True | Some i \<Rightarrow>
        (\<exists>orig \<in> set (entries db). e_id orig = i \<and> e_reversal_of orig = None) \<and>
        (\<forall>e \<in> set (entries db). e_reversal_of e \<noteq> Some i) \<and>
        (\<forall>a \<in> set (accounts db). applied ls (acc_id a) = - net db i (acc_id a))"
  shows "appended db db' row ls" and "posted = map posted_of ls"
proof -
  obtain bs where b: "db' = (append_entry db row)\<lparr>lines := lines (append_entry db row) @
      map (line_row_of (e_id row)) ls, balances := bs\<rparr>"
    "distinct (map la_seq ls)"
    "\<And>i. cached_units db' i = cached_units (append_entry db row) i + applied ls i"
    "balances_ok (append_entry db row) \<Longrightarrow> balances_ok db'" "posted = map posted_of ls"
    using insertLinesAndApplyBalances_Inr [OF w] by metis
  show "posted = map posted_of ls" by (rule b(5))
  have "cached_units (append_entry db row) i = cached_units db i" for i
    by (simp add: cached_units_def append_entry_def)
  moreover have "balances_ok (append_entry db row)"
    using assms(1) by (simp add: journal_ok_def cache_ok_def balances_ok_def has_account_def append_entry_def)
  moreover have "\<exists>bs. db' = db\<lparr>entries := entries db @ [row], entries_seq := e_id row,
                      lines := lines db @ map (line_row_of (e_id row)) ls, balances := bs\<rparr>"
    using b(1) by (auto simp: append_entry_def)
  ultimately show "appended db db' row ls"
    unfolding appended_def using assms b(2,3,4) by simp
qed

lemma Post_cases:
  assumes "Post digest db req = Inr (db', e)" and "journal_ok db"
  obtains (fresh) rs where "validate db req = Inr rs"
      "appended db db' (request_row digest db req) (map to_apply rs)"
      "order_fk_ok db (OrderID req)"
      "e = (scanEntry (request_row digest db req))\<lparr>e_lines := map posted_of (map to_apply rs), e_outcome := Created\<rparr>"
  | (replay) old ls where "old \<in> set (entries db)" "e_key old = IdempotencyKey req"
      "e_hash old = canonicalHash digest req" "db' = db\<lparr>entries_seq := entries_seq db + 1\<rparr>"
      "loadLines db (e_id old) = Inr ls" "e = (scanEntry old)\<lparr>e_lines := ls, e_outcome := Replayed\<rparr>"
      "is_ok (validate db req)"
proof (cases "first_row (\<lambda>e. e_key e = IdempotencyKey req) (entries db)")
  case None
  let ?row = "request_row digest db req"
  obtain rs posted where p: "validate db req = Inr rs" "order_fk_ok db (OrderID req)"
    "insertLinesAndApplyBalances (append_entry db ?row) (e_id ?row) (map to_apply rs) = Inr (db', posted)"
    "e = (scanEntry ?row)\<lparr>e_lines := posted, e_outcome := Created\<rparr>"
    using assms(1) None
    by (auto simp: Post_def Let_def insert_entry_or_nothing_def request_row_def new_entry_row_def
        postLines_def scanEntry_def entry_row.extend_def split: if_splits)
  have lines: "\<forall>l \<in> set (map to_apply rs). \<exists>a \<in> set (accounts db). acc_id a = la_account l \<and> acc_asset a = la_asset l"
    using resolved_lines(2) [OF p(1)] by blast
  have zero: "\<forall>a. apply_sum a (map to_apply rs) = 0" using resolved_lines(4) [OF p(1)] by blast
  have "e_id ?row = entries_seq db + 1" "\<forall>e \<in> set (entries db). e_key e \<noteq> e_key ?row"
    "e_reversal_of ?row = None"
    using None by (auto simp: request_row_def new_entry_row_def first_row_None)
  then have "appended db db' ?row (map to_apply rs)" "posted = map posted_of (map to_apply rs)"
    using append_write_appended [OF assms(2) p(3) _ _ lines zero] by simp_all
  then show ?thesis using fresh [OF p(1)] p(2,4) by simp
next
  case (Some old)
  have o: "old \<in> set (entries db)" "e_key old = IdempotencyKey req" using first_row_Some [OF Some] by auto
  have ll: "loadLines (db\<lparr>entries_seq := x\<rparr>) i = loadLines db i" for x i
    by (simp add: loadLines_def joined_lines_def)
  have "e_hash old = canonicalHash digest req \<and> db' = db\<lparr>entries_seq := entries_seq db + 1\<rparr> \<and>
     (\<exists>ls. loadLines db (e_id old) = Inr ls \<and> e = (scanEntry old)\<lparr>e_lines := ls, e_outcome := Replayed\<rparr>) \<and>
     is_ok (validate db req)"
    using assms(1) Some ll
    by (auto simp: Post_def Let_def insert_entry_or_nothing_def new_entry_row_def resolveExisting_def
        GetEntryByIdempotencyKey_def scanEntry_def entry_row.extend_def entry.fields_def is_ok_iff
        split: if_splits)
  then show ?thesis using replay [OF o] by blast
qed

lemma Post_ok:
  assumes "Post digest db req = Inr (db', e)" and "journal_ok db"
  shows "journal_ok db'"
  using assms
proof (cases rule: Post_cases)
  case (fresh rs)
  then show ?thesis by (simp add: appended_ok)
next
  case (replay old ls)
  then show ?thesis by (intro journal_ok_cong [OF _ _ _ _ _ _ assms(2)]) simp_all
qed

section \<open>Reading lines back\<close>

definition account_of :: "db \<Rightarrow> line_row \<Rightarrow> account" where
  "account_of db l = the (first_row (\<lambda>a. acc_id a = l_account l) (accounts db))"

definition entry_lines :: "db \<Rightarrow> int \<Rightarrow> line_row list" where
  "entry_lines db eid = sort_key l_seq (filter (\<lambda>l. l_entry l = eid) (lines db))"

definition posted_of_row :: "db \<Rightarrow> line_row \<Rightarrow> posted_line" where
  "posted_of_row db l = \<lparr>Seq = l_seq l, AccountID = l_account l, PostedCode = acc_code (account_of db l),
     PostedAmount = Amount (l_asset l) (of_int (l_units l))\<rparr>"

lemma set_entry_lines: "l \<in> set (entry_lines db eid) \<longleftrightarrow> l \<in> set (lines db) \<and> l_entry l = eid"
  by (auto simp: entry_lines_def)

lemma filter_key_unique:
  "distinct (map k xs) \<Longrightarrow> x \<in> set xs \<Longrightarrow> filter (\<lambda>y. k y = k x) xs = [x]"
  by (induction xs) (auto simp: filter_empty_conv image_iff)

lemma line_account:
  assumes "journal_ok db" and "l \<in> set (lines db)"
  shows "filter (\<lambda>a. acc_id a = l_account l) (accounts db) = [account_of db l]"
    and "account_of db l \<in> set (accounts db)" "acc_id (account_of db l) = l_account l"
    "acc_asset (account_of db l) = l_asset l" "fits64 (l_units l)"
proof -
  have d: "distinct (map acc_id (accounts db))" using assms(1) by (simp add: journal_ok_def accounts_ok_def)
  obtain a where a: "a \<in> set (accounts db)" "acc_id a = l_account l" "acc_asset a = l_asset l"
    and f: "fits64 (l_units l)"
    using assms by (auto simp: journal_ok_def lines_ok_def line_ok_def)
  have "account_of db l = a"
    using first_row_unique [OF d a(1,2)] by (simp add: account_of_def)
  then show "filter (\<lambda>a. acc_id a = l_account l) (accounts db) = [account_of db l]"
    "account_of db l \<in> set (accounts db)" "acc_id (account_of db l) = l_account l"
    "acc_asset (account_of db l) = l_asset l" "fits64 (l_units l)"
    using filter_key_unique [OF d a(1)] a f by simp_all
qed

lemma concat_map_single: "(\<And>x. x \<in> set xs \<Longrightarrow> f x = [g x]) \<Longrightarrow> concat (map f xs) = map g xs"
  by (induction xs) auto

lemma joined_lines_eq:
  assumes "journal_ok db"
  shows "joined_lines db eid = map (\<lambda>l. (l, account_of db l)) (entry_lines db eid)"
proof -
  have "concat (map (\<lambda>l. map (\<lambda>a. (l, a)) (filter (\<lambda>a. acc_id a = l_account l) (accounts db)))
      (entry_lines db eid)) = map (\<lambda>l. (l, account_of db l)) (entry_lines db eid)"
    using line_account(1) [OF assms] by (intro concat_map_single) (auto simp: set_entry_lines)
  then show ?thesis unfolding joined_lines_def entry_lines_def [symmetric] .
qed

lemma rmap_map:
  assumes "\<And>x. x \<in> set xs \<Longrightarrow> f (g x) = Inr (h x)"
  shows "rmap f (map g xs) = Inr (map h xs)"
  using assms by (induction xs) auto

lemma loadLines_eq:
  assumes "journal_ok db"
  shows "loadLines db eid = Inr (map (posted_of_row db) (entry_lines db eid))"
  unfolding loadLines_def joined_lines_eq [OF assms]
  using line_account(5) [OF assms]
  by (intro rmap_map) (auto simp: scan_line_def posted_of_row_def set_entry_lines scan_int64_def)

section \<open>Reverse keeps the invariant\<close>

definition negated_apply :: "db \<Rightarrow> line_row \<Rightarrow> line_to_apply" where
  "negated_apply db l = \<lparr>la_seq = l_seq l, la_account = l_account l, la_code = acc_code (account_of db l),
     la_asset = l_asset l, la_units = of_int (- l_units l)\<rparr>"

definition negated_of :: "db \<Rightarrow> line_row \<Rightarrow> negated_line" where
  "negated_of db l = \<lparr>n_seq = l_seq l, n_account = l_account l, n_code = acc_code (account_of db l),
     n_amount = Amount (l_asset l) (of_int (- l_units l))\<rparr>"

lemma negate_line_Inr:
  assumes "negate_line (posted_of_row db l) = Inr n" and "fits64 (l_units l)"
  shows "n = negated_of db l" "fits64 (- l_units l)"
  using assms
  by (auto simp: negate_line_def posted_of_row_def Neg_Inr sint_of_int64 negated_of_def)

lemma negate_lines_Inr:
  assumes "rmap negate_line (map (posted_of_row db) ls) = Inr ns" and "\<And>l. l \<in> set ls \<Longrightarrow> fits64 (l_units l)"
  shows "ns = map (negated_of db) ls" "\<forall>l \<in> set ls. fits64 (- l_units l)"
proof -
  have "ns = map (negated_of db) ls \<and> (\<forall>l \<in> set ls. fits64 (- l_units l))"
    using assms
    by (induction ls arbitrary: ns) (auto dest: negate_line_Inr)
  then show "ns = map (negated_of db) ls" "\<forall>l \<in> set ls. fits64 (- l_units l)" by blast+
qed

lemma negated_to_apply_of: "negated_to_apply (negated_of db l) = negated_apply db l"
  by (simp add: negated_to_apply_def negated_of_def negated_apply_def)

lemma sum_entry_lines:
  "sum_list (map f (filter p (entry_lines db eid))) =
   (sum_list (map f (filter (\<lambda>l. l_entry l = eid \<and> p l) (lines db))) :: int)"
proof -
  have "mset (filter p (entry_lines db eid)) = mset (filter (\<lambda>l. l_entry l = eid \<and> p l) (lines db))"
    by (simp add: entry_lines_def filter_sort conj_commute)
  then show ?thesis by (rule sum_list_map_perm)
qed

lemma sum_negated:
  assumes "\<forall>l \<in> set ls. fits64 (- l_units l)"
  shows "sum_list (map (\<lambda>l. sint (la_units l)) (filter p (map (negated_apply db) ls))) =
    - sum_list (map l_units (filter (\<lambda>l. p (negated_apply db l)) ls))"
  using assms
  by (induction ls) (auto simp: negated_apply_def sint_of_int64 simp del: of_int_minus)

lemma applied_negated:
  assumes "\<forall>l \<in> set (entry_lines db eid). fits64 (- l_units l)"
  shows "applied (map (negated_apply db) (entry_lines db eid)) i = - net db eid i"
    and "apply_sum a (map (negated_apply db) (entry_lines db eid)) =
           - sum_lines db (\<lambda>l. l_entry l = eid \<and> l_asset l = a)"
  using assms
  by (simp_all add: applied_def apply_sum_def sum_negated sum_entry_lines net_def sum_lines_def
      negated_apply_def [THEN arg_cong [where f = la_account]] negated_apply_def [THEN arg_cong [where f = la_asset]])

definition reverse_request :: "db \<Rightarrow> entry_row \<Rightarrow> string \<Rightarrow> time \<Rightarrow> entry_request" where
  "reverse_request db orig actor at =
     \<lparr>IdempotencyKey = reverse_key (e_key orig), EntryType = ''reversal'', Actor = actor,
      OccurredAt = at, OrderID = e_order orig,
      Lines = map (\<lambda>l. Line (acc_code (account_of db l)) (Amount (l_asset l) (of_int (- l_units l))))
        (entry_lines db (e_id orig)),
      Metadata = None\<rparr>"

definition reversal_row ::
  "(hash_payload \<Rightarrow> hash) \<Rightarrow> db \<Rightarrow> entry_row \<Rightarrow> string \<Rightarrow> string \<Rightarrow> time \<Rightarrow> entry_row" where
  "reversal_row digest db orig actor reason at =
     new_entry_row db (reverse_key (e_key orig)) (canonicalHash digest (reverse_request db orig actor at))
       ''reversal'' (e_order orig) actor at (Some (e_id orig))
       [(''reversal_of_idempotency_key'', e_key orig), (''reason'', reason)]"

lemma Reverse_cases:
  assumes r: "Reverse digest db eid actor reason at = Inr (db', e)" and ok: "journal_ok db"
  obtains orig where "orig \<in> set (entries db)" "e_id orig = eid" "e_reversal_of orig = None"
    "\<forall>x \<in> set (entries db). e_reversal_of x \<noteq> Some eid"
    "actor \<noteq> []" "reason \<noteq> []" "at \<noteq> 0"
    "appended db db' (reversal_row digest db orig actor reason at)
       (map (negated_apply db) (entry_lines db eid))"
    "e = (scanEntry (reversal_row digest db orig actor reason at))
           \<lparr>e_lines := map posted_of (map (negated_apply db) (entry_lines db eid)), e_outcome := Created\<rparr>"
    "\<And>i. applied (map (negated_apply db) (entry_lines db eid)) i = - net db eid i"
proof -
  obtain orig where o: "first_row (\<lambda>e. e_id e = eid) (entries db) = Some orig"
    using r by (auto simp: Reverse_def getEntryByID_def split: option.splits)
  have orig: "orig \<in> set (entries db)" "e_id orig = eid" using first_row_Some [OF o] by auto
  let ?row = "reversal_row digest db orig actor reason at"
  let ?ls = "map (negated_apply db) (entry_lines db eid)"
  have lines: "loadLines db eid = Inr (map (posted_of_row db) (entry_lines db eid))"
    by (rule loadLines_eq [OF ok])
  define req where "req ns = \<lparr>IdempotencyKey = reverse_key (e_key orig), EntryType = ''reversal'',
    Actor = actor, OccurredAt = at, OrderID = e_order orig,
    Lines = map (\<lambda>n. Line (n_code n) (n_amount n)) ns, Metadata = None\<rparr>" for ns :: "negated_line list"
  define row where "row ns = new_entry_row db (reverse_key (e_key orig)) (canonicalHash digest (req ns))
       ''reversal'' (e_order orig) actor at (Some eid)
       [(''reversal_of_idempotency_key'', e_key orig), (''reason'', reason)]" for ns :: "negated_line list"
  obtain ns posted db1 e1 where p: "actor \<noteq> []" "reason \<noteq> []" "at \<noteq> 0" "e_reversal_of orig = None"
    "\<not> list_ex (\<lambda>e. e_reversal_of e = Some eid) (entries db)"
    "rmap negate_line (map (posted_of_row db) (entry_lines db eid)) = Inr ns"
    "insert_reversal db (row ns) = Inr (db1, e1)"
    "insertLinesAndApplyBalances db1 (e_id e1) (map negated_to_apply ns) = Inr (db', posted)"
    "e = e1\<lparr>e_lines := posted, e_outcome := Created\<rparr>"
    using r o lines
    by (auto simp: Reverse_def getEntryByID_def Let_def row_def req_def scanEntry_def
        entry_row.extend_def entry.fields_def)
  have fits: "fits64 (l_units l)" if "l \<in> set (entry_lines db eid)" for l
    using line_account(5) [OF ok] that by (simp add: set_entry_lines)
  have ns: "ns = map (negated_of db) (entry_lines db eid)"
    "\<forall>l \<in> set (entry_lines db eid). fits64 (- l_units l)"
    using negate_lines_Inr [OF p(6) fits] by blast+
  have row: "row ns = ?row"
    by (simp add: row_def req_def ns reversal_row_def reverse_request_def orig(2) o_def negated_of_def)
  have ls: "map negated_to_apply ns = ?ls" by (simp add: ns negated_to_apply_of)
  have i: "db1 = append_entry db ?row" "e1 = scanEntry ?row" "\<forall>x \<in> set (entries db). e_key x \<noteq> e_key ?row"
    "\<forall>x \<in> set (entries db). e_reversal_of x \<noteq> Some eid"
    using p(5,7) unfolding row insert_reversal_def
    by (auto simp: list_ex_iff split: if_splits)
  have ids: "e_id ?row = entries_seq db + 1" "e_reversal_of ?row = Some eid" "e_id (scanEntry ?row) = e_id ?row"
    by (simp_all add: reversal_row_def new_entry_row_def orig(2) scanEntry_def entry_row.extend_def)
  have acc: "\<forall>l \<in> set ?ls. \<exists>a \<in> set (accounts db). acc_id a = la_account l \<and> acc_asset a = la_asset l"
    using line_account(2-4) [OF ok] by (fastforce simp: negated_apply_def set_entry_lines)
  have ap: "appended db db' ?row ?ls" "posted = map posted_of ?ls"
    using append_write_appended [OF ok p(8) [unfolded i(1,2) ls ids(3)] ids(1) i(3) acc] ids(2)
      applied_negated [OF ns(2)] balanced_all [OF ok] orig p(4) i(4) by auto
  show ?thesis
    using that [OF orig p(4) i(4) p(1-3) ap(1)] p(9) ap(2) i(2) applied_negated(1) [OF ns(2)] by simp
qed

lemma Reverse_ok:
  assumes "Reverse digest db eid actor reason at = Inr (db', e)" and "journal_ok db"
  shows "journal_ok db'"
  using assms by (rule Reverse_cases) (rule appended_ok)

text \<open>After a reversal every balance is what it was without the entry.\<close>

lemma Reverse_restores:
  assumes "Reverse digest db eid actor reason at = Inr (db', e)" and "journal_ok db"
  shows "cached_units db' i = cached_units db i - net db eid i"
  using assms by (rule Reverse_cases) (simp add: appendedD(13))

end
