(* ===== verification/Journal_Replay.thy ===== *)
theory Journal_Replay
  imports Journal_Inv
begin

text \<open>
  What the journal's invariant gives: the trial balance is zero, the cache agrees with the lines,
  a posted entry reads back and replays, a changed payload conflicts, an entry is reversed at
  most once, and a balance at a past watermark does not move.
\<close>

section \<open>The books balance\<close>

lemma sum_list_partition:
  fixes f :: "'a \<Rightarrow> int"
  assumes "finite A" and "\<forall>x \<in> set xs. g x \<in> A"
  shows "sum_list (map f xs) = (\<Sum>k \<in> A. sum_list (map f (filter (\<lambda>x. g x = k) xs)))"
  using assms(2)
proof (induction xs)
  case (Cons x xs)
  have "(\<Sum>k \<in> A. sum_list (map f (filter (\<lambda>x. g x = k) (x # xs)))) =
    (\<Sum>k \<in> A. (if g x = k then f x else 0) + sum_list (map f (filter (\<lambda>x. g x = k) xs)))"
    by (rule sum.cong) auto
  also have "\<dots> = f x + (\<Sum>k \<in> A. sum_list (map f (filter (\<lambda>x. g x = k) xs)))"
    using Cons.prems assms(1) by (simp add: sum.distrib)
  finally show ?case using Cons by simp
qed simp

text \<open>Every asset nets to zero over the whole journal.\<close>

lemma asset_total:
  assumes "journal_ok db"
  shows "sum_lines db (\<lambda>l. l_asset l = a) = 0"
proof -
  have "sum_lines db (\<lambda>l. l_asset l = a) =
    (\<Sum>i \<in> set (map l_entry (lines db)). sum_lines db (\<lambda>l. l_asset l = a \<and> l_entry l = i))"
    unfolding sum_lines_def
    by (subst sum_list_partition [where g = l_entry and A = "set (map l_entry (lines db))"])
      (auto simp: conj_commute)
  also have "\<dots> = 0"
    using balanced_all [OF assms] by (intro sum.neutral) (simp add: conj_commute)
  finally show ?thesis .
qed

lemma TrialBalance_ok:
  assumes "journal_ok db"
  shows "TrialBalance db = Inr (map (\<lambda>a. (a, 0)) (remdups (map l_asset (lines db))))"
proof -
  have "rmap (\<lambda>a. rbind (scan_int64 (sum_lines db (\<lambda>l. l_asset l = a))) (\<lambda>t. Inr (a, t))) xs =
    Inr (map (\<lambda>a. (a, 0)) xs)" for xs
    by (induction xs) (simp_all add: asset_total [OF assms])
  then show ?thesis by (simp add: TrialBalance_def)
qed

lemma VerifyBalances_ok: "journal_ok db \<Longrightarrow> VerifyBalances db = Inr []"
  by (simp add: VerifyBalances_def cache_all)

lemma Balance_computed:
  assumes "journal_ok db"
  shows "Balance db c = BalanceComputed db c"
proof (cases "GetByCode db c")
  case (Inr acc)
  have "cached_units db (acc_id acc) = computed_units db (acc_id acc)" by (rule cache_all [OF assms])
  then show ?thesis
    using Inr
    by (cases "first_row (\<lambda>b. b_account b = acc_id acc) (balances db)")
      (auto simp: Balance_def BalanceComputed_def cached_units_def computed_units_def)
qed (simp add: Balance_def BalanceComputed_def)

text \<open>A watermark at or past the last entry reads the current balance.\<close>

lemma BalanceAsOf_now:
  assumes "journal_ok db" and "entries_seq db \<le> w"
  shows "BalanceAsOf db c w = Balance db c"
proof -
  have "filter (\<lambda>l. l_account l = i \<and> l_entry l \<le> w) (lines db) = filter (\<lambda>l. l_account l = i) (lines db)" for i
    using old_line_entry [OF assms(1)] assms(2) by (intro filter_cong) fastforce+
  then show ?thesis
    by (simp add: Balance_computed [OF assms(1)] BalanceComputed_def BalanceAsOf_def sum_lines_def)
qed

text \<open>A balance at a watermark never changes once later entries are written.\<close>

lemma BalanceAsOf_appended:
  assumes "appended db db' row ls" and "w < e_id row"
  shows "BalanceAsOf db' c w = BalanceAsOf db c w"
  using assms(2)
  by (simp add: BalanceAsOf_def GetByCode_def appendedD(2) [OF assms(1)] appended_sum [OF assms(1)] line_row_of_def)

section \<open>Replays\<close>

lemma validate_cong:
  assumes "accounts db' = accounts db"
  shows "validate db' req = validate db req"
proof -
  have "validate_line db' = validate_line db"
    by (intro ext) (simp add: validate_line_def GetByCode_cong [OF assms])
  then show ?thesis by (simp add: validate_def)
qed

lemma Post_replay:
  assumes ok: "journal_ok db" and old: "old \<in> set (entries db)"
    and key: "IdempotencyKey req = e_key old" and v: "is_ok (validate db req)"
  shows "Post digest db req =
    (if e_hash old = canonicalHash digest req
     then Inr (db\<lparr>entries_seq := entries_seq db + 1\<rparr>,
               (scanEntry old)\<lparr>e_lines := map (posted_of_row db) (entry_lines db (e_id old)), e_outcome := Replayed\<rparr>)
     else Inl ErrIdempotencyConflict)"
proof -
  have "first_row (\<lambda>e. e_key e = e_key old) (entries db) = Some old"
    using ok old by (intro first_row_unique) (auto simp: journal_ok_def entries_ok_def)
  moreover have "loadLines (db\<lparr>entries_seq := x\<rparr>) i = loadLines db i" for x i
    by (simp add: loadLines_def joined_lines_def)
  ultimately show ?thesis
    using v key
    by (auto simp: Post_def Let_def is_ok_iff insert_entry_or_nothing_def new_entry_row_def resolveExisting_def
        GetEntryByIdempotencyKey_def scanEntry_def entry_row.extend_def entry.fields_def loadLines_eq [OF ok])
qed

text \<open>The lines of a fresh entry read back as they were posted.\<close>

lemma appended_entry_lines:
  assumes ap: "appended db db' row ls" and s: "sorted (map la_seq ls)"
    and code: "\<forall>l \<in> set ls. \<exists>a \<in> set (accounts db). acc_id a = la_account l \<and> acc_code a = la_code l"
  shows "map (posted_of_row db') (entry_lines db' (e_id row)) = map posted_of ls"
proof -
  have none: "filter (\<lambda>l. l_entry l = e_id row) (lines db) = []"
    using appended_old_entry [OF ap] by (fastforce simp: filter_empty_conv)
  have "entry_lines db' (e_id row) = map (line_row_of (e_id row)) ls"
    using s by (simp add: entry_lines_def appendedD(7) [OF ap] none filter_map o_def line_row_of_def
        sort_key_id_if_sorted)
  moreover have "posted_of_row db' (line_row_of (e_id row) l) = posted_of l" if l: "l \<in> set ls" for l
  proof -
    obtain a where a: "a \<in> set (accounts db)" "acc_id a = la_account l" "acc_code a = la_code l"
      using code l by blast
    have d: "distinct (map acc_id (accounts db))"
      using appendedD(1) [OF ap] by (simp add: journal_ok_def accounts_ok_def)
    have "account_of db' (line_row_of (e_id row) l) = a"
      using first_row_unique [OF d a(1,2)] by (simp add: account_of_def appendedD(2) [OF ap] line_row_of_def)
    then show ?thesis using a by (simp add: posted_of_row_def posted_of_def line_row_of_def)
  qed
  ultimately show ?thesis by simp
qed

lemma resolved_sorted: "validate db req = Inr rs \<Longrightarrow> sorted (map la_seq (map to_apply rs))"
proof -
  assume v: "validate db req = Inr rs"
  have "map la_seq (map to_apply rs) = map int [0..<length rs]"
    using validate_Inr(5) [OF v] by (intro nth_equalityI) (auto simp: to_apply_def)
  then show ?thesis by (simp add: sorted_map)
qed

lemma Post_fresh_readback:
  assumes ok: "journal_ok db" and v: "validate db req = Inr rs"
    and ap: "appended db db' (request_row digest db req) (map to_apply rs)"
  shows "map (posted_of_row db') (entry_lines db' (e_id (request_row digest db req))) = map posted_of (map to_apply rs)"
  using resolved_lines(2) [OF v] resolved_sorted [OF v] by (intro appended_entry_lines [OF ap]) blast+

text \<open>The second \<open>Post\<close> under a key returns the first entry and writes nothing.\<close>

lemma Post_again:
  assumes p: "Post digest db req = Inr (db', e)" and ok: "journal_ok db"
    and same: "IdempotencyKey req' = IdempotencyKey req" "canonical_payload req' = canonical_payload req"
    and v': "is_ok (validate db req')"
  shows "Post digest db' req' = Inr (db'\<lparr>entries_seq := entries_seq db' + 1\<rparr>, e\<lparr>e_outcome := Replayed\<rparr>)"
  using p ok
proof (cases rule: Post_cases)
  case (fresh rs)
  let ?row = "request_row digest db req"
  have row: "?row \<in> set (entries db')" "e_key ?row = IdempotencyKey req"
    "e_hash ?row = canonicalHash digest req'"
    using appendedD(4) [OF fresh(2)] same by (simp_all add: request_row_def new_entry_row_def canonicalHash_def)
  have "is_ok (validate db' req')" using v' validate_cong [OF appendedD(2) [OF fresh(2)]] by simp
  then have "Post digest db' req' = Inr (db'\<lparr>entries_seq := entries_seq db' + 1\<rparr>,
      (scanEntry ?row)\<lparr>e_lines := map (posted_of_row db') (entry_lines db' (e_id ?row)), e_outcome := Replayed\<rparr>)"
    using Post_replay [OF appended_ok [OF fresh(2)] row(1)] row same by simp
  then show ?thesis
    unfolding Post_fresh_readback [OF ok fresh(1,2)] fresh(4) by simp
next
  case (replay old ls)
  have ok': "journal_ok db'" by (rule Post_ok [OF p ok])
  have "is_ok (validate db' req')" using v' by (simp add: replay(4) validate_cong [of "db\<lparr>entries_seq := _\<rparr>" db])
  moreover have "old \<in> set (entries db')" using replay(1,4) by simp
  moreover have "loadLines db' i = loadLines db i" for i
    by (simp add: replay(4) loadLines_def joined_lines_def)
  then have "ls = map (posted_of_row db') (entry_lines db' (e_id old))"
    using replay(5) loadLines_eq [OF ok', of "e_id old"] by simp
  ultimately show ?thesis
    using Post_replay [OF ok', of old req' digest] replay(2,3,6) same by (simp add: canonicalHash_def)
qed

lemma Post_conflict:
  assumes "journal_ok db" and "old \<in> set (entries db)" and "IdempotencyKey req = e_key old"
    and "is_ok (validate db req)" and "e_hash old \<noteq> canonicalHash digest req"
  shows "Post digest db req = Inl ErrIdempotencyConflict"
  using Post_replay [OF assms(1-4), of digest] assms(5) by simp

lemma canonical_payload_perm:
  assumes "mset (Lines req') = mset (Lines req)" and "EntryType req' = EntryType req"
    and "OrderID req' = OrderID req" and "OccurredAt req' div 1000 = OccurredAt req div 1000"
  shows "canonical_payload req' = canonical_payload req"
proof -
  have "mset (map hash_line_of (Lines req')) = mset (map hash_line_of (Lines req))"
    using assms(1) by simp
  then have "sort (map hash_line_of (Lines req')) = sort (map hash_line_of (Lines req))"
    by (metis sorted_list_of_multiset_mset)
  then show ?thesis using assms by (simp add: canonical_payload_def)
qed

section \<open>Reversals\<close>

lemma Reverse_twice:
  assumes r: "Reverse digest db eid actor reason at = Inr (db', e)" and ok: "journal_ok db"
    and "actor' \<noteq> []" "reason' \<noteq> []" "at' \<noteq> 0"
  shows "Reverse digest db' eid actor' reason' at' = Inl ErrAlreadyReversed"
  using r ok
proof (rule Reverse_cases)
  fix orig
  assume o: "orig \<in> set (entries db)" "e_id orig = eid" "e_reversal_of orig = None"
    and ap: "appended db db' (reversal_row digest db orig actor reason at)
       (map (negated_apply db) (entry_lines db eid))"
  have "distinct (map e_id (entries db'))" "orig \<in> set (entries db')"
    using appended_entries_ok [OF ap] o(1) appendedD(4) [OF ap] by (auto simp: entries_ok_def)
  then have "getEntryByID db' eid = Inr (scanEntry orig)"
    using o(2) first_row_unique [where k = e_id, of "entries db'" orig eid] by (simp add: getEntryByID_def)
  moreover have "e_reversal_of (scanEntry orig) = None"
    using o(3) by (simp add: scanEntry_def entry_row.extend_def)
  moreover have "list_ex (\<lambda>e. e_reversal_of e = Some eid) (entries db')"
    using appendedD(4) [OF ap] o(2) by (simp add: list_ex_iff reversal_row_def new_entry_row_def)
  ultimately show ?thesis using assms(3-5) by (simp add: Reverse_def)
qed

lemma Reverse_reversal:
  assumes r: "Reverse digest db eid actor reason at = Inr (db', e)" and ok: "journal_ok db"
    and "actor' \<noteq> []" "reason' \<noteq> []" "at' \<noteq> 0"
  shows "Reverse digest db' (e_id e) actor' reason' at' = Inl ErrCannotReverseAReversal"
  using r ok
proof (rule Reverse_cases)
  fix orig
  let ?row = "reversal_row digest db orig actor reason at"
  assume ap: "appended db db' ?row (map (negated_apply db) (entry_lines db eid))"
    and e: "e = (scanEntry ?row)\<lparr>e_lines := map posted_of (map (negated_apply db) (entry_lines db eid)),
              e_outcome := Created\<rparr>"
  have id: "e_id e = e_id ?row" by (simp add: e scanEntry_def entry_row.extend_def)
  have "distinct (map e_id (entries db'))" "?row \<in> set (entries db')"
    using appended_entries_ok [OF ap] appendedD(4) [OF ap] by (auto simp: entries_ok_def)
  then have "getEntryByID db' (e_id e) = Inr (scanEntry ?row)"
    using first_row_unique [where k = e_id, of "entries db'" ?row "e_id e"] id by (simp add: getEntryByID_def)
  moreover have "e_reversal_of (scanEntry ?row) \<noteq> None"
    by (simp add: scanEntry_def entry_row.extend_def reversal_row_def new_entry_row_def)
  ultimately show ?thesis using assms(3-5) by (simp add: Reverse_def)
qed

section \<open>The journal only grows\<close>

text \<open>Neither operation changes or removes a row of the journal, or touches another table.\<close>

definition extends :: "db \<Rightarrow> db \<Rightarrow> bool" where
  "extends db db' \<longleftrightarrow>
     accounts db' = accounts db \<and> orders db' = orders db \<and> transitions db' = transitions db \<and>
     sys db' = sys db \<and> halt_log db' = halt_log db \<and> snapshots db' = snapshots db \<and>
     take (length (entries db)) (entries db') = entries db \<and>
     take (length (lines db)) (lines db') = lines db \<and> entries_seq db \<le> entries_seq db'"

lemma appended_extends: "appended db db' row ls \<Longrightarrow> extends db db'"
  by (auto simp: appended_def extends_def)

lemma Post_extends:
  assumes "Post digest db req = Inr (db', e)" and "journal_ok db"
  shows "extends db db'"
  using assms by (cases rule: Post_cases) (auto simp: extends_def dest: appended_extends)

lemma Reverse_extends:
  assumes "Reverse digest db eid actor reason at = Inr (db', e)" and "journal_ok db"
  shows "extends db db'"
  using assms by (rule Reverse_cases) (rule appended_extends)

end
