(* ===== verification/Halt.thy ===== *)
theory Halt
  imports Ledger_Schema
begin

text \<open>
  The halt flag (\<open>ledger/internal/halt\<close>): the singleton row of \<open>system_state\<close>, its append-only
  log, and the in-memory cache of \<open>halt.Cache\<close>.

  \<open>cache_IsHalted\<close> takes the clock readings as arguments: \<open>now\<close> is the \<open>time.Since\<close> of the age
  check, \<open>upd\<close> the \<open>time.Now()\<close> after the query, and \<open>current\<close> what the query returned. The lemmas
  show that a halt ends only by \<open>ClearHalt\<close> and how stale a cached answer can be.
\<close>

record set_params =
  sp_reason :: string
  sp_detail :: metadata
  sp_actor :: string

definition ReasonPostSettlementReorg :: string where
  "ReasonPostSettlementReorg = ''POST_SETTLEMENT_REORG''"
definition ReasonTrialBalanceBroken :: string where
  "ReasonTrialBalanceBroken = ''TRIAL_BALANCE_BROKEN''"
definition ReasonCacheDivergence :: string where
  "ReasonCacheDivergence = ''CACHE_DIVERGENCE''"
definition ReasonBalanceDrift :: string where
  "ReasonBalanceDrift = ''BALANCE_DRIFT''"

definition SetHalt :: "db \<Rightarrow> set_params \<Rightarrow> db" where
  "SetHalt db p =
     db\<lparr>sys := (sys db)\<lparr>halted := True, halt_reason := Some (sp_reason p), halt_detail := sp_detail p,
                 halted_at := Some (db_now db), halted_by := Some (sp_actor p)\<rparr>,
        halt_log := halt_log db @
          [\<lparr>h_id = halt_seq db + 1, h_action = ActionSet, h_reason = Some (sp_reason p),
            h_detail = sp_detail p, h_note = None, h_actor = sp_actor p, h_occurred_at = db_now db\<rparr>],
        halt_seq := halt_seq db + 1\<rparr>"

record clear_params =
  cp_actor :: string
  cp_note :: string

definition ClearHalt :: "db \<Rightarrow> clear_params \<Rightarrow> ledger_error + db" where
  "ClearHalt db p =
     (if cp_actor p = '''' \<or> cp_note p = '''' then Inl ErrClearRequiresOperator
      else Inr (db\<lparr>sys := (sys db)\<lparr>halted := False, cleared_at := Some (db_now db),
                              cleared_by := Some (cp_actor p)\<rparr>,
        halt_log := halt_log db @
          [\<lparr>h_id = halt_seq db + 1, h_action = ActionClear, h_reason = None, h_detail = [],
            h_note = Some (cp_note p), h_actor = cp_actor p, h_occurred_at = db_now db\<rparr>],
        halt_seq := halt_seq db + 1\<rparr>))"

definition IsHalted :: "db \<Rightarrow> bool" where
  "IsHalted db = halted (sys db)"

definition Reason :: "db \<Rightarrow> string" where
  "Reason db = (case halt_reason (sys db) of None \<Rightarrow> '''' | Some r \<Rightarrow> r)"

record cache =
  c_halted :: bool
  c_updated_at :: time

definition maxCacheAge :: time where "maxCacheAge = 1000000000"

definition cache_IsHalted :: "cache \<Rightarrow> time \<Rightarrow> time \<Rightarrow> bool \<Rightarrow> cache \<times> bool" where
  "cache_IsHalted c now upd current =
     (if now - c_updated_at c < maxCacheAge then (c, c_halted c)
      else (c\<lparr>c_halted := current, c_updated_at := upd\<rparr>, current))"

lemma IsHalted_SetHalt [simp]: "IsHalted (SetHalt db p)"
  by (simp add: IsHalted_def SetHalt_def)

lemma Reason_SetHalt [simp]: "Reason (SetHalt db p) = sp_reason p"
  by (simp add: Reason_def SetHalt_def)

lemma ClearHalt_Inr:
  "ClearHalt db p = Inr db' \<Longrightarrow> cp_actor p \<noteq> [] \<and> cp_note p \<noteq> [] \<and> \<not> IsHalted db'"
  by (auto simp: ClearHalt_def IsHalted_def split: if_splits)

lemma SetHalt_tables [simp]:
  "accounts (SetHalt db p) = accounts db" "accounts_seq (SetHalt db p) = accounts_seq db"
  "entries (SetHalt db p) = entries db" "entries_seq (SetHalt db p) = entries_seq db"
  "lines (SetHalt db p) = lines db" "balances (SetHalt db p) = balances db"
  "orders (SetHalt db p) = orders db" "orders_seq (SetHalt db p) = orders_seq db"
  "transitions (SetHalt db p) = transitions db" "transitions_seq (SetHalt db p) = transitions_seq db"
  "snapshots (SetHalt db p) = snapshots db" "snapshots_seq (SetHalt db p) = snapshots_seq db"
  "db_now (SetHalt db p) = db_now db"
  by (simp_all add: SetHalt_def)

lemma ClearHalt_tables:
  assumes "ClearHalt db p = Inr db'"
  shows "accounts db' = accounts db" "accounts_seq db' = accounts_seq db" "entries db' = entries db"
    "entries_seq db' = entries_seq db" "lines db' = lines db" "balances db' = balances db"
    "orders db' = orders db" "orders_seq db' = orders_seq db" "transitions db' = transitions db"
    "transitions_seq db' = transitions_seq db" "snapshots db' = snapshots db"
  using assms by (auto simp: ClearHalt_def split: if_splits)

text \<open>The log agrees with the flag: its last row says how the flag was last moved.\<close>

definition halt_ok :: "db \<Rightarrow> bool" where
  "halt_ok db \<longleftrightarrow>
     halted (sys db) = (halt_log db \<noteq> [] \<and> h_action (last (halt_log db)) = ActionSet) \<and>
     length (halt_log db) = nat (halt_seq db) \<and> 0 \<le> halt_seq db"

lemma halt_ok_empty: "halt_ok empty_db"
  by (simp add: halt_ok_def empty_db_def)

lemma halt_ok_SetHalt: "halt_ok db \<Longrightarrow> halt_ok (SetHalt db p)"
  by (auto simp: halt_ok_def SetHalt_def)

lemma halt_ok_ClearHalt: "halt_ok db \<Longrightarrow> ClearHalt db p = Inr db' \<Longrightarrow> halt_ok db'"
  by (auto simp: halt_ok_def ClearHalt_def split: if_splits)

lemma halt_ok_cong:
  "sys db' = sys db \<Longrightarrow> halt_log db' = halt_log db \<Longrightarrow> halt_seq db' = halt_seq db \<Longrightarrow> halt_ok db' = halt_ok db"
  by (simp add: halt_ok_def)

text \<open>The staleness of the cache. \<open>hist t\<close> is the flag as the database has it at time \<open>t\<close>; the
  cache is \<open>fresh_within L\<close> when its value was read at most \<open>L\<close> before its timestamp.\<close>

definition fresh_within :: "time \<Rightarrow> (time \<Rightarrow> bool) \<Rightarrow> cache \<Rightarrow> bool" where
  "fresh_within L hist c \<longleftrightarrow>
     (\<exists>t. c_updated_at c - L \<le> t \<and> t \<le> c_updated_at c \<and> c_halted c = hist t)"

lemma cache_staleness:
  assumes "fresh_within L hist c" and "0 \<le> L"
    and "now \<le> rd" "rd \<le> upd" "upd \<le> rd + L"
    and "cache_IsHalted c now upd (hist rd) = (c', v)" and "c_updated_at c \<le> now"
  shows "fresh_within L hist c'" and "\<exists>t. now - maxCacheAge - L < t \<and> t \<le> rd \<and> v = hist t"
proof -
  show "fresh_within L hist c'"
  proof (cases "now - c_updated_at c < maxCacheAge")
    case True
    then show ?thesis using assms by (simp add: cache_IsHalted_def)
  next
    case False
    then have "c' = c\<lparr>c_halted := hist rd, c_updated_at := upd\<rparr>"
      using assms(6) by (auto simp: cache_IsHalted_def)
    then show ?thesis using assms(4,5) unfolding fresh_within_def by (intro exI [of _ rd]) simp
  qed
  show "\<exists>t. now - maxCacheAge - L < t \<and> t \<le> rd \<and> v = hist t"
  proof (cases "now - c_updated_at c < maxCacheAge")
    case True
    obtain t where t: "c_updated_at c - L \<le> t" "t \<le> c_updated_at c" "c_halted c = hist t"
      using assms(1) by (auto simp: fresh_within_def)
    then show ?thesis using True assms by (intro exI [of _ t]) (auto simp: cache_IsHalted_def)
  next
    case False
    then show ?thesis using assms
      by (intro exI [of _ rd]) (auto simp: cache_IsHalted_def maxCacheAge_def)
  qed
qed

end
