(* ===== verification/Orders.thy ===== *)
theory Orders
  imports Journal_Replay Halt
begin

text \<open>
  The order state machine (\<open>ledger/internal/orders\<close>): states, tiers and the transition table,
  \<open>Create\<close> and the reads, \<open>Transition\<close> with its halt check, its journal entry and its
  compare-and-swap, the listings and the two reorg scenarios.

  The in-memory halt cache is package state of the Go code; \<open>Transition\<close> reads it through
  \<open>halt_env\<close>, which holds the cache (or its absence), the clock readings of \<open>cache_IsHalted\<close> and
  what a query on the cache's own pool returns, and hands it back updated. A database error of
  such a query is not modelled.
\<close>

section \<open>States, tiers, table\<close>

definition allStates :: "state list" where
  "allStates = [Quoted, Funded, Screened, Dispatching, Settled, Held, Refunded, Expired]"

definition StateValid :: "state \<Rightarrow> bool" where
  "StateValid s = list_ex (\<lambda>v. s = v) allStates"

fun Terminal :: "state \<Rightarrow> bool" where
  "Terminal Settled = True"
| "Terminal Refunded = True"
| "Terminal Expired = True"
| "Terminal _ = False"

definition allTiers :: "tier list" where
  "allTiers = [Direct, Standard, Sweep, Relay]"

definition TierValid :: "tier \<Rightarrow> bool" where
  "TierValid t = list_ex (\<lambda>v. t = v) allTiers"

record rule =
  RequiresEntry :: bool
  HaltBlocked :: bool

abbreviation Rule :: "bool \<Rightarrow> bool \<Rightarrow> rule" where
  "Rule r h \<equiv> \<lparr>RequiresEntry = r, HaltBlocked = h\<rparr>"

definition transitionTable :: "((state \<times> state) \<times> rule) list" where
  "transitionTable =
     [((Quoted, Funded), Rule True False),
      ((Quoted, Expired), Rule False False),
      ((Funded, Screened), Rule False False),
      ((Funded, Held), Rule False False),
      ((Funded, Refunded), Rule True True),
      ((Funded, Quoted), Rule True False),
      ((Held, Screened), Rule False False),
      ((Held, Refunded), Rule True True),
      ((Screened, Dispatching), Rule True True),
      ((Screened, Refunded), Rule True True),
      ((Dispatching, Settled), Rule True True),
      ((Dispatching, Held), Rule True False)]"

definition legal :: "state \<Rightarrow> state \<Rightarrow> rule option" where
  "legal f t = map_of transitionTable (f, t)"

section \<open>Orders\<close>

record order =
  o_id :: int
  o_external_id :: string
  o_customer_id :: string
  o_tier :: tier
  o_state :: state
  o_amount_in :: amount
  o_amount_out :: amount
  o_fee :: amount
  o_network_fee :: amount
  o_recipient :: string
  o_sender :: "string option"
  o_quoted_at :: time
  o_quote_expires_at :: time
  o_version :: int
  o_created_at :: time
  o_updated_at :: time

record create_params =
  ExternalID :: string
  CustomerID :: string
  Tier :: tier
  AmountIn :: amount
  AmountOut :: amount
  FeeUnits :: amount
  NetworkFeeUnits :: amount
  RecipientAddress :: string
  QuotedAt :: time
  QuoteExpiresAt :: time

definition create_validate :: "create_params \<Rightarrow> ledger_error + unit" where
  "create_validate p =
     (let ain = amt_asset (AmountIn p); aout = amt_asset (AmountOut p);
          fee = amt_asset (FeeUnits p); nfee = amt_asset (NetworkFeeUnits p) in
      if ExternalID p = '''' then Inl ErrInvalidParams
      else if CustomerID p = '''' then Inl ErrInvalidParams
      else if \<not> TierValid (Tier p) then Inl ErrInvalidParams
      else
        rbind
          (if Tier p = Relay then
             (if \<not> (ain = USDT_BEP20 \<and> aout = USDT_TRC20 \<or> ain = USDT_TRC20 \<and> aout = USDT_BEP20)
              then Inl ErrInvalidParams
              else if fee \<noteq> ain then Inl ErrInvalidParams
              else if nfee \<noteq> ain then Inl ErrInvalidParams
              else Inr ())
           else if ain \<noteq> USDT_BEP20 then Inl ErrInvalidParams
           else if aout \<noteq> USDT_TRC20 then Inl ErrInvalidParams
           else if fee \<noteq> USDT_TRC20 then Inl ErrInvalidParams
           else if nfee \<noteq> USDT_TRC20 then Inl ErrInvalidParams
           else Inr ())
        (\<lambda>_. if RecipientAddress p = '''' then Inl ErrInvalidParams
             else if QuotedAt p = 0 then Inl ErrInvalidParams
             else if \<not> QuotedAt p < QuoteExpiresAt p then Inl ErrInvalidParams
             else Inr ()))"

text \<open>\<open>scanOrder\<close>: the assets are not columns, they follow from tier and direction.\<close>

definition order_assets :: "order_row \<Rightarrow> asset \<times> asset \<times> asset" where
  "order_assets r =
     (let (ain, aout) =
        (if r_tier r = Relay \<and> r_direction r = Some TRC20_TO_BEP20 then (USDT_TRC20, USDT_BEP20)
         else (USDT_BEP20, USDT_TRC20))
      in (ain, aout, if r_tier r = Relay then ain else aout))"

definition scanOrder :: "order_row \<Rightarrow> ledger_error + order" where
  "scanOrder r =
     rbind (scan_int64 (r_amount_in r)) (\<lambda>i.
     rbind (scan_int64 (r_amount_out r)) (\<lambda>out.
     rbind (scan_int64 (r_fee_units r)) (\<lambda>f.
     rbind (scan_int64 (r_network_fee_units r)) (\<lambda>n.
     case order_assets r of (ain, aout, fee) \<Rightarrow>
       Inr \<lparr>o_id = r_id r, o_external_id = r_external_id r, o_customer_id = r_customer_id r,
            o_tier = r_tier r, o_state = r_state r, o_amount_in = Amount ain i,
            o_amount_out = Amount aout out, o_fee = Amount fee f, o_network_fee = Amount fee n,
            o_recipient = r_recipient r, o_sender = r_sender r, o_quoted_at = r_quoted_at r,
            o_quote_expires_at = r_quote_expires_at r, o_version = r_version r,
            o_created_at = r_created_at r, o_updated_at = r_updated_at r\<rparr>))))"

definition relay_direction :: "create_params \<Rightarrow> direction option" where
  "relay_direction p =
     (if Tier p = Relay then
        Some (if amt_asset (AmountIn p) = USDT_TRC20 then TRC20_TO_BEP20 else BEP20_TO_TRC20)
      else None)"

definition new_order_row :: "db \<Rightarrow> create_params \<Rightarrow> order_row" where
  "new_order_row db p =
     \<lparr>r_id = orders_seq db + 1, r_external_id = ExternalID p, r_customer_id = CustomerID p,
      r_tier = Tier p, r_state = Quoted, r_amount_in = units (AmountIn p),
      r_amount_out = units (AmountOut p), r_fee_units = units (FeeUnits p),
      r_network_fee_units = units (NetworkFeeUnits p), r_recipient = RecipientAddress p,
      r_sender = None, r_quoted_at = pg_time (QuotedAt p),
      r_quote_expires_at = pg_time (QuoteExpiresAt p), r_version = 0, r_created_at = db_now db,
      r_updated_at = db_now db, r_direction = relay_direction p\<rparr>"

definition insert_order :: "order_row \<Rightarrow> db \<Rightarrow> ledger_error + db" where
  "insert_order r db =
     (if list_ex (\<lambda>q. r_external_id q = r_external_id r) (orders db) then Inl (DbErr UniqueViolation)
      else if (r_tier r = Relay) \<noteq> (r_direction r \<noteq> None) then Inl (DbErr CheckViolation)
      else Inr (db\<lparr>orders := orders db @ [r], orders_seq := r_id r\<rparr>))"

definition CreateOrder :: "db \<Rightarrow> create_params \<Rightarrow> ledger_error + db \<times> order" where
  "CreateOrder db p =
     rbind (create_validate p) (\<lambda>_.
     rbind (insert_order (new_order_row db p) db) (\<lambda>db'.
     rbind (scanOrder (new_order_row db p)) (\<lambda>o'. Inr (db', o'))))"

definition GetOrder :: "db \<Rightarrow> int \<Rightarrow> ledger_error + order" where
  "GetOrder db i =
     (case first_row (\<lambda>r. r_id r = i) (orders db) of
        None \<Rightarrow> Inl ErrOrderNotFound | Some r \<Rightarrow> scanOrder r)"

definition GetByExternalID :: "db \<Rightarrow> string \<Rightarrow> ledger_error + order" where
  "GetByExternalID db x =
     (case first_row (\<lambda>r. r_external_id r = x) (orders db) of
        None \<Rightarrow> Inl ErrOrderNotFound | Some r \<Rightarrow> scanOrder r)"

definition ListByState :: "db \<Rightarrow> state \<Rightarrow> ledger_error + order list" where
  "ListByState db s = rmap scanOrder (sort_key r_id (filter (\<lambda>r. r_state r = s) (orders db)))"

section \<open>Transition\<close>

record transition_params =
  tp_actor :: string
  tp_reason :: string
  tp_occurred_at :: time
  tp_entry :: "entry_request option"
  tp_entry_id :: "int option"
  tp_sender :: "string option"

definition transition_validate :: "transition_params \<Rightarrow> ledger_error + unit" where
  "transition_validate p =
     (if tp_actor p = '''' then Inl ErrInvalidParams
      else if tp_reason p = '''' then Inl ErrInvalidParams
      else if tp_occurred_at p = 0 then Inl ErrInvalidParams
      else if tp_entry p \<noteq> None \<and> tp_entry_id p \<noteq> None then Inl ErrInvalidParams
      else if tp_sender p = Some '''' then Inl ErrInvalidParams
      else Inr ())"

record halt_env =
  he_cache :: "cache option"
  he_now :: time
  he_upd :: time
  he_committed :: bool

text \<open>The two halt checks of a \<open>HaltBlocked\<close> pair: the cache, then the row the transaction sees.\<close>

definition halt_gate :: "halt_env \<Rightarrow> db \<Rightarrow> halt_env \<times> (ledger_error + unit)" where
  "halt_gate env db =
     (case he_cache env of
        None \<Rightarrow> (env, Inl ErrHaltCacheNotConfigured)
      | Some c \<Rightarrow>
          (case cache_IsHalted c (he_now env) (he_upd env) (he_committed env) of
             (c', fastHalted) \<Rightarrow>
               (env\<lparr>he_cache := Some c'\<rparr>,
                if fastHalted then Inl ErrSystemHalted
                else if IsHalted db then Inl ErrSystemHalted
                else Inr ())))"

definition replayIfAlreadyPosted ::
  "(hash_payload \<Rightarrow> hash) \<Rightarrow> db \<Rightarrow> order \<Rightarrow> entry_request \<Rightarrow> ledger_error + db \<times> order option" where
  "replayIfAlreadyPosted digest db current entryReq =
     (case GetEntryByIdempotencyKey db (IdempotencyKey entryReq) of
        Inl err \<Rightarrow> if err = ErrEntryNotFound then Inr (db, None) else Inl err
      | Inr _ \<Rightarrow> rbind (Post digest db entryReq) (\<lambda>(db', _). Inr (db', Some current)))"

text \<open>\<open>UPDATE orders SET state, version + 1 ... WHERE id AND version RETURNING\<close>; \<open>version\<close> is a
  32-bit column.\<close>

definition moved_row :: "state \<Rightarrow> string option \<Rightarrow> time \<Rightarrow> order_row \<Rightarrow> order_row" where
  "moved_row to sender now r =
     r\<lparr>r_state := to, r_version := r_version r + 1, r_updated_at := now,
       r_sender := (case sender of None \<Rightarrow> r_sender r | Some s \<Rightarrow> Some s)\<rparr>"

definition cas_order ::
  "db \<Rightarrow> int \<Rightarrow> state \<Rightarrow> int \<Rightarrow> string option \<Rightarrow> ledger_error + db \<times> order" where
  "cas_order db i to ver sender =
     (let here = (\<lambda>r. r_id r = i \<and> r_version r = ver) in
      case first_row here (orders db) of
        None \<Rightarrow> Inl ErrVersionConflict
      | Some r \<Rightarrow>
          if 2 ^ 31 \<le> r_version r + 1 then Inl (DbErr NumericOverflow)
          else rbind (scanOrder (moved_row to sender (db_now db) r)) (\<lambda>o'.
            Inr (db\<lparr>orders := update_rows here (moved_row to sender (db_now db)) (orders db)\<rparr>, o')))"

definition log_transition ::
  "db \<Rightarrow> int \<Rightarrow> state \<Rightarrow> state \<Rightarrow> int option \<Rightarrow> transition_params \<Rightarrow> ledger_error + db" where
  "log_transition db i from to eid p =
     (if \<not> has_order db i then Inl (DbErr ForeignKeyViolation)
      else if (case eid of None \<Rightarrow> False | Some e \<Rightarrow> \<not> list_ex (\<lambda>r. e_id r = e) (entries db))
      then Inl (DbErr ForeignKeyViolation)
      else Inr (db\<lparr>transitions := transitions db @
        [\<lparr>t_id = transitions_seq db + 1, t_order = i, t_from = from, t_to = to, t_entry = eid,
          t_actor = tp_actor p, t_reason = tp_reason p, t_occurred_at = pg_time (tp_occurred_at p),
          t_recorded_at = db_now db\<rparr>],
        transitions_seq := transitions_seq db + 1\<rparr>))"

text \<open>The part of \<open>Transition\<close> after the halt checks.\<close>

definition transition_commit ::
  "(hash_payload \<Rightarrow> hash) \<Rightarrow> db \<Rightarrow> int \<Rightarrow> state \<Rightarrow> int \<Rightarrow> transition_params \<Rightarrow> order \<Rightarrow> rule \<Rightarrow>
   ledger_error + db \<times> order" where
  "transition_commit digest db i to ver p current r =
     rbind (guard (RequiresEntry r \<and> tp_entry p = None \<and> tp_entry_id p = None) ErrEntryRequired) (\<lambda>_.
     rbind (guard (\<not> RequiresEntry r \<and> (tp_entry p \<noteq> None \<or> tp_entry_id p \<noteq> None)) ErrEntryNotAllowed) (\<lambda>_.
     rbind (guard (tp_sender p \<noteq> None \<and> to \<noteq> Funded) ErrInvalidParams) (\<lambda>_.
     rbind (case tp_entry p of
              None \<Rightarrow> Inr (db, tp_entry_id p)
            | Some req \<Rightarrow> rbind (Post digest db req) (\<lambda>(db1, e). Inr (db1, Some (e_id e)))) (\<lambda>(db1, eid).
     rbind (cas_order db1 i to ver (tp_sender p)) (\<lambda>(db2, updated).
     rbind (log_transition db2 i (o_state current) to eid p) (\<lambda>db3.
     Inr (db3, updated)))))))"

definition Transition ::
  "(hash_payload \<Rightarrow> hash) \<Rightarrow> halt_env \<Rightarrow> db \<Rightarrow> int \<Rightarrow> state \<Rightarrow> int \<Rightarrow> transition_params \<Rightarrow>
   halt_env \<times> (ledger_error + db \<times> order)" where
  "Transition digest env db i to ver p =
     (if \<not> StateValid to then (env, Inl ErrInvalidParams)
      else
       (case transition_validate p of
          Inl err \<Rightarrow> (env, Inl err)
        | Inr _ \<Rightarrow>
       (case GetOrder db i of
          Inl err \<Rightarrow> (env, Inl err)
        | Inr current \<Rightarrow>
            if o_version current \<noteq> ver then (env, Inl ErrVersionConflict)
            else
             (case legal (o_state current) to of
                None \<Rightarrow>
                  (env,
                   (case tp_entry p of
                      Some req \<Rightarrow>
                        if to = o_state current then
                          rbind (replayIfAlreadyPosted digest db current req) (\<lambda>(db', found).
                          case found of Some o' \<Rightarrow> Inr (db', o') | None \<Rightarrow> Inl ErrIllegalTransition)
                        else Inl ErrIllegalTransition
                    | None \<Rightarrow> Inl ErrIllegalTransition))
              | Some r \<Rightarrow>
                  if HaltBlocked r then
                    (case halt_gate env db of (env', gate) \<Rightarrow>
                       (env', rbind gate (\<lambda>_. transition_commit digest db i to ver p current r)))
                  else (env, transition_commit digest db i to ver p current r)))))"

section \<open>Pages\<close>

definition DefaultListLimit :: int where "DefaultListLimit = 100"
definition MaxListLimit :: int where "MaxListLimit = 500"

record cursor =
  cu_updated_at :: time
  cu_id :: int

definition clamp_limit :: "int \<Rightarrow> int" where
  "clamp_limit limit =
     (let limit = (if limit \<le> 0 then DefaultListLimit else limit) in
      if MaxListLimit < limit then MaxListLimit else limit)"

definition page_rows :: "db \<Rightarrow> state \<Rightarrow> cursor option \<Rightarrow> int \<Rightarrow> order_row list" where
  "page_rows db s after limit =
     take (nat (clamp_limit limit))
       (sort_key (\<lambda>r. (r_updated_at r, r_id r))
         (filter (\<lambda>r. r_state r = s \<and>
             (case after of None \<Rightarrow> True
              | Some c \<Rightarrow> (pg_time (cu_updated_at c), cu_id c) < (r_updated_at r, r_id r)))
           (orders db)))"

definition ListByStateAfter :: "db \<Rightarrow> state \<Rightarrow> cursor option \<Rightarrow> int \<Rightarrow> ledger_error + order list" where
  "ListByStateAfter db s after limit = rmap scanOrder (page_rows db s after limit)"

end
