(* ===== verification/Orders_Inv.thy ===== *)
theory Orders_Inv
  imports Orders
begin

text \<open>
  The invariant of the order tables and of the whole ledger (\<open>ledger_ok\<close>): every order's version
  counts its logged transitions, which form a legal run from \<open>Quoted\<close> to its state. \<open>Create\<close>,
  \<open>Transition\<close> and the reorg handler keep it; the lemmas give what a successful transition did and
  which transitions a halt refuses.
\<close>

section \<open>Invariants\<close>

definition order_row_ok :: "db \<Rightarrow> order_row \<Rightarrow> bool" where
  "order_row_ok db r \<longleftrightarrow>
     r_id r \<le> orders_seq db \<and> TierValid (r_tier r) \<and> StateValid (r_state r) \<and>
     (r_tier r = Relay \<longleftrightarrow> r_direction r \<noteq> None) \<and>
     fits64 (r_amount_in r) \<and> fits64 (r_amount_out r) \<and> fits64 (r_fee_units r) \<and>
     fits64 (r_network_fee_units r)"

definition orders_ok :: "db \<Rightarrow> bool" where
  "orders_ok db \<longleftrightarrow>
     distinct (map r_id (orders db)) \<and> distinct (map r_external_id (orders db)) \<and>
     (\<forall>r \<in> set (orders db). order_row_ok db r)"

text \<open>A run of the state machine, as \<open>order_transitions\<close> records it.\<close>

fun path :: "state \<Rightarrow> transition_row list \<Rightarrow> state \<Rightarrow> bool" where
  "path s [] s' \<longleftrightarrow> s = s'"
| "path s (t # ts) s' \<longleftrightarrow>
     t_from t = s \<and>
     (case legal s (t_to t) of None \<Rightarrow> False | Some r \<Rightarrow> RequiresEntry r = (t_entry t \<noteq> None)) \<and>
     path (t_to t) ts s'"

lemma path_append: "path s (ts @ us) s' \<longleftrightarrow> (\<exists>m. path s ts m \<and> path m us s')"
  by (induction ts arbitrary: s) auto

definition history :: "db \<Rightarrow> int \<Rightarrow> transition_row list" where
  "history db i = filter (\<lambda>t. t_order t = i) (transitions db)"

definition history_ok :: "db \<Rightarrow> bool" where
  "history_ok db \<longleftrightarrow>
     (\<forall>t \<in> set (transitions db). has_order db (t_order t)) \<and>
     (\<forall>r \<in> set (orders db). r_version r = int (length (history db (r_id r))) \<and>
        path Quoted (history db (r_id r)) (r_state r))"

definition ledger_ok :: "db \<Rightarrow> bool" where
  "ledger_ok db \<longleftrightarrow> journal_ok db \<and> orders_ok db \<and> history_ok db \<and> halt_ok db"

lemma ledger_ok_empty: "ledger_ok empty_db"
  by (simp add: ledger_ok_def journal_ok_empty halt_ok_empty orders_ok_def history_ok_def)
    (simp add: empty_db_def)

lemma scanOrder_Inr:
  assumes "scanOrder r = Inr o'"
  shows "o_id o' = r_id r" "o_state o' = r_state r" "o_version o' = r_version r"
    "o_external_id o' = r_external_id r" "o_tier o' = r_tier r" "o_sender o' = r_sender r"
    "units (o_amount_in o') = r_amount_in r" "units (o_amount_out o') = r_amount_out r"
    "units (o_fee o') = r_fee_units r" "units (o_network_fee o') = r_network_fee_units r"
    "o_updated_at o' = r_updated_at r"
proof -
  obtain a b c where "order_assets r = (a, b, c)" using prod_cases3 by blast
  then show "o_id o' = r_id r" "o_state o' = r_state r" "o_version o' = r_version r"
    "o_external_id o' = r_external_id r" "o_tier o' = r_tier r" "o_sender o' = r_sender r"
    "units (o_amount_in o') = r_amount_in r" "units (o_amount_out o') = r_amount_out r"
    "units (o_fee o') = r_fee_units r" "units (o_network_fee o') = r_network_fee_units r"
    "o_updated_at o' = r_updated_at r"
    using assms by (auto simp: scanOrder_def)
qed

lemma scanOrder_total:
  assumes "order_row_ok db r"
  shows "\<exists>o'. scanOrder r = Inr o'"
proof -
  obtain a b c where "order_assets r = (a, b, c)" using prod_cases3 by blast
  then show ?thesis using assms by (simp add: scanOrder_def order_row_ok_def scan_int64_def)
qed

lemma orders_row:
  "orders_ok db \<Longrightarrow> r \<in> set (orders db) \<Longrightarrow> first_row (\<lambda>q. r_id q = r_id r) (orders db) = Some r"
  by (intro first_row_unique) (auto simp: orders_ok_def)

lemma GetOrder_Inr:
  assumes "GetOrder db i = Inr o'"
  obtains r where "r \<in> set (orders db)" "r_id r = i" "scanOrder r = Inr o'"
  using assms by (auto simp: GetOrder_def split: option.splits dest: first_row_Some)

lemma legal_valid:
  "legal s t = Some r \<Longrightarrow> StateValid s \<and> StateValid t"
  by (auto simp: legal_def transitionTable_def StateValid_def allStates_def split: if_splits)

lemma legal_irrefl: "legal s s = None"
  by (cases s) (simp_all add: legal_def transitionTable_def)

section \<open>Create\<close>

lemma create_validate_Inr:
  assumes "create_validate p = Inr u"
  shows "TierValid (Tier p)" "ExternalID p \<noteq> []"
  using assms by (auto simp: create_validate_def Let_def split: if_splits)

lemma CreateOrder_Inr:
  assumes "CreateOrder db p = Inr (db', o')"
  shows "db' = db\<lparr>orders := orders db @ [new_order_row db p], orders_seq := orders_seq db + 1\<rparr>"
    and "\<forall>q \<in> set (orders db). r_external_id q \<noteq> ExternalID p"
    and "create_validate p = Inr ()" and "scanOrder (new_order_row db p) = Inr o'"
  using assms by (auto simp: CreateOrder_def insert_order_def new_order_row_def list_ex_iff split: if_splits)

lemma CreateOrder_amounts:
  assumes "CreateOrder db p = Inr (db', o')"
  shows "o_amount_in o' = AmountIn p" "o_amount_out o' = AmountOut p" "o_fee o' = FeeUnits p"
    "o_network_fee o' = NetworkFeeUnits p"
proof -
  note c = CreateOrder_Inr [OF assms]
  have "order_assets (new_order_row db p) =
    (amt_asset (AmountIn p), amt_asset (AmountOut p), amt_asset (FeeUnits p)) \<and>
    amt_asset (NetworkFeeUnits p) = amt_asset (FeeUnits p)"
    using c(3)
    by (auto simp: create_validate_def Let_def order_assets_def new_order_row_def relay_direction_def
        split: if_splits)
  then show "o_amount_in o' = AmountIn p" "o_amount_out o' = AmountOut p" "o_fee o' = FeeUnits p"
    "o_network_fee o' = NetworkFeeUnits p"
    using c(4) by (auto simp: scanOrder_def new_order_row_def scan_int64_sint)
qed

lemma history_new:
  "orders_ok db \<Longrightarrow> history_ok db \<Longrightarrow> history db (orders_seq db + 1) = []"
  by (force simp: history_def history_ok_def has_order_def list_ex_iff filter_empty_conv orders_ok_def
      order_row_ok_def)

lemma CreateOrder_ok:
  assumes c: "CreateOrder db p = Inr (db', o')" and ok: "ledger_ok db"
  shows "ledger_ok db'"
proof -
  note d = CreateOrder_Inr [OF c]
  let ?r = "new_order_row db p"
  have id: "r_id ?r = orders_seq db + 1" and ext: "r_external_id ?r = ExternalID p"
    and st: "r_state ?r = Quoted" "r_version ?r = 0" by (simp_all add: new_order_row_def)
  have row: "order_row_ok db' ?r"
    using create_validate_Inr [OF d(3)]
    by (auto simp: order_row_ok_def d(1) new_order_row_def relay_direction_def StateValid_def allStates_def)
  have old: "order_row_ok db' r" if "r \<in> set (orders db)" for r
    using ok that by (auto simp: ledger_ok_def orders_ok_def order_row_ok_def d(1))
  have le: "r_id r \<le> orders_seq db" if "r \<in> set (orders db)" for r
    using ok that by (auto simp: ledger_ok_def orders_ok_def order_row_ok_def)
  have "orders_ok db'"
    using ok row old le d(2) id ext by (fastforce simp: ledger_ok_def orders_ok_def d(1))
  moreover have "history_ok db'"
  proof -
    have "history db' = history db" by (auto simp: history_def d(1))
    moreover have "history db (orders_seq db + 1) = []" using ok history_new by (simp add: ledger_ok_def)
    ultimately show ?thesis
      using ok st id by (auto simp: ledger_ok_def history_ok_def has_order_def d(1))
  qed
  moreover have "journal_ok db'"
    using ok by (intro journal_ok_cong [of db' db]) (simp_all add: d(1) ledger_ok_def)
  moreover have "halt_ok db'" using ok by (simp add: ledger_ok_def halt_ok_def d(1))
  ultimately show ?thesis by (simp add: ledger_ok_def)
qed

section \<open>What a transition does\<close>

definition moved_db :: "db \<Rightarrow> int \<Rightarrow> state \<Rightarrow> state \<Rightarrow> int \<Rightarrow> int option \<Rightarrow> transition_params \<Rightarrow> db" where
  "moved_db db i from to ver eid p =
     db\<lparr>orders := update_rows (\<lambda>r. r_id r = i \<and> r_version r = ver) (moved_row to (tp_sender p) (db_now db)) (orders db),
        transitions := transitions db @
          [\<lparr>t_id = transitions_seq db + 1, t_order = i, t_from = from, t_to = to, t_entry = eid,
            t_actor = tp_actor p, t_reason = tp_reason p, t_occurred_at = pg_time (tp_occurred_at p),
            t_recorded_at = db_now db\<rparr>],
        transitions_seq := transitions_seq db + 1\<rparr>"

lemma transition_commit_Inr:
  assumes "transition_commit digest db i to ver p current r = Inr (db', o')"
  obtains db1 eid row where
    "RequiresEntry r = (eid \<noteq> None)"
    "case tp_entry p of None \<Rightarrow> db1 = db \<and> eid = tp_entry_id p
     | Some req \<Rightarrow> \<exists>e. Post digest db req = Inr (db1, e) \<and> eid = Some (e_id e)"
    "row \<in> set (orders db1)" "r_id row = i" "r_version row = ver" "r_version row + 1 < 2 ^ 31"
    "scanOrder (moved_row to (tp_sender p) (db_now db1) row) = Inr o'"
    "db' = moved_db db1 i (o_state current) to ver eid p"
    "tp_sender p = None \<or> to = Funded"
proof -
  have g: "RequiresEntry r = (tp_entry p \<noteq> None \<or> tp_entry_id p \<noteq> None)"
    "tp_sender p = None \<or> to = Funded"
    using assms by (auto simp: transition_commit_def)
  obtain db1 eid db2 where s:
    "(case tp_entry p of None \<Rightarrow> Inr (db, tp_entry_id p)
      | Some req \<Rightarrow> rbind (Post digest db req) (\<lambda>(db1, e). Inr (db1, Some (e_id e)))) = Inr (db1, eid)"
    "cas_order db1 i to ver (tp_sender p) = Inr (db2, o')"
    "log_transition db2 i (o_state current) to eid p = Inr db'"
    using assms by (auto simp: transition_commit_def)
  have e: "case tp_entry p of None \<Rightarrow> db1 = db \<and> eid = tp_entry_id p
     | Some req \<Rightarrow> \<exists>e. Post digest db req = Inr (db1, e) \<and> eid = Some (e_id e)"
    using s(1) by (auto split: option.splits)
  have req: "RequiresEntry r = (eid \<noteq> None)" using g(1) e by (auto split: option.splits)
  obtain row where row: "first_row (\<lambda>r. r_id r = i \<and> r_version r = ver) (orders db1) = Some row"
    "r_version row + 1 < 2 ^ 31" "scanOrder (moved_row to (tp_sender p) (db_now db1) row) = Inr o'"
    "db2 = db1\<lparr>orders := update_rows (\<lambda>r. r_id r = i \<and> r_version r = ver)
             (moved_row to (tp_sender p) (db_now db1)) (orders db1)\<rparr>"
    using s(2) by (auto simp: cas_order_def Let_def split: option.splits if_splits)
  have "db' = moved_db db1 i (o_state current) to ver eid p"
    using s(3) by (auto simp: log_transition_def moved_db_def row(4) split: if_splits option.splits)
  then show ?thesis using that [OF req e] first_row_Some [OF row(1)] row(2,3) g(2) by blast
qed

text \<open>The halt gate lets a transition through only when the ledger is not halted.\<close>

lemma halt_gate_Inr: "halt_gate env db = (env', Inr u) \<Longrightarrow> \<not> IsHalted db"
  by (auto simp: halt_gate_def split: option.splits prod.splits if_splits)

lemma halt_gate_halted:
  "IsHalted db \<Longrightarrow> he_cache env \<noteq> None \<Longrightarrow> snd (halt_gate env db) = Inl ErrSystemHalted"
  by (auto simp: halt_gate_def split: option.splits prod.splits if_splits)

lemma Transition_cases:
  assumes "Transition digest env db i to ver p = (env', Inr (db', o'))"
  obtains (moved) current r where "GetOrder db i = Inr current" "o_version current = ver"
      "legal (o_state current) to = Some r" "HaltBlocked r \<Longrightarrow> \<not> IsHalted db"
      "transition_commit digest db i to ver p current r = Inr (db', o')"
  | (replayed) req e where "GetOrder db i = Inr o'" "o_version o' = ver" "to = o_state o'"
      "tp_entry p = Some req" "Post digest db req = Inr (db', e)"
      "is_ok (GetEntryByIdempotencyKey db (IdempotencyKey req))"
proof -
  obtain current where c: "StateValid to" "transition_validate p = Inr ()" "GetOrder db i = Inr current"
    "o_version current = ver"
    using assms by (auto simp: Transition_def split: if_splits sum.splits)
  show ?thesis
  proof (cases "legal (o_state current) to")
    case (Some r)
    then have "(HaltBlocked r \<longrightarrow> \<not> IsHalted db) \<and> transition_commit digest db i to ver p current r = Inr (db', o')"
      using assms c halt_gate_Inr [of env db]
      by (auto simp: Transition_def split: if_splits prod.splits)
    then show ?thesis using moved [OF c(3,4) Some] by blast
  next
    case None
    then obtain req where r: "tp_entry p = Some req" "to = o_state current"
      "replayIfAlreadyPosted digest db current req = Inr (db', Some o')"
      using assms c by (auto simp: Transition_def split: if_splits option.splits)
    then have "o' = current \<and> (\<exists>e. Post digest db req = Inr (db', e)) \<and>
      is_ok (GetEntryByIdempotencyKey db (IdempotencyKey req))"
      by (auto simp: replayIfAlreadyPosted_def is_ok_iff split: sum.splits if_splits)
    then show ?thesis using replayed [of req] c r by auto
  qed
qed

section \<open>Transitions keep the invariant\<close>

lemma extends_history: "extends db db' \<Longrightarrow> history db' = history db"
  by (auto simp: extends_def history_def)

lemma Post_orders:
  assumes "Post digest db req = Inr (db', e)" and "journal_ok db"
  shows "orders db' = orders db" "orders_seq db' = orders_seq db" "transitions db' = transitions db"
    "transitions_seq db' = transitions_seq db" "sys db' = sys db" "halt_log db' = halt_log db"
    "halt_seq db' = halt_seq db" "db_now db' = db_now db" "accounts db' = accounts db"
  using assms by (cases rule: Post_cases; auto simp: appended_def)+

lemma Reverse_orders:
  assumes "Reverse digest db eid actor reason at = Inr (db', e)" and "journal_ok db"
  shows "orders db' = orders db" "orders_seq db' = orders_seq db" "transitions db' = transitions db"
    "transitions_seq db' = transitions_seq db" "sys db' = sys db" "halt_log db' = halt_log db"
    "halt_seq db' = halt_seq db" "db_now db' = db_now db" "accounts db' = accounts db"
  using assms by (rule Reverse_cases; auto simp: appended_def)+

lemma ledger_ok_journal_step:
  assumes "ledger_ok db" and "journal_ok db'" and "orders db' = orders db" "orders_seq db' = orders_seq db"
    "transitions db' = transitions db" "sys db' = sys db" "halt_log db' = halt_log db" "halt_seq db' = halt_seq db"
  shows "ledger_ok db'"
proof -
  have "orders_ok db'" using assms by (simp add: ledger_ok_def orders_ok_def order_row_ok_def)
  moreover have "history_ok db'"
    using assms by (simp add: ledger_ok_def history_ok_def history_def has_order_def)
  ultimately show ?thesis using assms by (simp add: ledger_ok_def halt_ok_def)
qed

lemma Post_ledger_ok:
  assumes "Post digest db req = Inr (db', e)" and "ledger_ok db"
  shows "ledger_ok db'"
proof -
  have "journal_ok db" using assms(2) by (simp add: ledger_ok_def)
  from ledger_ok_journal_step [OF assms(2) Post_ok [OF assms(1) this] Post_orders(1-3,5-7) [OF assms(1) this]]
  show ?thesis .
qed

lemma Reverse_ledger_ok:
  assumes "Reverse digest db eid actor reason at = Inr (db', e)" and "ledger_ok db"
  shows "ledger_ok db'"
proof -
  have "journal_ok db" using assms(2) by (simp add: ledger_ok_def)
  from ledger_ok_journal_step [OF assms(2) Reverse_ok [OF assms(1) this] Reverse_orders(1-3,5-7) [OF assms(1) this]]
  show ?thesis .
qed

lemma has_order_iff: "has_order db j \<longleftrightarrow> j \<in> set (map r_id (orders db))"
  by (auto simp: has_order_def list_ex_iff)

lemma history_moved:
  "history (moved_db db i from to ver eid p) j =
     history db j @ (if j = i then
       [\<lparr>t_id = transitions_seq db + 1, t_order = i, t_from = from, t_to = to, t_entry = eid,
         t_actor = tp_actor p, t_reason = tp_reason p, t_occurred_at = pg_time (tp_occurred_at p),
         t_recorded_at = db_now db\<rparr>] else [])"
  by (simp add: history_def moved_db_def)

lemma moved_row_simps [simp]:
  "r_id (moved_row to s n r) = r_id r" "r_external_id (moved_row to s n r) = r_external_id r"
  "r_state (moved_row to s n r) = to" "r_version (moved_row to s n r) = r_version r + 1"
  "r_tier (moved_row to s n r) = r_tier r" "r_direction (moved_row to s n r) = r_direction r"
  "r_amount_in (moved_row to s n r) = r_amount_in r" "r_amount_out (moved_row to s n r) = r_amount_out r"
  "r_fee_units (moved_row to s n r) = r_fee_units r"
  "r_network_fee_units (moved_row to s n r) = r_network_fee_units r"
  by (simp_all add: moved_row_def)

lemma moved_ok:
  assumes ok: "ledger_ok db" and row: "row \<in> set (orders db)" "r_id row = i" "r_version row = ver"
    "r_state row = from" and l: "legal from to = Some r" and e: "RequiresEntry r = (eid \<noteq> None)"
  shows "ledger_ok (moved_db db i from to ver eid p)"
proof -
  let ?db = "moved_db db i from to ver eid p"
  let ?here = "\<lambda>r. r_id r = i \<and> r_version r = ver"
  let ?f = "moved_row to (tp_sender p) (db_now db)"
  have tables: "orders ?db = update_rows ?here ?f (orders db)" "orders_seq ?db = orders_seq db"
    by (simp_all add: moved_db_def)
  have "orders_ok ?db"
    using ok legal_valid [OF l] unfolding ledger_ok_def orders_ok_def order_row_ok_def tables
    by (auto simp: map_update_rows set_update_rows)
  moreover have "history_ok ?db"
  proof -
    have one: "q = row" if "q \<in> set (orders db)" "r_id q = i" for q
      using ok that row by (auto simp: ledger_ok_def orders_ok_def distinct_map dest: inj_onD)
    have h: "r_version q = int (length (history db (r_id q))) \<and> path Quoted (history db (r_id q)) (r_state q)"
      if "q \<in> set (orders db)" for q using ok that by (auto simp: ledger_ok_def history_ok_def)
    have new: "r_version q' = int (length (history ?db (r_id q'))) \<and> path Quoted (history ?db (r_id q')) (r_state q')"
      if "q \<in> set (orders db)" "q' = (if ?here q then ?f q else q)" for q q'
      using h [OF that(1)] one [OF that(1)] row l e that(2)
      by (auto simp: history_moved path_append)
    have ho: "has_order ?db = has_order db"
      unfolding has_order_iff [abs_def] tables by (simp add: map_update_rows)
    have "has_order db i" using row by (auto simp: has_order_iff)
    then have "\<forall>t \<in> set (transitions ?db). has_order ?db (t_order t)"
      using ok unfolding ho by (simp add: moved_db_def ledger_ok_def history_ok_def)
    moreover have "r_version q' = int (length (history ?db (r_id q'))) \<and>
        path Quoted (history ?db (r_id q')) (r_state q')" if "q' \<in> set (orders ?db)" for q'
    proof -
      have "\<exists>q \<in> set (orders db). q' = (if ?here q then ?f q else q)"
        using that unfolding tables set_update_rows .
      then show ?thesis using new by (elim bexE) metis
    qed
    ultimately show ?thesis by (simp add: history_ok_def)
  qed
  moreover have "journal_ok ?db"
    using ok by (intro journal_ok_cong [of ?db db]) (simp_all add: moved_db_def ledger_ok_def)
  moreover have "halt_ok ?db" using ok by (simp add: ledger_ok_def halt_ok_def moved_db_def)
  ultimately show ?thesis by (simp add: ledger_ok_def)
qed

text \<open>A successful \<open>Transition\<close>, on rows.\<close>

lemma Transition_moved:
  assumes t: "GetOrder db i = Inr current" "o_version current = ver" "legal (o_state current) to = Some r"
    "transition_commit digest db i to ver p current r = Inr (db', o')" and ok: "ledger_ok db"
  obtains db1 eid row where "ledger_ok db1" "row \<in> set (orders db)" "r_id row = i" "r_version row = ver"
    "r_state row = o_state current" "RequiresEntry r = (eid \<noteq> None)"
    "case tp_entry p of None \<Rightarrow> db1 = db \<and> eid = tp_entry_id p
     | Some req \<Rightarrow> \<exists>e. Post digest db req = Inr (db1, e) \<and> eid = Some (e_id e)"
    "orders db1 = orders db" "transitions db1 = transitions db" "sys db1 = sys db" "db_now db1 = db_now db"
    "scanOrder (moved_row to (tp_sender p) (db_now db) row) = Inr o'"
    "db' = moved_db db1 i (o_state current) to ver eid p" "tp_sender p = None \<or> to = Funded"
proof -
  obtain db1 eid row where c: "RequiresEntry r = (eid \<noteq> None)"
    "case tp_entry p of None \<Rightarrow> db1 = db \<and> eid = tp_entry_id p
     | Some req \<Rightarrow> \<exists>e. Post digest db req = Inr (db1, e) \<and> eid = Some (e_id e)"
    "row \<in> set (orders db1)" "r_id row = i" "r_version row = ver" "r_version row + 1 < 2 ^ 31"
    "scanOrder (moved_row to (tp_sender p) (db_now db1) row) = Inr o'"
    "db' = moved_db db1 i (o_state current) to ver eid p" "tp_sender p = None \<or> to = Funded"
    by (rule transition_commit_Inr [OF t(4)]) (rule that; assumption)
  have j: "journal_ok db" using ok by (simp add: ledger_ok_def)
  have db1: "ledger_ok db1 \<and> orders db1 = orders db \<and> transitions db1 = transitions db \<and> sys db1 = sys db \<and> db_now db1 = db_now db"
  proof (cases "tp_entry p")
    case None
    then show ?thesis using c(2) ok by simp
  next
    case (Some req)
    then obtain e where e: "Post digest db req = Inr (db1, e)" using c(2) by auto
    show ?thesis using Post_ledger_ok [OF e ok] Post_orders [OF e j] by simp
  qed
  then have row: "row \<in> set (orders db)" using c(3) by simp
  obtain q where q: "q \<in> set (orders db)" "r_id q = i" "scanOrder q = Inr current"
    using GetOrder_Inr [OF t(1)] by metis
  have "q = row" using ok q row c(4) by (auto simp: ledger_ok_def orders_ok_def distinct_map dest: inj_onD)
  then have "r_state row = o_state current" using scanOrder_Inr(2) [OF q(3)] by simp
  then show ?thesis using that [of db1 row eid] db1 row c by simp
qed

lemma Transition_ok:
  assumes "Transition digest env db i to ver p = (env', Inr (db', o'))" and ok: "ledger_ok db"
  shows "ledger_ok db'"
  using assms(1)
proof (cases rule: Transition_cases)
  case (moved current r)
  obtain db1 eid row where "ledger_ok db1" "row \<in> set (orders db1)" "r_id row = i" "r_version row = ver"
    "r_state row = o_state current" "RequiresEntry r = (eid \<noteq> None)"
    "db' = moved_db db1 i (o_state current) to ver eid p"
    using Transition_moved [OF moved(1-3,5) ok] by metis
  then show ?thesis using moved_ok moved(3) by simp
next
  case (replayed req e)
  then show ?thesis using Post_ledger_ok ok by blast
qed

section \<open>The abstract state machine\<close>

text \<open>An order seen from outside: its state and its version. A ledger is the partial map of its
  orders; it moves by creating an order, by moving one along the table, or not at all.\<close>

definition order_map :: "db \<Rightarrow> int \<rightharpoonup> state \<times> int" where
  "order_map db i = map_option (\<lambda>r. (r_state r, r_version r)) (first_row (\<lambda>r. r_id r = i) (orders db))"

inductive order_step :: "(int \<rightharpoonup> state \<times> int) \<Rightarrow> (int \<rightharpoonup> state \<times> int) \<Rightarrow> bool" where
  step_create: "m i = None \<Longrightarrow> order_step m (m(i \<mapsto> (Quoted, 0)))"
| step_move: "m i = Some (s, v) \<Longrightarrow> legal s t \<noteq> None \<Longrightarrow> order_step m (m(i \<mapsto> (t, v + 1)))"
| step_stay: "order_step m m"

inductive_cases order_stepE: "order_step m m'"

lemma order_map_row:
  "orders_ok db \<Longrightarrow> r \<in> set (orders db) \<Longrightarrow> order_map db (r_id r) = Some (r_state r, r_version r)"
  by (simp add: order_map_def orders_row)

lemma order_map_None: "order_map db i = None \<longleftrightarrow> i \<notin> r_id ` set (orders db)"
  by (auto simp: order_map_def first_row_None)

lemma order_map_cong: "orders db' = orders db \<Longrightarrow> order_map db' = order_map db"
  by (simp add: order_map_def fun_eq_iff)

lemma order_map_moved:
  assumes ok: "orders_ok db" and row: "row \<in> set (orders db)" "r_id row = i" "r_version row = ver"
  shows "order_map (moved_db db i from to ver eid p) = (order_map db)(i \<mapsto> (to, ver + 1))"
proof
  fix j
  have r: "first_row (\<lambda>r. r_id r = i) (orders db) = Some row"
    using orders_row [OF ok row(1)] row(2) by simp
  have m: "order_map (moved_db db i from to ver eid p) j =
    map_option (\<lambda>r. (r_state r, r_version r))
      (map_option (\<lambda>r. if r_id r = i \<and> r_version r = ver then moved_row to (tp_sender p) (db_now db) r else r)
        (first_row (\<lambda>r. r_id r = j) (orders db)))"
    unfolding order_map_def moved_db_def by (simp add: first_row_update_key)
  show "order_map (moved_db db i from to ver eid p) j = ((order_map db)(i \<mapsto> (to, ver + 1))) j"
  proof (cases "j = i")
    case True
    then show ?thesis unfolding m using r row by simp
  next
    case False
    then show ?thesis unfolding m
      using first_row_Some [of "\<lambda>r. r_id r = j" "orders db"]
      by (cases "first_row (\<lambda>r. r_id r = j) (orders db)") (auto simp: order_map_def)
  qed
qed

lemma Transition_refines:
  assumes t: "Transition digest env db i to ver p = (env', Inr (db', o'))" and ok: "ledger_ok db"
  shows "order_step (order_map db) (order_map db') \<and>
    order_map db' i = Some (o_state o', o_version o') \<and> o_state o' = to \<and> o_id o' = i"
  using t
proof (cases rule: Transition_cases)
  case (moved current r)
  obtain db1 eid row where m: "ledger_ok db1" "row \<in> set (orders db)" "r_id row = i" "r_version row = ver"
    "r_state row = o_state current" "orders db1 = orders db"
    "scanOrder (moved_row to (tp_sender p) (db_now db) row) = Inr o'"
    "db' = moved_db db1 i (o_state current) to ver eid p"
    using Transition_moved [OF moved(1-3,5) ok] by metis
  have oo: "orders_ok db1" "orders_ok db" using m(1) ok by (simp_all add: ledger_ok_def)
  have om: "order_map db' = (order_map db)(i \<mapsto> (to, ver + 1))"
    using order_map_moved [OF oo(1), of row i ver] m order_map_cong [OF m(6)] by simp
  have "order_map db i = Some (o_state current, ver)" using order_map_row [OF oo(2) m(2)] m by simp
  then have "order_step (order_map db) (order_map db')" using om moved(3) by (auto intro: step_move)
  moreover have "order_map db' i = Some (o_state o', o_version o')" "o_state o' = to" "o_id o' = i"
    using om scanOrder_Inr [OF m(7)] m by simp_all
  ultimately show ?thesis by simp
next
  case (replayed req e)
  have j: "journal_ok db" using ok by (simp add: ledger_ok_def)
  have om: "order_map db' = order_map db"
    by (rule order_map_cong [OF Post_orders(1) [OF replayed(5) j]])
  then have "order_step (order_map db) (order_map db')" by (simp add: step_stay)
  moreover obtain q where q: "q \<in> set (orders db)" "r_id q = i" "scanOrder q = Inr o'"
    using GetOrder_Inr [OF replayed(1)] by metis
  moreover have "order_map db i = Some (r_state q, r_version q)"
    using order_map_row [of db q] q ok by (simp add: ledger_ok_def)
  ultimately show ?thesis
    using om scanOrder_Inr [OF q(3)] replayed(3) by simp
qed

text \<open>Nothing leaves a terminal state, and versions only grow.\<close>

lemma terminal_legal: "StateValid s \<Longrightarrow> Terminal s \<longleftrightarrow> (\<forall>t. legal s t = None)"
  by (cases s) (auto simp: legal_def transitionTable_def StateValid_def allStates_def)

lemma Terminal_no_move: "Terminal s \<Longrightarrow> legal s t = None"
  by (cases s) (auto simp: legal_def transitionTable_def)

lemma order_steps_terminal:
  assumes "order_step\<^sup>*\<^sup>* m m'" and "m i = Some (s, v)" and "Terminal s"
  shows "m' i = Some (s, v)"
  using assms(1,2)
  by (induction rule: rtranclp_induct)
    (auto elim!: order_stepE simp: Terminal_no_move [OF assms(3)])

lemma order_steps_version:
  assumes "order_step\<^sup>*\<^sup>* m m'" and "m i = Some (s, v)"
  shows "\<exists>s' v'. m' i = Some (s', v') \<and> v \<le> v' \<and> (v' = v \<longrightarrow> s' = s)"
  using assms(1)
proof (induction rule: rtranclp_induct)
  case base
  then show ?case using assms(2) by simp
next
  case (step y z)
  then show ?case by (auto elim!: order_stepE)
qed

end
