(* ===== verification/Reorg.thy ===== *)
theory Reorg
  imports Orders_Inv
begin

text \<open>
  The reaction to a reorged deposit (\<open>ledger/internal/orders/reorg.go\<close>): scenario A reverses the
  deposit and returns the order to \<open>Quoted\<close>, scenario B reverses it, books the payout as a loss
  and halts, a report for a \<open>Quoted\<close> order is a redelivery or an error.

  \<open>now\<close> is the \<open>time.Now()\<close> of the call. The lemmas give the effect of each scenario on the books
  and on the order, and what a second report of the same reorg does.
\<close>

definition corridorAccountFor :: "asset \<Rightarrow> string" where
  "corridorAccountFor a = ''position:corridor:'' @ asset_str a"

definition reorgRetryFromQuoted :: "db \<Rightarrow> order \<Rightarrow> string \<Rightarrow> ledger_error + order" where
  "reorgRetryFromQuoted db ord key =
     (case GetEntryByIdempotencyKey db key of
        Inl err \<Rightarrow> if err = ErrEntryNotFound then Inl ErrUnexpectedState else Inl err
      | Inr original \<Rightarrow>
          rbind (ReversalOf db (e_id original)) (\<lambda>rev.
          if rev = None then Inl ErrUnexpectedState else Inr ord))"

definition reason_A :: string where
  "reason_A = ''deposit reorged out before dispatch''"
definition reason_B :: string where
  "reason_B = ''deposit reorged out post-dispatch''"

definition reorgScenarioA ::
  "(hash_payload \<Rightarrow> hash) \<Rightarrow> halt_env \<Rightarrow> db \<Rightarrow> order \<Rightarrow> string \<Rightarrow> string \<Rightarrow> time \<Rightarrow>
   halt_env \<times> (ledger_error + db \<times> order)" where
  "reorgScenarioA digest env db ord key actor now =
     (case GetEntryByIdempotencyKey db key of
        Inl err \<Rightarrow> (env, Inl err)
      | Inr original \<Rightarrow>
          (case Reverse digest db (e_id original) actor reason_A now of
             Inl err \<Rightarrow> (env, Inl err)
           | Inr (db1, reversal) \<Rightarrow>
               Transition digest env db1 (o_id ord) Quoted (o_version ord)
                 \<lparr>tp_actor = actor, tp_reason = reason_A, tp_occurred_at = now, tp_entry = None,
                  tp_entry_id = Some (e_id reversal), tp_sender = None\<rparr>))"

definition loss_request :: "order \<Rightarrow> string \<Rightarrow> time \<Rightarrow> entry_request" where
  "loss_request ord actor now =
     (let lossAsset = amt_asset (o_amount_out ord); lossUnits = amt_units (o_amount_out ord) in
      \<lparr>IdempotencyKey = ''ledger:reorg_loss:'' @ fmt_int (o_id ord), EntryType = ''reorg_loss'',
       Actor = actor, OccurredAt = now, OrderID = Some (o_id ord),
       Lines = [Line ''expense:loss:reorg'' (Amount lossAsset lossUnits),
                Line (corridorAccountFor lossAsset) (Amount lossAsset (- lossUnits))],
       Metadata = None\<rparr>)"

definition reorg_halt :: "order \<Rightarrow> string \<Rightarrow> string \<Rightarrow> set_params" where
  "reorg_halt ord key actor =
     \<lparr>sp_reason = ReasonPostSettlementReorg,
        sp_detail = [(''order_id'', fmt_int (o_id ord)), (''order_external_id'', o_external_id ord),
          (''original_entry_key'', key), (''loss_asset'', asset_str (amt_asset (o_amount_out ord))),
          (''loss_units'', FormatInt (amt_units (o_amount_out ord)))],
        sp_actor = actor\<rparr>"

lemma reorg_halt_reason [simp]: "sp_reason (reorg_halt ord key actor) = ReasonPostSettlementReorg"
  by (simp add: reorg_halt_def)

definition reorgScenarioB ::
  "(hash_payload \<Rightarrow> hash) \<Rightarrow> db \<Rightarrow> order \<Rightarrow> string \<Rightarrow> string \<Rightarrow> time \<Rightarrow> ledger_error + db \<times> order" where
  "reorgScenarioB digest db ord key actor now =
     rbind (GetEntryByIdempotencyKey db key) (\<lambda>original.
     rbind (Reverse digest db (e_id original) actor reason_B now) (\<lambda>(db1, _).
     rbind (Post digest db1 (loss_request ord actor now)) (\<lambda>(db2, _).
     Inr (SetHalt db2 (reorg_halt ord key actor), ord))))"

definition HandleDepositReorg ::
  "(hash_payload \<Rightarrow> hash) \<Rightarrow> halt_env \<Rightarrow> db \<Rightarrow> int \<Rightarrow> string \<Rightarrow> string \<Rightarrow> time \<Rightarrow>
   halt_env \<times> (ledger_error + db \<times> order)" where
  "HandleDepositReorg digest env db i key actor now =
     (case GetOrder db i of
        Inl err \<Rightarrow> (env, Inl err)
      | Inr ord \<Rightarrow>
          (case o_state ord of
             Funded \<Rightarrow> reorgScenarioA digest env db ord key actor now
           | Dispatching \<Rightarrow> (env, reorgScenarioB digest db ord key actor now)
           | Settled \<Rightarrow> (env, reorgScenarioB digest db ord key actor now)
           | Quoted \<Rightarrow> (env, rbind (reorgRetryFromQuoted db ord key) (\<lambda>o'. Inr (db, o')))
           | _ \<Rightarrow> (env, Inl ErrUnexpectedState)))"

section \<open>Preservation\<close>

lemma SetHalt_ledger_ok: "ledger_ok db \<Longrightarrow> ledger_ok (SetHalt db p)"
proof -
  assume ok: "ledger_ok db"
  have "journal_ok (SetHalt db p)"
    using ok by (intro journal_ok_cong [of "SetHalt db p" db]) (simp_all add: ledger_ok_def)
  moreover have "orders_ok (SetHalt db p)" "history_ok (SetHalt db p)"
    using ok by (simp_all add: ledger_ok_def orders_ok_def order_row_ok_def history_ok_def history_def has_order_def)
  ultimately show ?thesis using ok by (simp add: ledger_ok_def halt_ok_SetHalt)
qed

lemma ScenarioA_Inr:
  assumes "reorgScenarioA digest env db ord key actor now = (env', Inr (db', o'))"
  obtains original db1 e where "GetEntryByIdempotencyKey db key = Inr original"
    "Reverse digest db (e_id original) actor reason_A now = Inr (db1, e)"
    "Transition digest env db1 (o_id ord) Quoted (o_version ord)
       \<lparr>tp_actor = actor, tp_reason = reason_A, tp_occurred_at = now, tp_entry = None,
        tp_entry_id = Some (e_id e), tp_sender = None\<rparr> = (env', Inr (db', o'))"
  using assms by (auto simp: reorgScenarioA_def split: sum.splits)

lemma ScenarioB_Inr:
  assumes "reorgScenarioB digest db ord key actor now = Inr (db', o')"
  obtains original db1 e db2 e2 where "GetEntryByIdempotencyKey db key = Inr original"
    "Reverse digest db (e_id original) actor reason_B now = Inr (db1, e)"
    "Post digest db1 (loss_request ord actor now) = Inr (db2, e2)"
    "db' = SetHalt db2 (reorg_halt ord key actor)" "o' = ord"
  using assms by (auto simp: reorgScenarioB_def)

lemma HandleDepositReorg_cases:
  assumes "HandleDepositReorg digest env db i key actor now = (env', Inr (db', o'))"
  obtains (A) ord where "GetOrder db i = Inr ord" "o_state ord = Funded"
      "reorgScenarioA digest env db ord key actor now = (env', Inr (db', o'))"
  | (B) ord where "GetOrder db i = Inr ord" "o_state ord = Dispatching \<or> o_state ord = Settled"
      "reorgScenarioB digest db ord key actor now = Inr (db', o')"
  | (Q) "GetOrder db i = Inr o'" "o_state o' = Quoted" "db' = db" "reorgRetryFromQuoted db o' key = Inr o'"
proof -
  obtain ord where o: "GetOrder db i = Inr ord"
    using assms by (auto simp: HandleDepositReorg_def split: sum.splits)
  show ?thesis
  proof (cases "o_state ord")
    case Quoted
    then have "reorgRetryFromQuoted db ord key = Inr o'" "db' = db"
      using assms o by (auto simp: HandleDepositReorg_def)
    then show ?thesis
      using Q o Quoted by (auto simp: reorgRetryFromQuoted_def split: sum.splits if_splits)
  qed (use assms o A [OF o] B [OF o] in \<open>auto simp: HandleDepositReorg_def\<close>)
qed

lemma HandleDepositReorg_ok:
  assumes "HandleDepositReorg digest env db i key actor now = (env', Inr (db', o'))" and ok: "ledger_ok db"
  shows "ledger_ok db'"
  using assms(1)
proof (cases rule: HandleDepositReorg_cases)
  case (A ord)
  then show ?thesis using Reverse_ledger_ok [OF _ ok] Transition_ok by (metis ScenarioA_Inr)
next
  case (B ord)
  then show ?thesis
    using Reverse_ledger_ok [OF _ ok] Post_ledger_ok SetHalt_ledger_ok by (metis ScenarioB_Inr)
next
  case Q
  then show ?thesis using ok by simp
qed

section \<open>Lines, balances and lookups across the steps\<close>

definition line_account_id :: "db \<Rightarrow> line \<Rightarrow> int option" where
  "line_account_id db l = (case GetByCode db (AccountCode l) of Inl _ \<Rightarrow> None | Inr a \<Rightarrow> Some (acc_id a))"

text \<open>What the lines of a request move on an account.\<close>

definition requested :: "db \<Rightarrow> entry_request \<Rightarrow> int \<Rightarrow> int" where
  "requested db req i =
     sum_list (map (\<lambda>l. units (LineAmount l)) (filter (\<lambda>l. line_account_id db l = Some i) (Lines req)))"

lemma applied_requested:
  assumes v: "validate db req = Inr rs"
  shows "applied (map to_apply rs) i = requested db req i"
proof -
  have "map (\<lambda>l. (Some (la_account l), sint (la_units l))) (map to_apply rs) =
    map (\<lambda>l. (line_account_id db l, units (LineAmount l))) (Lines req)" (is "?l = ?r")
    using validate_Inr(4,5) [OF v]
    by (intro nth_equalityI) (auto simp: to_apply_def line_account_id_def resolves_def)
  then have "sum_list (map snd (filter (\<lambda>x. fst x = Some i) ?l)) = sum_list (map snd (filter (\<lambda>x. fst x = Some i) ?r))"
    by simp
  then show ?thesis by (simp add: applied_def requested_def filter_map o_def)
qed

text \<open>A fresh \<open>Post\<close> moves every balance by exactly its lines.\<close>

lemma Post_balances:
  assumes p: "Post digest db req = Inr (db', e)" and ok: "journal_ok db"
  shows "cached_units db' i = cached_units db i + (if e_outcome e = Created then requested db req i else 0)"
  using p ok
proof (cases rule: Post_cases)
  case (fresh rs)
  then show ?thesis using appendedD(13) [OF fresh(2)] applied_requested [OF fresh(1)] by simp
next
  case (replay old ls)
  then show ?thesis by (simp add: cached_units_def)
qed

lemma Post_created_iff:
  assumes p: "Post digest db req = Inr (db', e)" and ok: "journal_ok db"
  shows "e_outcome e = Created \<longleftrightarrow> (\<forall>x \<in> set (entries db). e_key x \<noteq> IdempotencyKey req)"
  using p ok
proof (cases rule: Post_cases)
  case (fresh rs)
  then show ?thesis using appendedD(9) [OF fresh(2)] by (simp add: request_row_def new_entry_row_def)
next
  case (replay old ls)
  then show ?thesis by auto
qed

lemma extends_key:
  assumes "extends db db'" and "GetEntryByIdempotencyKey db key = Inr e"
  shows "GetEntryByIdempotencyKey db' key = Inr e"
proof -
  obtain xs where "entries db' = entries db @ xs"
    using assms(1) unfolding extends_def by (metis append_take_drop_id)
  then show ?thesis using assms(2)
    by (auto simp: GetEntryByIdempotencyKey_def first_row_append split: option.splits)
qed

lemma GetEntry_row:
  assumes "GetEntryByIdempotencyKey db key = Inr e"
  obtains row where "row \<in> set (entries db)" "e_key row = key" "e = scanEntry row" "e_id e = e_id row"
  using assms
  by (auto simp: GetEntryByIdempotencyKey_def scanEntry_def entry_row.extend_def
      split: option.splits dest!: first_row_Some)

lemma ReversalOf_found:
  assumes ok: "journal_ok db" and r: "row \<in> set (entries db)" "e_reversal_of row = Some i"
  shows "\<exists>e. ReversalOf db i = Inr (Some e)"
proof -
  obtain q where "first_row (\<lambda>e. e_reversal_of e = Some i) (entries db) = Some q"
    using r first_row_None [of "\<lambda>e. e_reversal_of e = Some i" "entries db"] by fastforce
  then show ?thesis by (simp add: ReversalOf_def withLines_def loadLines_eq [OF ok])
qed

lemma GetOrder_moved:
  assumes ok: "orders_ok db" and row: "row \<in> set (orders db)" "r_id row = i" "r_version row = ver"
  shows "GetOrder (moved_db db i from to ver eid p) i = scanOrder (moved_row to (tp_sender p) (db_now db) row)"
proof -
  have "first_row (\<lambda>r. r_id r = i) (orders db) = Some row" using orders_row [OF ok row(1)] row(2) by simp
  then show ?thesis by (simp add: GetOrder_def moved_db_def first_row_update_key row)
qed

text \<open>What \<open>Transition\<close> returns is what \<open>Get\<close> then reads.\<close>

lemma Transition_get:
  assumes t: "Transition digest env db i to ver p = (env', Inr (db', o'))" and ok: "ledger_ok db"
  shows "GetOrder db' i = Inr o'"
  using t
proof (cases rule: Transition_cases)
  case (moved current r)
  obtain db1 eid row where m: "ledger_ok db1" "row \<in> set (orders db)" "r_id row = i" "r_version row = ver"
    "orders db1 = orders db" "db_now db1 = db_now db" "scanOrder (moved_row to (tp_sender p) (db_now db) row) = Inr o'"
    "db' = moved_db db1 i (o_state current) to ver eid p"
    using Transition_moved [OF moved(1-3,5) ok] by metis
  then show ?thesis using GetOrder_moved [of db1 row i ver] m by (simp add: ledger_ok_def)
next
  case (replayed req e)
  have j: "journal_ok db" using ok by (simp add: ledger_ok_def)
  show ?thesis using replayed(1) Post_orders(1) [OF replayed(5) j] by (simp add: GetOrder_def)
qed

section \<open>Scenario A: the books are as if the deposit had never landed\<close>

lemma GetOrder_map:
  assumes "GetOrder db i = Inr ord" and "ledger_ok db"
  shows "order_map db i = Some (o_state ord, o_version ord)" and "o_id ord = i"
proof -
  obtain q where q: "q \<in> set (orders db)" "r_id q = i" "scanOrder q = Inr ord" using GetOrder_Inr [OF assms(1)] by metis
  show "order_map db i = Some (o_state ord, o_version ord)" "o_id ord = i"
    using order_map_row [of db q] q assms(2) scanOrder_Inr [OF q(3)] by (simp_all add: ledger_ok_def)
qed

text \<open>A transition that names an entry posted before writes no line.\<close>

lemma Transition_no_entry:
  assumes t: "Transition digest env db i to ver p = (env', Inr (db', o'))" and ok: "ledger_ok db"
    and none: "tp_entry p = None"
  shows "entries db' = entries db" "lines db' = lines db" "balances db' = balances db"
    "accounts db' = accounts db" "sys db' = sys db"
proof -
  have "entries db' = entries db \<and> lines db' = lines db \<and> balances db' = balances db \<and>
    accounts db' = accounts db \<and> sys db' = sys db"
    using t
  proof (cases rule: Transition_cases)
    case (moved current r)
    obtain db1 eid where "case tp_entry p of None \<Rightarrow> db1 = db \<and> eid = tp_entry_id p
     | Some req \<Rightarrow> \<exists>e. Post digest db req = Inr (db1, e) \<and> eid = Some (e_id e)"
      "db' = moved_db db1 i (o_state current) to ver eid p"
      by (rule transition_commit_Inr [OF moved(5)]) (rule that; assumption)
    then show ?thesis using none by (simp add: moved_db_def)
  next
    case (replayed req e)
    then show ?thesis using none by simp
  qed
  then show "entries db' = entries db" "lines db' = lines db" "balances db' = balances db"
    "accounts db' = accounts db" "sys db' = sys db" by blast+
qed

lemma reorg_A_effect:
  assumes h: "HandleDepositReorg digest env db i key actor now = (env', Inr (db', o'))"
    and ok: "ledger_ok db" and ord: "GetOrder db i = Inr ord" "o_state ord = Funded"
    and e: "GetEntryByIdempotencyKey db key = Inr original"
  shows "cached_units db' a = cached_units db a - net db (e_id original) a"
    and "order_map db' = (order_map db)(i \<mapsto> (Quoted, o_version ord + 1))"
    and "sys db' = sys db"
    and "\<exists>x \<in> set (entries db'). e_reversal_of x = Some (e_id original)"
    and "GetOrder db' i = Inr o'" "o_state o' = Quoted"
    and "GetEntryByIdempotencyKey db' key = Inr original"
proof -
  have j: "journal_ok db" using ok by (simp add: ledger_ok_def)
  have "reorgScenarioA digest env db ord key actor now = (env', Inr (db', o'))"
    using h ord by (simp add: HandleDepositReorg_def)
  then obtain db1 rev where r: "Reverse digest db (e_id original) actor reason_A now = Inr (db1, rev)"
    and t': "Transition digest env db1 (o_id ord) Quoted (o_version ord)
       \<lparr>tp_actor = actor, tp_reason = reason_A, tp_occurred_at = now, tp_entry = None,
        tp_entry_id = Some (e_id rev), tp_sender = None\<rparr> = (env', Inr (db', o'))"
    using e by (auto elim!: ScenarioA_Inr)
  note t = t' [unfolded GetOrder_map(2) [OF ord(1) ok]]
  have ok1: "ledger_ok db1" by (rule Reverse_ledger_ok [OF r ok])
  note n = Transition_no_entry [OF t ok1, simplified]
  have "cached_units db' a = cached_units db1 a" by (simp add: cached_units_def n)
  then show "cached_units db' a = cached_units db a - net db (e_id original) a"
    using Reverse_restores [OF r j] by simp
  have m1: "order_map db1 = order_map db" by (rule order_map_cong [OF Reverse_orders(1) [OF r j]])
  show "GetOrder db' i = Inr o'" by (rule Transition_get [OF t ok1])
  note ref = Transition_refines [OF t ok1]
  show st: "o_state o' = Quoted" using ref by simp
  have "order_map db' = (order_map db1)(i \<mapsto> (Quoted, o_version ord + 1))"
    using t
  proof (cases rule: Transition_cases)
    case (moved current r)
    obtain db2 eid row where m: "ledger_ok db2" "row \<in> set (orders db1)" "r_id row = i"
      "r_version row = o_version ord" "orders db2 = orders db1"
      "db' = moved_db db2 i (o_state current) Quoted (o_version ord) eid
        \<lparr>tp_actor = actor, tp_reason = reason_A, tp_occurred_at = now, tp_entry = None,
         tp_entry_id = Some (e_id rev), tp_sender = None\<rparr>"
      using Transition_moved [OF moved(1-3,5) ok1] by metis
    then show ?thesis
      using order_map_moved [of db2 row i "o_version ord"] order_map_cong [OF m(5)] by (simp add: ledger_ok_def)
  next
    case (replayed req e)
    then show ?thesis by simp
  qed
  then show "order_map db' = (order_map db)(i \<mapsto> (Quoted, o_version ord + 1))" by (simp add: m1)
  show "sys db' = sys db" using n(5) Reverse_orders(5) [OF r j] by simp
  have "\<exists>x \<in> set (entries db1). e_reversal_of x = Some (e_id original)"
    using r j
    by (rule Reverse_cases) (auto simp: appendedD(4) reversal_row_def new_entry_row_def)
  then show "\<exists>x \<in> set (entries db'). e_reversal_of x = Some (e_id original)" using n(1) by simp
  have "GetEntryByIdempotencyKey db1 key = Inr original"
    by (rule extends_key [OF Reverse_extends [OF r j] e])
  then show "GetEntryByIdempotencyKey db' key = Inr original"
    using n(1) by (simp add: GetEntryByIdempotencyKey_def)
qed

text \<open>A second report of the same reorg changes nothing and succeeds.\<close>

lemma reorg_A_redelivered:
  assumes h: "HandleDepositReorg digest env db i key actor now = (env', Inr (db', o'))"
    and ok: "ledger_ok db" and ord: "GetOrder db i = Inr ord" "o_state ord = Funded"
  shows "HandleDepositReorg digest env2 db' i key actor2 now2 = (env2, Inr (db', o'))"
proof -
  obtain original where e: "GetEntryByIdempotencyKey db key = Inr original"
    using h ord by (auto simp: HandleDepositReorg_def reorgScenarioA_def split: sum.splits)
  note a = reorg_A_effect [OF h ok ord e]
  have "journal_ok db'" using HandleDepositReorg_ok [OF h ok] by (simp add: ledger_ok_def)
  then obtain r where "ReversalOf db' (e_id original) = Inr (Some r)" using a(4) ReversalOf_found by blast
  then show ?thesis using a(5-7) by (simp add: HandleDepositReorg_def reorgRetryFromQuoted_def)
qed

section \<open>Scenario B: a realized loss and a halt\<close>

lemma reorg_B_effect:
  assumes h: "HandleDepositReorg digest env db i key actor now = (env', Inr (db', o'))"
    and ok: "ledger_ok db" and ord: "GetOrder db i = Inr ord" "o_state ord = Dispatching \<or> o_state ord = Settled"
    and e: "GetEntryByIdempotencyKey db key = Inr original"
  shows "orders db' = orders db" and "IsHalted db'" and "Reason db' = ReasonPostSettlementReorg"
    and "\<exists>x \<in> set (entries db'). e_reversal_of x = Some (e_id original)"
    and "GetEntryByIdempotencyKey db' key = Inr original"
    and "\<forall>x \<in> set (entries db). e_key x \<noteq> IdempotencyKey (loss_request ord actor now) \<Longrightarrow>
         IdempotencyKey (loss_request ord actor now) \<noteq> reverse_key key \<Longrightarrow>
         cached_units db' a = cached_units db a - net db (e_id original) a + requested db (loss_request ord actor now) a"
    and "amt_asset (o_amount_out ord) = USDT_BEP20 \<Longrightarrow>
         GetByCode db ''expense:loss:reorg'' = Inr acc \<Longrightarrow> acc_asset acc = USDT_BEP20"
proof -
  have j: "journal_ok db" using ok by (simp add: ledger_ok_def)
  have "reorgScenarioB digest db ord key actor now = Inr (db', o')"
    using h ord by (auto simp: HandleDepositReorg_def)
  then obtain db1 rev db2 loss where r: "Reverse digest db (e_id original) actor reason_B now = Inr (db1, rev)"
    and p: "Post digest db1 (loss_request ord actor now) = Inr (db2, loss)"
    and db': "db' = SetHalt db2 (reorg_halt ord key actor)"
    using e by (auto elim!: ScenarioB_Inr)
  have j1: "journal_ok db1" by (rule Reverse_ok [OF r j])
  have j2: "journal_ok db2" by (rule Post_ok [OF p j1])
  show "orders db' = orders db"
    using Reverse_orders(1) [OF r j] Post_orders(1) [OF p j1] db' by simp
  show "IsHalted db'" "Reason db' = ReasonPostSettlementReorg" by (simp_all add: db')
  have ex: "extends db1 db2" by (rule Post_extends [OF p j1])
  have "set (entries db1) \<subseteq> set (entries db2)"
    using ex unfolding extends_def by (metis set_take_subset)
  moreover have "\<exists>x \<in> set (entries db1). e_reversal_of x = Some (e_id original)"
    using r j by (rule Reverse_cases) (auto simp: appendedD(4) reversal_row_def new_entry_row_def)
  ultimately show "\<exists>x \<in> set (entries db'). e_reversal_of x = Some (e_id original)" by (auto simp: db')
  have "GetEntryByIdempotencyKey db2 key = Inr original"
    by (intro extends_key [OF ex] extends_key [OF Reverse_extends [OF r j] e])
  then show "GetEntryByIdempotencyKey db' key = Inr original"
    by (simp add: db' GetEntryByIdempotencyKey_def)
  have acc: "accounts db1 = accounts db" by (rule Reverse_orders(9) [OF r j])
  {
    assume new: "\<forall>x \<in> set (entries db). e_key x \<noteq> IdempotencyKey (loss_request ord actor now)"
      and ne: "IdempotencyKey (loss_request ord actor now) \<noteq> reverse_key key"
    obtain row where row: "row \<in> set (entries db)" "e_key row = key" "e_id original = e_id row"
      using GetEntry_row [OF e] by metis
    have "\<forall>x \<in> set (entries db1). e_key x \<noteq> IdempotencyKey (loss_request ord actor now)"
      using r j
    proof (rule Reverse_cases)
      fix orig
      assume o: "orig \<in> set (entries db)" "e_id orig = e_id original"
        and ap: "appended db db1 (reversal_row digest db orig actor reason_B now)
           (map (negated_apply db) (entry_lines db (e_id original)))"
      have "orig = row"
        using j row o by (auto simp: journal_ok_def entries_ok_def distinct_map dest: inj_onD)
      then have "e_key (reversal_row digest db orig actor reason_B now) = reverse_key key"
        by (simp add: reversal_row_def new_entry_row_def row(2))
      then show ?thesis using new ne by (auto simp: appendedD(4) [OF ap])
    qed
    then have "e_outcome loss = Created" using Post_created_iff [OF p j1] by blast
    moreover have "requested db1 (loss_request ord actor now) a = requested db (loss_request ord actor now) a"
      by (simp add: requested_def line_account_id_def GetByCode_cong [OF acc])
    ultimately show "cached_units db' a = cached_units db a - net db (e_id original) a +
        requested db (loss_request ord actor now) a"
      using Post_balances [OF p j1, of a] Reverse_restores [OF r j, of a]
      by (simp add: db' cached_units_def)
  }
  {
    assume bep: "amt_asset (o_amount_out ord) = USDT_BEP20" and a: "GetByCode db ''expense:loss:reorg'' = Inr acc"
    obtain rs where v: "validate db1 (loss_request ord actor now) = Inr rs"
      using p by (auto simp: Post_def)
    have "resolves db1 0 (Lines (loss_request ord actor now) ! 0) (rs ! 0)"
      using validate_Inr(2,4,5) [OF v] by (metis less_le_trans zero_less_numeral)
    then show "acc_asset acc = USDT_BEP20"
      using a bep by (simp add: loss_request_def Let_def resolves_def GetByCode_cong [OF acc])
  }
qed

text \<open>A second report after scenario B is refused: the deposit is reversed already.\<close>

lemma reorg_B_again:
  assumes h: "HandleDepositReorg digest env db i key actor now = (env', Inr (db', o'))"
    and ok: "ledger_ok db" and ord: "GetOrder db i = Inr ord" "o_state ord = Dispatching \<or> o_state ord = Settled"
    and "actor2 \<noteq> []" "now2 \<noteq> 0"
  shows "HandleDepositReorg digest env2 db' i key actor2 now2 = (env2, Inl ErrAlreadyReversed)"
proof -
  obtain original where e: "GetEntryByIdempotencyKey db key = Inr original"
    using h ord by (auto simp: HandleDepositReorg_def reorgScenarioB_def)
  note b = reorg_B_effect [OF h ok ord e]
  have g: "GetOrder db' i = Inr ord" using ord(1) b(1) by (simp add: GetOrder_def)
  have j': "journal_ok db'" using HandleDepositReorg_ok [OF h ok] by (simp add: ledger_ok_def)
  obtain row where row: "row \<in> set (entries db')" "original = scanEntry row" "e_id original = e_id row"
    using GetEntry_row [OF b(5)] by metis
  have "first_row (\<lambda>x. e_id x = e_id original) (entries db') = Some row"
    using j' row by (intro first_row_unique) (auto simp: journal_ok_def entries_ok_def)
  then have gid: "getEntryByID db' (e_id original) = Inr original" by (simp add: getEntryByID_def row(2))
  obtain x where x: "x \<in> set (entries db')" "e_reversal_of x = Some (e_id original)" using b(4) by blast
  then have "undoes db' x (e_id original)" using j' by (auto simp: journal_ok_def reversals_ok_def)
  then obtain q where "q \<in> set (entries db')" "e_id q = e_id row" "e_reversal_of q = None"
    using row(3) by (auto simp: undoes_def)
  then have "e_reversal_of row = None"
    using j' row(1) by (auto simp: journal_ok_def entries_ok_def distinct_map dest: inj_onD)
  then have "e_reversal_of original = None" by (simp add: row(2) scanEntry_def entry_row.extend_def)
  moreover have "list_ex (\<lambda>e. e_reversal_of e = Some (e_id original)) (entries db')"
    using x by (auto simp: list_ex_iff)
  ultimately have "Reverse digest db' (e_id original) actor2 reason_B now2 = Inl ErrAlreadyReversed"
    using assms(5,6) gid by (simp add: Reverse_def reason_B_def)
  then show ?thesis
    using g ord(2) b(5) by (auto simp: HandleDepositReorg_def reorgScenarioB_def)
qed

section \<open>What a replayed entry lets through\<close>

lemma Post_entry_there:
  assumes "Post digest db req = Inr (db', e)" and "journal_ok db"
  shows "list_ex (\<lambda>r. e_id r = e_id e) (entries db')"
  using assms
proof (cases rule: Post_cases)
  case (fresh rs)
  then show ?thesis by (simp add: appendedD(4) list_ex_iff scanEntry_def entry_row.extend_def)
next
  case (replay old ls)
  then show ?thesis by (auto simp: list_ex_iff scanEntry_def entry_row.extend_def)
qed

text \<open>A legal move succeeds as soon as its gate is open and its entry posts.\<close>

lemma Transition_succeeds:
  assumes ok: "ledger_ok db" and ord: "GetOrder db i = Inr ord" "o_version ord + 1 < 2 ^ 31"
    and r: "legal (o_state ord) to = Some r" "RequiresEntry r"
    and gate: "HaltBlocked r \<Longrightarrow> snd (halt_gate env db) = Inr ()"
    and p: "transition_validate p = Inr ()" "tp_entry p = Some req" "tp_entry_id p = None"
      "tp_sender p = None \<or> to = Funded"
    and post: "Post digest db req = Inr (db1, e)"
  shows "\<exists>env' o'. Transition digest env db i to (o_version ord) p =
      (env', Inr (moved_db db1 i (o_state ord) to (o_version ord) (Some (e_id e)) p, o')) \<and> o_state o' = to"
proof -
  have j: "journal_ok db" using ok by (simp add: ledger_ok_def)
  obtain q where q: "q \<in> set (orders db)" "r_id q = i" "scanOrder q = Inr ord" using GetOrder_Inr [OF ord(1)] by metis
  note same = Post_orders [OF post j]
  have oo: "orders_ok db" using ok by (simp add: ledger_ok_def)
  have ver: "r_version q = o_version ord" using scanOrder_Inr(3) [OF q(3)] by simp
  have uniq: "x = q" if "x \<in> set (orders db)" "r_id x = i" for x
    using oo that q by (auto simp: orders_ok_def distinct_map dest: inj_onD)
  have here: "first_row (\<lambda>r. r_id r = i \<and> r_version r = o_version ord) (orders db1) = Some q"
  proof (cases "first_row (\<lambda>r. r_id r = i \<and> r_version r = o_version ord) (orders db1)")
    case None
    then show ?thesis using q ver by (auto simp: first_row_None same)
  next
    case (Some x)
    then show ?thesis using uniq first_row_Some [OF Some] by (simp add: same)
  qed
  have "order_row_ok db (moved_row to (tp_sender p) (db_now db1) q)"
    using oo q(1) legal_valid [OF r(1)] by (auto simp: orders_ok_def order_row_ok_def)
  then obtain o' where o': "scanOrder (moved_row to (tp_sender p) (db_now db1) q) = Inr o'"
    using scanOrder_total by blast
  define db2 where "db2 = db1\<lparr>orders := update_rows (\<lambda>r. r_id r = i \<and> r_version r = o_version ord)
    (moved_row to (tp_sender p) (db_now db1)) (orders db1)\<rparr>"
  have cas: "cas_order db1 i to (o_version ord) (tp_sender p) = Inr (db2, o')"
    using here o' ver ord(2) by (simp add: cas_order_def Let_def db2_def)
  have "has_order db2 i"
    unfolding has_order_iff db2_def using q by (auto simp: map_update_rows same)
  moreover have "list_ex (\<lambda>r. e_id r = e_id e) (entries db2)"
    using Post_entry_there [OF post j] by (simp add: db2_def)
  ultimately have log: "log_transition db2 i (o_state ord) to (Some (e_id e)) p =
      Inr (moved_db db1 i (o_state ord) to (o_version ord) (Some (e_id e)) p)"
    by (simp add: log_transition_def moved_db_def db2_def)
  have commit: "transition_commit digest db i to (o_version ord) p ord r =
      Inr (moved_db db1 i (o_state ord) to (o_version ord) (Some (e_id e)) p, o')"
    using p(2-4) r(2) post cas log by (auto simp: transition_commit_def)
  obtain env' g where hg: "halt_gate env db = (env', g)" by fastforce
  have "\<exists>env'. Transition digest env db i to (o_version ord) p =
      (env', Inr (moved_db db1 i (o_state ord) to (o_version ord) (Some (e_id e)) p, o'))"
    using p(1) ord r(1) commit gate hg legal_valid [OF r(1)] by (cases "HaltBlocked r") (simp_all add: Transition_def)
  moreover have "o_state o' = to" using scanOrder_Inr(2) [OF o'] by simp
  ultimately show ?thesis by blast
qed

text \<open>\<open>Transition\<close> accepts a replayed entry on a legal pair without asking whether that entry has been
  reversed since: a deposit report redelivered after scenario A funds the order again, and no
  line is written.\<close>

lemma Transition_replayed_entry:
  assumes ok: "ledger_ok db" and old: "old \<in> set (entries db)"
    and req: "IdempotencyKey req = e_key old" "canonicalHash digest req = e_hash old" "is_ok (validate db req)"
    and ord: "GetOrder db i = Inr ord" "o_state ord = Quoted" "o_version ord + 1 < 2 ^ 31"
    and p: "transition_validate p = Inr ()" "tp_entry p = Some req" "tp_entry_id p = None"
  shows "\<exists>env' db' o'. Transition digest env db i Funded (o_version ord) p = (env', Inr (db', o')) \<and>
    o_state o' = Funded \<and> lines db' = lines db \<and> balances db' = balances db"
proof -
  have j: "journal_ok db" using ok by (simp add: ledger_ok_def)
  obtain e where post: "Post digest db req = Inr (db\<lparr>entries_seq := entries_seq db + 1\<rparr>, e)"
    using Post_replay [OF j old req(1,3), of digest] req(2) by simp
  have leg: "legal (o_state ord) Funded = Some (Rule True False)"
    by (simp add: ord(2) legal_def transitionTable_def)
  obtain env' o' where "Transition digest env db i Funded (o_version ord) p =
      (env', Inr (moved_db (db\<lparr>entries_seq := entries_seq db + 1\<rparr>) i (o_state ord) Funded (o_version ord)
        (Some (e_id e)) p, o'))" "o_state o' = Funded"
    using Transition_succeeds [OF ok ord(1,3) leg _ _ p _ post, of env] by auto
  moreover have "lines (moved_db (db\<lparr>entries_seq := x\<rparr>) i f t v c q) = lines db"
    "balances (moved_db (db\<lparr>entries_seq := x\<rparr>) i f t v c q) = balances db" for x f t v c q
    by (simp_all add: moved_db_def)
  ultimately show ?thesis by blast
qed

text \<open>While the ledger is halted no money-moving pair succeeds, whatever the cache says; the
  others never look at the flag.\<close>

lemma Transition_halted:
  assumes "IsHalted db" and "ledger_ok db" and "order_map db i = Some (s, v)"
    and "legal s to = Some r" and "HaltBlocked r"
  shows "\<not> is_ok (snd (Transition digest env db i to ver p))"
proof
  assume "is_ok (snd (Transition digest env db i to ver p))"
  then obtain env' db' o' where t: "Transition digest env db i to ver p = (env', Inr (db', o'))"
    by (cases "Transition digest env db i to ver p") (auto simp: is_ok_iff)
  then show False
  proof (cases rule: Transition_cases)
    case (moved current r')
    then show ?thesis using GetOrder_map(1) [OF moved(1) assms(2)] assms by auto
  next
    case (replayed req e)
    then show ?thesis using GetOrder_map(1) [OF replayed(1) assms(2)] assms(3,4) legal_irrefl by auto
  qed
qed

end
