(* ===== verification/Recon.thy ===== *)
theory Recon
  imports Journal_Replay Halt
begin

text \<open>
  The reconciler (\<open>ledger/internal/recon\<close>): its configuration, the ingestion of a chain snapshot
  and the periodic self-check.

  \<open>getenv\<close> is the process environment; Go's map of ceilings is an association list. \<open>RunOnce\<close> runs
  on the pool, so each of its statements commits on its own; a query that fails is logged and
  skipped. The alerts it returns are the warnings it logs.
\<close>

record config =
  Interval :: int
  TRXToleranceUnits :: int64
  CorridorCeilings :: "(asset \<times> int64) list"

definition defaultInterval :: int where "defaultInterval = 60 * 1000000000"

text \<open>A positive ceiling, or no check.\<close>

definition ceiling_from_env :: "string \<Rightarrow> (int64 option) option" where
  "ceiling_from_env v =
     (if v = '''' then Some None
      else case ParseInt_signed v of
        None \<Rightarrow> None
      | Some u \<Rightarrow> if u \<le> 0 then None else Some (Some (of_int u)))"

definition ConfigFromEnv :: "(string \<Rightarrow> string) \<Rightarrow> config option" where
  "ConfigFromEnv getenv =
     (let iv = getenv ''RECON_INTERVAL_SECONDS''; tv = getenv ''RECON_TRX_TOLERANCE_UNITS'' in
      Option.bind
        (if iv = '''' then Some defaultInterval
         else case ParseInt_signed iv of
           None \<Rightarrow> None
         | Some secs \<Rightarrow> if secs \<le> 0 then None else Some (sint (of_int secs * 1000000000 :: int64))) (\<lambda>interval.
      Option.bind
        (if tv = '''' then Some 0
         else case ParseInt_signed tv of
           None \<Rightarrow> None
         | Some u \<Rightarrow> if u < 0 then None else Some (of_int u)) (\<lambda>tol.
      Option.bind (ceiling_from_env (getenv ''RECON_CORRIDOR_CEILING_BEP20_UNITS'')) (\<lambda>b.
      Option.bind (ceiling_from_env (getenv ''RECON_CORRIDOR_CEILING_TRC20_UNITS'')) (\<lambda>t.
      Some \<lparr>Interval = interval, TRXToleranceUnits = tol,
            CorridorCeilings =
              (case b of None \<Rightarrow> [] | Some u \<Rightarrow> [(USDT_BEP20, u)]) @
              (case t of None \<Rightarrow> [] | Some u \<Rightarrow> [(USDT_TRC20, u)])\<rparr>)))))"

definition toleranceFor :: "config \<Rightarrow> asset \<Rightarrow> int64" where
  "toleranceFor cfg a = (if a = TRX then TRXToleranceUnits cfg else 0)"

lemma ConfigFromEnv_tolerance:
  "ConfigFromEnv getenv = Some cfg \<Longrightarrow> 0 \<le> sint (toleranceFor cfg a)"
  by (auto simp: ConfigFromEnv_def toleranceFor_def Let_def ParseInt_signed_def sint_of_int64
      split: option.splits if_splits bind_splits simp del: of_int_of_nat_eq of_int_minus)

section \<open>Snapshots\<close>

record snapshot_params =
  sn_account_code :: string
  sn_observed :: int64
  sn_chain_ref :: string
  sn_watermark :: int64
  sn_observed_at :: time

record snapshot_result =
  DriftUnits :: int64
  Halted :: bool

definition snapshot_validate :: "snapshot_params \<Rightarrow> ledger_error + unit" where
  "snapshot_validate p =
     (if sn_account_code p = '''' then Inl ErrInvalidSnapshotParams
      else if sn_chain_ref p = '''' then Inl ErrInvalidSnapshotParams
      else if sint (sn_watermark p) \<le> 0 then Inl ErrInvalidSnapshotParams
      else if sn_observed_at p = 0 then Inl ErrInvalidSnapshotParams
      else Inr ())"

definition insert_snapshot :: "db \<Rightarrow> account \<Rightarrow> snapshot_params \<Rightarrow> int64 \<Rightarrow> int64 \<Rightarrow> db" where
  "insert_snapshot db acc p ledgerUnits drift =
     db\<lparr>snapshots := snapshots db @
          [\<lparr>s_id = snapshots_seq db + 1, s_account = acc_id acc, s_asset = acc_asset acc,
            s_observed = sint (sn_observed p), s_chain_ref = sn_chain_ref p, s_ledger = sint ledgerUnits,
            s_watermark = sint (sn_watermark p), s_drift = sint drift,
            s_observed_at = pg_time (sn_observed_at p), s_recorded_at = db_now db\<rparr>],
        snapshots_seq := snapshots_seq db + 1\<rparr>"

definition drift_halt :: "account \<Rightarrow> snapshot_params \<Rightarrow> int64 \<Rightarrow> int64 \<Rightarrow> set_params" where
  "drift_halt acc p ledgerUnits drift =
     \<lparr>sp_reason = ReasonBalanceDrift,
      sp_detail = [(''account_code'', sn_account_code p), (''asset'', asset_str (acc_asset acc)),
        (''observed_units'', FormatInt (sn_observed p)), (''ledger_units'', FormatInt ledgerUnits),
        (''drift_units'', FormatInt drift), (''watermark'', FormatInt (sn_watermark p)),
        (''chain_ref'', sn_chain_ref p)],
      sp_actor = ''recon:snapshot_ingestion''\<rparr>"

definition IngestSnapshot :: "db \<Rightarrow> config \<Rightarrow> snapshot_params \<Rightarrow> ledger_error + db \<times> snapshot_result" where
  "IngestSnapshot db cfg p =
     rbind (snapshot_validate p) (\<lambda>_.
     rbind (GetByCode db (sn_account_code p)) (\<lambda>acc.
     rbind (BalanceAsOf db (sn_account_code p) (sint (sn_watermark p))) (\<lambda>ledgerAmt.
     let drift = sn_observed p - amt_units ledgerAmt;
         db1 = insert_snapshot db acc p (amt_units ledgerAmt) drift;
         tolerance = toleranceFor cfg (acc_asset acc);
         absDrift = (if drift <s 0 then - drift else drift)
     in if absDrift \<le>s tolerance then Inr (db1, \<lparr>DriftUnits = drift, Halted = False\<rparr>)
        else Inr (SetHalt db1 (drift_halt acc p (amt_units ledgerAmt) drift),
                  \<lparr>DriftUnits = drift, Halted = True\<rparr>))))"

section \<open>The self-check\<close>

record reconciler =
  rc_cfg :: config
  rc_last_tick :: time

definition checkTrialBalance :: "db \<Rightarrow> db \<times> bool" where
  "checkTrialBalance db =
     (case TrialBalance db of
        Inl _ \<Rightarrow> (db, False)
      | Inr trial \<Rightarrow>
          (case find (\<lambda>(_, t). t \<noteq> 0) trial of
             None \<Rightarrow> (db, False)
           | Some (a, t) \<Rightarrow>
               (SetHalt db \<lparr>sp_reason = ReasonTrialBalanceBroken,
                  sp_detail = [(''asset'', asset_str a), (''total_units'', FormatInt t)],
                  sp_actor = ''recon:self_check''\<rparr>, True)))"

definition checkCacheDivergence :: "db \<Rightarrow> db \<times> bool" where
  "checkCacheDivergence db =
     (case VerifyBalances db of
        Inl _ \<Rightarrow> (db, False)
      | Inr ds \<Rightarrow>
          if ds = [] then (db, False)
          else (SetHalt db \<lparr>sp_reason = ReasonCacheDivergence,
                  sp_detail = map (\<lambda>d. (''discrepancies'', d_code d)) ds,
                  sp_actor = ''recon:self_check''\<rparr>, True))"

definition checkCorridorCeiling :: "config \<Rightarrow> db \<Rightarrow> asset list" where
  "checkCorridorCeiling cfg db =
     concat (map (\<lambda>(a, ceiling).
       case Balance db (''position:corridor:'' @ asset_str a) of
         Inl _ \<Rightarrow> []
       | Inr bal \<Rightarrow>
           (let magnitude = (if amt_units bal <s 0 then - amt_units bal else amt_units bal) in
            if ceiling <s magnitude then [a] else []))
       (CorridorCeilings cfg))"

definition RunOnce :: "reconciler \<Rightarrow> db \<Rightarrow> time \<Rightarrow> reconciler \<times> db \<times> asset list" where
  "RunOnce rc db now =
     (let rc' = rc\<lparr>rc_last_tick := now\<rparr> in
      if IsHalted db then (rc', db, [])
      else
       (case checkTrialBalance db of (db1, h1) \<Rightarrow>
          if h1 then (rc', db1, [])
          else
           (case checkCacheDivergence db1 of (db2, h2) \<Rightarrow>
              if h2 then (rc', db2, [])
              else (rc', db2, checkCorridorCeiling (rc_cfg rc) db2))))"

definition LastTick :: "reconciler \<Rightarrow> time" where
  "LastTick rc = rc_last_tick rc"

lemma find_trial: "find (\<lambda>(_, t). t \<noteq> 0) (ts :: (asset \<times> int64) list) = None \<longleftrightarrow> \<not> list_ex (\<lambda>(_, t). t \<noteq> 0) ts"
  by (auto simp: find_None_iff list_ex_iff)

lemma checkTrialBalance_cases:
  assumes "TrialBalance db = Inr ts"
  shows "checkTrialBalance db = (db, False) \<and> \<not> list_ex (\<lambda>(_, t). t \<noteq> 0) ts \<or>
    (\<exists>p. checkTrialBalance db = (SetHalt db p, True)) \<and> list_ex (\<lambda>(_, t). t \<noteq> 0) ts"
  using find_trial [of ts]
  by (cases "find (\<lambda>(_, t). t \<noteq> 0) ts") (auto simp: checkTrialBalance_def assms split: prod.splits)

lemma checkCacheDivergence_cases:
  assumes "VerifyBalances db = Inr ds"
  shows "checkCacheDivergence db = (db, False) \<and> ds = [] \<or>
    (\<exists>p. checkCacheDivergence db = (SetHalt db p, True)) \<and> ds \<noteq> []"
  by (auto simp: checkCacheDivergence_def assms)

text \<open>The self-check never halts a ledger that is in order.\<close>

lemma RunOnce_ok:
  assumes "journal_ok db"
  shows "fst (snd (RunOnce rc db now)) = db"
proof -
  have "\<not> list_ex (\<lambda>(_, t). t \<noteq> 0) (map (\<lambda>a :: asset. (a, 0 :: int64)) (remdups (map l_asset (lines db))))"
    by (simp add: list_ex_iff)
  then have "checkTrialBalance db = (db, False)"
    using checkTrialBalance_cases [OF TrialBalance_ok [OF assms]] by blast
  moreover have "checkCacheDivergence db = (db, False)"
    using checkCacheDivergence_cases [OF VerifyBalances_ok [OF assms]] by blast
  ultimately show ?thesis by (simp add: RunOnce_def Let_def)
qed

text \<open>What it does find halts the ledger.\<close>

lemma RunOnce_halts:
  assumes "\<not> IsHalted db" and "TrialBalance db = Inr ts" and "VerifyBalances db = Inr ds"
  shows "IsHalted (fst (snd (RunOnce rc db now))) \<longleftrightarrow> list_ex (\<lambda>(_, t). t \<noteq> 0) ts \<or> ds \<noteq> []"
  using assms(1) checkTrialBalance_cases [OF assms(2)] checkCacheDivergence_cases [OF assms(3)]
  by (auto simp: RunOnce_def Let_def)

section \<open>When a snapshot halts\<close>

lemma IngestSnapshot_cases:
  assumes "IngestSnapshot db cfg p = Inr (db', r)"
  obtains acc led where "GetByCode db (sn_account_code p) = Inr acc"
    "BalanceAsOf db (sn_account_code p) (sint (sn_watermark p)) = Inr led"
    "DriftUnits r = sn_observed p - amt_units led"
    "Halted r = (\<not> (if DriftUnits r <s 0 then - DriftUnits r else DriftUnits r) \<le>s toleranceFor cfg (acc_asset acc))"
    "db' = (let db1 = insert_snapshot db acc p (amt_units led) (DriftUnits r) in
            if Halted r then SetHalt db1 (drift_halt acc p (amt_units led) (DriftUnits r)) else db1)"
  using assms by (auto simp: IngestSnapshot_def Let_def split: if_splits)

lemma abs_word:
  fixes w :: int64
  shows "sint (if w <s 0 then - w else w) = (if w = MinInt64 then min_int64 else \<bar>sint w\<bar>)"
proof (cases "w = MinInt64")
  case True
  have "sint (- MinInt64) = sint MinInt64" by (simp add: MinInt64_def min_int64_def)
  then show ?thesis using True by (simp add: sint_MinInt64)
next
  case False
  then have "sint (- w) = - sint w" by (intro sint64_neg) (simp add: fits64_neg_iff)
  then show ?thesis using False by (auto simp: word_sless_alt)
qed

text \<open>With the exact difference in range and not the smallest value, the ledger halts if and only if
  the difference exceeds the tolerance.\<close>

lemma IngestSnapshot_halts_iff:
  assumes i: "IngestSnapshot db cfg p = Inr (db', r)" and acc: "GetByCode db (sn_account_code p) = Inr acc"
    and led: "BalanceAsOf db (sn_account_code p) (sint (sn_watermark p)) = Inr led"
    and fit: "min_int64 < sint (sn_observed p) - units led" "sint (sn_observed p) - units led \<le> max_int64"
  shows "Halted r \<longleftrightarrow> sint (toleranceFor cfg (acc_asset acc)) < \<bar>sint (sn_observed p) - units led\<bar>"
proof -
  have r: "DriftUnits r = sn_observed p - amt_units led"
    "Halted r = (\<not> (if DriftUnits r <s 0 then - DriftUnits r else DriftUnits r) \<le>s toleranceFor cfg (acc_asset acc))"
    using i acc led by (auto elim!: IngestSnapshot_cases)
  have d: "sint (DriftUnits r) = sint (sn_observed p) - units led"
    unfolding r(1) using fit by (intro sint64_sub) (simp add: fits64_def)
  then have "DriftUnits r \<noteq> MinInt64" using fit(1) by (auto simp: MinInt64_iff)
  then show ?thesis
    unfolding r(2) word_sle_eq abs_word using d by auto
qed

text \<open>At the smallest difference the absolute value wraps, and no tolerance is exceeded.\<close>

lemma IngestSnapshot_min_drift:
  assumes i: "IngestSnapshot db cfg p = Inr (db', r)" and "DriftUnits r = MinInt64"
    and "0 \<le> sint (toleranceFor cfg TRX)"
  shows "\<not> Halted r" and "sys db' = sys db"
proof -
  have "0 \<le> sint (toleranceFor cfg a)" for a using assms(3) by (simp add: toleranceFor_def)
  then have "(if DriftUnits r <s 0 then - DriftUnits r else DriftUnits r) \<le>s toleranceFor cfg a" for a
    unfolding word_sle_eq abs_word assms(2) by (simp add: min_int64_def order_trans [of _ 0])
  then show h: "\<not> Halted r" using i by (auto elim!: IngestSnapshot_cases)
  show "sys db' = sys db"
    using i h by (auto elim!: IngestSnapshot_cases simp: Let_def insert_snapshot_def)
qed

end
