(* ===== verification/Orders_Pages.thy ===== *)
theory Orders_Pages
  imports Orders_Inv
begin

text \<open>
  \<open>ListByStateAfter\<close> as a caller uses it: paging from the start with the cursor of the last row seen
  visits every order of a state exactly once, in the order of \<open>(updated_at, id)\<close>, whatever the
  limit.
\<close>

section \<open>Keyset pagination\<close>

text \<open>What a caller that pages through a state sees: it asks for the first page, then for the page
  after the last row it got, \<open>k\<close> times or until a page is empty.\<close>

definition row_cursor :: "order_row \<Rightarrow> cursor" where
  "row_cursor r = \<lparr>cu_updated_at = r_updated_at r, cu_id = r_id r\<rparr>"

fun drain :: "db \<Rightarrow> state \<Rightarrow> int \<Rightarrow> nat \<Rightarrow> cursor option \<Rightarrow> order_row list" where
  "drain db s limit 0 after = []"
| "drain db s limit (Suc k) after =
     (let page = page_rows db s after limit in
      if page = [] then [] else page @ drain db s limit k (Some (row_cursor (last page))))"

definition row_key :: "order_row \<Rightarrow> time \<times> int" where
  "row_key r = (r_updated_at r, r_id r)"

definition in_state :: "db \<Rightarrow> state \<Rightarrow> order_row list" where
  "in_state db s = sort_key row_key (filter (\<lambda>r. r_state r = s) (orders db))"

lemma clamp_limit_bounds: "1 \<le> clamp_limit limit" "clamp_limit limit \<le> MaxListLimit"
  by (simp_all add: clamp_limit_def Let_def DefaultListLimit_def MaxListLimit_def)

lemma in_state_strict:
  assumes "orders_ok db"
  shows "sorted_wrt (<) (map row_key (in_state db s))"
proof -
  have "distinct (map r_id (filter (\<lambda>r. r_state r = s) (orders db)))"
    using assms by (simp add: orders_ok_def distinct_map_filter)
  then have "distinct (map row_key (filter (\<lambda>r. r_state r = s) (orders db)))"
    by (auto simp: distinct_map inj_on_def row_key_def)
  then have "distinct (map row_key (in_state db s))"
    by (simp add: in_state_def distinct_map)
  moreover have "sorted (map row_key (in_state db s))" by (simp add: in_state_def)
  ultimately show ?thesis by (simp add: strict_sorted_iff)
qed

lemma filter_after:
  assumes "sorted_wrt (<) (map f xs)" and "m < length xs"
  shows "filter (\<lambda>x. f (xs ! m) < (f x :: 'a :: linorder)) xs = drop (Suc m) xs"
proof -
  have "filter (\<lambda>x. f (xs ! m) < f x) (take (Suc m) xs) = []"
    using assms by (fastforce simp: filter_empty_conv in_set_conv_nth sorted_wrt_iff_nth_less less_Suc_eq not_less
        intro: less_imp_le)
  moreover have "filter (\<lambda>x. f (xs ! m) < f x) (drop (Suc m) xs) = drop (Suc m) xs"
    using assms by (auto simp: filter_id_conv in_set_conv_nth sorted_wrt_iff_nth_less)
  ultimately show ?thesis
    using filter_append [of "\<lambda>x. f (xs ! m) < f x" "take (Suc m) xs" "drop (Suc m) xs"] by simp
qed

text \<open>A page is the next segment of the ordered list.\<close>

lemma page_first: "page_rows db s None limit = take (nat (clamp_limit limit)) (in_state db s)"
  by (simp add: page_rows_def in_state_def row_key_def [abs_def])

lemma page_after:
  assumes ok: "orders_ok db" and us: "\<forall>r \<in> set (orders db). pg_time (r_updated_at r) = r_updated_at r"
    and m: "m < length (in_state db s)"
  shows "page_rows db s (Some (row_cursor (in_state db s ! m))) limit =
    take (nat (clamp_limit limit)) (drop (Suc m) (in_state db s))"
proof -
  let ?r = "in_state db s ! m"
  have "?r \<in> set (in_state db s)" using m by simp
  then have "?r \<in> set (orders db)" by (auto simp: in_state_def)
  then have key: "(pg_time (cu_updated_at (row_cursor ?r)), cu_id (row_cursor ?r)) = row_key ?r"
    using us by (simp add: row_cursor_def row_key_def)
  have "filter (\<lambda>r. r_state r = s \<and> row_key ?r < (r_updated_at r, r_id r)) (orders db) =
    filter (\<lambda>r. row_key ?r < row_key r) (filter (\<lambda>r. r_state r = s) (orders db))"
    by (simp add: row_key_def conj_commute)
  then have "sort_key row_key (filter (\<lambda>r. r_state r = s \<and> row_key ?r < (r_updated_at r, r_id r)) (orders db)) =
    filter (\<lambda>r. row_key ?r < row_key r) (in_state db s)"
    unfolding in_state_def filter_sort by (simp only:)
  then have "page_rows db s (Some (row_cursor ?r)) limit =
    take (nat (clamp_limit limit)) (filter (\<lambda>r. row_key ?r < row_key r) (in_state db s))"
    unfolding page_rows_def option.case key row_key_def [abs_def, symmetric] by (simp only:)
  then show ?thesis using filter_after [OF in_state_strict [OF ok] m] by simp
qed

lemma drain_after:
  assumes ok: "orders_ok db" and us: "\<forall>r \<in> set (orders db). pg_time (r_updated_at r) = r_updated_at r"
    and "m < length (in_state db s)"
  shows "drain db s limit k (Some (row_cursor (in_state db s ! m))) =
    take (k * nat (clamp_limit limit)) (drop (Suc m) (in_state db s))"
  using assms(3)
proof (induction k arbitrary: m)
  case 0
  then show ?case by simp
next
  case (Suc k)
  let ?n = "nat (clamp_limit limit)" and ?xs = "in_state db s"
  have n: "1 \<le> ?n" using clamp_limit_bounds(1) [of limit] by simp
  show ?case
  proof (cases "Suc m < length ?xs")
    case False
    then show ?thesis by (simp add: page_after [OF ok us Suc.prems] Let_def)
  next
    case True
    define j where "j = min (length ?xs - 1) (m + ?n)"
    have page: "take ?n (drop (Suc m) ?xs) \<noteq> []" using True n by simp
    have "last (take ?n (drop (Suc m) ?xs)) = ?xs ! j"
      using True n by (simp add: last_conv_nth j_def min_def)
        (auto intro!: arg_cong [where f = "nth ?xs"])
    then have "drain db s limit (Suc k) (Some (row_cursor (?xs ! m))) =
      take ?n (drop (Suc m) ?xs) @ drain db s limit k (Some (row_cursor (?xs ! j)))"
      using page by (simp add: page_after [OF ok us Suc.prems] Let_def)
    also have "\<dots> = take ?n (drop (Suc m) ?xs) @ take (k * ?n) (drop (Suc j) ?xs)"
      using True by (subst Suc.IH) (auto simp: j_def)
    also have "take (k * ?n) (drop (Suc j) ?xs) = take (k * ?n) (drop ?n (drop (Suc m) ?xs))"
      by (cases "m + ?n \<le> length ?xs - 1") (auto simp: j_def min_def add.commute)
    finally show ?thesis by (simp add: take_add add.commute)
  qed
qed

text \<open>Paging visits every order of the state once, in order.\<close>

lemma drain_complete:
  assumes ok: "orders_ok db" and us: "\<forall>r \<in> set (orders db). pg_time (r_updated_at r) = r_updated_at r"
    and k: "length (filter (\<lambda>r. r_state r = s) (orders db)) \<le> k"
  shows "drain db s limit k None = in_state db s"
proof (cases "in_state db s = []")
  case True
  then show ?thesis by (cases k) (simp_all add: page_first Let_def)
next
  case False
  let ?n = "nat (clamp_limit limit)" and ?xs = "in_state db s"
  have n: "1 \<le> ?n" using clamp_limit_bounds(1) [of limit] by simp
  have len: "length ?xs \<le> k" using k by (simp add: in_state_def)
  then obtain k' where k': "k = Suc k'" using False by (cases k) auto
  define j where "j = min (length ?xs - 1) (?n - 1)"
  have "0 < length ?xs" using False by simp
  then have jl: "j < length ?xs" unfolding j_def by linarith
  have "last (take ?n ?xs) = ?xs ! j"
    using False n by (simp add: last_conv_nth j_def min_def)
  then have "drain db s limit k None = take ?n ?xs @ drain db s limit k' (Some (row_cursor (?xs ! j)))"
    using False clamp_limit_bounds(1) [of limit] by (auto simp: k' page_first Let_def)
  also have "\<dots> = take ?n ?xs @ take (k' * ?n) (drop (Suc j) ?xs)"
    using jl by (subst drain_after [OF ok us]) simp_all
  also have "take (k' * ?n) (drop (Suc j) ?xs) = drop (Suc j) ?xs"
  proof (cases "?n \<le> length ?xs")
    case True
    have "length ?xs \<le> k * ?n" using len n by (metis le_trans mult.right_neutral mult_le_mono2)
    then have "length ?xs - ?n \<le> k' * ?n" by (simp add: k')
    moreover have "Suc j = ?n" using True n by (simp add: j_def)
    ultimately show ?thesis by simp
  qed (simp add: j_def min_def)
  also have "take ?n ?xs @ drop (Suc j) ?xs = ?xs"
    using n False by (cases "?n \<le> length ?xs") (auto simp: j_def min_def)
  finally show ?thesis .
qed

end
