(* ===== verification/Store.thy ===== *)
theory Store
  imports Prelude
begin

text \<open>
  The contracts the stores of the two services share, as locales: a store is a set of operations
  on a database, each of which succeeds with a new database or fails and is rolled back.

  \<^item> \<open>transactional\<close>: every operation keeps an invariant. Then so does any sequence of calls.
  \<^item> \<open>write_once\<close>: a value once readable under a key stays what it is. Then it survives any
    sequence of calls.
  \<^item> \<open>status_store\<close>: the status under a key moves only along the edges of a graph. Then any
    sequence of calls follows paths of the graph, and a status without an edge is final.
\<close>

definition commit_op :: "('op \<Rightarrow> 'db \<Rightarrow> 'e + 'db) \<Rightarrow> 'op \<Rightarrow> 'db \<Rightarrow> 'db" where
  "commit_op exec opn db = (case exec opn db of Inl _ \<Rightarrow> db | Inr db' \<Rightarrow> db')"

definition run_ops :: "('op \<Rightarrow> 'db \<Rightarrow> 'e + 'db) \<Rightarrow> 'op list \<Rightarrow> 'db \<Rightarrow> 'db" where
  "run_ops exec ops db = fold (commit_op exec) ops db"

lemma run_ops_simps:
  "run_ops exec [] db = db"
  "run_ops exec (opn # ops) db = run_ops exec ops (commit_op exec opn db)"
  by (simp_all add: run_ops_def)

locale transactional =
  fixes exec :: "'op \<Rightarrow> 'db \<Rightarrow> 'e + 'db" and inv :: "'db \<Rightarrow> bool"
  assumes step: "inv db \<Longrightarrow> exec opn db = Inr db' \<Longrightarrow> inv db'"
begin

lemma commit_inv: "inv db \<Longrightarrow> inv (commit_op exec opn db)"
  by (auto simp: commit_op_def split: sum.split dest: step)

lemma run_inv: "inv db \<Longrightarrow> inv (run_ops exec ops db)"
  by (induction ops arbitrary: db) (simp_all add: commit_inv run_ops_simps)

lemma run_induct:
  assumes "inv db" and "P db"
    and "\<And>opn d d'. inv d \<Longrightarrow> P d \<Longrightarrow> exec opn d = Inr d' \<Longrightarrow> P d'"
  shows "P (run_ops exec ops db)"
  using assms(1,2)
proof (induction ops arbitrary: db)
  case (Cons opn ops)
  have "P (commit_op exec opn db)"
    using assms(3) [OF Cons.prems] Cons.prems(2) by (auto simp: commit_op_def split: sum.split)
  then show ?case using Cons.IH commit_inv [OF Cons.prems(1)] by (simp add: run_ops_simps)
qed (simp add: run_ops_simps)

end

locale write_once = transactional exec inv
  for exec :: "'op \<Rightarrow> 'db \<Rightarrow> 'e + 'db" and inv :: "'db \<Rightarrow> bool" +
  fixes look :: "'db \<Rightarrow> 'k \<Rightarrow> 'v option"
  assumes keeps: "inv db \<Longrightarrow> exec opn db = Inr db' \<Longrightarrow> look db k = Some v \<Longrightarrow> look db' k = Some v"
begin

lemma run_keeps: "inv db \<Longrightarrow> look db k = Some v \<Longrightarrow> look (run_ops exec ops db) k = Some v"
  by (rule run_induct [where P = "\<lambda>d. look d k = Some v"]) (blast intro: keeps)+

text \<open>Two reads under one key, whatever happens in between, give the same value.\<close>

lemma reads_agree:
  "inv db \<Longrightarrow> look db k = Some v \<Longrightarrow> look (run_ops exec ops db) k = Some w \<Longrightarrow> v = w"
  using run_keeps by fastforce

end

locale status_store = transactional exec inv
  for exec :: "'op \<Rightarrow> 'db \<Rightarrow> 'e + 'db" and inv :: "'db \<Rightarrow> bool" +
  fixes status :: "'db \<Rightarrow> 'k \<Rightarrow> 's option" and edge :: "'s \<Rightarrow> 's \<Rightarrow> bool"
  assumes moves: "inv db \<Longrightarrow> exec opn db = Inr db' \<Longrightarrow> status db k = Some s \<Longrightarrow>
    \<exists>t. status db' k = Some t \<and> (t = s \<or> edge s t)"
begin

lemma run_path:
  assumes "inv db" and "status db k = Some s"
  shows "\<exists>t. status (run_ops exec ops db) k = Some t \<and> edge\<^sup>*\<^sup>* s t"
proof (rule run_induct [where P = "\<lambda>d. \<exists>t. status d k = Some t \<and> edge\<^sup>*\<^sup>* s t", OF assms(1)])
  show "\<exists>t. status db k = Some t \<and> edge\<^sup>*\<^sup>* s t" using assms(2) by blast
next
  fix opn d d'
  assume d: "inv d" "\<exists>t. status d k = Some t \<and> edge\<^sup>*\<^sup>* s t" "exec opn d = Inr d'"
  then obtain t where t: "status d k = Some t" "edge\<^sup>*\<^sup>* s t" by blast
  from moves [OF d(1,3) t(1)] t(2) show "\<exists>t. status d' k = Some t \<and> edge\<^sup>*\<^sup>* s t"
    by (auto intro: rtranclp.rtrancl_into_rtrancl)
qed

lemma run_final:
  assumes "inv db" and "status db k = Some s" and final: "\<And>t. \<not> edge s t"
  shows "status (run_ops exec ops db) k = Some s"
proof -
  obtain t where "status (run_ops exec ops db) k = Some t" "edge\<^sup>*\<^sup>* s t"
    using run_path [OF assms(1,2)] by blast
  moreover have "t = s" using \<open>edge\<^sup>*\<^sup>* s t\<close> final by (auto elim: converse_rtranclpE)
  ultimately show ?thesis by simp
qed

end

end
