(* ===== verification/Ledger.thy ===== *)
theory Ledger
  imports Reorg Recon Orders_Pages Store
begin

text \<open>
  The ledger as one system: its write operations, each in its transaction (\<open>db.Tx\<close>, with the
  deferred balance trigger at commit), the states any sequence of them reaches, and the
  contracts of theory \<open>Store\<close> proved for them: the invariant \<open>ledger_ok\<close>, the journal as a
  write-once store, the orders as a status store.
\<close>

datatype ledger_op =
    OpCreateAccount string account_type asset
  | OpSeed
  | OpPost entry_request
  | OpReverse int string string time
  | OpCreateOrder create_params
  | OpTransition halt_env int state int transition_params
  | OpReorg halt_env int string string time
  | OpSetHalt set_params
  | OpClearHalt clear_params
  | OpSnapshot config snapshot_params
  | OpSelfCheck reconciler time

text \<open>The body of the transaction.\<close>

fun ledger_body :: "(hash_payload \<Rightarrow> hash) \<Rightarrow> ledger_op \<Rightarrow> db \<Rightarrow> ledger_error + db" where
  "ledger_body digest (OpCreateAccount c t a) db = rbind (CreateAccount db c t a) (\<lambda>(db', _). Inr db')"
| "ledger_body digest OpSeed db = Seed db"
| "ledger_body digest (OpPost req) db = rbind (Post digest db req) (\<lambda>(db', _). Inr db')"
| "ledger_body digest (OpReverse i actor reason at) db =
     rbind (Reverse digest db i actor reason at) (\<lambda>(db', _). Inr db')"
| "ledger_body digest (OpCreateOrder p) db = rbind (CreateOrder db p) (\<lambda>(db', _). Inr db')"
| "ledger_body digest (OpTransition env i to ver p) db =
     rbind (snd (Transition digest env db i to ver p)) (\<lambda>(db', _). Inr db')"
| "ledger_body digest (OpReorg env i key actor now) db =
     rbind (snd (HandleDepositReorg digest env db i key actor now)) (\<lambda>(db', _). Inr db')"
| "ledger_body digest (OpSetHalt p) db = Inr (SetHalt db p)"
| "ledger_body digest (OpClearHalt p) db = ClearHalt db p"
| "ledger_body digest (OpSnapshot cfg p) db = rbind (IngestSnapshot db cfg p) (\<lambda>(db', _). Inr db')"
| "ledger_body digest (OpSelfCheck rc now) db = Inr (fst (snd (RunOnce rc db now)))"

text \<open>The constraint trigger: every entry a new line belongs to must sum to zero in every asset.\<close>

definition journal_check_balance :: "db \<Rightarrow> int \<Rightarrow> bool" where
  "journal_check_balance db eid =
     list_all (\<lambda>a. sum_lines db (\<lambda>l. l_entry l = eid \<and> l_asset l = a) = 0) (map l_asset (lines db))"

definition Tx :: "(db \<Rightarrow> ledger_error + db) \<Rightarrow> db \<Rightarrow> ledger_error + db" where
  "Tx f db =
     (case f db of
        Inl err \<Rightarrow> Inl err
      | Inr db' \<Rightarrow>
          if list_all (\<lambda>l. journal_check_balance db' (l_entry l)) (drop (length (lines db)) (lines db'))
          then Inr db' else Inl (DbErr RaisedException))"

definition ledger_exec :: "(hash_payload \<Rightarrow> hash) \<Rightarrow> ledger_op \<Rightarrow> db \<Rightarrow> ledger_error + db" where
  "ledger_exec digest opn db = Tx (ledger_body digest opn) db"

section \<open>Every operation keeps the invariant\<close>

lemma IngestSnapshot_same:
  assumes "IngestSnapshot db cfg p = Inr (db', r)"
  shows "accounts db' = accounts db" "accounts_seq db' = accounts_seq db" "entries db' = entries db"
    "entries_seq db' = entries_seq db" "lines db' = lines db" "balances db' = balances db"
    "orders db' = orders db" "orders_seq db' = orders_seq db" "transitions db' = transitions db"
    "halt_ok db \<Longrightarrow> halt_ok db'"
proof -
  obtain acc and led :: amount where d: "db' = (let db1 = insert_snapshot db acc p (amt_units led) (DriftUnits r) in
            if Halted r then SetHalt db1 (drift_halt acc p (amt_units led) (DriftUnits r)) else db1)"
    using assms by (rule IngestSnapshot_cases) (rule that; assumption)
  have same: "sys (insert_snapshot db a p x y) = sys db" "halt_log (insert_snapshot db a p x y) = halt_log db"
    "halt_seq (insert_snapshot db a p x y) = halt_seq db" for a x y
    by (simp_all add: insert_snapshot_def)
  show "accounts db' = accounts db" "accounts_seq db' = accounts_seq db" "entries db' = entries db"
    "entries_seq db' = entries_seq db" "lines db' = lines db" "balances db' = balances db"
    "orders db' = orders db" "orders_seq db' = orders_seq db" "transitions db' = transitions db"
    using d by (auto simp: Let_def insert_snapshot_def)
  show "halt_ok db'" if "halt_ok db"
    using d that halt_ok_cong [OF same] by (auto simp: Let_def intro: halt_ok_SetHalt)
qed

lemma ledger_ok_same:
  assumes "ledger_ok db" and "accounts db' = accounts db" "accounts_seq db' = accounts_seq db"
    "entries db' = entries db" "entries_seq db' = entries_seq db" "lines db' = lines db"
    "balances db' = balances db" "orders db' = orders db" "orders_seq db' = orders_seq db"
    "transitions db' = transitions db" "halt_ok db'"
  shows "ledger_ok db'"
proof -
  have "journal_ok db'" using assms by (intro journal_ok_cong [of db' db]) (simp_all add: ledger_ok_def)
  moreover have "orders_ok db'" "history_ok db'"
    using assms by (simp_all add: ledger_ok_def orders_ok_def order_row_ok_def history_ok_def history_def has_order_def)
  ultimately show ?thesis using assms(11) by (simp add: ledger_ok_def)
qed

text \<open>A new account changes no sum and no balance.\<close>

lemma CreateAccount_journal_ok:
  assumes c: "CreateAccount db co t a = Inr (db', row)" and ok: "journal_ok db"
  shows "journal_ok db'"
proof -
  have acc: "accounts_ok db'" using CreateAccount_ok [OF _ c] ok by (simp add: journal_ok_def)
  have d: "entries db' = entries db \<and> lines db' = lines db \<and> balances db' = balances db \<and>
      entries_seq db' = entries_seq db \<and> (\<exists>xs. accounts db' = accounts db @ xs)"
    using c by (rule CreateAccount_cases) auto
  then obtain xs where xs: "accounts db' = accounts db @ xs" by blast
  have same: "sum_lines db' = sum_lines db" "cached_units db' = cached_units db" "net db' = net db"
    using d by (simp_all add: fun_eq_iff sum_lines_def cached_units_def net_def)
  have "lines_ok db'" using ok d xs by (auto simp: journal_ok_def lines_ok_def line_ok_def)
  moreover have "balances_ok db'"
    using ok d xs by (auto simp: journal_ok_def cache_ok_def balances_ok_def has_account_def)
  then have "cache_ok db'"
    using cache_all [OF ok] by (simp add: cache_ok_def same computed_units_def)
  moreover have "undoes db' e i" if "undoes db e i" "e \<in> set (entries db)" "e_reversal_of e = Some i" for e i
  proof -
    have "net db (e_id e) j = - net db i j" for j
    proof (cases "has_account db j")
      case True
      then show ?thesis using that(1) by (auto simp: undoes_def has_account_def list_ex_iff)
    next
      case False
      then have "\<forall>l \<in> set (lines db). l_account l \<noteq> j"
        using ok by (auto simp: journal_ok_def lines_ok_def line_ok_def has_account_def list_ex_iff)
      then show ?thesis by (simp add: net_def sum_lines_def sum_list_filter_none)
    qed
    then show ?thesis using that(1) d by (simp add: undoes_def same)
  qed
  then have "reversals_ok db'"
    using ok d by (auto simp: journal_ok_def reversals_ok_def split: option.splits)
  ultimately show ?thesis
    using ok acc d same by (simp add: journal_ok_def entries_ok_def balanced_def)
qed

lemma CreateAccount_ledger_ok:
  assumes c: "CreateAccount db co t a = Inr (db', row)" and ok: "ledger_ok db"
  shows "ledger_ok db'"
proof -
  have "journal_ok db'" using CreateAccount_journal_ok [OF c] ok by (simp add: ledger_ok_def)
  moreover have "orders db' = orders db \<and> orders_seq db' = orders_seq db \<and> transitions db' = transitions db \<and>
      sys db' = sys db \<and> halt_log db' = halt_log db \<and> halt_seq db' = halt_seq db"
    using c by (rule CreateAccount_cases) auto
  ultimately show ?thesis using ledger_ok_journal_step [OF ok] by blast
qed

lemma Seed_steps:
  assumes "Seed db = Inr db'" and "P db"
    and "\<And>d d' c t a row. CreateAccount d c t a = Inr (d', row) \<Longrightarrow> P d \<Longrightarrow> P d'"
  shows "P db'"
proof (rule rfold_preserves [where P = P, OF assms(1) [unfolded Seed_def] assms(2)])
  fix x :: "string \<times> account_type \<times> asset" and s s'
  assume "(\<lambda>(c, t, a) db. rbind (CreateAccount db c t a) (\<lambda>(db', _). Inr db')) x s = Inr s'" "P s"
  then show "P s'" by (auto split: prod.splits dest: assms(3))
qed

lemma RunOnce_same:
  assumes "ledger_ok db"
  shows "fst (snd (RunOnce rc db now)) = db"
  using assms by (simp add: RunOnce_ok ledger_ok_def)

lemma ledger_body_ok:
  assumes "ledger_body digest opn db = Inr db'" and ok: "ledger_ok db"
  shows "ledger_ok db'"
  using assms(1)
proof (cases opn)
  case OpSeed
  then show ?thesis
    using assms(1) Seed_steps [of db db' ledger_ok] ok CreateAccount_ledger_ok by auto
next
  case (OpTransition env i to ver p)
  then show ?thesis using assms(1) Transition_ok [OF _ ok]
    by (cases "Transition digest env db i to ver p") auto
next
  case (OpReorg env i key actor now)
  then show ?thesis using assms(1) HandleDepositReorg_ok [OF _ ok]
    by (cases "HandleDepositReorg digest env db i key actor now") auto
next
  case (OpClearHalt p)
  then have c: "ClearHalt db p = Inr db'" using assms(1) by simp
  show ?thesis
    using ledger_ok_same [OF ok] ClearHalt_tables [OF c] halt_ok_ClearHalt [OF _ c] ok
    by (simp add: ledger_ok_def)
next
  case (OpSnapshot cfg p)
  then obtain r where "IngestSnapshot db cfg p = Inr (db', r)" using assms(1) by auto
  from IngestSnapshot_same [OF this] show ?thesis using ledger_ok_same [OF ok] ok by (simp add: ledger_ok_def)
qed (use assms(1) ok in \<open>auto dest: CreateAccount_ledger_ok Post_ledger_ok Reverse_ledger_ok CreateOrder_ok
      SetHalt_ledger_ok simp: RunOnce_same\<close>)

section \<open>The trigger never fires\<close>

lemma journal_check_ok: "journal_ok db \<Longrightarrow> journal_check_balance db eid"
  by (simp add: journal_check_balance_def list_all_iff balanced_all)

lemma Tx_ok:
  assumes "\<And>db'. f db = Inr db' \<Longrightarrow> journal_ok db'"
  shows "Tx f db = f db"
  using assms by (auto simp: Tx_def list_all_iff journal_check_ok split: sum.split)

lemma ledger_exec_body: "ledger_ok db \<Longrightarrow> ledger_exec digest opn db = ledger_body digest opn db"
  unfolding ledger_exec_def
  by (rule Tx_ok) (auto dest: ledger_body_ok simp: ledger_ok_def)

lemma ledger_exec_ok: "ledger_ok db \<Longrightarrow> ledger_exec digest opn db = Inr db' \<Longrightarrow> ledger_ok db'"
  by (simp add: ledger_exec_body ledger_body_ok)

section \<open>The journal is append-only\<close>

definition grows :: "db \<Rightarrow> db \<Rightarrow> bool" where
  "grows db db' \<longleftrightarrow> (\<exists>es ls. entries db' = entries db @ es \<and> lines db' = lines db @ ls) \<and>
     entries_seq db \<le> entries_seq db' \<and>
     (\<forall>l \<in> set (drop (length (lines db)) (lines db')). entries_seq db < l_entry l)"

lemma grows_refl: "entries db' = entries db \<Longrightarrow> lines db' = lines db \<Longrightarrow> entries_seq db \<le> entries_seq db' \<Longrightarrow> grows db db'"
  by (auto simp: grows_def)

lemma grows_trans:
  assumes "grows a b" and "grows b c"
  shows "grows a c"
proof -
  obtain es ls es' ls' where e: "entries b = entries a @ es" "lines b = lines a @ ls"
    "entries c = entries b @ es'" "lines c = lines b @ ls'"
    using assms by (auto simp: grows_def)
  have "\<forall>l \<in> set (ls @ ls'). entries_seq a < l_entry l"
    using assms e by (fastforce simp: grows_def)
  then show ?thesis using assms e by (auto simp: grows_def)
qed

lemma appended_grows: "appended db db' row ls \<Longrightarrow> grows db db'"
  by (auto simp: grows_def appendedD line_row_of_def)

lemma Post_grows: "Post digest db req = Inr (db', e) \<Longrightarrow> journal_ok db \<Longrightarrow> grows db db'"
  by (erule (1) Post_cases) (auto intro: appended_grows grows_refl)

lemma Reverse_grows: "Reverse digest db i a r at = Inr (db', e) \<Longrightarrow> journal_ok db \<Longrightarrow> grows db db'"
  by (erule (1) Reverse_cases) (auto intro: appended_grows)

lemma Transition_grows:
  assumes "Transition digest env db i to ver p = (env', Inr (db', o'))" and ok: "ledger_ok db"
  shows "grows db db'"
  using assms(1)
proof (cases rule: Transition_cases)
  case (moved current r)
  have j: "journal_ok db" using ok by (simp add: ledger_ok_def)
  obtain db1 eid where c: "case tp_entry p of None \<Rightarrow> db1 = db \<and> eid = tp_entry_id p
     | Some req \<Rightarrow> \<exists>e. Post digest db req = Inr (db1, e) \<and> eid = Some (e_id e)"
    "db' = moved_db db1 i (o_state current) to ver eid p"
    by (rule transition_commit_Inr [OF moved(5)]) (rule that; assumption)
  have "grows db db1" using c(1) Post_grows [OF _ j] by (auto split: option.splits intro: grows_refl)
  moreover have "grows db1 db'" by (rule grows_refl) (simp_all add: c(2) moved_db_def)
  ultimately show ?thesis by (rule grows_trans)
next
  case (replayed req e)
  then show ?thesis using Post_grows ok by (auto simp: ledger_ok_def)
qed

lemma Reorg_grows:
  assumes "HandleDepositReorg digest env db i key actor now = (env', Inr (db', o'))" and ok: "ledger_ok db"
  shows "grows db db'"
  using assms(1)
proof (cases rule: HandleDepositReorg_cases)
  case (A ord)
  obtain original :: entry and db1 and e :: entry where r: "Reverse digest db (e_id original) actor reason_A now = Inr (db1, e)"
    and t: "Transition digest env db1 (o_id ord) Quoted (o_version ord)
       \<lparr>tp_actor = actor, tp_reason = reason_A, tp_occurred_at = now, tp_entry = None,
        tp_entry_id = Some (e_id e), tp_sender = None\<rparr> = (env', Inr (db', o'))"
    using A(3) by (rule ScenarioA_Inr) (rule that; assumption)
  have "grows db db1" using Reverse_grows [OF r] ok by (simp add: ledger_ok_def)
  then show ?thesis using Transition_grows [OF t Reverse_ledger_ok [OF r ok]] grows_trans by blast
next
  case (B ord)
  obtain original :: entry and db1 and e :: entry and db2 and e2 :: entry where r: "Reverse digest db (e_id original) actor reason_B now = Inr (db1, e)"
    and p: "Post digest db1 (loss_request ord actor now) = Inr (db2, e2)"
    and d: "db' = SetHalt db2 (reorg_halt ord key actor)"
    using B(3) by (rule ScenarioB_Inr) (rule that; assumption)
  have j: "journal_ok db" using ok by (simp add: ledger_ok_def)
  have "grows db db1" "grows db1 db2" "grows db2 db'"
    using Reverse_grows [OF r j] Post_grows [OF p Reverse_ok [OF r j]] by (simp_all add: d grows_refl)
  then show ?thesis using grows_trans by blast
next
  case Q
  then show ?thesis by (simp add: grows_refl)
qed

lemma CreateAccount_grows: "CreateAccount db c t a = Inr (db', row) \<Longrightarrow> grows db db'"
  by (erule CreateAccount_cases) (simp_all add: grows_refl)

lemma ledger_body_grows:
  assumes "ledger_body digest opn db = Inr db'" and ok: "ledger_ok db"
  shows "grows db db'"
  using assms(1)
proof (cases opn)
  case OpSeed
  then show ?thesis
    using assms(1) Seed_steps [of db db' "grows db"] CreateAccount_grows grows_trans grows_refl
    by (metis ledger_body.simps(2) order_refl)
next
  case (OpTransition env i to ver p)
  then show ?thesis using assms(1) Transition_grows [OF _ ok]
    by (cases "Transition digest env db i to ver p") auto
next
  case (OpReorg env i key actor now)
  then show ?thesis using assms(1) Reorg_grows [OF _ ok]
    by (cases "HandleDepositReorg digest env db i key actor now") auto
next
  case (OpClearHalt p)
  then have c: "ClearHalt db p = Inr db'" using assms(1) by simp
  show ?thesis by (rule grows_refl) (simp_all add: ClearHalt_tables [OF c])
next
  case (OpSnapshot cfg p)
  then obtain r where "IngestSnapshot db cfg p = Inr (db', r)" using assms(1) by auto
  from IngestSnapshot_same [OF this] show ?thesis by (simp add: grows_refl)
next
  case (OpPost req)
  then show ?thesis using assms Post_grows by (auto simp: ledger_ok_def)
next
  case (OpReverse i a r at)
  then show ?thesis using assms Reverse_grows by (auto simp: ledger_ok_def)
next
  case (OpCreateOrder p)
  then obtain o' where "CreateOrder db p = Inr (db', o')" using assms(1) by auto
  from CreateOrder_Inr(1) [OF this] show ?thesis by (simp add: grows_refl)
qed (use assms(1) in \<open>auto dest: CreateAccount_grows simp: RunOnce_same [OF ok] grows_refl\<close>)

text \<open>An entry as a reader finds it: its row under its key, with its lines.\<close>

definition entry_at :: "db \<Rightarrow> string \<Rightarrow> (entry_row \<times> line_row list) option" where
  "entry_at db key = map_option (\<lambda>r. (r, entry_lines db (e_id r))) (first_row (\<lambda>r. e_key r = key) (entries db))"

lemma grows_entry_at:
  assumes g: "grows db db'" and ok: "journal_ok db" and e: "entry_at db key = Some v"
  shows "entry_at db' key = Some v"
proof -
  obtain es ls where d: "entries db' = entries db @ es" "lines db' = lines db @ ls"
    using g by (auto simp: grows_def)
  obtain r where r: "first_row (\<lambda>r. e_key r = key) (entries db) = Some r" "v = (r, entry_lines db (e_id r))"
    using e by (auto simp: entry_at_def)
  have "e_id r \<le> entries_seq db"
    using first_row_Some [OF r(1)] ok by (auto simp: journal_ok_def entries_ok_def)
  then have "filter (\<lambda>l. l_entry l = e_id r) ls = []"
    using g d by (fastforce simp: grows_def filter_empty_conv)
  then have "entry_lines db' (e_id r) = entry_lines db (e_id r)" by (simp add: entry_lines_def d)
  then show ?thesis using r d by (simp add: entry_at_def first_row_append)
qed

section \<open>Orders move along the table\<close>

lemma order_map_create:
  assumes c: "CreateOrder db p = Inr (db', o')" and ok: "orders_ok db"
  shows "order_step (order_map db) (order_map db')"
proof -
  note d = CreateOrder_Inr(1) [OF c]
  have n: "order_map db (orders_seq db + 1) = None"
    using ok by (force simp: order_map_None orders_ok_def order_row_ok_def)
  have "order_map db' = (order_map db)(orders_seq db + 1 \<mapsto> (Quoted, 0))"
  proof
    fix j
    show "order_map db' j = ((order_map db)(orders_seq db + 1 \<mapsto> (Quoted, 0))) j"
      using n by (auto simp: order_map_def d first_row_append new_order_row_def split: option.splits)
  qed
  then show ?thesis using step_create [where m = "order_map db", OF n] by simp
qed

lemma Reorg_order_step:
  assumes h: "HandleDepositReorg digest env db i key actor now = (env', Inr (db', o'))" and ok: "ledger_ok db"
  shows "order_step (order_map db) (order_map db')"
  using h
proof (cases rule: HandleDepositReorg_cases)
  case (A ord)
  obtain original where e: "GetEntryByIdempotencyKey db key = Inr original"
    using A(3) by (rule ScenarioA_Inr) (rule that; assumption)
  have "order_map db' = (order_map db)(i \<mapsto> (Quoted, o_version ord + 1))"
    by (rule reorg_A_effect(2) [OF h ok A(1,2) e])
  moreover have "order_map db i = Some (Funded, o_version ord)"
    using GetOrder_map(1) [OF A(1) ok] A(2) by simp
  ultimately show ?thesis by (auto intro: step_move simp: legal_def transitionTable_def)
next
  case (B ord)
  obtain original where e: "GetEntryByIdempotencyKey db key = Inr original"
    using B(3) by (rule ScenarioB_Inr) (rule that; assumption)
  have "orders db' = orders db" by (rule reorg_B_effect(1) [OF h ok B(1,2) e])
  then have "order_map db' = order_map db" by (rule order_map_cong)
  then show ?thesis by (simp add: step_stay)
next
  case Q
  then show ?thesis by (simp add: step_stay)
qed

lemma CreateAccount_orders: "CreateAccount db c t a = Inr (db', row) \<Longrightarrow> orders db' = orders db"
  by (erule CreateAccount_cases) simp_all

lemma ledger_body_order_step:
  assumes "ledger_body digest opn db = Inr db'" and ok: "ledger_ok db"
  shows "order_step (order_map db) (order_map db')"
proof -
  have j: "journal_ok db" using ok by (simp add: ledger_ok_def)
  have stay: ?thesis if "orders db' = orders db" using order_map_cong [OF that] by (simp add: step_stay)
  show ?thesis
  proof (cases opn)
    case OpSeed
    then have "orders db' = orders db"
      using assms(1) Seed_steps [of db db' "\<lambda>d. orders d = orders db"] CreateAccount_orders by auto
    then show ?thesis by (rule stay)
  next
    case (OpTransition env i to ver p)
    then show ?thesis using assms(1) Transition_refines [OF _ ok]
      by (cases "Transition digest env db i to ver p") auto
  next
    case (OpReorg env i key actor now)
    then show ?thesis using assms(1) Reorg_order_step [OF _ ok]
      by (cases "HandleDepositReorg digest env db i key actor now") auto
  next
    case (OpClearHalt p)
    then have c: "ClearHalt db p = Inr db'" using assms(1) by simp
    show ?thesis by (rule stay) (simp add: ClearHalt_tables [OF c])
  next
    case (OpSnapshot cfg p)
    then obtain r where "IngestSnapshot db cfg p = Inr (db', r)" using assms(1) by auto
    from IngestSnapshot_same(7) [OF this] show ?thesis by (rule stay)
  next
    case (OpCreateOrder p)
    then show ?thesis using assms(1) ok by (auto dest: order_map_create simp: ledger_ok_def)
  next
    case (OpPost req)
    then show ?thesis using assms(1) Post_orders(1) [OF _ j] stay by auto
  next
    case (OpReverse i a r at)
    then show ?thesis using assms(1) Reverse_orders(1) [OF _ j] stay by auto
  qed (use assms(1) stay in \<open>auto dest: CreateAccount_orders simp: RunOnce_same [OF ok]\<close>)
qed

section \<open>Halting\<close>

text \<open>Every operation but \<open>ClearHalt\<close> keeps a halt.\<close>

lemma Transition_sys:
  assumes "Transition digest env db i to ver p = (env', Inr (db', o'))" and ok: "ledger_ok db"
  shows "sys db' = sys db"
  using assms(1)
proof (cases rule: Transition_cases)
  case (moved current r)
  obtain db1 eid row where "sys db1 = sys db" "db' = moved_db db1 i (o_state current) to ver eid p"
    using Transition_moved [OF moved(1-3,5) ok] by metis
  then show ?thesis by (simp add: moved_db_def)
next
  case (replayed req e)
  then show ?thesis using Post_orders(5) ok by (auto simp: ledger_ok_def)
qed

lemma Reorg_halted:
  assumes h: "HandleDepositReorg digest env db i key actor now = (env', Inr (db', o'))" and ok: "ledger_ok db"
    and "IsHalted db"
  shows "IsHalted db'"
  using h
proof (cases rule: HandleDepositReorg_cases)
  case (A ord)
  obtain original where e: "GetEntryByIdempotencyKey db key = Inr original"
    using A(3) by (rule ScenarioA_Inr) (rule that; assumption)
  then show ?thesis using reorg_A_effect(3) [OF h ok A(1,2) e] assms(3) by (simp add: IsHalted_def)
next
  case (B ord)
  obtain original where e: "GetEntryByIdempotencyKey db key = Inr original"
    using B(3) by (rule ScenarioB_Inr) (rule that; assumption)
  show ?thesis by (rule reorg_B_effect(2) [OF h ok B(1,2) e])
qed (use assms(3) in simp)

lemma CreateAccount_sys: "CreateAccount db c t a = Inr (db', row) \<Longrightarrow> sys db' = sys db"
  by (erule CreateAccount_cases) simp_all

lemma IngestSnapshot_halted:
  assumes "IngestSnapshot db cfg p = Inr (db', r)" and "IsHalted db"
  shows "IsHalted db'"
  using assms(1) by (rule IngestSnapshot_cases) (use assms(2) in \<open>auto simp: Let_def IsHalted_def insert_snapshot_def SetHalt_def\<close>)

lemma ledger_body_halted:
  assumes "ledger_body digest opn db = Inr db'" and ok: "ledger_ok db" and h: "IsHalted db"
    and "\<forall>p. opn \<noteq> OpClearHalt p"
  shows "IsHalted db'"
proof -
  have j: "journal_ok db" using ok by (simp add: ledger_ok_def)
  have same: ?thesis if "sys db' = sys db" using that h by (simp add: IsHalted_def)
  show ?thesis
  proof (cases opn)
    case OpSeed
    then have "sys db' = sys db"
      using assms(1) Seed_steps [of db db' "\<lambda>d. sys d = sys db"] CreateAccount_sys by auto
    then show ?thesis by (rule same)
  next
    case (OpTransition env i to ver p)
    then show ?thesis using assms(1) Transition_sys [OF _ ok] same
      by (cases "Transition digest env db i to ver p") auto
  next
    case (OpReorg env i key actor now)
    then show ?thesis using assms(1) Reorg_halted [OF _ ok h]
      by (cases "HandleDepositReorg digest env db i key actor now") auto
  next
    case (OpPost req)
    then show ?thesis using assms(1) Post_orders(5) [OF _ j] same by auto
  next
    case (OpReverse i a r at)
    then show ?thesis using assms(1) Reverse_orders(5) [OF _ j] same by auto
  next
    case (OpCreateOrder p)
    then obtain o' where "CreateOrder db p = Inr (db', o')" using assms(1) by auto
    from CreateOrder_Inr(1) [OF this] show ?thesis by (intro same) simp
  next
    case (OpSnapshot cfg p)
    then show ?thesis using assms(1) IngestSnapshot_halted h by auto
  next
    case (OpCreateAccount c t a)
    then show ?thesis using assms(1) CreateAccount_sys same by auto
  qed (use assms h in \<open>auto simp: RunOnce_same [OF ok]\<close>)
qed

section \<open>The contracts\<close>

interpretation journal_store: write_once "ledger_exec digest" ledger_ok entry_at for digest
proof
  fix opn db db'
  assume ok: "ledger_ok db" and e: "ledger_exec digest opn db = Inr db'"
  show "ledger_ok db'" by (rule ledger_exec_ok [OF ok e])
  fix k v
  assume "entry_at db k = Some v"
  moreover have "grows db db'" using ledger_body_grows [OF _ ok] e by (simp add: ledger_exec_body [OF ok])
  ultimately show "entry_at db' k = Some v" using grows_entry_at ok by (auto simp: ledger_ok_def)
qed

definition order_status :: "db \<Rightarrow> int \<Rightarrow> state option" where
  "order_status db i = map_option fst (order_map db i)"

definition order_edge :: "state \<Rightarrow> state \<Rightarrow> bool" where
  "order_edge s t \<longleftrightarrow> legal s t \<noteq> None"

lemma order_step_status:
  assumes "order_step m m'" and "map_option fst (m i) = Some s"
  shows "\<exists>t. map_option fst (m' i) = Some t \<and> (t = s \<or> order_edge s t)"
  using assms by (auto elim!: order_stepE simp: order_edge_def)

interpretation order_store: status_store "ledger_exec digest" ledger_ok order_status order_edge for digest
proof
  fix opn db db' k s
  assume ok: "ledger_ok db" and e: "ledger_exec digest opn db = Inr db'"
  show "\<exists>t. order_status db' k = Some t \<and> (t = s \<or> order_edge s t)" if "order_status db k = Some s"
    using order_step_status ledger_body_order_step [OF _ ok] e that
    unfolding ledger_exec_body [OF ok] order_status_def by blast
qed

text \<open>The ledgers that the service can be in.\<close>

abbreviation reached :: "(hash_payload \<Rightarrow> hash) \<Rightarrow> ledger_op list \<Rightarrow> db" where
  "reached digest ops \<equiv> run_ops (ledger_exec digest) ops empty_db"

lemma reached_ok: "ledger_ok (reached digest ops)"
  by (rule journal_store.run_inv [OF ledger_ok_empty])

end
