(* ===== verification/Ledger_Demo.thy ===== *)
theory Ledger_Demo
  imports Ledger
begin

text \<open>
  Concrete ledgers for the witnesses: each is written out as a table and shown to be the state the
  service reaches by a named sequence of operations.
\<close>

abbreviation (input) demo_account :: "int \<Rightarrow> string \<Rightarrow> account_type \<Rightarrow> asset \<Rightarrow> int \<Rightarrow> account" where
  "demo_account i c t a n \<equiv> \<lparr>acc_id = i, acc_code = c, acc_type = t, acc_asset = a, normal_side = n,
     is_active = True, opened_at = 1, acc_metadata = []\<rparr>"

abbreviation (input) demo_entry :: "int \<Rightarrow> string \<Rightarrow> string \<Rightarrow> entry_row" where
  "demo_entry i k t \<equiv> \<lparr>e_id = i, e_key = k, e_hash = t, e_type = t, e_order = Some 1, e_actor = ''w'',
     e_occurred_at = 5000, e_recorded_at = 1, e_reversal_of = None, e_metadata = []\<rparr>"

abbreviation (input) demo_line :: "int \<Rightarrow> int \<Rightarrow> int \<Rightarrow> asset \<Rightarrow> int \<Rightarrow> line_row" where
  "demo_line e n c a u \<equiv> \<lparr>l_entry = e, l_seq = n, l_account = c, l_asset = a, l_units = u\<rparr>"

abbreviation (input) demo_balance :: "int \<Rightarrow> asset \<Rightarrow> int \<Rightarrow> int \<Rightarrow> balance_row" where
  "demo_balance c a u e \<equiv> \<lparr>b_account = c, b_asset = a, b_units = u, b_last_entry = e, b_updated_at = 1\<rparr>"

abbreviation (input) demo_move :: "int \<Rightarrow> state \<Rightarrow> state \<Rightarrow> int option \<Rightarrow> transition_row" where
  "demo_move i f t e \<equiv> \<lparr>t_id = i, t_order = 1, t_from = f, t_to = t, t_entry = e, t_actor = ''w'',
     t_reason = ''r'', t_occurred_at = 5000, t_recorded_at = 1\<rparr>"

section \<open>Two accounts and one entry between them\<close>

definition demo_digest :: "hash_payload \<Rightarrow> hash" where
  "demo_digest p = hp_type p"

definition demo_post :: entry_request where
  "demo_post = \<lparr>IdempotencyKey = ''k'', EntryType = ''t'', Actor = ''x'', OccurredAt = 5000, OrderID = None,
     Lines = [Line ''a:1'' (Amount TRX 7), Line ''b:2'' (Amount TRX (-7))], Metadata = None\<rparr>"

definition demo_accounts :: db where
  "demo_accounts = empty_db\<lparr>accounts_seq := 2,
     accounts := [demo_account 1 ''a:1'' Asset TRX 1, demo_account 2 ''b:2'' Liability TRX (-1)]\<rparr>"

definition demo_posted :: "db \<times> entry" where
  "demo_posted =
     (demo_accounts\<lparr>entries_seq := 1,
        entries := [\<lparr>e_id = 1, e_key = ''k'', e_hash = ''t'', e_type = ''t'', e_order = None, e_actor = ''x'',
          e_occurred_at = 5000, e_recorded_at = 1, e_reversal_of = None, e_metadata = []\<rparr>],
        lines := [demo_line 1 0 1 TRX 7, demo_line 1 1 2 TRX (-7)],
        balances := [demo_balance 1 TRX 7 1, demo_balance 2 TRX (-7) 1]\<rparr>,
      \<lparr>e_id = 1, e_key = ''k'', e_hash = ''t'', e_type = ''t'', e_order = None, e_actor = ''x'',
       e_occurred_at = 5000, e_recorded_at = 1, e_reversal_of = None, e_metadata = [],
       e_lines = [\<lparr>Seq = 0, AccountID = 1, PostedCode = ''a:1'', PostedAmount = Amount TRX 7\<rparr>,
         \<lparr>Seq = 1, AccountID = 2, PostedCode = ''b:2'', PostedAmount = Amount TRX (-7)\<rparr>],
       e_outcome = Created\<rparr>)"

lemma demo_accounts_reached:
  "demo_accounts = reached demo_digest
    [OpCreateAccount ''a:1'' Asset TRX, OpCreateAccount ''b:2'' Liability TRX]"
  by code_simp

lemma ledger_okD: "ledger_ok db \<Longrightarrow> journal_ok db"
  by (simp add: ledger_ok_def)

lemma demo_accounts_ok: "journal_ok demo_accounts" "ledger_ok demo_accounts"
  unfolding demo_accounts_reached by (rule ledger_okD [OF reached_ok] reached_ok)+

lemma demo_post_result: "Post demo_digest demo_accounts demo_post = Inr (fst demo_posted, snd demo_posted)"
  by code_simp

lemma demo_posted_ok: "journal_ok (fst demo_posted)" "ledger_ok (fst demo_posted)"
  using Post_ok [OF demo_post_result demo_accounts_ok(1)]
    Post_ledger_ok [OF demo_post_result demo_accounts_ok(2)] by blast+

section \<open>An order: quoted, funded, dispatching, reorged\<close>

definition demo_env :: halt_env where
  "demo_env = \<lparr>he_cache = Some \<lparr>c_halted = False, c_updated_at = 0\<rparr>, he_now = 2000000000,
     he_upd = 2000000000, he_committed = False\<rparr>"

definition demo_order :: create_params where
  "demo_order = \<lparr>ExternalID = ''o1'', CustomerID = ''c'', Tier = Standard, AmountIn = Amount USDT_BEP20 100,
     AmountOut = Amount USDT_TRC20 98, FeeUnits = Amount USDT_TRC20 1, NetworkFeeUnits = Amount USDT_TRC20 1,
     RecipientAddress = ''r'', QuotedAt = 1000, QuoteExpiresAt = 2000\<rparr>"

definition demo_deposit :: entry_request where
  "demo_deposit = \<lparr>IdempotencyKey = ''dep'', EntryType = ''deposit_final'', Actor = ''w'', OccurredAt = 5000,
     OrderID = Some 1, Lines = [Line ''a:1'' (Amount USDT_BEP20 100), Line ''b:2'' (Amount USDT_BEP20 (-100))],
     Metadata = None\<rparr>"

definition demo_params :: "entry_request option \<Rightarrow> transition_params" where
  "demo_params e = \<lparr>tp_actor = ''w'', tp_reason = ''r'', tp_occurred_at = 5000, tp_entry = e,
     tp_entry_id = None, tp_sender = None\<rparr>"

definition demo_quoted_ops :: "ledger_op list" where
  "demo_quoted_ops = [OpCreateAccount ''a:1'' Asset USDT_BEP20, OpCreateAccount ''b:2'' Liability USDT_BEP20,
     OpCreateAccount ''expense:loss:reorg'' Expense USDT_TRC20,
     OpCreateAccount ''position:corridor:USDT_TRC20'' Position USDT_TRC20, OpCreateOrder demo_order]"

definition demo_order_row :: "state \<Rightarrow> int \<Rightarrow> order_row" where
  "demo_order_row s v = \<lparr>r_id = 1, r_external_id = ''o1'', r_customer_id = ''c'', r_tier = Standard, r_state = s,
     r_amount_in = 100, r_amount_out = 98, r_fee_units = 1, r_network_fee_units = 1, r_recipient = ''r'',
     r_sender = None, r_quoted_at = 1000, r_quote_expires_at = 2000, r_version = v, r_created_at = 1,
     r_updated_at = 1, r_direction = None\<rparr>"

definition demo_quoted :: db where
  "demo_quoted = empty_db\<lparr>accounts_seq := 4,
     accounts := [demo_account 1 ''a:1'' Asset USDT_BEP20 1, demo_account 2 ''b:2'' Liability USDT_BEP20 (-1),
       demo_account 3 ''expense:loss:reorg'' Expense USDT_TRC20 1,
       demo_account 4 ''position:corridor:USDT_TRC20'' Position USDT_TRC20 0],
     orders_seq := 1, orders := [demo_order_row Quoted 0]\<rparr>"

definition demo_funded :: db where
  "demo_funded = demo_quoted\<lparr>entries_seq := 1, entries := [demo_entry 1 ''dep'' ''deposit_final''],
     lines := [demo_line 1 0 1 USDT_BEP20 100, demo_line 1 1 2 USDT_BEP20 (-100)],
     balances := [demo_balance 1 USDT_BEP20 100 1, demo_balance 2 USDT_BEP20 (-100) 1],
     orders := [demo_order_row Funded 1],
     transitions_seq := 1, transitions := [demo_move 1 Quoted Funded (Some 1)]\<rparr>"

definition demo_dispatch :: entry_request where
  "demo_dispatch = demo_deposit\<lparr>IdempotencyKey := ''conv'', EntryType := ''conversion'',
     Lines := [Line ''a:1'' (Amount USDT_BEP20 (-1)), Line ''b:2'' (Amount USDT_BEP20 1)]\<rparr>"

definition demo_dispatching :: db where
  "demo_dispatching = demo_funded\<lparr>entries_seq := 2,
     entries := [demo_entry 1 ''dep'' ''deposit_final'', demo_entry 2 ''conv'' ''conversion''],
     lines := lines demo_funded @ [demo_line 2 0 1 USDT_BEP20 (-1), demo_line 2 1 2 USDT_BEP20 1],
     balances := [demo_balance 1 USDT_BEP20 99 2, demo_balance 2 USDT_BEP20 (-99) 2],
     orders := [demo_order_row Dispatching 3],
     transitions_seq := 3, transitions := [demo_move 1 Quoted Funded (Some 1), demo_move 2 Funded Screened None,
       demo_move 3 Screened Dispatching (Some 2)]\<rparr>"

definition demo_reorged :: db where
  "demo_reorged = demo_funded\<lparr>entries_seq := 2,
     entries := [demo_entry 1 ''dep'' ''deposit_final'',
       (demo_entry 2 ''ledger:reverse:dep'' ''reversal'')\<lparr>e_occurred_at := 0, e_reversal_of := Some 1,
         e_metadata := [(''reversal_of_idempotency_key'', ''dep''), (''reason'', ''deposit reorged out before dispatch'')]\<rparr>],
     lines := lines demo_funded @ [demo_line 2 0 1 USDT_BEP20 (-100), demo_line 2 1 2 USDT_BEP20 100],
     balances := [demo_balance 1 USDT_BEP20 0 2, demo_balance 2 USDT_BEP20 0 2],
     orders := [demo_order_row Quoted 2],
     transitions_seq := 2, transitions := [demo_move 1 Quoted Funded (Some 1),
       (demo_move 2 Funded Quoted (Some 2))\<lparr>t_reason := ''deposit reorged out before dispatch'', t_occurred_at := 0\<rparr>]\<rparr>"

lemma demo_quoted_reached: "demo_quoted = reached demo_digest demo_quoted_ops"
  by code_simp

text \<open>One more operation on a reached ledger.\<close>

lemma reached_snoc:
  "ledger_exec digest opn (reached digest ops) = Inr db \<Longrightarrow> db = reached digest (ops @ [opn])"
  by (simp add: run_ops_def commit_op_def)

lemma demo_funded_step:
  "ledger_exec demo_digest (OpTransition demo_env 1 Funded 0 (demo_params (Some demo_deposit))) demo_quoted = Inr demo_funded"
  by code_simp

lemma demo_funded_reached:
  "demo_funded = reached demo_digest
     (demo_quoted_ops @ [OpTransition demo_env 1 Funded 0 (demo_params (Some demo_deposit))])"
  using demo_funded_step unfolding demo_quoted_reached by (rule reached_snoc)

lemma demo_reorged_step:
  "ledger_exec demo_digest (OpReorg demo_env 1 ''dep'' ''w'' 9) demo_funded = Inr demo_reorged"
  by code_simp

lemma demo_dispatching_steps:
  "run_ops (ledger_exec demo_digest) [OpTransition demo_env 1 Screened 1 (demo_params None),
     OpTransition demo_env 1 Dispatching 2 (demo_params (Some demo_dispatch))] demo_funded = demo_dispatching"
  by code_simp

lemma demo_orders_ok: "ledger_ok demo_quoted" "ledger_ok demo_funded" "ledger_ok demo_dispatching" "ledger_ok demo_reorged"
proof -
  show q: "ledger_ok demo_quoted" unfolding demo_quoted_reached by (rule reached_ok)
  show f: "ledger_ok demo_funded" using q demo_funded_step by (rule ledger_exec_ok)
  show "ledger_ok demo_dispatching" unfolding demo_dispatching_steps [symmetric] by (rule journal_store.run_inv [OF f])
  show "ledger_ok demo_reorged" using f demo_reorged_step by (rule ledger_exec_ok)
qed

section \<open>A relay order\<close>

definition demo_relay_order :: create_params where
  "demo_relay_order = demo_order\<lparr>Tier := Relay, AmountIn := Amount USDT_TRC20 100,
     AmountOut := Amount USDT_BEP20 98\<rparr>"

definition demo_relay :: db where
  "demo_relay = empty_db\<lparr>accounts_seq := 3,
     accounts := [demo_account 1 ''a:1'' Asset USDT_TRC20 1, demo_account 2 ''b:2'' Liability USDT_TRC20 (-1),
       demo_account 3 ''expense:loss:reorg'' Expense USDT_TRC20 1],
     entries_seq := 2, entries := [demo_entry 1 ''dep'' ''deposit_final'', demo_entry 2 ''conv'' ''conversion''],
     lines := [demo_line 1 0 1 USDT_TRC20 100, demo_line 1 1 2 USDT_TRC20 (-100),
       demo_line 2 0 1 USDT_TRC20 (-1), demo_line 2 1 2 USDT_TRC20 1],
     balances := [demo_balance 1 USDT_TRC20 99 2, demo_balance 2 USDT_TRC20 (-99) 2],
     orders_seq := 1, orders := [(demo_order_row Dispatching 3)\<lparr>r_tier := Relay, r_direction := Some TRC20_TO_BEP20\<rparr>],
     transitions_seq := 3, transitions := [demo_move 1 Quoted Funded (Some 1), demo_move 2 Funded Screened None,
       demo_move 3 Screened Dispatching (Some 2)]\<rparr>"

lemma demo_relay_reached:
  "demo_relay = reached demo_digest
     [OpCreateAccount ''a:1'' Asset USDT_TRC20, OpCreateAccount ''b:2'' Liability USDT_TRC20,
      OpCreateAccount ''expense:loss:reorg'' Expense USDT_TRC20, OpCreateOrder demo_relay_order,
      OpTransition demo_env 1 Funded 0 (demo_params (Some
        (demo_deposit\<lparr>Lines := [Line ''a:1'' (Amount USDT_TRC20 100), Line ''b:2'' (Amount USDT_TRC20 (-100))]\<rparr>))),
      OpTransition demo_env 1 Screened 1 (demo_params None),
      OpTransition demo_env 1 Dispatching 2 (demo_params (Some
        (demo_dispatch\<lparr>Lines := [Line ''a:1'' (Amount USDT_TRC20 (-1)), Line ''b:2'' (Amount USDT_TRC20 1)]\<rparr>)))]"
  by code_simp

lemma demo_relay_ok: "ledger_ok demo_relay"
  unfolding demo_relay_reached by (rule reached_ok)

end
