(* ===== verification/Ledger_Props.thy ===== *)
theory Ledger_Props
  imports Ledger_Demo
begin

text \<open>
  The properties of the ledger, each stated over the model of its code, with concrete runs of
  the service as witnesses.
\<close>

section \<open>The journal\<close>

text \<open>C1: in every state the service can reach, by whatever sequence of its operations, the trial
  balance is zero in every asset and the balance cache agrees with the sum of the lines for
  every account (\<open>VerifyBalances\<close> reports nothing).\<close>

theorem books_always_balance:
  "TrialBalance (reached digest ops) = Inr (map (\<lambda>a. (a, 0)) (remdups (map l_asset (lines (reached digest ops))))) \<and>
   VerifyBalances (reached digest ops) = Inr []"
proof -
  have "journal_ok (reached digest ops)" using reached_ok by (simp add: ledger_ok_def)
  then show ?thesis by (simp add: TrialBalance_ok VerifyBalances_ok)
qed

text \<open>The deferred balance trigger is never what stops an operation: in every reachable state the
  transaction commits exactly when the operation's own checks succeed.\<close>

theorem trigger_never_fires:
  "ledger_exec digest opn (reached digest ops) = ledger_body digest opn (reached digest ops)"
  by (rule ledger_exec_body [OF reached_ok])

text \<open>C24: an entry of the journal, once posted, reads back with the same row and the same lines
  after any sequence of operations: nothing edits or removes it.\<close>

theorem journal_immutable:
  assumes "entry_at (reached digest ops) key = Some v"
  shows "entry_at (run_ops (ledger_exec digest) later (reached digest ops)) key = Some v"
  using assms by (rule journal_store.run_keeps [OF reached_ok])

theorem journal_immutable_witness:
  "entry_at (run_ops (ledger_exec demo_digest) [OpSeed, OpReverse 1 ''x'' ''y'' 9]
       (reached demo_digest [OpCreateAccount ''a:1'' Asset TRX, OpCreateAccount ''b:2'' Liability TRX, OpPost demo_post])) ''k'' =
   entry_at (reached demo_digest [OpCreateAccount ''a:1'' Asset TRX, OpCreateAccount ''b:2'' Liability TRX, OpPost demo_post]) ''k''"
proof -
  have "entry_at (reached demo_digest
      [OpCreateAccount ''a:1'' Asset TRX, OpCreateAccount ''b:2'' Liability TRX, OpPost demo_post]) ''k'' \<noteq> None"
    by code_simp
  then obtain v where v: "entry_at (reached demo_digest
      [OpCreateAccount ''a:1'' Asset TRX, OpCreateAccount ''b:2'' Liability TRX, OpPost demo_post]) ''k'' = Some v"
    by blast
  show ?thesis using journal_immutable [OF v] v by simp
qed

text \<open>C27: a successful \<open>Post\<close> under a new key moves the cached balance of every account by exactly
  what the lines of the request say for it, and a replayed one moves nothing.\<close>

theorem Post_moves_balances:
  assumes "Post digest db req = Inr (db', e)" and "journal_ok db"
  shows "cached_units db' i =
    cached_units db i + (if e_outcome e = Created then requested db req i else 0)"
  using assms by (rule Post_balances)

theorem Post_moves_balances_witness:
  "cached_units (fst demo_posted) 1 = 7 \<and> cached_units (fst demo_posted) 2 = -7"
proof -
  have c: "e_outcome (snd demo_posted) = Created" "cached_units demo_accounts 1 = 0" "cached_units demo_accounts 2 = 0"
    "requested demo_accounts demo_post 1 = 7" "requested demo_accounts demo_post 2 = -7" by code_simp+
  show ?thesis
    using Post_moves_balances [OF demo_post_result demo_accounts_ok(1), of 1]
      Post_moves_balances [OF demo_post_result demo_accounts_ok(1), of 2] c by simp
qed

text \<open>C25: posting again under the same key with the same payload -- the lines in any order, another
  actor, another time of the same microsecond -- returns the first entry as \<open>Replayed\<close> and
  changes no table.\<close>

theorem Post_idempotent:
  assumes "Post digest db req = Inr (db', e)" and "journal_ok db"
    and "IdempotencyKey req' = IdempotencyKey req" and "mset (Lines req') = mset (Lines req)"
    and "EntryType req' = EntryType req" and "OrderID req' = OrderID req"
    and "OccurredAt req' div 1000 = OccurredAt req div 1000" and "is_ok (validate db req')"
  shows "Post digest db' req' =
    Inr (db'\<lparr>entries_seq := entries_seq db' + 1\<rparr>, e\<lparr>e_outcome := Replayed\<rparr>)"
  using Post_again [OF assms(1-3) canonical_payload_perm [OF assms(4-7)] assms(8)] .

theorem Post_idempotent_witness:
  "Post demo_digest (fst demo_posted) (demo_post\<lparr>Lines := rev (Lines demo_post), Actor := ''z'', OccurredAt := 5001\<rparr>) =
   Inr ((fst demo_posted)\<lparr>entries_seq := entries_seq (fst demo_posted) + 1\<rparr>, (snd demo_posted)\<lparr>e_outcome := Replayed\<rparr>)"
proof -
  have "is_ok (validate demo_accounts (demo_post\<lparr>Lines := rev (Lines demo_post), Actor := ''z'', OccurredAt := 5001\<rparr>))"
    by code_simp
  then show ?thesis
    by (intro Post_idempotent [OF demo_post_result demo_accounts_ok(1)]) (simp_all add: demo_post_def)
qed

text \<open>A key that is already used with another payload is refused with
  \<open>ErrIdempotencyConflict\<close>, whenever the digest tells the two payloads apart.\<close>

theorem Post_key_conflict:
  assumes "journal_ok db" and "GetEntryByIdempotencyKey db (IdempotencyKey req) = Inr old"
    and "is_ok (validate db req)" and "e_hash old = canonicalHash digest req0"
    and "canonical_payload req \<noteq> canonical_payload req0"
    and inj: "digest (canonical_payload req) = digest (canonical_payload req0) \<longrightarrow> canonical_payload req = canonical_payload req0"
  shows "Post digest db req = Inl ErrIdempotencyConflict"
proof -
  obtain row where row: "row \<in> set (entries db)" "e_key row = IdempotencyKey req" "old = scanEntry row"
    using GetEntry_row [OF assms(2)] by metis
  have "e_hash row = canonicalHash digest req0"
    using assms(4) by (simp add: row(3) scanEntry_def entry_row.extend_def)
  then have "e_hash row \<noteq> canonicalHash digest req" using assms(5) inj by (auto simp: canonicalHash_def)
  then show ?thesis using Post_conflict [OF assms(1) row(1) row(2) [symmetric] assms(3)] by simp
qed

theorem Post_key_conflict_witness:
  "Post demo_digest (fst demo_posted) (demo_post\<lparr>EntryType := ''u''\<rparr>) = Inl ErrIdempotencyConflict"
proof -
  let ?req = "demo_post\<lparr>EntryType := ''u''\<rparr>"
  have "is_ok (GetEntryByIdempotencyKey (fst demo_posted) (IdempotencyKey ?req))" by code_simp
  then obtain old where o: "GetEntryByIdempotencyKey (fst demo_posted) (IdempotencyKey ?req) = Inr old"
    by (auto simp: is_ok_iff)
  have "e_hash (projr (GetEntryByIdempotencyKey (fst demo_posted) (IdempotencyKey ?req))) = canonicalHash demo_digest demo_post"
    by code_simp
  then have h: "e_hash old = canonicalHash demo_digest demo_post" by (simp only: o sum.sel)
  have v: "is_ok (validate (fst demo_posted) ?req)" by code_simp
  have d: "digest_differs \<longleftrightarrow> hp_type (canonical_payload ?req) \<noteq> hp_type (canonical_payload demo_post)"
    if "digest_differs = True" for digest_differs
    using that by (simp add: canonical_payload_def demo_post_def)
  then have ne: "canonical_payload ?req \<noteq> canonical_payload demo_post" by auto
  have inj: "demo_digest (canonical_payload ?req) = demo_digest (canonical_payload demo_post) \<longrightarrow>
    canonical_payload ?req = canonical_payload demo_post"
    using d by (simp add: demo_digest_def)
  show ?thesis by (rule Post_key_conflict [OF demo_posted_ok(1) o v h ne inj])
qed

text \<open>\<open>Post\<close> succeeds only on a request with a key of 1 to 255 bytes and 2 to 32767 lines, every
  line non-zero and in the asset of its account, that sums to zero in every asset.\<close>

theorem Post_accepts_only:
  assumes "Post digest db req = Inr (db', e)"
  shows "IdempotencyKey req \<noteq> '''' \<and> length (IdempotencyKey req) \<le> 255 \<and>
    2 \<le> length (Lines req) \<and> length (Lines req) \<le> 32767 \<and> asset_sum a (Lines req) = 0 \<and>
    list_all (\<lambda>l. amt_units (LineAmount l) \<noteq> 0 \<and>
      (case GetByCode db (AccountCode l) of Inl _ \<Rightarrow> False | Inr acc \<Rightarrow> acc_asset acc = amt_asset (LineAmount l)))
      (Lines req)"
proof -
  obtain rs where v: "validate db req = Inr rs" using assms by (auto simp: Post_def)
  have "resolves db i (Lines req ! i) (rs ! i)" if "i < length (Lines req)" for i
    using validate_Inr(4,5) [OF v] that by simp
  then have "list_all (\<lambda>l. amt_units (LineAmount l) \<noteq> 0 \<and>
      (case GetByCode db (AccountCode l) of Inl _ \<Rightarrow> False | Inr acc \<Rightarrow> acc_asset acc = amt_asset (LineAmount l)))
      (Lines req)"
    by (auto simp: list_all_length resolves_def)
  then show ?thesis
    using validate_Inr(1-3,6) [OF v]
    by (auto simp: validateIdempotencyKey_def maxIdempotencyKeyLen_def maxLines_def split: if_splits)
qed

theorem Post_accepts_only_witness:
  "asset_sum TRX (Lines demo_post) = 0 \<and> \<not> is_ok (Post demo_digest demo_accounts (demo_post\<lparr>Lines := []\<rparr>))"
proof -
  have "\<not> is_ok (Post demo_digest demo_accounts (demo_post\<lparr>Lines := []\<rparr>))" by code_simp
  then show ?thesis using Post_accepts_only [OF demo_post_result, of TRX] by blast
qed

section \<open>Reversals\<close>

text \<open>C28: a reversal leaves every cached balance as it was without the original entry: the new entry
  moves on every account exactly the opposite of what the original moved.\<close>

theorem Reverse_undoes:
  assumes "Reverse digest db eid actor reason at = Inr (db', e)" and "journal_ok db"
  shows "cached_units db' i = cached_units db i - net db eid i"
  using assms by (rule Reverse_restores)

theorem Reverse_undoes_witness:
  "cached_units (fst (projr (Reverse demo_digest (fst demo_posted) 1 ''x'' ''y'' 9))) 1 = 0"
proof -
  have ok: "is_ok (Reverse demo_digest (fst demo_posted) 1 ''x'' ''y'' 9)" by code_simp
  have c: "cached_units (fst demo_posted) 1 = 7" "net (fst demo_posted) 1 1 = 7" by code_simp+
  obtain db' e where r: "Reverse demo_digest (fst demo_posted) 1 ''x'' ''y'' 9 = Inr (db', e)"
    using ok by (auto simp: is_ok_iff)
  then show ?thesis using Reverse_undoes [OF r demo_posted_ok(1), of 1] c by simp
qed

text \<open>C29: an entry is reversed at most once, and a reversal never: after a successful \<open>Reverse\<close>,
  reversing the same entry again fails with \<open>ErrAlreadyReversed\<close> and reversing the reversal fails
  with \<open>ErrCannotReverseAReversal\<close>, for any actor, reason and time.\<close>

theorem Reverse_at_most_once:
  assumes "Reverse digest db eid actor reason at = Inr (db', e)" and "journal_ok db"
    and "actor' \<noteq> ''''" and "reason' \<noteq> ''''" and "at' \<noteq> 0"
  shows "Reverse digest db' eid actor' reason' at' = Inl ErrAlreadyReversed \<and>
    Reverse digest db' (e_id e) actor' reason' at' = Inl ErrCannotReverseAReversal"
  using Reverse_twice [OF assms] Reverse_reversal [OF assms] by blast

theorem Reverse_at_most_once_witness:
  "Reverse demo_digest (fst (projr (Reverse demo_digest (fst demo_posted) 1 ''x'' ''y'' 9))) 1 ''z'' ''w'' 10 =
   Inl ErrAlreadyReversed"
proof -
  have ok: "is_ok (Reverse demo_digest (fst demo_posted) 1 ''x'' ''y'' 9)" by code_simp
  obtain db' e where r: "Reverse demo_digest (fst demo_posted) 1 ''x'' ''y'' 9 = Inr (db', e)"
    using ok by (auto simp: is_ok_iff)
  then show ?thesis using Reverse_at_most_once [OF r demo_posted_ok(1), of "''z''" "''w''" 10] by simp
qed

section \<open>Orders\<close>

text \<open>C26: the orders of the ledger refine the abstract state machine \<open>order_step\<close>: whatever operation
  succeeds in a reachable state, the map from order ids to states and versions changes by creating
  an order in \<open>Quoted\<close> with version 0, by moving one order along the transition table with its
  version one higher, or not at all.\<close>

theorem orders_refine:
  assumes "ledger_exec digest opn (reached digest ops) = Inr db'"
  shows "order_step (order_map (reached digest ops)) (order_map db')"
  using assms ledger_body_order_step [OF _ reached_ok] by (simp add: ledger_exec_body [OF reached_ok])

theorem orders_refine_witness:
  "order_step (order_map (reached demo_digest demo_quoted_ops)) (order_map demo_funded)"
  using demo_funded_step unfolding demo_quoted_reached by (rule orders_refine)

text \<open>In every reachable state, every order's version is the number of transitions logged for it,
  and those transitions are a legal run of the table from \<open>Quoted\<close> to its state in which exactly
  the pairs that require an entry name one.\<close>

theorem order_log_is_a_run:
  "list_all (\<lambda>r. r_version r = int (length (history (reached digest ops) (r_id r))) \<and>
      path Quoted (history (reached digest ops) (r_id r)) (r_state r)) (orders (reached digest ops))"
  using reached_ok by (simp add: ledger_ok_def history_ok_def list_all_iff)

text \<open>A settled, refunded or expired order stays in that state whatever operations follow.\<close>

theorem terminal_states_final:
  assumes "order_status (reached digest ops) i = Some s" and "Terminal s"
  shows "order_status (run_ops (ledger_exec digest) later (reached digest ops)) i = Some s"
  using assms by (intro order_store.run_final [OF reached_ok]) (simp_all add: order_edge_def Terminal_no_move)

theorem terminal_states_final_witness:
  "order_status (run_ops (ledger_exec demo_digest) [OpTransition demo_env 1 Funded 1 (demo_params (Some demo_deposit))]
     (reached demo_digest (demo_quoted_ops @ [OpTransition demo_env 1 Expired 0 (demo_params None)]))) 1 = Some Expired"
proof -
  have "order_status (reached demo_digest (demo_quoted_ops @ [OpTransition demo_env 1 Expired 0 (demo_params None)])) 1 = Some Expired"
    by code_simp
  then show ?thesis by (rule terminal_states_final) simp
qed

text \<open>C31: while the ledger is halted, no transition of a pair the table marks \<open>HaltBlocked\<close> succeeds,
  whatever the in-memory cache holds.\<close>

theorem halt_blocks_money:
  assumes "IsHalted db" and "ledger_ok db" and "order_map db i = Some (s, v)"
    and "legal s to = Some r" and "HaltBlocked r"
  shows "\<not> is_ok (snd (Transition digest env db i to ver p))"
  using assms by (rule Transition_halted)

theorem halt_blocks_money_witness:
  "\<not> is_ok (snd (Transition demo_digest demo_env
     (SetHalt demo_dispatching \<lparr>sp_reason = ''x'', sp_detail = [], sp_actor = ''y''\<rparr>) 1 Settled 3 (demo_params (Some demo_dispatch))))"
proof (rule halt_blocks_money)
  show "order_map (SetHalt demo_dispatching \<lparr>sp_reason = ''x'', sp_detail = [], sp_actor = ''y''\<rparr>) 1 = Some (Dispatching, 3)"
    by code_simp
  show "legal Dispatching Settled = Some (Rule True True)" by code_simp
qed (simp_all add: SetHalt_ledger_ok demo_orders_ok)

text \<open>C32: a legal move that requires an entry succeeds as soon as its parameters are well-formed, its
  entry posts, and the halt gate is open where the pair has one -- so the pairs that are not
  \<open>HaltBlocked\<close>, the recording of a deposit among them, work while the ledger is halted. The order
  is then in the new state and the transition is logged with the entry.\<close>

theorem transition_goes_through:
  assumes "ledger_ok db" and "GetOrder db i = Inr ord" and "o_version ord + 1 < 2 ^ 31"
    and "legal (o_state ord) to = Some r" and "RequiresEntry r"
    and "HaltBlocked r \<longrightarrow> snd (halt_gate env db) = Inr ()"
    and "transition_validate p = Inr ()" and "tp_entry p = Some req" and "tp_entry_id p = None"
    and "tp_sender p = None \<or> to = Funded"
    and "Post digest db req = Inr (db1, e)"
  shows "\<exists>env' o'. Transition digest env db i to (o_version ord) p =
      (env', Inr (moved_db db1 i (o_state ord) to (o_version ord) (Some (e_id e)) p, o')) \<and> o_state o' = to"
  using assms(6) by (intro Transition_succeeds [OF assms(1-5) _ assms(7-11)]) blast

theorem transition_goes_through_witness:
  "is_ok (snd (Transition demo_digest demo_env
     (SetHalt demo_quoted \<lparr>sp_reason = ''x'', sp_detail = [], sp_actor = ''y''\<rparr>)
     1 Funded 0 (demo_params (Some demo_deposit))))"
proof -
  let ?db = "SetHalt demo_quoted \<lparr>sp_reason = ''x'', sp_detail = [], sp_actor = ''y''\<rparr>"
  have "is_ok (GetOrder ?db 1)" "is_ok (Post demo_digest ?db demo_deposit)"
    "map_sum id (\<lambda>o'. (o_version o', o_state o')) (GetOrder ?db 1) = Inr (0, Quoted)" by code_simp+
  then obtain ord db1 e where g: "GetOrder ?db 1 = Inr ord" "Post demo_digest ?db demo_deposit = Inr (db1, e)"
    "o_version ord = 0" "o_state ord = Quoted" by (auto simp: is_ok_iff)
  have l: "legal (o_state ord) Funded = Some (Rule True False)" by (simp add: g(4) legal_def transitionTable_def)
  show ?thesis
    using transition_goes_through [OF SetHalt_ledger_ok [OF demo_orders_ok(1)] g(1) _ l _ _ _ _ _ _ g(2), where p = "demo_params (Some demo_deposit)" and env = demo_env]
    by (auto simp: g(3,4) demo_params_def transition_validate_def)
qed

text \<open>A halt ends only by an operator's \<open>Clear\<close> that names an actor and a note: no other
  operation of the ledger takes the flag away.\<close>

theorem only_operator_clears:
  assumes "ledger_exec digest opn (reached digest ops) = Inr db'"
    and "IsHalted (reached digest ops)" and "\<not> IsHalted db'"
  shows "\<exists>p. opn = OpClearHalt p \<and> cp_actor p \<noteq> '''' \<and> cp_note p \<noteq> ''''"
proof -
  have b: "ledger_body digest opn (reached digest ops) = Inr db'"
    using assms(1) by (simp add: ledger_exec_body [OF reached_ok])
  show ?thesis
  proof (rule ccontr)
    assume "\<not> ?thesis"
    then have "\<forall>p. opn \<noteq> OpClearHalt p" using b ClearHalt_Inr by fastforce
    then show False using ledger_body_halted [OF b reached_ok assms(2)] assms(3) by blast
  qed
qed

theorem only_operator_clears_witness:
  "\<exists>p. OpClearHalt \<lparr>cp_actor = ''op'', cp_note = ''n''\<rparr> = OpClearHalt p \<and> cp_actor p \<noteq> '''' \<and> cp_note p \<noteq> ''''"
proof -
  let ?ops = "[OpSetHalt \<lparr>sp_reason = ''x'', sp_detail = [], sp_actor = ''y''\<rparr>]"
  let ?o = "OpClearHalt \<lparr>cp_actor = ''op'', cp_note = ''n''\<rparr>"
  have c: "is_ok (ledger_exec demo_digest ?o (reached demo_digest ?ops))" "IsHalted (reached demo_digest ?ops)"
    "\<not> IsHalted (projr (ledger_exec demo_digest ?o (reached demo_digest ?ops)))" by code_simp+
  from c(1) obtain db' where e: "ledger_exec demo_digest ?o (reached demo_digest ?ops) = Inr db'"
    by (auto simp: is_ok_iff)
  from c(3) have n: "\<not> IsHalted db'" unfolding e by simp
  show ?thesis by (rule only_operator_clears [OF e c(2) n])
qed

section \<open>Reorged deposits\<close>

text \<open>C33: a reorg reported for a funded order (scenario A) reverses the deposit and returns the order
  to \<open>Quoted\<close> with the next version: every balance is what it was without the deposit entry, and
  the halt state does not move. A second report of the same reorg succeeds and changes nothing.\<close>

theorem reorg_before_dispatch:
  assumes "HandleDepositReorg digest env db i key actor now = (env', Inr (db', o'))"
    and "ledger_ok db" and "GetOrder db i = Inr ord" and "o_state ord = Funded"
    and "GetEntryByIdempotencyKey db key = Inr original"
  shows "cached_units db' a = cached_units db a - net db (e_id original) a \<and>
    order_map db' = (order_map db)(i \<mapsto> (Quoted, o_version ord + 1)) \<and> sys db' = sys db \<and>
    HandleDepositReorg digest env2 db' i key actor2 now2 = (env2, Inr (db', o'))"
  using reorg_A_effect(1-3) [OF assms] reorg_A_redelivered [OF assms(1-4)] by blast

theorem reorg_before_dispatch_witness:
  "cached_units (fst (projr (snd (HandleDepositReorg demo_digest demo_env demo_funded 1 ''dep'' ''w'' 9)))) 1 = 0"
proof -
  have c: "is_ok (snd (HandleDepositReorg demo_digest demo_env demo_funded 1 ''dep'' ''w'' 9))"
    "is_ok (GetOrder demo_funded 1)" "map_sum id o_state (GetOrder demo_funded 1) = Inr Funded"
    "is_ok (GetEntryByIdempotencyKey demo_funded ''dep'')"
    "map_sum id (\<lambda>e. net demo_funded (e_id e) 1) (GetEntryByIdempotencyKey demo_funded ''dep'') = Inr 100"
    "cached_units demo_funded 1 = 100" by code_simp+
  obtain env' db' o' where h: "HandleDepositReorg demo_digest demo_env demo_funded 1 ''dep'' ''w'' 9 = (env', Inr (db', o'))"
    using c(1) by (cases "HandleDepositReorg demo_digest demo_env demo_funded 1 ''dep'' ''w'' 9") (auto simp: is_ok_iff)
  obtain ord where g: "GetOrder demo_funded 1 = Inr ord" "o_state ord = Funded" using c(2,3) by (auto simp: is_ok_iff)
  obtain original where e: "GetEntryByIdempotencyKey demo_funded ''dep'' = Inr original"
    "net demo_funded (e_id original) 1 = 100" using c(4,5) by (auto simp: is_ok_iff)
  show ?thesis
    using reorg_before_dispatch [OF h demo_orders_ok(2) g e(1), of 1] e(2) c(6) h by simp
qed

text \<open>A reorg reported for a dispatching or settled order (scenario B) leaves the order as it is,
  reverses the deposit, books \<open>amount_out\<close> as a loss against the corridor and halts the ledger with
  \<open>POST_SETTLEMENT_REORG\<close>.\<close>

theorem reorg_after_dispatch:
  assumes "HandleDepositReorg digest env db i key actor now = (env', Inr (db', o'))"
    and "ledger_ok db" and "GetOrder db i = Inr ord" and "o_state ord = Dispatching \<or> o_state ord = Settled"
    and "GetEntryByIdempotencyKey db key = Inr original"
    and "list_all (\<lambda>x. e_key x \<noteq> IdempotencyKey (loss_request ord actor now)) (entries db)"
    and "IdempotencyKey (loss_request ord actor now) \<noteq> reverse_key key"
  shows "orders db' = orders db \<and> IsHalted db' \<and> Reason db' = ReasonPostSettlementReorg \<and>
    cached_units db' a =
      cached_units db a - net db (e_id original) a + requested db (loss_request ord actor now) a"
  using reorg_B_effect(1-3,6) [OF assms(1-5)] assms(6,7) by (simp add: list_all_iff)

theorem reorg_after_dispatch_witness:
  "IsHalted (fst (projr (snd (HandleDepositReorg demo_digest demo_env demo_dispatching 1 ''dep'' ''w'' 9)))) \<and>
   cached_units (fst (projr (snd (HandleDepositReorg demo_digest demo_env demo_dispatching 1 ''dep'' ''w'' 9)))) 3 = 98"
proof -
  have c: "is_ok (snd (HandleDepositReorg demo_digest demo_env demo_dispatching 1 ''dep'' ''w'' 9))"
    "is_ok (GetOrder demo_dispatching 1)" "map_sum id o_state (GetOrder demo_dispatching 1) = Inr Dispatching"
    "is_ok (GetEntryByIdempotencyKey demo_dispatching ''dep'')"
    "map_sum id (\<lambda>e. net demo_dispatching (e_id e) 3) (GetEntryByIdempotencyKey demo_dispatching ''dep'') = Inr 0"
    "map_sum id (\<lambda>ord. (requested demo_dispatching (loss_request ord ''w'' 9) 3,
       list_all (\<lambda>x. e_key x \<noteq> IdempotencyKey (loss_request ord ''w'' 9)) (entries demo_dispatching),
       IdempotencyKey (loss_request ord ''w'' 9) \<noteq> reverse_key ''dep'')) (GetOrder demo_dispatching 1) = Inr (98, True, True)"
    "cached_units demo_dispatching 3 = 0" by code_simp+
  obtain env' db' o' where h: "HandleDepositReorg demo_digest demo_env demo_dispatching 1 ''dep'' ''w'' 9 = (env', Inr (db', o'))"
    using c(1) by (cases "HandleDepositReorg demo_digest demo_env demo_dispatching 1 ''dep'' ''w'' 9") (auto simp: is_ok_iff)
  obtain ord where g: "GetOrder demo_dispatching 1 = Inr ord" "o_state ord = Dispatching \<or> o_state ord = Settled"
    using c(2,3) by (auto simp: is_ok_iff)
  obtain original where e: "GetEntryByIdempotencyKey demo_dispatching ''dep'' = Inr original"
    "net demo_dispatching (e_id original) 3 = 0" using c(4,5) by (auto simp: is_ok_iff)
  have l: "list_all (\<lambda>x. e_key x \<noteq> IdempotencyKey (loss_request ord ''w'' 9)) (entries demo_dispatching)"
    "IdempotencyKey (loss_request ord ''w'' 9) \<noteq> reverse_key ''dep''"
    "requested demo_dispatching (loss_request ord ''w'' 9) 3 = 98" using c(6) g(1) by simp_all
  show ?thesis
    using reorg_after_dispatch [OF h demo_orders_ok(3) g e(1) l(1,2), of 3] e(2) c(7) l(3) h by simp
qed

text \<open>Scenario B is not repeatable: after it succeeded, any later report of the same reorg fails
  with \<open>ErrAlreadyReversed\<close> (the deterministic key of the loss entry is never reached).\<close>

theorem reorg_after_dispatch_once:
  assumes "HandleDepositReorg digest env db i key actor now = (env', Inr (db', o'))"
    and "ledger_ok db" and "GetOrder db i = Inr ord" and "o_state ord = Dispatching \<or> o_state ord = Settled"
    and "actor2 \<noteq> ''''" and "now2 \<noteq> 0"
  shows "HandleDepositReorg digest env2 db' i key actor2 now2 = (env2, Inl ErrAlreadyReversed)"
  using assms by (rule reorg_B_again)

theorem reorg_after_dispatch_once_witness:
  "HandleDepositReorg demo_digest demo_env
     (fst (projr (snd (HandleDepositReorg demo_digest demo_env demo_dispatching 1 ''dep'' ''w'' 9)))) 1 ''dep'' ''w'' 10 =
   (demo_env, Inl ErrAlreadyReversed)"
proof -
  have c: "is_ok (snd (HandleDepositReorg demo_digest demo_env demo_dispatching 1 ''dep'' ''w'' 9))"
    "is_ok (GetOrder demo_dispatching 1)" "map_sum id o_state (GetOrder demo_dispatching 1) = Inr Dispatching"
    by code_simp+
  obtain env' db' o' where h: "HandleDepositReorg demo_digest demo_env demo_dispatching 1 ''dep'' ''w'' 9 = (env', Inr (db', o'))"
    using c(1) by (cases "HandleDepositReorg demo_digest demo_env demo_dispatching 1 ''dep'' ''w'' 9") (auto simp: is_ok_iff)
  obtain ord where g: "GetOrder demo_dispatching 1 = Inr ord" "o_state ord = Dispatching \<or> o_state ord = Settled"
    using c(2,3) by (auto simp: is_ok_iff)
  show ?thesis using reorg_after_dispatch_once [OF h demo_orders_ok(3) g, of "''w''" 10 demo_env] h by simp
qed

text \<open>C35: for an order that pays out on BEP20 (a relay order from TRC20) scenario B never succeeds on
  the seeded chart: the loss is posted to \<open>expense:loss:reorg\<close>, which holds USDT_TRC20, so the
  whole transaction fails and neither the reversal nor the halt happens.\<close>

theorem reorg_relay_never_succeeds:
  assumes "ledger_ok db" and "GetOrder db i = Inr ord" and "o_state ord = Dispatching \<or> o_state ord = Settled"
    and "amt_asset (o_amount_out ord) = USDT_BEP20"
    and "GetByCode db ''expense:loss:reorg'' = Inr acc" and "acc_asset acc = USDT_TRC20"
  shows "\<not> is_ok (snd (HandleDepositReorg digest env db i key actor now))"
proof
  assume "is_ok (snd (HandleDepositReorg digest env db i key actor now))"
  then obtain env' db' o' where h: "HandleDepositReorg digest env db i key actor now = (env', Inr (db', o'))"
    by (cases "HandleDepositReorg digest env db i key actor now") (auto simp: is_ok_iff)
  then obtain original where e: "GetEntryByIdempotencyKey db key = Inr original"
    using assms(2,3) by (auto simp: HandleDepositReorg_def reorgScenarioB_def)
  show False using reorg_B_effect(7) [OF h assms(1-3) e assms(4,5)] assms(6) by simp
qed

theorem reorg_relay_never_succeeds_witness:
  "\<not> is_ok (snd (HandleDepositReorg demo_digest demo_env demo_relay 1 ''dep'' ''w'' 9))"
proof -
  have c: "is_ok (GetOrder demo_relay 1)"
    "map_sum id (\<lambda>ord. (o_state ord, amt_asset (o_amount_out ord))) (GetOrder demo_relay 1) = Inr (Dispatching, USDT_BEP20)"
    "is_ok (GetByCode demo_relay ''expense:loss:reorg'')"
    "map_sum id acc_asset (GetByCode demo_relay ''expense:loss:reorg'') = Inr USDT_TRC20" by code_simp+
  obtain ord where g: "GetOrder demo_relay 1 = Inr ord" "o_state ord = Dispatching \<or> o_state ord = Settled"
    "amt_asset (o_amount_out ord) = USDT_BEP20" using c(1,2) by (auto simp: is_ok_iff)
  obtain acc where a: "GetByCode demo_relay ''expense:loss:reorg'' = Inr acc" "acc_asset acc = USDT_TRC20"
    using c(3,4) by (auto simp: is_ok_iff)
  show ?thesis using reorg_relay_never_succeeds [OF demo_relay_ok g a] by blast
qed

text \<open>\<open>Transition\<close> accepts an entry that was already posted -- and even reversed since -- on the
  legal pair from \<open>Quoted\<close> to \<open>Funded\<close>: a deposit report redelivered after its reorg funds the
  order again, while no line is written and no balance moves.\<close>

theorem refunded_without_booking:
  assumes "ledger_ok db" and "old \<in> set (entries db)"
    and "IdempotencyKey req = e_key old" and "canonicalHash digest req = e_hash old" and "is_ok (validate db req)"
    and "GetOrder db i = Inr ord" and "o_state ord = Quoted" and "o_version ord + 1 < 2 ^ 31"
    and "transition_validate p = Inr ()" and "tp_entry p = Some req" and "tp_entry_id p = None"
  shows "\<exists>env' db' o'. Transition digest env db i Funded (o_version ord) p = (env', Inr (db', o')) \<and>
    o_state o' = Funded \<and> lines db' = lines db \<and> balances db' = balances db"
  using assms by (rule Transition_replayed_entry)

theorem refunded_without_booking_witness:
  "\<exists>env' db' o'. Transition demo_digest demo_env demo_reorged 1 Funded 2 (demo_params (Some demo_deposit)) =
     (env', Inr (db', o')) \<and> o_state o' = Funded \<and> lines db' = lines demo_reorged \<and>
     balances db' = balances demo_reorged \<and> cached_units demo_reorged 1 = 0"
proof -
  have c: "is_ok (GetOrder demo_reorged 1)"
    "map_sum id (\<lambda>ord. (o_state ord, o_version ord)) (GetOrder demo_reorged 1) = Inr (Quoted, 2)"
    "is_ok (validate demo_reorged demo_deposit)" "cached_units demo_reorged 1 = 0"
    "e_key (hd (entries demo_reorged)) = IdempotencyKey demo_deposit"
    "e_hash (hd (entries demo_reorged)) = canonicalHash demo_digest demo_deposit"
    "entries demo_reorged \<noteq> []" by code_simp+
  obtain ord where g: "GetOrder demo_reorged 1 = Inr ord" "o_state ord = Quoted" "o_version ord = 2"
    using c(1,2) by (auto simp: is_ok_iff)
  have h: "hd (entries demo_reorged) \<in> set (entries demo_reorged)" using c(7) by simp
  show ?thesis
    using refunded_without_booking [OF demo_orders_ok(4) h c(5) [symmetric] c(6) [symmetric] c(3) g(1,2), where p = "demo_params (Some demo_deposit)" and env = demo_env]
      g(3) c(4) by (auto simp: demo_params_def transition_validate_def)
qed

end
