(* ===== verification/Ledger_Checks.thy ===== *)
theory Ledger_Checks
  imports Ledger_Demo Orders_Pages
begin

text \<open>
  The remaining properties of the ledger: its arithmetic and decimal strings, reconciliation, the
  halt cache and the listing of orders.
\<close>

section \<open>Money\<close>

text \<open>\<open>Add\<close> and \<open>Sub\<close> succeed exactly on two amounts of one known asset whose sum (difference)
  fits 64 bits, and then give it exactly; \<open>Neg\<close> fails on the smallest amount only.\<close>

theorem money_exact:
  "(Add a b = Inr c \<longleftrightarrow> Valid (amt_asset a) \<and> amt_asset b = amt_asset a \<and> fits64 (units a + units b) \<and>
      c = Amount (amt_asset a) (of_int (units a + units b))) \<and>
   (Sub a b = Inr c \<longleftrightarrow> Valid (amt_asset a) \<and> amt_asset b = amt_asset a \<and> fits64 (units a - units b) \<and>
      c = Amount (amt_asset a) (of_int (units a - units b))) \<and>
   (is_ok (Neg a) \<longleftrightarrow> Valid (amt_asset a) \<and> amt_units a \<noteq> MinInt64)"
  by (auto simp: Add_Inr Sub_Inr is_ok_iff Neg_Inr fits64_neg_iff)

text \<open>The decimal string that \<open>Format\<close> writes for an amount of a known asset parses back to the
  same amount, whatever its sign and magnitude -- all but the smallest 64-bit value, whose string
  \<open>ParseDecimal\<close> refuses.\<close>

theorem money_round_trip:
  assumes "Valid (amt_asset a)"
  shows "rbind (Format a) (\<lambda>s. ParseDecimal s (amt_asset a)) =
    (if amt_units a = MinInt64 then Inl ErrOverflow else Inr a)"
proof (cases "amt_units a = MinInt64")
  case False
  then show ?thesis using Format_ParseDecimal [OF assms] by simp
next
  case True
  then show ?thesis using Format_MinInt64 [OF assms] by simp
qed

theorem money_round_trip_witness:
  "rbind (Format (Amount USDT_TRC20 (-1234567))) (\<lambda>s. ParseDecimal s USDT_TRC20) = Inr (Amount USDT_TRC20 (-1234567)) \<and>
   rbind (Format (Amount BNB MinInt64)) (\<lambda>s. ParseDecimal s BNB) = Inl ErrOverflow"
proof -
  have "(-1234567 :: int64) \<noteq> MinInt64" by code_simp
  then show ?thesis
    using money_round_trip [of "Amount USDT_TRC20 (-1234567)"] money_round_trip [of "Amount BNB MinInt64"]
    by simp
qed

section \<open>Reconciliation\<close>

definition demo_snapshot :: "int64 \<Rightarrow> snapshot_params" where
  "demo_snapshot u = \<lparr>sn_account_code = ''a:1'', sn_observed = u, sn_chain_ref = ''h'', sn_watermark = 9, sn_observed_at = 5000\<rparr>"

definition demo_config :: config where
  "demo_config = \<lparr>Interval = 60000000000, TRXToleranceUnits = 10, CorridorCeilings = []\<rparr>"

text \<open>A balance snapshot halts the ledger exactly when the observed balance is further from the
  ledger's than the asset's tolerance, as long as the difference fits 64 bits.\<close>

theorem snapshot_halts_iff:
  assumes "IngestSnapshot db cfg p = Inr (db', r)" and "GetByCode db (sn_account_code p) = Inr acc"
    and "BalanceAsOf db (sn_account_code p) (sint (sn_watermark p)) = Inr led"
    and "min_int64 < sint (sn_observed p) - units led" and "sint (sn_observed p) - units led \<le> max_int64"
  shows "Halted r \<longleftrightarrow> sint (toleranceFor cfg (acc_asset acc)) < \<bar>sint (sn_observed p) - units led\<bar>"
  using assms by (rule IngestSnapshot_halts_iff)

theorem snapshot_halts_iff_witness:
  "map_sum id (\<lambda>(db', r). (Halted r, IsHalted db')) (IngestSnapshot (fst demo_posted) demo_config (demo_snapshot 18)) = Inr (True, True) \<and>
   map_sum id (\<lambda>(db', r). Halted r) (IngestSnapshot (fst demo_posted) demo_config (demo_snapshot 17)) = Inr False"
proof -
  have c: "is_ok (IngestSnapshot (fst demo_posted) demo_config (demo_snapshot 17))"
    "is_ok (GetByCode (fst demo_posted) ''a:1'')" "map_sum id acc_asset (GetByCode (fst demo_posted) ''a:1'') = Inr TRX"
    "is_ok (BalanceAsOf (fst demo_posted) ''a:1'' 9)" "map_sum id units (BalanceAsOf (fst demo_posted) ''a:1'' 9) = Inr 7"
    "map_sum id (\<lambda>(db', r). (Halted r, IsHalted db')) (IngestSnapshot (fst demo_posted) demo_config (demo_snapshot 18)) = Inr (True, True)"
    by code_simp+
  obtain db' r where i: "IngestSnapshot (fst demo_posted) demo_config (demo_snapshot 17) = Inr (db', r)"
    using c(1) by (auto simp: is_ok_iff)
  obtain acc :: account where a: "GetByCode (fst demo_posted) ''a:1'' = Inr acc" "acc_asset acc = TRX"
    using c(2,3) by (auto simp: is_ok_iff)
  obtain led :: amount where l: "BalanceAsOf (fst demo_posted) ''a:1'' 9 = Inr led" "units led = 7"
    using c(4,5) by (auto simp: is_ok_iff)
  have "\<not> Halted r"
    using snapshot_halts_iff [OF i, of acc led] a l
    by (simp add: demo_snapshot_def demo_config_def toleranceFor_def min_int64_def max_int64_def)
  then show ?thesis using c(6) i by simp
qed

text \<open>The drift is computed in wrapping 64-bit arithmetic, and its absolute value by negation: when
  it comes out as the smallest value -- an observed balance \<open>2 ^ 63\<close> away from the ledger's -- it
  passes every tolerance, and the snapshot is recorded without a halt.\<close>

theorem snapshot_min_drift_passes:
  assumes "IngestSnapshot db cfg p = Inr (db', r)" and "DriftUnits r = MinInt64"
    and "0 \<le> sint (toleranceFor cfg TRX)"
  shows "\<not> Halted r \<and> sys db' = sys db"
  using IngestSnapshot_min_drift [OF assms] by blast

theorem snapshot_min_drift_passes_witness:
  "map_sum id (\<lambda>(db', r). Halted r)
     (IngestSnapshot (fst demo_posted) demo_config (demo_snapshot (MinInt64 + 7))) = Inr False"
proof -
  let ?i = "IngestSnapshot (fst demo_posted) demo_config (demo_snapshot (MinInt64 + 7))"
  have c: "is_ok ?i" "map_sum id (\<lambda>(db', r). DriftUnits r = MinInt64) ?i = Inr True"
    "0 \<le> sint (toleranceFor demo_config TRX)" by code_simp+
  obtain db' r where i: "?i = Inr (db', r)" using c(1) by (auto simp: is_ok_iff)
  then have "DriftUnits r = MinInt64" using c(2) by simp
  then show ?thesis using snapshot_min_drift_passes [OF i _ c(3)] i by simp
qed

text \<open>A tick of the self-check halts a running ledger exactly when the trial balance of some asset
  is not zero or a cached balance differs from its lines.\<close>

theorem selfcheck_halts_iff:
  assumes "\<not> IsHalted db" and "TrialBalance db = Inr ts" and "VerifyBalances db = Inr ds"
  shows "IsHalted (fst (snd (RunOnce rc db now))) \<longleftrightarrow> list_ex (\<lambda>(_, t). t \<noteq> 0) ts \<or> ds \<noteq> []"
  using assms by (rule RunOnce_halts)

theorem selfcheck_halts_iff_witness:
  "IsHalted (fst (snd (RunOnce \<lparr>rc_cfg = demo_config, rc_last_tick = 0\<rparr>
     ((fst demo_posted)\<lparr>balances := [demo_balance 1 TRX 8 1, demo_balance 2 TRX (-7) 1]\<rparr>) 5)))"
proof -
  let ?db = "(fst demo_posted)\<lparr>balances := [demo_balance 1 TRX 8 1, demo_balance 2 TRX (-7) 1]\<rparr>"
  have c: "\<not> IsHalted ?db" "is_ok (TrialBalance ?db)" "is_ok (VerifyBalances ?db)"
    "map_sum id (\<lambda>ds. ds = []) (VerifyBalances ?db) = Inr False" by code_simp+
  obtain ts where t: "TrialBalance ?db = Inr ts" using c(2) by (auto simp: is_ok_iff)
  obtain ds where d: "VerifyBalances ?db = Inr ds" "ds \<noteq> []" using c(3,4) by (auto simp: is_ok_iff)
  show ?thesis using selfcheck_halts_iff [OF c(1) t d(1)] d(2) by blast
qed

section \<open>The halt cache\<close>

text \<open>What \<open>Cache.IsHalted\<close> answers was the flag in the database at some moment less than one
  second plus the latency \<open>L\<close> of a query before the call -- and a cache refreshed by it is again
  fresh to within \<open>L\<close>.\<close>

theorem halt_cache_staleness:
  assumes "fresh_within L hist c" and "0 \<le> L"
    and "now \<le> rd" and "rd \<le> upd" and "upd \<le> rd + L"
    and "cache_IsHalted c now upd (hist rd) = (c', v)" and "c_updated_at c \<le> now"
  shows "fresh_within L hist c' \<and> (\<exists>t. now - maxCacheAge - L < t \<and> t \<le> rd \<and> v = hist t)"
  using cache_staleness [OF assms] by blast

theorem halt_cache_staleness_witness:
  "\<exists>t. 1500000000 - maxCacheAge - 5 < t \<and> t \<le> 1500000002 \<and>
     snd (cache_IsHalted \<lparr>c_halted = False, c_updated_at = 600000000\<rparr> 1500000000 1500000004 True) = (700000000 \<le> t)"
proof -
  have f: "fresh_within 5 (\<lambda>t. 700000000 \<le> t) \<lparr>c_halted = False, c_updated_at = 600000000\<rparr>"
    unfolding fresh_within_def by (intro exI [of _ 599999998]) simp
  have c: "cache_IsHalted \<lparr>c_halted = False, c_updated_at = 600000000\<rparr> 1500000000 1500000004 ((\<lambda>t. 700000000 \<le> t) (1500000002 :: int)) =
    (\<lparr>c_halted = False, c_updated_at = 600000000\<rparr>, False)" by (simp add: cache_IsHalted_def maxCacheAge_def)
  show ?thesis using halt_cache_staleness [OF f _ _ _ _ c] by (simp add: cache_IsHalted_def maxCacheAge_def)
qed

section \<open>Listing orders\<close>

definition demo_pages :: db where
  "demo_pages = demo_quoted\<lparr>orders_seq := 3, orders :=
     [(demo_order_row Funded 1)\<lparr>r_updated_at := 2000\<rparr>,
      (demo_order_row Funded 1)\<lparr>r_id := 2, r_external_id := ''o2'', r_updated_at := 1000\<rparr>,
      (demo_order_row Funded 1)\<lparr>r_id := 3, r_external_id := ''o3'', r_updated_at := 2000\<rparr>]\<rparr>"

text \<open>C34: a caller that pages through the orders of a state with \<open>ListByStateAfter\<close>, giving the cursor of
  the last row it saw, gets every order of the state exactly once, in the order of update time and
  id, for any limit (zero, negative and oversized ones are clamped), and is done after at most as
  many calls as there are orders.\<close>

theorem paging_complete:
  assumes "orders_ok db" and "list_all (\<lambda>r. pg_time (r_updated_at r) = r_updated_at r) (orders db)"
    and "length (filter (\<lambda>r. r_state r = s) (orders db)) \<le> k"
  shows "drain db s limit k None = in_state db s"
  using assms by (intro drain_complete) (simp_all add: list_all_iff)

theorem paging_complete_witness:
  "map r_id (drain demo_pages Funded 1 3 None) = [2, 1, 3]"
proof -
  have c: "orders_ok demo_pages" "list_all (\<lambda>r. pg_time (r_updated_at r) = r_updated_at r) (orders demo_pages)"
    "length (filter (\<lambda>r. r_state r = Funded) (orders demo_pages)) \<le> 3"
    "map r_id (in_state demo_pages Funded) = [2, 1, 3]" by code_simp+
  show ?thesis using paging_complete [OF c(1-3), of 1] c(4) by simp
qed

end
