(* ===== verification/Pricing.thy ===== *)
theory Pricing
  imports Money
begin

text \<open>
  relayd's pricing (\<open>relayd/internal/pricing\<close>): the profit rule an admin sets, the split of a
  deposit it gives, and the settings row that holds it.

  \<^item> \<open>pricing\<close> is the struct \<open>Config\<close>, \<open>margin\<close> the struct \<open>Margin\<close>. Go's map \<open>Directions\<close> is the list of
    its entries with distinct keys; a nil map is the empty list.
  \<^item> \<open>wire\<close> is the JSON shape. A stored value is \<open>Doc w\<close> when \<open>json.Unmarshal\<close> decodes it to the
    shape, \<open>Undecodable\<close> when it does not. \<open>settings_row\<close> is the row of the table \<open>settings\<close> under
    the key \<open>pricing\<close>, the state of \<open>Store\<close>.
  \<^item> The lemmas: the profit is the exact share rounded down and never wraps, the split adds up, a
    stored configuration reads back.
\<close>

section \<open>The configuration\<close>

datatype pricing_error = ErrInvalidPricing | ErrNoPricing

record margin =
  mg_bps :: int64
  mg_min :: int64

record pricing =
  pc_bps :: int64
  pc_min :: int64
  pc_min_in :: int64
  pc_max_in :: int64
  pc_directions :: "(string \<times> margin) list"

definition directions :: "string list" where
  "directions = [''TRC20_TO_BEP20'', ''BEP20_TO_TRC20'']"

definition For :: "pricing \<Rightarrow> string \<Rightarrow> pricing" where
  "For c direction =
     (case map_of (pc_directions c) direction of
        Some m \<Rightarrow> c\<lparr>pc_bps := mg_bps m, pc_min := mg_min m\<rparr>
      | None \<Rightarrow> c)"

definition margin_invalid :: "pricing \<Rightarrow> string \<Rightarrow> margin \<Rightarrow> bool" where
  "margin_invalid c direction m \<longleftrightarrow>
     direction \<notin> set directions \<or>
     mg_bps m <s 0 \<or> 10000 \<le>s mg_bps m \<or>
     mg_min m <s 0 \<or>
     pc_min_in c \<le>s mg_min m"

definition pricing_validate :: "pricing \<Rightarrow> pricing_error + unit" where
  "pricing_validate c =
     (if pc_bps c <s 0 \<or> 10000 \<le>s pc_bps c then Inl ErrInvalidPricing
      else if pc_min c <s 0 then Inl ErrInvalidPricing
      else if pc_min_in c \<le>s 0 then Inl ErrInvalidPricing
      else if pc_max_in c <s pc_min_in c then Inl ErrInvalidPricing
      else if pc_min_in c \<le>s pc_min c then Inl ErrInvalidPricing
      else if list_ex (\<lambda>(d, m). margin_invalid c d m) (pc_directions c) then Inl ErrInvalidPricing
      else Inr ())"

section \<open>The split of a deposit\<close>

definition Profit :: "pricing \<Rightarrow> int64 \<Rightarrow> int64" where
  "Profit c received =
     (let p = quot received 10000 * pc_bps c;
          p = p + quot (rem received 10000 * pc_bps c) 10000
      in if p <s pc_min c then pc_min c else p)"

definition Split :: "pricing \<Rightarrow> amount \<Rightarrow> (amount \<times> amount) option" where
  "Split c received =
     (let p = Profit c (amt_units received) in
      if amt_units received \<le>s p then None
      else Some (Amount (amt_asset received) p, Amount (amt_asset received) (amt_units received - p)))"

lemma sint_10000 [simp]: "sint (10000 :: int64) = 10000"
  by simp

lemma pricing_validate_Inr:
  "pricing_validate c = Inr u \<longleftrightarrow>
     0 \<le> sint (pc_bps c) \<and> sint (pc_bps c) < 10000 \<and> 0 \<le> sint (pc_min c) \<and>
     sint (pc_min c) < sint (pc_min_in c) \<and> sint (pc_min_in c) \<le> sint (pc_max_in c) \<and>
     (\<forall>(d, m) \<in> set (pc_directions c). d \<in> set directions \<and>
        0 \<le> sint (mg_bps m) \<and> sint (mg_bps m) < 10000 \<and>
        0 \<le> sint (mg_min m) \<and> sint (mg_min m) < sint (pc_min_in c))"
proof -
  have ok: "\<not> margin_invalid c d m \<longleftrightarrow> d \<in> set directions \<and> 0 \<le> sint (mg_bps m) \<and> sint (mg_bps m) < 10000 \<and>
      0 \<le> sint (mg_min m) \<and> sint (mg_min m) < sint (pc_min_in c)" for d m
    by (auto simp: margin_invalid_def word_sless_alt word_sle_eq not_le not_less)
  have "\<not> list_ex (\<lambda>(d, m). margin_invalid c d m) (pc_directions c) \<longleftrightarrow>
      (\<forall>(d, m) \<in> set (pc_directions c). \<not> margin_invalid c d m)"
    by (auto simp: list_ex_iff)
  then have ds: "list_ex (\<lambda>(d, m). margin_invalid c d m) (pc_directions c) \<longleftrightarrow>
      \<not> (\<forall>(d, m) \<in> set (pc_directions c). d \<in> set directions \<and> 0 \<le> sint (mg_bps m) \<and> sint (mg_bps m) < 10000 \<and>
      0 \<le> sint (mg_min m) \<and> sint (mg_min m) < sint (pc_min_in c))"
    unfolding ok by blast
  show ?thesis unfolding pricing_validate_def ds by (auto simp: word_sless_alt word_sle_eq not_le not_less)
qed

text \<open>A direction's own rule satisfies the checks as well, so \<open>For\<close> gives a valid configuration.\<close>

lemma For_valid:
  assumes "pricing_validate c = Inr u"
  shows "pricing_validate (For c direction) = Inr u"
proof (cases "map_of (pc_directions c) direction")
  case (Some m)
  then have "(direction, m) \<in> set (pc_directions c)" by (rule map_of_SomeD)
  then show ?thesis using assms Some by (auto simp: For_def pricing_validate_Inr)
qed (simp add: For_def assms)

lemma For_bounds [simp]:
  "pc_min_in (For c d) = pc_min_in c" "pc_max_in (For c d) = pc_max_in c"
  by (simp_all add: For_def split: option.split)

text \<open>The two-step product is the exact share, rounded down: no step wraps.\<close>

lemma share_split: "(r :: int) div k * b + (r mod k * b) div k = r * b div k" if "0 < k"
proof -
  have "r * b = (r div k * b) * k + r mod k * b"
    by (metis (no_types, lifting) distrib_right div_mult_mod_eq mult.assoc mult.commute)
  then show ?thesis using that by simp
qed

lemma sint_Profit:
  assumes "0 \<le> sint r" and "0 \<le> sint (pc_bps c)" and "sint (pc_bps c) < 10000"
  shows "sint (Profit c r) = max (sint (pc_min c)) (sint r * sint (pc_bps c) div 10000)"
proof -
  let ?r = "sint r" and ?b = "sint (pc_bps c)"
  have q: "sint (quot r 10000) = ?r div 10000" using assms by (simp add: sint_quot_pos)
  have m: "sint (rem r 10000) = ?r mod 10000" using assms by (simp add: sint_rem_pos)
  have r_le: "?r \<le> max_int64" using sint64_range [of r] by (simp add: max_int64_def)
  have div_le: "?r div 10000 * ?b \<le> ?r div 10000 * 10000"
    using assms by (intro mult_left_mono) (simp_all add: pos_imp_zdiv_nonneg_iff)
  have fits: "fits64 x" if "0 \<le> x" "x \<le> ?r \<or> x \<le> 100000000" for x
    using that r_le by (auto simp: fits64_def min_int64_def max_int64_def)
  have a0: "0 \<le> ?r div 10000 * ?b" "?r div 10000 * ?b \<le> ?r"
    using assms div_le by (auto simp: pos_imp_zdiv_nonneg_iff intro: order_trans)
  have "?r mod 10000 * ?b \<le> 10000 * 10000" using assms by (intro mult_mono) auto
  then have b0: "0 \<le> ?r mod 10000 * ?b" "?r mod 10000 * ?b \<le> 100000000" using assms by auto
  have s1: "sint (quot r 10000 * pc_bps c) = ?r div 10000 * ?b"
    using fits [OF a0(1)] a0(2) by (subst sint64_mult) (simp_all add: q)
  have s2: "sint (rem r 10000 * pc_bps c) = ?r mod 10000 * ?b"
    using fits [OF b0(1)] b0(2) by (subst sint64_mult) (simp_all add: m)
  have s3: "sint (quot (rem r 10000 * pc_bps c) 10000) = (?r mod 10000 * ?b) div 10000"
    using b0 s2 by (subst sint_quot_pos) simp_all
  have tot: "?r div 10000 * ?b + (?r mod 10000 * ?b) div 10000 = ?r * ?b div 10000"
    by (rule share_split) simp
  have tot_le: "0 \<le> ?r * ?b div 10000" "?r * ?b div 10000 \<le> ?r"
  proof -
    show "0 \<le> ?r * ?b div 10000" using assms by (simp add: pos_imp_zdiv_nonneg_iff)
    have "?r * ?b \<le> ?r * 10000" using assms by (intro mult_left_mono) auto
    then have "?r * ?b div 10000 \<le> ?r * 10000 div 10000" by (rule zdiv_mono1) simp
    then show "?r * ?b div 10000 \<le> ?r" by simp
  qed
  have s4: "sint (quot r 10000 * pc_bps c + quot (rem r 10000 * pc_bps c) 10000) = ?r * ?b div 10000"
    using fits [OF tot_le(1)] tot_le(2) by (subst sint64_add) (simp_all add: s1 s3 tot)
  show ?thesis by (auto simp: Profit_def Let_def word_sless_alt s4 max_def)
qed

lemma Split_Some:
  assumes "pricing_validate c = Inr ()" and "sint (pc_min_in c) \<le> units received"
  shows "\<exists>profit forward. Split c received = Some (profit, forward) \<and>
    units profit = max (sint (pc_min c)) (units received * sint (pc_bps c) div 10000) \<and>
    units profit + units forward = units received \<and> 0 \<le> units profit \<and> 0 < units forward \<and>
    amt_asset profit = amt_asset received \<and> amt_asset forward = amt_asset received"
proof -
  let ?r = "units received" and ?b = "sint (pc_bps c)"
  note v = assms(1) [unfolded pricing_validate_Inr]
  have r: "0 < ?r" "sint (pc_min c) < ?r" using v assms(2) by auto
  have p: "sint (Profit c (amt_units received)) = max (sint (pc_min c)) (?r * ?b div 10000)"
    using v r by (intro sint_Profit) auto
  have "?r * ?b < ?r * 10000" using v r by (intro mult_strict_left_mono) auto
  then have "?r * ?b div 10000 < ?r" by (simp add: div_less_iff_less_mult)
  then have lt: "sint (Profit c (amt_units received)) < ?r" and ge: "0 \<le> sint (Profit c (amt_units received))"
    using p r v by auto
  have "sint (amt_units received - Profit c (amt_units received)) = ?r - sint (Profit c (amt_units received))"
    using lt ge sint64_range [of "amt_units received"]
    by (intro sint64_sub) (simp add: fits64_def min_int64_def max_int64_def)
  then show ?thesis using lt ge unfolding p [symmetric] by (simp add: Split_def Let_def word_sle_eq)
qed

section \<open>The settings row\<close>

record wire_margin =
  wm_bps :: int64
  wm_min :: string

record wire =
  w_bps :: int64
  w_min :: string
  w_min_in :: string
  w_max_in :: string
  w_directions :: "(string \<times> wire_margin) list"

datatype doc = Doc wire | Undecodable

definition parseUSDT :: "string \<Rightarrow> pricing_error + int64" where
  "parseUSDT s =
     (case ParseDecimal s USDT_TRC20 of Inl _ \<Rightarrow> Inl ErrInvalidPricing | Inr a \<Rightarrow> Inr (amt_units a))"

definition formatUSDT :: "int64 \<Rightarrow> string" where
  "formatUSDT u =
     (case Format (Amount USDT_TRC20 u) of Inl _ \<Rightarrow> FormatInt u | Inr s \<Rightarrow> s)"

definition MarshalJSON :: "pricing \<Rightarrow> wire" where
  "MarshalJSON c =
     \<lparr>w_bps = pc_bps c, w_min = formatUSDT (pc_min c),
      w_min_in = formatUSDT (pc_min_in c), w_max_in = formatUSDT (pc_max_in c),
      w_directions = map (\<lambda>(d, m). (d, \<lparr>wm_bps = mg_bps m, wm_min = formatUSDT (mg_min m)\<rparr>)) (pc_directions c)\<rparr>"

definition UnmarshalJSON :: "doc \<Rightarrow> pricing_error + pricing" where
  "UnmarshalJSON b =
     (case b of Undecodable \<Rightarrow> Inl ErrInvalidPricing
      | Doc w \<Rightarrow>
        rbind (parseUSDT (w_min w)) (\<lambda>min.
        rbind (parseUSDT (w_min_in w)) (\<lambda>min_in.
        rbind (parseUSDT (w_max_in w)) (\<lambda>max_in.
        rbind (rmap (\<lambda>(d, m). rbind (parseUSDT (wm_min m)) (\<lambda>min. Inr (d, \<lparr>mg_bps = wm_bps m, mg_min = min\<rparr>)))
                 (w_directions w)) (\<lambda>ds.
        Inr \<lparr>pc_bps = w_bps w, pc_min = min, pc_min_in = min_in, pc_max_in = max_in, pc_directions = ds\<rparr>)))))"

record settings_row =
  st_value :: doc
  st_updated_at :: time
  st_updated_by :: string

type_synonym settings = "settings_row option"

definition GetPricing :: "settings \<Rightarrow> pricing_error + pricing" where
  "GetPricing st =
     (case st of None \<Rightarrow> Inl ErrNoPricing
      | Some row \<Rightarrow>
        rbind (UnmarshalJSON (st_value row)) (\<lambda>c.
        rbind (pricing_validate c) (\<lambda>_. Inr c)))"

definition PutPricing :: "time \<Rightarrow> pricing \<Rightarrow> string \<Rightarrow> settings \<Rightarrow> pricing_error + settings" where
  "PutPricing now c updatedBy st =
     rbind (pricing_validate c) (\<lambda>_.
     Inr (Some \<lparr>st_value = Doc (MarshalJSON c), st_updated_at = now, st_updated_by = updatedBy\<rparr>))"

lemma parseUSDT_formatUSDT: "u \<noteq> MinInt64 \<Longrightarrow> parseUSDT (formatUSDT u) = Inr u"
  using Format_ParseDecimal [of "Amount USDT_TRC20 u"]
  by (auto simp: parseUSDT_def formatUSDT_def)

lemma UnmarshalJSON_MarshalJSON:
  assumes "pc_min c \<noteq> MinInt64" "pc_min_in c \<noteq> MinInt64" "pc_max_in c \<noteq> MinInt64"
    and "\<forall>(d, m) \<in> set (pc_directions c). mg_min m \<noteq> MinInt64"
  shows "UnmarshalJSON (Doc (MarshalJSON c)) = Inr c"
proof -
  have "rmap (\<lambda>(d, m). rbind (parseUSDT (wm_min m)) (\<lambda>min. Inr (d, \<lparr>mg_bps = wm_bps m, mg_min = min\<rparr>)))
      (map (\<lambda>(d, m). (d, \<lparr>wm_bps = mg_bps m, wm_min = formatUSDT (mg_min m)\<rparr>)) ds) = Inr ds"
    if "\<forall>(d, m) \<in> set ds. mg_min m \<noteq> MinInt64" for ds :: "(string \<times> margin) list"
    using that by (induction ds) (auto simp: parseUSDT_formatUSDT)
  then show ?thesis using assms
    by (simp add: UnmarshalJSON_def MarshalJSON_def parseUSDT_formatUSDT)
qed

lemma nonneg_not_Min: "0 \<le> sint u \<Longrightarrow> u \<noteq> MinInt64"
  by (auto simp: MinInt64_iff min_int64_def)

lemma valid_round_trip: "pricing_validate c = Inr () \<Longrightarrow> UnmarshalJSON (Doc (MarshalJSON c)) = Inr c"
  unfolding pricing_validate_Inr
  by (rule UnmarshalJSON_MarshalJSON) (auto intro!: nonneg_not_Min split: prod.splits)

lemma Put_Get: "PutPricing now c by st = Inr st' \<Longrightarrow> GetPricing st' = Inr c"
  by (auto simp: PutPricing_def GetPricing_def valid_round_trip)

lemma Put_refused: "PutPricing now c by st = Inl e \<longleftrightarrow> e = ErrInvalidPricing \<and> \<not> is_ok (pricing_validate c)"
  by (auto simp: PutPricing_def rbind_Inl_iff is_ok_iff pricing_validate_def split: if_splits)

lemma Get_valid: "GetPricing st = Inr c \<Longrightarrow> pricing_validate c = Inr ()"
  by (auto simp: GetPricing_def split: option.splits)

end
