(* ===== verification/RelayLegs.thy ===== *)
theory RelayLegs
  imports Money Store
begin

text \<open>
  The legs of relayd (\<open>relayd/internal/relay\<close>): one row per relay order, from the deposit it waits
  for to its settlement, refund or expiry.

  \<^item> \<open>leg_row\<close> holds the columns of \<open>relay_legs\<close>, \<open>leg\<close> the fields of the struct \<open>Leg\<close>; \<open>leg_core\<close>
    has those of equal type. \<open>scanLeg\<close> rebuilds the amounts from the units and asset columns.
  \<^item> \<open>leg_check\<close> are the table's CHECK constraints, \<open>upstream_unique\<close> its unique index on vendor
    orders; \<open>write_legs\<close> is the end of a statement: it stores the rows or fails with
    \<open>ErrConstraint\<close>. The unique \<open>external_id\<close> is the conflict target of \<open>CreateLeg\<close>.
  \<^item> Every operation takes the database's \<open>now()\<close> where its statement uses it. An error of the
    connection is not modelled.
  \<^item> \<open>leg_op\<close> collects the operations that write, \<open>leg_exec\<close> runs one. The interpretations at the
    end say that a status moves only along \<open>leg_edge\<close>, and that a recorded deposit and the
    identity of a leg never change.
\<close>

section \<open>Rows\<close>

datatype leg_direction = TRC20ToBEP20 | BEP20ToTRC20 | OtherDirection string

datatype leg_status =
    AWAITING_DEPOSIT | FORWARDING | FORWARDED | SETTLED | FAILED
  | REFUND_PENDING | REFUNDED | UNRECOVERABLE | EXPIRED

datatype relay_error = ErrLegNotFound | ErrLegStatus | ErrSplitMismatch | ErrConstraint

record leg_core =
  lg_id :: int
  lg_external_id :: string
  lg_order_id :: int64
  lg_direction :: leg_direction
  lg_status :: leg_status
  lg_customer_id :: string
  lg_destination :: string
  lg_deposit_address :: string
  lg_provider :: "string option"
  lg_upstream_order :: "string option"
  lg_upstream_address :: "string option"
  lg_forward_tx :: "string option"
  lg_refund_tx :: "string option"
  lg_stale_alerted_at :: "time option"
  lg_attempt_started_at :: "time option"
  lg_created_at :: time
  lg_updated_at :: time
  lg_customer_label :: "string option"
  lg_profit_bps :: "int64 option"
  lg_min_profit :: "int64 option"
  lg_sender :: "string option"
  lg_vendor_fee :: "int64 option"
  lg_lease_released_at :: "time option"
  lg_payout_tx :: "string option"

record leg_row = leg_core +
  lr_deposit_index :: "int option"
  lr_amount_in :: int64
  lr_amount_in_asset :: asset
  lr_out_expected :: int64
  lr_out_expected_asset :: asset
  lr_out_actual :: "int64 option"
  lr_received :: "int64 option"
  lr_profit :: "int64 option"
  lr_forward :: "int64 option"

record leg = leg_core +
  lg_deposit_index :: "32 word option"
  lg_amount_in :: amount
  lg_out_expected :: amount
  lg_out_actual :: "amount option"
  lg_received :: "amount option"
  lg_profit :: "amount option"
  lg_forward :: "amount option"

definition scanLeg :: "leg_row \<Rightarrow> leg" where
  "scanLeg r = leg_core.extend (leg_core.truncate r)
     (leg.fields
        (map_option word_of_int (lr_deposit_index r))
        (Amount (lr_amount_in_asset r) (lr_amount_in r))
        (Amount (lr_out_expected_asset r) (lr_out_expected r))
        (map_option (Amount (lr_out_expected_asset r)) (lr_out_actual r))
        (map_option (Amount (lr_amount_in_asset r)) (lr_received r))
        (map_option (Amount (lr_amount_in_asset r)) (lr_profit r))
        (map_option (Amount (lr_amount_in_asset r)) (lr_forward r)))"

section \<open>Constraints\<close>

text \<open>A CHECK of the form \<open>column IS NULL OR p\<close>.\<close>

definition null_or :: "('a \<Rightarrow> bool) \<Rightarrow> 'a option \<Rightarrow> bool" where
  "null_or p x = (case x of None \<Rightarrow> True | Some v \<Rightarrow> p v)"

lemma null_or_simps [simp]: "null_or p None" "null_or p (Some v) = p v"
  by (simp_all add: null_or_def)

definition leg_check :: "leg_row \<Rightarrow> bool" where
  "leg_check r \<longleftrightarrow>
     (lg_direction r = TRC20ToBEP20 \<or> lg_direction r = BEP20ToTRC20) \<and>
     (lr_amount_in_asset r = USDT_BEP20 \<or> lr_amount_in_asset r = USDT_TRC20) \<and>
     (lr_out_expected_asset r = USDT_BEP20 \<or> lr_out_expected_asset r = USDT_TRC20) \<and>
     null_or (\<lambda>i. 0 \<le> i \<and> i < 2147483648) (lr_deposit_index r) \<and>
     null_or (\<lambda>b. 0 \<le>s b \<and> b <s 10000) (lg_profit_bps r) \<and>
     null_or (\<lambda>m. 0 \<le>s m) (lg_min_profit r) \<and>
     null_or (\<lambda>u. 0 <s u) (lr_received r) \<and>
     null_or (\<lambda>u. 0 \<le>s u) (lr_profit r) \<and>
     null_or (\<lambda>u. 0 <s u) (lr_forward r)"

definition vendor_order :: "leg_row \<Rightarrow> (string \<times> string) option" where
  "vendor_order r =
     (case (lg_provider r, lg_upstream_order r) of (Some p, Some i) \<Rightarrow> Some (p, i) | _ \<Rightarrow> None)"

definition upstream_unique :: "leg_row list \<Rightarrow> bool" where
  "upstream_unique rows \<longleftrightarrow> distinct (List.map_filter vendor_order rows)"

record relay_db =
  legs :: "leg_row list"
  legs_seq :: int

definition empty_relay_db :: relay_db where
  "empty_relay_db = \<lparr>legs = [], legs_seq = 0\<rparr>"

definition write_legs :: "relay_db \<Rightarrow> leg_row list \<Rightarrow> relay_error + relay_db" where
  "write_legs db rows =
     (if list_all leg_check rows \<and> upstream_unique rows then Inr (db\<lparr>legs := rows\<rparr>)
      else Inl ErrConstraint)"

section \<open>Create and the reads\<close>

definition Leg_GetByExternalID :: "relay_db \<Rightarrow> string \<Rightarrow> relay_error + leg" where
  "Leg_GetByExternalID db ext =
     (case first_row (\<lambda>r. lg_external_id r = ext) (legs db) of
        None \<Rightarrow> Inl ErrLegNotFound
      | Some r \<Rightarrow> Inr (scanLeg r))"

definition new_leg_row :: "time \<Rightarrow> int \<Rightarrow> leg \<Rightarrow> leg_row" where
  "new_leg_row now i l =
     \<lparr>lg_id = i, lg_external_id = lg_external_id l, lg_order_id = lg_order_id l,
      lg_direction = lg_direction l, lg_status = AWAITING_DEPOSIT, lg_customer_id = lg_customer_id l,
      lg_destination = lg_destination l, lg_deposit_address = lg_deposit_address l,
      lg_provider = None, lg_upstream_order = None, lg_upstream_address = None,
      lg_forward_tx = None, lg_refund_tx = None, lg_stale_alerted_at = None,
      lg_attempt_started_at = None, lg_created_at = now, lg_updated_at = now,
      lg_customer_label = lg_customer_label l, lg_profit_bps = lg_profit_bps l,
      lg_min_profit = lg_min_profit l, lg_sender = None, lg_vendor_fee = None,
      lg_lease_released_at = None, lg_payout_tx = None,
      lr_deposit_index = map_option uint (lg_deposit_index l),
      lr_amount_in = amt_units (lg_amount_in l), lr_amount_in_asset = amt_asset (lg_amount_in l),
      lr_out_expected = amt_units (lg_out_expected l),
      lr_out_expected_asset = amt_asset (lg_out_expected l),
      lr_out_actual = None, lr_received = None, lr_profit = None, lr_forward = None\<rparr>"

text \<open>The identity is drawn from the sequence, and the CHECK constraints are tested, before the
  conflict is looked for; the sequence keeps its step even then.\<close>

definition CreateLeg :: "time \<Rightarrow> leg \<Rightarrow> relay_db \<Rightarrow> relay_error + (relay_db \<times> leg)" where
  "CreateLeg now l db =
     (let i = legs_seq db + 1; row = new_leg_row now i l; db = db\<lparr>legs_seq := i\<rparr> in
      if \<not> leg_check row then Inl ErrConstraint
      else if list_ex (\<lambda>r. lg_external_id r = lg_external_id l) (legs db) then
        rbind (Leg_GetByExternalID db (lg_external_id l)) (\<lambda>leg. Inr (db, leg))
      else Inr (db\<lparr>legs := legs db @ [row]\<rparr>, scanLeg row))"

definition ListByStatus :: "relay_db \<Rightarrow> leg_status \<Rightarrow> leg list" where
  "ListByStatus db st = map scanLeg (sort_key lg_id (filter (\<lambda>r. lg_status r = st) (legs db)))"

definition ListLegs :: "relay_db \<Rightarrow> leg_status option \<Rightarrow> leg list" where
  "ListLegs db st =
     map scanLeg (sort_key (\<lambda>r. - lg_updated_at r)
       (case st of Some s \<Rightarrow> filter (\<lambda>r. lg_status r = s) (legs db) | None \<Rightarrow> legs db))"

definition ListLeasesToRelease :: "relay_db \<Rightarrow> leg list" where
  "ListLeasesToRelease db =
     map scanLeg (sort_key lg_id
       (filter (\<lambda>r. lg_lease_released_at r = None \<and>
                    lg_status r \<in> {SETTLED, REFUNDED, UNRECOVERABLE, EXPIRED}) (legs db)))"

definition checkAlreadyAt :: "relay_db \<Rightarrow> string \<Rightarrow> leg_status \<Rightarrow> relay_error + unit" where
  "checkAlreadyAt db ext want =
     rbind (Leg_GetByExternalID db ext) (\<lambda>current.
     if lg_status current = want then Inr () else Inl ErrLegStatus)"

section \<open>Transitions\<close>

text \<open>The shape the transitions share: an \<open>UPDATE\<close> guarded on the leg and its statuses, then, when no
  row was touched, the question whether the leg is there already.\<close>

definition at_status :: "string \<Rightarrow> leg_status list \<Rightarrow> leg_row \<Rightarrow> bool" where
  "at_status ext from r \<longleftrightarrow> lg_external_id r = ext \<and> lg_status r \<in> set from"

definition mark_leg ::
  "string \<Rightarrow> leg_status list \<Rightarrow> leg_status \<Rightarrow> (leg_row \<Rightarrow> leg_row) \<Rightarrow> relay_db \<Rightarrow> relay_error + relay_db" where
  "mark_leg ext from to f db =
     rbind (write_legs db (update_rows (at_status ext from) f (legs db))) (\<lambda>db'.
     if affected (at_status ext from) (legs db) = 0 then rbind (checkAlreadyAt db' ext to) (\<lambda>_. Inr db')
     else Inr db')"

definition MarkForwarding ::
  "time \<Rightarrow> string \<Rightarrow> string \<Rightarrow> string \<Rightarrow> string \<Rightarrow> relay_db \<Rightarrow> relay_error + relay_db" where
  "MarkForwarding now ext provider upOrder upAddress =
     mark_leg ext [AWAITING_DEPOSIT] FORWARDING (\<lambda>r. r\<lparr>lg_status := FORWARDING, lg_provider := Some provider,
       lg_upstream_order := Some upOrder, lg_upstream_address := Some upAddress, lg_updated_at := now\<rparr>)"

definition ReplaceVendorOrder ::
  "time \<Rightarrow> string \<Rightarrow> string \<Rightarrow> string \<Rightarrow> string \<Rightarrow> string \<Rightarrow> relay_db \<Rightarrow> relay_error + relay_db" where
  "ReplaceVendorOrder now ext oldOrder provider newOrder address db =
     (let p = (\<lambda>r. lg_external_id r = ext \<and> lg_status r = FORWARDING \<and> lg_upstream_order r = Some oldOrder) in
      rbind (write_legs db (update_rows p (\<lambda>r. r\<lparr>lg_provider := Some provider,
        lg_upstream_order := Some newOrder, lg_upstream_address := Some address, lg_updated_at := now\<rparr>) (legs db))) (\<lambda>db'.
      if affected p (legs db) = 0 then Inl ErrLegStatus else Inr db'))"

definition MarkForwarded :: "time \<Rightarrow> string \<Rightarrow> string \<Rightarrow> relay_db \<Rightarrow> relay_error + relay_db" where
  "MarkForwarded now ext tx =
     mark_leg ext [FORWARDING] FORWARDED
       (\<lambda>r. r\<lparr>lg_status := FORWARDED, lg_forward_tx := Some tx, lg_updated_at := now\<rparr>)"

definition MarkSettled :: "time \<Rightarrow> string \<Rightarrow> amount \<Rightarrow> relay_db \<Rightarrow> relay_error + relay_db" where
  "MarkSettled now ext actual =
     mark_leg ext [FORWARDED] SETTLED
       (\<lambda>r. r\<lparr>lg_status := SETTLED, lr_out_actual := Some (amt_units actual), lg_updated_at := now\<rparr>)"

definition MarkLegFailed :: "time \<Rightarrow> string \<Rightarrow> relay_db \<Rightarrow> relay_error + relay_db" where
  "MarkLegFailed now ext =
     mark_leg ext [FORWARDING, FORWARDED] FAILED (\<lambda>r. r\<lparr>lg_status := FAILED, lg_updated_at := now\<rparr>)"

definition MarkRefundPending :: "time \<Rightarrow> string \<Rightarrow> relay_db \<Rightarrow> relay_error + relay_db" where
  "MarkRefundPending now ext =
     mark_leg ext [AWAITING_DEPOSIT, FORWARDING] REFUND_PENDING
       (\<lambda>r. r\<lparr>lg_status := REFUND_PENDING, lg_updated_at := now\<rparr>)"

definition MarkRefunded :: "time \<Rightarrow> string \<Rightarrow> string \<Rightarrow> relay_db \<Rightarrow> relay_error + relay_db" where
  "MarkRefunded now ext tx =
     mark_leg ext [REFUND_PENDING] REFUNDED
       (\<lambda>r. r\<lparr>lg_status := REFUNDED, lg_refund_tx := Some tx, lg_updated_at := now\<rparr>)"

definition MarkUnrecoverable :: "time \<Rightarrow> string \<Rightarrow> relay_db \<Rightarrow> relay_error + relay_db" where
  "MarkUnrecoverable now ext =
     mark_leg ext [FORWARDED] UNRECOVERABLE (\<lambda>r. r\<lparr>lg_status := UNRECOVERABLE, lg_updated_at := now\<rparr>)"

definition MarkExpired :: "time \<Rightarrow> string \<Rightarrow> relay_db \<Rightarrow> relay_error + relay_db" where
  "MarkExpired now ext =
     mark_leg ext [AWAITING_DEPOSIT] EXPIRED (\<lambda>r. r\<lparr>lg_status := EXPIRED, lg_updated_at := now\<rparr>)"

section \<open>Annotations\<close>

definition MarkStaleAlerted :: "time \<Rightarrow> string \<Rightarrow> relay_db \<Rightarrow> relay_error + (relay_db \<times> bool)" where
  "MarkStaleAlerted now ext db =
     (let p = (\<lambda>r. lg_external_id r = ext \<and> lg_stale_alerted_at r = None) in
      rbind (write_legs db (update_rows p (\<lambda>r. r\<lparr>lg_stale_alerted_at := Some now\<rparr>) (legs db))) (\<lambda>db'.
      Inr (db', 0 < affected p (legs db))))"

definition MarkForwardAttemptStarted :: "time \<Rightarrow> string \<Rightarrow> relay_db \<Rightarrow> relay_error + relay_db" where
  "MarkForwardAttemptStarted now ext db =
     write_legs db (update_rows (\<lambda>r. lg_external_id r = ext \<and> lg_attempt_started_at r = None)
       (\<lambda>r. r\<lparr>lg_attempt_started_at := Some now\<rparr>) (legs db))"

definition MarkLeaseReleased :: "time \<Rightarrow> string \<Rightarrow> relay_db \<Rightarrow> relay_error + relay_db" where
  "MarkLeaseReleased now ext db =
     write_legs db (update_rows (\<lambda>r. lg_external_id r = ext \<and> lg_lease_released_at r = None)
       (\<lambda>r. r\<lparr>lg_lease_released_at := Some now\<rparr>) (legs db))"

definition RecordDeposit ::
  "string \<Rightarrow> amount \<Rightarrow> string \<Rightarrow> amount \<Rightarrow> amount \<Rightarrow> relay_db \<Rightarrow> relay_error + (relay_db \<times> leg)" where
  "RecordDeposit ext received sender profit forward db =
     (if amt_units profit + amt_units forward \<noteq> amt_units received \<or>
         amt_asset profit \<noteq> amt_asset received \<or> amt_asset forward \<noteq> amt_asset received
      then Inl ErrSplitMismatch
      else
        rbind (write_legs db (update_rows (\<lambda>r. lg_external_id r = ext \<and> lr_received r = None)
          (\<lambda>r. r\<lparr>lr_received := Some (amt_units received), lg_sender := Some sender,
                 lr_profit := Some (amt_units profit), lr_forward := Some (amt_units forward)\<rparr>) (legs db))) (\<lambda>db'.
        rbind (Leg_GetByExternalID db' ext) (\<lambda>leg. Inr (db', leg))))"

definition RecordPayoutTx :: "string \<Rightarrow> string \<Rightarrow> relay_db \<Rightarrow> relay_error + relay_db" where
  "RecordPayoutTx ext tx db =
     write_legs db (update_rows (\<lambda>r. lg_external_id r = ext) (\<lambda>r. r\<lparr>lg_payout_tx := Some tx\<rparr>) (legs db))"

definition RecordVendorFee :: "string \<Rightarrow> int64 \<Rightarrow> relay_db \<Rightarrow> relay_error + relay_db" where
  "RecordVendorFee ext fee db =
     write_legs db (update_rows (\<lambda>r. lg_external_id r = ext) (\<lambda>r. r\<lparr>lg_vendor_fee := Some fee\<rparr>) (legs db))"

end
