(* ===== verification/RelayLegs_Inv.thy ===== *)
theory RelayLegs_Inv
  imports RelayLegs
begin

text \<open>
  What the operations of \<open>RelayLegs\<close> do to the table: every one of them moves each row by
  \<open>row_step\<close> and adds at most one new row. From that follow the invariant \<open>legs_ok\<close>, the status
  graph, and that a recorded deposit stays.
\<close>

section \<open>The operations that write\<close>

datatype leg_op =
    OpCreateLeg time leg
  | OpMarkForwarding time string string string string
  | OpReplaceVendorOrder time string string string string string
  | OpMarkForwarded time string string
  | OpMarkSettled time string amount
  | OpMarkLegFailed time string
  | OpMarkRefundPending time string
  | OpMarkRefunded time string string
  | OpMarkUnrecoverable time string
  | OpMarkExpired time string
  | OpMarkStaleAlerted time string
  | OpMarkForwardAttemptStarted time string
  | OpMarkLeaseReleased time string
  | OpRecordDeposit string amount string amount amount
  | OpRecordPayoutTx string string
  | OpRecordVendorFee string int64

fun leg_exec :: "leg_op \<Rightarrow> relay_db \<Rightarrow> relay_error + relay_db" where
  "leg_exec (OpCreateLeg now l) db = map_sum id fst (CreateLeg now l db)"
| "leg_exec (OpMarkForwarding now ext p i a) db = MarkForwarding now ext p i a db"
| "leg_exec (OpReplaceVendorOrder now ext old p i a) db = ReplaceVendorOrder now ext old p i a db"
| "leg_exec (OpMarkForwarded now ext tx) db = MarkForwarded now ext tx db"
| "leg_exec (OpMarkSettled now ext a) db = MarkSettled now ext a db"
| "leg_exec (OpMarkLegFailed now ext) db = MarkLegFailed now ext db"
| "leg_exec (OpMarkRefundPending now ext) db = MarkRefundPending now ext db"
| "leg_exec (OpMarkRefunded now ext tx) db = MarkRefunded now ext tx db"
| "leg_exec (OpMarkUnrecoverable now ext) db = MarkUnrecoverable now ext db"
| "leg_exec (OpMarkExpired now ext) db = MarkExpired now ext db"
| "leg_exec (OpMarkStaleAlerted now ext) db = map_sum id fst (MarkStaleAlerted now ext db)"
| "leg_exec (OpMarkForwardAttemptStarted now ext) db = MarkForwardAttemptStarted now ext db"
| "leg_exec (OpMarkLeaseReleased now ext) db = MarkLeaseReleased now ext db"
| "leg_exec (OpRecordDeposit ext rc s p f) db = map_sum id fst (RecordDeposit ext rc s p f db)"
| "leg_exec (OpRecordPayoutTx ext tx) db = RecordPayoutTx ext tx db"
| "leg_exec (OpRecordVendorFee ext fee) db = RecordVendorFee ext fee db"

section \<open>One row\<close>

text \<open>The status graph of a leg.\<close>

fun leg_edge :: "leg_status \<Rightarrow> leg_status \<Rightarrow> bool" where
  "leg_edge AWAITING_DEPOSIT t \<longleftrightarrow> t \<in> {FORWARDING, REFUND_PENDING, EXPIRED}"
| "leg_edge FORWARDING t \<longleftrightarrow> t \<in> {FORWARDED, FAILED, REFUND_PENDING}"
| "leg_edge FORWARDED t \<longleftrightarrow> t \<in> {SETTLED, FAILED, UNRECOVERABLE}"
| "leg_edge REFUND_PENDING t \<longleftrightarrow> t = REFUNDED"
| "leg_edge _ t \<longleftrightarrow> False"

text \<open>What is fixed when a leg is created, and what a deposit fixes.\<close>

definition leg_identity where
  "leg_identity r =
     (lg_id r, lg_order_id r, lg_direction r, lg_customer_id r, lg_destination r, lg_deposit_address r,
      lr_deposit_index r, Amount (lr_amount_in_asset r) (lr_amount_in r),
      Amount (lr_out_expected_asset r) (lr_out_expected r), lg_profit_bps r, lg_min_profit r)"

definition leg_deposit where
  "leg_deposit r =
     (case lr_received r of None \<Rightarrow> None
      | Some rc \<Rightarrow> Some (rc, lg_sender r, lr_profit r, lr_forward r))"

definition leg_split :: "leg_row \<Rightarrow> bool" where
  "leg_split r \<longleftrightarrow>
     (case (lr_received r, lr_profit r, lr_forward r) of
        (None, None, None) \<Rightarrow> True
      | (Some rc, Some p, Some f) \<Rightarrow> p + f = rc
      | _ \<Rightarrow> False)"

definition row_step :: "leg_row \<Rightarrow> leg_row \<Rightarrow> bool" where
  "row_step r r' \<longleftrightarrow>
     lg_external_id r' = lg_external_id r \<and> lg_id r' = lg_id r \<and> leg_identity r' = leg_identity r \<and>
     (lg_status r' = lg_status r \<or> leg_edge (lg_status r) (lg_status r')) \<and>
     (\<forall>d. leg_deposit r = Some d \<longrightarrow> leg_deposit r' = Some d) \<and>
     (leg_split r \<longrightarrow> leg_split r')"

lemmas row_defs = row_step_def leg_identity_def leg_deposit_def leg_split_def

lemma row_step_refl [simp, intro]: "row_step r r"
  by (simp add: row_step_def)

lemma row_step_status: "row_step r r' \<Longrightarrow> lg_status r' = lg_status r \<or> leg_edge (lg_status r) (lg_status r')"
  by (simp add: row_step_def)

text \<open>With the CHECK constraints the word equation of the split is one of integers.\<close>

lemma leg_split_exact:
  assumes "leg_check r" and "leg_split r" and "lr_received r = Some rc"
  shows "\<exists>p f. lr_profit r = Some p \<and> lr_forward r = Some f \<and>
    0 \<le> sint p \<and> 0 < sint f \<and> sint p + sint f = sint rc"
proof -
  obtain p f where pf: "lr_profit r = Some p" "lr_forward r = Some f" "p + f = rc"
    using assms(2,3) by (auto simp: leg_split_def split: option.splits)
  have "0 < sint rc" "0 \<le> sint p" "0 < sint f"
    using assms(1,3) pf by (simp_all add: leg_check_def word_sless_alt word_sle_eq)
  moreover have "sint p + sint f = sint rc"
    using sint64_add_cases [of p f] calculation sint64_range [of p] sint64_range [of f] sint64_range [of "p + f"] pf(3)
    by auto
  ultimately show ?thesis using pf by blast
qed

section \<open>The table\<close>

definition legs_ok :: "relay_db \<Rightarrow> bool" where
  "legs_ok db \<longleftrightarrow>
     distinct (map lg_external_id (legs db)) \<and> sorted_wrt (<) (map lg_id (legs db)) \<and>
     (\<forall>r \<in> set (legs db). lg_id r \<le> legs_seq db \<and> leg_check r \<and> leg_split r) \<and>
     upstream_unique (legs db)"

lemma legs_ok_empty: "legs_ok empty_relay_db"
  by (simp add: legs_ok_def empty_relay_db_def upstream_unique_def List.map_filter_def)

definition leg_at :: "relay_db \<Rightarrow> string \<Rightarrow> leg_row option" where
  "leg_at db ext = first_row (\<lambda>r. lg_external_id r = ext) (legs db)"

lemma leg_atD: "leg_at db ext = Some r \<Longrightarrow> r \<in> set (legs db) \<and> lg_external_id r = ext"
  unfolding leg_at_def by (rule first_row_Some)

lemma leg_at_None: "leg_at db ext = None \<longleftrightarrow> ext \<notin> lg_external_id ` set (legs db)"
  by (auto simp: leg_at_def first_row_None)

lemma map_filter_unique:
  assumes "distinct (List.map_filter f rows)" and "a \<in> set rows" "b \<in> set rows"
    and "f a = Some v" "f b = Some v"
  shows "a = b"
  using assms by (auto simp: List.map_filter_def distinct_map inj_on_def)

text \<open>A step of the table: rows move by \<open>row_step\<close>, and at most one is added, under a new name.\<close>

definition legs_step :: "relay_db \<Rightarrow> relay_db \<Rightarrow> bool" where
  "legs_step db db' \<longleftrightarrow>
     (\<exists>f new. legs db' = map f (legs db) @ new \<and> (\<forall>r \<in> set (legs db). row_step r (f r)) \<and>
        (\<forall>r \<in> set new. lg_external_id r \<notin> lg_external_id ` set (legs db)))"

lemma legs_step_at:
  assumes "legs_step db db'" and "leg_at db ext = Some r"
  shows "\<exists>r'. leg_at db' ext = Some r' \<and> row_step r r'"
proof -
  obtain f new where s: "legs db' = map f (legs db) @ new" "\<forall>r \<in> set (legs db). row_step r (f r)"
    using assms(1) by (auto simp: legs_step_def)
  then have "first_row (\<lambda>r. lg_external_id r = ext) (map f (legs db)) = Some (f r)"
    using assms(2) by (subst first_row_map_key) (auto simp: row_step_def leg_at_def)
  then show ?thesis using s leg_atD [OF assms(2)] by (auto simp: leg_at_def first_row_append)
qed

lemma legs_step_update:
  assumes "legs db' = update_rows p f (legs db)" and "\<And>r. p r \<Longrightarrow> row_step r (f r)"
  shows "legs_step db db'"
  unfolding legs_step_def using assms
  by (intro exI [of _ "\<lambda>r. if p r then f r else r"] exI [of _ "[]"]) (auto simp: update_rows_def)

lemma write_legs_Inr:
  "write_legs db rows = Inr db' \<longleftrightarrow> list_all leg_check rows \<and> upstream_unique rows \<and> db' = db\<lparr>legs := rows\<rparr>"
  by (auto simp: write_legs_def)

lemma update_ok:
  assumes "legs_ok db" and "write_legs db (update_rows p f (legs db)) = Inr db'"
    and step: "\<And>r. p r \<Longrightarrow> row_step r (f r)"
  shows "legs_step db db' \<and> legs_ok db'"
proof -
  have w: "list_all leg_check (update_rows p f (legs db))" "upstream_unique (update_rows p f (legs db))"
    and db': "db' = db\<lparr>legs := update_rows p f (legs db)\<rparr>"
    using assms(2) by (simp_all add: write_legs_Inr)
  have "map lg_external_id (update_rows p f (legs db)) = map lg_external_id (legs db)"
    and "map lg_id (update_rows p f (legs db)) = map lg_id (legs db)"
    using step by (auto intro!: map_update_rows simp: row_step_def)
  then have "legs_ok db'"
    using assms(1) w step by (auto simp: legs_ok_def db' list_all_iff set_update_rows row_step_def)
  then show ?thesis using legs_step_update [OF _ step] by (simp add: db')
qed

lemma mark_leg_Inr:
  assumes "mark_leg ext from to f db = Inr db'"
  shows "write_legs db (update_rows (at_status ext from) f (legs db)) = Inr db'"
  using assms by (auto simp: mark_leg_def split: if_splits)

lemma mark_ok:
  assumes "legs_ok db" and "mark_leg ext from to f db = Inr db'"
    and "\<And>r. lg_status r \<in> set from \<Longrightarrow> row_step r (f r)"
  shows "legs_step db db' \<and> legs_ok db'"
  using update_ok [OF assms(1) mark_leg_Inr [OF assms(2)]] assms(3) by (auto simp: at_status_def)

lemma CreateLeg_cases:
  assumes "CreateLeg now l db = Inr (db', leg)"
  obtains (new) "leg_check (new_leg_row now (legs_seq db + 1) l)" "leg_at db (lg_external_id l) = None"
      "db' = db\<lparr>legs_seq := legs_seq db + 1, legs := legs db @ [new_leg_row now (legs_seq db + 1) l]\<rparr>"
      "leg = scanLeg (new_leg_row now (legs_seq db + 1) l)"
    | (old) r where "leg_at db (lg_external_id l) = Some r" "db' = db\<lparr>legs_seq := legs_seq db + 1\<rparr>"
      "leg = scanLeg r"
  using assms
  by (auto simp: CreateLeg_def Let_def Leg_GetByExternalID_def leg_at_def list_ex_iff first_row_None
      split: if_splits option.splits)

lemma new_leg_row_facts [simp]:
  "lg_external_id (new_leg_row now i l) = lg_external_id l" "lg_id (new_leg_row now i l) = i"
  "leg_split (new_leg_row now i l)" "vendor_order (new_leg_row now i l) = None"
  "lg_status (new_leg_row now i l) = AWAITING_DEPOSIT" "lr_received (new_leg_row now i l) = None"
  by (simp_all add: new_leg_row_def leg_split_def vendor_order_def)

lemma CreateLeg_ok:
  assumes "legs_ok db" and "CreateLeg now l db = Inr (db', leg)"
  shows "legs_step db db' \<and> legs_ok db'"
  using assms(2)
proof (cases rule: CreateLeg_cases)
  case new
  have "lg_external_id l \<notin> lg_external_id ` set (legs db)" using new(2) by (simp add: leg_at_None)
  then have "legs_step db db'"
    unfolding legs_step_def new(3) by (intro exI [of _ "\<lambda>r. r"] exI [of _ "[new_leg_row now (legs_seq db + 1) l]"]) auto
  moreover have "legs_ok db'"
    using assms(1) new(1) \<open>lg_external_id l \<notin> lg_external_id ` set (legs db)\<close> unfolding new(3)
    by (auto simp: legs_ok_def sorted_wrt_append upstream_unique_def List.map_filter_def)
  ultimately show ?thesis by blast
next
  case (old r)
  have "legs_step db db'"
    unfolding legs_step_def old(2) by (intro exI [of _ "\<lambda>r. r"] exI [of _ "[]"]) auto
  then show ?thesis using assms(1) by (auto simp: legs_ok_def old(2))
qed


text \<open>Which rows a transition may touch, and that what it writes is a step of the row.\<close>

lemma mark_row_steps [relay_simps]:
  "lg_status r = AWAITING_DEPOSIT \<Longrightarrow> row_step r (r\<lparr>lg_status := FORWARDING, lg_provider := p,
     lg_upstream_order := u, lg_upstream_address := a, lg_updated_at := now\<rparr>)"
  "lg_status r = FORWARDING \<Longrightarrow> row_step r (r\<lparr>lg_status := FORWARDED, lg_forward_tx := p, lg_updated_at := now\<rparr>)"
  "lg_status r = FORWARDED \<Longrightarrow> row_step r (r\<lparr>lg_status := SETTLED, lr_out_actual := w, lg_updated_at := now\<rparr>)"
  "lg_status r = REFUND_PENDING \<Longrightarrow> row_step r (r\<lparr>lg_status := REFUNDED, lg_refund_tx := p, lg_updated_at := now\<rparr>)"
  "leg_edge (lg_status r) st \<Longrightarrow> row_step r (r\<lparr>lg_status := st, lg_updated_at := now\<rparr>)"
  by (cases "lr_received r"; simp add: row_defs)+

lemma note_row_steps [relay_simps]:
  "row_step r (r\<lparr>lg_provider := p, lg_upstream_order := u, lg_upstream_address := a, lg_updated_at := now\<rparr>)"
  "row_step r (r\<lparr>lg_stale_alerted_at := t\<rparr>)" "row_step r (r\<lparr>lg_attempt_started_at := t\<rparr>)"
  "row_step r (r\<lparr>lg_lease_released_at := t\<rparr>)" "row_step r (r\<lparr>lg_payout_tx := p\<rparr>)"
  "row_step r (r\<lparr>lg_vendor_fee := w\<rparr>)"
  "lr_received r = None \<Longrightarrow> p' + f = rc \<Longrightarrow> row_step r (r\<lparr>lr_received := Some rc, lg_sender := s,
     lr_profit := Some p', lr_forward := Some f\<rparr>)"
  by (cases "lr_received r"; auto simp: row_defs split: option.splits)+

lemmas mark_defs =
  MarkForwarding_def MarkForwarded_def MarkSettled_def MarkLegFailed_def MarkRefundPending_def
  MarkRefunded_def MarkUnrecoverable_def MarkExpired_def

lemmas note_defs =
  ReplaceVendorOrder_def MarkStaleAlerted_def MarkForwardAttemptStarted_def MarkLeaseReleased_def
  RecordDeposit_def RecordPayoutTx_def RecordVendorFee_def

lemma leg_exec_ok:
  assumes "legs_ok db" and "leg_exec opn db = Inr db'"
  shows "legs_step db db' \<and> legs_ok db'"
proof (cases opn)
  case (OpCreateLeg now l)
  then show ?thesis using assms CreateLeg_ok by (cases "CreateLeg now l db") auto
next
  case (OpReplaceVendorOrder now ext old p i a)
  then show ?thesis using assms(2)
    by (auto simp: ReplaceVendorOrder_def Let_def note_row_steps split: if_splits intro!: update_ok [OF assms(1)])
next
  case (OpRecordDeposit ext rc s p f)
  then obtain l where "RecordDeposit ext rc s p f db = Inr (db', l)"
    using assms(2) by (cases "RecordDeposit ext rc s p f db") auto
  then have eq: "amt_units p + amt_units f = amt_units rc"
    and w: "write_legs db (update_rows (\<lambda>r. lg_external_id r = ext \<and> lr_received r = None)
        (\<lambda>r. r\<lparr>lr_received := Some (amt_units rc), lg_sender := Some s,
               lr_profit := Some (amt_units p), lr_forward := Some (amt_units f)\<rparr>) (legs db)) = Inr db'"
    by (auto simp: RecordDeposit_def split: if_splits)
  show ?thesis by (rule update_ok [OF assms(1) w]) (simp add: note_row_steps eq)
next
  case (OpMarkStaleAlerted now ext)
  then obtain b where "MarkStaleAlerted now ext db = Inr (db', b)"
    using assms(2) by (cases "MarkStaleAlerted now ext db") auto
  then show ?thesis by (auto simp: MarkStaleAlerted_def Let_def note_row_steps intro!: update_ok [OF assms(1)])
next
  case (OpMarkForwardAttemptStarted now ext)
  then show ?thesis using assms(2) by (auto simp: note_defs note_row_steps intro!: update_ok [OF assms(1)])
next
  case (OpMarkLeaseReleased now ext)
  then show ?thesis using assms(2) by (auto simp: note_defs note_row_steps intro!: update_ok [OF assms(1)])
next
  case (OpRecordPayoutTx ext tx)
  then show ?thesis using assms(2) by (auto simp: note_defs note_row_steps intro!: update_ok [OF assms(1)])
next
  case (OpRecordVendorFee ext fee)
  then show ?thesis using assms(2) by (auto simp: note_defs note_row_steps intro!: update_ok [OF assms(1)])
qed (insert assms(2), (auto simp: mark_defs mark_row_steps intro!: mark_ok [OF assms(1)])+)

section \<open>The contracts\<close>

definition leg_status_of :: "relay_db \<Rightarrow> string \<Rightarrow> leg_status option" where
  "leg_status_of db ext = map_option lg_status (leg_at db ext)"

definition deposit_at where
  "deposit_at db ext = Option.bind (leg_at db ext) leg_deposit"

definition identity_at where
  "identity_at db ext = map_option leg_identity (leg_at db ext)"

lemma deposit_atE:
  assumes "deposit_at db ext = Some d"
  obtains r where "leg_at db ext = Some r" "leg_deposit r = Some d"
  using assms by (auto simp: deposit_at_def bind_eq_Some_conv)

interpretation leg_store: status_store leg_exec legs_ok leg_status_of leg_edge
proof
  fix opn db db' k s
  assume ok: "legs_ok db" and e: "leg_exec opn db = Inr db'"
  note step = leg_exec_ok [OF ok e]
  show "legs_ok db'" using step by blast
  show "\<exists>t. leg_status_of db' k = Some t \<and> (t = s \<or> leg_edge s t)" if "leg_status_of db k = Some s"
    using that legs_step_at [of db db' k] step row_step_status by (fastforce simp: leg_status_of_def)
qed

interpretation leg_deposits: write_once leg_exec legs_ok deposit_at
proof
  fix opn db db' k v
  assume ok: "legs_ok db" and e: "leg_exec opn db = Inr db'" and d: "deposit_at db k = Some v"
  obtain r where r: "leg_at db k = Some r" "leg_deposit r = Some v" using d by (rule deposit_atE)
  obtain r' where "leg_at db' k = Some r'" "row_step r r'"
    using legs_step_at [OF _ r(1)] leg_exec_ok [OF ok e] by blast
  then show "deposit_at db' k = Some v" using r(2) by (simp add: deposit_at_def row_step_def)
qed

interpretation leg_identities: write_once leg_exec legs_ok identity_at
proof
  fix opn db db' k v
  assume ok: "legs_ok db" and e: "leg_exec opn db = Inr db'" and d: "identity_at db k = Some v"
  then obtain r where r: "leg_at db k = Some r" "leg_identity r = v" by (auto simp: identity_at_def)
  obtain r' where "leg_at db' k = Some r'" "row_step r r'"
    using legs_step_at [OF _ r(1)] leg_exec_ok [OF ok e] by blast
  then show "identity_at db' k = Some v" using r(2) by (simp add: identity_at_def row_step_def)
qed

abbreviation legs_reached :: "leg_op list \<Rightarrow> relay_db" where
  "legs_reached ops \<equiv> run_ops leg_exec ops empty_relay_db"

lemma legs_reached_ok: "legs_ok (legs_reached ops)"
  by (rule leg_store.run_inv [OF legs_ok_empty])

section \<open>Repeated calls\<close>

lemma leg_at_update:
  assumes "\<And>r. p r \<Longrightarrow> lg_external_id (f r) = lg_external_id r"
  shows "first_row (\<lambda>r. lg_external_id r = ext) (update_rows p f rows) =
    map_option (\<lambda>r. if p r then f r else r) (first_row (\<lambda>r. lg_external_id r = ext) rows)"
  by (rule first_row_update_key) (rule assms)

text \<open>A transition whose target is not among its sources can be repeated, with any arguments: the
  second call finds no row and succeeds without writing.\<close>

lemma mark_again:
  assumes ok: "legs_ok db" and m: "mark_leg ext from to f db = Inr db'"
    and to: "\<And>r. lg_status (f r) = to" "to \<notin> set from"
    and ext: "\<And>r. lg_external_id (f r) = lg_external_id r"
  shows "mark_leg ext from to g db' = Inr db'"
proof -
  note w = mark_leg_Inr [OF m, unfolded write_legs_Inr]
  have at: "leg_at db' ext = map_option (\<lambda>r. if at_status ext from r then f r else r) (leg_at db ext)"
    using w by (simp add: leg_at_def leg_at_update ext)
  have none: "\<not> at_status ext from r" if m: "r \<in> set (legs db')" for r
  proof -
    obtain q where "r = (if at_status ext from q then f q else q)" using m w by (auto simp: set_update_rows)
    then show ?thesis using to by (cases "at_status ext from q") (simp_all add: at_status_def)
  qed
  have "\<exists>r. leg_at db' ext = Some r \<and> lg_status r = to"
  proof (cases "affected (at_status ext from) (legs db) = 0")
    case True
    then have "checkAlreadyAt db' ext to = Inr ()" using m w by (auto simp: mark_leg_def split: if_splits)
    then show ?thesis
      by (auto simp: checkAlreadyAt_def Leg_GetByExternalID_def leg_at_def scanLeg_def leg_core.defs split: option.splits if_splits)
  next
    case False
    then obtain r where r: "r \<in> set (legs db)" "at_status ext from r" by (auto simp: affected_0)
    then have "leg_at db ext = Some r" unfolding leg_at_def using ok
      by (intro first_row_unique) (auto simp: legs_ok_def at_status_def)
    then show ?thesis using at r(2) to(1) by simp
  qed
  then have "checkAlreadyAt db' ext to = Inr ()"
    by (auto simp: checkAlreadyAt_def Leg_GetByExternalID_def leg_at_def scanLeg_def leg_core.defs)
  moreover have "write_legs db' (update_rows (at_status ext from) g (legs db')) = Inr db'"
    using w by (simp add: update_rows_none none write_legs_Inr)
  ultimately show ?thesis using none by (auto simp: mark_leg_def affected_0)
qed

end
