(* ===== verification/Transfers.thy ===== *)
theory Transfers
  imports Money Store
begin

text \<open>
  The transfer attempts of relayd (\<open>relayd/internal/transfers\<close>): every transaction relayd builds is
  a row, recorded before it is signed and signed before it is sent; beside them the energy rentals
  bought for them.

  \<^item> \<open>attempt\<close> is the struct \<open>Attempt\<close> and a row of \<open>transfer_attempts\<close>: \<open>scanAttempt\<close> reads the
    columns back as they were written (amount and asset columns form \<open>Amount\<close>; a \<open>uint64\<close> nonce
    survives the \<open>bigint\<close> column). A 32-byte digest is a \<open>256 word\<close>, a 65-byte signature a
    \<open>520 word\<close>. Times are kept as the columns hold them.
  \<^item> \<open>attempt_check\<close> are the CHECK constraints, \<open>one_open\<close>, \<open>one_confirmed\<close> and \<open>hash_unique\<close> the
    partial unique indexes; \<open>write_attempts\<close> ends a statement.
  \<^item> \<open>transition\<close> is the function all the status changes go through.
  \<^item> A connection error is not modelled. After a refused insert the next identity is reused,
    where Postgres leaves a gap.
\<close>

section \<open>Rows\<close>

datatype purpose = FORWARD | REFUND | GAS_TOPUP | TRX_TOPUP | SWEEP | OtherPurpose string
datatype chain = BSC | TRON | OtherChain string
datatype attempt_status = Built | Signed | Broadcast | Confirmed | Failed | Dropped | Abandoned

type_synonym bytes = "8 word list"
type_synonym digest = "256 word"
type_synonym signature = "520 word"

datatype transfer_error = ErrOpenAttemptExists | ErrAttemptStatus | ErrNoAttempt | ErrTransferConstraint

definition status_open :: "attempt_status \<Rightarrow> bool" where
  "status_open s \<longleftrightarrow> s = Built \<or> s = Signed \<or> s = Broadcast"

definition MayLand :: "attempt_status \<Rightarrow> bool" where
  "MayLand s \<longleftrightarrow> s = Signed \<or> s = Broadcast"

record attempt =
  ta_id :: int
  ta_external_id :: string
  ta_purpose :: purpose
  ta_chain :: chain
  ta_from :: string
  ta_to :: string
  ta_amount :: amount
  ta_status :: attempt_status
  ta_unsigned :: bytes
  ta_digest :: digest
  ta_signature :: "signature option"
  ta_hash :: "string option"
  ta_nonce :: "64 word option"
  ta_expires_at :: "time option"
  ta_broadcasts :: int
  ta_last_broadcast :: "time option"
  ta_last_error :: "string option"
  ta_nonce_consumed :: "time option"
  ta_stuck_alerted :: "time option"
  ta_reason :: "string option"
  ta_created_at :: time
  ta_updated_at :: time

record rental =
  rn_id :: int
  rn_job :: string
  rn_purpose :: purpose
  rn_address :: string
  rn_resource :: string
  rn_units :: int64
  rn_key :: string
  rn_provider :: "string option"
  rn_status :: string
  rn_cost_sun :: "int64 option"
  rn_error :: "string option"
  rn_created_at :: time
  rn_updated_at :: time

record transfer_db =
  attempts :: "attempt list"
  attempts_seq :: int
  rentals :: "rental list"
  rentals_seq :: int

definition empty_transfer_db :: transfer_db where
  "empty_transfer_db = \<lparr>attempts = [], attempts_seq = 0, rentals = [], rentals_seq = 0\<rparr>"

section \<open>Constraints\<close>

definition attempt_check :: "attempt \<Rightarrow> bool" where
  "attempt_check a \<longleftrightarrow>
     ta_purpose a \<in> {FORWARD, REFUND, GAS_TOPUP, TRX_TOPUP, SWEEP} \<and>
     ta_chain a \<in> {BSC, TRON} \<and> 0 <s amt_units (ta_amount a) \<and>
     amt_asset (ta_amount a) \<in> {USDT_BEP20, USDT_TRC20, BNB, TRX} \<and>
     (ta_status a \<in> {Built, Abandoned} \<or> ta_signature a \<noteq> None \<and> ta_hash a \<noteq> None) \<and>
     (ta_chain a = BSC) = (ta_nonce a \<noteq> None) \<and>
     (ta_chain a = TRON) = (ta_expires_at a \<noteq> None)"

definition attempt_job :: "attempt \<Rightarrow> string \<times> purpose" where
  "attempt_job a = (ta_external_id a, ta_purpose a)"

definition one_open :: "attempt list \<Rightarrow> bool" where
  "one_open rows \<longleftrightarrow> distinct (map attempt_job (filter (\<lambda>a. status_open (ta_status a)) rows))"

definition one_confirmed :: "attempt list \<Rightarrow> bool" where
  "one_confirmed rows \<longleftrightarrow> distinct (map attempt_job (filter (\<lambda>a. ta_status a = Confirmed) rows))"

definition hash_unique :: "attempt list \<Rightarrow> bool" where
  "hash_unique rows \<longleftrightarrow> distinct (List.map_filter ta_hash rows)"

definition write_attempts :: "transfer_db \<Rightarrow> attempt list \<Rightarrow> transfer_error + transfer_db" where
  "write_attempts db rows =
     (if list_all attempt_check rows \<and> one_open rows \<and> one_confirmed rows \<and> hash_unique rows
      then Inr (db\<lparr>attempts := rows\<rparr>) else Inl ErrTransferConstraint)"

section \<open>Create and the reads\<close>

definition GetAttempt :: "transfer_db \<Rightarrow> int \<Rightarrow> transfer_error + attempt" where
  "GetAttempt db i =
     (case first_row (\<lambda>a. ta_id a = i) (attempts db) of None \<Rightarrow> Inl ErrNoAttempt | Some a \<Rightarrow> Inr a)"

definition new_attempt :: "time \<Rightarrow> int \<Rightarrow> attempt \<Rightarrow> attempt" where
  "new_attempt now i a =
     \<lparr>ta_id = i, ta_external_id = ta_external_id a, ta_purpose = ta_purpose a, ta_chain = ta_chain a,
      ta_from = ta_from a, ta_to = ta_to a, ta_amount = ta_amount a, ta_status = Built,
      ta_unsigned = ta_unsigned a, ta_digest = ta_digest a, ta_signature = None, ta_hash = ta_hash a,
      ta_nonce = ta_nonce a, ta_expires_at = ta_expires_at a, ta_broadcasts = 0,
      ta_last_broadcast = None, ta_last_error = None, ta_nonce_consumed = None,
      ta_stuck_alerted = None, ta_reason = None, ta_created_at = now, ta_updated_at = now\<rparr>"

definition CreateAttempt :: "time \<Rightarrow> attempt \<Rightarrow> transfer_db \<Rightarrow> transfer_error + (transfer_db \<times> attempt)" where
  "CreateAttempt now a db =
     (let i = attempts_seq db + 1; row = new_attempt now i a; rows = attempts db @ [row] in
      if \<not> attempt_check row then Inl ErrTransferConstraint
      else if \<not> one_open rows then Inl ErrOpenAttemptExists
      else
        rbind (write_attempts (db\<lparr>attempts_seq := i\<rparr>) rows) (\<lambda>db'.
        rbind (GetAttempt db' i) (\<lambda>a'. Inr (db', a'))))"

definition one :: "(attempt \<Rightarrow> bool) \<Rightarrow> transfer_db \<Rightarrow> string \<Rightarrow> purpose \<Rightarrow> attempt option" where
  "one p db ext purp =
     first_row (\<lambda>a. ta_external_id a = ext \<and> ta_purpose a = purp \<and> p a) (attempts db)"

definition OpenAttempt :: "transfer_db \<Rightarrow> string \<Rightarrow> purpose \<Rightarrow> attempt option" where
  "OpenAttempt = one (\<lambda>a. ta_status a \<in> {Built, Signed, Broadcast})"

definition ConfirmedAttempt :: "transfer_db \<Rightarrow> string \<Rightarrow> purpose \<Rightarrow> attempt option" where
  "ConfirmedAttempt = one (\<lambda>a. ta_status a = Confirmed)"

definition ListOpen :: "transfer_db \<Rightarrow> purpose list \<Rightarrow> attempt list" where
  "ListOpen db purposes =
     sort_key ta_id (filter (\<lambda>a. ta_purpose a \<in> set purposes \<and> ta_status a \<in> {Built, Signed, Broadcast}) (attempts db))"

definition OpenFrom :: "transfer_db \<Rightarrow> string \<Rightarrow> attempt option" where
  "OpenFrom db address =
     first_row (\<lambda>a. ta_from a = address \<and> ta_status a \<in> {Built, Signed, Broadcast}) (sort_key ta_id (attempts db))"

definition starts_with :: "string \<Rightarrow> string \<Rightarrow> bool" where
  "starts_with s p \<longleftrightarrow> take (length p) s = p"

definition CountConfirmedWithPrefix :: "transfer_db \<Rightarrow> string \<Rightarrow> purpose \<Rightarrow> nat" where
  "CountConfirmedWithPrefix db prefix purp =
     affected (\<lambda>a. starts_with (ta_external_id a) prefix \<and> ta_purpose a = purp \<and> ta_status a = Confirmed) (attempts db)"

definition LastConfirmedWithPrefix :: "transfer_db \<Rightarrow> string \<Rightarrow> purpose \<Rightarrow> time option" where
  "LastConfirmedWithPrefix db prefix purp =
     (case map ta_updated_at (filter (\<lambda>a. starts_with (ta_external_id a) prefix \<and> ta_purpose a = purp \<and>
             ta_status a = Confirmed) (attempts db)) of
        [] \<Rightarrow> None
      | t # ts \<Rightarrow> Some (fold max ts t))"

definition CountFailed :: "transfer_db \<Rightarrow> string \<Rightarrow> purpose \<Rightarrow> nat" where
  "CountFailed db ext purp =
     affected (\<lambda>a. ta_external_id a = ext \<and> ta_purpose a = purp \<and> ta_status a = Failed) (attempts db)"

definition ListRelated :: "transfer_db \<Rightarrow> string \<Rightarrow> attempt list" where
  "ListRelated db job =
     sort_key ta_id (filter (\<lambda>a. ta_external_id a = job \<or>
       starts_with (ta_external_id a) (''gas_topup:'' @ job @ '':'') \<or>
       starts_with (ta_external_id a) (''trx_topup:'' @ job @ '':'')) (attempts db))"

definition ListForLeg :: "transfer_db \<Rightarrow> string \<Rightarrow> attempt list" where
  "ListForLeg db ext = sort_key ta_id (filter (\<lambda>a. ta_external_id a = ext) (attempts db))"

section \<open>Status changes\<close>

definition transition ::
  "time \<Rightarrow> int \<Rightarrow> attempt_status \<Rightarrow> attempt_status list \<Rightarrow> (attempt \<Rightarrow> attempt) \<Rightarrow> transfer_db \<Rightarrow> transfer_error + transfer_db" where
  "transition now i to from extra db =
     (let p = (\<lambda>a. ta_id a = i \<and> ta_status a \<in> set from) in
      rbind (write_attempts db (update_rows p (\<lambda>a. extra (a\<lparr>ta_status := to, ta_updated_at := now\<rparr>)) (attempts db))) (\<lambda>db'.
      if 0 < affected p (attempts db) then Inr db'
      else
        rbind (GetAttempt db' i) (\<lambda>current.
        if ta_status current = to then Inr db' else Inl ErrAttemptStatus)))"

definition MarkSigned :: "time \<Rightarrow> int \<Rightarrow> signature \<Rightarrow> string \<Rightarrow> transfer_db \<Rightarrow> transfer_error + transfer_db" where
  "MarkSigned now i sig hash =
     transition now i Signed [Built] (\<lambda>a. a\<lparr>ta_signature := Some sig, ta_hash := Some hash\<rparr>)"

definition RecordBroadcast :: "time \<Rightarrow> int \<Rightarrow> string option \<Rightarrow> transfer_db \<Rightarrow> transfer_error + transfer_db" where
  "RecordBroadcast now i sendErr db =
     (let p = (\<lambda>a. ta_id a = i \<and> ta_status a \<in> {Signed, Broadcast}) in
      rbind (write_attempts db (update_rows p
        (\<lambda>a. a\<lparr>ta_broadcasts := ta_broadcasts a + 1, ta_last_broadcast := Some now, ta_last_error := sendErr,
               ta_status := (if sendErr = None \<and> ta_status a = Signed then Broadcast else ta_status a),
               ta_updated_at := now\<rparr>) (attempts db))) (\<lambda>db'.
      if affected p (attempts db) = 0 then Inl ErrAttemptStatus else Inr db'))"

definition MarkConfirmed :: "time \<Rightarrow> int \<Rightarrow> transfer_db \<Rightarrow> transfer_error + transfer_db" where
  "MarkConfirmed now i = transition now i Confirmed [Signed, Broadcast] (\<lambda>a. a)"

definition MarkFailed :: "time \<Rightarrow> int \<Rightarrow> string \<Rightarrow> transfer_db \<Rightarrow> transfer_error + transfer_db" where
  "MarkFailed now i reason =
     transition now i Failed [Signed, Broadcast] (\<lambda>a. a\<lparr>ta_reason := Some reason\<rparr>)"

definition MarkDropped :: "time \<Rightarrow> int \<Rightarrow> string \<Rightarrow> transfer_db \<Rightarrow> transfer_error + transfer_db" where
  "MarkDropped now i reason =
     transition now i Dropped [Signed, Broadcast] (\<lambda>a. a\<lparr>ta_reason := Some reason\<rparr>)"

definition MarkAbandoned :: "time \<Rightarrow> int \<Rightarrow> string \<Rightarrow> transfer_db \<Rightarrow> transfer_error + transfer_db" where
  "MarkAbandoned now i reason =
     transition now i Abandoned [Built] (\<lambda>a. a\<lparr>ta_reason := Some reason\<rparr>)"

definition SetNonceConsumedSince :: "time \<Rightarrow> int \<Rightarrow> time option \<Rightarrow> transfer_db \<Rightarrow> transfer_error + transfer_db" where
  "SetNonceConsumedSince now i at db =
     write_attempts db (update_rows (\<lambda>a. ta_id a = i)
       (\<lambda>a. a\<lparr>ta_nonce_consumed := at, ta_updated_at := now\<rparr>) (attempts db))"

definition MarkStuckAlerted :: "time \<Rightarrow> int \<Rightarrow> transfer_db \<Rightarrow> transfer_error + (transfer_db \<times> bool)" where
  "MarkStuckAlerted now i db =
     (let p = (\<lambda>a. ta_id a = i \<and> ta_stuck_alerted a = None) in
      rbind (write_attempts db (update_rows p (\<lambda>a. a\<lparr>ta_stuck_alerted := Some now\<rparr>) (attempts db))) (\<lambda>db'.
      Inr (db', 0 < affected p (attempts db))))"

section \<open>Rentals\<close>

definition rental_of :: "string \<Rightarrow> purpose \<Rightarrow> string \<Rightarrow> rental \<Rightarrow> bool" where
  "rental_of job purp resource r \<longleftrightarrow> rn_job r = job \<and> rn_purpose r = purp \<and> rn_resource r = resource"

definition LatestRental :: "transfer_db \<Rightarrow> string \<Rightarrow> purpose \<Rightarrow> string \<Rightarrow> rental option \<times> nat" where
  "LatestRental db job purp resource =
     (case first_row (rental_of job purp resource) (rev (sort_key rn_id (rentals db))) of
        None \<Rightarrow> (None, 0)
      | Some r \<Rightarrow> (Some r, affected (rental_of job purp resource) (rentals db)))"

definition rental_check :: "rental \<Rightarrow> bool" where
  "rental_check r \<longleftrightarrow> rn_resource r \<in> {''ENERGY'', ''BANDWIDTH''} \<and> 0 <s rn_units r"

definition CreateRental :: "time \<Rightarrow> rental \<Rightarrow> transfer_db \<Rightarrow> transfer_error + (transfer_db \<times> rental)" where
  "CreateRental now r db =
     (let i = rentals_seq db + 1;
          row = \<lparr>rn_id = i, rn_job = rn_job r, rn_purpose = rn_purpose r, rn_address = rn_address r,
                 rn_resource = rn_resource r, rn_units = rn_units r, rn_key = rn_key r, rn_provider = None,
                 rn_status = ''PENDING'', rn_cost_sun = None, rn_error = None, rn_created_at = now,
                 rn_updated_at = now\<rparr>;
          db = db\<lparr>rentals_seq := i\<rparr> in
      if \<not> rental_check row then Inl ErrTransferConstraint
      else case first_row (\<lambda>q. rn_key q = rn_key r) (rentals db) of
        Some q \<Rightarrow> Inr (db, q)
      | None \<Rightarrow> Inr (db\<lparr>rentals := rentals db @ [row]\<rparr>, row))"

definition FinishRental ::
  "time \<Rightarrow> int \<Rightarrow> bool \<Rightarrow> string option \<Rightarrow> int64 option \<Rightarrow> string option \<Rightarrow> transfer_db \<Rightarrow> transfer_db" where
  "FinishRental now i confirmed provider cost cause db =
     db\<lparr>rentals := update_rows (\<lambda>r. rn_id r = i \<and> rn_status r = ''PENDING'')
       (\<lambda>r. r\<lparr>rn_status := (if confirmed then ''CONFIRMED'' else ''FAILED''), rn_provider := provider,
              rn_cost_sun := cost, rn_error := cause, rn_updated_at := now\<rparr>) (rentals db)\<rparr>"

definition RentalsForJob :: "transfer_db \<Rightarrow> string \<Rightarrow> rental list" where
  "RentalsForJob db job = sort_key rn_id (filter (\<lambda>r. rn_job r = job) (rentals db))"

end
