(* ===== verification/Transfers_Inv.thy ===== *)
theory Transfers_Inv
  imports Transfers
begin

text \<open>
  What the operations of \<open>Transfers\<close> do to the table of attempts: rows move by \<open>attempt_step\<close>, at
  most one is added under a new identity. So an attempt's status follows \<open>attempt_edge\<close>, the
  transaction it records never changes, and a signature once stored stays.
\<close>

section \<open>The operations that write\<close>

datatype transfer_op =
    OpCreateAttempt time attempt
  | OpMarkSigned time int signature string
  | OpRecordBroadcast time int "string option"
  | OpMarkConfirmed time int
  | OpMarkFailed time int string
  | OpMarkDropped time int string
  | OpMarkAbandoned time int string
  | OpSetNonceConsumedSince time int "time option"
  | OpMarkStuckAlerted time int
  | OpCreateRental time rental
  | OpFinishRental time int bool "string option" "int64 option" "string option"

fun transfer_exec :: "transfer_op \<Rightarrow> transfer_db \<Rightarrow> transfer_error + transfer_db" where
  "transfer_exec (OpCreateAttempt now a) db = map_sum id fst (CreateAttempt now a db)"
| "transfer_exec (OpMarkSigned now i sig h) db = MarkSigned now i sig h db"
| "transfer_exec (OpRecordBroadcast now i e) db = RecordBroadcast now i e db"
| "transfer_exec (OpMarkConfirmed now i) db = MarkConfirmed now i db"
| "transfer_exec (OpMarkFailed now i r) db = MarkFailed now i r db"
| "transfer_exec (OpMarkDropped now i r) db = MarkDropped now i r db"
| "transfer_exec (OpMarkAbandoned now i r) db = MarkAbandoned now i r db"
| "transfer_exec (OpSetNonceConsumedSince now i at) db = SetNonceConsumedSince now i at db"
| "transfer_exec (OpMarkStuckAlerted now i) db = map_sum id fst (MarkStuckAlerted now i db)"
| "transfer_exec (OpCreateRental now r) db = map_sum id fst (CreateRental now r db)"
| "transfer_exec (OpFinishRental now i c p s e) db = Inr (FinishRental now i c p s e db)"

section \<open>One attempt\<close>

fun attempt_edge :: "attempt_status \<Rightarrow> attempt_status \<Rightarrow> bool" where
  "attempt_edge Built t \<longleftrightarrow> t \<in> {Signed, Abandoned}"
| "attempt_edge Signed t \<longleftrightarrow> t \<in> {Broadcast, Confirmed, Failed, Dropped}"
| "attempt_edge Broadcast t \<longleftrightarrow> t \<in> {Confirmed, Failed, Dropped}"
| "attempt_edge _ t \<longleftrightarrow> False"

text \<open>The transaction an attempt records, and its signed form.\<close>

definition attempt_tx where
  "attempt_tx a =
     (ta_external_id a, ta_purpose a, ta_chain a, ta_from a, ta_to a, ta_amount a,
      ta_unsigned a, ta_digest a, ta_nonce a, ta_expires_at a)"

definition signed_tx where
  "signed_tx a = map_option (\<lambda>s. (attempt_tx a, s, ta_hash a)) (ta_signature a)"

definition unsigned_ok :: "attempt \<Rightarrow> bool" where
  "unsigned_ok a \<longleftrightarrow> (ta_status a \<in> {Built, Abandoned} \<longrightarrow> ta_signature a = None)"

definition attempt_step :: "attempt \<Rightarrow> attempt \<Rightarrow> bool" where
  "attempt_step a a' \<longleftrightarrow>
     ta_id a' = ta_id a \<and> attempt_tx a' = attempt_tx a \<and>
     (ta_status a' = ta_status a \<or> attempt_edge (ta_status a) (ta_status a')) \<and>
     (\<forall>t. signed_tx a = Some t \<longrightarrow> signed_tx a' = Some t) \<and> unsigned_ok a'"

lemmas attempt_defs = attempt_step_def attempt_tx_def signed_tx_def unsigned_ok_def

lemma attempt_step_refl: "unsigned_ok a \<Longrightarrow> attempt_step a a"
  by (simp add: attempt_step_def)

lemma attempt_step_status:
  "attempt_step a a' \<Longrightarrow> ta_status a' = ta_status a \<or> attempt_edge (ta_status a) (ta_status a')"
  by (simp add: attempt_step_def)

section \<open>The table\<close>

definition transfers_ok :: "transfer_db \<Rightarrow> bool" where
  "transfers_ok db \<longleftrightarrow>
     sorted_wrt (<) (map ta_id (attempts db)) \<and>
     (\<forall>a \<in> set (attempts db). ta_id a \<le> attempts_seq db \<and> attempt_check a \<and> unsigned_ok a) \<and>
     one_open (attempts db) \<and> one_confirmed (attempts db) \<and> hash_unique (attempts db)"

lemma transfers_ok_empty: "transfers_ok empty_transfer_db"
  by (simp add: transfers_ok_def empty_transfer_db_def one_open_def one_confirmed_def hash_unique_def
      List.map_filter_def)

definition attempt_at :: "transfer_db \<Rightarrow> int \<Rightarrow> attempt option" where
  "attempt_at db i = first_row (\<lambda>a. ta_id a = i) (attempts db)"

lemma attempt_atD: "attempt_at db i = Some a \<Longrightarrow> a \<in> set (attempts db) \<and> ta_id a = i"
  unfolding attempt_at_def by (rule first_row_Some)

lemma GetAttempt_at: "GetAttempt db i = (case attempt_at db i of None \<Rightarrow> Inl ErrNoAttempt | Some a \<Rightarrow> Inr a)"
  by (simp add: GetAttempt_def attempt_at_def)

lemma attempt_at_mem:
  assumes "transfers_ok db" and "a \<in> set (attempts db)"
  shows "attempt_at db (ta_id a) = Some a"
  unfolding attempt_at_def using assms
  by (intro first_row_unique) (auto simp: transfers_ok_def strict_sorted_iff)

definition attempts_step :: "transfer_db \<Rightarrow> transfer_db \<Rightarrow> bool" where
  "attempts_step db db' \<longleftrightarrow>
     (\<exists>f new. attempts db' = map f (attempts db) @ new \<and> (\<forall>a \<in> set (attempts db). attempt_step a (f a)))"

lemma attempts_step_at:
  assumes "attempts_step db db'" and "attempt_at db i = Some a"
  shows "\<exists>a'. attempt_at db' i = Some a' \<and> attempt_step a a'"
proof -
  obtain f new where s: "attempts db' = map f (attempts db) @ new" "\<forall>a \<in> set (attempts db). attempt_step a (f a)"
    using assms(1) by (auto simp: attempts_step_def)
  then have "first_row (\<lambda>a. ta_id a = i) (map f (attempts db)) = Some (f a)"
    using assms(2) by (subst first_row_map_key) (auto simp: attempt_step_def attempt_at_def)
  then show ?thesis using s attempt_atD [OF assms(2)] by (auto simp: attempt_at_def first_row_append)
qed

lemma write_attempts_Inr:
  "write_attempts db rows = Inr db' \<longleftrightarrow>
     list_all attempt_check rows \<and> one_open rows \<and> one_confirmed rows \<and> hash_unique rows \<and>
     db' = db\<lparr>attempts := rows\<rparr>"
  by (auto simp: write_attempts_def)

lemma update_attempts_ok:
  assumes ok: "transfers_ok db" and w: "write_attempts db (update_rows p f (attempts db)) = Inr db'"
    and step: "\<And>a. unsigned_ok a \<Longrightarrow> p a \<Longrightarrow> attempt_step a (f a)"
  shows "attempts_step db db' \<and> transfers_ok db'"
proof -
  note w' = w [unfolded write_attempts_Inr]
  have u: "unsigned_ok a" if "a \<in> set (attempts db)" for a using ok that by (simp add: transfers_ok_def)
  have ids: "map ta_id (update_rows p f (attempts db)) = map ta_id (attempts db)"
    using step u by (intro map_update_rows) (auto simp: attempt_step_def)
  have "\<forall>a \<in> set (update_rows p f (attempts db)). ta_id a \<le> attempts_seq db \<and> unsigned_ok a"
    using ok step u by (auto simp: set_update_rows transfers_ok_def attempt_step_def)
  then have "transfers_ok db'"
    using ok w' ids by (auto simp: transfers_ok_def list_all_iff)
  moreover have "attempts_step db db'"
    unfolding attempts_step_def using w' step u
    by (intro exI [of _ "\<lambda>a. if p a then f a else a"] exI [of _ "[]"]) (auto simp: update_rows_def attempt_step_refl)
  ultimately show ?thesis by blast
qed

lemma transition_Inr:
  assumes "transition now i to from extra db = Inr db'"
  shows "write_attempts db (update_rows (\<lambda>a. ta_id a = i \<and> ta_status a \<in> set from)
    (\<lambda>a. extra (a\<lparr>ta_status := to, ta_updated_at := now\<rparr>)) (attempts db)) = Inr db'"
  using assms by (auto simp: transition_def Let_def split: if_splits)

lemma transition_ok:
  assumes "transfers_ok db" and "transition now i to from extra db = Inr db'"
    and "\<And>a. unsigned_ok a \<Longrightarrow> ta_status a \<in> set from \<Longrightarrow>
      attempt_step a (extra (a\<lparr>ta_status := to, ta_updated_at := now\<rparr>))"
  shows "attempts_step db db' \<and> transfers_ok db'"
  using update_attempts_ok [OF assms(1) transition_Inr [OF assms(2)]] assms(3) by auto

lemma new_attempt_facts [simp]:
  "ta_id (new_attempt now i a) = i" "unsigned_ok (new_attempt now i a)"
  "ta_status (new_attempt now i a) = Built" "attempt_tx (new_attempt now i a) = attempt_tx a"
  "attempt_job (new_attempt now i a) = attempt_job a" "ta_signature (new_attempt now i a) = None"
  by (simp_all add: new_attempt_def unsigned_ok_def attempt_tx_def attempt_job_def)

lemma CreateAttempt_Inr:
  assumes "transfers_ok db" and "CreateAttempt now a db = Inr (db', a')"
  shows "a' = new_attempt now (attempts_seq db + 1) a" and "one_open (attempts db @ [a'])"
    and "db' = db\<lparr>attempts_seq := attempts_seq db + 1, attempts := attempts db @ [a']\<rparr>"
    and "attempt_check a'" and "one_confirmed (attempts db @ [a'])" and "hash_unique (attempts db @ [a'])"
proof -
  have "\<forall>r \<in> set (attempts db). ta_id r \<noteq> attempts_seq db + 1" using assms(1) by (auto simp: transfers_ok_def)
  then have "first_row (\<lambda>r. ta_id r = attempts_seq db + 1) (attempts db) = None"
    by (simp add: first_row_None)
  then show "a' = new_attempt now (attempts_seq db + 1) a" "one_open (attempts db @ [a'])"
    "db' = db\<lparr>attempts_seq := attempts_seq db + 1, attempts := attempts db @ [a']\<rparr>"
    "attempt_check a'" "one_confirmed (attempts db @ [a'])" "hash_unique (attempts db @ [a'])"
    using assms(2)
    by (auto simp: CreateAttempt_def Let_def write_attempts_Inr GetAttempt_def first_row_append split: if_splits)
qed

lemma CreateAttempt_ok:
  assumes "transfers_ok db" and "CreateAttempt now a db = Inr (db', a')"
  shows "attempts_step db db' \<and> transfers_ok db'"
proof -
  note c = CreateAttempt_Inr [OF assms]
  have "attempts_step db db'"
    unfolding attempts_step_def c(3) using assms(1)
    by (intro exI [of _ "\<lambda>a. a"] exI [of _ "[a']"]) (auto simp: transfers_ok_def attempt_step_refl)
  moreover have "transfers_ok db'"
    using assms(1) c(2,4-6) unfolding c(3)
    by (auto simp: transfers_ok_def sorted_wrt_append c(1))
  ultimately show ?thesis by blast
qed

lemma attempts_same_ok:
  assumes "transfers_ok db" and "attempts db' = attempts db" and "attempts_seq db' = attempts_seq db"
  shows "attempts_step db db' \<and> transfers_ok db'"
  using assms unfolding attempts_step_def
  by (auto simp: transfers_ok_def attempt_step_refl intro!: exI [of _ "\<lambda>a. a"])

lemma attempt_steps [relay_simps]:
  "unsigned_ok a \<Longrightarrow> ta_status a = Built \<Longrightarrow>
     attempt_step a (a\<lparr>ta_status := Signed, ta_updated_at := now, ta_signature := Some s, ta_hash := h\<rparr>)"
  "unsigned_ok a \<Longrightarrow> ta_status a = Built \<Longrightarrow>
     attempt_step a (a\<lparr>ta_status := Abandoned, ta_updated_at := now, ta_reason := h\<rparr>)"
  "ta_status a = Signed \<or> ta_status a = Broadcast \<Longrightarrow>
     attempt_step a (a\<lparr>ta_status := Confirmed, ta_updated_at := now\<rparr>)"
  "ta_status a = Signed \<or> ta_status a = Broadcast \<Longrightarrow>
     attempt_step a (a\<lparr>ta_status := Failed, ta_updated_at := now, ta_reason := h\<rparr>)"
  "ta_status a = Signed \<or> ta_status a = Broadcast \<Longrightarrow>
     attempt_step a (a\<lparr>ta_status := Dropped, ta_updated_at := now, ta_reason := h\<rparr>)"
  "unsigned_ok a \<Longrightarrow> attempt_step a (a\<lparr>ta_nonce_consumed := t, ta_updated_at := now\<rparr>)"
  "unsigned_ok a \<Longrightarrow> attempt_step a (a\<lparr>ta_stuck_alerted := t\<rparr>)"
  by (auto simp: attempt_defs)

lemma transfer_exec_ok:
  assumes "transfers_ok db" and "transfer_exec opn db = Inr db'"
  shows "attempts_step db db' \<and> transfers_ok db'"
proof (cases opn)
  case (OpCreateAttempt now a)
  then show ?thesis using assms CreateAttempt_ok by (cases "CreateAttempt now a db") auto
next
  case (OpMarkSigned now i sig h)
  then show ?thesis using assms(2)
    by (auto simp: MarkSigned_def attempt_steps intro!: transition_ok [OF assms(1)])
next
  case (OpRecordBroadcast now i e)
  then show ?thesis using assms(2)
    by (auto simp: RecordBroadcast_def Let_def attempt_defs split: if_splits intro!: update_attempts_ok [OF assms(1)])
next
  case (OpMarkStuckAlerted now i)
  then obtain b where "MarkStuckAlerted now i db = Inr (db', b)"
    using assms(2) by (cases "MarkStuckAlerted now i db") auto
  then show ?thesis by (auto simp: MarkStuckAlerted_def Let_def attempt_steps intro!: update_attempts_ok [OF assms(1)])
next
  case (OpSetNonceConsumedSince now i t)
  then show ?thesis using assms(2)
    by (auto simp: SetNonceConsumedSince_def attempt_steps intro!: update_attempts_ok [OF assms(1)])
next
  case (OpCreateRental now r)
  then show ?thesis using assms
    by (intro attempts_same_ok) (auto simp: CreateRental_def Let_def split: if_splits option.splits)
next
  case (OpFinishRental now i c p s e)
  then show ?thesis using assms by (intro attempts_same_ok) (auto simp: FinishRental_def)
qed (insert assms(2), (auto simp: MarkConfirmed_def MarkFailed_def MarkDropped_def MarkAbandoned_def attempt_steps
      intro!: transition_ok [OF assms(1)])+)

section \<open>The contracts\<close>

definition attempt_status_of :: "transfer_db \<Rightarrow> int \<Rightarrow> attempt_status option" where
  "attempt_status_of db i = map_option ta_status (attempt_at db i)"

definition tx_at where
  "tx_at db i = map_option attempt_tx (attempt_at db i)"

definition signed_at where
  "signed_at db i = Option.bind (attempt_at db i) signed_tx"

interpretation attempt_store: status_store transfer_exec transfers_ok attempt_status_of attempt_edge
proof
  fix opn db db' k s
  assume ok: "transfers_ok db" and e: "transfer_exec opn db = Inr db'"
  note step = transfer_exec_ok [OF ok e]
  show "transfers_ok db'" using step by blast
  show "\<exists>t. attempt_status_of db' k = Some t \<and> (t = s \<or> attempt_edge s t)" if "attempt_status_of db k = Some s"
    using that attempts_step_at [of db db' k] step attempt_step_status by (fastforce simp: attempt_status_of_def)
qed

interpretation attempt_txs: write_once transfer_exec transfers_ok tx_at
proof
  fix opn db db' k v
  assume ok: "transfers_ok db" and e: "transfer_exec opn db = Inr db'" and d: "tx_at db k = Some v"
  then obtain a where a: "attempt_at db k = Some a" "attempt_tx a = v" by (auto simp: tx_at_def)
  obtain a' where "attempt_at db' k = Some a'" "attempt_step a a'"
    using attempts_step_at [OF _ a(1)] transfer_exec_ok [OF ok e] by blast
  then show "tx_at db' k = Some v" using a(2) by (simp add: tx_at_def attempt_step_def)
qed

interpretation attempt_signatures: write_once transfer_exec transfers_ok signed_at
proof
  fix opn db db' k v
  assume ok: "transfers_ok db" and e: "transfer_exec opn db = Inr db'" and d: "signed_at db k = Some v"
  then obtain a where a: "attempt_at db k = Some a" "signed_tx a = Some v"
    by (auto simp: signed_at_def bind_eq_Some_conv)
  obtain a' where "attempt_at db' k = Some a'" "attempt_step a a'"
    using attempts_step_at [OF _ a(1)] transfer_exec_ok [OF ok e] by blast
  then show "signed_at db' k = Some v" using a(2) by (simp add: signed_at_def attempt_step_def)
qed

abbreviation transfers_reached :: "transfer_op list \<Rightarrow> transfer_db" where
  "transfers_reached ops \<equiv> run_ops transfer_exec ops empty_transfer_db"

lemma transfers_reached_ok: "transfers_ok (transfers_reached ops)"
  by (rule attempt_store.run_inv [OF transfers_ok_empty])

end
