(* ===== verification/Relay_Props.thy ===== *)
theory Relay_Props
  imports Pricing RelayLegs_Inv Transfers_Inv
begin

text \<open>
  The properties of relayd's stores: pricing, legs and transfer attempts.
\<close>

section \<open>Pricing\<close>

definition demo_pricing :: pricing where
  "demo_pricing = \<lparr>pc_bps = 25, pc_min = 100000, pc_min_in = 5000000, pc_max_in = 10000000000,
     pc_directions = [(''TRC20_TO_BEP20'', \<lparr>mg_bps = 50, mg_min = 1000000\<rparr>)]\<rparr>"

text \<open>Under a valid configuration every deposit of at least \<open>min_amount_in\<close> splits: the profit is
  exactly the rate's share rounded down, or the floor when that is more, something is left to
  forward, the two add up to what was received, and no 64-bit step wraps.\<close>

theorem pricing_split_exact:
  assumes "pricing_validate c = Inr ()" and "sint (pc_min_in c) \<le> units received"
  shows "\<exists>profit forward. Split (For c direction) received = Some (profit, forward) \<and>
    units profit = max (sint (pc_min (For c direction))) (units received * sint (pc_bps (For c direction)) div 10000) \<and>
    units profit + units forward = units received \<and> 0 < units forward \<and>
    amt_asset profit = amt_asset received \<and> amt_asset forward = amt_asset received"
  using Split_Some [OF For_valid [OF assms(1)]] assms(2) by fastforce

theorem pricing_split_exact_witness:
  "map_option (\<lambda>(p, f). (units p, units f)) (Split (For demo_pricing ''BEP20_TO_TRC20'') (Amount USDT_BEP20 123456789)) =
     Some (308641, 123148148)"
proof -
  let ?c = "For demo_pricing ''BEP20_TO_TRC20''" and ?a = "Amount USDT_BEP20 123456789"
  have v: "pricing_validate demo_pricing = Inr ()" by code_simp
  have n: "sint (pc_min_in demo_pricing) \<le> units ?a" by code_simp
  have m: "max (sint (pc_min ?c)) (units ?a * sint (pc_bps ?c) div 10000) = 308641" by code_simp
  obtain p f where pf: "Split ?c ?a = Some (p, f)" "units p = 308641" "units p + units f = units ?a"
    using pricing_split_exact [OF v n, of "''BEP20_TO_TRC20''"] unfolding m by blast
  have "units f = 123148148" using pf(2,3) by simp
  then show ?thesis unfolding pf(1) using pf(2) by simp
qed

text \<open>A configuration that \<open>Put\<close> stores is the one \<open>Get\<close> returns: its JSON form, decimal strings
  included, reads back to the same numbers, and it is valid.\<close>

theorem pricing_put_get:
  assumes "PutPricing now c by st = Inr st'"
  shows "GetPricing st' = Inr c \<and> pricing_validate c = Inr ()"
  using Put_Get [OF assms] Get_valid by blast

theorem pricing_put_get_witness:
  "GetPricing (projr (PutPricing 5 demo_pricing ''admin'' None)) = Inr demo_pricing"
proof -
  have "pricing_validate demo_pricing = Inr ()" by code_simp
  then obtain st' where p: "PutPricing 5 demo_pricing ''admin'' None = Inr st'"
    unfolding PutPricing_def by simp
  from pricing_put_get [OF p] show ?thesis unfolding p by simp
qed

section \<open>Legs\<close>

definition demo_leg :: "string \<Rightarrow> leg" where
  "demo_leg ext = scanLeg (new_leg_row 0 0
     \<lparr>lg_id = 0, lg_external_id = ext, lg_order_id = 7, lg_direction = TRC20ToBEP20, lg_status = AWAITING_DEPOSIT,
      lg_customer_id = ''c'', lg_destination = ''d'', lg_deposit_address = ''w'', lg_provider = None,
      lg_upstream_order = None, lg_upstream_address = None, lg_forward_tx = None, lg_refund_tx = None,
      lg_stale_alerted_at = None, lg_attempt_started_at = None, lg_created_at = 0, lg_updated_at = 0,
      lg_customer_label = None, lg_profit_bps = Some 25, lg_min_profit = Some 0, lg_sender = None,
      lg_vendor_fee = None, lg_lease_released_at = None, lg_payout_tx = None,
      lg_deposit_index = Some 3, lg_amount_in = Amount USDT_TRC20 1000, lg_out_expected = Amount USDT_BEP20 990,
      lg_out_actual = None, lg_received = None, lg_profit = None, lg_forward = None\<rparr>)"

definition demo_deposit_op :: leg_op where
  "demo_deposit_op = OpRecordDeposit ''x1'' (Amount USDT_TRC20 1000) ''payer'' (Amount USDT_TRC20 2) (Amount USDT_TRC20 998)"

text \<open>Refunding and forwarding exclude each other: once a leg is waiting for its refund it can only
  become refunded, and once it is forwarded it is never refunded, whatever operations follow.\<close>

theorem leg_refund_excludes_forward:
  assumes "leg_status_of (legs_reached ops) ext = Some s"
    and "leg_status_of (run_ops leg_exec later (legs_reached ops)) ext = Some t"
  shows "(s = REFUND_PENDING \<longrightarrow> t = REFUND_PENDING \<or> t = REFUNDED) \<and>
    (s = FORWARDED \<longrightarrow> t \<noteq> REFUND_PENDING \<and> t \<noteq> REFUNDED)"
proof -
  have path: "leg_edge\<^sup>*\<^sup>* s t"
    using leg_store.run_path [OF legs_reached_ok assms(1), of later] assms(2) by auto
  have "t \<in> {REFUND_PENDING, REFUNDED}" if "s = REFUND_PENDING"
    using path that by (induction rule: rtranclp_induct) auto
  moreover have "t \<in> {FORWARDED, SETTLED, FAILED, UNRECOVERABLE}" if "s = FORWARDED"
    using path that by (induction rule: rtranclp_induct) auto
  ultimately show ?thesis by auto
qed

theorem leg_refund_excludes_forward_witness:
  "leg_status_of (run_ops leg_exec [OpMarkForwarding 3 ''x1'' ''p'' ''o'' ''a'', OpMarkRefunded 4 ''x1'' ''tx'']
     (legs_reached [OpCreateLeg 1 (demo_leg ''x1''), OpMarkRefundPending 2 ''x1''])) ''x1'' = Some REFUNDED"
proof -
  let ?db = "legs_reached [OpCreateLeg 1 (demo_leg ''x1''), OpMarkRefundPending 2 ''x1'']"
  let ?db' = "run_ops leg_exec [OpMarkForwarding 3 ''x1'' ''p'' ''o'' ''a'', OpMarkRefunded 4 ''x1'' ''tx''] ?db"
  have s: "leg_status_of ?db ''x1'' = Some REFUND_PENDING" "leg_status_of ?db' ''x1'' \<noteq> None"
    "leg_status_of ?db' ''x1'' \<noteq> Some REFUND_PENDING" by code_simp+
  then obtain t where t: "leg_status_of ?db' ''x1'' = Some t" by blast
  show ?thesis using leg_refund_excludes_forward [OF s(1) t] s(3) t by auto
qed

text \<open>What \<open>RecordDeposit\<close> recorded for a leg -- the received amount, its sender, profit and
  forward -- and what the leg was created with stay as they are under every later operation, a second
  \<open>RecordDeposit\<close> with other figures included.\<close>

theorem deposit_recorded_once:
  assumes "deposit_at (legs_reached ops) ext = Some d"
  shows "deposit_at (run_ops leg_exec later (legs_reached ops)) ext = Some d \<and>
    identity_at (run_ops leg_exec later (legs_reached ops)) ext = identity_at (legs_reached ops) ext"
proof -
  obtain r where "leg_at (legs_reached ops) ext = Some r" using assms by (rule deposit_atE)
  then have "identity_at (legs_reached ops) ext = Some (leg_identity r)" by (simp add: identity_at_def)
  then show ?thesis
    using leg_deposits.run_keeps [OF legs_reached_ok assms] leg_identities.run_keeps [OF legs_reached_ok] by metis
qed

theorem deposit_recorded_once_witness:
  "deposit_at (run_ops leg_exec [OpRecordDeposit ''x1'' (Amount USDT_TRC20 7) ''other'' (Amount USDT_TRC20 1) (Amount USDT_TRC20 6)]
     (legs_reached [OpCreateLeg 1 (demo_leg ''x1''), demo_deposit_op])) ''x1'' = Some (1000, Some ''payer'', Some 2, Some 998)"
proof -
  have "deposit_at (legs_reached [OpCreateLeg 1 (demo_leg ''x1''), demo_deposit_op]) ''x1'' = Some (1000, Some ''payer'', Some 2, Some 998)"
    by code_simp
  from deposit_recorded_once [OF this] show ?thesis by blast
qed

text \<open>C30: in every reachable state a recorded deposit splits exactly: profit and forward are there, the
  profit is not negative, the forward positive, and they add up to the received amount as integers,
  not only modulo \<open>2 ^ 64\<close> -- the guard of \<open>RecordDeposit\<close> compares wrapping sums, the table's CHECK
  constraints rule the wrap out.\<close>

theorem deposit_splits_exactly:
  assumes "deposit_at (legs_reached ops) ext = Some (rc, sender, p, f)"
  shows "\<exists>profit forward. p = Some profit \<and> f = Some forward \<and>
    0 \<le> sint profit \<and> 0 < sint forward \<and> sint profit + sint forward = sint rc"
proof -
  obtain r where r: "leg_at (legs_reached ops) ext = Some r" "leg_deposit r = Some (rc, sender, p, f)"
    using assms by (rule deposit_atE)
  then have "leg_check r" "leg_split r" using leg_atD [OF r(1)] legs_reached_ok [of ops] by (auto simp: legs_ok_def)
  moreover have "lr_received r = Some rc" "lr_profit r = p" "lr_forward r = f"
    using r(2) by (auto simp: leg_deposit_def split: option.splits)
  ultimately show ?thesis using leg_split_exact by blast
qed

theorem deposit_splits_exactly_witness:
  "deposit_at (legs_reached [OpCreateLeg 1 (demo_leg ''x1''), demo_deposit_op]) ''x1'' = Some (1000, Some ''payer'', Some 2, Some 998) \<and>
   sint (2 :: int64) + sint (998 :: int64) = sint (1000 :: int64)"
proof -
  have d: "deposit_at (legs_reached [OpCreateLeg 1 (demo_leg ''x1''), demo_deposit_op]) ''x1'' = Some (1000, Some ''payer'', Some 2, Some 998)"
    by code_simp
  show ?thesis using deposit_splits_exactly [OF d] d by simp
qed

text \<open>In every reachable state a vendor order belongs to one leg: two legs never record the same
  provider and order.\<close>

theorem vendor_orders_distinct:
  assumes "leg_at (legs_reached ops) ext1 = Some r1" and "leg_at (legs_reached ops) ext2 = Some r2"
    and "vendor_order r1 = Some v" and "vendor_order r2 = Some v"
  shows "ext1 = ext2"
proof -
  let ?rows = "legs (legs_reached ops)"
  have d: "distinct (List.map_filter vendor_order ?rows)"
    using legs_reached_ok [of ops] by (simp add: legs_ok_def upstream_unique_def)
  have "r1 = r2"
    using map_filter_unique [OF d _ _ assms(3,4)] leg_atD [OF assms(1)] leg_atD [OF assms(2)] by blast
  then show ?thesis using leg_atD [OF assms(1)] leg_atD [OF assms(2)] by blast
qed

theorem vendor_orders_distinct_witness:
  "leg_status_of (legs_reached [OpCreateLeg 1 (demo_leg ''x1''), OpCreateLeg 1 (demo_leg ''x2''),
     OpMarkForwarding 2 ''x1'' ''p'' ''o'' ''a'', OpMarkForwarding 2 ''x2'' ''p'' ''o'' ''a'']) ''x2'' = Some AWAITING_DEPOSIT"
proof -
  let ?db = "legs_reached [OpCreateLeg 1 (demo_leg ''x1''), OpCreateLeg 1 (demo_leg ''x2''),
     OpMarkForwarding 2 ''x1'' ''p'' ''o'' ''a'', OpMarkForwarding 2 ''x2'' ''p'' ''o'' ''a'']"
  have c: "map_option vendor_order (leg_at ?db ''x1'') = Some (Some (''p'', ''o''))"
    "leg_status_of ?db ''x2'' = Some AWAITING_DEPOSIT" by code_simp+
  then obtain r1 where r1: "leg_at ?db ''x1'' = Some r1" "vendor_order r1 = Some (''p'', ''o'')" by auto
  have "vendor_order r2 \<noteq> Some (''p'', ''o'')" if "leg_at ?db ''x2'' = Some r2" for r2
    using vendor_orders_distinct [OF r1(1) that r1(2)] by auto
  then show ?thesis using c(2) by simp
qed

text \<open>A transition can be reported again: after \<open>MarkForwarded\<close>, \<open>MarkSettled\<close>,
  \<open>MarkRefundPending\<close>, \<open>MarkRefunded\<close>, \<open>MarkUnrecoverable\<close>, \<open>MarkExpired\<close> or \<open>MarkFailed\<close>
  succeeded, the same call with whatever arguments succeeds and writes nothing.\<close>

theorem marks_repeat:
  assumes "legs_ok db"
  shows "(MarkForwarded now ext tx db = Inr db' \<longrightarrow> MarkForwarded now2 ext tx2 db' = Inr db') \<and>
    (MarkSettled now ext a db = Inr db' \<longrightarrow> MarkSettled now2 ext a2 db' = Inr db') \<and>
    (MarkRefundPending now ext db = Inr db' \<longrightarrow> MarkRefundPending now2 ext db' = Inr db') \<and>
    (MarkRefunded now ext tx db = Inr db' \<longrightarrow> MarkRefunded now2 ext tx2 db' = Inr db') \<and>
    (MarkUnrecoverable now ext db = Inr db' \<longrightarrow> MarkUnrecoverable now2 ext db' = Inr db') \<and>
    (MarkExpired now ext db = Inr db' \<longrightarrow> MarkExpired now2 ext db' = Inr db') \<and>
    (MarkLegFailed now ext db = Inr db' \<longrightarrow> MarkLegFailed now2 ext db' = Inr db')"
  unfolding mark_defs by (intro conjI impI; erule mark_again [OF assms]) simp_all

theorem marks_repeat_witness:
  "map_sum id (\<lambda>db'. is_ok (MarkRefundPending 9 ''x1'' db'))
     (MarkRefundPending 3 ''x1'' (legs_reached [OpCreateLeg 1 (demo_leg ''x1'')])) = Inr True"
proof -
  have "is_ok (MarkRefundPending 3 ''x1'' (legs_reached [OpCreateLeg 1 (demo_leg ''x1'')]))" by code_simp
  then obtain db' where m: "MarkRefundPending 3 ''x1'' (legs_reached [OpCreateLeg 1 (demo_leg ''x1'')]) = Inr db'"
    by (auto simp: is_ok_iff)
  have "MarkRefundPending 9 ''x1'' db' = Inr db'" using marks_repeat [OF legs_reached_ok] m by blast
  then show ?thesis using m by simp
qed

text \<open>A second \<open>MarkForwarding\<close> with another vendor order than the recorded one succeeds and is
  dropped: the first order stays, and the caller is told nothing (the comment promises success for
  an unchanged order only).\<close>

theorem MarkForwarding_drops_second_order:
  assumes "legs_ok db" and "MarkForwarding now ext p i a db = Inr db'"
  shows "MarkForwarding now2 ext p2 i2 a2 db' = Inr db'"
  using assms(2) unfolding MarkForwarding_def by (rule mark_again [OF assms(1)]) simp_all

theorem MarkForwarding_drops_second_order_witness:
  "map_sum id (\<lambda>db. map_option vendor_order (leg_at db ''x1'')) (MarkForwarding 3 ''x1'' ''p'' ''second'' ''b''
     (legs_reached [OpCreateLeg 1 (demo_leg ''x1''), OpMarkForwarding 2 ''x1'' ''p'' ''first'' ''a''])) =
   Inr (Some (Some (''p'', ''first'')))"
proof -
  let ?db = "legs_reached [OpCreateLeg 1 (demo_leg ''x1'')]"
  have c: "is_ok (MarkForwarding 2 ''x1'' ''p'' ''first'' ''a'' ?db)"
    "map_sum id (\<lambda>db. map_option vendor_order (leg_at db ''x1'')) (MarkForwarding 2 ''x1'' ''p'' ''first'' ''a'' ?db) =
      Inr (Some (Some (''p'', ''first'')))" by code_simp+
  then obtain db' where m: "MarkForwarding 2 ''x1'' ''p'' ''first'' ''a'' ?db = Inr db'" by (auto simp: is_ok_iff)
  have r: "legs_reached [OpCreateLeg 1 (demo_leg ''x1''), OpMarkForwarding 2 ''x1'' ''p'' ''first'' ''a''] = db'"
    using m by (simp add: run_ops_def commit_op_def)
  show ?thesis unfolding r using MarkForwarding_drops_second_order [OF legs_reached_ok m] c(2) m by simp
qed

end
