(* ===== verification/Drive.thy ===== *)
theory Drive
  imports RelayLegs Transfers_Inv
begin

text \<open>
  The transfer driver of relayd (\<open>relayd/internal/orchestrate/transfer.go\<close>): what gets one transfer
  onto the chain exactly once, call after call, across restarts.

  \<^item> \<open>world\<close> is the store together with the list of attempts handed to a node so far.
  \<^item> \<open>adapter\<close> is the interface \<open>chainAdapter\<close>, a record of its five methods; \<open>build\<close> and
    \<open>outcome\<close> get and return the world because they write to the store (top-ups, the nonce
    watch). \<open>services\<close> are the calls to S1 and the two checks of other files, and the clock: one
    reading per call stands for the readings of \<open>time.Now()\<close> and \<open>now()\<close> in it.
  \<^item> The functions keep their names; a returned \<open>error\<close> is \<open>Inl\<close>, \<open>nil, nil\<close> is \<open>Inr None\<close>. Logs
    and alerts are left out, the one-time flag of the stuck alert is kept.
\<close>

section \<open>Requests\<close>

record signer =
  sg_index :: "32 word option"
  sg_slot :: bool
  sg_slot_id :: int

record transfer_request =
  tr_job :: string
  tr_purpose :: purpose
  tr_chain :: chain
  tr_from :: string
  tr_signer :: signer
  tr_to :: string
  tr_amount :: amount
  tr_leg :: "leg option"

record transfer_intent =
  ti_sender :: string
  ti_recipient :: string
  ti_amount :: amount

definition legTransfer :: "leg \<Rightarrow> purpose \<Rightarrow> string \<Rightarrow> amount \<Rightarrow> transfer_request" where
  "legTransfer l purp to amount =
     \<lparr>tr_job = lg_external_id l, tr_purpose = purp,
      tr_chain = (if lg_direction l = BEP20ToTRC20 then BSC else TRON), tr_from = lg_deposit_address l,
      tr_signer = \<lparr>sg_index = lg_deposit_index l, sg_slot = False, sg_slot_id = 0\<rparr>, tr_to = to,
      tr_amount = amount, tr_leg = Some l\<rparr>"

definition native :: "transfer_request \<Rightarrow> bool" where
  "native r \<longleftrightarrow> amt_asset (tr_amount r) = BNB \<or> amt_asset (tr_amount r) = TRX"

fun purpose_str :: "purpose \<Rightarrow> string" where
  "purpose_str FORWARD = ''FORWARD''"
| "purpose_str REFUND = ''REFUND''"
| "purpose_str GAS_TOPUP = ''GAS_TOPUP''"
| "purpose_str TRX_TOPUP = ''TRX_TOPUP''"
| "purpose_str SWEEP = ''SWEEP''"
| "purpose_str (OtherPurpose s) = s"

text \<open>\<open>strings.ToLower\<close> and \<open>strings.Contains\<close>, on the ASCII texts they are used on.\<close>

definition to_lower :: "string \<Rightarrow> string" where
  "to_lower = map (\<lambda>c. if 65 \<le> (of_char c :: nat) \<and> (of_char c :: nat) \<le> 90 then char_of ((of_char c :: nat) + 32) else c)"

definition contains :: "string \<Rightarrow> string \<Rightarrow> bool" where
  "contains s p \<longleftrightarrow> list_ex (\<lambda>k. starts_with (drop k s) p) [0..<Suc (length s)]"

definition kind :: "transfer_request \<Rightarrow> string" where
  "kind r =
     (case tr_purpose r of FORWARD \<Rightarrow> ''forward'' | REFUND \<Rightarrow> ''refund'' | p \<Rightarrow> to_lower (purpose_str p))"

definition intent :: "transfer_request \<Rightarrow> transfer_intent" where
  "intent r = \<lparr>ti_sender = tr_from r, ti_recipient = tr_to r, ti_amount = tr_amount r\<rparr>"

text \<open>\<open>%x\<close> of a 32-byte array: 64 lower-case hexadecimal digits.\<close>

definition hex_char :: "nat \<Rightarrow> char" where
  "hex_char n = (if n < 10 then digit_char n else char_of (87 + n))"

fun hex_digits :: "nat \<Rightarrow> nat \<Rightarrow> string" where
  "hex_digits 0 n = []"
| "hex_digits (Suc k) n = hex_digits k (n div 16) @ [hex_char (n mod 16)]"

definition fmt_digest :: "digest \<Rightarrow> string" where
  "fmt_digest d = hex_digits 64 (unat d)"

definition signingKey :: "transfer_request \<Rightarrow> digest \<Rightarrow> string" where
  "signingKey r d =
     (case tr_purpose r of
        FORWARD \<Rightarrow> ''relayd:sign:'' @ tr_job r @ '':'' @ fmt_digest d
      | REFUND \<Rightarrow> ''relayd:refund-sign:'' @ tr_job r @ '':'' @ fmt_digest d
      | _ \<Rightarrow>
        if sg_slot (tr_signer r) then
          ''relayd:'' @ kind r @ ''-sign:slot'' @ fmt_int (sg_slot_id (tr_signer r)) @ '':'' @ tr_job r @ '':'' @ fmt_digest d
        else ''relayd:'' @ kind r @ ''-sign:'' @ tr_job r @ '':'' @ fmt_digest d)"

section \<open>The world and the interfaces\<close>

record world =
  wd_db :: transfer_db
  wd_sent :: "attempt list"

datatype sent_outcome = OutPending | OutConfirmed | OutFailed string | OutDropped string

datatype build_error = NotReady string | BuildError string

record adapter =
  ad_build :: "transfer_request \<Rightarrow> nat \<Rightarrow> world \<Rightarrow> world \<times> (build_error + attempt)"
  ad_unsendable :: "attempt \<Rightarrow> time \<Rightarrow> string + string option"
  ad_verify :: "transfer_request \<Rightarrow> attempt \<Rightarrow> signature \<Rightarrow> string + string"
  ad_send :: "attempt \<Rightarrow> string option"
  ad_outcome :: "attempt \<Rightarrow> time \<Rightarrow> world \<Rightarrow> world \<times> (string + sent_outcome)"

datatype sign_reply = SigPending | SigRejected | SigSigned signature | SigOther string

record services =
  sv_slot_id :: int
  sv_slot :: "int \<Rightarrow> digest \<Rightarrow> string \<Rightarrow> string + sign_reply"
  sv_deposit :: "32 word \<Rightarrow> digest \<Rightarrow> string \<Rightarrow> string + sign_reply"
  sv_tron_deposit :: "32 word \<Rightarrow> digest \<Rightarrow> string \<Rightarrow> string + sign_reply"
  sv_reverify :: "leg \<Rightarrow> string option"
  sv_vendor :: "leg \<Rightarrow> transfer_intent \<Rightarrow> string option"

datatype drive_error =
    StoreError transfer_error | NoSigningKey | UnknownChain | GaveUp nat | BuildFailed string
  | UnsendableCheck string | AddressCheck string | SignRequest string | SignRejected | SignStatus string
  | PreflightFailed string | VendorCheck string | SendFailed string | OutcomeCheck string | ExecutionFailed string

text \<open>A call whose error ends the function, on a state that keeps what was written before.\<close>

definition rthen :: "'w \<times> ('e + 'a) \<Rightarrow> ('w \<Rightarrow> 'a \<Rightarrow> 'w \<times> ('e + 'b)) \<Rightarrow> 'w \<times> ('e + 'b)" where
  "rthen x k = (case x of (w, Inl e) \<Rightarrow> (w, Inl e) | (w, Inr a) \<Rightarrow> k w a)"

definition store_call ::
  "(transfer_db \<Rightarrow> transfer_error + transfer_db) \<Rightarrow> world \<Rightarrow> world \<times> (drive_error + unit)" where
  "store_call f w =
     (case f (wd_db w) of Inl e \<Rightarrow> (w, Inl (StoreError e)) | Inr db \<Rightarrow> (w\<lparr>wd_db := db\<rparr>, Inr ()))"

section \<open>Sending\<close>

definition alreadyOnChain :: "string \<Rightarrow> bool" where
  "alreadyOnChain err =
     list_ex (contains (to_lower err))
       [''already known'', ''known transaction'', ''nonce too low'', ''dup_transaction_error'', ''dup transaction'']"

definition sendAttempt :: "time \<Rightarrow> adapter \<Rightarrow> attempt \<Rightarrow> world \<Rightarrow> world \<times> (drive_error + attempt option)" where
  "sendAttempt now ad a w =
     (let sendErr = ad_send ad a;
          w = w\<lparr>wd_sent := wd_sent w @ [a]\<rparr>;
          sendErr = (case sendErr of Some e \<Rightarrow> if alreadyOnChain e then None else Some e | None \<Rightarrow> None) in
      rthen (store_call (RecordBroadcast now (ta_id a) sendErr) w) (\<lambda>w _.
      case sendErr of Some e \<Rightarrow> (w, Inl (SendFailed e)) | None \<Rightarrow> (w, Inr None)))"

definition requestSignature :: "services \<Rightarrow> transfer_request \<Rightarrow> digest \<Rightarrow> string + sign_reply" where
  "requestSignature sv req d =
     (let key = signingKey req d; s = tr_signer req in
      if sg_slot s then sv_slot sv (if sg_slot_id s = 0 then sv_slot_id sv else sg_slot_id s) d key
      else case sg_index s of
        None \<Rightarrow> Inl ''nil deposit index''
      | Some i \<Rightarrow> if tr_chain req = BSC then sv_deposit sv i d key else sv_tron_deposit sv i d key)"

definition signAndSend ::
  "time \<Rightarrow> services \<Rightarrow> adapter \<Rightarrow> transfer_request \<Rightarrow> attempt \<Rightarrow> world \<Rightarrow> world \<times> (drive_error + attempt option)" where
  "signAndSend now sv ad req a w =
     (case ad_unsendable ad a now of
        Inl e \<Rightarrow> (w, Inl (UnsendableCheck e))
      | Inr (Some why) \<Rightarrow> rthen (store_call (MarkAbandoned now (ta_id a) why) w) (\<lambda>w _. (w, Inr None))
      | Inr None \<Rightarrow>
        (case (if sg_index (tr_signer req) = None then None else Option.bind (tr_leg req) (sv_reverify sv)) of
           Some e \<Rightarrow> (w, Inl (AddressCheck e))
         | None \<Rightarrow>
           (case requestSignature sv req (ta_digest a) of
              Inl e \<Rightarrow> (w, Inl (SignRequest e))
            | Inr SigPending \<Rightarrow> (w, Inr None)
            | Inr SigRejected \<Rightarrow>
                rthen (store_call (MarkAbandoned now (ta_id a) ''signature request was rejected'') w) (\<lambda>w _.
                (w, Inl SignRejected))
            | Inr (SigOther s) \<Rightarrow> (w, Inl (SignStatus s))
            | Inr (SigSigned sig) \<Rightarrow>
                (case ad_verify ad req a sig of
                   Inl e \<Rightarrow> (w, Inl (PreflightFailed e))
                 | Inr txHash \<Rightarrow>
                   (case (if tr_purpose req = FORWARD then Option.bind (tr_leg req) (\<lambda>l. sv_vendor sv l (intent req)) else None) of
                      Some e \<Rightarrow> (w, Inl (VendorCheck e))
                    | None \<Rightarrow>
                      rthen (store_call (MarkSigned now (ta_id a) sig txHash) w) (\<lambda>w _.
                      sendAttempt now ad (a\<lparr>ta_status := Signed, ta_signature := Some sig, ta_hash := Some txHash\<rparr>) w))))))"

section \<open>Following a sent attempt\<close>

definition rebroadcastEvery :: time where "rebroadcastEvery = 30 * 10 ^ 9"
definition sentAttemptStuckAfter :: time where "sentAttemptStuckAfter = 10 * 60 * 10 ^ 9"
definition maxFailedAttempts :: nat where "maxFailedAttempts = 3"

definition trackSent ::
  "time \<Rightarrow> adapter \<Rightarrow> attempt \<Rightarrow> world \<Rightarrow> world \<times> (drive_error + attempt option)" where
  "trackSent now ad a w =
     (case ad_outcome ad a now w of
        (w, Inl e) \<Rightarrow> (w, Inl (OutcomeCheck e))
      | (w, Inr OutConfirmed) \<Rightarrow>
          rthen (store_call (MarkConfirmed now (ta_id a)) w) (\<lambda>w _. (w, Inr (Some (a\<lparr>ta_status := Confirmed\<rparr>))))
      | (w, Inr (OutFailed reason)) \<Rightarrow>
          rthen (store_call (MarkFailed now (ta_id a) reason) w) (\<lambda>w _. (w, Inl (ExecutionFailed reason)))
      | (w, Inr (OutDropped reason)) \<Rightarrow>
          rthen (store_call (MarkDropped now (ta_id a) reason) w) (\<lambda>w _. (w, Inr None))
      | (w, Inr OutPending) \<Rightarrow>
          (let w = (if sentAttemptStuckAfter < now - ta_created_at a
                    then (case MarkStuckAlerted now (ta_id a) (wd_db w) of Inl _ \<Rightarrow> w | Inr (db, _) \<Rightarrow> w\<lparr>wd_db := db\<rparr>)
                    else w) in
           if (case ta_last_broadcast a of None \<Rightarrow> True | Some t \<Rightarrow> rebroadcastEvery \<le> now - t)
           then sendAttempt now ad a w
           else (w, Inr None)))"

section \<open>The driver\<close>

definition fmtAmount :: "amount \<Rightarrow> string" where
  "fmtAmount a = (case Format a of Inl _ \<Rightarrow> FormatInt (amt_units a) @ '' units'' | Inr s \<Rightarrow> s)"

definition changed_reason :: "transfer_request \<Rightarrow> string" where
  "changed_reason req = ''transfer changed to '' @ fmtAmount (tr_amount req) @ '' '' @ asset_str (amt_asset (tr_amount req)) @
     '' -> '' @ tr_to req @ '' before it was signed''"

text \<open>\<open>adapterFor\<close> knows two chains.\<close>

definition adapterFor :: "(chain \<Rightarrow> adapter) \<Rightarrow> chain \<Rightarrow> drive_error + adapter" where
  "adapterFor ads c = (case c of OtherChain _ \<Rightarrow> Inl UnknownChain | _ \<Rightarrow> Inr (ads c))"

definition driveTransfer ::
  "time \<Rightarrow> services \<Rightarrow> (chain \<Rightarrow> adapter) \<Rightarrow> transfer_request \<Rightarrow> world \<Rightarrow> world \<times> (drive_error + attempt option)" where
  "driveTransfer now sv ads req w =
     (if sg_index (tr_signer req) = None \<and> \<not> sg_slot (tr_signer req) then (w, Inl NoSigningKey)
      else case adapterFor ads (tr_chain req) of
        Inl e \<Rightarrow> (w, Inl e)
      | Inr ad \<Rightarrow>
        (case ConfirmedAttempt (wd_db w) (tr_job req) (tr_purpose req) of
           Some done \<Rightarrow> (w, Inr (Some done))
         | None \<Rightarrow>
           (case OpenAttempt (wd_db w) (tr_job req) (tr_purpose req) of
              Some a \<Rightarrow>
                if MayLand (ta_status a) then trackSent now ad a w
                else if ta_to a \<noteq> tr_to req \<or> ta_amount a \<noteq> tr_amount req \<or> ta_from a \<noteq> tr_from req then
                  rthen (store_call (MarkAbandoned now (ta_id a) (changed_reason req)) w) (\<lambda>w _.
                  (w, Inr None))
                else signAndSend now sv ad req a w
            | None \<Rightarrow>
                if (case OpenFrom (wd_db w) (tr_from req) of
                      Some other \<Rightarrow> ta_external_id other \<noteq> tr_job req \<or> ta_purpose other \<noteq> tr_purpose req
                    | None \<Rightarrow> False) then (w, Inr None)
                else
                  (let failed = CountFailed (wd_db w) (tr_job req) (tr_purpose req) in
                   if maxFailedAttempts \<le> failed then (w, Inl (GaveUp failed))
                   else case ad_build ad req failed w of
                     (w, Inl (NotReady _)) \<Rightarrow> (w, Inr None)
                   | (w, Inl (BuildError e)) \<Rightarrow> (w, Inl (BuildFailed e))
                   | (w, Inr built) \<Rightarrow>
                     (case CreateAttempt now built (wd_db w) of
                        Inl e \<Rightarrow> (w, Inl (StoreError e))
                      | Inr (db, a) \<Rightarrow> signAndSend now sv ad req a (w\<lparr>wd_db := db\<rparr>))))))"

end
