(* ===== verification/Evm.thy ===== *)
theory Evm
  imports Drive
begin

text \<open>
  The BSC transactions of relayd and what it reads from a BSC node: \<open>relayd/internal/evmtx\<close>,
  \<open>relayd/internal/evmbroadcast\<close> and the checks of \<open>orchestrate/preflight.go\<close> and
  \<open>orchestrate/chain_bsc.go\<close> on a signed transaction.

  \<^item> \<open>evm_tx\<close> is the part of go-ethereum's \<open>types.Transaction\<close> the code reads. What go-ethereum
    computes (addresses, hashes, encodings, signatures) are the functions of the record \<open>eth_lib\<close>,
    a parameter; what a node answers are those of \<open>evm_node\<close>. An address is a \<open>160 word\<close>.
  \<^item> \<open>be_bytes\<close> and \<open>from_be\<close> are big-endian bytes: \<open>Bytes\<close> and \<open>SetBytes\<close> of \<open>big.Int\<close>, with the
    padding the callers add.
  \<^item> Error texts keep their fixed words and leave out the values formatted into them.
\<close>

section \<open>Bytes\<close>

fun be_bytes :: "nat \<Rightarrow> int \<Rightarrow> bytes" where
  "be_bytes 0 n = []"
| "be_bytes (Suc k) n = be_bytes k (n div 256) @ [word_of_int (n mod 256)]"

definition from_be :: "bytes \<Rightarrow> int" where
  "from_be = foldl (\<lambda>n b. n * 256 + uint b) 0"

lemma length_be_bytes [simp]: "length (be_bytes k n) = k"
  by (induction k arbitrary: n) auto

lemma from_be_be_bytes [simp]: "from_be (be_bytes k n) = n mod 256 ^ k"
proof (induction k arbitrary: n)
  case (Suc k)
  have "uint (word_of_int (n mod 256) :: 8 word) = n mod 256" by (simp add: uint_word_of_int)
  then show ?case
    using Suc [of "n div 256"] by (simp add: from_be_def zmod_zmult2_eq [of "256 ^ k" n 256])
qed (simp add: from_be_def)

section \<open>Transactions\<close>

type_synonym address = "160 word"

record evm_tx =
  tx_nonce :: "64 word"
  tx_to :: "address option"
  tx_value :: int
  tx_gas :: "64 word"
  tx_price :: int
  tx_data :: bytes
  tx_sig :: "signature option"

record eth_lib =
  el_is_hex :: "string \<Rightarrow> bool"
  el_addr :: "string \<Rightarrow> address"
  el_hex :: "address \<Rightarrow> string"
  el_keccak :: "string \<Rightarrow> bytes"
  el_digest :: "evm_tx \<Rightarrow> digest"
  el_marshal :: "evm_tx \<Rightarrow> string + bytes"
  el_unmarshal :: "bytes \<Rightarrow> string + evm_tx"
  el_bad_sig :: "evm_tx \<Rightarrow> signature \<Rightarrow> string option"
  el_sender :: "evm_tx \<Rightarrow> string + address"
  el_hash :: "evm_tx \<Rightarrow> string"

definition USDTContractAddress :: string where
  "USDTContractAddress = ''0x55d398326f99059fF775485246999027B3197955''"

definition USDTOnChainDecimals :: nat where "USDTOnChainDecimals = 18"
definition DefaultGasLimit :: "64 word" where "DefaultGasLimit = 100000"
definition NativeTransferGasLimit :: "64 word" where "NativeTransferGasLimit = 21000"

datatype evm_error = ErrInvalidAddress | ErrNonPositiveAmount | ErrUnsupportedAsset

definition transferMethodID :: "eth_lib \<Rightarrow> bytes" where
  "transferMethodID l = take 4 (el_keccak l ''transfer(address,uint256)'')"

definition onChainAmount :: "amount \<Rightarrow> int" where
  "onChainAmount a = units a * 10 ^ (USDTOnChainDecimals - 6)"

definition buildCalldata :: "eth_lib \<Rightarrow> address \<Rightarrow> amount \<Rightarrow> bytes" where
  "buildCalldata l recipient a =
     transferMethodID l @ replicate 12 0 @ be_bytes 20 (uint recipient) @ be_bytes 32 \<bar>onChainAmount a\<bar>"

definition NewTransaction :: "64 word \<Rightarrow> address \<Rightarrow> int \<Rightarrow> 64 word \<Rightarrow> int \<Rightarrow> bytes \<Rightarrow> evm_tx" where
  "NewTransaction nonce to value gas price data =
     \<lparr>tx_nonce = nonce, tx_to = Some to, tx_value = value, tx_gas = gas, tx_price = price, tx_data = data,
      tx_sig = None\<rparr>"

definition BuildTransfer ::
  "eth_lib \<Rightarrow> string \<Rightarrow> amount \<Rightarrow> 64 word \<Rightarrow> int \<Rightarrow> 64 word \<Rightarrow> evm_error + evm_tx \<times> digest" where
  "BuildTransfer l to a nonce price gasLimit =
     (if \<not> el_is_hex l to then Inl ErrInvalidAddress
      else if amt_units a \<le>s 0 then Inl ErrNonPositiveAmount
      else if amt_asset a \<noteq> USDT_BEP20 then Inl ErrUnsupportedAsset
      else
        let gas = (if gasLimit = 0 then DefaultGasLimit else gasLimit);
            tx = NewTransaction nonce (el_addr l USDTContractAddress) 0 gas price (buildCalldata l (el_addr l to) a)
        in Inr (tx, el_digest l tx))"

definition BuildNativeTransfer ::
  "eth_lib \<Rightarrow> string \<Rightarrow> int \<Rightarrow> 64 word \<Rightarrow> int \<Rightarrow> evm_error + evm_tx \<times> digest" where
  "BuildNativeTransfer l to wei nonce price =
     (if \<not> el_is_hex l to then Inl ErrInvalidAddress
      else if wei \<le> 0 then Inl ErrNonPositiveAmount
      else
        let tx = NewTransaction nonce (el_addr l to) wei NativeTransferGasLimit price []
        in Inr (tx, el_digest l tx))"

definition WithSignature :: "eth_lib \<Rightarrow> evm_tx \<Rightarrow> signature \<Rightarrow> string + evm_tx" where
  "WithSignature l tx sig = (case el_bad_sig l tx sig of Some e \<Rightarrow> Inl e | None \<Rightarrow> Inr (tx\<lparr>tx_sig := Some sig\<rparr>))"

record decoded_transfer =
  dt_token :: address
  dt_recipient :: address
  dt_amount :: int

definition DecodeTransfer :: "eth_lib \<Rightarrow> evm_tx \<Rightarrow> string + decoded_transfer" where
  "DecodeTransfer l tx =
     (case tx_to tx of
        None \<Rightarrow> Inl ''contract creation''
      | Some token \<Rightarrow>
        let data = tx_data tx in
        if tx_value tx \<noteq> 0 then Inl ''also sends BNB''
        else if length data \<noteq> 4 + 32 + 32 then Inl ''calldata length''
        else if take 4 data \<noteq> transferMethodID l then Inl ''method selector''
        else if list_ex (\<lambda>b. b \<noteq> 0) (take 12 (drop 4 data)) then Inl ''recipient word is not a 20-byte address''
        else Inr \<lparr>dt_token = token, dt_recipient = word_of_int (from_be (take 20 (drop 16 data))),
                 dt_amount = from_be (take 32 (drop 36 data))\<rparr>)"

definition Sender :: "eth_lib \<Rightarrow> evm_tx \<Rightarrow> string + address" where
  "Sender l tx = el_sender l tx"

section \<open>Checks before a send\<close>

definition sameAddress :: "eth_lib \<Rightarrow> string \<Rightarrow> string \<Rightarrow> bool" where
  "sameAddress l a b = (if el_is_hex l a \<and> el_is_hex l b then el_addr l a = el_addr l b else a = b)"

definition amountMismatch :: "int \<Rightarrow> amount \<Rightarrow> nat \<Rightarrow> string option" where
  "amountMismatch raw intended onChainDecimals =
     (case Decimals (amt_asset intended) of
        Inl _ \<Rightarrow> Some ''unknown asset''
      | Inr internal \<Rightarrow>
        if onChainDecimals < internal then Some ''token has fewer decimals than the asset''
        else if raw \<noteq> units intended * 10 ^ (onChainDecimals - internal) then Some ''moves the wrong amount''
        else None)"

fun join :: "string list \<Rightarrow> string" where
  "join [] = ''''"
| "join [s] = s"
| "join (s # ss) = s @ ''; '' @ join ss"

definition joinProblems :: "string list \<Rightarrow> string option" where
  "joinProblems ps = (if ps = [] then None else Some (join ps))"

definition checkEVMTransfer :: "eth_lib \<Rightarrow> evm_tx \<Rightarrow> transfer_intent \<Rightarrow> string option" where
  "checkEVMTransfer l tx i =
     (case DecodeTransfer l tx of
        Inl e \<Rightarrow> Some e
      | Inr d \<Rightarrow> joinProblems
          ((if dt_token d \<noteq> el_addr l USDTContractAddress then [''calls another token''] else []) @
           (if \<not> sameAddress l (el_hex l (dt_recipient d)) (ti_recipient i) then [''pays the wrong address''] else []) @
           (case amountMismatch (dt_amount d) (ti_amount i) USDTOnChainDecimals of None \<Rightarrow> [] | Some m \<Rightarrow> [m]) @
           (case Sender l tx of
              Inl e \<Rightarrow> [e]
            | Inr from \<Rightarrow> if \<not> sameAddress l (el_hex l from) (ti_sender i) then [''is signed by another key''] else [])))"

definition checkEVMNativeTransfer :: "eth_lib \<Rightarrow> evm_tx \<Rightarrow> transfer_intent \<Rightarrow> string option" where
  "checkEVMNativeTransfer l tx i = joinProblems
     ((case tx_to tx of
         None \<Rightarrow> [''pays the wrong address'']
       | Some to \<Rightarrow> if \<not> sameAddress l (el_hex l to) (ti_recipient i) then [''pays the wrong address''] else []) @
      (if tx_value tx \<noteq> units (ti_amount i) then [''sends the wrong amount''] else []) @
      (if tx_data tx \<noteq> [] then [''carries call data''] else []) @
      (if tx_gas tx \<noteq> NativeTransferGasLimit then [''has another gas limit''] else []) @
      (case Sender l tx of
         Inl e \<Rightarrow> [e]
       | Inr from \<Rightarrow> if from \<noteq> el_addr l (ti_sender i) then [''is signed by another key''] else []))"

section \<open>A BSC node\<close>

record receipt =
  rc_success :: bool
  rc_block :: nat

record evm_node =
  en_gas_price :: "string + int"
  en_native :: "string \<Rightarrow> string + int"
  en_token :: "string \<Rightarrow> string + int"
  en_pending_nonce :: "string \<Rightarrow> string + 64 word"
  en_nonce :: "string \<Rightarrow> string + 64 word"
  en_receipt :: "string \<Rightarrow> string + receipt option"
  en_finalized :: "string + 64 word"
  en_submit :: "evm_tx \<Rightarrow> string option"

datatype final_error = Reverted string | FinalityError string

text \<open>A block number is a big integer whose \<open>Uint64\<close> is compared with the finalized height.\<close>

definition evm_IsFinal :: "evm_node \<Rightarrow> string \<Rightarrow> final_error + bool" where
  "evm_IsFinal nd h =
     (case en_receipt nd h of
        Inl e \<Rightarrow> Inl (FinalityError e)
      | Inr None \<Rightarrow> Inr False
      | Inr (Some rc) \<Rightarrow>
          if \<not> rc_success rc then Inl (Reverted ''transaction reverted on-chain'')
          else case en_finalized nd of
            Inl e \<Rightarrow> Inl (FinalityError e)
          | Inr height \<Rightarrow> Inr (of_nat (rc_block rc) \<le> height))"

definition TransactionMined :: "evm_node \<Rightarrow> string \<Rightarrow> string + bool" where
  "TransactionMined nd h = (case en_receipt nd h of Inl e \<Rightarrow> Inl e | Inr None \<Rightarrow> Inr False | Inr (Some _) \<Rightarrow> Inr True)"

definition evm_Broadcast :: "eth_lib \<Rightarrow> evm_node \<Rightarrow> evm_tx \<Rightarrow> string + string" where
  "evm_Broadcast l nd tx = (case en_submit nd tx of Some e \<Rightarrow> Inl e | None \<Rightarrow> Inr (el_hash l tx))"

end
