(* ===== verification/Tron.thy ===== *)
theory Tron
  imports Evm
begin

text \<open>
  The TRON transactions of relayd and what it reads from a TRON node: \<open>relayd/internal/txbuild\<close>,
  \<open>relayd/internal/tronbroadcast\<close> and the checks of \<open>orchestrate/preflight.go\<close> and
  \<open>orchestrate/chain_tron.go\<close>.

  \<^item> \<open>raw_tx\<close> is the protobuf message \<open>core.TransactionRaw\<close> with the fields the code sets and
    reads. The encodings of protobuf, base58check and the contract ABI, SHA-256 and key recovery are
    the functions of the record \<open>tron_lib\<close>, a parameter; what a node answers are those of
    \<open>tron_node\<close>. Times are in nanoseconds, \<open>UnixMilli\<close> divides by \<open>10 ^ 6\<close>.
  \<^item> The names shared with the BSC side (\<open>BuildTransfer\<close>, \<open>DecodeTransfer\<close>, ...) have the prefix
    \<open>tron_\<close>.
\<close>

section \<open>Transactions\<close>

datatype tron_contract =
    TriggerSmartContract bytes bytes int64 int64 bytes
  | TransferContract bytes bytes int64
  | OtherContract

record raw_tx =
  rt_ref_bytes :: bytes
  rt_ref_hash :: bytes
  rt_expiration :: int
  rt_contracts :: "tron_contract list"
  rt_timestamp :: int
  rt_fee_limit :: int64

record tron_lib =
  tl_addr :: "string \<Rightarrow> string + bytes"
  tl_str :: "bytes \<Rightarrow> string"
  tl_pack :: "string \<Rightarrow> int64 \<Rightarrow> string + bytes"
  tl_marshal :: "raw_tx \<Rightarrow> string + bytes"
  tl_unmarshal :: "bytes \<Rightarrow> string + raw_tx"
  tl_sha256 :: "bytes \<Rightarrow> digest"
  tl_signer :: "digest \<Rightarrow> signature \<Rightarrow> string + string"

record block_reference =
  br_number :: int64
  br_hash :: bytes
  br_timestamp :: time
  br_expiration :: time

definition tron_USDTContractAddress :: string where
  "tron_USDTContractAddress = ''TR7NHqjeKQxGTCi8q8ZY4pL8otSzgjLj6t''"

definition tron_USDTOnChainDecimals :: nat where "tron_USDTOnChainDecimals = 6"
definition defaultFeeLimit :: int64 where "defaultFeeLimit = 100000000"

definition ref_block_bytes :: "block_reference \<Rightarrow> bytes" where
  "ref_block_bytes ref = [ucast (drop_bit 8 (br_number ref)), ucast (br_number ref)]"

definition tron_BuildTransfer ::
  "tron_lib \<Rightarrow> string \<Rightarrow> string \<Rightarrow> amount \<Rightarrow> block_reference \<Rightarrow> string + bytes" where
  "tron_BuildTransfer l from to a ref =
     rbind (tl_addr l from) (\<lambda>owner.
     rbind (tl_addr l to) (\<lambda>recipient.
     rbind (tl_addr l tron_USDTContractAddress) (\<lambda>contract.
     rbind (guard (amt_units a \<le>s 0) ''amount must be positive'') (\<lambda>_.
     rbind (tl_pack l (tl_str l recipient) (amt_units a)) (\<lambda>data.
     tl_marshal l \<lparr>rt_ref_bytes = ref_block_bytes ref, rt_ref_hash = take 8 (drop 8 (br_hash ref)),
       rt_expiration = br_expiration ref div 10 ^ 6,
       rt_contracts = [TriggerSmartContract owner contract 0 0 data],
       rt_timestamp = br_timestamp ref div 10 ^ 6, rt_fee_limit = defaultFeeLimit\<rparr>)))))"

definition BuildTRXTransfer ::
  "tron_lib \<Rightarrow> string \<Rightarrow> string \<Rightarrow> int64 \<Rightarrow> block_reference \<Rightarrow> string + bytes" where
  "BuildTRXTransfer l from to sun ref =
     rbind (tl_addr l from) (\<lambda>owner.
     rbind (tl_addr l to) (\<lambda>recipient.
     rbind (guard (sun \<le>s 0) ''amount must be positive'') (\<lambda>_.
     tl_marshal l \<lparr>rt_ref_bytes = ref_block_bytes ref, rt_ref_hash = take 8 (drop 8 (br_hash ref)),
       rt_expiration = br_expiration ref div 10 ^ 6, rt_contracts = [TransferContract owner recipient sun],
       rt_timestamp = br_timestamp ref div 10 ^ 6, rt_fee_limit = 0\<rparr>)))"

record tron_decoded =
  td_owner :: string
  td_token :: string
  td_recipient :: string
  td_amount :: int

definition transferSelector :: bytes where
  "transferSelector = [0xa9, 0x05, 0x9c, 0xbb]"

definition tron_DecodeTransfer :: "tron_lib \<Rightarrow> bytes \<Rightarrow> string + tron_decoded" where
  "tron_DecodeTransfer l unsignedTx =
     rbind (tl_unmarshal l unsignedTx) (\<lambda>raw.
     case rt_contracts raw of
       [TriggerSmartContract owner contract callValue tokenValue data] \<Rightarrow>
         if callValue \<noteq> 0 \<or> tokenValue \<noteq> 0 then Inl ''also sends TRX or a TRC10 token''
         else if length data \<noteq> 4 + 32 + 32 then Inl ''calldata length''
         else if take 4 data \<noteq> transferSelector then Inl ''method selector''
         else if list_ex (\<lambda>b. b \<noteq> 0) (take 12 (drop 4 data)) then Inl ''recipient word is not a 20-byte address''
         else Inr \<lparr>td_owner = tl_str l owner, td_token = tl_str l contract,
                  td_recipient = tl_str l (0x41 # take 20 (drop 16 data)), td_amount = from_be (take 32 (drop 36 data))\<rparr>
     | _ \<Rightarrow> Inl ''want exactly one TriggerSmartContract'')"

definition DecodeTRXTransfer :: "tron_lib \<Rightarrow> bytes \<Rightarrow> string + string \<times> string \<times> int64" where
  "DecodeTRXTransfer l unsignedTx =
     rbind (tl_unmarshal l unsignedTx) (\<lambda>raw.
     case rt_contracts raw of
       [TransferContract owner to a] \<Rightarrow> Inr (tl_str l owner, tl_str l to, a)
     | _ \<Rightarrow> Inl ''want exactly one TransferContract'')"

section \<open>Checks before a send\<close>

definition checkTRONTransfer :: "tron_lib \<Rightarrow> bytes \<Rightarrow> transfer_intent \<Rightarrow> string option" where
  "checkTRONTransfer l unsignedTx i =
     (case tron_DecodeTransfer l unsignedTx of
        Inl e \<Rightarrow> Some e
      | Inr d \<Rightarrow> joinProblems
          ((if td_token d \<noteq> tron_USDTContractAddress then [''calls another token''] else []) @
           (if td_owner d \<noteq> ti_sender i then [''sends from another wallet''] else []) @
           (if td_recipient d \<noteq> ti_recipient i then [''pays the wrong address''] else []) @
           (case amountMismatch (td_amount d) (ti_amount i) tron_USDTOnChainDecimals of None \<Rightarrow> [] | Some m \<Rightarrow> [m])))"

text \<open>The check of \<open>verify\<close> on a native transfer.\<close>

definition checkTRXTransfer :: "tron_lib \<Rightarrow> bytes \<Rightarrow> transfer_intent \<Rightarrow> string option" where
  "checkTRXTransfer l unsignedTx i =
     (case DecodeTRXTransfer l unsignedTx of
        Inl e \<Rightarrow> Some e
      | Inr (owner, recipient, sun) \<Rightarrow> joinProblems
          ((if owner \<noteq> ti_sender i then [''sends from another wallet''] else []) @
           (if recipient \<noteq> ti_recipient i then [''pays the wrong address''] else []) @
           (if sun \<noteq> amt_units (ti_amount i) then [''moves the wrong amount''] else [])))"

text \<open>The recovery byte is the last of the 65: \<open>SigToPub\<close> takes it as 0 or 1.\<close>

definition recoverable :: "signature \<Rightarrow> signature" where
  "recoverable sig = (if 27 \<le> (ucast sig :: 8 word) then sig - 27 else sig)"

definition checkTRONSigner :: "tron_lib \<Rightarrow> digest \<Rightarrow> signature \<Rightarrow> string \<Rightarrow> string option" where
  "checkTRONSigner l d sig sender =
     (case tl_signer l d (recoverable sig) of
        Inl e \<Rightarrow> Some ''signature does not recover to a public key''
      | Inr signer \<Rightarrow> if signer \<noteq> sender then Some ''is signed by another key'' else None)"

section \<open>A TRON node\<close>

record resources =
  rs_exists :: bool
  rs_energy :: int64
  rs_bandwidth :: int64
  rs_balance_sun :: int64

record account_resource =
  ar_energy_limit :: int64
  ar_energy_used :: int64
  ar_free_net_limit :: int64
  ar_free_net_used :: int64
  ar_net_limit :: int64
  ar_net_used :: int64

record tx_info =
  inf_id :: string
  inf_result :: string

record tron_node =
  tn_block :: "string + int64 \<times> bytes"
  tn_account :: "string \<Rightarrow> string + int64"
  tn_resources :: "string \<Rightarrow> string + account_resource"
  tn_token :: "string \<Rightarrow> string + int"
  tn_energy_used :: "string \<Rightarrow> string \<Rightarrow> int \<Rightarrow> string + int64"
  tn_info :: "string \<Rightarrow> string + tx_info"
  tn_submit :: "raw_tx \<Rightarrow> signature \<Rightarrow> string option"

definition CurrentBlockReference :: "tron_node \<Rightarrow> time \<Rightarrow> string + block_reference" where
  "CurrentBlockReference nd now =
     rbind (tn_block nd) (\<lambda>(number, blockid).
     if length blockid \<noteq> 32 then Inl ''blockid length''
     else Inr \<lparr>br_number = number, br_hash = blockid, br_timestamp = now, br_expiration = now + 2 * 60 * 10 ^ 9\<rparr>)"

definition max64 :: "int64 \<Rightarrow> int64 \<Rightarrow> int64" where
  "max64 a b = (if a <s b then b else a)"

definition AccountResources :: "tron_node \<Rightarrow> string \<Rightarrow> string + resources" where
  "AccountResources nd addr =
     (case tn_account nd addr of
        Inl e \<Rightarrow>
          if contains e ''account not found''
          then Inr \<lparr>rs_exists = False, rs_energy = 0, rs_bandwidth = 0, rs_balance_sun = 0\<rparr> else Inl e
      | Inr balance \<Rightarrow>
          rbind (tn_resources nd addr) (\<lambda>r.
          Inr \<lparr>rs_exists = True, rs_energy = max64 0 (ar_energy_limit r - ar_energy_used r),
               rs_bandwidth = max64 0 (ar_free_net_limit r - ar_free_net_used r) +
                 max64 0 (ar_net_limit r - ar_net_used r),
               rs_balance_sun = balance\<rparr>))"

definition tron_TokenBalance :: "tron_lib \<Rightarrow> tron_node \<Rightarrow> string \<Rightarrow> string + int" where
  "tron_TokenBalance l nd holder = rbind (tl_addr l holder) (\<lambda>_. tn_token nd holder)"

definition EstimateTransferEnergy :: "tron_lib \<Rightarrow> tron_node \<Rightarrow> string \<Rightarrow> string \<Rightarrow> int \<Rightarrow> string + int64" where
  "EstimateTransferEnergy l nd from to raw =
     rbind (tl_addr l to) (\<lambda>_.
     rbind (tn_energy_used nd from to raw) (\<lambda>used.
     if used \<le>s 0 then Inl ''the node estimated no energy'' else Inr used))"

definition CheckExecution :: "tron_node \<Rightarrow> string \<Rightarrow> string + bool \<times> bool \<times> string" where
  "CheckExecution nd txid =
     rbind (tn_info nd txid) (\<lambda>info.
     if inf_id info \<noteq> txid then Inr (False, False, '''')
     else if inf_result info = ''SUCCESS'' then Inr (True, True, '''')
     else Inr (True, False, inf_result info))"

definition BroadcastSigned :: "tron_lib \<Rightarrow> tron_node \<Rightarrow> bytes \<Rightarrow> signature \<Rightarrow> string option" where
  "BroadcastSigned l nd unsignedTx sig =
     (case tl_unmarshal l unsignedTx of
        Inl e \<Rightarrow> Some e
      | Inr raw \<Rightarrow>
        (case tn_submit nd raw sig of
           Some e \<Rightarrow> Some e
         | None \<Rightarrow> (case tl_marshal l raw of Inl e \<Rightarrow> Some e | Inr _ \<Rightarrow> None)))"

end
