(* ===== verification/Resources.thy ===== *)
theory Resources
  imports Tron
begin

text \<open>
  The two chains as the driver sees them, and what provisions a wallet before it sends
  (\<open>relayd/internal/orchestrate\<close>: \<open>chain_bsc.go\<close>, \<open>chain_tron.go\<close>, \<open>resources.go\<close>).

  \<^item> \<open>orch_env\<close> holds the configuration and the answers of the outside during one call: the nodes,
    the two chain libraries, S1 and the vendors (\<open>services\<close>), the energy broker, and
    \<open>big.Rat.SetString\<close>.
  \<^item> \<open>build\<close> of an adapter may top the sender up from a treasury, and a top-up is a transfer that the
    driver drives with the adapters again. \<open>bsc_build\<close> and \<open>tron_build\<close> take the function \<open>topUp\<close> as
    an argument; \<open>treasury_adapters\<close> give it one that is never called (a treasury's own native
    transfer needs no top-up, \<open>treasury_build\<close>), \<open>adapters\<close> the real one, over
    \<open>treasury_adapters\<close>.
  \<^item> Alerts and logs are left out. A dereferenced \<open>nil\<close> is an error.
\<close>

section \<open>Environment\<close>

record treasury =
  ty_slot :: int
  ty_evm :: string
  ty_tron :: string

record orch_config =
  cf_slot_id :: int
  cf_slot_address :: string
  cf_slot_evm :: string
  cf_evm_gas_limit :: "64 word"
  cf_gas_topup_wei :: int64
  cf_trx_topup_sun :: int64
  cf_treasuries :: "treasury list"

record reservation =
  rv_status :: string
  rv_vendor :: "string option"
  rv_cost :: "string option"

record orch_env =
  oe_cfg :: orch_config
  oe_eth :: eth_lib
  oe_evm :: evm_node
  oe_trl :: tron_lib
  oe_tron :: tron_node
  oe_sv :: services
  oe_energy :: "(string \<Rightarrow> string \<Rightarrow> int64 \<Rightarrow> string \<Rightarrow> string + reservation) option"
  oe_rat :: "string \<Rightarrow> (int \<times> nat) option"

section \<open>Constants\<close>

definition maxGasPriceWei :: int where "maxGasPriceWei = 20000000000"
definition evmDropGrace :: time where "evmDropGrace = 3 * 60 * 10 ^ 9"
definition tronDropGrace :: time where "tronDropGrace = 5 * 60 * 10 ^ 9"
definition tronSendMargin :: time where "tronSendMargin = 15 * 10 ^ 9"
definition tronTransferBandwidth :: int64 where "tronTransferBandwidth = 400"
definition tronTreasuryReserveSun :: int64 where "tronTreasuryReserveSun = 1100000"
definition defaultGasTopUpWei :: int64 where "defaultGasTopUpWei = 500000000000000"
definition defaultTRXTopUpSun :: int64 where "defaultTRXTopUpSun = 2000000"
definition maxTopUpRounds :: nat where "maxTopUpRounds = 3"
definition topUpSettle :: time where "topUpSettle = 2 * 60 * 10 ^ 9"
definition maxEnergyRentals :: nat where "maxEnergyRentals = 5"
definition rentalPendingTimeout :: time where "rentalPendingTimeout = 2 * 60 * 10 ^ 9"
definition rentalArrivalWait :: time where "rentalArrivalWait = 2 * 60 * 10 ^ 9"
definition staleUnsignedTopUp :: time where "staleUnsignedTopUp = 10 * 60 * 10 ^ 9"

section \<open>Amounts\<close>

definition onChainUnits :: "amount \<Rightarrow> nat \<Rightarrow> string + int" where
  "onChainUnits a onChainDecimals =
     (case Decimals (amt_asset a) of
        Inl _ \<Rightarrow> Inl ''unknown asset''
      | Inr internal \<Rightarrow>
        if onChainDecimals < internal then Inl ''token has fewer decimals than the asset''
        else Inr (units a * 10 ^ (onChainDecimals - internal)))"

definition requireBalance :: "transfer_request \<Rightarrow> int \<Rightarrow> nat \<Rightarrow> string + unit" where
  "requireBalance req have onChainDecimals =
     rbind (onChainUnits (tr_amount req) onChainDecimals) (\<lambda>need.
     guard (have < need) ''transfer NOT built: insufficient funds'')"

text \<open>The fields an adapter fills in; the others come from \<open>Create\<close>.\<close>

definition built_attempt ::
  "transfer_request \<Rightarrow> chain \<Rightarrow> bytes \<Rightarrow> digest \<Rightarrow> 64 word option \<Rightarrow> time option \<Rightarrow> attempt" where
  "built_attempt req c raw d nonce expires =
     \<lparr>ta_id = 0, ta_external_id = tr_job req, ta_purpose = tr_purpose req, ta_chain = c, ta_from = tr_from req,
      ta_to = tr_to req, ta_amount = tr_amount req, ta_status = Built, ta_unsigned = raw, ta_digest = d,
      ta_signature = None, ta_hash = None, ta_nonce = nonce, ta_expires_at = expires, ta_broadcasts = 0,
      ta_last_broadcast = None, ta_last_error = None, ta_nonce_consumed = None, ta_stuck_alerted = None,
      ta_reason = None, ta_created_at = 0, ta_updated_at = 0\<rparr>"

definition refuse :: "world \<Rightarrow> string \<Rightarrow> world \<times> (build_error + attempt)" where
  "refuse w e = (w, Inl (BuildError e))"

type_synonym top_up = "transfer_request \<Rightarrow> purpose \<Rightarrow> int \<Rightarrow> world \<Rightarrow> world \<times> build_error"

definition provision :: "world \<times> build_error \<Rightarrow> world \<times> (build_error + attempt)" where
  "provision x = (case x of (w, e) \<Rightarrow> (w, Inl e))"

section \<open>BSC\<close>

definition bsc_gas_limit :: "orch_env \<Rightarrow> transfer_request \<Rightarrow> string + 64 word" where
  "bsc_gas_limit env req =
     (if native req then Inr NativeTransferGasLimit
      else
        rbind (en_token (oe_evm env) (tr_from req)) (\<lambda>have.
        rbind (requireBalance req have USDTOnChainDecimals) (\<lambda>_.
        Inr (if cf_evm_gas_limit (oe_cfg env) = 0 then DefaultGasLimit else cf_evm_gas_limit (oe_cfg env)))))"

definition bsc_assemble :: "orch_env \<Rightarrow> transfer_request \<Rightarrow> int \<Rightarrow> string + attempt" where
  "bsc_assemble env req gasPrice =
     rbind (en_pending_nonce (oe_evm env) (tr_from req)) (\<lambda>nonce.
     case (if native req then BuildNativeTransfer (oe_eth env) (tr_to req) (units (tr_amount req)) nonce gasPrice
           else BuildTransfer (oe_eth env) (tr_to req) (tr_amount req) nonce gasPrice (cf_evm_gas_limit (oe_cfg env))) of
       Inl _ \<Rightarrow> Inl ''building the unsigned transfer''
     | Inr (tx, d) \<Rightarrow>
         rbind (el_marshal (oe_eth env) tx) (\<lambda>raw. Inr (built_attempt req BSC raw d (Some nonce) None)))"

definition bsc_build :: "top_up \<Rightarrow> orch_env \<Rightarrow> transfer_request \<Rightarrow> nat \<Rightarrow> world \<Rightarrow> world \<times> (build_error + attempt)" where
  "bsc_build topUp env req failedBefore w =
     (case en_gas_price (oe_evm env) of
        Inl e \<Rightarrow> refuse w e
      | Inr gasPrice \<Rightarrow>
        if maxGasPriceWei < gasPrice then refuse w ''gas price above the ceiling''
        else case en_native (oe_evm env) (tr_from req) of
          Inl e \<Rightarrow> refuse w e
        | Inr bnb \<Rightarrow>
          (case bsc_gas_limit env req of
             Inl e \<Rightarrow> refuse w e
           | Inr gasLimit \<Rightarrow>
             let fee = gasPrice * uint gasLimit;
                 need = (if native req then fee + units (tr_amount req) else fee) in
             if bnb < need then
               (if sg_slot (tr_signer req) then refuse w ''the BSC treasury needs BNB''
                else provision (topUp req GAS_TOPUP (need - bnb) w))
             else case bsc_assemble env req gasPrice of Inl e \<Rightarrow> refuse w e | Inr a \<Rightarrow> (w, Inr a)))"

definition bsc_unsendable :: "orch_env \<Rightarrow> attempt \<Rightarrow> time \<Rightarrow> string + string option" where
  "bsc_unsendable env a now =
     rbind (en_nonce (oe_evm env) (ta_from a)) (\<lambda>confirmed.
     case ta_nonce a of
       None \<Rightarrow> Inl ''nil nonce''
     | Some n \<Rightarrow> Inr (if n < confirmed then Some ''nonce was used before this one was signed'' else None))"

definition bsc_signed :: "orch_env \<Rightarrow> attempt \<Rightarrow> signature \<Rightarrow> string + evm_tx" where
  "bsc_signed env a sig =
     rbind (el_unmarshal (oe_eth env) (ta_unsigned a)) (\<lambda>tx. WithSignature (oe_eth env) tx sig)"

definition bsc_verify :: "orch_env \<Rightarrow> transfer_request \<Rightarrow> attempt \<Rightarrow> signature \<Rightarrow> string + string" where
  "bsc_verify env req a sig =
     rbind (bsc_signed env a sig) (\<lambda>tx.
     case (if native req then checkEVMNativeTransfer (oe_eth env) tx (intent req)
           else checkEVMTransfer (oe_eth env) tx (intent req)) of
       Some e \<Rightarrow> Inl e
     | None \<Rightarrow> Inr (el_hash (oe_eth env) tx))"

definition bsc_send :: "orch_env \<Rightarrow> attempt \<Rightarrow> string option" where
  "bsc_send env a =
     (case ta_signature a of
        None \<Rightarrow> Some ''nil signature''
      | Some sig \<Rightarrow>
        (case rbind (bsc_signed env a sig) (evm_Broadcast (oe_eth env) (oe_evm env)) of
           Inl e \<Rightarrow> Some e
         | Inr _ \<Rightarrow> None))"

definition watch_nonce :: "time \<Rightarrow> attempt \<Rightarrow> time option \<Rightarrow> world \<Rightarrow> world \<times> (string + sent_outcome)" where
  "watch_nonce now a since w =
     (case SetNonceConsumedSince now (ta_id a) since (wd_db w) of
        Inl _ \<Rightarrow> (w, Inl ''recording the consumed nonce'')
      | Inr db \<Rightarrow> (w\<lparr>wd_db := db\<rparr>, Inr OutPending))"

definition bsc_nonce_used :: "orch_env \<Rightarrow> attempt \<Rightarrow> string \<Rightarrow> string + bool" where
  "bsc_nonce_used env a h =
     rbind (TransactionMined (oe_evm env) h) (\<lambda>mined.
     if mined then Inr False
     else
       rbind (en_nonce (oe_evm env) (ta_from a)) (\<lambda>confirmed.
       case ta_nonce a of None \<Rightarrow> Inl ''nil nonce'' | Some n \<Rightarrow> Inr (n < confirmed)))"

definition bsc_outcome :: "orch_env \<Rightarrow> attempt \<Rightarrow> time \<Rightarrow> world \<Rightarrow> world \<times> (string + sent_outcome)" where
  "bsc_outcome env a now w =
     (case ta_hash a of
        None \<Rightarrow> (w, Inl ''nil hash'')
      | Some h \<Rightarrow>
        (case evm_IsFinal (oe_evm env) h of
           Inl (Reverted e) \<Rightarrow> (w, Inr (OutFailed e))
         | Inl (FinalityError e) \<Rightarrow> (w, Inl e)
         | Inr True \<Rightarrow> (w, Inr OutConfirmed)
         | Inr False \<Rightarrow>
           (case bsc_nonce_used env a h of
              Inl e \<Rightarrow> (w, Inl e)
            | Inr False \<Rightarrow> if ta_nonce_consumed a \<noteq> None then watch_nonce now a None w else (w, Inr OutPending)
            | Inr True \<Rightarrow>
              (case ta_nonce_consumed a of
                 None \<Rightarrow> watch_nonce now a (Some now) w
               | Some since \<Rightarrow>
                   if evmDropGrace \<le> now - since then (w, Inr (OutDropped ''nonce was used by another mined transaction''))
                   else (w, Inr OutPending)))))"

definition bscAdapter :: "top_up \<Rightarrow> orch_env \<Rightarrow> adapter" where
  "bscAdapter topUp env =
     \<lparr>ad_build = bsc_build topUp env, ad_unsendable = bsc_unsendable env, ad_verify = bsc_verify env,
      ad_send = bsc_send env, ad_outcome = bsc_outcome env\<rparr>"

section \<open>TRON\<close>

definition tron_buildWith ::
  "time \<Rightarrow> orch_env \<Rightarrow> transfer_request \<Rightarrow> (block_reference \<Rightarrow> string + bytes) \<Rightarrow> string + attempt" where
  "tron_buildWith now env req mk =
     rbind (CurrentBlockReference (oe_tron env) now) (\<lambda>ref.
     rbind (mk ref) (\<lambda>raw.
     Inr (built_attempt req TRON raw (tl_sha256 (oe_trl env) raw) None (Some (br_expiration ref)))))"

definition tron_finish ::
  "time \<Rightarrow> orch_env \<Rightarrow> transfer_request \<Rightarrow> (block_reference \<Rightarrow> string + bytes) \<Rightarrow> world \<Rightarrow> world \<times> (build_error + attempt)" where
  "tron_finish now env req mk w = (case tron_buildWith now env req mk of Inl e \<Rightarrow> refuse w e | Inr a \<Rightarrow> (w, Inr a))"

definition tron_energy_needed :: "orch_env \<Rightarrow> transfer_request \<Rightarrow> string + int64" where
  "tron_energy_needed env req =
     rbind (onChainUnits (tr_amount req) tron_USDTOnChainDecimals) (\<lambda>raw.
     EstimateTransferEnergy (oe_trl env) (oe_tron env) (tr_from req) (tr_to req) raw)"

definition tron_build ::
  "top_up \<Rightarrow> (transfer_request \<Rightarrow> int64 \<Rightarrow> world \<Rightarrow> world \<times> build_error) \<Rightarrow> time \<Rightarrow> orch_env \<Rightarrow>
   transfer_request \<Rightarrow> nat \<Rightarrow> world \<Rightarrow> world \<times> (build_error + attempt)" where
  "tron_build topUp rent now env req failedBefore w =
     (case AccountResources (oe_tron env) (tr_from req) of
        Inl e \<Rightarrow> refuse w e
      | Inr res \<Rightarrow>
        if native req then
          (if \<not> rs_exists res \<or> rs_balance_sun res <s amt_units (tr_amount req) + tronTreasuryReserveSun
           then refuse w ''the TRON treasury needs TRX''
           else tron_finish now env req
             (BuildTRXTransfer (oe_trl env) (tr_from req) (tr_to req) (amt_units (tr_amount req))) w)
        else case rbind (tron_TokenBalance (oe_trl env) (oe_tron env) (tr_from req)) (\<lambda>have.
                    requireBalance req have tron_USDTOnChainDecimals) of
          Inl e \<Rightarrow> refuse w e
        | Inr _ \<Rightarrow>
          if \<not> rs_exists res then provision (topUp req TRX_TOPUP 0 w)
          else case tron_energy_needed env req of
            Inl e \<Rightarrow> refuse w e
          | Inr needEnergy \<Rightarrow>
            if rs_energy res <s needEnergy then provision (rent req (needEnergy - rs_energy res) w)
            else if rs_bandwidth res <s tronTransferBandwidth \<and> rs_balance_sun res <s tronTransferBandwidth * 1000
            then provision (topUp req TRX_TOPUP (sint (tronTransferBandwidth * 1000 - rs_balance_sun res)) w)
            else tron_finish now env req
              (tron_BuildTransfer (oe_trl env) (tr_from req) (tr_to req) (tr_amount req)) w)"

definition tron_unsendable :: "attempt \<Rightarrow> time \<Rightarrow> string + string option" where
  "tron_unsendable a now =
     (case ta_expires_at a of
        None \<Rightarrow> Inl ''nil expiry''
      | Some t \<Rightarrow> Inr (if t < now + tronSendMargin then Some ''expired before it was signed and sent'' else None))"

definition tron_verify :: "orch_env \<Rightarrow> transfer_request \<Rightarrow> attempt \<Rightarrow> signature \<Rightarrow> string + string" where
  "tron_verify env req a sig =
     (case (if native req then checkTRXTransfer (oe_trl env) (ta_unsigned a) (intent req)
            else checkTRONTransfer (oe_trl env) (ta_unsigned a) (intent req)) of
        Some e \<Rightarrow> Inl e
      | None \<Rightarrow>
        (case checkTRONSigner (oe_trl env) (ta_digest a) sig (tr_from req) of
           Some e \<Rightarrow> Inl e
         | None \<Rightarrow> Inr (fmt_digest (ta_digest a))))"

definition tron_send :: "time \<Rightarrow> orch_env \<Rightarrow> attempt \<Rightarrow> string option" where
  "tron_send now env a =
     (case (ta_expires_at a, ta_signature a) of
        (None, _) \<Rightarrow> Some ''nil expiry''
      | (Some t, s) \<Rightarrow>
          if t < now then Some ''not re-sent: expired''
          else (case s of
             None \<Rightarrow> Some ''nil signature''
           | Some sig \<Rightarrow> BroadcastSigned (oe_trl env) (oe_tron env) (ta_unsigned a) sig))"

definition tron_outcome :: "orch_env \<Rightarrow> attempt \<Rightarrow> time \<Rightarrow> world \<Rightarrow> world \<times> (string + sent_outcome)" where
  "tron_outcome env a now w = (w,
     (case ta_hash a of
        None \<Rightarrow> Inl ''nil hash''
      | Some h \<Rightarrow>
        rbind (CheckExecution (oe_tron env) h) (\<lambda>(final, success, reason).
        if final \<and> success then Inr OutConfirmed
        else if final \<and> reason \<noteq> '''' then Inr (OutFailed reason)
        else if final \<and> amt_asset (ta_amount a) = TRX then Inr OutConfirmed
        else if final then Inr OutPending
        else (case ta_expires_at a of
          None \<Rightarrow> Inl ''nil expiry''
        | Some t \<Rightarrow>
            if t + tronDropGrace < now
            then Inr (OutDropped ''expired and never appeared on the solidified chain'') else Inr OutPending))))"

definition tronAdapter ::
  "top_up \<Rightarrow> (transfer_request \<Rightarrow> int64 \<Rightarrow> world \<Rightarrow> world \<times> build_error) \<Rightarrow> time \<Rightarrow> orch_env \<Rightarrow> adapter" where
  "tronAdapter topUp rent now env =
     \<lparr>ad_build = tron_build topUp rent now env, ad_unsendable = tron_unsendable, ad_verify = tron_verify env,
      ad_send = tron_send now env, ad_outcome = tron_outcome env\<rparr>"

section \<open>Energy rentals\<close>

text \<open>\<open>defaultEnergyDeadlineWindow\<close> only shapes the request to the broker.\<close>

definition trxToSun :: "(string \<Rightarrow> (int \<times> nat) option) \<Rightarrow> string option \<Rightarrow> int64 option" where
  "trxToSun rat trx =
     (case trx of
        None \<Rightarrow> None
      | Some s \<Rightarrow>
        (case rat s of
           None \<Rightarrow> None
         | Some (n, d) \<Rightarrow> Some (of_int (sgn n * (\<bar>n * 1000000\<bar> div int d)))))"

definition rental_key :: "transfer_request \<Rightarrow> nat \<Rightarrow> string" where
  "rental_key req n =
     ''relayd:energy:'' @ tr_job req @ '':'' @ purpose_str (tr_purpose req) @ '':'' @ fmt_int (int n)"

definition new_rental :: "transfer_request \<Rightarrow> int64 \<Rightarrow> nat \<Rightarrow> rental" where
  "new_rental req shortfall n =
     \<lparr>rn_id = 0, rn_job = tr_job req, rn_purpose = tr_purpose req, rn_address = tr_from req,
      rn_resource = ''ENERGY'', rn_units = shortfall, rn_key = rental_key req n, rn_provider = None,
      rn_status = '''', rn_cost_sun = None, rn_error = None, rn_created_at = 0, rn_updated_at = 0\<rparr>"

definition finish_rental ::
  "time \<Rightarrow> int \<Rightarrow> bool \<Rightarrow> string option \<Rightarrow> int64 option \<Rightarrow> string option \<Rightarrow> world \<Rightarrow> world" where
  "finish_rental now i confirmed provider cost cause w =
     w\<lparr>wd_db := FinishRental now i confirmed provider cost cause (wd_db w)\<rparr>"

definition reserve_energy :: "orch_env \<Rightarrow> transfer_request \<Rightarrow> int64 \<Rightarrow> rental \<Rightarrow> string + reservation" where
  "reserve_energy env req shortfall r =
     (case oe_energy env of
        None \<Rightarrow> Inl ''no energy provider is configured''
      | Some reserve \<Rightarrow>
        rbind (reserve (tr_job req) (tr_from req) shortfall (rn_key r)) (\<lambda>res.
        if rv_status res \<noteq> ''CONFIRMED'' then Inl ''the energy reservation ended unconfirmed'' else Inr res))"

text \<open>Asking for a new rental: recorded first, then bought, then closed with its outcome.\<close>

definition rent_new ::
  "time \<Rightarrow> orch_env \<Rightarrow> transfer_request \<Rightarrow> int64 \<Rightarrow> nat \<Rightarrow> world \<Rightarrow> world \<times> build_error" where
  "rent_new now env req shortfall n w =
     (if maxEnergyRentals \<le> n then (w, BuildError ''still lacks energy after the last rental'')
      else if oe_energy env = None then (w, BuildError ''no energy provider is configured'')
      else case CreateRental now (new_rental req shortfall n) (wd_db w) of
        Inl _ \<Rightarrow> (w, BuildError ''recording a rental'')
      | Inr (db, r) \<Rightarrow>
        (let w = w\<lparr>wd_db := db\<rparr> in
         case reserve_energy env req shortfall r of
           Inl e \<Rightarrow> (finish_rental now (rn_id r) False None None (Some e) w, BuildError e)
         | Inr res \<Rightarrow>
             (finish_rental now (rn_id r) True (rv_vendor res) (trxToSun (oe_rat env) (rv_cost res)) None w,
              NotReady ''waiting for rented energy to arrive'')))"

definition rentEnergy ::
  "time \<Rightarrow> orch_env \<Rightarrow> transfer_request \<Rightarrow> int64 \<Rightarrow> world \<Rightarrow> world \<times> build_error" where
  "rentEnergy now env req shortfall w =
     (case LatestRental (wd_db w) (tr_job req) (tr_purpose req) ''ENERGY'' of
        (Some latest, n) \<Rightarrow>
          if rn_status latest = ''PENDING'' then
            (if now - rn_created_at latest < rentalPendingTimeout then (w, NotReady ''an energy rental is in progress'')
             else rent_new now env req shortfall n
               (finish_rental now (rn_id latest) False None None (Some ''no outcome recorded'') w))
          else if rn_status latest = ''CONFIRMED'' \<and> now - rn_updated_at latest < rentalArrivalWait
          then (w, NotReady ''waiting for rented energy'')
          else rent_new now env req shortfall n w
      | (None, n) \<Rightarrow> rent_new now env req shortfall n w)"

section \<open>Treasuries\<close>

definition treasuries :: "orch_config \<Rightarrow> treasury list" where
  "treasuries c =
     (if cf_treasuries c \<noteq> [] then cf_treasuries c
      else [\<lparr>ty_slot = cf_slot_id c, ty_evm = cf_slot_evm c, ty_tron = cf_slot_address c\<rparr>])"

definition treasury_address :: "treasury \<Rightarrow> chain \<Rightarrow> string" where
  "treasury_address t c = (if c = BSC then ty_evm t else ty_tron t)"

definition treasuryAddress :: "orch_config \<Rightarrow> chain \<Rightarrow> string" where
  "treasuryAddress cfg c = treasury_address (hd (treasuries cfg)) c"

definition treasuryAt :: "orch_config \<Rightarrow> chain \<Rightarrow> string \<Rightarrow> treasury option" where
  "treasuryAt cfg c address =
     first_row (\<lambda>t. treasury_address t c \<noteq> '''' \<and> to_lower (treasury_address t c) = to_lower address) (treasuries cfg)"

definition treasuryFeeReserve :: "chain \<Rightarrow> int" where
  "treasuryFeeReserve c = (if c = BSC then 21000 * maxGasPriceWei else sint tronTreasuryReserveSun)"

definition nativeBalance :: "orch_env \<Rightarrow> chain \<Rightarrow> string \<Rightarrow> string + int" where
  "nativeBalance env c address =
     (if c = BSC then en_native (oe_evm env) address
      else rbind (AccountResources (oe_tron env) address) (\<lambda>r. Inr (sint (rs_balance_sun r))))"

definition can_fund :: "orch_env \<Rightarrow> transfer_db \<Rightarrow> chain \<Rightarrow> int \<Rightarrow> treasury \<Rightarrow> bool" where
  "can_fund env db c need t \<longleftrightarrow>
     (let a = treasury_address t c in
      a \<noteq> '''' \<and> OpenFrom db a = None \<and>
      (case nativeBalance env c a of Inl _ \<Rightarrow> False | Inr have \<Rightarrow> need \<le> have))"

definition pickTreasury ::
  "orch_env \<Rightarrow> transfer_db \<Rightarrow> chain \<Rightarrow> string \<Rightarrow> purpose \<Rightarrow> amount \<Rightarrow> treasury" where
  "pickTreasury env db c job purp a =
     (let all = treasuries (oe_cfg env) in
      case Option.bind (OpenAttempt db job purp) (\<lambda>x. treasuryAt (oe_cfg env) c (ta_from x)) of
        Some t \<Rightarrow> t
      | None \<Rightarrow>
        if length all = 1 then hd all
        else case first_row (can_fund env db c (units a + treasuryFeeReserve c)) all of
          Some t \<Rightarrow> t
        | None \<Rightarrow> hd all)"

section \<open>Top-ups\<close>

definition gasTopUpWei :: "orch_config \<Rightarrow> int64" where
  "gasTopUpWei c = (if 0 <s cf_gas_topup_wei c then cf_gas_topup_wei c else defaultGasTopUpWei)"

definition trxTopUpSun :: "orch_config \<Rightarrow> int64" where
  "trxTopUpSun c = (if 0 <s cf_trx_topup_sun c then cf_trx_topup_sun c else defaultTRXTopUpSun)"

definition topup_amount :: "orch_config \<Rightarrow> purpose \<Rightarrow> int \<Rightarrow> amount option" where
  "topup_amount c purp shortfall =
     (case purp of
        GAS_TOPUP \<Rightarrow> Some (Amount BNB (of_int (max (shortfall * 2) (sint (gasTopUpWei c)))))
      | TRX_TOPUP \<Rightarrow> Some (Amount TRX (max64 (of_int shortfall) (trxTopUpSun c)))
      | _ \<Rightarrow> None)"

definition topup_prefix :: "transfer_request \<Rightarrow> purpose \<Rightarrow> string" where
  "topup_prefix parent purp =
     to_lower (purpose_str purp) @ '':'' @ tr_job parent @ '':'' @ purpose_str (tr_purpose parent) @ '':''"

definition topup_request :: "transfer_request \<Rightarrow> purpose \<Rightarrow> treasury \<Rightarrow> string \<Rightarrow> amount \<Rightarrow> transfer_request" where
  "topup_request parent purp t job a =
     \<lparr>tr_job = job, tr_purpose = purp, tr_chain = tr_chain parent, tr_from = treasury_address t (tr_chain parent),
      tr_signer = \<lparr>sg_index = None, sg_slot = True, sg_slot_id = ty_slot t\<rparr>, tr_to = tr_from parent,
      tr_amount = a, tr_leg = None\<rparr>"

definition topUp :: "time \<Rightarrow> orch_env \<Rightarrow> (chain \<Rightarrow> adapter) \<Rightarrow> top_up" where
  "topUp now env ads parent purp shortfall w =
     (if treasuryAddress (oe_cfg env) (tr_chain parent) = '''' then (w, BuildError ''no treasury address is configured'')
      else
        (let prefix = topup_prefix parent purp;
             rounds = CountConfirmedWithPrefix (wd_db w) prefix purp in
         if 0 < rounds \<and> (case LastConfirmedWithPrefix (wd_db w) prefix purp of
                             None \<Rightarrow> False | Some t \<Rightarrow> now - t < topUpSettle)
         then (w, NotReady ''a top-up just landed'')
         else if maxTopUpRounds \<le> rounds then (w, BuildError ''still can't be paid for after the last top-up'')
         else case topup_amount (oe_cfg env) purp shortfall of
           None \<Rightarrow> (w, BuildError ''not a top-up'')
         | Some a \<Rightarrow>
             (let job = prefix @ fmt_int (int rounds);
                  t = pickTreasury env (wd_db w) (tr_chain parent) job purp a in
              case driveTransfer now (oe_sv env) ads (topup_request parent purp t job a) w of
                (w, Inl _) \<Rightarrow> (w, BuildError ''topping up from the treasury'')
              | (w, Inr (Some _)) \<Rightarrow> (w, NotReady ''a top-up landed'')
              | (w, Inr None) \<Rightarrow> (w, NotReady ''waiting for a top-up''))))"

section \<open>The adapters\<close>

definition no_top_up :: top_up where
  "no_top_up parent purp shortfall w = (w, BuildError ''a treasury is not topped up'')"

definition chain_adapters :: "top_up \<Rightarrow> time \<Rightarrow> orch_env \<Rightarrow> chain \<Rightarrow> adapter" where
  "chain_adapters t now env c = (if c = BSC then bscAdapter t env else tronAdapter t (rentEnergy now env) now env)"

definition treasury_adapters :: "time \<Rightarrow> orch_env \<Rightarrow> chain \<Rightarrow> adapter" where
  "treasury_adapters = chain_adapters no_top_up"

definition adapters :: "time \<Rightarrow> orch_env \<Rightarrow> chain \<Rightarrow> adapter" where
  "adapters now env = chain_adapters (topUp now env (treasury_adapters now env)) now env"

section \<open>Following open top-ups\<close>

fun trackTopUps_loop :: "time \<Rightarrow> orch_env \<Rightarrow> attempt list \<Rightarrow> world \<Rightarrow> world \<times> (drive_error + unit)" where
  "trackTopUps_loop now env [] w = (w, Inr ())"
| "trackTopUps_loop now env (a # as) w =
     (if \<not> MayLand (ta_status a) then
        trackTopUps_loop now env as
          (if staleUnsignedTopUp < now - ta_created_at a
           then fst (store_call (MarkAbandoned now (ta_id a) ''no longer needed before it was signed'') w) else w)
      else case adapterFor (adapters now env) (ta_chain a) of
        Inl e \<Rightarrow> (w, Inl e)
      | Inr ad \<Rightarrow> trackTopUps_loop now env as (fst (trackSent now ad a w)))"

definition trackTopUps :: "time \<Rightarrow> orch_env \<Rightarrow> world \<Rightarrow> world \<times> (drive_error + unit)" where
  "trackTopUps now env w = trackTopUps_loop now env (ListOpen (wd_db w) [GAS_TOPUP, TRX_TOPUP]) w"

end
