(* ===== verification/Drive_Inv.thy ===== *)
theory Drive_Inv
  imports Drive
begin

text \<open>
  What the driver keeps, whatever a chain, S1 or a vendor answers: at most one attempt of a job is
  open or confirmed (\<open>one_live\<close>), and everything handed to a node is recorded in the store with the
  very signature that was sent (\<open>sent_ok\<close>). The locale \<open>chain_adapter\<close> says what the driver needs of
  an adapter for that; its lemmas are proved once for both chains.
\<close>

section \<open>The invariant\<close>

definition live :: "attempt \<Rightarrow> bool" where
  "live a \<longleftrightarrow> ta_status a \<in> {Built, Signed, Broadcast, Confirmed}"

definition one_live :: "transfer_db \<Rightarrow> bool" where
  "one_live db \<longleftrightarrow> distinct (map attempt_job (filter live (attempts db)))"

definition sent_ok :: "world \<Rightarrow> bool" where
  "sent_ok w \<longleftrightarrow>
     (\<forall>a \<in> set (wd_sent w). signed_tx a \<noteq> None \<and> signed_at (wd_db w) (ta_id a) = signed_tx a)"

text \<open>At most five energy rentals are ever recorded for one transfer.\<close>

definition rentals_ok :: "transfer_db \<Rightarrow> bool" where
  "rentals_ok db \<longleftrightarrow> (\<forall>job purp. affected (rental_of job purp ''ENERGY'') (rentals db) \<le> 5)"

definition world_ok :: "world \<Rightarrow> bool" where
  "world_ok w \<longleftrightarrow> transfers_ok (wd_db w) \<and> one_live (wd_db w) \<and> sent_ok w \<and> rentals_ok (wd_db w)"

definition empty_world :: world where
  "empty_world = \<lparr>wd_db = empty_transfer_db, wd_sent = []\<rparr>"

lemma world_ok_empty: "world_ok empty_world"
  using transfers_ok_empty
  by (simp add: world_ok_def empty_world_def one_live_def sent_ok_def empty_transfer_db_def rentals_ok_def affected_def)

text \<open>What a later state of the store keeps of an earlier one: every transaction, every signature,
  and a path of the status graph for every attempt.\<close>

definition reads_on :: "transfer_db \<Rightarrow> transfer_db \<Rightarrow> bool" where
  "reads_on db db' \<longleftrightarrow>
     (\<forall>i v. tx_at db i = Some v \<longrightarrow> tx_at db' i = Some v) \<and>
     (\<forall>i v. signed_at db i = Some v \<longrightarrow> signed_at db' i = Some v) \<and>
     (\<forall>i s. attempt_status_of db i = Some s \<longrightarrow>
        (\<exists>t. attempt_status_of db' i = Some t \<and> attempt_edge\<^sup>*\<^sup>* s t))"

text \<open>A step sends no attempt of a job that was confirmed before it.\<close>

definition confirmed_job :: "transfer_db \<Rightarrow> string \<times> purpose \<Rightarrow> bool" where
  "confirmed_job db j \<longleftrightarrow>
     (\<exists>i v. attempt_status_of db i = Some Confirmed \<and> tx_at db i = Some v \<and> (fst v, fst (snd v)) = j)"

definition world_step :: "world \<Rightarrow> world \<Rightarrow> bool" where
  "world_step w w' \<longleftrightarrow> reads_on (wd_db w) (wd_db w') \<and>
     (\<exists>more. wd_sent w' = wd_sent w @ more \<and> (\<forall>b \<in> set more. \<not> confirmed_job (wd_db w) (attempt_job b)))"

lemma reads_on_refl [simp, intro]: "reads_on db db"
  by (auto simp: reads_on_def)

lemma reads_on_trans: "reads_on a b \<Longrightarrow> reads_on b c \<Longrightarrow> reads_on a c"
  unfolding reads_on_def by (meson rtranclp_trans)

lemma world_step_refl [simp, intro]: "world_step w w"
  by (auto simp: world_step_def)

lemma confirmed_stays:
  assumes "reads_on db db'" and "attempt_status_of db i = Some Confirmed"
  shows "attempt_status_of db' i = Some Confirmed"
proof -
  have "t = Confirmed" if "attempt_edge\<^sup>*\<^sup>* Confirmed t" for t
    using that by (cases rule: converse_rtranclpE) auto
  then show ?thesis using assms unfolding reads_on_def by metis
qed

lemma confirmed_job_stays: "reads_on db db' \<Longrightarrow> confirmed_job db j \<Longrightarrow> confirmed_job db' j"
  unfolding confirmed_job_def by (elim exE conjE, frule (1) confirmed_stays) (auto simp: reads_on_def)

lemma world_step_trans:
  assumes "world_step a b" and "world_step b c"
  shows "world_step a c"
proof -
  have db: "reads_on (wd_db a) (wd_db b)" using assms(1) by (simp add: world_step_def)
  obtain m n where s: "wd_sent b = wd_sent a @ m" "\<forall>x \<in> set m. \<not> confirmed_job (wd_db a) (attempt_job x)"
    "wd_sent c = wd_sent b @ n" "\<forall>x \<in> set n. \<not> confirmed_job (wd_db b) (attempt_job x)"
    using assms unfolding world_step_def by blast
  then have "\<not> confirmed_job (wd_db a) (attempt_job x)" if "x \<in> set n" for x
    using confirmed_job_stays [OF db] that by blast
  then have "wd_sent c = wd_sent a @ (m @ n)" "\<forall>x \<in> set (m @ n). \<not> confirmed_job (wd_db a) (attempt_job x)"
    using s by auto
  then show ?thesis using assms reads_on_trans unfolding world_step_def by blast
qed

lemma exec_reads_on:
  assumes "transfers_ok db" and "transfer_exec opn db = Inr db'"
  shows "reads_on db db'"
  unfolding reads_on_def
proof (intro conjI allI impI)
  fix i s
  assume "attempt_status_of db i = Some s"
  from attempt_store.moves [OF assms this]
  show "\<exists>t. attempt_status_of db' i = Some t \<and> attempt_edge\<^sup>*\<^sup>* s t" by auto
qed (fact attempt_txs.keeps [OF assms] attempt_signatures.keeps [OF assms])+

section \<open>The operations of the store\<close>

definition creates :: "transfer_op \<Rightarrow> bool" where
  "creates opn \<longleftrightarrow> (case opn of OpCreateAttempt _ _ \<Rightarrow> True | OpCreateRental _ _ \<Rightarrow> True | _ \<Rightarrow> False)"

lemma exec_length:
  "transfer_exec opn db = Inr db' \<Longrightarrow> \<not> creates opn \<Longrightarrow> length (attempts db') = length (attempts db)"
  by (cases opn)
    (auto simp: creates_def MarkSigned_def MarkConfirmed_def MarkFailed_def MarkDropped_def MarkAbandoned_def
      transition_def RecordBroadcast_def SetNonceConsumedSince_def MarkStuckAlerted_def CreateRental_def
      FinishRental_def Let_def write_attempts_Inr map_sum_def split: if_splits option.splits sum.splits)

lemma FinishRental_count:
  "affected (rental_of job purp k) (rentals (FinishRental now i b p c e db)) = affected (rental_of job purp k) (rentals db)"
proof -
  let ?f = "\<lambda>r. if rn_id r = i \<and> rn_status r = ''PENDING'' then r\<lparr>rn_status := (if b then ''CONFIRMED'' else ''FAILED''),
    rn_provider := p, rn_cost_sun := c, rn_error := e, rn_updated_at := now\<rparr> else r"
  have "(\<lambda>r. rental_of job purp k (?f r)) = rental_of job purp k" by (auto simp: rental_of_def fun_eq_iff)
  then show ?thesis by (simp add: FinishRental_def affected_def update_rows_def filter_map comp_def)
qed

lemma exec_rentals:
  assumes "transfer_exec opn db = Inr db'" and "\<not> creates opn" and "rentals_ok db"
  shows "rentals_ok db'"
proof (cases opn)
  case (OpFinishRental now i b p c e)
  then show ?thesis using assms by (auto simp: rentals_ok_def FinishRental_count)
qed (use assms in \<open>auto simp: creates_def MarkSigned_def MarkConfirmed_def MarkFailed_def MarkDropped_def
    MarkAbandoned_def transition_def RecordBroadcast_def SetNonceConsumedSince_def MarkStuckAlerted_def Let_def
    write_attempts_Inr map_sum_def rentals_ok_def split: if_splits option.splits sum.splits\<close>)

lemma live_back: "attempt_step a a' \<Longrightarrow> live a' \<Longrightarrow> live a"
  by (cases "ta_status a") (auto simp: attempt_step_def live_def)

lemma exec_one_live:
  assumes ok: "transfers_ok db" and e: "transfer_exec opn db = Inr db'" and "\<not> creates opn" and "one_live db"
  shows "one_live db'"
proof -
  obtain f new where f: "attempts db' = map f (attempts db) @ new" "\<forall>a \<in> set (attempts db). attempt_step a (f a)"
    using transfer_exec_ok [OF ok e] by (auto simp: attempts_step_def)
  then have new: "new = []" using exec_length [OF e assms(3)] by simp
  have "distinct (map attempt_job (filter live (map f rows)))"
    if "distinct (map attempt_job (filter live rows))" "\<forall>a \<in> set rows. attempt_step a (f a)" for rows
    using that
  proof (induction rows)
    case (Cons a rows)
    have job: "attempt_job (f x) = attempt_job x" if "x \<in> set (a # rows)" for x
      using Cons.prems(2) that by (auto simp: attempt_step_def attempt_tx_def attempt_job_def)
    have "attempt_job ` set (filter live (map f rows)) \<subseteq> attempt_job ` set (filter live rows)"
    proof
      fix j
      assume "j \<in> attempt_job ` set (filter live (map f rows))"
      then obtain x where "x \<in> set rows" "live (f x)" "j = attempt_job (f x)" by auto
      then show "j \<in> attempt_job ` set (filter live rows)"
        using job [of x] live_back [of x "f x"] Cons.prems(2) by auto
    qed
    then show ?case
      using Cons live_back [of a "f a"] job [of a] by (auto split: if_splits)
  qed simp
  then show ?thesis using assms(4) f new by (simp add: one_live_def)
qed

lemma CreateAttempt_rentals: "CreateAttempt now a db = Inr (db', b) \<Longrightarrow> rentals db' = rentals db"
  by (auto simp: CreateAttempt_def Let_def write_attempts_Inr split: if_splits)

lemma sent_ok_keeps: "sent_ok w \<Longrightarrow> reads_on (wd_db w) db \<Longrightarrow> sent_ok (w\<lparr>wd_db := db\<rparr>)"
  unfolding sent_ok_def reads_on_def by fastforce

lemma exec_world:
  assumes ok: "world_ok w" and e: "transfer_exec opn (wd_db w) = Inr db" and "\<not> creates opn"
  shows "world_ok (w\<lparr>wd_db := db\<rparr>) \<and> world_step w (w\<lparr>wd_db := db\<rparr>)"
proof -
  have t: "transfers_ok (wd_db w)" "one_live (wd_db w)" "sent_ok w" "rentals_ok (wd_db w)" using ok by (simp_all add: world_ok_def)
  note r = exec_reads_on [OF t(1) e]
  show ?thesis
    using transfer_exec_ok [OF t(1) e] exec_one_live [OF t(1) e assms(3) t(2)] sent_ok_keeps [OF t(3) r] r
      exec_rentals [OF e assms(3) t(4)]
    by (simp add: world_ok_def world_step_def)
qed

lemma CreateRental_world:
  assumes ok: "world_ok w" and c: "CreateRental now r (wd_db w) = Inr (db, q)"
    and few: "affected (rental_of (rn_job r) (rn_purpose r) ''ENERGY'') (rentals (wd_db w)) < 5"
  shows "world_ok (w\<lparr>wd_db := db\<rparr>) \<and> world_step w (w\<lparr>wd_db := db\<rparr>)"
proof -
  have t: "transfers_ok (wd_db w)" "one_live (wd_db w)" "sent_ok w" "rentals_ok (wd_db w)"
    using ok by (simp_all add: world_ok_def)
  have e: "transfer_exec (OpCreateRental now r) (wd_db w) = Inr db" using c by simp
  have rows: "attempts db = attempts (wd_db w)"
    using c by (auto simp: CreateRental_def Let_def split: if_splits option.splits)
  have "rentals db = rentals (wd_db w) \<or> (\<exists>x. rentals db = rentals (wd_db w) @ [x] \<and>
      rn_job x = rn_job r \<and> rn_purpose x = rn_purpose r)"
    using c by (auto simp: CreateRental_def Let_def split: if_splits option.splits)
  then have "rentals_ok db"
  proof
    assume "\<exists>x. rentals db = rentals (wd_db w) @ [x] \<and> rn_job x = rn_job r \<and> rn_purpose x = rn_purpose r"
    then obtain x where x: "rentals db = rentals (wd_db w) @ [x]" "rn_job x = rn_job r" "rn_purpose x = rn_purpose r"
      by blast
    show ?thesis unfolding rentals_ok_def
    proof (intro allI)
      fix job purp
      show "affected (rental_of job purp ''ENERGY'') (rentals db) \<le> 5"
        using t(4) [unfolded rentals_ok_def, rule_format, of job purp] few x
        by (cases "rental_of job purp ''ENERGY'' x") (auto simp: affected_def rental_of_def)
    qed
  qed (use t(4) in \<open>simp add: rentals_ok_def\<close>)
  then show ?thesis
    using transfer_exec_ok [OF t(1) e] t(2) rows sent_ok_keeps [OF t(3) exec_reads_on [OF t(1) e]]
      exec_reads_on [OF t(1) e]
    by (simp add: world_ok_def world_step_def one_live_def)
qed

lemma store_call_ok:
  assumes "world_ok w" and "store_call f w = (w', r)" and "\<And>db. f db = transfer_exec opn db" and "\<not> creates opn"
  shows "world_ok w' \<and> world_step w w' \<and> wd_sent w' = wd_sent w \<and>
    (case r of Inl e \<Rightarrow> w' = w | Inr _ \<Rightarrow> transfer_exec opn (wd_db w) = Inr (wd_db w'))"
  using assms exec_world [OF assms(1)] by (auto simp: store_call_def split: sum.splits)

lemma rthen_cases:
  assumes "rthen x k = (w', r)"
  obtains (stop) e where "x = (w', Inl e)" "r = Inl e" | (go) w a where "x = (w, Inr a)" "k w a = (w', r)"
  using assms by (auto simp: rthen_def split: prod.splits sum.splits)

lemma new_live:
  assumes "one_live db" and "\<forall>x \<in> set (attempts db). live x \<longrightarrow> attempt_job x \<noteq> attempt_job a"
    and "attempts db' = attempts db @ [a]"
  shows "one_live db'"
  using assms by (auto simp: one_live_def)

section \<open>Reads\<close>

lemma OpenAttempt_Some:
  assumes "OpenAttempt db ext p = Some a"
  shows "a \<in> set (attempts db)" "attempt_job a = (ext, p)" "ta_status a \<in> {Built, Signed, Broadcast}"
  using first_row_Some [OF assms [unfolded OpenAttempt_def one_def]] by (auto simp: attempt_job_def)

lemma ConfirmedAttempt_Some:
  assumes "ConfirmedAttempt db ext p = Some a"
  shows "a \<in> set (attempts db)" "attempt_job a = (ext, p)" "ta_status a = Confirmed"
  using first_row_Some [OF assms [unfolded ConfirmedAttempt_def one_def]] by (auto simp: attempt_job_def)

lemma none_live:
  assumes "OpenAttempt db ext p = None" and "ConfirmedAttempt db ext p = None"
  shows "\<forall>x \<in> set (attempts db). live x \<longrightarrow> attempt_job x \<noteq> (ext, p)"
  using assms by (auto simp: OpenAttempt_def ConfirmedAttempt_def one_def first_row_None live_def attempt_job_def)

lemma sent_row:
  assumes "transfers_ok db" and "a \<in> set (attempts db)" and "MayLand (ta_status a)"
  shows "signed_tx a \<noteq> None \<and> signed_at db (ta_id a) = signed_tx a"
  using assms attempt_at_mem [OF assms(1,2)]
  by (auto simp: transfers_ok_def attempt_check_def MayLand_def signed_tx_def signed_at_def)

section \<open>One step of the driver\<close>

lemma transition_status:
  assumes ok: "transfers_ok db" and t: "transition now i to from extra db = Inr db'"
    and ex: "\<And>a. ta_id (extra a) = ta_id a" "\<And>a. ta_status (extra a) = ta_status a"
  shows "attempt_status_of db' i = Some to"
proof -
  let ?p = "\<lambda>a. ta_id a = i \<and> ta_status a \<in> set from"
  have db': "db' = db\<lparr>attempts := update_rows ?p (\<lambda>a. extra (a\<lparr>ta_status := to, ta_updated_at := now\<rparr>)) (attempts db)\<rparr>"
    using transition_Inr [OF t] by (simp add: write_attempts_Inr)
  show ?thesis
  proof (cases "0 < affected ?p (attempts db)")
    case True
    then obtain a where a: "a \<in> set (attempts db)" "ta_id a = i" "ta_status a \<in> set from"
      using affected_0 [of ?p "attempts db"] by auto
    then have "attempt_at db i = Some a" using attempt_at_mem [OF ok a(1)] by simp
    then show ?thesis using a ex
      by (simp add: attempt_status_of_def attempt_at_def db' first_row_update_key)
  next
    case False
    then obtain a where "GetAttempt db' i = Inr a" "ta_status a = to"
      using t by (auto simp: transition_def Let_def split: if_splits)
    then show ?thesis by (auto simp: GetAttempt_at attempt_status_of_def split: option.splits)
  qed
qed

lemma MarkSigned_row:
  assumes ok: "transfers_ok db" and m: "MarkSigned now (ta_id a) sig h db = Inr db'"
    and a: "a \<in> set (attempts db)" "ta_status a = Built"
  shows "signed_at db' (ta_id a) = Some (attempt_tx a, sig, Some h)"
proof -
  have "db' = db\<lparr>attempts := update_rows (\<lambda>x. ta_id x = ta_id a \<and> ta_status x \<in> set [Built])
      (\<lambda>x. x\<lparr>ta_status := Signed, ta_updated_at := now, ta_signature := Some sig, ta_hash := Some h\<rparr>) (attempts db)\<rparr>"
    using transition_Inr [OF m [unfolded MarkSigned_def]] by (simp add: write_attempts_Inr)
  moreover have "first_row (\<lambda>x. ta_id x = ta_id a) (attempts db) = Some a"
    using attempt_at_mem [OF ok a(1)] by (simp add: attempt_at_def)
  ultimately show ?thesis using a(2)
    by (simp add: signed_at_def attempt_at_def first_row_update_key signed_tx_def attempt_tx_def)
qed

lemma open_unconfirmed:
  assumes ok: "world_ok w" and o: "attempt_status_of (wd_db w) i = Some s" "s \<in> {Built, Signed, Broadcast}"
    and t: "tx_at (wd_db w) i = Some v"
  shows "\<not> confirmed_job (wd_db w) (fst v, fst (snd v))"
proof
  assume "confirmed_job (wd_db w) (fst v, fst (snd v))"
  then obtain k u where k: "attempt_status_of (wd_db w) k = Some Confirmed" "tx_at (wd_db w) k = Some u"
    "(fst u, fst (snd u)) = (fst v, fst (snd v))"
    unfolding confirmed_job_def by blast
  obtain a where a: "attempt_at (wd_db w) i = Some a" "ta_status a = s" "attempt_tx a = v"
    using o(1) t by (auto simp: attempt_status_of_def tx_at_def)
  obtain c where c: "attempt_at (wd_db w) k = Some c" "ta_status c = Confirmed" "attempt_tx c = u"
    using k(1,2) by (auto simp: attempt_status_of_def tx_at_def)
  have "attempt_job a = attempt_job c" using k(3) a(3) c(3) by (auto simp: attempt_job_def attempt_tx_def)
  moreover have "a \<in> set (filter live (attempts (wd_db w)))" "c \<in> set (filter live (attempts (wd_db w)))"
    using attempt_atD [OF a(1)] attempt_atD [OF c(1)] a(2) c(2) o(2) by (auto simp: live_def)
  ultimately have "a = c" using ok by (auto simp: world_ok_def one_live_def distinct_map dest: inj_onD)
  then show False using a(2) c(2) o(2) by auto
qed

lemma signed_at_tx: "signed_at db i = Some (t, s, h) \<Longrightarrow> tx_at db i = Some t"
  by (auto simp: signed_at_def tx_at_def signed_tx_def bind_eq_Some_conv)

lemma same_status:
  assumes "write_attempts db (update_rows p f (attempts db)) = Inr db'"
    and "\<And>a. ta_id (f a) = ta_id a" and "\<And>a. ta_status (f a) = ta_status a"
  shows "attempt_status_of db' = attempt_status_of db"
proof
  fix i
  have "first_row (\<lambda>a. ta_id a = i) (update_rows p f (attempts db)) =
    map_option (\<lambda>a. if p a then f a else a) (first_row (\<lambda>a. ta_id a = i) (attempts db))"
    using assms(2) by (intro first_row_update_key) simp
  then show "attempt_status_of db' i = attempt_status_of db i"
    using assms by (auto simp: write_attempts_Inr attempt_status_of_def attempt_at_def option.map_comp comp_def
      intro!: option.map_cong)
qed

text \<open>A statement on one attempt leaves the status of the others.\<close>

lemma other_status:
  assumes "write_attempts db (update_rows p f (attempts db)) = Inr db'"
    and "\<And>a. p a \<Longrightarrow> ta_id a = i" and "\<And>a. ta_id (f a) = ta_id a" and "j \<noteq> i"
  shows "attempt_status_of db' j = attempt_status_of db j"
proof -
  have "first_row (\<lambda>a. ta_id a = j) (update_rows p f (attempts db)) =
    map_option (\<lambda>a. if p a then f a else a) (first_row (\<lambda>a. ta_id a = j) (attempts db))"
    using assms(3) by (intro first_row_update_key) simp
  moreover have "\<not> p a" if "first_row (\<lambda>a. ta_id a = j) (attempts db) = Some a" for a
    using first_row_Some [OF that] assms(2,4) by auto
  ultimately show ?thesis
    using assms(1) by (cases "first_row (\<lambda>a. ta_id a = j) (attempts db)")
      (auto simp: write_attempts_Inr attempt_status_of_def attempt_at_def)
qed

lemma transition_others:
  assumes "transition now i to from extra db = Inr db'" and "\<And>a. ta_id (extra a) = ta_id a" and "j \<noteq> i"
  shows "attempt_status_of db' j = attempt_status_of db j"
  using transition_Inr [OF assms(1)] by (rule other_status [where i = i]) (use assms in simp_all)

lemma store_call_others:
  assumes "store_call f w = (w', r)" and "\<And>db db'. f db = Inr db' \<Longrightarrow> attempt_status_of db' j = attempt_status_of db j"
  shows "attempt_status_of (wd_db w') j = attempt_status_of (wd_db w) j"
  using assms by (auto simp: store_call_def split: sum.splits)

lemma marks_others:
  assumes "j \<noteq> i"
  shows "MarkConfirmed now i db = Inr db' \<Longrightarrow> attempt_status_of db' j = attempt_status_of db j"
    "MarkFailed now i reason db = Inr db' \<Longrightarrow> attempt_status_of db' j = attempt_status_of db j"
    "MarkDropped now i reason db = Inr db' \<Longrightarrow> attempt_status_of db' j = attempt_status_of db j"
    "MarkAbandoned now i reason db = Inr db' \<Longrightarrow> attempt_status_of db' j = attempt_status_of db j"
    "RecordBroadcast now i err db = Inr db' \<Longrightarrow> attempt_status_of db' j = attempt_status_of db j"
proof -
  show "RecordBroadcast now i err db = Inr db' \<Longrightarrow> attempt_status_of db' j = attempt_status_of db j"
    unfolding RecordBroadcast_def Let_def rbind_Inr_iff
    by (elim exE conjE, drule other_status [where i = i and j = j]) (use assms in \<open>auto split: if_splits\<close>)
qed (use assms in \<open>auto simp: MarkConfirmed_def MarkFailed_def MarkDropped_def MarkAbandoned_def
    elim!: transition_others\<close>)

lemma sendAttempt_others:
  assumes "sendAttempt now ad a w = (w', r)" and "j \<noteq> ta_id a"
  shows "attempt_status_of (wd_db w') j = attempt_status_of (wd_db w) j"
proof -
  obtain err k where "rthen (store_call (RecordBroadcast now (ta_id a) err) (w\<lparr>wd_sent := wd_sent w @ [a]\<rparr>)) k = (w', r)"
    and k: "\<And>w x. fst (k w x) = w"
    using assms(1) by (auto simp: sendAttempt_def Let_def split: option.splits)
  then show ?thesis
  proof (cases rule: rthen_cases)
    case (stop e)
    then show ?thesis using store_call_others [OF stop(1) marks_others(5) [OF assms(2)]] by simp
  next
    case (go w1 u)
    then have "w' = w1" using k [of w1 u] by simp
    then show ?thesis using store_call_others [OF go(1) marks_others(5) [OF assms(2)]] by simp
  qed
qed

lemma alerted_status:
  "MarkStuckAlerted now i db = Inr (db', b) \<Longrightarrow> attempt_status_of db' = attempt_status_of db"
  unfolding MarkStuckAlerted_def Let_def rbind_Inr_iff
  by (elim exE conjE) (drule same_status; simp)

lemma sendAttempt_ok:
  assumes ok: "world_ok w" and a: "signed_tx a \<noteq> None" "signed_at (wd_db w) (ta_id a) = signed_tx a"
    and status: "attempt_status_of (wd_db w) (ta_id a) = Some st" "MayLand st"
    and s: "sendAttempt now ad a w = (w', r)"
  shows "world_ok w' \<and> world_step w w' \<and> (\<forall>b. r \<noteq> Inr (Some b)) \<and> wd_sent w' = wd_sent w @ [a]"
proof -
  let ?w = "w\<lparr>wd_sent := wd_sent w @ [a]\<rparr>"
  have "tx_at (wd_db w) (ta_id a) = Some (attempt_tx a)"
    using a by (auto simp: signed_tx_def dest: signed_at_tx)
  then have nc: "\<not> confirmed_job (wd_db w) (attempt_job a)"
    using open_unconfirmed [OF ok status(1)] status(2) by (auto simp: attempt_tx_def attempt_job_def MayLand_def)
  have ok': "world_ok ?w" "world_step w ?w" using ok a nc by (auto simp: world_ok_def sent_ok_def world_step_def)
  obtain err k where "rthen (store_call (RecordBroadcast now (ta_id a) err) ?w) k = (w', r)"
    and k: "\<And>w x. k w x = (case err of Some e \<Rightarrow> (w, Inl (SendFailed e)) | None \<Rightarrow> (w, Inr None))"
    using s by (auto simp: sendAttempt_def Let_def)
  then show ?thesis
  proof (cases rule: rthen_cases)
    case (stop e)
    then show ?thesis
      using store_call_ok [OF ok'(1) stop(1), of "OpRecordBroadcast now (ta_id a) err"] ok'(2)
      by (auto simp: creates_def)
  next
    case (go w1 u)
    note c = store_call_ok [OF ok'(1) go(1), of "OpRecordBroadcast now (ta_id a) err", simplified]
    have "w' = w1" "\<forall>b. r \<noteq> Inr (Some b)" using go(2) by (auto simp: k split: option.splits)
    then show ?thesis using c ok'(2) by (auto simp: creates_def intro: world_step_trans)
  qed
qed

locale chain_adapter =
  fixes ads :: "chain \<Rightarrow> adapter"
  assumes build: "world_ok w \<Longrightarrow> ad_build (ads c) req n w = (w', r) \<Longrightarrow>
      world_ok w' \<and> world_step w w' \<and> (\<forall>a. r = Inr a \<longrightarrow> w' = w \<and> attempt_job a = (tr_job req, tr_purpose req))"
    and outcome: "world_ok w \<Longrightarrow> ad_outcome (ads c) a now w = (w', out) \<Longrightarrow>
      world_ok w' \<and> world_step w w' \<and> wd_sent w' = wd_sent w \<and>
      attempt_status_of (wd_db w') = attempt_status_of (wd_db w)"
begin

lemma step_signed:
  assumes "world_step w w'" and "signed_at (wd_db w) i = Some v"
  shows "signed_at (wd_db w') i = Some v"
  using assms unfolding world_step_def reads_on_def by blast

lemma trackSent_ok:
  assumes ok: "world_ok w" and a: "signed_tx a \<noteq> None" "signed_at (wd_db w) (ta_id a) = signed_tx a"
    and status: "attempt_status_of (wd_db w) (ta_id a) = Some (ta_status a)" "MayLand (ta_status a)"
    and t: "trackSent now (ads c) a w = (w', r)"
  shows "world_ok w' \<and> world_step w w' \<and>
    (\<forall>b. r = Inr (Some b) \<longrightarrow> attempt_status_of (wd_db w') (ta_id b) = Some Confirmed \<and> attempt_job b = attempt_job a) \<and>
    (\<forall>b \<in> set (drop (length (wd_sent w)) (wd_sent w')). b = a)"
proof -
  obtain w1 q where o: "ad_outcome (ads c) a now w = (w1, q)" by fastforce
  note w1 = outcome [OF ok o]
  obtain v where v: "signed_tx a = Some v" "signed_at (wd_db w) (ta_id a) = Some v"
    using a by auto
  have fin: ?thesis
    if "rthen (store_call f w1) k = (w', r)" "\<And>db. f db = transfer_exec opn db" "\<not> creates opn"
      "\<And>w x. fst (k w x) = w"
      "\<And>w2 u b. store_call f w1 = (w2, Inr u) \<Longrightarrow> snd (k w2 u) = Inr (Some b) \<Longrightarrow>
        attempt_status_of (wd_db w2) (ta_id b) = Some Confirmed \<and> attempt_job b = attempt_job a" for f k opn
    using that(1)
  proof (cases rule: rthen_cases)
    case (stop e)
    then show ?thesis using store_call_ok [OF _ stop(1) that(2,3)] w1 by auto
  next
    case (go w2 u)
    have "w' = w2" "snd (k w2 u) = r" using go(2) that(4) [of w2 u] by auto
    then show ?thesis using store_call_ok [OF _ go(1) that(2,3)] w1 that(5) [OF go(1)] world_step_trans by auto
  qed
  show ?thesis
  proof (cases q)
    case (Inl e)
    then show ?thesis using t o w1 by (auto simp: trackSent_def)
  next
    case (Inr out)
    show ?thesis
    proof (cases out)
      case OutConfirmed
      have "attempt_status_of (wd_db w2) (ta_id a) = Some Confirmed"
        if m: "store_call (MarkConfirmed now (ta_id a)) w1 = (w2, Inr u)" for w2 u
      proof -
        have "MarkConfirmed now (ta_id a) (wd_db w1) = Inr (wd_db w2)"
          using m by (auto simp: store_call_def split: sum.splits)
        then show ?thesis using w1 by (intro transition_status) (auto simp: MarkConfirmed_def world_ok_def)
      qed
      then show ?thesis using t o Inr OutConfirmed
        by (intro fin [where opn = "OpMarkConfirmed now (ta_id a)"])
          (auto simp: trackSent_def creates_def attempt_job_def)
    next
      case (OutFailed reason)
      then show ?thesis using t o Inr
        by (intro fin [where opn = "OpMarkFailed now (ta_id a) reason"]) (auto simp: trackSent_def creates_def)
    next
      case (OutDropped reason)
      then show ?thesis using t o Inr
        by (intro fin [where opn = "OpMarkDropped now (ta_id a) reason"]) (auto simp: trackSent_def creates_def)
    next
      case OutPending
      define w2 where "w2 = (if sentAttemptStuckAfter < now - ta_created_at a
          then (case MarkStuckAlerted now (ta_id a) (wd_db w1) of Inl _ \<Rightarrow> w1 | Inr (db, _) \<Rightarrow> w1\<lparr>wd_db := db\<rparr>) else w1)"
      have w2: "world_ok w2" "world_step w w2" "wd_sent w2 = wd_sent w"
        using w1 exec_world [of w1 "OpMarkStuckAlerted now (ta_id a)"] world_step_trans
        by (auto simp: w2_def creates_def split: sum.splits)
      have s2: "signed_at (wd_db w2) (ta_id a) = signed_tx a" using step_signed [OF w2(2) v(2)] v(1) by simp
      have "attempt_status_of (wd_db w2) = attempt_status_of (wd_db w)"
        using w1 alerted_status by (auto simp: w2_def split: sum.splits)
      then have st: "attempt_status_of (wd_db w2) (ta_id a) = Some (ta_status a)"
        using status(1) by simp
      have "sendAttempt now (ads c) a w2 = (w', r) \<or> (w' = w2 \<and> r = Inr None)"
        using t o Inr OutPending by (auto simp: trackSent_def w2_def Let_def split: if_splits option.splits)
      then show ?thesis
        using sendAttempt_ok [OF w2(1) _ s2 st status(2), of now "ads c" w' r] v(1) w2 world_step_trans by auto
    qed
  qed
qed

lemma trackSent_others:
  assumes ok: "world_ok w" and t: "trackSent now (ads c) a w = (w', r)" and j: "j \<noteq> ta_id a"
  shows "attempt_status_of (wd_db w') j = attempt_status_of (wd_db w) j"
proof -
  obtain w1 q where o: "ad_outcome (ads c) a now w = (w1, q)" by fastforce
  note w1 = outcome [OF ok o]
  have fin: ?thesis
    if "rthen (store_call f w1) k = (w', r)" "\<And>w x. fst (k w x) = w"
      "\<And>db db'. f db = Inr db' \<Longrightarrow> attempt_status_of db' j = attempt_status_of db j" for f k
    using that(1)
  proof (cases rule: rthen_cases)
    case (stop e)
    then show ?thesis using store_call_others [OF stop(1) that(3)] w1 by simp
  next
    case (go w2 u)
    then have "w' = w2" using that(2) [of w2 u] by simp
    then show ?thesis using store_call_others [OF go(1) that(3)] w1 by simp
  qed
  show ?thesis
  proof (cases "q = Inr OutPending")
    case True
    have "attempt_status_of (wd_db w') j = attempt_status_of (wd_db w2) j"
      if "sendAttempt now (ads c) a w2 = (w', r) \<or> w' = w2" for w2
      using that sendAttempt_others [OF _ j] by blast
    moreover have "attempt_status_of db j = attempt_status_of (wd_db w1) j"
      if "MarkStuckAlerted now (ta_id a) (wd_db w1) = Inr (db, b)" for db b
      using alerted_status [OF that] by simp
    ultimately show ?thesis
      using t o True w1 by (simp add: trackSent_def Let_def split: if_splits option.splits sum.splits prod.splits) force+
  qed (use t o w1 j marks_others in \<open>auto simp: trackSent_def split: sum.splits sent_outcome.splits intro!: fin\<close>)
qed

text \<open>The ways \<open>signAndSend\<close> can end: nothing is written, the attempt is abandoned, or it is signed
  under the hash \<open>verify\<close> gave, after every check, and then sent.\<close>

lemma signAndSend_cases:
  assumes "signAndSend now sv ad req a w = (w', r)"
  obtains (nothing) "w' = w" "\<forall>b. r \<noteq> Inr (Some b)"
    | (abandon) why k where "rthen (store_call (MarkAbandoned now (ta_id a) why) w) k = (w', r)"
        "\<And>w x. fst (k w x) = w" "\<And>w x b. snd (k w x) \<noteq> Inr (Some b)"
    | (sign) sig h where "requestSignature sv req (ta_digest a) = Inr (SigSigned sig)"
        "ad_unsendable ad a now = Inr None" "ad_verify ad req a sig = Inr h"
        "tr_purpose req = FORWARD \<longrightarrow> Option.bind (tr_leg req) (\<lambda>l. sv_vendor sv l (intent req)) = None"
        "rthen (store_call (MarkSigned now (ta_id a) sig h) w) (\<lambda>w _.
           sendAttempt now ad (a\<lparr>ta_status := Signed, ta_signature := Some sig, ta_hash := Some h\<rparr>) w) = (w', r)"
proof (cases "ad_unsendable ad a now")
  case (Inl e)
  show thesis
          by (rule nothing) (insert assms Inl, auto simp: signAndSend_def)
next
  case unsendable: (Inr why)
  show thesis
  proof (cases why)
    case (Some reason)
    show thesis
          by (rule abandon [of reason "\<lambda>w _. (w, Inr None)"]) (insert assms unsendable Some, auto simp: signAndSend_def)
  next
    case None
    define bad where "bad = (if sg_index (tr_signer req) = None then None else Option.bind (tr_leg req) (sv_reverify sv))"
    show thesis
    proof (cases "bad = None \<and> (\<exists>q. requestSignature sv req (ta_digest a) = Inr q)")
      case False
      show thesis
          by (rule nothing) (insert assms unsendable None False, auto simp: signAndSend_def bad_def [symmetric] split: option.splits sum.splits)
    next
      case True
      then obtain q where q: "bad = None" "requestSignature sv req (ta_digest a) = Inr q" by blast
      show thesis
      proof (cases q)
        case SigRejected
        show thesis
          by (rule abandon [of "''signature request was rejected''" "\<lambda>w _. (w, Inl SignRejected)"]) (insert assms unsendable None q SigRejected, auto simp: signAndSend_def bad_def [symmetric])
      next
        case (SigSigned sig)
        define vendor where "vendor =
          (if tr_purpose req = FORWARD then Option.bind (tr_leg req) (\<lambda>l. sv_vendor sv l (intent req)) else None)"
        show thesis
        proof (cases "ad_verify ad req a sig")
          case (Inl e)
          show thesis
          by (rule nothing) (insert assms unsendable None q SigSigned Inl, auto simp: signAndSend_def bad_def [symmetric])
        next
          case (Inr h)
          show thesis
          proof (cases vendor)
            case None
            show thesis
          by (rule sign [of sig h]) (insert assms unsendable \<open>why = None\<close> q SigSigned Inr None, auto simp: signAndSend_def bad_def [symmetric] vendor_def [symmetric], simp add: vendor_def)
          next
            case (Some e)
            show thesis
          by (rule nothing) (insert assms unsendable \<open>why = None\<close> q SigSigned Inr Some, auto simp: signAndSend_def bad_def [symmetric] vendor_def [symmetric])
          qed
        qed
      qed (rule nothing; insert assms unsendable None q; auto simp: signAndSend_def bad_def [symmetric])+
    qed
  qed
qed

lemma signAndSend_ok:
  assumes ok: "world_ok w" and a: "a \<in> set (attempts (wd_db w))" "ta_status a = Built"
    and t: "signAndSend now sv (ads c) req a w = (w', r)"
  shows "world_ok w' \<and> world_step w w' \<and> (\<forall>b. r \<noteq> Inr (Some b)) \<and>
    (\<forall>b \<in> set (drop (length (wd_sent w)) (wd_sent w')). ta_id b = ta_id a \<and>
       (\<exists>sig h. ad_verify (ads c) req a sig = Inr h \<and> signed_tx b = Some (attempt_tx a, sig, Some h)))"
  using t
proof (cases rule: signAndSend_cases)
  case nothing
  then show ?thesis using ok by simp
next
  case (abandon why k)
  from abandon(1) show ?thesis
  proof (cases rule: rthen_cases)
    case (stop e)
    then show ?thesis using store_call_ok [OF ok stop(1), of "OpMarkAbandoned now (ta_id a) why"] by (auto simp: creates_def)
  next
    case (go w2 u)
    have "w' = w2" "\<forall>b. r \<noteq> Inr (Some b)" using go(2) abandon(2) [of w2 u] abandon(3) [of w2 u] by auto
    then show ?thesis using store_call_ok [OF ok go(1), of "OpMarkAbandoned now (ta_id a) why"] by (auto simp: creates_def)
  qed
next
  case (sign sig h)
  from sign(5) show ?thesis
  proof (cases rule: rthen_cases)
    case (stop e)
    then show ?thesis using store_call_ok [OF ok stop(1), of "OpMarkSigned now (ta_id a) sig h"] by (auto simp: creates_def)
  next
    case (go w2 u)
    let ?b = "a\<lparr>ta_status := Signed, ta_signature := Some sig, ta_hash := Some h\<rparr>"
    note w2 = store_call_ok [OF ok go(1), of "OpMarkSigned now (ta_id a) sig h", simplified]
    have m: "MarkSigned now (ta_id a) sig h (wd_db w) = Inr (wd_db w2)"
      using go(1) by (auto simp: store_call_def split: sum.splits)
    have tx: "signed_tx ?b = Some (attempt_tx a, sig, Some h)" by (simp add: signed_tx_def attempt_tx_def)
    then have row: "signed_at (wd_db w2) (ta_id ?b) = signed_tx ?b"
      using MarkSigned_row [OF _ m a] ok by (simp add: world_ok_def)
    have "attempt_status_of (wd_db w2) (ta_id ?b) = Some Signed"
      using ok transition_status [OF _ m [unfolded MarkSigned_def]] by (simp add: world_ok_def)
    then show ?thesis
      using sendAttempt_ok [OF _ _ row, of Signed now "ads c" w' r] go(2) w2 tx sign(3) world_step_trans
      by (auto simp: creates_def MayLand_def)
  qed
qed

text \<open>A call of the driver keeps the invariant and everything recorded, and an attempt it returns is
  the confirmed one of the job.\<close>

lemma driveTransfer_ok:
  assumes ok: "world_ok w" and d: "driveTransfer now sv ads req w = (w', r)"
  shows "world_ok w' \<and> world_step w w' \<and>
    (\<forall>b. r = Inr (Some b) \<longrightarrow> attempt_status_of (wd_db w') (ta_id b) = Some Confirmed \<and>
       attempt_job b = (tr_job req, tr_purpose req))"
proof -
  let ?db = "wd_db w" and ?j = "tr_job req" and ?p = "tr_purpose req" and ?ad = "ads (tr_chain req)"
  have same: ?thesis if "w' = w" "\<forall>b. r \<noteq> Inr (Some b)" using that ok by simp
  note d' = d [unfolded driveTransfer_def]
  have tok: "transfers_ok ?db" using ok by (simp add: world_ok_def)
  consider "w' = w" "\<forall>b. r \<noteq> Inr (Some b)"
    | (go) "adapterFor ads (tr_chain req) = Inr ?ad" "sg_index (tr_signer req) \<noteq> None \<or> sg_slot (tr_signer req)"
    using d' by (cases "tr_chain req") (auto simp: adapterFor_def split: if_splits)
  then show ?thesis
  proof cases
    case 1
    then show ?thesis by (rule same)
  next
    case go
    show ?thesis
    proof (cases "ConfirmedAttempt ?db ?j ?p")
      case (Some b)
      then have "w' = w" "r = Inr (Some b)" using d' go by auto
      then show ?thesis
        using ConfirmedAttempt_Some [OF Some] attempt_at_mem [OF tok] ok by (auto simp: attempt_status_of_def)
    next
      case none: None
      show ?thesis
      proof (cases "OpenAttempt ?db ?j ?p")
        case (Some a)
        note a = OpenAttempt_Some [OF Some]
        consider (track) "MayLand (ta_status a)" "trackSent now ?ad a w = (w', r)"
          | (changed) "rthen (store_call (MarkAbandoned now (ta_id a) (changed_reason req)) w) (\<lambda>w _. (w, Inr None)) = (w', r)"
          | (sign) "ta_status a = Built" "signAndSend now sv ?ad req a w = (w', r)"
          using d' go none Some a(3) by (auto simp: MayLand_def split: if_splits)
        then show ?thesis
        proof cases
          case track
          then show ?thesis using trackSent_ok [OF ok _ _ _ track] sent_row [OF tok a(1) track(1)] a(2)
              attempt_at_mem [OF tok a(1)] by (auto simp: attempt_status_of_def)
        next
          case changed
          then show ?thesis
          proof (cases rule: rthen_cases)
            case (stop e)
            then show ?thesis
              using store_call_ok [OF ok stop(1), of "OpMarkAbandoned now (ta_id a) (changed_reason req)"]
              by (auto simp: creates_def)
          next
            case (go w2 u)
            then show ?thesis
              using store_call_ok [OF ok go(1), of "OpMarkAbandoned now (ta_id a) (changed_reason req)"]
              by (auto simp: creates_def)
          qed
        next
          case sign
          then show ?thesis using signAndSend_ok [OF ok a(1) sign] by blast
        qed
      next
        case None
        obtain w1 q where b: "ad_build ?ad req (CountFailed ?db ?j ?p) w = (w1, q)" by fastforce
        note w1 = build [OF ok b]
        define busy where "busy = (case OpenFrom ?db (tr_from req) of
            Some other \<Rightarrow> ta_external_id other \<noteq> ?j \<or> ta_purpose other \<noteq> ?p | None \<Rightarrow> False)"
        have r: "(w', r) = (if busy then (w, Inr None)
            else if maxFailedAttempts \<le> CountFailed ?db ?j ?p then (w, Inl (GaveUp (CountFailed ?db ?j ?p)))
            else case q of Inl (NotReady _) \<Rightarrow> (w1, Inr None) | Inl (BuildError e) \<Rightarrow> (w1, Inl (BuildFailed e))
              | Inr built \<Rightarrow> (case CreateAttempt now built (wd_db w1) of Inl e \<Rightarrow> (w1, Inl (StoreError e))
                 | Inr (db, a) \<Rightarrow> signAndSend now sv ?ad req a (w1\<lparr>wd_db := db\<rparr>)))"
          using d' go none None b unfolding busy_def [symmetric] by (auto simp: Let_def)
        consider "w' = w" "\<forall>b. r \<noteq> Inr (Some b)" | "w' = w1" "\<forall>b. r \<noteq> Inr (Some b)"
          | (created) built db a where "q = Inr built" "CreateAttempt now built ?db = Inr (db, a)"
              "signAndSend now sv ?ad req a (w\<lparr>wd_db := db\<rparr>) = (w', r)"
        proof (cases q)
          case (Inl e)
          then show thesis using r that(1,2) by (cases e) (auto split: if_splits)
        next
          case (Inr built)
          then have "w1 = w" using w1 by blast
          then show thesis using r that Inr by (auto split: if_splits sum.splits)
        qed
        then show ?thesis
        proof cases
          case created
          have job: "attempt_job built = (?j, ?p)" using w1 created(1) by blast
          note c = CreateAttempt_Inr [OF tok created(2)]
          have e: "transfer_exec (OpCreateAttempt now built) ?db = Inr db" using created(2) by simp
          have live: "one_live db"
          proof (rule new_live [of ?db a])
            show "one_live ?db" using ok by (simp add: world_ok_def)
            show "\<forall>x \<in> set (attempts ?db). live x \<longrightarrow> attempt_job x \<noteq> attempt_job a"
              using none_live [OF None none] job by (simp add: c(1))
            show "attempts db = attempts ?db @ [a]" by (simp add: c(3))
          qed
          have db: "transfers_ok db" "reads_on ?db db" using transfer_exec_ok [OF tok e] exec_reads_on [OF tok e] by blast+
          then have ok': "world_ok (w\<lparr>wd_db := db\<rparr>)" "world_step w (w\<lparr>wd_db := db\<rparr>)"
            using ok live sent_ok_keeps [of w db] CreateAttempt_rentals [OF created(2)]
            by (simp_all add: world_ok_def world_step_def rentals_ok_def)
          have a: "a \<in> set (attempts (wd_db (w\<lparr>wd_db := db\<rparr>)))" "ta_status a = Built" using c(3) by (simp_all add: c(1))
          show ?thesis using signAndSend_ok [OF ok'(1) a created(3)] ok'(2) world_step_trans by blast
        qed (use same w1 in auto)
      qed
    qed
  qed
qed

end

end
