(* ===== verification/Resources_Inv.thy ===== *)
theory Resources_Inv
  imports Resources Drive_Inv
begin

text \<open>
  The adapters of the two chains satisfy the locale \<open>chain_adapter\<close>, top-ups and rentals included,
  so what the driver guarantees over any such adapter it guarantees on BSC and TRON.
\<close>

section \<open>What provisioning keeps\<close>

definition provisions :: "(world \<Rightarrow> world \<times> build_error) \<Rightarrow> bool" where
  "provisions f \<longleftrightarrow> (\<forall>w w' e. world_ok w \<longrightarrow> f w = (w', e) \<longrightarrow> world_ok w' \<and> world_step w w')"

lemma provisionsD: "provisions f \<Longrightarrow> world_ok w \<Longrightarrow> f w = (w', e) \<Longrightarrow> world_ok w' \<and> world_step w w'"
  by (auto simp: provisions_def)

lemma provision_ok:
  assumes "provisions f" and "world_ok w" and "provision (f w) = (w', r)"
  shows "world_ok w' \<and> world_step w w' \<and> (\<forall>a. r \<noteq> Inr a)"
  using assms provisionsD [OF assms(1,2)] by (auto simp: provision_def split: prod.splits)

lemma finish_rental_ok:
  assumes "world_ok w"
  shows "world_ok (finish_rental now i b p c e w) \<and> world_step w (finish_rental now i b p c e w)"
  using exec_world [OF assms, of "OpFinishRental now i b p c e"] by (simp add: finish_rental_def creates_def)

lemma LatestRental_count:
  "snd (LatestRental db job purp k) = affected (rental_of job purp k) (rentals db)"
proof (cases "first_row (rental_of job purp k) (rev (sort_key rn_id (rentals db)))")
  case None
  then have "affected (rental_of job purp k) (rentals db) = 0" by (simp add: first_row_None affected_0)
  then show ?thesis using None by (simp add: LatestRental_def)
qed (simp add: LatestRental_def)

lemma rent_new_ok:
  assumes ok: "world_ok w" and n: "n = snd (LatestRental (wd_db w) (tr_job req) (tr_purpose req) ''ENERGY'')"
    and r: "rent_new now env req shortfall n w = (w', e)"
  shows "world_ok w' \<and> world_step w w'"
proof (cases "n < 5 \<and> is_ok (CreateRental now (new_rental req shortfall n) (wd_db w))")
  case False
  then show ?thesis using r ok
    by (auto simp: rent_new_def maxEnergyRentals_def is_ok_iff split: if_splits sum.splits prod.splits)
next
  case True
  then obtain db q where x: "CreateRental now (new_rental req shortfall n) (wd_db w) = Inr (db, q)"
    by (auto simp: is_ok_iff)
  have "affected (rental_of (tr_job req) (tr_purpose req) ''ENERGY'') (rentals (wd_db w)) < 5"
    using True by (simp add: n LatestRental_count)
  then have c: "world_ok (w\<lparr>wd_db := db\<rparr>)" "world_step w (w\<lparr>wd_db := db\<rparr>)"
    using CreateRental_world [OF ok x] by (simp_all add: new_rental_def)
  show ?thesis
    using r ok x c(1) finish_rental_ok [OF c(1)] world_step_trans [OF c(2)]
    by (auto simp: rent_new_def Let_def split: if_splits sum.splits)
qed

lemma rentEnergy_ok: "provisions (rentEnergy now env req shortfall)"
  unfolding provisions_def
proof (intro allI impI)
  fix w w' e
  assume ok: "world_ok w" and r: "rentEnergy now env req shortfall w = (w', e)"
  let ?latest = "\<lambda>w. LatestRental (wd_db w) (tr_job req) (tr_purpose req) ''ENERGY''"
  have again: "world_ok w' \<and> world_step w w'"
    if "world_ok v" "world_step w v" "snd (?latest v) = n" "rent_new now env req shortfall n v = (w', e)" for v n
    using rent_new_ok [OF that(1) that(3) [symmetric] that(4)] that(2) world_step_trans by blast
  have count: "snd (?latest (finish_rental now i b p c x w)) = snd (?latest w)" for i b p c x
    by (simp add: LatestRental_count finish_rental_def FinishRental_count)
  show "world_ok w' \<and> world_step w w'"
    using r ok again [OF ok world_step_refl] again [OF _ _ count] finish_rental_ok [OF ok]
    by (simp add: rentEnergy_def split: prod.splits option.splits if_splits)
qed

section \<open>Building\<close>

lemma built_attempt_job [simp]: "attempt_job (built_attempt req c raw d n t) = (tr_job req, tr_purpose req)"
  by (simp add: attempt_job_def built_attempt_def)

lemma bsc_assemble_job:
  assumes "bsc_assemble env req p = Inr a"
  shows "attempt_job a = (tr_job req, tr_purpose req)"
proof -
  obtain nonce x where "(case x :: evm_error + evm_tx \<times> digest of Inl _ \<Rightarrow> Inl ''building the unsigned transfer''
     | Inr (tx, d) \<Rightarrow> rbind (el_marshal (oe_eth env) tx) (\<lambda>raw. Inr (built_attempt req BSC raw d (Some nonce) None))) = Inr a"
    using assms unfolding bsc_assemble_def rbind_Inr_iff by blast
  then show ?thesis by (auto split: sum.splits prod.splits)
qed

lemma tron_buildWith_job: "tron_buildWith now env req mk = Inr a \<Longrightarrow> attempt_job a = (tr_job req, tr_purpose req)"
  by (auto simp: tron_buildWith_def)

lemma bsc_build_ok:
  assumes ok: "world_ok w" and t: "\<And>n. provisions (t req GAS_TOPUP n)" and b: "bsc_build t env req k w = (w', r)"
  shows "world_ok w' \<and> world_step w w' \<and> (\<forall>a. r = Inr a \<longrightarrow> w' = w \<and> attempt_job a = (tr_job req, tr_purpose req))"
proof -
  consider "w' = w" "\<forall>a. r = Inr a \<longrightarrow> attempt_job a = (tr_job req, tr_purpose req)"
    | (up) n where "provision (t req GAS_TOPUP n w) = (w', r)"
    using b bsc_assemble_job
    by (auto simp: bsc_build_def refuse_def Let_def split: sum.splits if_splits)
  then show ?thesis
  proof cases
    case up
    then show ?thesis using provision_ok [OF t ok] by blast
  qed (use ok in auto)
qed

lemma tron_build_ok:
  assumes ok: "world_ok w" and t: "\<And>n. provisions (t req TRX_TOPUP n)" "\<And>n. provisions (rent req n)"
    and b: "tron_build t rent now env req k w = (w', r)"
  shows "world_ok w' \<and> world_step w w' \<and> (\<forall>a. r = Inr a \<longrightarrow> w' = w \<and> attempt_job a = (tr_job req, tr_purpose req))"
proof -
  consider "w' = w" "\<forall>a. r = Inr a \<longrightarrow> attempt_job a = (tr_job req, tr_purpose req)"
    | (up) n where "provision (t req TRX_TOPUP n w) = (w', r)"
    | (energy) n where "provision (rent req n w) = (w', r)"
    using b tron_buildWith_job
    by (auto simp: tron_build_def tron_finish_def refuse_def split: sum.splits if_splits)
  then show ?thesis
  proof cases
    case up
    then show ?thesis using provision_ok [OF t(1) ok] by blast
  next
    case energy
    then show ?thesis using provision_ok [OF t(2) ok] by blast
  qed (use ok in auto)
qed

lemma watch_nonce_ok:
  assumes "world_ok w" and "watch_nonce now a since w = (w', out)"
  shows "world_ok w' \<and> world_step w w' \<and> wd_sent w' = wd_sent w \<and>
    attempt_status_of (wd_db w') = attempt_status_of (wd_db w)"
proof (cases "SetNonceConsumedSince now (ta_id a) since (wd_db w)")
  case (Inl e)
  then show ?thesis using assms by (auto simp: watch_nonce_def)
next
  case (Inr db)
  have "attempt_status_of db = attempt_status_of (wd_db w)"
    using Inr [unfolded SetNonceConsumedSince_def] by (rule same_status) simp_all
  then show ?thesis
    using assms Inr exec_world [OF assms(1), of "OpSetNonceConsumedSince now (ta_id a) since"]
    by (auto simp: watch_nonce_def creates_def)
qed

lemma bsc_outcome_ok:
  assumes "world_ok w" and "bsc_outcome env a now w = (w', out)"
  shows "world_ok w' \<and> world_step w w' \<and> wd_sent w' = wd_sent w \<and>
    attempt_status_of (wd_db w') = attempt_status_of (wd_db w)"
  using assms watch_nonce_ok [OF assms(1)]
  by (auto simp: bsc_outcome_def split: option.splits sum.splits final_error.splits bool.splits if_splits)

lemma chain_adapters_law:
  assumes "\<And>req p n. provisions (t req p n)"
  shows "chain_adapter (chain_adapters t now env)"
proof
  fix w req n w' r c
  assume w: "world_ok w" and b: "ad_build (chain_adapters t now env c) req n w = (w', r)"
  show "world_ok w' \<and> world_step w w' \<and> (\<forall>a. r = Inr a \<longrightarrow> w' = w \<and> attempt_job a = (tr_job req, tr_purpose req))"
  proof (cases "c = BSC")
    case True
    then have "bsc_build t env req n w = (w', r)" using b by (simp add: chain_adapters_def bscAdapter_def)
    then show ?thesis by (rule bsc_build_ok [OF w assms])
  next
    case False
    then have "tron_build t (rentEnergy now env) now env req n w = (w', r)"
      using b by (simp add: chain_adapters_def tronAdapter_def)
    then show ?thesis by (rule tron_build_ok [OF w assms rentEnergy_ok])
  qed
next
  fix w c a now' w' out
  assume w: "world_ok w" and o: "ad_outcome (chain_adapters t now env c) a now' w = (w', out)"
  show "world_ok w' \<and> world_step w w' \<and> wd_sent w' = wd_sent w \<and>
    attempt_status_of (wd_db w') = attempt_status_of (wd_db w)"
  proof (cases "c = BSC")
    case True
    then have "bsc_outcome env a now' w = (w', out)" using o by (simp add: chain_adapters_def bscAdapter_def)
    then show ?thesis by (rule bsc_outcome_ok [OF w])
  next
    case False
    then show ?thesis using o w by (simp add: chain_adapters_def tronAdapter_def tron_outcome_def)
  qed
qed

section \<open>The adapters\<close>

lemma no_top_up_ok: "provisions (no_top_up req p n)"
  by (simp add: provisions_def no_top_up_def)

interpretation from_treasury: chain_adapter "treasury_adapters now env" for now env
  unfolding treasury_adapters_def by (rule chain_adapters_law [OF no_top_up_ok])

lemma topUp_ok: "provisions (topUp now env (treasury_adapters now env) parent p n)"
  unfolding provisions_def
proof (intro allI impI)
  fix w w' e
  assume ok: "world_ok w" and t: "topUp now env (treasury_adapters now env) parent p n w = (w', e)"
  show "world_ok w' \<and> world_step w w'"
    using t ok from_treasury.driveTransfer_ok [OF ok, where now = now and env = env]
    by (auto simp: topUp_def Let_def split: if_splits option.splits prod.splits sum.splits)
qed

interpretation chains: chain_adapter "adapters now env" for now env
  unfolding adapters_def by (rule chain_adapters_law [OF topUp_ok])

text \<open>A treasury's own transfer never asks for a top-up: with the adapters of the treasuries it is
  built just as with the adapters in use.\<close>

lemma treasury_build:
  assumes "native req" and "sg_slot (tr_signer req)"
  shows "ad_build (treasury_adapters now env c) req n w = ad_build (adapters now env c) req n w"
  using assms
  by (simp add: treasury_adapters_def adapters_def chain_adapters_def bscAdapter_def tronAdapter_def
      bsc_build_def tron_build_def Let_def split: sum.split)

end
