(* ===== verification/Drive_Run.thy ===== *)
theory Drive_Run
  imports Resources_Inv
begin

text \<open>
  Runs of the driver: any sequence of calls of \<open>driveTransfer\<close> and \<open>trackTopUps\<close>, each with its own
  clock, configuration and answers of the outside, from an empty store; and what a successful
  \<open>verify\<close> says about the bytes that are sent.
\<close>

section \<open>Runs\<close>

datatype call = Drive time orch_env transfer_request | Track time orch_env

fun call_world :: "call \<Rightarrow> world \<Rightarrow> world" where
  "call_world (Drive now env req) w = fst (driveTransfer now (oe_sv env) (adapters now env) req w)"
| "call_world (Track now env) w = fst (trackTopUps now env w)"

definition run_calls :: "call list \<Rightarrow> world" where
  "run_calls cs = fold call_world cs empty_world"

text \<open>What \<open>trackTopUps\<close> needs of the attempts it has listed and not yet followed.\<close>

definition followable :: "world \<Rightarrow> attempt \<Rightarrow> bool" where
  "followable w a \<longleftrightarrow>
     (MayLand (ta_status a) \<longrightarrow>
        signed_tx a \<noteq> None \<and> signed_at (wd_db w) (ta_id a) = signed_tx a \<and>
        attempt_status_of (wd_db w) (ta_id a) = Some (ta_status a))"

lemma followable_later:
  assumes "followable w a" and "world_step w w'"
    and "attempt_status_of (wd_db w') (ta_id a) = attempt_status_of (wd_db w) (ta_id a)"
  shows "followable w' a"
  using assms unfolding followable_def by (auto dest: chains.step_signed)

lemma trackTopUps_loop_ok:
  assumes "world_ok w" and "\<forall>a \<in> set as. followable w a" and "distinct (map ta_id as)"
    and "trackTopUps_loop now env as w = (w', r)"
  shows "world_ok w' \<and> world_step w w'"
  using assms
proof (induction as arbitrary: w)
  case (Cons a as)
  have step: "world_ok w' \<and> world_step w w'"
    if v: "world_ok v" "world_step w v" and others: "\<And>j. j \<noteq> ta_id a \<Longrightarrow> attempt_status_of (wd_db v) j = attempt_status_of (wd_db w) j"
      and rest: "trackTopUps_loop now env as v = (w', r)" for v
  proof -
    have "\<forall>x \<in> set as. followable v x"
    proof
      fix x
      assume x: "x \<in> set as"
      then have "ta_id x \<noteq> ta_id a" using Cons.prems(3) by (auto simp: image_iff)
      then show "followable v x" using followable_later [OF _ v(2)] Cons.prems(2) x others by auto
    qed
    then show ?thesis using Cons.IH [OF v(1)] Cons.prems(3) rest v(2) world_step_trans by auto
  qed
  show ?case
  proof (cases "MayLand (ta_status a)")
    case False
    define v where "v = (if staleUnsignedTopUp < now - ta_created_at a
        then fst (store_call (MarkAbandoned now (ta_id a) ''no longer needed before it was signed'') w) else w)"
    obtain x y where c: "store_call (MarkAbandoned now (ta_id a) ''no longer needed before it was signed'') w = (x, y)"
      by fastforce
    have "world_ok v \<and> world_step w v"
      using store_call_ok [OF Cons.prems(1) c, of "OpMarkAbandoned now (ta_id a) ''no longer needed before it was signed''"]
        Cons.prems(1) c by (auto simp: v_def creates_def)
    moreover have "attempt_status_of (wd_db v) j = attempt_status_of (wd_db w) j" if "j \<noteq> ta_id a" for j
      using store_call_others [OF c marks_others(4) [OF that]] c by (simp add: v_def)
    ultimately show ?thesis using step [of v] Cons.prems(4) False by (simp add: v_def)
  next
    case True
    show ?thesis
    proof (cases "adapterFor (adapters now env) (ta_chain a)")
      case (Inl e)
      then show ?thesis using Cons.prems(1,4) True by simp
    next
      case (Inr ad)
      then have ad: "ad = adapters now env (ta_chain a)" by (auto simp: adapterFor_def split: chain.splits)
      obtain v y where t: "trackSent now ad a w = (v, y)" by fastforce
      have "world_ok v \<and> world_step w v"
        using chains.trackSent_ok [OF Cons.prems(1) _ _ _ True t [unfolded ad]] Cons.prems(2) True
        by (auto simp: followable_def)
      then show ?thesis
        using step [of v] chains.trackSent_others [OF Cons.prems(1) t [unfolded ad]] Cons.prems(4) True Inr t by simp
    qed
  qed
qed simp

lemma trackTopUps_ok:
  assumes ok: "world_ok w" and t: "trackTopUps now env w = (w', r)"
  shows "world_ok w' \<and> world_step w w'"
proof -
  let ?open = "ListOpen (wd_db w) [GAS_TOPUP, TRX_TOPUP]"
  have tok: "transfers_ok (wd_db w)" using ok by (simp add: world_ok_def)
  have "followable w a" if "a \<in> set ?open" for a
    using that sent_row [OF tok] attempt_at_mem [OF tok]
    by (auto simp: ListOpen_def followable_def attempt_status_of_def)
  moreover have "distinct (map ta_id ?open)"
    using tok by (auto simp: ListOpen_def transfers_ok_def strict_sorted_iff distinct_map inj_on_def)
  ultimately show ?thesis using trackTopUps_loop_ok [OF ok _ _ t [unfolded trackTopUps_def]] by blast
qed

lemma call_ok:
  assumes "world_ok w"
  shows "world_ok (call_world c w) \<and> world_step w (call_world c w)"
proof (cases c)
  case (Drive now env req)
  then show ?thesis
    using chains.driveTransfer_ok [OF assms, where now = now and env = env and req = req and sv = "oe_sv env"]
    by (metis call_world.simps(1) prod.collapse)
next
  case (Track now env)
  then show ?thesis using trackTopUps_ok [OF assms, where now = now and env = env]
    by (metis call_world.simps(2) prod.collapse)
qed

lemma run_ok:
  "world_ok w \<Longrightarrow> world_ok (fold call_world cs w) \<and> world_step w (fold call_world cs w)"
proof (induction cs arbitrary: w)
  case (Cons c cs)
  then show ?case using call_ok [OF Cons.prems, of c] world_step_trans by fastforce
qed simp

lemma run_calls_ok: "world_ok (run_calls cs)"
  using run_ok [OF world_ok_empty] by (simp add: run_calls_def)

lemma run_calls_step: "world_step (run_calls cs) (run_calls (cs @ later))"
  using run_ok [OF run_calls_ok [of cs], of later] by (simp add: run_calls_def)

end
