(* ===== verification/Preflight_Inv.thy ===== *)
theory Preflight_Inv
  imports Resources
begin

text \<open>
  What the checks before a send establish: a transaction that passes \<open>verify\<close> moves exactly the
  amount of the request to its recipient from its sender, and what the builders build passes.
\<close>

section \<open>BSC\<close>

text \<open>What one signed BSC transaction does, read from its bytes.\<close>

definition bsc_pays :: "orch_env \<Rightarrow> transfer_request \<Rightarrow> attempt \<Rightarrow> bool" where
  "bsc_pays env req b \<longleftrightarrow>
     (case Option.bind (ta_signature b) (\<lambda>sig. case bsc_signed env b sig of Inl _ \<Rightarrow> None | Inr tx \<Rightarrow> Some tx) of
        None \<Rightarrow> False
      | Some tx \<Rightarrow>
        (case (DecodeTransfer (oe_eth env) tx, Sender (oe_eth env) tx) of
           (Inr d, Inr from) \<Rightarrow>
             ta_hash b = Some (el_hash (oe_eth env) tx) \<and>
             dt_token d = el_addr (oe_eth env) USDTContractAddress \<and>
             sameAddress (oe_eth env) (el_hex (oe_eth env) (dt_recipient d)) (tr_to req) \<and>
             sameAddress (oe_eth env) (el_hex (oe_eth env) from) (tr_from req) \<and>
             dt_amount d = units (tr_amount req) * 10 ^ 12
         | _ \<Rightarrow> False))"

lemma joinProblems_None [simp]: "joinProblems ps = None \<longleftrightarrow> ps = []"
  by (simp add: joinProblems_def)

lemma amountMismatch_None:
  assumes "amountMismatch raw a dec = None" and "amt_asset a \<noteq> BNB" and "amt_asset a \<noteq> TRX"
  shows "6 \<le> dec \<and> raw = units a * 10 ^ (dec - 6)"
  using assms by (cases "amt_asset a") (auto simp: amountMismatch_def split: if_splits)

lemma bsc_verify_token:
  assumes v: "bsc_verify env req a sig = Inr h" and n: "\<not> native req"
    and b: "ta_unsigned b = ta_unsigned a" "ta_signature b = Some sig" "ta_hash b = Some h"
  shows "bsc_pays env req b"
proof -
  obtain tx where tx: "bsc_signed env a sig = Inr tx" "checkEVMTransfer (oe_eth env) tx (intent req) = None"
    "h = el_hash (oe_eth env) tx"
    using v n by (auto simp: bsc_verify_def split: option.splits)
  obtain d where d: "DecodeTransfer (oe_eth env) tx = Inr d"
    using tx(2) by (auto simp: checkEVMTransfer_def split: sum.splits)
  obtain who where who: "Sender (oe_eth env) tx = Inr who"
    using tx(2) d by (cases "Sender (oe_eth env) tx") (auto simp: checkEVMTransfer_def)
  have m: "amountMismatch (dt_amount d) (tr_amount req) USDTOnChainDecimals = None"
    using tx(2) d who by (auto simp: checkEVMTransfer_def intent_def split: option.splits)
  have "dt_amount d = units (tr_amount req) * 10 ^ 12"
    using amountMismatch_None [OF m] n by (simp add: USDTOnChainDecimals_def native_def)
  moreover have "bsc_signed env b sig = Inr tx" using tx(1) b(1) by (simp add: bsc_signed_def)
  ultimately show ?thesis
    using tx(2,3) d who b by (auto simp: bsc_pays_def checkEVMTransfer_def intent_def split: if_splits)
qed

text \<open>What \<open>BuildTransfer\<close> writes, \<open>DecodeTransfer\<close> reads.\<close>

lemma BuildTransfer_decodes:
  assumes b: "BuildTransfer l to a nonce price gas = Inr (tx, d)"
    and k: "4 \<le> length (el_keccak l ''transfer(address,uint256)'')"
  shows "tx_sig tx = None \<and> DecodeTransfer l (tx\<lparr>tx_sig := s\<rparr>) =
    Inr \<lparr>dt_token = el_addr l USDTContractAddress, dt_recipient = el_addr l to, dt_amount = units a * 10 ^ 12\<rparr>"
proof -
  have pos: "0 < units a" and tx: "tx = NewTransaction nonce (el_addr l USDTContractAddress) 0
      (if gas = 0 then DefaultGasLimit else gas) price (buildCalldata l (el_addr l to) a)"
    using b by (auto simp: BuildTransfer_def Let_def word_sle_eq word_sless_alt not_le split: if_splits)
  have len: "length (transferMethodID l) = 4" using k by (simp add: transferMethodID_def)
  have "units a < 2 ^ 63" using sint_lt [of "amt_units a"] by simp
  then have amt: "units a * 10 ^ 12 mod 256 ^ 32 = units a * 10 ^ 12" using pos by (intro mod_pos_pos_trivial) simp_all
  have "uint (el_addr l to) < 2 ^ 160" using uint_lt2p [of "el_addr l to"] by simp
  then have "uint (el_addr l to) mod 256 ^ 20 = uint (el_addr l to)" by (intro mod_pos_pos_trivial) simp_all
  then show ?thesis
    using len amt pos
    by (simp add: tx NewTransaction_def DecodeTransfer_def buildCalldata_def Let_def onChainAmount_def
        USDTOnChainDecimals_def list_ex_iff)
qed

lemma BuildTransfer_passes:
  assumes b: "BuildTransfer l (tr_to req) (tr_amount req) nonce price gas = Inr (tx, d)"
    and s: "WithSignature l tx sig = Inr s" "Sender l s = Inr (el_addr l (tr_from req))"
    and k: "4 \<le> length (el_keccak l ''transfer(address,uint256)'')"
    and hex: "\<forall>x. el_is_hex l (el_hex l x) \<and> el_addr l (el_hex l x) = x" and fromhex: "el_is_hex l (tr_from req)"
  shows "checkEVMTransfer l s (intent req) = None"
proof -
  have tx: "s = tx\<lparr>tx_sig := Some sig\<rparr>" using s(1) by (auto simp: WithSignature_def split: option.splits)
  have to: "el_is_hex l (tr_to req)" and pos: "0 < units (tr_amount req)" and asset: "amt_asset (tr_amount req) = USDT_BEP20"
    using b by (auto simp: BuildTransfer_def Let_def word_sle_eq word_sless_alt not_le split: if_splits)
  have "amountMismatch (units (tr_amount req) * 10 ^ 12) (tr_amount req) USDTOnChainDecimals = None"
    using pos asset by (simp add: amountMismatch_def USDTOnChainDecimals_def)
  then show ?thesis
    using BuildTransfer_decodes [OF b k, of "Some sig"] s(2) hex fromhex to
    by (simp add: checkEVMTransfer_def tx intent_def sameAddress_def)
qed

section \<open>TRON\<close>

definition tron_pays :: "orch_env \<Rightarrow> transfer_request \<Rightarrow> attempt \<Rightarrow> bool" where
  "tron_pays env req b \<longleftrightarrow>
     (case (tron_DecodeTransfer (oe_trl env) (ta_unsigned b), ta_signature b) of
        (Inr d, Some sig) \<Rightarrow>
          td_token d = tron_USDTContractAddress \<and> td_owner d = tr_from req \<and> td_recipient d = tr_to req \<and>
          td_amount d = units (tr_amount req) \<and>
          tl_signer (oe_trl env) (ta_digest b) (recoverable sig) = Inr (tr_from req)
      | _ \<Rightarrow> False)"

lemma tron_verify_token:
  assumes v: "tron_verify env req a sig = Inr h" and n: "\<not> native req"
    and b: "ta_unsigned b = ta_unsigned a" "ta_digest b = ta_digest a" "ta_signature b = Some sig"
  shows "tron_pays env req b"
proof -
  have c: "checkTRONTransfer (oe_trl env) (ta_unsigned a) (intent req) = None"
    "checkTRONSigner (oe_trl env) (ta_digest a) sig (tr_from req) = None"
    using v n by (auto simp: tron_verify_def split: option.splits)
  obtain d where d: "tron_DecodeTransfer (oe_trl env) (ta_unsigned a) = Inr d"
    using c(1) by (auto simp: checkTRONTransfer_def split: sum.splits)
  have m: "amountMismatch (td_amount d) (tr_amount req) tron_USDTOnChainDecimals = None"
    using c(1) d by (auto simp: checkTRONTransfer_def intent_def split: option.splits)
  have "td_amount d = units (tr_amount req)"
    using amountMismatch_None [OF m] n by (simp add: tron_USDTOnChainDecimals_def native_def)
  then show ?thesis
    using c d b by (auto simp: tron_pays_def checkTRONTransfer_def checkTRONSigner_def intent_def
        split: if_splits sum.splits)
qed

end
