(* ===== verification/Drive_Props.thy ===== *)
theory Drive_Props
  imports Drive_Run Preflight_Inv
begin

text \<open>
  The properties of the transfer driver on the model's own chain adapters, with a small environment
  on which the witnesses run: addresses are told apart by their length.
\<close>

definition demo_calldata :: bytes where
  "demo_calldata = [0xa9, 0x05, 0x9c, 0xbb] @ replicate 12 0 @ replicate 19 0 @ [14] @ replicate 26 0 @ [0x04, 0x8c, 0x27, 0x39, 0x50, 0x00]"

definition demo_eth :: eth_lib where
  "demo_eth = \<lparr>el_is_hex = (\<lambda>_. True), el_addr = (\<lambda>s. of_nat (length s)), el_hex = (\<lambda>a. replicate (unat a) CHR ''x''),
     el_keccak = (\<lambda>_. [0xa9, 0x05, 0x9c, 0xbb]), el_digest = (\<lambda>_. 7), el_marshal = (\<lambda>_. Inr [1]),
     el_unmarshal = (\<lambda>_. Inr (NewTransaction 0 42 0 DefaultGasLimit 1 demo_calldata)), el_bad_sig = (\<lambda>_ _. None),
     el_sender = (\<lambda>_. Inr 6), el_hash = (\<lambda>_. ''h'')\<rparr>"

definition demo_evm :: "bool \<Rightarrow> evm_node" where
  "demo_evm mined = \<lparr>en_gas_price = Inr 1, en_native = (\<lambda>_. Inr (10 ^ 18)), en_token = (\<lambda>_. Inr (10 ^ 18)),
     en_pending_nonce = (\<lambda>_. Inr 0), en_nonce = (\<lambda>_. Inr 0),
     en_receipt = (\<lambda>_. Inr (if mined then Some \<lparr>rc_success = True, rc_block = 4\<rparr> else None)), en_finalized = Inr 9,
     en_submit = (\<lambda>_. None)\<rparr>"

definition demo_trl :: tron_lib where
  "demo_trl = \<lparr>tl_addr = (\<lambda>s. Inr []), tl_str = (\<lambda>_. []), tl_pack = (\<lambda>_ _. Inr []),
     tl_marshal = (\<lambda>_. Inr [2]), tl_unmarshal = (\<lambda>_. Inl ''none''), tl_sha256 = (\<lambda>_. 8), tl_signer = (\<lambda>_ _. Inl ''none'')\<rparr>"

definition demo_tron :: tron_node where
  "demo_tron = \<lparr>tn_block = Inl ''down'', tn_account = (\<lambda>_. Inl ''down''), tn_resources = (\<lambda>_. Inl ''down''),
     tn_token = (\<lambda>_. Inl ''down''), tn_energy_used = (\<lambda>_ _ _. Inl ''down''), tn_info = (\<lambda>_. Inl ''down''),
     tn_submit = (\<lambda>_ _. None)\<rparr>"

definition demo_services :: services where
  "demo_services = \<lparr>sv_slot_id = 1, sv_slot = (\<lambda>_ _ _. Inr SigPending), sv_deposit = (\<lambda>_ _ _. Inr (SigSigned 1)),
     sv_tron_deposit = (\<lambda>_ _ _. Inr SigPending), sv_reverify = (\<lambda>_. None), sv_vendor = (\<lambda>_ _. None)\<rparr>"

definition demo_orch :: "bool \<Rightarrow> orch_env" where
  "demo_orch mined =
     \<lparr>oe_cfg = \<lparr>cf_slot_id = 1, cf_slot_address = '''', cf_slot_evm = ''t'', cf_evm_gas_limit = 0, cf_gas_topup_wei = 0,
        cf_trx_topup_sun = 0, cf_treasuries = []\<rparr>,
      oe_eth = demo_eth, oe_evm = demo_evm mined, oe_trl = demo_trl, oe_tron = demo_tron, oe_sv = demo_services,
      oe_energy = None, oe_rat = (\<lambda>_. None)\<rparr>"

definition demo_request :: transfer_request where
  "demo_request = \<lparr>tr_job = ''x1'', tr_purpose = FORWARD, tr_chain = BSC, tr_from = ''wallet'',
     tr_signer = \<lparr>sg_index = Some 3, sg_slot = False, sg_slot_id = 0\<rparr>, tr_to = ''vendor-deposit'',
     tr_amount = Amount USDT_BEP20 5, tr_leg = None\<rparr>"

definition demo_calls :: "call list" where
  "demo_calls = [Drive 100 (demo_orch False) demo_request, Drive 200 (demo_orch True) demo_request]"

lemma demo_sent:
  "map (\<lambda>a. (ta_id a, ta_status a, attempt_job a)) (wd_sent (run_calls [Drive 100 (demo_orch False) demo_request])) =
     [(1, Signed, ''x1'', FORWARD)]"
  "list_all (\<lambda>a. ta_status a = Confirmed \<and> attempt_job a = (''x1'', FORWARD)) (attempts (wd_db (run_calls demo_calls)))"
  "length (attempts (wd_db (run_calls demo_calls))) = 1"
  by code_simp+

section \<open>Once\<close>

text \<open>C5: however the driver is called -- in any order, for any transfers, with any answers of nodes, S1
  and vendors, over any number of restarts -- at most one attempt of a transfer is open or confirmed
  at a time, and every transaction handed to a node is recorded with exactly the signature and hash
  it was sent with.\<close>

theorem one_attempt_at_a_time:
  "distinct (map attempt_job (filter live (attempts (wd_db (run_calls cs))))) \<and>
   list_all (\<lambda>a. signed_tx a \<noteq> None \<and> signed_at (wd_db (run_calls cs)) (ta_id a) = signed_tx a) (wd_sent (run_calls cs))"
  using run_calls_ok [of cs] by (simp add: world_ok_def one_live_def sent_ok_def list_all_iff)

text \<open>C6: once an attempt of a transfer is confirmed, no later call of the driver hands an attempt of
  that transfer to a node again, and the attempt stays confirmed.\<close>

theorem confirmed_never_sent_again:
  assumes "c \<in> set (attempts (wd_db (run_calls cs)))" and "ta_status c = Confirmed"
  shows "list_all (\<lambda>b. attempt_job b \<noteq> attempt_job c)
      (drop (length (wd_sent (run_calls cs))) (wd_sent (run_calls (cs @ later)))) \<and>
    attempt_status_of (wd_db (run_calls (cs @ later))) (ta_id c) = Some Confirmed"
proof -
  have "attempt_at (wd_db (run_calls cs)) (ta_id c) = Some c"
    using attempt_at_mem [OF _ assms(1)] run_calls_ok [of cs] by (simp add: world_ok_def)
  then have c: "attempt_status_of (wd_db (run_calls cs)) (ta_id c) = Some Confirmed"
    "tx_at (wd_db (run_calls cs)) (ta_id c) = Some (attempt_tx c)"
    using assms(2) by (simp_all add: attempt_status_of_def tx_at_def)
  then have "confirmed_job (wd_db (run_calls cs)) (attempt_job c)"
    unfolding confirmed_job_def by (intro exI conjI) (auto simp: attempt_tx_def attempt_job_def)
  moreover obtain sent where "reads_on (wd_db (run_calls cs)) (wd_db (run_calls (cs @ later)))"
    "wd_sent (run_calls (cs @ later)) = wd_sent (run_calls cs) @ sent"
    "\<forall>b \<in> set sent. \<not> confirmed_job (wd_db (run_calls cs)) (attempt_job b)"
    using run_calls_step [of cs later] unfolding world_step_def by blast
  ultimately show ?thesis
    using confirmed_stays [OF _ c(1)] by (simp add: list_all_iff) metis
qed

theorem confirmed_never_sent_again_witness:
  "list_all (\<lambda>b. attempt_job b \<noteq> (''x1'', FORWARD))
     (drop (length (wd_sent (run_calls demo_calls)))
       (wd_sent (run_calls (demo_calls @ [Drive 300 (demo_orch False) demo_request, Track 400 (demo_orch True)]))))"
proof -
  obtain c where c: "attempts (wd_db (run_calls demo_calls)) = [c]"
    using demo_sent(3) by (auto simp: length_Suc_conv)
  then have "ta_status c = Confirmed" "attempt_job c = (''x1'', FORWARD)" using demo_sent(2) by auto
  then show ?thesis using confirmed_never_sent_again [of c demo_calls] c by simp
qed

section \<open>What is sent\<close>

text \<open>C7: an attempt that is sent for the first time does exactly what was asked: the bytes handed to the
  node decode to a plain USDT transfer of exactly the amount of the request, to its recipient,
  signed by the key of its sender -- and a forward only while the vendor still expects it.\<close>

theorem first_send_exact:
  assumes "a \<in> set (attempts (wd_db (run_calls cs)))" and "ta_status a = Built" and "\<not> native req"
    and "signAndSend now (oe_sv env) (adapters now env (tr_chain req)) req a (run_calls cs) = (w', r)"
    and "b \<in> set (drop (length (wd_sent (run_calls cs))) (wd_sent w'))"
  shows "attempt_tx b = attempt_tx a \<and>
    (if tr_chain req = BSC then bsc_pays env req b else tron_pays env req b) \<and>
    (tr_purpose req = FORWARD \<longrightarrow> Option.bind (tr_leg req) (\<lambda>l. sv_vendor (oe_sv env) l (intent req)) = None)"
proof -
  have b: "\<exists>sig h. ad_verify (adapters now env (tr_chain req)) req a sig = Inr h \<and>
      signed_tx b = Some (attempt_tx a, sig, Some h)"
    using chains.signAndSend_ok [OF run_calls_ok assms(1,2,4)] assms(5) by blast
  then obtain sig h where v: "ad_verify (adapters now env (tr_chain req)) req a sig = Inr h"
    and s: "signed_tx b = Some (attempt_tx a, sig, Some h)" by blast
  then have eq: "attempt_tx b = attempt_tx a" "ta_signature b = Some sig" "ta_hash b = Some h"
    by (auto simp: signed_tx_def)
  then have "ta_unsigned b = ta_unsigned a" "ta_digest b = ta_digest a" by (simp_all add: attempt_tx_def)
  then have "if tr_chain req = BSC then bsc_pays env req b else tron_pays env req b"
    using v eq assms(3) bsc_verify_token [of env req a sig h b] tron_verify_token [of env req a sig h b]
    by (simp add: adapters_def chain_adapters_def bscAdapter_def tronAdapter_def split: if_splits)
  moreover from assms(4) have "tr_purpose req = FORWARD \<longrightarrow>
      Option.bind (tr_leg req) (\<lambda>l. sv_vendor (oe_sv env) l (intent req)) = None"
    using assms(5)
  proof (cases rule: chains.signAndSend_cases)
    case (abandon why k)
    from abandon(1) have "wd_sent w' = wd_sent (run_calls cs)"
    proof (cases rule: rthen_cases)
      case (go w1 u)
      then have "w' = w1" using abandon(2) [of w1 u] by simp
      then show ?thesis using go(1) by (auto simp: store_call_def split: sum.splits)
    qed (auto simp: store_call_def split: sum.splits)
    then show ?thesis using assms(5) by simp
  qed (use assms(5) in auto)
  ultimately show ?thesis using eq(1) by blast
qed

theorem first_send_exact_witness:
  "\<exists>cs a now w' r b. b \<in> set (drop (length (wd_sent (run_calls cs))) (wd_sent w')) \<and>
     signAndSend now (oe_sv (demo_orch False)) (adapters now (demo_orch False) BSC) demo_request a (run_calls cs) = (w', r) \<and>
     bsc_pays (demo_orch False) demo_request b"
proof -
  define env where "env = (demo_orch False)\<lparr>oe_sv := demo_services\<lparr>sv_deposit := (\<lambda>_ _ _. Inr SigPending)\<rparr>\<rparr>"
  let ?cs = "[Drive 100 env demo_request]"
  have c: "length (attempts (wd_db (run_calls ?cs))) = 1" "wd_sent (run_calls ?cs) = []"
    "list_all (\<lambda>a. ta_status a = Built) (attempts (wd_db (run_calls ?cs)))"
    "length (wd_sent (fst (signAndSend 200 (oe_sv (demo_orch False)) (adapters 200 (demo_orch False) BSC) demo_request
       (hd (attempts (wd_db (run_calls ?cs)))) (run_calls ?cs)))) = 1" "\<not> native demo_request"
    unfolding env_def by code_simp+
  obtain a where a: "attempts (wd_db (run_calls ?cs)) = [a]" using c(1) by (auto simp: length_Suc_conv)
  obtain w' r where s: "signAndSend 200 (oe_sv (demo_orch False)) (adapters 200 (demo_orch False) BSC) demo_request a (run_calls ?cs) = (w', r)"
    by fastforce
  obtain b where b: "wd_sent w' = [b]" using c(4) a s by (auto simp: length_Suc_conv)
  have "bsc_pays (demo_orch False) demo_request b"
    using first_send_exact [of a ?cs demo_request 200 "demo_orch False" w' r b] a b c(2,3,5) s
    by (simp add: demo_request_def)
  then show ?thesis using b c(2) s by (intro exI [of _ ?cs] exI) auto
qed

text \<open>The transaction \<open>BuildTransfer\<close> builds passes the check before the send, once it is signed by
  the key of the sender: the amount survives the scaling to 18 decimals, the encoding as call data
  and the decoding, for every positive 64-bit amount.\<close>

theorem evm_build_passes_check:
  assumes "BuildTransfer l (tr_to req) (tr_amount req) nonce price gas = Inr (tx, d)"
    and "WithSignature l tx sig = Inr s" and "Sender l s = Inr (el_addr l (tr_from req))"
    and "4 \<le> length (el_keccak l ''transfer(address,uint256)'')"
    and "\<forall>x. el_is_hex l (el_hex l x) \<and> el_addr l (el_hex l x) = x" and "el_is_hex l (tr_from req)"
  shows "checkEVMTransfer l s (intent req) = None"
  using assms by (rule BuildTransfer_passes)

theorem evm_build_passes_check_witness:
  "checkEVMTransfer demo_eth ((NewTransaction 0 42 0 DefaultGasLimit 1 demo_calldata)\<lparr>tx_sig := Some 1\<rparr>) (intent demo_request) = None"
proof (rule evm_build_passes_check)
  show "BuildTransfer demo_eth (tr_to demo_request) (tr_amount demo_request) 0 1 0 =
    Inr (NewTransaction 0 42 0 DefaultGasLimit 1 demo_calldata, 7)" by code_simp
  show "WithSignature demo_eth (NewTransaction 0 42 0 DefaultGasLimit 1 demo_calldata) 1 =
    Inr ((NewTransaction 0 42 0 DefaultGasLimit 1 demo_calldata)\<lparr>tx_sig := Some 1\<rparr>)"
    by (simp add: WithSignature_def demo_eth_def)
  show "Sender demo_eth ((NewTransaction 0 42 0 DefaultGasLimit 1 demo_calldata)\<lparr>tx_sig := Some 1\<rparr>) =
    Inr (el_addr demo_eth (tr_from demo_request))" by code_simp
qed (simp_all add: demo_eth_def)

section \<open>Energy\<close>

text \<open>Whatever happens between the calls -- crashes in the middle of a purchase, vendors that never
  deliver -- at most \<open>maxEnergyRentals\<close> (five) energy rentals are ever recorded, and so bought, for
  one transfer.\<close>

theorem energy_rentals_bounded:
  "snd (LatestRental (wd_db (run_calls cs)) job purp ''ENERGY'') \<le> maxEnergyRentals"
  using run_calls_ok [of cs]
  by (simp add: world_ok_def rentals_ok_def LatestRental_count maxEnergyRentals_def)

end
