(* ===== verification/Ledger_Api.thy ===== *)
theory Ledger_Api
  imports Ledger
begin

text \<open>
  The boundary between relayd and the ledger: the handlers of \<open>ledger/internal/httpapi\<close> that relayd
  calls, and its client \<open>relayd/internal/ledgerclient\<close>.

  \<^item> A request and a response are records of the JSON fields; amounts travel as decimal strings,
    states, tiers and assets as strings. The bytes of the JSON, authentication and the status codes
    are left out: a refused request is the ledger's error.
  \<^item> \<open>ledger_server\<close> is the state behind the handlers: the database and the halt cache of the
    process. A handler that writes runs in \<open>Tx\<close>; \<open>now\<close> is the time of its transaction.
  \<^item> The lemmas at the end say that a call of the client is the operation of the ledger it stands
    for: nothing is lost on the wire. The one amount that has no decimal string is refused.
\<close>

section \<open>Strings of the wire\<close>

definition asset_of :: "string \<Rightarrow> asset" where
  "asset_of s =
     (if s = ''USDT_BEP20'' then USDT_BEP20 else if s = ''USDT_TRC20'' then USDT_TRC20
      else if s = ''TRX'' then TRX else if s = ''BNB'' then BNB else OtherAsset s)"

fun state_str :: "state \<Rightarrow> string" where
  "state_str Quoted = ''quoted''"
| "state_str Funded = ''funded''"
| "state_str Screened = ''screened''"
| "state_str Dispatching = ''dispatching''"
| "state_str Settled = ''settled''"
| "state_str Held = ''held''"
| "state_str Refunded = ''refunded''"
| "state_str Expired = ''expired''"
| "state_str (OtherState s) = s"

definition state_of :: "string \<Rightarrow> state" where
  "state_of s = (case find (\<lambda>x. state_str x = s) allStates of Some x \<Rightarrow> x | None \<Rightarrow> OtherState s)"

fun tier_str :: "tier \<Rightarrow> string" where
  "tier_str Direct = ''DIRECT''"
| "tier_str Standard = ''STANDARD''"
| "tier_str Sweep = ''SWEEP''"
| "tier_str Relay = ''RELAY''"
| "tier_str (OtherTier s) = s"

definition tier_of :: "string \<Rightarrow> tier" where
  "tier_of s = (case find (\<lambda>x. tier_str x = s) allTiers of Some x \<Rightarrow> x | None \<Rightarrow> OtherTier s)"

definition formatted :: "amount \<Rightarrow> string" where
  "formatted a = (case Format a of Inl _ \<Rightarrow> '''' | Inr s \<Rightarrow> s)"

section \<open>Requests and responses\<close>

record line_json =
  lj_account :: string
  lj_asset :: string
  lj_amount :: string

record entry_json =
  ej_type :: string
  ej_occurred_at :: time
  ej_lines :: "line_json list"
  ej_metadata :: "metadata option"

record transition_json =
  tj_to :: string
  tj_version :: int
  tj_reason :: string
  tj_occurred_at :: time
  tj_entry :: "entry_json option"
  tj_entry_id :: "int option"
  tj_sender :: "string option"

record order_json =
  oj_id :: int
  oj_external_id :: string
  oj_customer_id :: string
  oj_tier :: string
  oj_state :: string
  oj_amount_in :: string
  oj_amount_out :: string
  oj_fee :: string
  oj_network_fee :: string
  oj_recipient :: string
  oj_sender :: "string option"
  oj_quoted_at :: time
  oj_quote_expires_at :: time
  oj_version :: int
  oj_created_at :: time
  oj_updated_at :: time
  oj_in_asset :: string
  oj_out_asset :: string

record create_json =
  cj_external_id :: string
  cj_customer_id :: string
  cj_tier :: string
  cj_amount_in :: string
  cj_amount_out :: string
  cj_fee :: string
  cj_network_fee :: string
  cj_recipient :: string
  cj_quoted_at :: time
  cj_quote_expires_at :: time
  cj_in_asset :: string
  cj_out_asset :: string

section \<open>The handlers\<close>

record ledger_server =
  ls_db :: db
  ls_cache :: "cache option"

definition at_time :: "time \<Rightarrow> ledger_server \<Rightarrow> db" where
  "at_time now srv = (ls_db srv)\<lparr>db_now := now\<rparr>"

text \<open>The halt cache refreshes itself from the committed row.\<close>

definition server_env :: "time \<Rightarrow> ledger_server \<Rightarrow> halt_env" where
  "server_env now srv =
     \<lparr>he_cache = ls_cache srv, he_now = now, he_upd = now, he_committed = IsHalted (ls_db srv)\<rparr>"

definition toOrderResponse :: "order \<Rightarrow> order_json" where
  "toOrderResponse ord =
     \<lparr>oj_id = o_id ord, oj_external_id = o_external_id ord, oj_customer_id = o_customer_id ord,
      oj_tier = tier_str (o_tier ord), oj_state = state_str (o_state ord),
      oj_amount_in = formatted (o_amount_in ord), oj_amount_out = formatted (o_amount_out ord),
      oj_fee = formatted (o_fee ord), oj_network_fee = formatted (o_network_fee ord),
      oj_recipient = o_recipient ord, oj_sender = o_sender ord, oj_quoted_at = o_quoted_at ord,
      oj_quote_expires_at = o_quote_expires_at ord, oj_version = o_version ord,
      oj_created_at = o_created_at ord, oj_updated_at = o_updated_at ord,
      oj_in_asset = asset_str (amt_asset (o_amount_in ord)),
      oj_out_asset = asset_str (amt_asset (o_amount_out ord))\<rparr>"

definition parseAssetField :: "string \<Rightarrow> ledger_error + asset" where
  "parseAssetField raw =
     (if raw = '''' then Inl ErrInvalidParams
      else if \<not> Valid (asset_of raw) then Inl ErrInvalidParams
      else Inr (asset_of raw))"

text \<open>A refused write leaves the database; what the body reads of the order it returns.\<close>

definition run_tx :: "db \<Rightarrow> ledger_error + db \<times> 'a \<Rightarrow> ledger_error + db \<times> 'a" where
  "run_tx db r = rbind r (\<lambda>(db', x). rbind (Tx (\<lambda>_. Inr db') db) (\<lambda>db''. Inr (db'', x)))"

definition postOrder :: "time \<Rightarrow> create_json \<Rightarrow> ledger_server \<Rightarrow> ledger_server \<times> (ledger_error + order_json)" where
  "postOrder now req srv =
     (case
        rbind (if tier_of (cj_tier req) = Relay then
                 rbind (parseAssetField (cj_in_asset req)) (\<lambda>ain.
                 rbind (parseAssetField (cj_out_asset req)) (\<lambda>aout. Inr (ain, aout)))
               else Inr (USDT_BEP20, USDT_TRC20)) (\<lambda>(ain, aout).
        rbind (lift_money (ParseDecimal (cj_amount_in req) ain)) (\<lambda>amountIn.
        rbind (lift_money (ParseDecimal (cj_amount_out req) aout)) (\<lambda>amountOut.
        let feeAsset = (if tier_of (cj_tier req) = Relay then ain else aout) in
        rbind (lift_money (ParseDecimal (cj_fee req) feeAsset)) (\<lambda>feeUnits.
        rbind (lift_money (ParseDecimal (cj_network_fee req) feeAsset)) (\<lambda>networkFee.
        CreateOrder (at_time now srv)
          \<lparr>ExternalID = cj_external_id req, CustomerID = cj_customer_id req, Tier = tier_of (cj_tier req),
           AmountIn = amountIn, AmountOut = amountOut, FeeUnits = feeUnits, NetworkFeeUnits = networkFee,
           RecipientAddress = cj_recipient req, QuotedAt = cj_quoted_at req,
           QuoteExpiresAt = cj_quote_expires_at req\<rparr>)))))
      of Inl e \<Rightarrow> (srv, Inl e)
       | Inr (db', ord) \<Rightarrow> (srv\<lparr>ls_db := db'\<rparr>, Inr (toOrderResponse ord)))"

definition getOrder :: "string \<Rightarrow> ledger_server \<Rightarrow> ledger_error + order_json" where
  "getOrder ext srv = rbind (GetByExternalID (ls_db srv) ext) (\<lambda>ord. Inr (toOrderResponse ord))"

text \<open>A cursor is the text of the last row's time and id; the empty text is the start.\<close>

definition getOrders ::
  "string \<Rightarrow> int \<Rightarrow> cursor option \<Rightarrow> ledger_server \<Rightarrow> ledger_error + order_json list \<times> cursor option" where
  "getOrders st limit after srv =
     (if st = '''' \<or> \<not> StateValid (state_of st) \<or> limit \<le> 0 then Inl ErrInvalidParams
      else rbind (ListByStateAfter (ls_db srv) (state_of st) after limit) (\<lambda>page.
        Inr (map toOrderResponse page,
             if page = [] then after
             else Some \<lparr>cu_updated_at = o_updated_at (last page), cu_id = o_id (last page)\<rparr>)))"

definition entryLinesToJournalLines :: "line_json list \<Rightarrow> ledger_error + line list" where
  "entryLinesToJournalLines =
     rmap (\<lambda>l. rbind (lift_money (ParseDecimal (lj_amount l) (asset_of (lj_asset l)))) (\<lambda>amt.
       Inr (Line (lj_account l) amt)))"

text \<open>The part of \<open>postTransition\<close> before its transaction: the order, and the entry it may carry under
  the request's idempotency key.\<close>

definition transition_request ::
  "db \<Rightarrow> string \<Rightarrow> string \<Rightarrow> string \<Rightarrow> transition_json \<Rightarrow> ledger_error + order \<times> transition_params" where
  "transition_request db actor key ext req =
     rbind (GetByExternalID db ext) (\<lambda>ord.
     rbind (case tj_entry req of
              None \<Rightarrow> Inr None
            | Some e \<Rightarrow>
                rbind (entryLinesToJournalLines (ej_lines e)) (\<lambda>ls.
                Inr (Some \<lparr>IdempotencyKey = key, EntryType = ej_type e, Actor = actor,
                  OccurredAt = ej_occurred_at e, OrderID = Some (o_id ord), Lines = ls,
                  Metadata = ej_metadata e\<rparr>))) (\<lambda>entryReq.
     Inr (ord, \<lparr>tp_actor = actor, tp_reason = tj_reason req, tp_occurred_at = tj_occurred_at req,
       tp_entry = entryReq, tp_entry_id = tj_entry_id req, tp_sender = tj_sender req\<rparr>)))"

definition postTransition ::
  "(hash_payload \<Rightarrow> hash) \<Rightarrow> string \<Rightarrow> string \<Rightarrow> time \<Rightarrow> string \<Rightarrow> transition_json \<Rightarrow> ledger_server \<Rightarrow>
   ledger_server \<times> (ledger_error + order_json)" where
  "postTransition digest actor key now ext req srv =
     (case transition_request (ls_db srv) actor key ext req of
        Inl e \<Rightarrow> (srv, Inl e)
      | Inr (ord, p) \<Rightarrow>
         (case Transition digest (server_env now srv) (at_time now srv) (o_id ord) (state_of (tj_to req)) (tj_version req) p of
            (env', r) \<Rightarrow>
              (case run_tx (at_time now srv) r of
                 Inl e \<Rightarrow> (srv\<lparr>ls_cache := he_cache env'\<rparr>, Inl e)
               | Inr (db', updated) \<Rightarrow>
                   (srv\<lparr>ls_db := db', ls_cache := he_cache env'\<rparr>, Inr (toOrderResponse updated)))))"

definition postEntry ::
  "(hash_payload \<Rightarrow> hash) \<Rightarrow> string \<Rightarrow> string \<Rightarrow> time \<Rightarrow> entry_json \<Rightarrow> ledger_server \<Rightarrow>
   ledger_server \<times> (ledger_error + int)" where
  "postEntry digest actor key now req srv =
     (case
        rbind (entryLinesToJournalLines (ej_lines req)) (\<lambda>ls.
        run_tx (at_time now srv) (Post digest (at_time now srv)
          \<lparr>IdempotencyKey = key, EntryType = ej_type req, Actor = actor, OccurredAt = ej_occurred_at req,
           OrderID = None, Lines = ls, Metadata = ej_metadata req\<rparr>))
      of Inl e \<Rightarrow> (srv, Inl e)
       | Inr (db', e) \<Rightarrow> (srv\<lparr>ls_db := db'\<rparr>, Inr (e_id e)))"

definition account_type_of :: "string \<Rightarrow> account_type" where
  "account_type_of s =
     (if s = ''ASSET'' then Asset else if s = ''LIABILITY'' then Liability
      else if s = ''REVENUE'' then Revenue else if s = ''EXPENSE'' then Expense
      else if s = ''EQUITY'' then Equity else if s = ''POSITION'' then Position else OtherType s)"

definition postAccount ::
  "time \<Rightarrow> string \<Rightarrow> string \<Rightarrow> string \<Rightarrow> ledger_server \<Rightarrow> ledger_server \<times> (ledger_error + account)" where
  "postAccount now c ty a srv =
     (case CreateAccount (at_time now srv) c (account_type_of ty) (asset_of a) of
        Inl e \<Rightarrow> (srv, Inl e)
      | Inr (db', acc) \<Rightarrow> (srv\<lparr>ls_db := db'\<rparr>, Inr acc))"

definition postReorg ::
  "(hash_payload \<Rightarrow> hash) \<Rightarrow> string \<Rightarrow> time \<Rightarrow> string \<Rightarrow> string \<Rightarrow> ledger_server \<Rightarrow>
   ledger_server \<times> (ledger_error + order_json)" where
  "postReorg digest actor now ext original_key srv =
     (if original_key = '''' then (srv, Inl ErrInvalidParams)
      else case GetByExternalID (ls_db srv) ext of
        Inl e \<Rightarrow> (srv, Inl e)
      | Inr ord \<Rightarrow>
        (case HandleDepositReorg digest (server_env now srv) (at_time now srv) (o_id ord) original_key actor now of
           (env', r) \<Rightarrow>
             (case run_tx (at_time now srv) r of
                Inl e \<Rightarrow> (srv\<lparr>ls_cache := he_cache env'\<rparr>, Inl e)
              | Inr (db', updated) \<Rightarrow>
                  (srv\<lparr>ls_db := db', ls_cache := he_cache env'\<rparr>, Inr (toOrderResponse updated)))))"

definition getAccountBalance :: "string \<Rightarrow> ledger_server \<Rightarrow> ledger_error + string \<times> string" where
  "getAccountBalance c srv =
     rbind (Balance (ls_db srv) c) (\<lambda>amt.
     rbind (lift_money (Format amt)) (\<lambda>s. Inr (asset_str (amt_asset amt), s)))"

section \<open>The client\<close>

datatype client_error = ApiError ledger_error | BadAmount money_error

record remote_order =
  ro_id :: int
  ro_external_id :: string
  ro_customer_id :: string
  ro_tier :: string
  ro_state :: string
  ro_amount_in :: amount
  ro_amount_out :: amount
  ro_fee :: amount
  ro_network_fee :: amount
  ro_recipient :: string
  ro_sender :: "string option"
  ro_version :: int
  ro_quote_expires_at :: time

definition lift_amount :: "money_error + 'a \<Rightarrow> client_error + 'a" where
  "lift_amount r = (case r of Inl e \<Rightarrow> Inl (BadAmount e) | Inr x \<Rightarrow> Inr x)"

definition api :: "ledger_error + 'a \<Rightarrow> client_error + 'a" where
  "api r = (case r of Inl e \<Rightarrow> Inl (ApiError e) | Inr x \<Rightarrow> Inr x)"

definition toOrder :: "order_json \<Rightarrow> client_error + remote_order" where
  "toOrder r =
     (let inAsset = asset_of (oj_in_asset r); outAsset = asset_of (oj_out_asset r);
          feeAsset = (if oj_tier r = ''RELAY'' then inAsset else outAsset) in
      rbind (lift_amount (ParseDecimal (oj_amount_in r) inAsset)) (\<lambda>amountIn.
      rbind (lift_amount (ParseDecimal (oj_amount_out r) outAsset)) (\<lambda>amountOut.
      rbind (lift_amount (ParseDecimal (oj_fee r) feeAsset)) (\<lambda>feeUnits.
      rbind (lift_amount (ParseDecimal (oj_network_fee r) feeAsset)) (\<lambda>networkFee.
      Inr \<lparr>ro_id = oj_id r, ro_external_id = oj_external_id r, ro_customer_id = oj_customer_id r,
           ro_tier = oj_tier r, ro_state = oj_state r, ro_amount_in = amountIn, ro_amount_out = amountOut,
           ro_fee = feeUnits, ro_network_fee = networkFee, ro_recipient = oj_recipient r,
           ro_sender = oj_sender r, ro_version = oj_version r,
           ro_quote_expires_at = oj_quote_expires_at r\<rparr>)))))"

definition lc_GetOrder :: "string \<Rightarrow> ledger_server \<Rightarrow> client_error + remote_order" where
  "lc_GetOrder ext srv = rbind (api (getOrder ext srv)) toOrder"

definition lc_CreateOrder ::
  "time \<Rightarrow> string \<Rightarrow> string \<Rightarrow> amount \<Rightarrow> amount \<Rightarrow> amount \<Rightarrow> amount \<Rightarrow> string \<Rightarrow> time \<Rightarrow> time \<Rightarrow> ledger_server \<Rightarrow>
   ledger_server \<times> (client_error + remote_order)" where
  "lc_CreateOrder now ext cust amountIn amountOut feeUnits networkFee recipient quotedAt expiresAt srv =
     (case
        rbind (lift_amount (Format amountIn)) (\<lambda>ain.
        rbind (lift_amount (Format amountOut)) (\<lambda>aout.
        rbind (lift_amount (Format feeUnits)) (\<lambda>fee.
        rbind (lift_amount (Format networkFee)) (\<lambda>nfee.
        Inr \<lparr>cj_external_id = ext, cj_customer_id = cust, cj_tier = ''RELAY'', cj_amount_in = ain,
             cj_amount_out = aout, cj_fee = fee, cj_network_fee = nfee, cj_recipient = recipient,
             cj_quoted_at = quotedAt, cj_quote_expires_at = expiresAt,
             cj_in_asset = asset_str (amt_asset amountIn), cj_out_asset = asset_str (amt_asset amountOut)\<rparr>))))
      of Inl e \<Rightarrow> (srv, Inl e)
       | Inr body \<Rightarrow> map_prod id (\<lambda>r. rbind (api r) toOrder) (postOrder now body srv))"

definition DefaultPollLimit :: int where "DefaultPollLimit = 100"

definition lc_ListOrdersByState ::
  "string \<Rightarrow> cursor option \<Rightarrow> ledger_server \<Rightarrow> client_error + string list \<times> cursor option" where
  "lc_ListOrdersByState st cur srv =
     rbind (api (getOrders st DefaultPollLimit cur srv)) (\<lambda>(page, next).
     Inr (map oj_external_id page, next))"

definition lc_EnsureAccount ::
  "time \<Rightarrow> string \<Rightarrow> string \<Rightarrow> string \<Rightarrow> ledger_server \<Rightarrow> ledger_server \<times> (client_error + unit)" where
  "lc_EnsureAccount now c ty a srv = map_prod id (\<lambda>r. rbind (api r) (\<lambda>_. Inr ())) (postAccount now c ty a srv)"

definition lc_AccountBalance :: "string \<Rightarrow> ledger_server \<Rightarrow> client_error + amount" where
  "lc_AccountBalance c srv =
     rbind (api (getAccountBalance c srv)) (\<lambda>(a, s). lift_amount (ParseDecimal s (asset_of a)))"

text \<open>A line of a request: its asset is named beside the amount.\<close>

definition entry_line :: "string \<times> string \<times> amount \<Rightarrow> client_error + line_json" where
  "entry_line l = (case l of (c, a, amt) \<Rightarrow>
     rbind (lift_amount (Format amt)) (\<lambda>s. Inr \<lparr>lj_account = c, lj_asset = a, lj_amount = s\<rparr>))"

definition lc_TransitionWithEntry ::
  "(hash_payload \<Rightarrow> hash) \<Rightarrow> string \<Rightarrow> time \<Rightarrow> string \<Rightarrow> string \<Rightarrow> int \<Rightarrow> string \<Rightarrow> string \<Rightarrow> time \<Rightarrow>
   (string \<times> string \<times> amount) list \<Rightarrow> string \<Rightarrow> ledger_server \<Rightarrow> ledger_server \<times> (client_error + remote_order)" where
  "lc_TransitionWithEntry digest actor now ext to ver reason entryType occurredAt ls key srv =
     (case rmap entry_line ls of
        Inl e \<Rightarrow> (srv, Inl e)
      | Inr ljs \<Rightarrow>
          map_prod id (\<lambda>r. rbind (api r) toOrder)
            (postTransition digest actor key now ext
               \<lparr>tj_to = to, tj_version = ver, tj_reason = reason, tj_occurred_at = occurredAt,
                tj_entry = Some \<lparr>ej_type = entryType, ej_occurred_at = occurredAt, ej_lines = ljs, ej_metadata = None\<rparr>,
                tj_entry_id = None, tj_sender = None\<rparr> srv))"

definition lc_Transition ::
  "(hash_payload \<Rightarrow> hash) \<Rightarrow> string \<Rightarrow> time \<Rightarrow> string \<Rightarrow> string \<Rightarrow> int \<Rightarrow> string \<Rightarrow> time \<Rightarrow> string \<Rightarrow> ledger_server \<Rightarrow>
   ledger_server \<times> (client_error + remote_order)" where
  "lc_Transition digest actor now ext to ver reason occurredAt key srv =
     map_prod id (\<lambda>r. rbind (api r) toOrder)
       (postTransition digest actor key now ext
          \<lparr>tj_to = to, tj_version = ver, tj_reason = reason, tj_occurred_at = occurredAt, tj_entry = None,
           tj_entry_id = None, tj_sender = None\<rparr> srv)"

definition lc_PostEntry ::
  "(hash_payload \<Rightarrow> hash) \<Rightarrow> string \<Rightarrow> time \<Rightarrow> string \<Rightarrow> time \<Rightarrow> (string \<times> string \<times> amount) list \<Rightarrow> metadata \<Rightarrow> string \<Rightarrow>
   ledger_server \<Rightarrow> ledger_server \<times> (client_error + int)" where
  "lc_PostEntry digest actor now entryType occurredAt ls md key srv =
     (case rmap entry_line ls of
        Inl e \<Rightarrow> (srv, Inl e)
      | Inr ljs \<Rightarrow>
          map_prod id api
            (postEntry digest actor key now
               \<lparr>ej_type = entryType, ej_occurred_at = occurredAt, ej_lines = ljs, ej_metadata = Some md\<rparr> srv))"

section \<open>Others on the same ledger\<close>

text \<open>How a call of a service ends: \<open>Refused\<close> had no effect, \<open>Unheard\<close> took effect, but the caller got an
  error. Between two calls of one service the others run operations of the ledger.\<close>

datatype reply = Answered | Refused | Unheard

definition others :: "(hash_payload \<Rightarrow> hash) \<Rightarrow> (time \<times> ledger_op) list \<Rightarrow> ledger_server \<Rightarrow> ledger_server" where
  "others digest ops srv =
     fold (\<lambda>(now, opn) srv. case ledger_exec digest opn (at_time now srv) of
         Inl _ \<Rightarrow> srv | Inr db \<Rightarrow> srv\<lparr>ls_db := db\<rparr>) ops srv"

end
