(* ===== verification/Ledger_Api_Inv.thy ===== *)
theory Ledger_Api_Inv
  imports Ledger_Api
begin

text \<open>
  What a client of the ledger may rely on: a request is one operation of the ledger or nothing
  (\<open>served\<close>), an order keeps its identity and moves along the transition table under its external id,
  and an amount that fits the wire arrives as it was sent.
\<close>

section \<open>Orders under their external id\<close>

definition order_ident where
  "order_ident r =
     (r_id r, r_external_id r, r_customer_id r, r_tier r, r_direction r,
      (r_amount_in r, r_amount_out r, r_fee_units r, r_network_fee_units r),
      r_recipient r, r_quoted_at r, r_quote_expires_at r)"

definition order_row_step :: "order_row \<Rightarrow> order_row \<Rightarrow> bool" where
  "order_row_step r r' \<longleftrightarrow>
     order_ident r' = order_ident r \<and> (r_state r' = r_state r \<or> order_edge (r_state r) (r_state r'))"

lemma order_row_step_refl [simp]: "order_row_step r r"
  by (simp add: order_row_step_def)

definition orders_step :: "db \<Rightarrow> db \<Rightarrow> bool" where
  "orders_step db db' \<longleftrightarrow>
     (\<exists>f new. orders db' = map f (orders db) @ new \<and> (\<forall>r \<in> set (orders db). order_row_step r (f r)))"

lemma orders_step_same [intro]: "orders db' = orders db \<Longrightarrow> orders_step db db'"
  unfolding orders_step_def by (intro exI [of _ "\<lambda>r. r"] exI [of _ "[]"]) simp

definition order_at :: "db \<Rightarrow> string \<Rightarrow> order_row option" where
  "order_at db ext = first_row (\<lambda>r. r_external_id r = ext) (orders db)"

lemma order_atD: "order_at db ext = Some r \<Longrightarrow> r \<in> set (orders db) \<and> r_external_id r = ext"
  unfolding order_at_def by (rule first_row_Some)

lemma orders_step_at:
  assumes "orders_step db db'" and "order_at db ext = Some r"
  shows "\<exists>r'. order_at db' ext = Some r' \<and> order_row_step r r'"
proof -
  obtain f new where s: "orders db' = map f (orders db) @ new" "\<forall>r \<in> set (orders db). order_row_step r (f r)"
    using assms(1) by (auto simp: orders_step_def)
  then have "first_row (\<lambda>r. r_external_id r = ext) (map f (orders db)) = Some (f r)"
    using assms(2) by (subst first_row_map_key) (auto simp: order_row_step_def order_ident_def order_at_def)
  then show ?thesis using s order_atD [OF assms(2)] by (auto simp: order_at_def first_row_append)
qed

lemma Transition_orders_step:
  assumes t: "Transition digest env db i to ver p = (env', Inr (db', o'))" and ok: "ledger_ok db"
  shows "orders_step db db'"
  using t
proof (cases rule: Transition_cases)
  case (moved current r)
  obtain db1 eid row where m: "row \<in> set (orders db)" "r_id row = i" "r_version row = ver"
    "r_state row = o_state current" "orders db1 = orders db" "db' = moved_db db1 i (o_state current) to ver eid p"
    using Transition_moved [OF moved(1-3,5) ok] by metis
  have "order_row_step q (moved_row to (tp_sender p) (db_now db1) q)"
    if q: "q \<in> set (orders db)" "r_id q = i" for q
  proof -
    have "distinct (map r_id (orders db))" using ok by (simp add: ledger_ok_def orders_ok_def)
    then have "q = row" using q m(1,2) by (auto simp: distinct_map dest: inj_onD)
    then show ?thesis using m(4) moved(3)
      by (simp add: order_row_step_def order_ident_def moved_row_def order_edge_def)
  qed
  then show ?thesis unfolding orders_step_def m(6)
    by (intro exI [of _ "\<lambda>q. if r_id q = i \<and> r_version q = ver then moved_row to (tp_sender p) (db_now db1) q else q"]
        exI [of _ "[]"]) (auto simp: moved_db_def update_rows_def m(5))
next
  case (replayed req e)
  then show ?thesis using Post_orders(1) ok by (auto simp: ledger_ok_def)
qed

lemma Reorg_orders_step:
  assumes h: "HandleDepositReorg digest env db i key actor now = (env', Inr (db', o'))" and ok: "ledger_ok db"
  shows "orders_step db db'"
  using h
proof (cases rule: HandleDepositReorg_cases)
  case (A ord)
  obtain original :: entry and db1 and e :: entry where r: "Reverse digest db (e_id original) actor reason_A now = Inr (db1, e)"
    and t: "Transition digest env db1 (o_id ord) Quoted (o_version ord)
       \<lparr>tp_actor = actor, tp_reason = reason_A, tp_occurred_at = now, tp_entry = None,
        tp_entry_id = Some (e_id e), tp_sender = None\<rparr> = (env', Inr (db', o'))"
    using A(3) by (rule ScenarioA_Inr) (rule that; assumption)
  have "orders db1 = orders db" using Reverse_orders(1) [OF r] ok by (simp add: ledger_ok_def)
  then show ?thesis using Transition_orders_step [OF t Reverse_ledger_ok [OF r ok]] by (simp add: orders_step_def)
next
  case (B ord)
  obtain original where e: "GetEntryByIdempotencyKey db key = Inr original"
    using B(3) by (rule ScenarioB_Inr) (rule that; assumption)
  show ?thesis using reorg_B_effect(1) [OF h ok B(1,2) e] by (rule orders_step_same)
next
  case Q
  then show ?thesis by blast
qed

lemma ledger_body_orders_step:
  assumes "ledger_body digest opn db = Inr db'" and ok: "ledger_ok db"
  shows "orders_step db db'"
proof (cases opn)
  case OpSeed
  then have "orders db' = orders db"
    using assms(1) Seed_steps [of db db' "\<lambda>d. orders d = orders db"] CreateAccount_orders by auto
  then show ?thesis by blast
next
  case (OpTransition env i to ver p)
  then show ?thesis using assms(1) Transition_orders_step [OF _ ok]
    by (cases "Transition digest env db i to ver p") auto
next
  case (OpReorg env i key actor now)
  then show ?thesis using assms(1) Reorg_orders_step [OF _ ok]
    by (cases "HandleDepositReorg digest env db i key actor now") auto
next
  case (OpClearHalt p)
  then have c: "ClearHalt db p = Inr db'" using assms(1) by simp
  show ?thesis by (rule orders_step_same) (simp add: ClearHalt_tables [OF c])
next
  case (OpSnapshot cfg p)
  then obtain r where "IngestSnapshot db cfg p = Inr (db', r)" using assms(1) by auto
  from IngestSnapshot_same(7) [OF this] show ?thesis by (rule orders_step_same)
next
  case (OpCreateOrder p)
  then obtain o' where "CreateOrder db p = Inr (db', o')" using assms(1) by auto
  from CreateOrder_Inr(1) [OF this] show ?thesis
    unfolding orders_step_def by (intro exI [of _ "\<lambda>r. r"] exI [of _ "[new_order_row db p]"]) simp
next
  case (OpPost req)
  then show ?thesis using assms Post_orders(1) by (auto simp: ledger_ok_def)
next
  case (OpReverse i a r at)
  then show ?thesis using assms Reverse_orders(1) by (auto simp: ledger_ok_def)
next
  case (OpCreateAccount c t a)
  then show ?thesis using assms(1) CreateAccount_orders by auto
next
  case (OpSelfCheck rc now)
  then show ?thesis using assms(1) by (auto simp: RunOnce_same [OF ok])
qed (use assms(1) in auto)

definition ext_status :: "db \<Rightarrow> string \<Rightarrow> state option" where
  "ext_status db ext = map_option r_state (order_at db ext)"

interpretation order_by_ext: status_store "ledger_exec digest" ledger_ok ext_status order_edge for digest
proof
  fix opn db db' k s
  assume ok: "ledger_ok db" and e: "ledger_exec digest opn db = Inr db'"
  then have "orders_step db db'" using ledger_body_orders_step by (simp add: ledger_exec_body)
  then show "\<exists>t. ext_status db' k = Some t \<and> (t = s \<or> order_edge s t)" if "ext_status db k = Some s"
    using that orders_step_at by (fastforce simp: ext_status_def order_row_step_def)
qed

lemma terminal_no_edge: "Terminal s \<Longrightarrow> \<not> order_edge s t"
  by (cases s; cases t) (simp_all add: order_edge_def legal_def transitionTable_def)

section \<open>Requests\<close>

definition served :: "(hash_payload \<Rightarrow> hash) \<Rightarrow> ledger_server \<Rightarrow> ledger_server \<Rightarrow> bool" where
  "served digest srv srv' \<longleftrightarrow>
     ls_db srv' = ls_db srv \<or> (\<exists>now opn. ledger_exec digest opn (at_time now srv) = Inr (ls_db srv'))"

lemma served_same [simp, intro]: "ls_db srv' = ls_db srv \<Longrightarrow> served digest srv srv'"
  by (simp add: served_def)

lemma ledger_ok_at_time [simp]: "ledger_ok (at_time now srv) \<longleftrightarrow> ledger_ok (ls_db srv)"
proof
  have h: "halt_ok (at_time now srv) = halt_ok (ls_db srv)"
    by (rule halt_ok_cong) (simp_all add: at_time_def)
  show "ledger_ok (ls_db srv)" if "ledger_ok (at_time now srv)"
    by (rule ledger_ok_same [OF that]) (use that h in \<open>simp_all add: at_time_def ledger_ok_def\<close>)
  show "ledger_ok (at_time now srv)" if "ledger_ok (ls_db srv)"
    by (rule ledger_ok_same [OF that]) (use that h in \<open>simp_all add: at_time_def ledger_ok_def\<close>)
qed

lemma ext_status_at_time [simp]: "ext_status (at_time now srv) = ext_status (ls_db srv)"
  by (simp add: ext_status_def order_at_def at_time_def fun_eq_iff)

lemma served_ok: "served digest srv srv' \<Longrightarrow> ledger_ok (ls_db srv) \<Longrightarrow> ledger_ok (ls_db srv')"
  unfolding served_def using ledger_exec_ok ledger_ok_at_time by metis

lemma served_terminal:
  assumes "served digest srv srv'" and "ledger_ok (ls_db srv)"
    and "ext_status (ls_db srv) ext = Some st" and "Terminal st"
  shows "ext_status (ls_db srv') ext = Some st"
  using assms order_by_ext.moves [where k = ext] terminal_no_edge [OF assms(4)]
  unfolding served_def by (metis ext_status_at_time ledger_ok_at_time)

text \<open>The four handlers that write.\<close>

lemma run_tx_ok:
  assumes "run_tx db r = Inr (db', x)"
  shows "r = Inr (db', x)"
  using assms by (auto simp: run_tx_def Tx_def split: if_splits)

lemma run_tx_exec:
  assumes "run_tx db r = Inr (db', x)" and "ledger_body digest opn db = rbind r (\<lambda>(db', _). Inr db')"
  shows "ledger_exec digest opn db = Inr db'"
  using assms by (auto simp: run_tx_def ledger_exec_def Tx_def split: if_splits)

text \<open>A transition that went through, as the operation it was.\<close>

lemma transition_request_order:
  "transition_request db actor key ext req = Inr (ord, p) \<Longrightarrow> GetByExternalID db ext = Inr ord"
  by (auto simp: transition_request_def)

lemma postTransition_Inr:
  assumes "postTransition digest actor key now ext req srv = (srv', Inr resp)"
  obtains ord :: order and p env' upd where "transition_request (ls_db srv) actor key ext req = Inr (ord, p)"
    "Transition digest (server_env now srv) (at_time now srv) (o_id ord) (state_of (tj_to req)) (tj_version req) p =
       (env', Inr (ls_db srv', upd))"
    "run_tx (at_time now srv) (Inr (ls_db srv', upd)) = Inr (ls_db srv', upd)"
    "resp = toOrderResponse upd"
proof (cases "transition_request (ls_db srv) actor key ext req")
  case (Inr op)
  obtain ord p where op: "op = (ord, p)" by fastforce
  obtain env' r where t: "Transition digest (server_env now srv) (at_time now srv) (o_id ord)
      (state_of (tj_to req)) (tj_version req) p = (env', r)" by fastforce
  then obtain db' upd where x: "run_tx (at_time now srv) r = Inr (db', upd)" "ls_db srv' = db'" "resp = toOrderResponse upd"
    using assms Inr op by (auto simp: postTransition_def split: sum.splits)
  have "r = Inr (db', upd)" using run_tx_ok [OF x(1)] .
  then show ?thesis using that [of ord p env' upd] Inr op t x by simp
qed (use assms in \<open>simp add: postTransition_def\<close>)

lemma postTransition_Inl:
  assumes "postTransition digest actor key now ext req srv = (srv', Inl e)"
  shows "ls_db srv' = ls_db srv"
proof (cases "transition_request (ls_db srv) actor key ext req")
  case (Inr op)
  obtain ord p where op: "op = (ord, p)" by fastforce
  obtain env' r where "Transition digest (server_env now srv) (at_time now srv) (o_id ord)
      (state_of (tj_to req)) (tj_version req) p = (env', r)" by fastforce
  then show ?thesis using assms Inr op by (auto simp: postTransition_def split: sum.splits)
qed (use assms in \<open>simp add: postTransition_def\<close>)

lemma postTransition_served:
  assumes p: "postTransition digest actor key now ext req srv = (srv', r)"
  shows "served digest srv srv'"
proof (cases r)
  case (Inl e)
  then show ?thesis using postTransition_Inl p by blast
next
  case (Inr resp)
  with p have "postTransition digest actor key now ext req srv = (srv', Inr resp)" by simp
  then obtain ord :: order and tp env' upd where t:
    "Transition digest (server_env now srv) (at_time now srv) (o_id ord) (state_of (tj_to req)) (tj_version req) tp =
       (env', Inr (ls_db srv', upd))"
    "run_tx (at_time now srv) (Inr (ls_db srv', upd)) = Inr (ls_db srv', upd)"
    by (rule postTransition_Inr) (rule that; assumption)
  have "ledger_exec digest (OpTransition (server_env now srv) (o_id ord) (state_of (tj_to req)) (tj_version req) tp)
      (at_time now srv) = Inr (ls_db srv')" by (rule run_tx_exec [OF t(2)]) (simp add: t(1))
  then show ?thesis unfolding served_def by blast
qed

lemma scanOrder_id: "scanOrder r = Inr ord \<Longrightarrow> o_id ord = r_id r"
  by (cases "order_assets r") (auto simp: scanOrder_def)

lemma GetByExternalID_at:
  "GetByExternalID db ext = Inr ord \<Longrightarrow> \<exists>r. order_at db ext = Some r \<and> scanOrder r = Inr ord"
  by (auto simp: GetByExternalID_def order_at_def split: option.splits)

lemma postTransition_result:
  assumes p: "postTransition digest actor key now ext req srv = (srv', Inr resp)" and ok: "ledger_ok (ls_db srv)"
  shows "ext_status (ls_db srv') ext = Some (state_of (tj_to req))"
proof -
  let ?to = "state_of (tj_to req)"
  obtain ord :: order and tp env' upd where g: "transition_request (ls_db srv) actor key ext req = Inr (ord, tp)"
    and t: "Transition digest (server_env now srv) (at_time now srv) (o_id ord) ?to (tj_version req) tp = (env', Inr (ls_db srv', upd))"
    using p by (rule postTransition_Inr) (rule that; assumption)
  have ok': "ledger_ok (at_time now srv)" using ok by simp
  have ref: "order_map (ls_db srv') (o_id ord) = Some (?to, o_version upd)"
    using Transition_refines [OF t ok'] by simp
  obtain r where r: "order_at (at_time now srv) ext = Some r" "scanOrder r = Inr ord"
    using GetByExternalID_at [OF transition_request_order [OF g]] by (auto simp: order_at_def at_time_def)
  obtain r' where r': "order_at (ls_db srv') ext = Some r'" "order_row_step r r'"
    using orders_step_at [OF Transition_orders_step [OF t ok'] r(1)] by blast
  have "r_id r' = o_id ord" using scanOrder_id [OF r(2)] r'(2) by (simp add: order_row_step_def order_ident_def)
  moreover have "ledger_ok (ls_db srv')" using served_ok [OF postTransition_served [OF p] ok] .
  ultimately have "first_row (\<lambda>q. r_id q = o_id ord) (orders (ls_db srv')) = Some r'"
    using orders_row order_atD [OF r'(1)] by (fastforce simp: ledger_ok_def)
  then show ?thesis using ref r'(1) by (simp add: order_map_def ext_status_def)
qed

lemma postEntry_served:
  assumes p: "postEntry digest actor key now req srv = (srv', r)"
  shows "served digest srv srv'"
proof -
  consider "ls_db srv' = ls_db srv"
    | er e where "run_tx (at_time now srv) (Post digest (at_time now srv) er) = Inr (ls_db srv', e)"
    using p by (auto simp: postEntry_def rbind_Inl_iff split: sum.splits prod.splits)
  then show ?thesis
  proof cases
    case (2 er e)
    then have "ledger_exec digest (OpPost er) (at_time now srv) = Inr (ls_db srv')"
      by (intro run_tx_exec) auto
    then show ?thesis unfolding served_def by blast
  qed simp
qed

lemma exec_plain:
  assumes "ledger_body digest opn db = Inr db'" and "lines db' = lines db"
  shows "ledger_exec digest opn db = Inr db'"
  using assms by (simp add: ledger_exec_def Tx_def)

lemma postAccount_served:
  assumes p: "postAccount now c ty a srv = (srv', r)"
  shows "served digest srv srv'"
proof -
  consider "ls_db srv' = ls_db srv"
    | acc where "CreateAccount (at_time now srv) c (account_type_of ty) (asset_of a) = Inr (ls_db srv', acc)"
    using p by (auto simp: postAccount_def split: sum.splits prod.splits)
  then show ?thesis
  proof cases
    case (2 acc)
    moreover have "lines (ls_db srv') = lines (at_time now srv)" using 2 by (cases rule: CreateAccount_cases) auto
    ultimately have "ledger_exec digest (OpCreateAccount c (account_type_of ty) (asset_of a)) (at_time now srv) = Inr (ls_db srv')"
      by (intro exec_plain) auto
    then show ?thesis unfolding served_def by blast
  qed simp
qed

lemma postOrder_served:
  assumes p: "postOrder now req srv = (srv', r)"
  shows "served digest srv srv'"
proof -
  consider "ls_db srv' = ls_db srv" | cp ord where "CreateOrder (at_time now srv) cp = Inr (ls_db srv', ord)"
    using p by (auto simp: postOrder_def Let_def rbind_Inl_iff split: sum.splits prod.splits if_splits)
  then show ?thesis
  proof cases
    case (2 cp ord)
    then have "ledger_exec digest (OpCreateOrder cp) (at_time now srv) = Inr (ls_db srv')"
      using CreateOrder_Inr(1) [OF 2] by (intro exec_plain) auto
    then show ?thesis unfolding served_def by blast
  qed simp
qed

lemma postReorg_served:
  assumes p: "postReorg digest actor now ext key srv = (srv', r)"
  shows "served digest srv srv'"
proof (cases "ls_db srv' = ls_db srv")
  case False
  then obtain ord :: order and env' res upd where
    h: "HandleDepositReorg digest (server_env now srv) (at_time now srv) (o_id ord) key actor now = (env', res)"
    and t: "run_tx (at_time now srv) res = Inr (ls_db srv', upd)"
    using p by (auto simp: postReorg_def split: if_splits sum.splits prod.splits)
  have "ledger_exec digest (OpReorg (server_env now srv) (o_id ord) key actor now) (at_time now srv) = Inr (ls_db srv')"
    by (rule run_tx_exec [OF t]) (simp add: h)
  then show ?thesis unfolding served_def by blast
qed simp

lemma client_served:
  "lc_TransitionWithEntry digest actor now ext to ver reason ty at ls key srv = (srv', r) \<Longrightarrow> served digest srv srv'"
  "lc_Transition digest actor now ext to ver reason at key srv = (srv', r) \<Longrightarrow> served digest srv srv'"
  "lc_EnsureAccount now c t a srv = (srv', r1) \<Longrightarrow> served digest srv srv'"
  "lc_PostEntry digest actor now ty at ls md key srv = (srv', r2) \<Longrightarrow> served digest srv srv'"
  "lc_CreateOrder now ext cust ain aout fee nfee rcp qa ea srv = (srv', r) \<Longrightarrow> served digest srv srv'"
  by (auto simp: lc_TransitionWithEntry_def lc_Transition_def lc_EnsureAccount_def lc_PostEntry_def lc_CreateOrder_def
      map_prod_def split: sum.splits prod.splits
      dest: postTransition_served postAccount_served postEntry_served postOrder_served)

lemma api_Inr [simp]: "api r = Inr x \<longleftrightarrow> r = Inr x"
  by (cases r) (auto simp: api_def)

lemma client_state:
  assumes "ledger_ok (ls_db srv)"
  shows "lc_TransitionWithEntry digest actor now ext to ver reason ty at ls key srv = (srv', Inr ord) \<Longrightarrow>
      ext_status (ls_db srv') ext = Some (state_of to)"
    "lc_Transition digest actor now ext to ver reason at key srv = (srv', Inr ord) \<Longrightarrow>
      ext_status (ls_db srv') ext = Some (state_of to)"
  by (auto simp: lc_TransitionWithEntry_def lc_Transition_def map_prod_def split: sum.splits prod.splits
      dest!: postTransition_result [OF _ assms])

section \<open>Nothing is lost on the wire\<close>

lemma asset_of_str [simp]: "Valid a \<Longrightarrow> asset_of (asset_str a) = a"
  by (cases a) (simp_all add: asset_of_def)

lemma state_of_str [simp]: "StateValid st \<Longrightarrow> state_of (state_str st) = st"
  by (cases st) (auto simp: StateValid_def state_of_def allStates_def)

text \<open>The amounts that have a decimal string: all but the smallest.\<close>

definition wireable :: "amount \<Rightarrow> bool" where
  "wireable a \<longleftrightarrow> Valid (amt_asset a) \<and> amt_units a \<noteq> MinInt64"

lemma wire_amount:
  assumes "wireable a"
  obtains s where "Format a = Inr s" "formatted a = s" "ParseDecimal s (amt_asset a) = Inr a"
  using Format_ParseDecimal [of a] assms by (auto simp: wireable_def formatted_def)

lemma ParseDecimal_formatted [simp]: "wireable a \<Longrightarrow> ParseDecimal (formatted a) (amt_asset a) = Inr a"
  by (erule wire_amount) simp

definition remote_of :: "order \<Rightarrow> remote_order" where
  "remote_of ord =
     \<lparr>ro_id = o_id ord, ro_external_id = o_external_id ord, ro_customer_id = o_customer_id ord,
      ro_tier = tier_str (o_tier ord), ro_state = state_str (o_state ord),
      ro_amount_in = o_amount_in ord, ro_amount_out = o_amount_out ord, ro_fee = o_fee ord,
      ro_network_fee = o_network_fee ord, ro_recipient = o_recipient ord, ro_sender = o_sender ord,
      ro_version = o_version ord, ro_quote_expires_at = o_quote_expires_at ord\<rparr>"

text \<open>An order as \<open>scanOrder\<close> builds it: the assets follow from tier and direction.\<close>

definition order_wireable :: "order \<Rightarrow> bool" where
  "order_wireable ord \<longleftrightarrow>
     TierValid (o_tier ord) \<and> wireable (o_amount_in ord) \<and> wireable (o_amount_out ord) \<and>
     wireable (o_fee ord) \<and> wireable (o_network_fee ord) \<and>
     amt_asset (o_fee ord) = amt_asset (if o_tier ord = Relay then o_amount_in ord else o_amount_out ord) \<and>
     amt_asset (o_network_fee ord) = amt_asset (o_fee ord)"

lemma tier_relay: "TierValid t \<Longrightarrow> tier_str t = ''RELAY'' \<longleftrightarrow> t = Relay"
  by (cases t) (auto simp: TierValid_def allTiers_def)

lemma toOrder_wire:
  assumes "order_wireable ord"
  shows "toOrder (toOrderResponse ord) = Inr (remote_of ord)"
proof -
  have v: "Valid (amt_asset (o_amount_in ord))" "Valid (amt_asset (o_amount_out ord))"
    using assms by (simp_all add: order_wireable_def wireable_def)
  have fee: "(if tier_str (o_tier ord) = ''RELAY'' then amt_asset (o_amount_in ord) else amt_asset (o_amount_out ord)) =
      amt_asset (o_fee ord)" "amt_asset (o_network_fee ord) = amt_asset (o_fee ord)"
    using assms tier_relay [of "o_tier ord"] by (auto simp: order_wireable_def)
  have w: "wireable (o_amount_in ord)" "wireable (o_amount_out ord)" "wireable (o_fee ord)" "wireable (o_network_fee ord)"
    using assms by (simp_all add: order_wireable_def)
  note p = w [THEN ParseDecimal_formatted]
  show ?thesis using v fee(1) p p(4) [unfolded fee(2)]
    by (simp add: toOrder_def toOrderResponse_def Let_def lift_amount_def remote_of_def)
qed

text \<open>A row of a well-formed table scans to such an order.\<close>

lemma scanOrder_wireable:
  assumes "scanOrder r = Inr ord" and "order_row_ok db r"
    and "\<forall>a \<in> {o_amount_in ord, o_amount_out ord, o_fee ord, o_network_fee ord}. amt_units a \<noteq> MinInt64"
  shows "order_wireable ord"
  using assms
  by (auto simp: scanOrder_def order_assets_def order_row_ok_def order_wireable_def wireable_def split: if_splits)

definition line_wireable :: "string \<times> string \<times> amount \<Rightarrow> bool" where
  "line_wireable l \<longleftrightarrow> (case l of (c, a, amt) \<Rightarrow> wireable amt \<and> a = asset_str (amt_asset amt))"

definition journal_line :: "string \<times> string \<times> amount \<Rightarrow> line" where
  "journal_line l = (case l of (c, a, amt) \<Rightarrow> Line c amt)"

lemma lines_wire:
  assumes "list_all line_wireable ls"
  shows "\<exists>js. rmap entry_line ls = Inr js \<and> entryLinesToJournalLines js = Inr (map journal_line ls)"
  using assms
proof (induction ls)
  case (Cons l ls)
  obtain c a amt where l: "l = (c, a, amt)" by (cases l)
  then have w: "wireable amt" "a = asset_str (amt_asset amt)" using Cons.prems by (simp_all add: line_wireable_def)
  obtain s where "Format amt = Inr s" "ParseDecimal s (amt_asset amt) = Inr amt" using w(1) by (rule wire_amount) simp
  then show ?case using Cons w l
    by (auto simp: entry_line_def lift_amount_def entryLinesToJournalLines_def journal_line_def wireable_def)
qed (simp add: entryLinesToJournalLines_def)

text \<open>What a transition with an entry asks of the ledger.\<close>

definition relay_transition ::
  "string \<Rightarrow> time \<Rightarrow> string \<Rightarrow> string \<Rightarrow> (string \<times> string \<times> amount) list \<Rightarrow> string \<Rightarrow> int \<Rightarrow> transition_params" where
  "relay_transition actor at reason ty ls key i =
     \<lparr>tp_actor = actor, tp_reason = reason, tp_occurred_at = at,
      tp_entry = Some \<lparr>IdempotencyKey = key, EntryType = ty, Actor = actor, OccurredAt = at, OrderID = Some i,
        Lines = map journal_line ls, Metadata = None\<rparr>,
      tp_entry_id = None, tp_sender = None\<rparr>"

lemma run_tx_Transition:
  assumes "ledger_ok db" and "Transition digest env db i to ver p = (env', r)"
  shows "run_tx db r = r"
proof (cases r)
  case (Inr x)
  obtain db' upd where x: "x = (db', upd)" by fastforce
  have "ledger_exec digest (OpTransition env i to ver p) db = ledger_body digest (OpTransition env i to ver p) db"
    by (rule ledger_exec_body [OF assms(1)])
  then have "Tx (\<lambda>_. Inr db') db = Inr db'"
    using assms(2) Inr x by (auto simp: ledger_exec_def Tx_def split: if_splits)
  then show ?thesis using Inr x by (simp add: run_tx_def)
qed (simp add: run_tx_def)

lemma TransitionWithEntry_eq:
  assumes ok: "ledger_ok (ls_db srv)" and ls: "list_all line_wireable ls"
    and ord: "GetByExternalID (ls_db srv) ext = Inr ord"
  shows "lc_TransitionWithEntry digest actor now ext to ver reason ty at ls key srv =
    (case Transition digest (server_env now srv) (at_time now srv) (o_id ord) (state_of to) ver
        (relay_transition actor at reason ty ls key (o_id ord)) of
       (env', Inl e) \<Rightarrow> (srv\<lparr>ls_cache := he_cache env'\<rparr>, Inl (ApiError e))
     | (env', Inr (db', updated)) \<Rightarrow>
         (srv\<lparr>ls_db := db', ls_cache := he_cache env'\<rparr>, toOrder (toOrderResponse updated)))"
proof -
  obtain js where js: "rmap entry_line ls = Inr js" "entryLinesToJournalLines js = Inr (map journal_line ls)"
    using lines_wire [OF ls] by blast
  obtain env' r where t: "Transition digest (server_env now srv) (at_time now srv) (o_id ord) (state_of to) ver
      (relay_transition actor at reason ty ls key (o_id ord)) = (env', r)" by fastforce
  have "run_tx (at_time now srv) r = r" using run_tx_Transition [OF _ t] ok by simp
  then show ?thesis using js ord t
    by (auto simp: lc_TransitionWithEntry_def postTransition_def transition_request_def relay_transition_def
        api_def split: sum.splits)
qed

end
