(* ===== verification/Sweeps.thy ===== *)
theory Sweeps
  imports RelayLegs_Inv Transfers "HOL-Library.AList"
begin

text \<open>
  Sweeps of the profit left in deposit wallets (\<open>relayd/internal/sweeps\<close>): the administrator's
  settings, the table of sweeps, and what each wallet may give up.

  \<^item> \<open>sweep\<close> is the struct \<open>Sweep\<close> and a row of the table; \<open>sweep_check\<close> are its CHECK constraints,
    \<open>one_pending\<close> its partial unique index.
  \<^item> \<open>sweep_settings\<close> is the struct \<open>Settings\<close>; Go's map of minimum amounts is the list of its entries
    with distinct keys. The settings row holds a value that decodes to the JSON shape or does not.
  \<^item> \<open>Wallets\<close> reads the legs and the sweeps and groups them as the query does.
  \<^item> The lemmas: settings read back, a wallet has one sweep in flight, and what sweeps took from an
    address is at most what its settled legs earned, for as long as every sweep takes what is unswept.
\<close>

section \<open>Settings\<close>

record sweep_settings =
  ss_enabled :: bool
  ss_interval :: time
  ss_min_amount :: "(asset \<times> int64) list"

datatype sweep_error = ErrInvalidSweep | ErrSweepPending | ErrSweepConstraint | ErrNoSweep | ErrNotPending | ErrSweepScan

definition minute :: time where "minute = 60 * 10 ^ 9"

definition min_amount :: "sweep_settings \<Rightarrow> asset \<Rightarrow> int64" where
  "min_amount st a = (case map_of (ss_min_amount st) a of None \<Rightarrow> 0 | Some u \<Rightarrow> u)"

definition sweptAssets :: "asset list" where
  "sweptAssets = [USDT_BEP20, USDT_TRC20]"

definition sweep_validate :: "sweep_settings \<Rightarrow> sweep_error + unit" where
  "sweep_validate st =
     (if ss_interval st < 5 * minute \<or> 7 * 24 * 60 * minute < ss_interval st then Inl ErrInvalidSweep
      else if list_ex (\<lambda>a. min_amount st a \<le>s 0) sweptAssets then Inl ErrInvalidSweep
      else Inr ())"

definition sweep_defaults :: sweep_settings where
  "sweep_defaults = \<lparr>ss_enabled = False, ss_interval = 60 * minute,
     ss_min_amount = [(USDT_BEP20, 10000000), (USDT_TRC20, 50000000)]\<rparr>"

record sweep_wire =
  sww_enabled :: bool
  sww_minutes :: int64
  sww_min_amount :: "(string \<times> string) list"

datatype sweep_doc = SweepDoc sweep_wire | UndecodableSweep

definition sweep_marshal :: "sweep_settings \<Rightarrow> sweep_error + sweep_wire" where
  "sweep_marshal st =
     rbind (rmap (\<lambda>(a, u). case Format (Amount a u) of Inl _ \<Rightarrow> Inl ErrInvalidSweep | Inr s \<Rightarrow> Inr (asset_str a, s))
       (ss_min_amount st)) (\<lambda>ms.
     Inr \<lparr>sww_enabled = ss_enabled st, sww_minutes = quot (of_int (ss_interval st)) (of_int minute), sww_min_amount = ms\<rparr>)"

text \<open>The minutes are multiplied in \<open>int64\<close>.\<close>

definition sweep_unmarshal :: "sweep_doc \<Rightarrow> sweep_error + sweep_settings" where
  "sweep_unmarshal b =
     (case b of UndecodableSweep \<Rightarrow> Inl ErrInvalidSweep
      | SweepDoc w \<Rightarrow>
        rbind (rfold (\<lambda>(k, d) out.
            if k = ''USDT_BEP20'' \<or> k = ''USDT_TRC20'' then
              (let a = (if k = ''USDT_BEP20'' then USDT_BEP20 else USDT_TRC20) in
               case ParseDecimal d a of Inl _ \<Rightarrow> Inl ErrInvalidSweep
               | Inr amt \<Rightarrow> Inr (AList.update a (amt_units amt) out))
            else Inl ErrInvalidSweep) (sww_min_amount w) []) (\<lambda>ms.
        Inr \<lparr>ss_enabled = sww_enabled w, ss_interval = sint (sww_minutes w * of_int minute), ss_min_amount = ms\<rparr>))"

section \<open>The table\<close>

datatype sweep_status = SweepPending | SweepConfirmed | SweepFailed

record sweep =
  sp_id :: int
  sp_chain :: chain
  sp_from :: string
  sp_index :: "32 word"
  sp_to :: string
  sp_amount :: amount
  sp_status :: sweep_status
  sp_tx :: "string option"
  sp_entry :: "int option"
  sp_error :: "string option"
  sp_created_at :: time
  sp_updated_at :: time
  sp_finished_at :: "time option"

record sweeps_db =
  sweeps :: "sweep list"
  sweeps_seq :: int
  sweep_setting :: "sweep_doc option"

definition empty_sweeps_db :: sweeps_db where
  "empty_sweeps_db = \<lparr>sweeps = [], sweeps_seq = 0, sweep_setting = None\<rparr>"

definition SweepSettings :: "sweeps_db \<Rightarrow> sweep_error + sweep_settings" where
  "SweepSettings db =
     (case sweep_setting db of None \<Rightarrow> Inr sweep_defaults
      | Some b \<Rightarrow>
        rbind (sweep_unmarshal b) (\<lambda>st.
        rbind (sweep_validate st) (\<lambda>_. Inr st)))"

definition PutSettings :: "sweep_settings \<Rightarrow> sweeps_db \<Rightarrow> sweep_error + sweeps_db" where
  "PutSettings st db =
     rbind (sweep_validate st) (\<lambda>_.
     rbind (sweep_marshal st) (\<lambda>w.
     Inr (db\<lparr>sweep_setting := Some (SweepDoc w)\<rparr>)))"

definition sweep_check :: "sweep \<Rightarrow> bool" where
  "sweep_check sw \<longleftrightarrow>
     (sp_chain sw = BSC \<or> sp_chain sw = TRON) \<and> 0 <s amt_units (sp_amount sw) \<and>
     (amt_asset (sp_amount sw) = USDT_BEP20 \<or> amt_asset (sp_amount sw) = USDT_TRC20)"

definition one_pending :: "sweep list \<Rightarrow> bool" where
  "one_pending rows \<longleftrightarrow> distinct (map sp_from (filter (\<lambda>s. sp_status s = SweepPending) rows))"

definition GetSweep :: "sweeps_db \<Rightarrow> int \<Rightarrow> sweep_error + sweep" where
  "GetSweep db i =
     (case first_row (\<lambda>s. sp_id s = i) (sweeps db) of None \<Rightarrow> Inl ErrNoSweep | Some s \<Rightarrow> Inr s)"

definition new_sweep :: "time \<Rightarrow> int \<Rightarrow> sweep \<Rightarrow> sweep" where
  "new_sweep now i sw =
     \<lparr>sp_id = i, sp_chain = sp_chain sw, sp_from = sp_from sw, sp_index = sp_index sw, sp_to = sp_to sw,
      sp_amount = sp_amount sw, sp_status = SweepPending, sp_tx = None, sp_entry = None, sp_error = None,
      sp_created_at = now, sp_updated_at = now, sp_finished_at = None\<rparr>"

definition CreateSweep :: "time \<Rightarrow> sweep \<Rightarrow> sweeps_db \<Rightarrow> sweep_error + sweeps_db \<times> sweep" where
  "CreateSweep now sw db =
     (let i = sweeps_seq db + 1; row = new_sweep now i sw in
      if \<not> sweep_check row then Inl ErrSweepConstraint
      else if \<not> one_pending (sweeps db @ [row]) then Inl ErrSweepPending
      else
        (let db' = db\<lparr>sweeps := sweeps db @ [row], sweeps_seq := i\<rparr> in
         rbind (GetSweep db' i) (\<lambda>sw'. Inr (db', sw'))))"

definition ListPending :: "sweeps_db \<Rightarrow> sweep list" where
  "ListPending db = sort_key sp_id (filter (\<lambda>s. sp_status s = SweepPending) (sweeps db))"

definition ListSweeps :: "sweeps_db \<Rightarrow> nat \<Rightarrow> sweep list" where
  "ListSweeps db limit = take limit (rev (sort_key sp_id (sweeps db)))"

definition sweep_finish ::
  "time \<Rightarrow> int \<Rightarrow> sweep_status \<Rightarrow> (sweep \<Rightarrow> sweep) \<Rightarrow> sweeps_db \<Rightarrow> sweep_error + sweeps_db" where
  "sweep_finish now i to extra db =
     (let p = (\<lambda>s. sp_id s = i \<and> sp_status s = SweepPending) in
      if affected p (sweeps db) = 0 then Inl ErrNotPending
      else Inr (db\<lparr>sweeps := update_rows p
        (\<lambda>s. extra (s\<lparr>sp_status := to, sp_finished_at := Some now, sp_updated_at := now\<rparr>)) (sweeps db)\<rparr>))"

definition MarkSweepConfirmed :: "time \<Rightarrow> int \<Rightarrow> string \<Rightarrow> int \<Rightarrow> sweeps_db \<Rightarrow> sweep_error + sweeps_db" where
  "MarkSweepConfirmed now i tx eid =
     sweep_finish now i SweepConfirmed (\<lambda>s. s\<lparr>sp_tx := Some tx, sp_entry := Some eid\<rparr>)"

definition MarkSweepFailed :: "time \<Rightarrow> int \<Rightarrow> string \<Rightarrow> sweeps_db \<Rightarrow> sweep_error + sweeps_db" where
  "MarkSweepFailed now i reason = sweep_finish now i SweepFailed (\<lambda>s. s\<lparr>sp_error := Some reason\<rparr>)"

section \<open>Wallets\<close>

record wallet =
  wl_chain :: chain
  wl_address :: string
  wl_index :: "32 word option"
  wl_conflict :: bool
  wl_legs :: nat
  wl_earned :: amount
  wl_swept :: amount
  wl_busy :: bool
  wl_pending :: bool
  wl_last_failed :: "time option"

definition Unswept :: "wallet \<Rightarrow> amount" where
  "Unswept w = Amount (amt_asset (wl_earned w)) (amt_units (wl_earned w) - amt_units (wl_swept w))"

definition earned_units :: "leg_row list \<Rightarrow> int" where
  "earned_units rows =
     sum_list (map (\<lambda>r. case lr_profit r of None \<Rightarrow> 0 | Some p \<Rightarrow> sint p) (filter (\<lambda>r. lg_status r = SETTLED) rows))"

definition swept_units :: "sweep list \<Rightarrow> string \<Rightarrow> int" where
  "swept_units rows addr =
     sum_list (map (\<lambda>s. units (sp_amount s))
       (filter (\<lambda>s. sp_from s = addr \<and> (sp_status s = SweepPending \<or> sp_status s = SweepConfirmed)) rows))"

fun chain_str :: "chain \<Rightarrow> string" where
  "chain_str BSC = ''BSC''"
| "chain_str TRON = ''TRON''"
| "chain_str (OtherChain s) = s"

definition wallet_of :: "sweep list \<Rightarrow> leg_row list \<Rightarrow> string \<times> leg_direction \<Rightarrow> sweep_error + wallet" where
  "wallet_of sws rows key =
     (case key of (addr, dir) \<Rightarrow>
      (let mine = filter (\<lambda>r. lg_deposit_address r = addr \<and> lg_direction r = dir) rows;
           asset = hd (sort_key asset_str (map lr_amount_in_asset mine));
           indexes = sort (remdups (List.map_filter lr_deposit_index mine));
           own = filter (\<lambda>s. sp_from s = addr) sws;
           failed = List.map_filter sp_finished_at (filter (\<lambda>s. sp_status s = SweepFailed) own) in
       if \<not> fits64 (earned_units mine) \<or> \<not> fits64 (swept_units sws addr) then Inl ErrSweepScan
       else Inr \<lparr>wl_chain = (if dir = BEP20ToTRC20 then BSC else TRON), wl_address = addr,
         wl_index = (case indexes of [i] \<Rightarrow> Some (word_of_int i) | _ \<Rightarrow> None),
         wl_conflict = (1 < length indexes), wl_legs = length mine,
         wl_earned = Amount asset (of_int (earned_units mine)),
         wl_swept = Amount asset (of_int (swept_units sws addr)),
         wl_busy = list_ex (\<lambda>r. lg_status r \<in> {AWAITING_DEPOSIT, FORWARDING, REFUND_PENDING}) mine,
         wl_pending = list_ex (\<lambda>s. sp_status s = SweepPending) own,
         wl_last_failed = (case failed of [] \<Rightarrow> None | t # ts \<Rightarrow> Some (fold max ts t))\<rparr>))"

definition Wallets :: "sweeps_db \<Rightarrow> relay_db \<Rightarrow> sweep_error + wallet list" where
  "Wallets db ldb =
     (let rows = filter (\<lambda>r. lg_deposit_address r \<noteq> '''') (legs ldb);
          keys = sort_key (\<lambda>(addr, dir). (chain_str (if dir = BEP20ToTRC20 then BSC else TRON), addr))
            (remdups (map (\<lambda>r. (lg_deposit_address r, lg_direction r)) rows)) in
      rmap (wallet_of (sweeps db) rows) keys)"

section \<open>The invariant\<close>

definition sweeps_ok :: "sweeps_db \<Rightarrow> bool" where
  "sweeps_ok db \<longleftrightarrow>
     sorted_wrt (<) (map sp_id (sweeps db)) \<and>
     (\<forall>s \<in> set (sweeps db). sp_id s \<le> sweeps_seq db \<and> sweep_check s) \<and> one_pending (sweeps db)"

lemma sweeps_ok_empty: "sweeps_ok empty_sweeps_db"
  by (simp add: sweeps_ok_def empty_sweeps_db_def one_pending_def)

text \<open>What the settled legs of an address earned, in all directions.\<close>

definition earned_at :: "relay_db \<Rightarrow> string \<Rightarrow> int" where
  "earned_at ldb addr = earned_units (filter (\<lambda>r. lg_deposit_address r = addr) (legs ldb))"

definition covered :: "sweeps_db \<Rightarrow> relay_db \<Rightarrow> bool" where
  "covered db ldb \<longleftrightarrow> (\<forall>addr. swept_units (sweeps db) addr \<le> earned_at ldb addr)"

lemma covered_empty: "covered empty_sweeps_db empty_relay_db"
  by (simp add: covered_def empty_sweeps_db_def swept_units_def earned_at_def earned_units_def empty_relay_db_def)

section \<open>What an address earned only grows\<close>

definition row_profit :: "leg_row \<Rightarrow> int" where
  "row_profit r = (if lg_status r = SETTLED then (case lr_profit r of None \<Rightarrow> 0 | Some p \<Rightarrow> sint p) else 0)"

lemma earned_units_sum: "earned_units rows = sum_list (map row_profit rows)"
  by (induction rows) (auto simp: earned_units_def row_profit_def)

lemma row_profit_nonneg: "leg_check r \<Longrightarrow> 0 \<le> row_profit r"
  by (auto simp: row_profit_def leg_check_def word_sle_eq split: option.split)

lemma row_profit_step:
  assumes "row_step r r'" and "leg_split r" and "leg_check r'"
  shows "row_profit r \<le> row_profit r'"
proof (cases "lg_status r = SETTLED")
  case True
  then have st: "lg_status r' = SETTLED" using assms(1) by (auto simp: row_step_def)
  show ?thesis
  proof (cases "lr_received r")
    case None
    then have "lr_profit r = None" using assms(2) by (auto simp: leg_split_def split: option.splits)
    then have "row_profit r = 0" by (simp add: row_profit_def)
    then show ?thesis using row_profit_nonneg [OF assms(3)] by simp
  next
    case (Some rc)
    then have "leg_deposit r' = leg_deposit r" using assms(1) by (simp add: row_step_def leg_deposit_def)
    then have "lr_profit r' = lr_profit r" using Some by (auto simp: leg_deposit_def split: option.splits)
    then show ?thesis using True st by (simp add: row_profit_def)
  qed
next
  case False
  then have "row_profit r = 0" by (simp add: row_profit_def)
  then show ?thesis using row_profit_nonneg [OF assms(3)] by simp
qed

lemma earned_units_nonneg: "\<forall>r \<in> set rows. leg_check r \<Longrightarrow> 0 \<le> earned_units rows"
  by (induction rows) (auto simp: earned_units_sum dest: row_profit_nonneg)

lemma earned_units_filter_le:
  "\<forall>r \<in> set rows. leg_check r \<Longrightarrow> earned_units (filter p rows) \<le> earned_units rows"
  by (induction rows) (auto simp: earned_units_sum dest: row_profit_nonneg)

lemma earned_at_step:
  assumes s: "legs_step ldb ldb'" and ok: "legs_ok ldb" "legs_ok ldb'"
  shows "earned_at ldb addr \<le> earned_at ldb' addr"
proof -
  obtain f new where f: "legs ldb' = map f (legs ldb) @ new" "\<forall>r \<in> set (legs ldb). row_step r (f r)"
    using s by (auto simp: legs_step_def)
  have c: "\<forall>r \<in> set (map f (legs ldb) @ new). leg_check r" and sp: "\<forall>r \<in> set (legs ldb). leg_split r"
    using ok f(1) by (simp_all add: legs_ok_def)
  have "sum_list (map row_profit (filter (\<lambda>r. lg_deposit_address r = addr) rows)) \<le>
      sum_list (map row_profit (filter (\<lambda>r. lg_deposit_address r = addr) (map f rows)))"
    if "set rows \<subseteq> set (legs ldb)" for rows
    using that
  proof (induction rows)
    case (Cons r rows)
    then have "row_step r (f r)" "leg_split r" "leg_check (f r)" using f(2) c sp by auto
    then have "row_profit r \<le> row_profit (f r)" "lg_deposit_address (f r) = lg_deposit_address r"
      using row_profit_step by (auto simp: row_step_def leg_identity_def)
    then show ?case using Cons by auto
  qed simp
  from this [of "legs ldb"] have "earned_at ldb addr \<le> earned_units (filter (\<lambda>r. lg_deposit_address r = addr) (map f (legs ldb)))"
    by (simp add: earned_at_def earned_units_sum)
  moreover have "0 \<le> earned_units (filter (\<lambda>r. lg_deposit_address r = addr) new)"
    by (rule earned_units_nonneg) (use c in auto)
  ultimately show ?thesis by (simp add: earned_at_def f(1) earned_units_sum)
qed

lemma covered_legs: "covered db ldb \<Longrightarrow> legs_step ldb ldb' \<Longrightarrow> legs_ok ldb \<Longrightarrow> legs_ok ldb' \<Longrightarrow> covered db ldb'"
  unfolding covered_def using earned_at_step order_trans by blast

section \<open>The operations\<close>

lemma CreateSweep_Inr:
  assumes "CreateSweep now sw db = Inr (db', s)"
  shows "sweeps db' = sweeps db @ [new_sweep now (sweeps_seq db + 1) sw]" "sweeps_seq db' = sweeps_seq db + 1"
    "sweep_check (new_sweep now (sweeps_seq db + 1) sw)" "one_pending (sweeps db')"
  using assms by (auto simp: CreateSweep_def Let_def split: if_splits)

lemma CreateSweep_ok:
  assumes "sweeps_ok db" and "CreateSweep now sw db = Inr (db', s)"
  shows "sweeps_ok db' \<and> s = new_sweep now (sweeps_seq db + 1) sw"
proof -
  note c = CreateSweep_Inr [OF assms(2)]
  have "sp_id x \<noteq> sweeps_seq db + 1" if "x \<in> set (sweeps db)" for x
    using assms(1) that by (auto simp: sweeps_ok_def)
  then have "first_row (\<lambda>x. sp_id x = sweeps_seq db + 1) (sweeps db) = None" by (simp add: first_row_None)
  then have "s = new_sweep now (sweeps_seq db + 1) sw"
    using assms(2) c by (auto simp: CreateSweep_def Let_def GetSweep_def first_row_append new_sweep_def split: if_splits)
  moreover have "sweeps_ok db'" using assms(1) c
    by (fastforce simp: sweeps_ok_def sorted_wrt_append new_sweep_def)
  ultimately show ?thesis by blast
qed

lemma sweep_finish_ok:
  assumes "sweeps_ok db" and "sweep_finish now i to extra db = Inr db'" and "to \<noteq> SweepPending"
    and "\<And>s. sp_id (extra s) = sp_id s \<and> sp_chain (extra s) = sp_chain s \<and> sp_amount (extra s) = sp_amount s \<and>
      sp_from (extra s) = sp_from s \<and> sp_status (extra s) = sp_status s"
  shows "sweeps_ok db'" "\<And>addr. swept_units (sweeps db') addr \<le> swept_units (sweeps db) addr"
proof -
  let ?p = "\<lambda>s. sp_id s = i \<and> sp_status s = SweepPending"
  let ?g = "\<lambda>s. extra (s\<lparr>sp_status := to, sp_finished_at := Some now, sp_updated_at := now\<rparr>)"
  have db': "sweeps db' = update_rows ?p ?g (sweeps db)" "sweeps_seq db' = sweeps_seq db"
    using assms(2) by (auto simp: sweep_finish_def Let_def split: if_splits)
  have "one_pending (update_rows ?p ?g rows)" if "one_pending rows" for rows
    using that
  proof (induction rows)
    case (Cons r rows)
    have "sp_from ` {x \<in> set (update_rows ?p ?g rows). sp_status x = SweepPending} \<subseteq>
        sp_from ` {x \<in> set rows. sp_status x = SweepPending}"
      using assms(3,4) by (auto simp: set_update_rows split: if_splits)
    then show ?case using Cons assms(3,4)
      by (auto simp: one_pending_def update_rows_def split: if_splits)
  qed (simp add: update_rows_def)
  then have "one_pending (sweeps db')" using assms(1) db' by (simp add: sweeps_ok_def)
  moreover have "map sp_id (sweeps db') = map sp_id (sweeps db)" unfolding db' using assms(4) by (intro map_update_rows) simp
  moreover have "sweep_check (?g q) = sweep_check q" "sp_id (?g q) = sp_id q" for q
    by (simp_all add: sweep_check_def assms(4))
  then have "\<forall>s \<in> set (sweeps db'). sp_id s \<le> sweeps_seq db' \<and> sweep_check s"
    using assms(1) by (auto simp: db' set_update_rows sweeps_ok_def)
  ultimately show "sweeps_ok db'" using assms(1) by (simp add: sweeps_ok_def)
  fix addr
  have "\<forall>s \<in> set (sweeps db). 0 \<le> units (sp_amount s)"
    using assms(1) by (auto simp: sweeps_ok_def sweep_check_def word_sless_alt)
  then have "swept_units (update_rows ?p ?g rows) addr \<le> swept_units rows addr" if "set rows \<subseteq> set (sweeps db)" for rows
    using that by (induction rows) (use assms(3,4) in \<open>auto simp: swept_units_def update_rows_def\<close>)
  then show "swept_units (sweeps db') addr \<le> swept_units (sweeps db) addr" by (simp add: db'(1))
qed

lemma covered_finish:
  assumes "covered db ldb" and "\<And>addr. swept_units (sweeps db') addr \<le> swept_units (sweeps db) addr"
  shows "covered db' ldb"
  using assms unfolding covered_def by (meson order_trans)

text \<open>What a wallet reports.\<close>

lemma wallet_of_Inr:
  assumes "wallet_of sws rows (addr, dir) = Inr w"
  shows "wl_address w = addr" "units (wl_earned w) = earned_units (filter (\<lambda>r. lg_deposit_address r = addr \<and> lg_direction r = dir) rows)"
    "units (wl_swept w) = swept_units sws addr"
  using assms by (auto simp: wallet_of_def Let_def sint_of_int64 split: if_splits)

lemma swept_units_nonneg:
  assumes "sweeps_ok db"
  shows "0 \<le> swept_units (sweeps db) addr"
proof -
  have "\<forall>s \<in> set (sweeps db). 0 \<le> units (sp_amount s)"
    using assms by (auto simp: sweeps_ok_def sweep_check_def word_sless_alt)
  then show ?thesis unfolding swept_units_def by (intro sum_list_nonneg) auto
qed

lemma Unswept_units:
  assumes "0 \<le> units (wl_earned w)" and "0 \<le> units (wl_swept w)"
  shows "units (Unswept w) = units (wl_earned w) - units (wl_swept w)"
  unfolding Unswept_def using assms sint64_range [of "amt_units (wl_earned w)"] sint64_range [of "amt_units (wl_swept w)"]
  by (simp add: sint64_sub fits64_def min_int64_def max_int64_def)

text \<open>The wallets of an address have earned no more than the address, even if it was used in both
  directions.\<close>

definition earned_by :: "wallet list \<Rightarrow> string \<Rightarrow> int" where
  "earned_by ws addr = sum_list (map (\<lambda>w. units (wl_earned w)) (filter (\<lambda>w. wl_address w = addr) ws))"

lemma earned_units_split:
  "earned_units (filter (\<lambda>r. p r \<or> q r) rows) = earned_units (filter p rows) + earned_units (filter q rows)"
  if "\<And>r. r \<in> set rows \<Longrightarrow> \<not> (p r \<and> q r)"
  using that by (induction rows) (auto simp: earned_units_sum)

lemma wallets_sum:
  assumes "list_all2 (\<lambda>k w. wallet_of sws rows k = Inr w) keys ws" and "distinct keys"
  shows "earned_by ws addr =
    earned_units (filter (\<lambda>r. lg_deposit_address r = addr \<and> (lg_deposit_address r, lg_direction r) \<in> set keys) rows)"
  using assms
proof (induction rule: list_all2_induct)
  case (Cons k keys w ws)
  obtain a d where k: "k = (a, d)" by fastforce
  note w = wallet_of_Inr [OF Cons.hyps(1) [unfolded k]]
  let ?p = "\<lambda>r. lg_deposit_address r = addr \<and> (lg_deposit_address r, lg_direction r) = k"
  let ?q = "\<lambda>r. lg_deposit_address r = addr \<and> (lg_deposit_address r, lg_direction r) \<in> set keys"
  have IH: "earned_by ws addr = earned_units (filter ?q rows)" using Cons by simp
  have "earned_units (filter (\<lambda>r. ?p r \<or> ?q r) rows) = earned_units (filter ?p rows) + earned_units (filter ?q rows)"
    by (rule earned_units_split) (use Cons.prems in auto)
  moreover have "filter (\<lambda>r. ?p r \<or> ?q r) rows =
      filter (\<lambda>r. lg_deposit_address r = addr \<and> (lg_deposit_address r, lg_direction r) \<in> set (k # keys)) rows"
    by (rule filter_cong) auto
  moreover have "earned_by (w # ws) addr = (if a = addr then units (wl_earned w) else 0) + earned_by ws addr"
    using w(1) by (simp add: earned_by_def)
  moreover have "earned_units (filter ?p rows) = (if a = addr then units (wl_earned w) else 0)"
  proof (cases "a = addr")
    case True
    then have "filter ?p rows = filter (\<lambda>r. lg_deposit_address r = a \<and> lg_direction r = d) rows"
      by (intro filter_cong) (auto simp: k)
    then have "earned_units (filter ?p rows) = units (wl_earned w)" using w(2) by (rule trans [OF arg_cong sym])
    then show ?thesis using True by simp
  next
    case False
    then have "filter ?p rows = []" by (auto simp: k filter_empty_conv)
    then show ?thesis using False by (simp add: earned_units_def)
  qed
  ultimately show ?case using IH by (simp only:)
qed (simp add: earned_by_def earned_units_def)

lemma Wallets_budget:
  assumes W: "Wallets db ldb = Inr ws" and ok: "legs_ok ldb" "sweeps_ok db"
  shows "\<forall>w \<in> set ws. 0 \<le> units (wl_earned w) \<and> units (wl_swept w) = swept_units (sweeps db) (wl_address w)"
    "earned_by ws addr \<le> earned_at ldb addr"
proof -
  let ?rows = "filter (\<lambda>r. lg_deposit_address r \<noteq> '''') (legs ldb)"
  let ?keys = "sort_key (\<lambda>(addr, dir). (chain_str (if dir = BEP20ToTRC20 then BSC else TRON), addr))
      (remdups (map (\<lambda>r. (lg_deposit_address r, lg_direction r)) ?rows))"
  have l: "list_all2 (\<lambda>k w. wallet_of (sweeps db) ?rows k = Inr w) ?keys ws"
    using W by (simp add: Wallets_def Let_def rmap_Inr_iff)
  have chk: "\<forall>r \<in> set (legs ldb). leg_check r" using ok(1) by (simp add: legs_ok_def)
  show "\<forall>w \<in> set ws. 0 \<le> units (wl_earned w) \<and> units (wl_swept w) = swept_units (sweeps db) (wl_address w)"
  proof
    fix w
    assume "w \<in> set ws"
    then obtain i where i: "i < length ws" "w = ws ! i" by (auto simp: in_set_conv_nth)
    obtain a d where k: "?keys ! i = (a, d)" by fastforce
    have "wallet_of (sweeps db) ?rows (a, d) = Inr w" using list_all2_nthD2 [OF l i(1)] i(2) k by simp
    note w = wallet_of_Inr [OF this]
    have "0 \<le> units (wl_earned w)" unfolding w(2) by (rule earned_units_nonneg) (use chk in simp)
    then show "0 \<le> units (wl_earned w) \<and> units (wl_swept w) = swept_units (sweeps db) (wl_address w)" using w by simp
  qed
  have "earned_by ws addr = earned_units (filter (\<lambda>r. lg_deposit_address r = addr \<and>
      (lg_deposit_address r, lg_direction r) \<in> set ?keys) ?rows)" by (rule wallets_sum [OF l]) simp
  also have "\<dots> = earned_units (filter (\<lambda>r. lg_deposit_address r \<noteq> '''') (filter (\<lambda>r. lg_deposit_address r = addr) (legs ldb)))"
    unfolding filter_filter by (rule arg_cong [where f = earned_units], rule filter_cong) auto
  also have "\<dots> \<le> earned_at ldb addr" unfolding earned_at_def by (rule earned_units_filter_le) (use chk in simp)
  finally show "earned_by ws addr \<le> earned_at ldb addr" .
qed

text \<open>A sweep within what its address has left keeps every address covered.\<close>

lemma CreateSweep_swept:
  assumes "CreateSweep now sw db = Inr (db', s)"
  shows "swept_units (sweeps db') x = swept_units (sweeps db) x + (if x = sp_from sw then units (sp_amount sw) else 0)"
  using CreateSweep_Inr(1) [OF assms] by (auto simp: swept_units_def new_sweep_def)

lemma CreateSweep_covered:
  assumes "covered db ldb" and "CreateSweep now sw db = Inr (db', s)"
    and "swept_units (sweeps db) (sp_from sw) + units (sp_amount sw) \<le> earned_at ldb (sp_from sw)"
  shows "covered db' ldb"
  using assms CreateSweep_swept [OF assms(2)] unfolding covered_def by simp

end
