(* ===== verification/Drive_Frame.thy ===== *)
theory Drive_Frame
  imports Drive_Run
begin

text \<open>
  What a call of the driver leaves alone: the attempts of every transfer but the one it drives and
  the treasury top-ups that pay for it. \<open>frame J\<close> says that the attempts outside the jobs \<open>J\<close> are
  the same rows; the locale \<open>framed_adapter\<close> adds that law to \<open>chain_adapter\<close>.
\<close>

section \<open>Frames\<close>

definition frame :: "(string \<times> purpose) set \<Rightarrow> transfer_db \<Rightarrow> transfer_db \<Rightarrow> bool" where
  "frame J db db' \<longleftrightarrow>
     filter (\<lambda>a. attempt_job a \<notin> J) (attempts db') = filter (\<lambda>a. attempt_job a \<notin> J) (attempts db)"

definition top_ups :: "(string \<times> purpose) set" where
  "top_ups = {j. snd j = GAS_TOPUP \<or> snd j = TRX_TOPUP}"

lemma frame_refl [simp, intro]: "frame J db db"
  by (simp add: frame_def)

lemma frame_trans: "frame J a b \<Longrightarrow> frame J b c \<Longrightarrow> frame J a c"
  by (simp add: frame_def)

lemma frame_mono:
  assumes "frame J db db'" and "J \<subseteq> K"
  shows "frame K db db'"
proof -
  have "filter (\<lambda>a. attempt_job a \<notin> K) rows = filter (\<lambda>a. attempt_job a \<notin> K) (filter (\<lambda>a. attempt_job a \<notin> J) rows)" for rows
    using assms(2) by (induction rows) auto
  then show ?thesis using assms(1) by (metis frame_def)
qed

lemma frame_mem:
  assumes "frame J db db'" and "attempt_job a \<notin> J"
  shows "a \<in> set (attempts db') \<longleftrightarrow> a \<in> set (attempts db)"
  using arg_cong [OF assms(1) [unfolded frame_def], of set] assms(2) by auto

lemma frame_same: "attempts db' = attempts db \<Longrightarrow> frame J db db'"
  by (simp add: frame_def)

text \<open>Statements on one attempt.\<close>

definition has_job :: "(string \<times> purpose) set \<Rightarrow> transfer_db \<Rightarrow> int \<Rightarrow> bool" where
  "has_job J db i \<longleftrightarrow> (\<exists>v. tx_at db i = Some v \<and> (fst v, fst (snd v)) \<in> J)"

lemma has_jobD:
  assumes "transfers_ok db" and "has_job J db i" and "a \<in> set (attempts db)" and "ta_id a = i"
  shows "attempt_job a \<in> J"
  using assms attempt_at_mem [OF assms(1,3)]
  by (auto simp: has_job_def tx_at_def attempt_tx_def attempt_job_def)

lemma has_jobI:
  assumes "transfers_ok db" and "a \<in> set (attempts db)" and "attempt_job a \<in> J"
  shows "has_job J db (ta_id a)"
  using assms attempt_at_mem [OF assms(1,2)] by (auto simp: has_job_def tx_at_def attempt_tx_def attempt_job_def)

lemma has_job_signed:
  assumes "signed_at db (ta_id a) = signed_tx a" and "signed_tx a \<noteq> None" and "attempt_job a \<in> J"
  shows "has_job J db (ta_id a)"
proof -
  obtain t s h where t: "signed_tx a = Some (t, s, h)" using assms(2) by (metis not_None_eq prod.exhaust)
  then have "t = attempt_tx a" by (auto simp: signed_tx_def bind_eq_Some_conv)
  then show ?thesis using signed_at_tx [of db "ta_id a" t s h] t assms(1,3)
    by (auto simp: has_job_def attempt_tx_def attempt_job_def)
qed

lemma has_job_step: "world_step w w' \<Longrightarrow> has_job J (wd_db w) i \<Longrightarrow> has_job J (wd_db w') i"
  unfolding world_step_def reads_on_def has_job_def by blast

lemma update_frame:
  assumes "write_attempts db (update_rows p f (attempts db)) = Inr db'"
    and "\<And>a. a \<in> set (attempts db) \<Longrightarrow> p a \<Longrightarrow> attempt_job a \<in> J" and "\<And>a. attempt_job (f a) = attempt_job a"
  shows "frame J db db'"
proof -
  have "filter (\<lambda>a. attempt_job a \<notin> J) (update_rows p f rows) = filter (\<lambda>a. attempt_job a \<notin> J) rows"
    if "set rows \<subseteq> set (attempts db)" for rows
    using that by (induction rows) (use assms(2,3) in \<open>auto simp: update_rows_def\<close>)
  then show ?thesis using assms(1) by (auto simp: frame_def write_attempts_Inr)
qed

lemma transition_frame:
  assumes "transition now i to from extra db = Inr db'" and "\<And>a. attempt_job (extra a) = attempt_job a"
    and "transfers_ok db" and "has_job J db i"
  shows "frame J db db'"
  using transition_Inr [OF assms(1)]
  by (rule update_frame) (use has_jobD [OF assms(3,4)] assms(2) in \<open>auto simp: attempt_job_def\<close>)

lemma mark_frames:
  assumes "transfers_ok db" and "has_job J db i"
  shows "MarkConfirmed now i db = Inr db' \<Longrightarrow> frame J db db'"
    "MarkFailed now i reason db = Inr db' \<Longrightarrow> frame J db db'"
    "MarkDropped now i reason db = Inr db' \<Longrightarrow> frame J db db'"
    "MarkAbandoned now i reason db = Inr db' \<Longrightarrow> frame J db db'"
    "MarkSigned now i sig h db = Inr db' \<Longrightarrow> frame J db db'"
    "RecordBroadcast now i err db = Inr db' \<Longrightarrow> frame J db db'"
    "MarkStuckAlerted now i db = Inr (db', b) \<Longrightarrow> frame J db db'"
    "SetNonceConsumedSince now i since db = Inr db' \<Longrightarrow> frame J db db'"
proof -
  note own = has_jobD [OF assms]
  show "RecordBroadcast now i err db = Inr db' \<Longrightarrow> frame J db db'"
    unfolding RecordBroadcast_def Let_def rbind_Inr_iff
    by (elim exE conjE, drule update_frame [where J = J]) (use own in \<open>auto simp: attempt_job_def split: if_splits\<close>)
  show "MarkStuckAlerted now i db = Inr (db', b) \<Longrightarrow> frame J db db'"
    unfolding MarkStuckAlerted_def Let_def rbind_Inr_iff
    by (elim exE conjE, drule update_frame [where J = J]) (use own in \<open>auto simp: attempt_job_def\<close>)
  show "SetNonceConsumedSince now i since db = Inr db' \<Longrightarrow> frame J db db'"
    unfolding SetNonceConsumedSince_def
    by (drule update_frame [where J = J]) (use own in \<open>auto simp: attempt_job_def\<close>)
qed (use assms in \<open>auto simp: MarkConfirmed_def MarkFailed_def MarkDropped_def MarkAbandoned_def MarkSigned_def
    attempt_job_def elim!: transition_frame\<close>)

lemma store_call_frame:
  assumes "store_call f w = (w', r)" and "\<And>db'. f (wd_db w) = Inr db' \<Longrightarrow> frame J (wd_db w) db'"
  shows "frame J (wd_db w) (wd_db w')"
  using assms by (auto simp: store_call_def split: sum.splits)

lemma rthen_frame:
  assumes "rthen (store_call f w) k = (w', r)"
    and "\<And>db'. f (wd_db w) = Inr db' \<Longrightarrow> frame J (wd_db w) db'"
    and "\<And>w2 u. store_call f w = (w2, Inr u) \<Longrightarrow> k w2 u = (w', r) \<Longrightarrow> frame J (wd_db w2) (wd_db w')"
  shows "frame J (wd_db w) (wd_db w')"
  using assms(1)
proof (cases rule: rthen_cases)
  case (stop e)
  then show ?thesis using store_call_frame assms(2) by blast
next
  case (go w2 u)
  then show ?thesis using store_call_frame [OF go(1) assms(2)] assms(3) frame_trans by blast
qed

lemma sendAttempt_frame:
  assumes "sendAttempt now ad a w = (w', r)" and "transfers_ok (wd_db w)" and "has_job J (wd_db w) (ta_id a)"
  shows "frame J (wd_db w) (wd_db w')"
proof -
  let ?w = "w\<lparr>wd_sent := wd_sent w @ [a]\<rparr>"
  obtain err k where s: "rthen (store_call (RecordBroadcast now (ta_id a) err) ?w) k = (w', r)"
    and k: "\<And>w x. fst (k w x) = w"
    using assms(1) by (auto simp: sendAttempt_def Let_def split: option.splits)
  have "frame J (wd_db ?w) (wd_db w')"
  proof (rule rthen_frame [OF s])
    show "frame J (wd_db ?w) db'" if "RecordBroadcast now (ta_id a) err (wd_db ?w) = Inr db'" for db'
      using mark_frames(6) [OF assms(2,3)] that by simp
    show "frame J (wd_db w2) (wd_db w')" if "k w2 u = (w', r)" for w2 u using k [of w2 u] that by simp
  qed
  then show ?thesis by simp
qed

section \<open>The driver\<close>

locale framed_adapter = chain_adapter ads for ads :: "chain \<Rightarrow> adapter" +
  assumes build_frame: "world_ok w \<Longrightarrow> ad_build (ads c) req n w = (w', r) \<Longrightarrow> frame top_ups (wd_db w) (wd_db w')"
    and outcome_frame: "world_ok w \<Longrightarrow> has_job J (wd_db w) (ta_id a) \<Longrightarrow> ad_outcome (ads c) a now w = (w', out) \<Longrightarrow>
      frame J (wd_db w) (wd_db w')"
begin

lemma trackSent_frame:
  assumes ok: "world_ok w" and j: "has_job J (wd_db w) (ta_id a)" and t: "trackSent now (ads c) a w = (w', r)"
  shows "frame J (wd_db w) (wd_db w')"
proof -
  obtain w1 q where o: "ad_outcome (ads c) a now w = (w1, q)" by fastforce
  note w1 = outcome [OF ok o] outcome_frame [OF ok j o]
  have tok: "transfers_ok (wd_db w1)" using w1 by (simp add: world_ok_def)
  have j1: "has_job J (wd_db w1) (ta_id a)" using w1 has_job_step j by blast
  have fin: "frame J (wd_db w1) (wd_db w')"
    if "rthen (store_call f w1) k = (w', r)" "\<And>w x. fst (k w x) = w"
      "\<And>db'. f (wd_db w1) = Inr db' \<Longrightarrow> frame J (wd_db w1) db'" for f k
    using that(1)
  proof (rule rthen_frame)
    show "frame J (wd_db w2) (wd_db w')" if "k w2 u = (w', r)" for w2 u
      using \<open>\<And>w x. fst (k w x) = w\<close> [of w2 u] that by simp
  qed (rule that(3))
  have "frame J (wd_db w1) (wd_db w')"
  proof (cases "q = Inr OutPending")
    case True
    define w2 where "w2 = (if sentAttemptStuckAfter < now - ta_created_at a
        then (case MarkStuckAlerted now (ta_id a) (wd_db w1) of Inl _ \<Rightarrow> w1 | Inr (db, _) \<Rightarrow> w1\<lparr>wd_db := db\<rparr>) else w1)"
    have w2: "world_ok w2" "world_step w1 w2"
      using w1 exec_world [of w1 "OpMarkStuckAlerted now (ta_id a)"]
      by (auto simp: w2_def creates_def split: sum.splits)
    have f2: "frame J (wd_db w1) (wd_db w2)"
      using mark_frames(7) [OF tok j1] by (auto simp: w2_def split: sum.splits)
    have "sendAttempt now (ads c) a w2 = (w', r) \<or> w' = w2"
      using t o True by (auto simp: trackSent_def w2_def Let_def split: if_splits option.splits)
    then have "frame J (wd_db w2) (wd_db w')"
      using sendAttempt_frame [of now "ads c" a w2 w' r] has_job_step [OF w2(2) j1] w2(1) by (auto simp: world_ok_def)
    then show ?thesis using f2 frame_trans by blast
  qed (use t o w1 mark_frames [OF tok j1] in \<open>auto simp: trackSent_def split: sum.splits sent_outcome.splits intro!: fin\<close>)
  then show ?thesis using w1 frame_trans by blast
qed

lemma signAndSend_frame:
  assumes ok: "world_ok w" and a: "a \<in> set (attempts (wd_db w))"
    and j: "has_job J (wd_db w) (ta_id a)" and t: "signAndSend now sv (ads c) req a w = (w', r)"
  shows "frame J (wd_db w) (wd_db w')"
  using t
proof (cases rule: signAndSend_cases)
  case (abandon why k)
  have tok: "transfers_ok (wd_db w)" using ok by (simp add: world_ok_def)
  show ?thesis using abandon(1)
  proof (rule rthen_frame)
    show "frame J (wd_db w2) (wd_db w')" if "k w2 u = (w', r)" for w2 u using abandon(2) [of w2 u] that by simp
  qed (rule mark_frames(4) [OF tok j])
next
  case (sign sig h)
  have tok: "transfers_ok (wd_db w)" using ok by (simp add: world_ok_def)
  let ?b = "a\<lparr>ta_status := Signed, ta_signature := Some sig, ta_hash := Some h\<rparr>"
  show ?thesis using sign(5)
  proof (rule rthen_frame)
    fix w2 u
    assume c: "store_call (MarkSigned now (ta_id a) sig h) w = (w2, Inr u)" and s: "sendAttempt now (ads c) ?b w2 = (w', r)"
    note w2 = store_call_ok [OF ok c, of "OpMarkSigned now (ta_id a) sig h", simplified]
    have "has_job J (wd_db w2) (ta_id ?b)" using w2 has_job_step j by (auto simp: creates_def)
    then show "frame J (wd_db w2) (wd_db w')" using sendAttempt_frame [OF s] w2 by (simp add: world_ok_def creates_def)
  qed (rule mark_frames(5) [OF tok j])
qed simp

lemma driveTransfer_frame:
  assumes ok: "world_ok w" and d: "driveTransfer now sv ads req w = (w', r)"
    and J: "(tr_job req, tr_purpose req) \<in> J" "top_ups \<subseteq> J"
  shows "frame J (wd_db w) (wd_db w')"
proof -
  let ?db = "wd_db w" and ?j = "tr_job req" and ?p = "tr_purpose req" and ?ad = "ads (tr_chain req)"
  have tok: "transfers_ok ?db" using ok by (simp add: world_ok_def)
  note d' = d [unfolded driveTransfer_def]
  show ?thesis
  proof (cases "adapterFor ads (tr_chain req) = Inr ?ad \<and> (sg_index (tr_signer req) \<noteq> None \<or> sg_slot (tr_signer req)) \<and>
      ConfirmedAttempt ?db ?j ?p = None")
    case False
    then have "w' = w" using d' by (cases "tr_chain req") (auto simp: adapterFor_def split: if_splits option.splits)
    then show ?thesis by simp
  next
    case go: True
    show ?thesis
    proof (cases "OpenAttempt ?db ?j ?p")
      case (Some a)
      note a = OpenAttempt_Some [OF Some]
      have j: "has_job J ?db (ta_id a)" using has_jobI [OF tok a(1)] a(2) J(1) by simp
      consider (track) "trackSent now ?ad a w = (w', r)"
        | (changed) "rthen (store_call (MarkAbandoned now (ta_id a) (changed_reason req)) w) (\<lambda>w _. (w, Inr None)) = (w', r)"
        | (sign) "signAndSend now sv ?ad req a w = (w', r)"
        using d' go Some by (auto split: if_splits)
      then show ?thesis
      proof cases
        case track
        then show ?thesis by (rule trackSent_frame [OF ok j])
      next
        case changed
        then show ?thesis
        proof (rule rthen_frame)
          show "frame J (wd_db w2) (wd_db w')" if "(w2, Inr None) = (w', r)" for w2 using that by simp
        qed (rule mark_frames(4) [OF tok j])
      next
        case sign
        then show ?thesis by (rule signAndSend_frame [OF ok a(1) j])
      qed
    next
      case None
      obtain w1 q where b: "ad_build ?ad req (CountFailed ?db ?j ?p) w = (w1, q)" by fastforce
      note w1 = build [OF ok b]
      have f1: "frame J ?db (wd_db w1)" using frame_mono [OF build_frame [OF ok b] J(2)] .
      consider "w' = w" | "w' = w1"
        | (created) built db a where "q = Inr built" "CreateAttempt now built (wd_db w1) = Inr (db, a)"
            "signAndSend now sv ?ad req a (w1\<lparr>wd_db := db\<rparr>) = (w', r)"
        using d' go None b by (auto simp: Let_def split: if_splits sum.splits build_error.splits option.splits)
      then show ?thesis
      proof cases
        case created
        have w1w: "w1 = w" and job: "attempt_job built = (?j, ?p)" using w1 created(1) by blast+
        have cr: "CreateAttempt now built ?db = Inr (db, a)" using created(2) w1w by simp
        note c = CreateAttempt_Inr [OF tok cr]
        have e: "transfer_exec (OpCreateAttempt now built) ?db = Inr db" using cr by simp
        have aj: "attempt_job a \<in> J" using job J(1) by (simp add: c(1))
        have rows: "attempts db = attempts ?db @ [a]" by (simp add: c(3))
        then have f2: "frame J ?db db" using aj by (simp add: frame_def)
        have live: "one_live db"
        proof (rule new_live [of ?db a])
          show "one_live ?db" using ok by (simp add: world_ok_def)
          show "\<forall>x \<in> set (attempts ?db). live x \<longrightarrow> attempt_job x \<noteq> attempt_job a"
            using none_live [OF None] go job by (simp add: c(1))
        qed (rule rows)
        have db: "transfers_ok db" "reads_on ?db db"
          using transfer_exec_ok [OF tok e] exec_reads_on [OF tok e] by blast+
        have ok': "world_ok (w\<lparr>wd_db := db\<rparr>)"
          using ok live db sent_ok_keeps [of w db] CreateAttempt_rentals [OF cr]
          by (simp add: world_ok_def rentals_ok_def)
        have a: "a \<in> set (attempts (wd_db (w\<lparr>wd_db := db\<rparr>)))" using rows by simp
        have "frame J db (wd_db w')"
          using signAndSend_frame [OF ok' a has_jobI [OF _ a aj] created(3) [unfolded w1w]] db(1) by simp
        then show ?thesis using f2 frame_trans by blast
      qed (use f1 in auto)
    qed
  qed
qed

end

section \<open>The adapters\<close>

definition pays_top_up :: "(world \<Rightarrow> world \<times> build_error) \<Rightarrow> bool" where
  "pays_top_up f \<longleftrightarrow> (\<forall>w w' e. world_ok w \<longrightarrow> f w = (w', e) \<longrightarrow> frame top_ups (wd_db w) (wd_db w'))"

lemma provision_frame:
  assumes "pays_top_up f" and "world_ok w" and "provision (f w) = (w', r)"
  shows "frame top_ups (wd_db w) (wd_db w')"
  using assms by (auto simp: pays_top_up_def provision_def split: prod.splits)

lemma rentEnergy_frame: "pays_top_up (rentEnergy now env req shortfall)"
  unfolding pays_top_up_def
proof (intro allI impI)
  fix w w' e
  assume r: "rentEnergy now env req shortfall w = (w', e)"
  have c: "CreateRental now q db = Inr (db', x) \<Longrightarrow> attempts db' = attempts db" for q db db' x
    by (auto simp: CreateRental_def Let_def split: if_splits option.splits)
  have f: "attempts (wd_db (finish_rental now i b p ct er v)) = attempts (wd_db v)" for i b p ct er v
    by (simp add: finish_rental_def FinishRental_def)
  have n: "rent_new now env req shortfall k v = (v', e') \<Longrightarrow> attempts (wd_db v') = attempts (wd_db v)" for k v v' e'
    using c by (auto simp: rent_new_def Let_def f split: if_splits sum.splits prod.splits dest: c)
  have "attempts (wd_db w') = attempts (wd_db w)"
    using r by (auto simp: rentEnergy_def Let_def f split: if_splits option.splits prod.splits dest!: n)
  then show "frame top_ups (wd_db w) (wd_db w')" by (rule frame_same)
qed

lemma chain_adapters_framed:
  assumes "\<And>req p n. provisions (t req p n)"
    and "\<And>req n. pays_top_up (t req GAS_TOPUP n)" and "\<And>req n. pays_top_up (t req TRX_TOPUP n)"
  shows "framed_adapter (chain_adapters t now env)"
proof (intro framed_adapter.intro framed_adapter_axioms.intro)
  show "chain_adapter (chain_adapters t now env)" by (rule chain_adapters_law [OF assms(1)])
next
  fix w req n w' r c
  assume w: "world_ok w" and b: "ad_build (chain_adapters t now env c) req n w = (w', r)"
  show "frame top_ups (wd_db w) (wd_db w')"
  proof (cases "c = BSC")
    case True
    then have "bsc_build t env req n w = (w', r)" using b by (simp add: chain_adapters_def bscAdapter_def)
    then have "w' = w \<or> (\<exists>n. provision (t req GAS_TOPUP n w) = (w', r))"
      by (auto simp: bsc_build_def refuse_def Let_def split: sum.splits if_splits)
    then show ?thesis using provision_frame [OF assms(2) w] by blast
  next
    case False
    then have "tron_build t (rentEnergy now env) now env req n w = (w', r)"
      using b by (simp add: chain_adapters_def tronAdapter_def)
    then have "w' = w \<or> (\<exists>n. provision (t req TRX_TOPUP n w) = (w', r)) \<or> (\<exists>n. provision (rentEnergy now env req n w) = (w', r))"
      by (auto simp: tron_build_def tron_finish_def refuse_def split: sum.splits if_splits)
    then show ?thesis using provision_frame [OF assms(3) w] provision_frame [OF rentEnergy_frame w] by blast
  qed
next
  fix w J a c now' w' out
  assume w: "world_ok w" and j: "has_job J (wd_db w) (ta_id a)"
    and o: "ad_outcome (chain_adapters t now env c) a now' w = (w', out)"
  have tok: "transfers_ok (wd_db w)" using w by (simp add: world_ok_def)
  have wn: "watch_nonce now' a since w = (w', out) \<Longrightarrow> frame J (wd_db w) (wd_db w')" for since
    using mark_frames(8) [OF tok j] by (auto simp: watch_nonce_def split: sum.splits)
  show "frame J (wd_db w) (wd_db w')"
  proof (cases "c = BSC")
    case True
    then have "bsc_outcome env a now' w = (w', out)" using o by (simp add: chain_adapters_def bscAdapter_def)
    then have "w' = w \<or> (\<exists>since. watch_nonce now' a since w = (w', out))"
      by (auto simp: bsc_outcome_def split: option.splits sum.splits final_error.splits bool.splits if_splits)
    then show ?thesis using wn by auto
  next
    case False
    then show ?thesis using o by (simp add: chain_adapters_def tronAdapter_def tron_outcome_def)
  qed
qed

interpretation treasury_frames: framed_adapter "treasury_adapters now env" for now env
  unfolding treasury_adapters_def
  by (rule chain_adapters_framed [OF no_top_up_ok]) (simp_all add: pays_top_up_def no_top_up_def)

lemma topUp_frame:
  assumes "p = GAS_TOPUP \<or> p = TRX_TOPUP"
  shows "pays_top_up (topUp now env (treasury_adapters now env) parent p n)"
  unfolding pays_top_up_def
proof (intro allI impI)
  fix w w' e
  assume ok: "world_ok w" and t: "topUp now env (treasury_adapters now env) parent p n w = (w', e)"
  show "frame top_ups (wd_db w) (wd_db w')"
  proof (cases "w' = w")
    case False
    then obtain ty job a r where "driveTransfer now (oe_sv env) (treasury_adapters now env) (topup_request parent p ty job a) w = (w', r)"
      using t by (auto simp: topUp_def Let_def split: if_splits option.splits prod.splits sum.splits)
    then show ?thesis
      by (rule treasury_frames.driveTransfer_frame [OF ok]) (use assms in \<open>auto simp: topup_request_def top_ups_def\<close>)
  qed simp
qed

interpretation frames: framed_adapter "adapters now env" for now env
  unfolding adapters_def by (rule chain_adapters_framed [OF topUp_ok]) (simp_all add: topUp_frame)

lemma trackTopUps_frame:
  assumes ok: "world_ok w" and t: "trackTopUps now env w = (w', r)"
  shows "frame top_ups (wd_db w) (wd_db w')"
proof -
  have "frame top_ups (wd_db v) (wd_db w')"
    if "world_ok v" "\<forall>a \<in> set as. followable v a \<and> has_job top_ups (wd_db v) (ta_id a)" "distinct (map ta_id as)"
      "trackTopUps_loop now env as v = (w', r)" for as v
    using that
  proof (induction as arbitrary: v)
    case (Cons a as)
    have j: "has_job top_ups (wd_db v) (ta_id a)" using Cons.prems(2) by simp
    have tok: "transfers_ok (wd_db v)" using Cons.prems(1) by (simp add: world_ok_def)
    have step: "frame top_ups (wd_db v) (wd_db w')"
      if u: "world_ok u" "world_step v u" "frame top_ups (wd_db v) (wd_db u)"
        and others: "\<And>i. i \<noteq> ta_id a \<Longrightarrow> attempt_status_of (wd_db u) i = attempt_status_of (wd_db v) i"
        and rest: "trackTopUps_loop now env as u = (w', r)" for u
    proof -
      have "\<forall>x \<in> set as. followable u x \<and> has_job top_ups (wd_db u) (ta_id x)"
      proof
        fix x
        assume x: "x \<in> set as"
        then have "ta_id x \<noteq> ta_id a" using Cons.prems(3) by (auto simp: image_iff)
        then show "followable u x \<and> has_job top_ups (wd_db u) (ta_id x)"
          using followable_later [OF _ u(2)] has_job_step [OF u(2)] Cons.prems(2) x others by auto
      qed
      then show ?thesis using Cons.IH [OF u(1)] Cons.prems(3) rest u(3) frame_trans by auto
    qed
    show ?case
    proof (cases "MayLand (ta_status a)")
      case False
      let ?call = "store_call (MarkAbandoned now (ta_id a) ''no longer needed before it was signed'') v"
      define u where "u = (if staleUnsignedTopUp < now - ta_created_at a then fst ?call else v)"
      obtain x y where c: "?call = (x, y)" by fastforce
      have "world_ok u \<and> world_step v u"
        using store_call_ok [OF Cons.prems(1) c, of "OpMarkAbandoned now (ta_id a) ''no longer needed before it was signed''"]
          Cons.prems(1) c by (auto simp: u_def creates_def)
      moreover have "attempt_status_of (wd_db u) i = attempt_status_of (wd_db v) i" if "i \<noteq> ta_id a" for i
        using store_call_others [OF c marks_others(4) [OF that]] c by (simp add: u_def)
      moreover have "frame top_ups (wd_db v) (wd_db u)"
        using store_call_frame [OF c mark_frames(4) [OF tok j]] c by (simp add: u_def)
      ultimately show ?thesis using step [of u] Cons.prems(4) False by (simp add: u_def)
    next
      case True
      show ?thesis
      proof (cases "adapterFor (adapters now env) (ta_chain a)")
        case (Inl e)
        then show ?thesis using Cons.prems(4) True by simp
      next
        case (Inr ad)
        then have ad: "ad = adapters now env (ta_chain a)" by (auto simp: adapterFor_def split: chain.splits)
        obtain u y where s: "trackSent now ad a v = (u, y)" by fastforce
        have "world_ok u \<and> world_step v u"
          using chains.trackSent_ok [OF Cons.prems(1) _ _ _ True s [unfolded ad]] Cons.prems(2) True
          by (auto simp: followable_def)
        then show ?thesis
          using step [of u] chains.trackSent_others [OF Cons.prems(1) s [unfolded ad]]
            frames.trackSent_frame [OF Cons.prems(1) j s [unfolded ad]] Cons.prems(4) True Inr s by simp
      qed
    qed
  qed simp
  note loop = this
  let ?open = "ListOpen (wd_db w) [GAS_TOPUP, TRX_TOPUP]"
  have tok: "transfers_ok (wd_db w)" using ok by (simp add: world_ok_def)
  have "followable w a \<and> has_job top_ups (wd_db w) (ta_id a)" if "a \<in> set ?open" for a
    using that sent_row [OF tok] attempt_at_mem [OF tok] has_jobI [OF tok, of a top_ups]
    by (auto simp: ListOpen_def followable_def attempt_status_of_def top_ups_def attempt_job_def)
  moreover have "distinct (map ta_id ?open)"
    using tok by (auto simp: ListOpen_def transfers_ok_def strict_sorted_iff distinct_map inj_on_def)
  ultimately show ?thesis using loop [OF ok] t [unfolded trackTopUps_def] by blast
qed

end
