(* ===== verification/Orch_Sys.thy ===== *)
theory Orch_Sys
  imports Ledger_Api_Inv Pricing Sweeps Drive_Frame
begin

text \<open>
  The state of a running relayd and the calls its ticks are made of
  (\<open>relayd/internal/orchestrate/orchestrate.go\<close>).

  \<^item> \<open>sys\<close> is what the struct \<open>Orchestrator\<close> reaches: its stores (the legs, the attempts with what was
    sent, the sweeps), the ledger behind its client, and the fields it keeps in memory.
  \<^item> An action is a function from \<open>sys\<close> to the next state and an error or a value; \<open>andthen\<close> is the
    sequencing that an \<open>if err != nil { return err }\<close> gives.
  \<^item> Every call to a store, the ledger or a service is a \<open>call\<close>. It takes the next \<open>fault\<close>: before it,
    other services may run operations of the ledger, and relayd's own HTTP API may create a leg or
    record a deposit; then the call is \<open>Answered\<close>, \<open>Refused\<close> (it
    had no effect) or \<open>Unheard\<close> (it took effect, but the caller got an error). A list of refused
    calls stands for a crash. When the faults are used up every call is answered.
  \<^item> \<open>tick_env\<close> holds what a tick is configured with and what the outside answers. An answer and a
    reading of the clock may depend on the number of calls made before, so asking twice may give
    two answers.
\<close>

section \<open>Vendors and watchers\<close>

datatype swap_status =
    AwaitingDeposit | Confirming | Exchanging | Sending | Complete | SwapFailed | SwapExpired
  | NeedsAttention | OtherSwap string

record swap_order =
  so_provider :: string
  so_id :: string
  so_deposit :: string
  so_destination :: string
  so_status :: swap_status
  so_amount_in :: amount
  so_out_expected :: amount
  so_out_actual :: "amount option"
  so_payout :: "string option"

record pair =
  pr_from :: asset
  pr_to :: asset

record scan_status =
  sc_pending :: int
  sc_through :: time

datatype retire_error = NoLease | RetireError string

text \<open>A watcher may lack the interfaces \<open>ScanReporter\<close> and \<open>LeaseReleaser\<close>.\<close>

record watcher =
  wt_get :: "nat \<Rightarrow> int64 \<Rightarrow> string + string \<times> 32 word option"
  wt_scan :: "(nat \<Rightarrow> int64 \<Rightarrow> string + scan_status) option"
  wt_retire :: "(nat \<Rightarrow> int64 \<Rightarrow> string \<Rightarrow> string \<Rightarrow> retire_error + unit) option"

record token_transfer =
  tt_token :: string
  tt_to :: string
  tt_amount :: int

type_synonym payout_reader = "nat \<Rightarrow> string \<Rightarrow> string + token_transfer list \<times> bool"

section \<open>The state\<close>

record fault =
  ft_others :: "(time \<times> ledger_op) list"
  ft_legs :: "leg_op list"
  ft_reply :: reply

record sys =
  sy_legs :: relay_db
  sy_world :: world
  sy_ledger :: ledger_server
  sy_sweeps :: sweeps_db
  sy_renewals :: "(string \<times> nat) list"
  sy_retry_at :: "(string \<times> time) list"
  sy_last_scan :: "time option"
  sy_faults :: "fault list"
  sy_calls :: nat

record tick_env =
  te_now :: "nat \<Rightarrow> time"
  te_digest :: "hash_payload \<Rightarrow> hash"
  te_actor :: string
  te_orch :: "nat \<Rightarrow> orch_env"
  te_create :: "nat \<Rightarrow> pair \<Rightarrow> amount \<Rightarrow> string \<Rightarrow> string + swap_order"
  te_named :: "(nat \<Rightarrow> string \<Rightarrow> string \<Rightarrow> string + swap_order) option"
  te_get :: "nat \<Rightarrow> string \<Rightarrow> string + swap_order"
  te_bep20 :: "watcher option"
  te_tron :: "watcher option"
  te_evm_payouts :: "payout_reader option"
  te_tron_payouts :: "payout_reader option"
  te_pricing :: "settings option"
  te_sweeping :: bool
  te_forwarding_timeout :: time
  te_stale_after :: time
  te_grace :: time
  te_sweep_bsc :: string
  te_sweep_tron :: string

datatype orch_error =
    Unavailable | LegFailure relay_error | LedgerFailure client_error | AttemptFailure transfer_error
  | SweepFailure sweep_error | DriveFailure drive_error | VendorFailure string | WatcherFailure string
  | ReaderFailure string | PricingFailure pricing_error | AmountFailure money_error | Broken string | OutOfFuel
  | BadRequest string | Conflict | NotEligible string

type_synonym 'a act = "sys \<Rightarrow> sys \<times> (orch_error + 'a)"

section \<open>Actions\<close>

definition ret :: "'a \<Rightarrow> 'a act" where
  "ret x s = (s, Inr x)"

definition fail :: "orch_error \<Rightarrow> 'a act" where
  "fail e s = (s, Inl e)"

definition andthen :: "'a act \<Rightarrow> ('a \<Rightarrow> 'b act) \<Rightarrow> 'b act" where
  "andthen m k s = rthen (m s) (\<lambda>s x. k x s)"

text \<open>An error that is looked at, and one that is only logged.\<close>

definition attempted :: "'a act \<Rightarrow> (orch_error + 'a) act" where
  "attempted m s = map_prod id Inr (m s)"

definition logged :: "'a act \<Rightarrow> unit act" where
  "logged m s = (fst (m s), Inr ())"

definition lift :: "('e \<Rightarrow> orch_error) \<Rightarrow> 'e + 'a \<Rightarrow> 'a act" where
  "lift f r = (case r of Inl e \<Rightarrow> fail (f e) | Inr x \<Rightarrow> ret x)"

text \<open>A loop whose body's errors are logged, and one that stops at an error.\<close>

fun each :: "('a \<Rightarrow> unit act) \<Rightarrow> 'a list \<Rightarrow> unit act" where
  "each f [] = ret ()"
| "each f (x # xs) = andthen (logged (f x)) (\<lambda>_. each f xs)"

fun every :: "('a \<Rightarrow> unit act) \<Rightarrow> 'a list \<Rightarrow> unit act" where
  "every f [] = ret ()"
| "every f (x # xs) = andthen (f x) (\<lambda>_. every f xs)"

definition with_clock :: "tick_env \<Rightarrow> (time \<Rightarrow> 'a act) \<Rightarrow> 'a act" where
  "with_clock te k s = k (te_now te (sy_calls s)) s"

section \<open>Calls\<close>

text \<open>The two writes of the HTTP API to the legs.\<close>

definition api_op :: "leg_op \<Rightarrow> bool" where
  "api_op opn = (case opn of OpCreateLeg _ _ \<Rightarrow> True | OpRecordDeposit _ _ _ _ _ \<Rightarrow> True | _ \<Rightarrow> False)"

definition meanwhile :: "leg_op list \<Rightarrow> relay_db \<Rightarrow> relay_db" where
  "meanwhile ops = run_ops leg_exec (filter api_op ops)"

definition next_fault :: "tick_env \<Rightarrow> sys \<Rightarrow> sys \<times> reply" where
  "next_fault te s =
     (let s = s\<lparr>sy_calls := Suc (sy_calls s)\<rparr> in
      case sy_faults s of
        [] \<Rightarrow> (s, Answered)
      | f # fs \<Rightarrow> (s\<lparr>sy_faults := fs, sy_legs := meanwhile (ft_legs f) (sy_legs s),
            sy_ledger := others (te_digest te) (ft_others f) (sy_ledger s)\<rparr>, ft_reply f))"

definition call :: "tick_env \<Rightarrow> 'a act \<Rightarrow> 'a act" where
  "call te f s =
     (case next_fault te s of
        (s, Answered) \<Rightarrow> f s
      | (s, Refused) \<Rightarrow> (s, Inl Unavailable)
      | (s, Unheard) \<Rightarrow> (fst (f s), Inl Unavailable))"

definition leg_read :: "tick_env \<Rightarrow> (relay_db \<Rightarrow> relay_error + 'a) \<Rightarrow> 'a act" where
  "leg_read te f = call te (\<lambda>s. lift LegFailure (f (sy_legs s)) s)"

definition leg_update :: "tick_env \<Rightarrow> (time \<Rightarrow> relay_db \<Rightarrow> relay_error + relay_db \<times> 'a) \<Rightarrow> 'a act" where
  "leg_update te f = call te (\<lambda>s.
     case f (te_now te (sy_calls s)) (sy_legs s) of
       Inl e \<Rightarrow> (s, Inl (LegFailure e)) | Inr (db, x) \<Rightarrow> (s\<lparr>sy_legs := db\<rparr>, Inr x))"

definition leg_write :: "tick_env \<Rightarrow> (time \<Rightarrow> relay_db \<Rightarrow> relay_error + relay_db) \<Rightarrow> unit act" where
  "leg_write te f = leg_update te (\<lambda>now db. rbind (f now db) (\<lambda>db'. Inr (db', ())))"

definition attempt_read :: "tick_env \<Rightarrow> (transfer_db \<Rightarrow> 'a) \<Rightarrow> 'a act" where
  "attempt_read te f = call te (\<lambda>s. (s, Inr (f (wd_db (sy_world s)))))"

definition attempt_write :: "tick_env \<Rightarrow> (time \<Rightarrow> transfer_db \<Rightarrow> transfer_error + transfer_db) \<Rightarrow> unit act" where
  "attempt_write te f = call te (\<lambda>s.
     case f (te_now te (sy_calls s)) (wd_db (sy_world s)) of
       Inl e \<Rightarrow> (s, Inl (AttemptFailure e))
     | Inr db \<Rightarrow> (s\<lparr>sy_world := (sy_world s)\<lparr>wd_db := db\<rparr>\<rparr>, Inr ()))"

definition sweep_read :: "tick_env \<Rightarrow> (sweeps_db \<Rightarrow> relay_db \<Rightarrow> sweep_error + 'a) \<Rightarrow> 'a act" where
  "sweep_read te f = call te (\<lambda>s. lift SweepFailure (f (sy_sweeps s) (sy_legs s)) s)"

definition sweep_update :: "tick_env \<Rightarrow> (time \<Rightarrow> sweeps_db \<Rightarrow> sweep_error + sweeps_db \<times> 'a) \<Rightarrow> 'a act" where
  "sweep_update te f = call te (\<lambda>s.
     case f (te_now te (sy_calls s)) (sy_sweeps s) of
       Inl e \<Rightarrow> (s, Inl (SweepFailure e)) | Inr (db, x) \<Rightarrow> (s\<lparr>sy_sweeps := db\<rparr>, Inr x))"

definition ledger_read :: "tick_env \<Rightarrow> (ledger_server \<Rightarrow> client_error + 'a) \<Rightarrow> 'a act" where
  "ledger_read te f = call te (\<lambda>s. lift LedgerFailure (f (sy_ledger s)) s)"

definition ledger_call ::
  "tick_env \<Rightarrow> (time \<Rightarrow> ledger_server \<Rightarrow> ledger_server \<times> (client_error + 'a)) \<Rightarrow> 'a act" where
  "ledger_call te f = call te (\<lambda>s.
     case f (te_now te (sy_calls s)) (sy_ledger s) of
       (srv, r) \<Rightarrow> lift LedgerFailure r (s\<lparr>sy_ledger := srv\<rparr>))"

definition asked :: "tick_env \<Rightarrow> (nat \<Rightarrow> orch_error + 'a) \<Rightarrow> 'a act" where
  "asked te f = call te (\<lambda>s. (s, f (sy_calls s)))"

definition tag :: "('e \<Rightarrow> orch_error) \<Rightarrow> 'e + 'a \<Rightarrow> orch_error + 'a" where
  "tag f r = (case r of Inl e \<Rightarrow> Inl (f e) | Inr x \<Rightarrow> Inr x)"

section \<open>The fields in memory\<close>

definition renewals_of :: "string \<Rightarrow> nat act" where
  "renewals_of ext s = (s, Inr (case map_of (sy_renewals s) ext of None \<Rightarrow> 0 | Some n \<Rightarrow> n))"

definition set_renewals :: "string \<Rightarrow> nat \<Rightarrow> unit act" where
  "set_renewals ext n s = (s\<lparr>sy_renewals := AList.update ext n (sy_renewals s)\<rparr>, Inr ())"

definition retry_at :: "string \<Rightarrow> time option act" where
  "retry_at ext s = (s, Inr (map_of (sy_retry_at s) ext))"

definition set_retry_at :: "string \<Rightarrow> time \<Rightarrow> unit act" where
  "set_retry_at ext t s = (s\<lparr>sy_retry_at := AList.update ext t (sy_retry_at s)\<rparr>, Inr ())"

text \<open>Whether the interval has passed since the last scan; if so, the scan is noted.\<close>

definition scan_due :: "time \<Rightarrow> time \<Rightarrow> bool act" where
  "scan_due now interval s =
     (let due = (case sy_last_scan s of None \<Rightarrow> True | Some t \<Rightarrow> interval \<le> now - t) in
      (if due then s\<lparr>sy_last_scan := Some now\<rparr> else s, Inr due))"

end
