(* ===== verification/Orchestrate.thy ===== *)
theory Orchestrate
  imports Orch_Sys
begin

text \<open>
  The ticks of relayd (\<open>relayd/internal/orchestrate\<close>: \<open>runloop.go\<close>, \<open>forward.go\<close>, \<open>settle.go\<close>,
  \<open>refund.go\<close>, \<open>lease.go\<close>, \<open>payout.go\<close>, \<open>amounts.go\<close>, \<open>deposit_address.go\<close>, \<open>reconcile.go\<close>,
  \<open>sweep.go\<close> and \<open>checkVendorOrder\<close> of \<open>preflight.go\<close>): each function under its own name, as an action.
  Logs, alerts and the map of alerts already fired are left out.
\<close>

section \<open>Accounts and amounts\<close>

definition upstreamPairFor :: "leg_direction \<Rightarrow> pair" where
  "upstreamPairFor d =
     (if d = TRC20ToBEP20 then \<lparr>pr_from = USDT_TRC20, pr_to = USDT_BEP20\<rparr>
      else \<lparr>pr_from = USDT_BEP20, pr_to = USDT_TRC20\<rparr>)"

definition customerAccountCode :: "string \<Rightarrow> asset \<Rightarrow> string" where
  "customerAccountCode c a = ''liability:customer:'' @ c @ '':'' @ asset_str a"

definition relayLegAccountCode :: "int64 \<Rightarrow> string" where
  "relayLegAccountCode i = ''asset:relay:leg:'' @ FormatInt i"

definition relayLegForwardingAccountCode :: "int64 \<Rightarrow> string" where
  "relayLegForwardingAccountCode i = ''asset:relay:leg:forwarding:'' @ FormatInt i"

definition commissionAccountCode :: "asset \<Rightarrow> string" where
  "commissionAccountCode a = ''revenue:relay_commission:'' @ asset_str a"

definition commissionWalletAccountCode :: "asset \<Rightarrow> string" where
  "commissionWalletAccountCode a = ''asset:relay:commission_wallet:'' @ asset_str a"

definition treasuryAccountCode :: "asset \<Rightarrow> string" where
  "treasuryAccountCode a = ''asset:relay:treasury:'' @ asset_str a"

definition forwardAmount :: "amount \<Rightarrow> amount \<Rightarrow> money_error + amount" where
  "forwardAmount amountIn feeUnits = Sub amountIn feeUnits"

fun direction_str :: "leg_direction \<Rightarrow> string" where
  "direction_str TRC20ToBEP20 = ''TRC20_TO_BEP20''"
| "direction_str BEP20ToTRC20 = ''BEP20_TO_TRC20''"
| "direction_str (OtherDirection s) = s"

definition receivedFor :: "leg \<Rightarrow> remote_order \<Rightarrow> amount" where
  "receivedFor l ord = (case lg_received l of Some a \<Rightarrow> a | None \<Rightarrow> ro_amount_in ord)"

definition profitFor :: "leg \<Rightarrow> remote_order \<Rightarrow> amount" where
  "profitFor l ord = (case lg_profit l of Some a \<Rightarrow> a | None \<Rightarrow> ro_fee ord)"

definition flat_pricing :: "int64 \<Rightarrow> int64 \<Rightarrow> pricing" where
  "flat_pricing bps m =
     \<lparr>pc_bps = bps, pc_min = m, pc_min_in = 0, pc_max_in = 0, pc_directions = []\<rparr>"

definition pricingFor :: "tick_env \<Rightarrow> leg \<Rightarrow> remote_order \<Rightarrow> pricing act" where
  "pricingFor te l ord =
     (case lg_profit_bps l of
        Some bps \<Rightarrow> ret (flat_pricing bps (case lg_min_profit l of None \<Rightarrow> 0 | Some m \<Rightarrow> m))
      | None \<Rightarrow>
        (case te_pricing te of
           Some st \<Rightarrow> asked te (\<lambda>_. tag PricingFailure (rbind (GetPricing st) (\<lambda>c. Inr (For c (direction_str (lg_direction l))))))
         | None \<Rightarrow> ret (flat_pricing 0 (amt_units (ro_fee ord)))))"

text \<open>The administrator's minimum, when it can be read.\<close>

definition under_minimum :: "tick_env \<Rightarrow> leg \<Rightarrow> amount \<Rightarrow> bool act" where
  "under_minimum te l received =
     (case te_pricing te of
        None \<Rightarrow> ret False
      | Some st \<Rightarrow>
        if amt_units received <s amt_units (lg_amount_in l) then
          andthen (attempted (asked te (\<lambda>_. tag PricingFailure (GetPricing st)))) (\<lambda>r.
          ret (case r of Inl _ \<Rightarrow> False | Inr current \<Rightarrow> amt_units received <s pc_min_in current))
        else ret False)"

definition recordDeposit :: "tick_env \<Rightarrow> leg \<Rightarrow> remote_order \<Rightarrow> (leg \<times> bool) act" where
  "recordDeposit te l ord =
     (case lg_received l of
        Some rc \<Rightarrow>
          ret (l, (case (lg_profit l, lg_forward l) of
             (Some p, Some f) \<Rightarrow> amt_units p + amt_units f \<noteq> amt_units rc | _ \<Rightarrow> True))
      | None \<Rightarrow>
        andthen (ledger_read te (lc_AccountBalance (relayLegAccountCode (lg_order_id l)))) (\<lambda>received.
        if amt_units received \<le>s 0 then fail (Broken ''no deposit is booked'')
        else if amt_asset received \<noteq> amt_asset (lg_amount_in l) then fail (Broken ''deposit booked in another asset'')
        else
          andthen (pricingFor te l ord) (\<lambda>cfg.
          andthen (case Split cfg received of None \<Rightarrow> ret None
                   | Some pf \<Rightarrow> andthen (under_minimum te l received) (\<lambda>small. ret (if small then None else Some pf)))
            (\<lambda>split.
          let (profit, forward) = (case split of Some pf \<Rightarrow> pf | None \<Rightarrow> (Amount (amt_asset received) 0, received));
              sender = (case ro_sender ord of None \<Rightarrow> '''' | Some a \<Rightarrow> a) in
          andthen (leg_update te (\<lambda>_. RecordDeposit (lg_external_id l) received sender profit forward)) (\<lambda>recorded.
          ret (recorded, split = None))))))"

section \<open>The vendor\<close>

definition vendor_answer :: "tick_env \<Rightarrow> nat \<Rightarrow> leg \<Rightarrow> orch_error + swap_order" where
  "vendor_answer te n l =
     (case lg_upstream_order l of
        None \<Rightarrow> Inl (Broken ''leg has no upstream order recorded'')
      | Some i \<Rightarrow> tag VendorFailure
          (case (te_named te, lg_provider l) of (Some g, Some p) \<Rightarrow> g n p i | _ \<Rightarrow> te_get te n i))"

definition vendorOrder :: "tick_env \<Rightarrow> leg \<Rightarrow> swap_order act" where
  "vendorOrder te l = asked te (\<lambda>n. vendor_answer te n l)"

definition checkVendorOrder :: "tick_env \<Rightarrow> nat \<Rightarrow> leg \<Rightarrow> transfer_intent \<Rightarrow> string option" where
  "checkVendorOrder te n l i =
     (case vendor_answer te n l of
        Inl _ \<Rightarrow> Some ''confirming upstream order before sending''
      | Inr v \<Rightarrow>
        (let eth = oe_eth (te_orch te n) in
         joinProblems
           ((if so_status v \<noteq> AwaitingDeposit then [''vendor order is not awaiting a deposit''] else []) @
            (if \<not> sameAddress eth (so_deposit v) (ti_recipient i) then [''vendor expects the deposit elsewhere''] else []) @
            (if so_amount_in v \<noteq> ti_amount i then [''vendor expects another amount''] else []) @
            (if so_destination v \<noteq> '''' \<and> \<not> sameAddress eth (so_destination v) (lg_destination l)
             then [''vendor will pay out to another address''] else []))))"

definition reverifyDepositAddress :: "tick_env \<Rightarrow> nat \<Rightarrow> leg \<Rightarrow> string option" where
  "reverifyDepositAddress te n l =
     (case lg_direction l of
        OtherDirection _ \<Rightarrow> Some ''unrecognized direction''
      | d \<Rightarrow>
        (case (lg_deposit_index l, if d = BEP20ToTRC20 then te_bep20 te else te_tron te) of
           (None, _) \<Rightarrow> Some ''leg has no deposit_derivation_index recorded''
         | (Some _, None) \<Rightarrow> Some ''no watcher is configured''
         | (Some i, Some w) \<Rightarrow>
           (case wt_get w n (lg_order_id l) of
              Inl e \<Rightarrow> Some e
            | Inr (addr, index) \<Rightarrow>
              if addr \<noteq> lg_deposit_address l \<or> index \<noteq> Some i then Some ''deposit address mismatch'' else None)))"

section \<open>Driving a transfer\<close>

definition drive_env :: "tick_env \<Rightarrow> nat \<Rightarrow> orch_env" where
  "drive_env te n =
     (let env = te_orch te n in
      env\<lparr>oe_sv := (oe_sv env)\<lparr>sv_reverify := reverifyDepositAddress te n, sv_vendor := checkVendorOrder te n\<rparr>\<rparr>)"

definition drive :: "tick_env \<Rightarrow> transfer_request \<Rightarrow> attempt option act" where
  "drive te req = call te (\<lambda>s.
     let n = sy_calls s; env = drive_env te n in
     case driveTransfer (te_now te n) (oe_sv env) (adapters (te_now te n) env) req (sy_world s) of
       (w, r) \<Rightarrow> (s\<lparr>sy_world := w\<rparr>, tag DriveFailure r))"

definition track_top_ups :: "tick_env \<Rightarrow> unit act" where
  "track_top_ups te = call te (\<lambda>s.
     let n = sy_calls s in
     case trackTopUps (te_now te n) (drive_env te n) (sy_world s) of
       (w, r) \<Rightarrow> (s\<lparr>sy_world := w\<rparr>, tag DriveFailure r))"

section \<open>Starting to forward\<close>

definition get_order :: "tick_env \<Rightarrow> string \<Rightarrow> remote_order act" where
  "get_order te ext = ledger_read te (lc_GetOrder ext)"

definition ensure_account :: "tick_env \<Rightarrow> string \<Rightarrow> string \<Rightarrow> string \<Rightarrow> unit act" where
  "ensure_account te code ty a = ledger_call te (\<lambda>now. lc_EnsureAccount now code ty a)"

definition transition_with_entry ::
  "tick_env \<Rightarrow> string \<Rightarrow> string \<Rightarrow> int \<Rightarrow> string \<Rightarrow> (string \<times> string \<times> amount) list \<Rightarrow> string \<Rightarrow> remote_order act" where
  "transition_with_entry te ext to ver reason ls key =
     ledger_call te (\<lambda>now. lc_TransitionWithEntry (te_digest te) (te_actor te) now ext to ver reason reason now ls key)"

definition postForwardStartEntry :: "tick_env \<Rightarrow> leg \<Rightarrow> unit act" where
  "postForwardStartEntry te l =
     (let ext = lg_external_id l in
      andthen (get_order te ext) (\<lambda>ord.
      if ro_state ord \<noteq> ''screened'' then ret ()
      else
        (let fromAccount = relayLegAccountCode (lg_order_id l);
             toAccount = relayLegForwardingAccountCode (lg_order_id l);
             received = receivedFor l ord; a = asset_str (amt_asset received) in
         andthen (ensure_account te toAccount ''ASSET'' a) (\<lambda>_.
         andthen (lift AmountFailure (Neg received)) (\<lambda>neg.
         andthen (transition_with_entry te ext ''dispatching'' (ro_version ord) ''relay_forward_start''
           [(toAccount, a, received), (fromAccount, a, neg)] (''relayd:forward_start:'' @ ext)) (\<lambda>_.
         ret ()))))))"

definition postScreenedRefundEntry :: "tick_env \<Rightarrow> leg \<Rightarrow> unit act" where
  "postScreenedRefundEntry te l =
     (let ext = lg_external_id l in
      andthen (get_order te ext) (\<lambda>ord.
      if ro_state ord = ''refunded'' then ret ()
      else if ro_state ord \<noteq> ''screened'' then fail (Broken ''order is not screened -- cannot post the refund entry'')
      else
        (let customerAccount = customerAccountCode (ro_customer_id ord) (amt_asset (ro_amount_in ord));
             a = asset_str (amt_asset (ro_amount_in ord)); received = receivedFor l ord in
         andthen (lift AmountFailure (Neg received)) (\<lambda>neg.
         andthen (transition_with_entry te ext ''refunded'' (ro_version ord) ''relay_refund''
           [(customerAccount, a, received), (relayLegAccountCode (lg_order_id l), a, neg)]
           (''relayd:refund_awaiting:'' @ ext)) (\<lambda>_.
         ret ())))))"

definition mark_refund_pending :: "tick_env \<Rightarrow> leg \<Rightarrow> unit act" where
  "mark_refund_pending te l = leg_write te (\<lambda>now. MarkRefundPending now (lg_external_id l))"

definition startAwaitingDepositRefund :: "tick_env \<Rightarrow> leg \<Rightarrow> unit act" where
  "startAwaitingDepositRefund te l =
     andthen (case lg_received l of
        Some _ \<Rightarrow> ret l
      | None \<Rightarrow> andthen (get_order te (lg_external_id l)) (\<lambda>ord.
          andthen (recordDeposit te l ord) (\<lambda>(recorded, _). ret recorded))) (\<lambda>l.
     andthen (postScreenedRefundEntry te l) (\<lambda>_.
     mark_refund_pending te l))"

definition create_and_forward :: "tick_env \<Rightarrow> string \<Rightarrow> leg \<Rightarrow> leg \<Rightarrow> amount \<Rightarrow> unit act" where
  "create_and_forward te ext l recorded toForward =
     andthen (asked te (\<lambda>n. tag VendorFailure
       (te_create te n (upstreamPairFor (lg_direction l)) toForward (lg_destination l)))) (\<lambda>v.
     andthen (leg_write te (\<lambda>now. MarkForwarding now ext (so_provider v) (so_id v) (so_deposit v))) (\<lambda>_.
     andthen (logged (leg_write te (\<lambda>_. RecordVendorFee ext (amt_units toForward - amt_units (so_out_expected v))))) (\<lambda>_.
     postForwardStartEntry te recorded)))"

definition start_recorded :: "tick_env \<Rightarrow> string \<Rightarrow> leg \<Rightarrow> leg \<Rightarrow> bool \<Rightarrow> unit act" where
  "start_recorded te ext l recorded tooSmall =
     (if tooSmall then startAwaitingDepositRefund te recorded
      else case lg_forward recorded of
        None \<Rightarrow> fail (Broken ''nil forward amount'')
      | Some toForward \<Rightarrow> create_and_forward te ext l recorded toForward)"

definition start_awaiting :: "tick_env \<Rightarrow> string \<Rightarrow> leg \<Rightarrow> unit act" where
  "start_awaiting te ext l =
     andthen (leg_write te (\<lambda>now. MarkForwardAttemptStarted now ext)) (\<lambda>_.
     andthen (get_order te ext) (\<lambda>ord.
     if ro_tier ord \<noteq> ''RELAY'' then fail (Broken ''order is not RELAY'')
     else andthen (recordDeposit te l ord) (\<lambda>(recorded, tooSmall). start_recorded te ext l recorded tooSmall)))"

definition startOne :: "tick_env \<Rightarrow> string \<Rightarrow> unit act" where
  "startOne te ext =
     andthen (attempted (leg_read te (\<lambda>db. Leg_GetByExternalID db ext))) (\<lambda>r.
     case r of
       Inl e \<Rightarrow> if e = LegFailure ErrLegNotFound then ret () else fail e
     | Inr l \<Rightarrow>
       if lg_status l = AWAITING_DEPOSIT then start_awaiting te ext l
       else if lg_status l = FORWARDING then postForwardStartEntry te l
       else ret ())"

text \<open>The pages of orders in one state. The loop ends on a short page or a cursor that stays; \<open>fuel\<close>
  bounds the number of pages.\<close>

fun for_orders :: "nat \<Rightarrow> tick_env \<Rightarrow> string \<Rightarrow> (string \<Rightarrow> unit act) \<Rightarrow> cursor option \<Rightarrow> unit act" where
  "for_orders 0 te st body cur = fail OutOfFuel"
| "for_orders (Suc fuel) te st body cur =
     andthen (ledger_read te (lc_ListOrdersByState st cur)) (\<lambda>(refs, next).
     andthen (each body refs) (\<lambda>_.
     if int (length refs) < DefaultPollLimit \<or> next = None \<or> next = cur then ret ()
     else for_orders fuel te st body next))"

text \<open>As many pages as there are orders in the ledger and operations of others still to come, and one more.\<close>

definition page_fuel :: "sys \<Rightarrow> nat" where
  "page_fuel s = Suc (length (orders (ls_db (sy_ledger s))) + sum_list (map (length \<circ> ft_others) (sy_faults s)))"

definition startScreenedLegs :: "tick_env \<Rightarrow> unit act" where
  "startScreenedLegs te s = for_orders (page_fuel s) te ''screened'' (startOne te) None s"

section \<open>Forwarding\<close>

definition maxVendorOrderRenewals :: nat where "maxVendorOrderRenewals = 3"

definition forwardAmountFor :: "tick_env \<Rightarrow> leg \<Rightarrow> amount act" where
  "forwardAmountFor te l =
     (case lg_forward l of
        Some a \<Rightarrow> ret a
      | None \<Rightarrow> andthen (get_order te (lg_external_id l)) (\<lambda>ord.
          lift AmountFailure (forwardAmount (lg_amount_in l) (ro_fee ord))))"

definition replace_vendor_order :: "tick_env \<Rightarrow> leg \<Rightarrow> string \<Rightarrow> amount \<Rightarrow> nat \<Rightarrow> leg option act" where
  "replace_vendor_order te l old amount n =
     (let ext = lg_external_id l in
      andthen (asked te (\<lambda>k. tag VendorFailure
        (te_create te k (upstreamPairFor (lg_direction l)) amount (lg_destination l)))) (\<lambda>v.
      andthen (leg_write te (\<lambda>now. ReplaceVendorOrder now ext old (so_provider v) (so_id v) (so_deposit v))) (\<lambda>_.
      andthen (set_renewals ext (n + 1)) (\<lambda>_.
      ret (Some (l\<lparr>lg_provider := Some (so_provider v), lg_upstream_order := Some (so_id v),
        lg_upstream_address := Some (so_deposit v)\<rparr>))))))"

definition renewExpiredVendorOrder :: "tick_env \<Rightarrow> leg \<Rightarrow> amount \<Rightarrow> leg option act" where
  "renewExpiredVendorOrder te l amount =
     (let ext = lg_external_id l in
      case lg_upstream_order l of
        None \<Rightarrow> ret None
      | Some old \<Rightarrow>
        andthen (attempt_read te (\<lambda>db. OpenAttempt db ext FORWARD)) (\<lambda>opn.
        if (case opn of Some a \<Rightarrow> MayLand (ta_status a) | None \<Rightarrow> False) then ret None
        else
          andthen (attempt_read te (\<lambda>db. ConfirmedAttempt db ext FORWARD)) (\<lambda>confirmed.
          if confirmed \<noteq> None then ret None
          else
            andthen (attempted (vendorOrder te l)) (\<lambda>current.
            if (case current of Inl _ \<Rightarrow> True | Inr v \<Rightarrow> so_status v \<noteq> SwapExpired \<and> so_status v \<noteq> SwapFailed) then ret None
            else
              andthen (renewals_of ext) (\<lambda>n.
              if maxVendorOrderRenewals \<le> n then ret None else replace_vendor_order te l old amount n)))))"

definition advanceForwardingOne :: "tick_env \<Rightarrow> leg \<Rightarrow> unit act" where
  "advanceForwardingOne te l =
     (if lg_upstream_address l = None then fail (Broken ''leg has no upstream_deposit_address recorded'')
      else
        andthen (forwardAmountFor te l) (\<lambda>amount.
        andthen (renewExpiredVendorOrder te l amount) (\<lambda>renewed.
        let l = (case renewed of None \<Rightarrow> l | Some r \<Rightarrow> r) in
        case lg_upstream_address l of
          None \<Rightarrow> fail (Broken ''nil upstream address'')
        | Some to \<Rightarrow>
          andthen (drive te (legTransfer l FORWARD to amount)) (\<lambda>done.
          case done of
            None \<Rightarrow> ret ()
          | Some a \<Rightarrow>
            (case ta_hash a of
               None \<Rightarrow> fail (Broken ''nil hash'')
             | Some h \<Rightarrow> leg_write te (\<lambda>now. MarkForwarded now (lg_external_id l) h))))))"

definition legs_at :: "tick_env \<Rightarrow> leg_status \<Rightarrow> leg list act" where
  "legs_at te st = leg_read te (\<lambda>db. Inr (ListByStatus db st))"

definition advanceForwardingLegs :: "tick_env \<Rightarrow> unit act" where
  "advanceForwardingLegs te = andthen (legs_at te FORWARDING) (each (advanceForwardingOne te))"

section \<open>Settling\<close>

datatype payout_verdict = PayoutUnchecked | PayoutPending | PayoutWrong | PayoutPaid amount

text \<open>What a final transaction with these transfers is worth to the customer.\<close>

definition payout_paid :: "asset \<Rightarrow> nat \<Rightarrow> int \<Rightarrow> orch_error + payout_verdict" where
  "payout_paid a decimals raw =
     (if raw = 0 then Inr PayoutWrong
      else case Decimals a of
        Inl e \<Rightarrow> Inl (AmountFailure e)
      | Inr internal \<Rightarrow>
        (let u = (if raw < 0 then - (- raw div 10 ^ (decimals - internal)) else raw div 10 ^ (decimals - internal)) in
         if fits64 u then Inr (PayoutPaid (Amount a (of_int u))) else Inr PayoutWrong))"

definition paid_to :: "(token_transfer \<Rightarrow> bool) \<Rightarrow> token_transfer list \<Rightarrow> int" where
  "paid_to p ts = sum_list (map tt_amount (filter p ts))"

definition checkPayout :: "tick_env \<Rightarrow> leg \<Rightarrow> string \<Rightarrow> payout_verdict act" where
  "checkPayout te l tx =
     (let a = amt_asset (lg_out_expected l); tron = (lg_direction l = BEP20ToTRC20) in
      case (if tron then te_tron_payouts te else te_evm_payouts te) of
        None \<Rightarrow> ret PayoutUnchecked
      | Some reader \<Rightarrow>
        andthen (asked te (\<lambda>n. tag ReaderFailure (reader n tx))) (\<lambda>(ts, final).
        let mine = (\<lambda>t. if tron then tt_token t = tron_USDTContractAddress \<and> tt_to t = lg_destination l
                        else to_lower (tt_token t) = to_lower USDTContractAddress \<and>
                             to_lower (tt_to t) = to_lower (lg_destination l)) in
        if \<not> final then ret PayoutPending
        else lift id (payout_paid a (if tron then tron_USDTOnChainDecimals else USDTOnChainDecimals) (paid_to mine ts))))"

definition settle_lines :: "leg \<Rightarrow> remote_order \<Rightarrow> amount \<Rightarrow> amount \<Rightarrow> amount \<Rightarrow> amount \<Rightarrow> (string \<times> string \<times> amount) list" where
  "settle_lines l ord received negReceived profit negProfit =
     (let a = asset_str (amt_asset received) in
      [(customerAccountCode (ro_customer_id ord) (amt_asset received), a, received),
       (relayLegForwardingAccountCode (lg_order_id l), a, negReceived)] @
      (if 0 <s amt_units profit then
         [(commissionWalletAccountCode (amt_asset received), a, profit),
          (commissionAccountCode (amt_asset received), a, negProfit)] else []))"

text \<open>From the vendor's word that it paid, checked, to the settlement.\<close>

definition settle :: "tick_env \<Rightarrow> leg \<Rightarrow> remote_order \<Rightarrow> amount \<Rightarrow> string option \<Rightarrow> unit act" where
  "settle te l ord actual payout =
     (let ext = lg_external_id l; received = receivedFor l ord; profit = profitFor l ord;
          a = asset_str (amt_asset received) in
      andthen (ensure_account te (customerAccountCode (ro_customer_id ord) (amt_asset received)) ''LIABILITY'' a) (\<lambda>_.
      andthen (ensure_account te (commissionWalletAccountCode (amt_asset received)) ''ASSET'' a) (\<lambda>_.
      andthen (ensure_account te (commissionAccountCode (amt_asset received)) ''REVENUE'' a) (\<lambda>_.
      andthen (lift AmountFailure (Neg received)) (\<lambda>negReceived.
      andthen (lift AmountFailure (Neg profit)) (\<lambda>negProfit.
      andthen (transition_with_entry te ext ''settled'' (ro_version ord) ''relay_settle''
        (settle_lines l ord received negReceived profit negProfit) (''relayd:settle:'' @ ext)) (\<lambda>_.
      andthen (leg_write te (\<lambda>now. MarkSettled now ext actual)) (\<lambda>_.
      andthen (case payout of None \<Rightarrow> ret () | Some tx \<Rightarrow> logged (leg_write te (\<lambda>_. RecordPayoutTx ext tx))) (\<lambda>_.
      case lg_forward l of
        None \<Rightarrow> ret ()
      | Some f \<Rightarrow> logged (leg_write te (\<lambda>_. RecordVendorFee ext (amt_units f - amt_units actual))))))))))))"

definition handleUnrecoverable :: "tick_env \<Rightarrow> leg \<Rightarrow> unit act" where
  "handleUnrecoverable te l = leg_write te (\<lambda>now. MarkUnrecoverable now (lg_external_id l))"

definition settle_completed :: "tick_env \<Rightarrow> leg \<Rightarrow> amount \<Rightarrow> string option \<Rightarrow> unit act" where
  "settle_completed te l actual payout =
     (let ext = lg_external_id l in
      andthen (get_order te ext) (\<lambda>ord.
      if ro_state ord = ''settled'' then
        andthen (case payout of None \<Rightarrow> ret () | Some tx \<Rightarrow> leg_write te (\<lambda>_. RecordPayoutTx ext tx)) (\<lambda>_.
        leg_write te (\<lambda>now. MarkSettled now ext actual))
      else if ro_state ord \<noteq> ''dispatching'' then fail (Broken ''order is not dispatching -- cannot settle'')
      else case payout of
        None \<Rightarrow> settle te l ord actual payout
      | Some tx \<Rightarrow>
        andthen (checkPayout te l tx) (\<lambda>verdict.
        case verdict of
          PayoutUnchecked \<Rightarrow> settle te l ord actual payout
        | PayoutPending \<Rightarrow> ret ()
        | PayoutWrong \<Rightarrow> ret ()
        | PayoutPaid paid \<Rightarrow> settle te l ord paid payout)))"

definition advanceForwardedOne :: "tick_env \<Rightarrow> leg \<Rightarrow> unit act" where
  "advanceForwardedOne te l =
     (if lg_upstream_order l = None then fail (Broken ''leg has no upstream_order_id recorded'')
      else
        andthen (vendorOrder te l) (\<lambda>v.
        case so_status v of
          Complete \<Rightarrow>
            (case so_out_actual v of
               None \<Rightarrow> fail (Broken ''upstream order reported complete with no amount_out_actual'')
             | Some actual \<Rightarrow> settle_completed te l actual (so_payout v))
        | SwapFailed \<Rightarrow> handleUnrecoverable te l
        | SwapExpired \<Rightarrow> handleUnrecoverable te l
        | _ \<Rightarrow> ret ()))"

definition advanceForwardedLegs :: "tick_env \<Rightarrow> unit act" where
  "advanceForwardedLegs te = andthen (legs_at te FORWARDED) (each (advanceForwardedOne te))"

section \<open>Refunding\<close>

definition refundStuckAwaitingDepositLegs :: "tick_env \<Rightarrow> unit act" where
  "refundStuckAwaitingDepositLegs te =
     (if te_forwarding_timeout te \<le> 0 then ret ()
      else andthen (legs_at te AWAITING_DEPOSIT) (each (\<lambda>l.
        case lg_attempt_started_at l of
          None \<Rightarrow> ret ()
        | Some t \<Rightarrow> with_clock te (\<lambda>now.
            if now - t < te_forwarding_timeout te then ret () else startAwaitingDepositRefund te l))))"

definition forwardMayStillLand :: "tick_env \<Rightarrow> string \<Rightarrow> bool act" where
  "forwardMayStillLand te ext =
     andthen (attempt_read te (\<lambda>db. ConfirmedAttempt db ext FORWARD)) (\<lambda>confirmed.
     if confirmed \<noteq> None then ret True
     else
       andthen (attempt_read te (\<lambda>db. OpenAttempt db ext FORWARD)) (\<lambda>opn.
       case opn of
         None \<Rightarrow> ret False
       | Some a \<Rightarrow>
         if MayLand (ta_status a) then ret True
         else andthen (attempt_write te (\<lambda>now. MarkAbandoned now (ta_id a) ''leg is being refunded'')) (\<lambda>_. ret False)))"

definition postForwardAbandonEntry :: "tick_env \<Rightarrow> leg \<Rightarrow> unit act" where
  "postForwardAbandonEntry te l =
     (let ext = lg_external_id l in
      andthen (get_order te ext) (\<lambda>ord.
      if ro_state ord \<noteq> ''dispatching'' then ret ()
      else
        (let a = asset_str (amt_asset (ro_amount_in ord)); received = receivedFor l ord in
         andthen (lift AmountFailure (Neg received)) (\<lambda>neg.
         andthen (transition_with_entry te ext ''held'' (ro_version ord) ''relay_forward_abandon''
           [(relayLegAccountCode (lg_order_id l), a, received), (relayLegForwardingAccountCode (lg_order_id l), a, neg)]
           (''relayd:forward_abandon:'' @ ext)) (\<lambda>_.
         ret ())))))"

definition postRefundEntry :: "tick_env \<Rightarrow> leg \<Rightarrow> unit act" where
  "postRefundEntry te l =
     (let ext = lg_external_id l in
      andthen (get_order te ext) (\<lambda>ord.
      if ro_state ord = ''refunded'' then ret ()
      else if ro_state ord \<noteq> ''held'' then fail (Broken ''order is not held -- cannot post the refund entry'')
      else
        (let customerAccount = customerAccountCode (ro_customer_id ord) (amt_asset (ro_amount_in ord));
             a = asset_str (amt_asset (ro_amount_in ord)); received = receivedFor l ord in
         andthen (lift AmountFailure (Neg received)) (\<lambda>neg.
         andthen (transition_with_entry te ext ''refunded'' (ro_version ord) ''relay_refund''
           [(customerAccount, a, received), (relayLegAccountCode (lg_order_id l), a, neg)]
           (''relayd:refund:'' @ ext)) (\<lambda>_.
         ret ())))))"

definition startRefund :: "tick_env \<Rightarrow> leg \<Rightarrow> unit act" where
  "startRefund te l =
     andthen (postForwardAbandonEntry te l) (\<lambda>_.
     andthen (postRefundEntry te l) (\<lambda>_.
     mark_refund_pending te l))"

definition refundStuckForwardingLegs :: "tick_env \<Rightarrow> unit act" where
  "refundStuckForwardingLegs te =
     (if te_forwarding_timeout te \<le> 0 then ret ()
      else andthen (legs_at te FORWARDING) (each (\<lambda>l. with_clock te (\<lambda>now.
        if now - lg_updated_at l < te_forwarding_timeout te then ret ()
        else
          andthen (forwardMayStillLand te (lg_external_id l)) (\<lambda>mayLand.
          if mayLand then ret () else startRefund te l)))))"

definition startExternallyRefundedOne :: "tick_env \<Rightarrow> string \<Rightarrow> unit act" where
  "startExternallyRefundedOne te ext =
     andthen (leg_read te (\<lambda>db. Leg_GetByExternalID db ext)) (\<lambda>l.
     if lg_status l \<noteq> AWAITING_DEPOSIT then ret () else mark_refund_pending te l)"

definition startExternallyRefundedLegs :: "tick_env \<Rightarrow> unit act" where
  "startExternallyRefundedLegs te s =
     for_orders (page_fuel s) te ''refunded'' (startExternallyRefundedOne te) None s"

definition advanceRefundPendingOne :: "tick_env \<Rightarrow> leg \<Rightarrow> unit act" where
  "advanceRefundPendingOne te l =
     andthen (get_order te (lg_external_id l)) (\<lambda>ord.
     case ro_sender ord of
       None \<Rightarrow> fail (Broken ''order has no sender_address recorded'')
     | Some sender \<Rightarrow>
       if sender = '''' then fail (Broken ''order has no sender_address recorded'')
       else
         andthen (drive te (legTransfer l REFUND sender (receivedFor l ord))) (\<lambda>done.
         case done of
           None \<Rightarrow> ret ()
         | Some a \<Rightarrow>
           (case ta_hash a of
              None \<Rightarrow> fail (Broken ''nil hash'')
            | Some h \<Rightarrow> leg_write te (\<lambda>now. MarkRefunded now (lg_external_id l) h))))"

definition advanceRefundPendingLegs :: "tick_env \<Rightarrow> unit act" where
  "advanceRefundPendingLegs te = andthen (legs_at te REFUND_PENDING) (each (advanceRefundPendingOne te))"

section \<open>Expiry and leases\<close>

definition watcherFor :: "tick_env \<Rightarrow> leg \<Rightarrow> watcher option" where
  "watcherFor te l = (if lg_direction l = BEP20ToTRC20 then te_bep20 te else te_tron te)"

text \<open>Whether a payment may still be unseen; without a reporter nothing is asked.\<close>

definition depositMaybeUnseen :: "tick_env \<Rightarrow> leg \<Rightarrow> time \<Rightarrow> bool act" where
  "depositMaybeUnseen te l deadline =
     (case Option.bind (watcherFor te l) wt_scan of
        None \<Rightarrow> ret False
      | Some scan \<Rightarrow>
        andthen (attempted (asked te (\<lambda>n. tag WatcherFailure (scan n (lg_order_id l))))) (\<lambda>r.
        ret (case r of Inl _ \<Rightarrow> True | Inr st \<Rightarrow> 0 < sc_pending st \<or> sc_through st < deadline)))"

definition mark_expired :: "tick_env \<Rightarrow> leg \<Rightarrow> unit act" where
  "mark_expired te l = leg_write te (\<lambda>now. MarkExpired now (lg_external_id l))"

definition expireOne :: "tick_env \<Rightarrow> leg \<Rightarrow> time \<Rightarrow> unit act" where
  "expireOne te l now =
     (let ext = lg_external_id l in
      andthen (get_order te ext) (\<lambda>ord.
      if ro_state ord = ''expired'' then mark_expired te l
      else if ro_state ord \<noteq> ''quoted'' \<or> now < ro_quote_expires_at ord + te_grace te then ret ()
      else
        andthen (depositMaybeUnseen te l (ro_quote_expires_at ord)) (\<lambda>unseen.
        if unseen then ret ()
        else
          andthen (ledger_call te (\<lambda>t. lc_Transition (te_digest te) (te_actor te) t ext ''expired'' (ro_version ord)
            ''deposit_window_passed'' now (''relayd:expire:'' @ ext))) (\<lambda>_.
          mark_expired te l))))"

definition expireUnpaidLegs :: "tick_env \<Rightarrow> unit act" where
  "expireUnpaidLegs te =
     (if te_grace te \<le> 0 then ret ()
      else andthen (legs_at te AWAITING_DEPOSIT) (\<lambda>ls. with_clock te (\<lambda>now. each (\<lambda>l.
        if lg_attempt_started_at l \<noteq> None \<or> now - lg_created_at l < te_grace te then ret ()
        else expireOne te l now) ls)))"

definition releaseRetryAfter :: time where "releaseRetryAfter = 5 * 60 * 10 ^ 9"

definition release_reason :: "leg_status \<Rightarrow> string" where
  "release_reason st =
     (if st = SETTLED then ''settled'' else if st = REFUNDED then ''refunded''
      else if st = UNRECOVERABLE then ''unrecoverable'' else if st = EXPIRED then ''expired'' else '''')"

definition release_one :: "tick_env \<Rightarrow> time \<Rightarrow> leg \<Rightarrow> unit act" where
  "release_one te now l =
     (let ext = lg_external_id l in
      case Option.bind (watcherFor te l) wt_retire of
        None \<Rightarrow> ret ()
      | Some retire \<Rightarrow>
        andthen (retry_at ext) (\<lambda>t.
        if (case t of Some at \<Rightarrow> now < at | None \<Rightarrow> False) then ret ()
        else
          andthen (attempted (asked te (\<lambda>n.
            case retire n (lg_order_id l) (release_reason (lg_status l)) (''relayd:release:'' @ ext) of
              Inl NoLease \<Rightarrow> Inr () | Inl (RetireError e) \<Rightarrow> Inl (WatcherFailure e) | Inr _ \<Rightarrow> Inr ()))) (\<lambda>r.
          case r of
            Inl _ \<Rightarrow> set_retry_at ext (now + releaseRetryAfter)
          | Inr _ \<Rightarrow> leg_write te (\<lambda>now. MarkLeaseReleased now ext))))"

definition releaseFinishedLeases :: "tick_env \<Rightarrow> unit act" where
  "releaseFinishedLeases te =
     andthen (leg_read te (\<lambda>db. Inr (ListLeasesToRelease db))) (\<lambda>ls.
     with_clock te (\<lambda>now. each (release_one te now) ls))"

section \<open>Sweeps\<close>

definition sweepGiveUpAfter :: time where "sweepGiveUpAfter = 6 * 60 * 60 * 10 ^ 9"
definition sweepRetryAfter :: time where "sweepRetryAfter = 24 * 60 * 60 * 10 ^ 9"

definition sweepJob :: "int \<Rightarrow> string" where
  "sweepJob i = ''sweep:'' @ fmt_int i"

definition sweepTransfer :: "sweep \<Rightarrow> transfer_request" where
  "sweepTransfer s =
     \<lparr>tr_job = sweepJob (sp_id s), tr_purpose = SWEEP, tr_chain = sp_chain s, tr_from = sp_from s,
      tr_signer = \<lparr>sg_index = Some (sp_index s), sg_slot = False, sg_slot_id = 0\<rparr>, tr_to = sp_to s,
      tr_amount = sp_amount s, tr_leg = None\<rparr>"

definition sweepDestination :: "tick_env \<Rightarrow> orch_config \<Rightarrow> chain \<Rightarrow> string" where
  "sweepDestination te cfg c =
     (if c = BSC then (if te_sweep_bsc te \<noteq> '''' then te_sweep_bsc te else cf_slot_evm cfg)
      else (if te_sweep_tron te \<noteq> '''' then te_sweep_tron te else cf_slot_address cfg))"

definition giveUpStuckSweep :: "tick_env \<Rightarrow> sweep \<Rightarrow> unit act" where
  "giveUpStuckSweep te s =
     (let job = sweepJob (sp_id s) in
      andthen (attempt_read te (\<lambda>db. OpenAttempt db job SWEEP)) (\<lambda>opn.
      if (case opn of Some a \<Rightarrow> MayLand (ta_status a) | None \<Rightarrow> False) then ret ()
      else
        andthen (attempt_read te (\<lambda>db. CountFailed db job SWEEP)) (\<lambda>failed.
        with_clock te (\<lambda>now.
        if failed < maxFailedAttempts \<and> now - sp_created_at s < sweepGiveUpAfter then ret ()
        else
          andthen (case opn of None \<Rightarrow> ret ()
                   | Some a \<Rightarrow> attempt_write te (\<lambda>now. MarkAbandoned now (ta_id a) ''the sweep was given up before this was signed'')) (\<lambda>_.
          sweep_update te (\<lambda>now db. rbind (MarkSweepFailed now (sp_id s) ''no transaction confirmed'' db) (\<lambda>db. Inr (db, ()))))))))"

definition bookSweep :: "tick_env \<Rightarrow> sweep \<Rightarrow> string \<Rightarrow> int act" where
  "bookSweep te s tx =
     (let a = asset_str (amt_asset (sp_amount s)); treasury = treasuryAccountCode (amt_asset (sp_amount s));
          wallets = commissionWalletAccountCode (amt_asset (sp_amount s)) in
      andthen (ensure_account te treasury ''ASSET'' a) (\<lambda>_.
      andthen (lift AmountFailure (Neg (sp_amount s))) (\<lambda>neg.
      ledger_call te (\<lambda>now. lc_PostEntry (te_digest te) (te_actor te) now ''relay_sweep'' now
        [(treasury, a, sp_amount s), (wallets, a, neg)]
        [(''sweep_id'', fmt_int (sp_id s)), (''tx_hash'', tx), (''from_address'', sp_from s), (''to_address'', sp_to s)]
        (''relayd:sweep:'' @ fmt_int (sp_id s))))))"

definition advanceSweep :: "tick_env \<Rightarrow> sweep \<Rightarrow> unit act" where
  "advanceSweep te s =
     andthen (attempted (drive te (sweepTransfer s))) (\<lambda>r.
     case r of
       Inl e \<Rightarrow> andthen (giveUpStuckSweep te s) (\<lambda>_. fail e)
     | Inr None \<Rightarrow> giveUpStuckSweep te s
     | Inr (Some a) \<Rightarrow>
       (case ta_hash a of
          None \<Rightarrow> fail (Broken ''nil hash'')
        | Some h \<Rightarrow>
          andthen (bookSweep te s h) (\<lambda>eid.
          sweep_update te (\<lambda>now db. rbind (MarkSweepConfirmed now (sp_id s) h eid db) (\<lambda>db. Inr (db, ()))))))"

definition advanceSweeps :: "tick_env \<Rightarrow> unit act" where
  "advanceSweeps te =
     (if \<not> te_sweeping te then ret ()
      else andthen (sweep_read te (\<lambda>db _. Inr (ListPending db))) (each (advanceSweep te)))"

definition tokenBalance :: "orch_env \<Rightarrow> chain \<Rightarrow> string \<Rightarrow> string + int \<times> nat" where
  "tokenBalance env c holder =
     (if c = BSC then rbind (en_token (oe_evm env) holder) (\<lambda>have. Inr (have, USDTOnChainDecimals))
      else rbind (tron_TokenBalance (oe_trl env) (oe_tron env) holder) (\<lambda>have. Inr (have, tron_USDTOnChainDecimals)))"

text \<open>A wallet that is due: enough profit, idle, and not given up a short while ago.\<close>

definition sweep_due :: "wallet \<Rightarrow> sweep_settings \<Rightarrow> time \<Rightarrow> bool" where
  "sweep_due w st now \<longleftrightarrow>
     (let u = Unswept w in
      \<not> (amt_units u \<le>s 0 \<or> amt_units u <s min_amount st (amt_asset u)) \<and> \<not> (wl_busy w \<or> wl_pending w) \<and>
      \<not> (case wl_last_failed w of None \<Rightarrow> False | Some t \<Rightarrow> now - t < sweepRetryAfter))"

definition create_and_sweep :: "tick_env \<Rightarrow> wallet \<Rightarrow> 32 word \<Rightarrow> string \<Rightarrow> unit act" where
  "create_and_sweep te w i to =
     andthen (attempted (sweep_update te (\<lambda>now. CreateSweep now
        \<lparr>sp_id = 0, sp_chain = wl_chain w, sp_from = wl_address w, sp_index = i, sp_to = to, sp_amount = Unswept w,
         sp_status = SweepPending, sp_tx = None, sp_entry = None, sp_error = None, sp_created_at = 0,
         sp_updated_at = 0, sp_finished_at = None\<rparr>))) (\<lambda>r.
     case r of
       Inl e \<Rightarrow> if e = SweepFailure ErrSweepPending then ret () else fail e
     | Inr s \<Rightarrow> advanceSweep te s)"

definition startSweep :: "tick_env \<Rightarrow> sweep_settings \<Rightarrow> time \<Rightarrow> wallet \<Rightarrow> unit act" where
  "startSweep te st now w =
     (if \<not> sweep_due w st now then ret ()
      else case wl_index w of
        None \<Rightarrow> ret ()
      | Some i \<Rightarrow>
        andthen (attempt_read te (\<lambda>db. OpenFrom db (wl_address w))) (\<lambda>busy.
        if busy \<noteq> None then ret ()
        else
          andthen (asked te (\<lambda>n. tag ReaderFailure
            (rbind (tokenBalance (te_orch te n) (wl_chain w) (wl_address w)) (\<lambda>(have, decimals).
             rbind (onChainUnits (Unswept w) decimals) (\<lambda>need.
             Inr (have < need, sweepDestination te (oe_cfg (te_orch te n)) (wl_chain w))))))) (\<lambda>(short, to).
          if short then ret ()
          else if to = '''' then fail (Broken ''no sweep destination is configured'')
          else create_and_sweep te w i to)))"

definition startSweeps :: "tick_env \<Rightarrow> unit act" where
  "startSweeps te =
     (if \<not> te_sweeping te then ret ()
      else
        andthen (sweep_read te (\<lambda>db _. SweepSettings db)) (\<lambda>st.
        if \<not> ss_enabled st then ret ()
        else with_clock te (\<lambda>now.
          andthen (scan_due now (ss_interval st)) (\<lambda>due.
          if \<not> due then ret ()
          else andthen (sweep_read te Wallets) (each (startSweep te st now))))))"

section \<open>Stale legs, and the tick\<close>

definition staleCheckedStatuses :: "leg_status list" where
  "staleCheckedStatuses = [FORWARDING, FORWARDED, REFUND_PENDING]"

definition fireStaleLegAlert :: "tick_env \<Rightarrow> leg \<Rightarrow> unit act" where
  "fireStaleLegAlert te l =
     andthen (leg_update te (\<lambda>now. MarkStaleAlerted now (lg_external_id l))) (\<lambda>_. ret ())"

definition checkStaleLegs :: "tick_env \<Rightarrow> unit act" where
  "checkStaleLegs te =
     (if te_stale_after te \<le> 0 then ret ()
      else every (\<lambda>st. andthen (legs_at te st) (every (\<lambda>l.
        if lg_stale_alerted_at l \<noteq> None then ret ()
        else with_clock te (\<lambda>now.
          if now - lg_updated_at l < te_stale_after te then ret () else fireStaleLegAlert te l)))) staleCheckedStatuses)"

definition RunTick :: "tick_env \<Rightarrow> unit act" where
  "RunTick te = every (\<lambda>phase. phase te)
     [startScreenedLegs, advanceForwardingLegs, advanceForwardedLegs, refundStuckAwaitingDepositLegs,
      refundStuckForwardingLegs, startExternallyRefundedLegs, advanceRefundPendingLegs, track_top_ups,
      expireUnpaidLegs, releaseFinishedLeases, advanceSweeps, startSweeps, checkStaleLegs]"

end
