(* ===== verification/Orch_Logic.thy ===== *)
theory Orch_Logic
  imports Orchestrate
begin

text \<open>
  The invariant of a running relayd, and a small logic of actions. \<open>sys_ok\<close> ties the three stores
  together: what a leg's status says about the chain and about the books. \<open>tri P m R Q\<close> reads: from
  a good state where \<open>P\<close> holds, \<open>m\<close> ends in a good state, an \<open>R\<close>-step later, where \<open>Q\<close> holds of its
  value if it has one. The rules of the logic hold for every relation of the locale \<open>progress\<close>.
\<close>

section \<open>The invariant\<close>

definition tried :: "transfer_db \<Rightarrow> string \<times> purpose \<Rightarrow> bool" where
  "tried db j \<longleftrightarrow> (\<exists>a \<in> set (attempts db). attempt_job a = j)"

text \<open>An attempt that was signed and not given up by the chain: the money may move, or has moved.\<close>

definition may_pay :: "transfer_db \<Rightarrow> string \<times> purpose \<Rightarrow> bool" where
  "may_pay db j \<longleftrightarrow>
     (\<exists>a \<in> set (attempts db). attempt_job a = j \<and> (MayLand (ta_status a) \<or> ta_status a = Confirmed))"

definition backed :: "transfer_db \<Rightarrow> db \<Rightarrow> string \<Rightarrow> leg_status option \<Rightarrow> bool" where
  "backed t l ext st \<longleftrightarrow>
     (may_pay t (ext, FORWARD) \<longrightarrow> st \<in> {Some FORWARDING, Some FORWARDED, Some SETTLED, Some UNRECOVERABLE}) \<and>
     (tried t (ext, REFUND) \<longrightarrow> st \<in> {Some REFUND_PENDING, Some REFUNDED}) \<and>
     (st \<in> {Some FORWARDED, Some SETTLED, Some UNRECOVERABLE} \<longrightarrow> confirmed_job t (ext, FORWARD)) \<and>
     (st = Some REFUNDED \<longrightarrow> confirmed_job t (ext, REFUND)) \<and>
     (st \<in> {Some REFUND_PENDING, Some REFUNDED} \<longrightarrow> ext_status l ext = Some Refunded) \<and>
     (st = Some SETTLED \<longrightarrow> ext_status l ext = Some Settled) \<and>
     (st = Some EXPIRED \<longrightarrow> ext_status l ext = Some Expired)"

abbreviation sy_attempts :: "sys \<Rightarrow> transfer_db" where
  "sy_attempts s \<equiv> wd_db (sy_world s)"

abbreviation sy_books :: "sys \<Rightarrow> db" where
  "sy_books s \<equiv> ls_db (sy_ledger s)"

definition status_in :: "leg_status set \<Rightarrow> string \<Rightarrow> sys \<Rightarrow> bool" where
  "status_in S ext s \<longleftrightarrow> (\<exists>st \<in> S. leg_status_of (sy_legs s) ext = Some st)"

definition booked :: "state \<Rightarrow> string \<Rightarrow> sys \<Rightarrow> bool" where
  "booked st ext s \<longleftrightarrow> ext_status (sy_books s) ext = Some st"

definition idle :: "string \<Rightarrow> sys \<Rightarrow> bool" where
  "idle ext s \<longleftrightarrow> \<not> may_pay (sy_attempts s) (ext, FORWARD)"

definition sys_ok :: "sys \<Rightarrow> bool" where
  "sys_ok s \<longleftrightarrow>
     legs_ok (sy_legs s) \<and> world_ok (sy_world s) \<and> ledger_ok (sy_books s) \<and>
     sweeps_ok (sy_sweeps s) \<and> covered (sy_sweeps s) (sy_legs s) \<and>
     (\<forall>ext. backed (sy_attempts s) (sy_books s) ext (leg_status_of (sy_legs s) ext))"

section \<open>Legs that stand still\<close>

lemma update_status:
  assumes w: "write_legs db (update_rows p f (legs db)) = Inr db'"
    and f: "\<And>r. p r \<Longrightarrow> lg_external_id (f r) = lg_external_id r \<and> lg_status (f r) = lg_status r"
  shows "leg_status_of db' = leg_status_of db"
proof
  fix ext
  have "leg_at db' ext = map_option (\<lambda>r. if p r then f r else r) (leg_at db ext)"
    using w unfolding leg_at_def by (auto simp: write_legs_Inr f leg_at_update [where p = p and f = f])
  then show "leg_status_of db' ext = leg_status_of db ext"
    by (cases "leg_at db ext") (simp_all add: leg_status_of_def f)
qed

lemma note_status:
  "ReplaceVendorOrder now ext old p i a db = Inr db' \<Longrightarrow> leg_status_of db' = leg_status_of db"
  "MarkStaleAlerted now ext db = Inr (db', b) \<Longrightarrow> leg_status_of db' = leg_status_of db"
  "MarkForwardAttemptStarted now ext db = Inr db' \<Longrightarrow> leg_status_of db' = leg_status_of db"
  "MarkLeaseReleased now ext db = Inr db' \<Longrightarrow> leg_status_of db' = leg_status_of db"
  "RecordDeposit ext rc s pr f db = Inr (db', l) \<Longrightarrow> leg_status_of db' = leg_status_of db"
  "RecordPayoutTx ext tx db = Inr db' \<Longrightarrow> leg_status_of db' = leg_status_of db"
  "RecordVendorFee ext fee db = Inr db' \<Longrightarrow> leg_status_of db' = leg_status_of db"
  by (auto simp: note_defs Let_def split: if_splits elim!: update_status)

text \<open>No leg moves; one may be created.\<close>

definition quiet :: "relay_db \<Rightarrow> relay_db \<Rightarrow> bool" where
  "quiet db db' \<longleftrightarrow>
     (\<forall>ext. leg_status_of db' ext = leg_status_of db ext \<or>
            leg_status_of db ext = None \<and> leg_status_of db' ext = Some AWAITING_DEPOSIT)"

lemma quiet_refl [simp, intro]: "quiet db db"
  by (simp add: quiet_def)

lemma quiet_same: "leg_status_of db' = leg_status_of db \<Longrightarrow> quiet db db'"
  by (simp add: quiet_def)

lemma quiet_trans: "quiet a b \<Longrightarrow> quiet b c \<Longrightarrow> quiet a c"
  unfolding quiet_def by metis

lemma quiet_status: "quiet db db' \<Longrightarrow> leg_status_of db ext = Some st \<Longrightarrow> leg_status_of db' ext = Some st"
  unfolding quiet_def by (metis option.distinct(1))

lemma backed_quiet:
  assumes "quiet db db'" and "backed t l ext (leg_status_of db ext)"
  shows "backed t l ext (leg_status_of db' ext)"
proof (cases "leg_status_of db' ext = leg_status_of db ext")
  case False
  then have "leg_status_of db ext = None" "leg_status_of db' ext = Some AWAITING_DEPOSIT"
    using assms(1) unfolding quiet_def by blast+
  then show ?thesis using assms(2) by (simp add: backed_def)
qed (use assms(2) in simp)

lemma CreateLeg_quiet:
  assumes "CreateLeg now l db = Inr (db', leg)"
  shows "quiet db db'"
  using assms
proof (cases rule: CreateLeg_cases)
  case new
  have "leg_at db' ext = (case leg_at db ext of None \<Rightarrow>
      if ext = lg_external_id l then Some (new_leg_row now (legs_seq db + 1) l) else None | Some r \<Rightarrow> Some r)" for ext
    using new(3) by (simp add: leg_at_def first_row_append split: option.split)
  then show ?thesis by (auto simp: quiet_def leg_status_of_def split: option.split)
next
  case (old r)
  then show ?thesis by (simp add: quiet_def leg_status_of_def leg_at_def)
qed

lemma api_quiet:
  assumes "api_op opn" and "leg_exec opn db = Inr db'"
  shows "quiet db db'"
proof (cases opn)
  case (OpCreateLeg now l)
  then show ?thesis using assms(2) CreateLeg_quiet by (cases "CreateLeg now l db") auto
next
  case (OpRecordDeposit ext rc s p f)
  then show ?thesis using assms(2) note_status(5) quiet_same by (cases "RecordDeposit ext rc s p f db") fastforce+
qed (use assms(1) in \<open>simp_all add: api_op_def\<close>)

lemma meanwhile_ok:
  assumes "legs_ok db"
  shows "legs_ok (meanwhile ops db) \<and> quiet db (meanwhile ops db) \<and> (\<forall>addr. earned_at db addr \<le> earned_at (meanwhile ops db) addr)"
  using assms
proof (induction ops arbitrary: db)
  case (Cons opn ops)
  show ?case
  proof (cases "api_op opn \<and> (\<exists>db'. leg_exec opn db = Inr db')")
    case True
    then obtain db' where db': "api_op opn" "leg_exec opn db = Inr db'" by blast
    note step = leg_exec_ok [OF Cons.prems db'(2)]
    note IH = Cons.IH [OF step [THEN conjunct2]]
    have "meanwhile (opn # ops) db = meanwhile ops db'" using db' by (simp add: meanwhile_def run_ops_simps commit_op_def)
    then show ?thesis
      using IH quiet_trans [OF api_quiet [OF db']] earned_at_step [OF step [THEN conjunct1] Cons.prems step [THEN conjunct2]]
      by (auto intro: order_trans)
  next
    case False
    then have "meanwhile (opn # ops) db = meanwhile ops db"
      by (auto simp: meanwhile_def run_ops_simps commit_op_def split: sum.split)
    then show ?thesis using Cons.IH [OF Cons.prems] by simp
  qed
qed (simp add: meanwhile_def run_ops_simps)

section \<open>Relations between two states\<close>

text \<open>Final orders stay final.\<close>

definition led :: "sys \<Rightarrow> sys \<Rightarrow> bool" where
  "led s s' \<longleftrightarrow> (\<forall>ext st. booked st ext s \<longrightarrow> Terminal st \<longrightarrow> booked st ext s')"

text \<open>Only the books and notes on legs change; a leg may be created.\<close>

definition calm :: "sys \<Rightarrow> sys \<Rightarrow> bool" where
  "calm s s' \<longleftrightarrow>
     led s s' \<and> sy_world s' = sy_world s \<and> sy_sweeps s' = sy_sweeps s \<and>
     quiet (sy_legs s) (sy_legs s') \<and>
     (\<forall>addr. earned_at (sy_legs s) addr \<le> earned_at (sy_legs s') addr)"

text \<open>A leg on its way back stays there; on the way forward too, where nothing is refunded.\<close>

definition onward :: "sys \<Rightarrow> sys \<Rightarrow> bool" where
  "onward s s' \<longleftrightarrow>
     led s s' \<and> (\<forall>ext. status_in {REFUND_PENDING, REFUNDED} ext s \<longrightarrow> status_in {REFUND_PENDING, REFUNDED} ext s')"

definition forwards :: "leg_status set" where
  "forwards = {FORWARDING, FORWARDED, SETTLED, UNRECOVERABLE}"

definition forward_on :: "sys \<Rightarrow> sys \<Rightarrow> bool" where
  "forward_on s s' \<longleftrightarrow> onward s s' \<and> (\<forall>ext. status_in forwards ext s \<longrightarrow> status_in forwards ext s')"

text \<open>Nothing is signed.\<close>

definition unsent :: "sys \<Rightarrow> sys \<Rightarrow> bool" where
  "unsent s s' \<longleftrightarrow> onward s s' \<and> sy_world s' = sy_world s"

section \<open>The logic\<close>

definition tri :: "(sys \<Rightarrow> bool) \<Rightarrow> 'a act \<Rightarrow> (sys \<Rightarrow> sys \<Rightarrow> bool) \<Rightarrow> ('a \<Rightarrow> sys \<Rightarrow> bool) \<Rightarrow> bool" where
  "tri P m R Q \<longleftrightarrow>
     (\<forall>s s' r. sys_ok s \<longrightarrow> P s \<longrightarrow> m s = (s', r) \<longrightarrow> sys_ok s' \<and> R s s' \<and> (\<forall>x. r = Inr x \<longrightarrow> Q x s'))"

lemma triI:
  assumes "\<And>s s' r. sys_ok s \<Longrightarrow> P s \<Longrightarrow> m s = (s', r) \<Longrightarrow> sys_ok s' \<and> R s s' \<and> (\<forall>x. r = Inr x \<longrightarrow> Q x s')"
  shows "tri P m R Q"
  using assms by (simp add: tri_def)

lemma triD:
  assumes "tri P m R Q" and "sys_ok s" and "P s" and "m s = (s', r)"
  shows "sys_ok s'" "R s s'" "r = Inr x \<Longrightarrow> Q x s'"
  using assms unfolding tri_def by blast+

lemma tri_conseq:
  assumes "tri P m R Q" and "\<And>s. sys_ok s \<Longrightarrow> P' s \<Longrightarrow> P s" and "\<And>s s'. R s s' \<Longrightarrow> R' s s'"
    and "\<And>x s. sys_ok s \<Longrightarrow> Q x s \<Longrightarrow> Q' x s"
  shows "tri P' m R' Q'"
  using assms unfolding tri_def by blast

lemma tri_pre: "tri P m R Q \<Longrightarrow> (\<And>s. sys_ok s \<Longrightarrow> P' s \<Longrightarrow> P s) \<Longrightarrow> tri P' m R Q"
  by (rule tri_conseq)

lemma tri_post: "tri P m R Q \<Longrightarrow> (\<And>x s. sys_ok s \<Longrightarrow> Q x s \<Longrightarrow> Q' x s) \<Longrightarrow> tri P m R Q'"
  by (rule tri_conseq)

lemma tri_rel: "tri P m R Q \<Longrightarrow> (\<And>s s'. R s s' \<Longrightarrow> R' s s') \<Longrightarrow> tri P m R' Q"
  by (rule tri_conseq)

text \<open>A fact the relation keeps is carried along.\<close>

lemma tri_carry:
  assumes "tri P m R Q" and "\<And>s s'. R s s' \<Longrightarrow> F s \<Longrightarrow> F s'"
  shows "tri (\<lambda>s. P s \<and> F s) m R (\<lambda>x s. Q x s \<and> F s)"
  using assms unfolding tri_def by blast

lemma tri_True: "tri P m R Q \<Longrightarrow> tri P m R (\<lambda>_ _. True)"
  by (erule tri_post) simp

lemma andthen_cases:
  assumes "andthen m k s = (s', r)"
  obtains (stop) e where "m s = (s', Inl e)" "r = Inl e" | (go) s1 x where "m s = (s1, Inr x)" "k x s1 = (s', r)"
  using assms by (auto simp: andthen_def elim: rthen_cases)

locale progress =
  fixes R :: "sys \<Rightarrow> sys \<Rightarrow> bool"
  assumes refl [simp, intro]: "R s s" and trans: "R a b \<Longrightarrow> R b c \<Longrightarrow> R a c"
begin

lemma ret_rule: "tri (Q x) (ret x) R Q"
  by (simp add: tri_def ret_def)

lemma ret_any: "tri P (ret x) R (\<lambda>_ _. True)"
  by (simp add: tri_def ret_def)

lemma fail_rule: "tri P (fail e) R Q"
  by (simp add: tri_def fail_def)

lemma lift_rule: "tri (\<lambda>s. \<forall>x. r = Inr x \<longrightarrow> Q x s) (lift f r) R Q"
  by (cases r) (simp_all add: tri_def lift_def ret_def fail_def)

lemma lift_any: "tri P (lift f r) R (\<lambda>_. P)"
  by (cases r) (simp_all add: tri_def lift_def ret_def fail_def)

lemma andthen_rule:
  assumes "tri P m R Q" and "\<And>x. tri (Q x) (k x) R Q'"
  shows "tri P (andthen m k) R Q'"
proof (rule triI)
  fix s s' r
  assume s: "sys_ok s" "P s" and a: "andthen m k s = (s', r)"
  from a show "sys_ok s' \<and> R s s' \<and> (\<forall>x. r = Inr x \<longrightarrow> Q' x s')"
  proof (cases rule: andthen_cases)
    case (stop e)
    then show ?thesis using triD(1,2) [OF assms(1) s stop(1)] by simp
  next
    case (go s1 x)
    note m = triD [OF assms(1) s go(1)]
    note k = triD [OF assms(2) m(1) m(3) [OF HOL.refl] go(2)]
    show ?thesis using k trans [OF m(2) k(2)] by blast
  qed
qed

lemma attempted_rule:
  assumes "tri P m R Q"
  shows "tri P (attempted m) R (\<lambda>r s. \<forall>x. r = Inr x \<longrightarrow> Q x s)"
proof (rule triI)
  fix s s' r
  assume s: "sys_ok s" "P s" and a: "attempted m s = (s', r)"
  obtain q where q: "m s = (s', q)" "r = Inr q" using a by (cases "m s") (auto simp: attempted_def)
  show "sys_ok s' \<and> R s s' \<and> (\<forall>x. r = Inr x \<longrightarrow> (\<forall>y. x = Inr y \<longrightarrow> Q y s'))"
    using triD [OF assms s q(1)] q(2) by blast
qed

lemma logged_rule:
  assumes "tri P m R Q"
  shows "tri P (logged m) R (\<lambda>_ _. True)"
proof (rule triI)
  fix s s' r
  assume s: "sys_ok s" "P s" and a: "logged m s = (s', r)"
  obtain q where q: "m s = (s', q)" using a by (cases "m s") (auto simp: logged_def)
  show "sys_ok s' \<and> R s s' \<and> (\<forall>x. r = Inr x \<longrightarrow> True)" using triD [OF assms s q] by blast
qed

lemma clock_rule: "(\<And>t. tri P (k t) R Q) \<Longrightarrow> tri P (with_clock te k) R Q"
  unfolding tri_def with_clock_def by blast

text \<open>A loop: what its body needs of an element is a fact the relation keeps.\<close>

lemma each_rule:
  assumes "\<And>x. x \<in> set xs \<Longrightarrow> tri (P x) (f x) R (\<lambda>_ _. True)" and "\<And>x s s'. R s s' \<Longrightarrow> P x s \<Longrightarrow> P x s'"
  shows "tri (\<lambda>s. \<forall>x \<in> set xs. P x s) (each f xs) R (\<lambda>_ _. True)"
  using assms(1)
proof (induction xs)
  case (Cons x xs)
  have "tri (\<lambda>s. P x s \<and> (\<forall>y \<in> set xs. P y s)) (logged (f x)) R (\<lambda>_ s. True \<and> (\<forall>y \<in> set xs. P y s))"
    by (rule tri_carry [OF logged_rule [OF Cons.prems]]) (use assms(2) in auto)
  then have "tri (\<lambda>s. P x s \<and> (\<forall>y \<in> set xs. P y s)) (andthen (logged (f x)) (\<lambda>_. each f xs)) R (\<lambda>_ _. True)"
    by (rule andthen_rule) (use Cons in simp)
  then show ?case by simp
qed (simp add: ret_any)

lemma each_any: "(\<And>x. tri (\<lambda>_. True) (f x) R (\<lambda>_ _. True)) \<Longrightarrow> tri (\<lambda>_. True) (each f xs) R (\<lambda>_ _. True)"
  using each_rule [where P = "\<lambda>_ _. True" and f = f and xs = xs] by simp

lemma every_any: "(\<And>x. x \<in> set xs \<Longrightarrow> tri (\<lambda>_. True) (f x) R (\<lambda>_ _. True)) \<Longrightarrow> tri (\<lambda>_. True) (every f xs) R (\<lambda>_ _. True)"
proof (induction xs)
  case (Cons x xs)
  then have "tri (\<lambda>_. True) (andthen (f x) (\<lambda>_. every f xs)) R (\<lambda>_ _. True)" by (intro andthen_rule) auto
  then show ?case by simp
qed (simp add: ret_any)

end

lemma led_refl [simp, intro]: "led s s"
  by (simp add: led_def)

lemma led_trans: "led a b \<Longrightarrow> led b c \<Longrightarrow> led a c"
  by (simp add: led_def)

lemma calm_status: "calm s s' \<Longrightarrow> status_in S ext s \<Longrightarrow> status_in S ext s'"
  unfolding calm_def status_in_def using quiet_status by blast

lemma calm_idle: "calm s s' \<Longrightarrow> idle ext s' = idle ext s"
  by (simp add: calm_def idle_def)

lemma onward_trans: "onward a b \<Longrightarrow> onward b c \<Longrightarrow> onward a c"
  by (auto simp: onward_def intro: led_trans)

lemma calm_onward: "calm s s' \<Longrightarrow> onward s s'"
  using calm_status by (auto simp: onward_def calm_def)

text \<open>Other services may act around a call, and the books stay good.\<close>

lemma others_ok:
  assumes "ledger_ok (ls_db srv)"
  shows "ledger_ok (ls_db (others digest ops srv)) \<and>
    (\<forall>ext st. ext_status (ls_db srv) ext = Some st \<longrightarrow> Terminal st \<longrightarrow> ext_status (ls_db (others digest ops srv)) ext = Some st)"
  using assms
proof (induction ops arbitrary: srv)
  case (Cons o1 ops)
  obtain now opn where o1: "o1 = (now, opn)" by fastforce
  show ?case
  proof (cases "ledger_exec digest opn (at_time now srv)")
    case (Inl e)
    then show ?thesis using Cons.IH [OF Cons.prems] by (simp add: others_def o1)
  next
    case (Inr db)
    let ?srv = "srv\<lparr>ls_db := db\<rparr>"
    have v: "served digest srv ?srv" using Inr unfolding served_def by auto
    have IH: "ledger_ok (ls_db (others digest ops ?srv)) \<and> (\<forall>ext st. ext_status (ls_db ?srv) ext = Some st \<longrightarrow>
        Terminal st \<longrightarrow> ext_status (ls_db (others digest ops ?srv)) ext = Some st)"
      by (rule Cons.IH) (use served_ok [OF v Cons.prems] in simp)
    have "others digest (o1 # ops) srv = others digest ops ?srv" using Inr by (simp add: others_def o1)
    then show ?thesis using IH served_terminal [OF v Cons.prems] by auto
  qed
qed (simp add: others_def)

lemma backed_led:
  assumes "backed t l ext st" and "\<And>e s. ext_status l e = Some s \<Longrightarrow> Terminal s \<Longrightarrow> ext_status l' e = Some s"
  shows "backed t l' ext st"
  using assms(1) assms(2) [of ext Refunded] assms(2) [of ext Settled] assms(2) [of ext Expired]
  unfolding backed_def by simp

lemma sys_ok_calm:
  assumes ok: "sys_ok s" and led: "led s s'" and books: "ledger_ok (sy_books s')"
    and same: "sy_world s' = sy_world s" "sy_sweeps s' = sy_sweeps s"
    and legs: "legs_ok (sy_legs s') \<and> quiet (sy_legs s) (sy_legs s') \<and> (\<forall>addr. earned_at (sy_legs s) addr \<le> earned_at (sy_legs s') addr)"
  shows "sys_ok s' \<and> calm s s'"
proof -
  have "backed (sy_attempts s) (sy_books s') ext (leg_status_of (sy_legs s') ext)" for ext
  proof (rule backed_quiet)
    show "quiet (sy_legs s) (sy_legs s')" using legs by blast
    show "backed (sy_attempts s) (sy_books s') ext (leg_status_of (sy_legs s) ext)"
      by (rule backed_led [of _ "sy_books s"]) (use ok led in \<open>auto simp: sys_ok_def led_def booked_def\<close>)
  qed
  moreover have "covered (sy_sweeps s) (sy_legs s')"
    using ok legs unfolding sys_ok_def covered_def by (meson order_trans)
  ultimately show ?thesis using assms by (simp add: sys_ok_def calm_def)
qed

lemma next_fault_ok:
  assumes ok: "sys_ok s" and n: "next_fault te s = (s', rep)"
  shows "sys_ok s' \<and> calm s s'"
proof (cases "sy_faults s")
  case Nil
  then have "s' = s\<lparr>sy_calls := Suc (sy_calls s)\<rparr>" using n by (simp add: next_fault_def)
  then show ?thesis using ok by (intro sys_ok_calm) (auto simp: led_def booked_def sys_ok_def)
next
  case (Cons f fs)
  then have s': "s' = s\<lparr>sy_calls := Suc (sy_calls s), sy_faults := fs, sy_legs := meanwhile (ft_legs f) (sy_legs s),
      sy_ledger := others (te_digest te) (ft_others f) (sy_ledger s)\<rparr>"
    using n by (simp add: next_fault_def)
  have "ledger_ok (sy_books s)" "legs_ok (sy_legs s)" using ok by (simp_all add: sys_ok_def)
  from others_ok [OF this(1)] meanwhile_ok [OF this(2)]
  have o: "ledger_ok (sy_books s')" "led s s'" and l: "legs_ok (sy_legs s') \<and> quiet (sy_legs s) (sy_legs s') \<and>
      (\<forall>addr. earned_at (sy_legs s) addr \<le> earned_at (sy_legs s') addr)"
    by (simp_all add: s' led_def booked_def)
  show ?thesis by (rule sys_ok_calm [OF ok o(2,1) _ _ l]) (simp_all add: s')
qed

text \<open>The relations the ticks use allow whatever happens around a call.\<close>

locale calm_progress = progress R for R :: "sys \<Rightarrow> sys \<Rightarrow> bool" +
  assumes calm: "calm s s' \<Longrightarrow> R s s'"
begin

lemma call_rule:
  assumes m: "tri P f R Q" and P: "\<And>s s'. calm s s' \<Longrightarrow> P s \<Longrightarrow> P s'"
  shows "tri P (call te f) R Q"
proof (rule triI)
  fix s s' r
  assume s: "sys_ok s" "P s" and c: "call te f s = (s', r)"
  obtain s1 rep where n: "next_fault te s = (s1, rep)" by fastforce
  note s1 = next_fault_ok [OF s(1) n]
  have P1: "P s1" using P s1 s(2) by blast
  obtain s2 q where f: "f s1 = (s2, q)" by fastforce
  note q = triD [OF m s1 [THEN conjunct1] P1 f]
  have "R s s1" using calm s1 by blast
  then show "sys_ok s' \<and> R s s' \<and> (\<forall>x. r = Inr x \<longrightarrow> Q x s')"
    using c n f q s1 trans by (cases rep) (auto simp: call_def)
qed

text \<open>Reads: the value is what the state shows; what is steady around a call still holds.\<close>

lemma leg_read_rule:
  assumes "\<And>s s'. calm s s' \<Longrightarrow> P s \<Longrightarrow> P s'"
  shows "tri P (leg_read te f) R (\<lambda>x s. P s \<and> f (sy_legs s) = Inr x)"
  unfolding leg_read_def
proof (rule call_rule)
  show "tri P (\<lambda>s. lift LegFailure (f (sy_legs s)) s) R (\<lambda>x s. P s \<and> f (sy_legs s) = Inr x)"
    by (rule triI) (auto simp: lift_def ret_def fail_def split: sum.splits)
qed (rule assms)

lemma attempt_read_rule:
  assumes "\<And>s s'. calm s s' \<Longrightarrow> P s \<Longrightarrow> P s'"
  shows "tri P (attempt_read te f) R (\<lambda>x s. P s \<and> f (sy_attempts s) = x)"
  unfolding attempt_read_def by (rule call_rule) (use assms in \<open>auto simp: tri_def\<close>)

lemma sweep_read_rule:
  assumes "\<And>s s'. calm s s' \<Longrightarrow> P s \<Longrightarrow> P s'"
  shows "tri P (sweep_read te f) R (\<lambda>x s. P s \<and> f (sy_sweeps s) (sy_legs s) = Inr x)"
  unfolding sweep_read_def
proof (rule call_rule)
  show "tri P (\<lambda>s. lift SweepFailure (f (sy_sweeps s) (sy_legs s)) s) R (\<lambda>x s. P s \<and> f (sy_sweeps s) (sy_legs s) = Inr x)"
    by (rule triI) (auto simp: lift_def ret_def fail_def split: sum.splits)
qed (rule assms)

lemma ledger_read_rule:
  assumes "\<And>s s'. calm s s' \<Longrightarrow> P s \<Longrightarrow> P s'"
  shows "tri P (ledger_read te f) R (\<lambda>x s. P s \<and> f (sy_ledger s) = Inr x)"
  unfolding ledger_read_def
proof (rule call_rule)
  show "tri P (\<lambda>s. lift LedgerFailure (f (sy_ledger s)) s) R (\<lambda>x s. P s \<and> f (sy_ledger s) = Inr x)"
    by (rule triI) (auto simp: lift_def ret_def fail_def split: sum.splits)
qed (rule assms)

lemma asked_rule:
  assumes "\<And>s s'. calm s s' \<Longrightarrow> P s \<Longrightarrow> P s'"
  shows "tri P (asked te f) R (\<lambda>_. P)"
  unfolding asked_def by (rule call_rule) (use assms in \<open>auto simp: tri_def\<close>)

text \<open>A write to the ledger is one operation of the ledger or none.\<close>

lemma ledger_call_rule:
  assumes P: "\<And>s s'. calm s s' \<Longrightarrow> P s \<Longrightarrow> P s'"
    and f: "\<And>now srv srv' r. f now srv = (srv', r) \<Longrightarrow> served digest srv srv'"
    and Q: "\<And>s now srv x. sys_ok s \<Longrightarrow> P s \<Longrightarrow> ledger_ok (ls_db srv) \<Longrightarrow> f now srv = (sy_ledger s, Inr x) \<Longrightarrow> Q x s"
  shows "tri P (ledger_call te f) R Q"
  unfolding ledger_call_def
proof (rule call_rule [OF _ P])
  let ?m = "\<lambda>s. case f (te_now te (sy_calls s)) (sy_ledger s) of (srv, r) \<Rightarrow> lift LedgerFailure r (s\<lparr>sy_ledger := srv\<rparr>)"
  show "tri P ?m R Q"
  proof (rule triI)
    fix s s' r
    assume s: "sys_ok s" "P s" and m: "?m s = (s', r)"
    obtain srv q where q: "f (te_now te (sy_calls s)) (sy_ledger s) = (srv, q)" by fastforce
    have s': "s' = s\<lparr>sy_ledger := srv\<rparr>" and r: "\<And>x. r = Inr x \<Longrightarrow> q = Inr x"
      using m q by (auto simp: lift_def ret_def fail_def split: sum.splits)
    have l: "ledger_ok (sy_books s)" using s(1) by (simp add: sys_ok_def)
    have v: "served digest (sy_ledger s) srv" by (rule f [OF q])
    have b: "ledger_ok (sy_books s')" "led s s'"
      using served_ok [OF v l] served_terminal [OF v l] by (simp_all add: s' led_def booked_def)
    have c: "sys_ok s' \<and> calm s s'"
      by (rule sys_ok_calm [OF s(1) b(2,1)]) (use s(1) in \<open>simp_all add: s' sys_ok_def\<close>)
    have "Q x s'" if x: "r = Inr x" for x
    proof (rule Q)
      show "sys_ok s'" "P s'" using c P s(2) by blast+
      show "ledger_ok (ls_db (sy_ledger s))" by (rule l)
      show "f (te_now te (sy_calls s)) (sy_ledger s) = (sy_ledger s', Inr x)" using q r [OF x] by (simp add: s')
    qed
    then show "sys_ok s' \<and> R s s' \<and> (\<forall>x. r = Inr x \<longrightarrow> Q x s')" using c calm by blast
  qed
qed

end

interpretation calmly: calm_progress calm
  by unfold_locales (auto simp: calm_def intro: led_trans order_trans quiet_trans)

interpretation go_on: calm_progress onward
proof
  show "onward s s" for s by (simp add: onward_def)
qed (fact onward_trans calm_onward)+

interpretation go_forward: calm_progress forward_on
  using calm_status calm_onward by unfold_locales (auto simp: forward_on_def intro: onward_trans)

interpretation send_nothing: calm_progress unsent
  using calm_onward by unfold_locales (auto simp: unsent_def calm_def intro: onward_trans)

lemma unsent_onward: "unsent s s' \<Longrightarrow> onward s s'"
  by (simp add: unsent_def)

lemma unsent_idle: "unsent s s' \<Longrightarrow> idle ext s' = idle ext s"
  by (simp add: unsent_def idle_def)

lemma forward_onward: "forward_on s s' \<Longrightarrow> onward s s'"
  by (simp add: forward_on_def)

lemma led_booked: "led s s' \<Longrightarrow> Terminal st \<Longrightarrow> booked st ext s \<Longrightarrow> booked st ext s'"
  by (simp add: led_def)

lemma onward_led: "onward s s' \<Longrightarrow> led s s'"
  by (simp add: onward_def)

lemma calm_led: "calm s s' \<Longrightarrow> led s s'"
  by (simp add: calm_def)

end
