(* ===== verification/Orch_Calls.thy ===== *)
theory Orch_Calls
  imports Orch_Logic
begin

text \<open>
  What the writes of a tick keep: notes on a leg, the transitions of a leg with what each must be
  backed by, the driver, and the statements on attempts and sweeps.
\<close>

section \<open>Notes on legs\<close>

lemma sys_ok_legs:
  assumes ok: "sys_ok s" and l: "legs_step (sy_legs s) ldb" "legs_ok ldb"
    and b: "\<And>ext. backed (sy_attempts s) (sy_books s) ext (leg_status_of ldb ext)"
  shows "sys_ok (s\<lparr>sy_legs := ldb\<rparr>)"
  using ok covered_legs [of "sy_sweeps s" "sy_legs s" ldb] l b by (simp add: sys_ok_def)

context calm_progress
begin

lemma leg_note_rule:
  assumes P: "\<And>s s'. calm s s' \<Longrightarrow> P s \<Longrightarrow> P s'"
    and e: "\<And>now db db' x. f now db = Inr (db', x) \<Longrightarrow> leg_exec (opn now) db = Inr db'"
    and st: "\<And>now db db' x. f now db = Inr (db', x) \<Longrightarrow> quiet db db'"
  shows "tri P (leg_update te f) R (\<lambda>x s. P s \<and> (\<exists>now db. legs_ok db \<and> f now db = Inr (sy_legs s, x)))"
  unfolding leg_update_def
proof (rule call_rule [OF _ P])
  let ?m = "\<lambda>s. case f (te_now te (sy_calls s)) (sy_legs s) of
      Inl e \<Rightarrow> (s, Inl (LegFailure e)) | Inr (db, x) \<Rightarrow> (s\<lparr>sy_legs := db\<rparr>, Inr x)"
  show "tri P ?m R (\<lambda>x s. P s \<and> (\<exists>now db. legs_ok db \<and> f now db = Inr (sy_legs s, x)))"
  proof (rule triI)
    fix s s' r
    assume s: "sys_ok s" "P s" and m: "?m s = (s', r)"
    have lok: "legs_ok (sy_legs s)" using s(1) by (simp add: sys_ok_def)
    show "sys_ok s' \<and> R s s' \<and> (\<forall>x. r = Inr x \<longrightarrow> P s' \<and> (\<exists>now db. legs_ok db \<and> f now db = Inr (sy_legs s', x)))"
    proof (cases "f (te_now te (sy_calls s)) (sy_legs s)")
      case (Inl e)
      then show ?thesis using s m by auto
    next
      case (Inr v)
      obtain db x where v: "v = (db, x)" by fastforce
      have f: "f (te_now te (sy_calls s)) (sy_legs s) = Inr (db, x)" using Inr v by simp
      have s': "s' = s\<lparr>sy_legs := db\<rparr>" "r = Inr x" using m f by auto
      note st = st [OF f] and step = leg_exec_ok [OF lok e [OF f]]
      have "sys_ok s'" unfolding s'
        by (rule sys_ok_legs [OF s(1)]) (use step s(1) in \<open>auto simp: sys_ok_def intro: backed_quiet [OF st]\<close>)
      moreover have "calm s s'" using st earned_at_step step lok by (simp add: s' calm_def led_def booked_def)
      ultimately show ?thesis using calm P s(2) f lok by (auto simp: s')
    qed
  qed
qed

lemma leg_note_write:
  assumes "\<And>s s'. calm s s' \<Longrightarrow> P s \<Longrightarrow> P s'"
    and e: "\<And>now db db'. f now db = Inr db' \<Longrightarrow> leg_exec (opn now) db = Inr db'"
    and "\<And>now db db'. f now db = Inr db' \<Longrightarrow> leg_status_of db' = leg_status_of db"
  shows "tri P (leg_write te f) R (\<lambda>_. P)"
  unfolding leg_write_def
  by (rule tri_post [OF leg_note_rule [where opn = opn]]) (use assms quiet_same in auto)

end

section \<open>Transitions of legs\<close>

lemma mark_status:
  assumes ok: "legs_ok db" and m: "mark_leg ext from to f db = Inr db'"
    and f: "\<And>r. lg_status (f r) = to" "\<And>r. lg_external_id (f r) = lg_external_id r"
  shows "leg_status_of db' = (leg_status_of db)(ext := Some to)"
    "\<exists>st \<in> insert to (set from). leg_status_of db ext = Some st"
proof -
  note w = mark_leg_Inr [OF m, unfolded write_legs_Inr]
  have at: "leg_at db' e = map_option (\<lambda>r. if at_status ext from r then f r else r) (leg_at db e)" for e
    using w by (simp add: leg_at_def leg_at_update f(2))
  have ext: "\<exists>r. leg_at db ext = Some r \<and> lg_status r \<in> insert to (set from)"
  proof (cases "affected (at_status ext from) (legs db) = 0")
    case True
    then have "checkAlreadyAt db' ext to = Inr ()" using m w by (auto simp: mark_leg_def split: if_splits)
    then obtain r where r: "leg_at db' ext = Some r" "lg_status r = to"
      by (auto simp: checkAlreadyAt_def Leg_GetByExternalID_def leg_at_def scanLeg_def leg_core.defs split: option.splits if_splits)
    have "\<not> at_status ext from q" if "q \<in> set (legs db)" for q using True that by (auto simp: affected_0)
    then have "leg_at db' ext = leg_at db ext"
      using w by (simp add: leg_at_def update_rows_none)
    then show ?thesis using r by (intro exI [of _ r]) simp
  next
    case False
    then obtain r where r: "r \<in> set (legs db)" "at_status ext from r" by (auto simp: affected_0)
    then have "leg_at db ext = Some r" unfolding leg_at_def using ok
      by (intro first_row_unique) (auto simp: legs_ok_def at_status_def)
    then show ?thesis using r(2) by (auto simp: at_status_def)
  qed
  then show "\<exists>st \<in> insert to (set from). leg_status_of db ext = Some st" by (auto simp: leg_status_of_def)
  show "leg_status_of db' = (leg_status_of db)(ext := Some to)"
  proof
    fix e
    show "leg_status_of db' e = ((leg_status_of db)(ext := Some to)) e"
    proof (cases "e = ext")
      case True
      obtain r where "leg_at db ext = Some r" "lg_status r \<in> insert to (set from)" using ext by blast
      then show ?thesis using True leg_atD [of db ext r] f(1) by (auto simp: leg_status_of_def at at_status_def)
    next
      case False
      then show ?thesis using leg_atD [of db e] by (cases "leg_at db e") (auto simp: leg_status_of_def at at_status_def)
    qed
  qed
qed

text \<open>A transition of a leg is good when its new status is backed.\<close>

definition marks :: "(time \<Rightarrow> relay_db \<Rightarrow> relay_error + relay_db) \<Rightarrow> string \<Rightarrow> leg_status list \<Rightarrow> leg_status \<Rightarrow> bool" where
  "marks f ext from to \<longleftrightarrow>
     (\<forall>now. (\<exists>g. f now = mark_leg ext from to g \<and> (\<forall>r. lg_status (g r) = to \<and> lg_external_id (g r) = lg_external_id r)) \<and>
       (\<exists>opn. \<forall>db. f now db = leg_exec opn db))"

lemma marksI:
  assumes "\<And>now db. f now db = leg_exec (opn now) db" and "\<And>now. f now = mark_leg ext from to (g now)"
    and "\<And>now r. lg_status (g now r) = to" "\<And>now r. lg_external_id (g now r) = lg_external_id r"
  shows "marks f ext from to"
  unfolding marks_def
proof (intro allI conjI)
  fix now
  show "\<exists>h. f now = mark_leg ext from to h \<and> (\<forall>r. lg_status (h r) = to \<and> lg_external_id (h r) = lg_external_id r)"
    using assms(2-4) by blast
  show "\<exists>q. \<forall>db. f now db = leg_exec q db" using assms(1) by blast
qed

lemma marks_ops:
  "marks (\<lambda>now. MarkForwarding now ext p i a) ext [AWAITING_DEPOSIT] FORWARDING"
  "marks (\<lambda>now. MarkForwarded now ext tx) ext [FORWARDING] FORWARDED"
  "marks (\<lambda>now. MarkSettled now ext amt) ext [FORWARDED] SETTLED"
  "marks (\<lambda>now. MarkRefundPending now ext) ext [AWAITING_DEPOSIT, FORWARDING] REFUND_PENDING"
  "marks (\<lambda>now. MarkRefunded now ext tx) ext [REFUND_PENDING] REFUNDED"
  "marks (\<lambda>now. MarkUnrecoverable now ext) ext [FORWARDED] UNRECOVERABLE"
  "marks (\<lambda>now. MarkExpired now ext) ext [AWAITING_DEPOSIT] EXPIRED"
  by (rule marksI [where opn = "\<lambda>now. OpMarkForwarding now ext p i a"], simp, rule MarkForwarding_def, simp_all)
    (rule marksI [where opn = "\<lambda>now. OpMarkForwarded now ext tx"], simp, rule MarkForwarded_def, simp_all,
     rule marksI [where opn = "\<lambda>now. OpMarkSettled now ext amt"], simp, rule MarkSettled_def, simp_all,
     rule marksI [where opn = "\<lambda>now. OpMarkRefundPending now ext"], simp, rule MarkRefundPending_def, simp_all,
     rule marksI [where opn = "\<lambda>now. OpMarkRefunded now ext tx"], simp, rule MarkRefunded_def, simp_all,
     rule marksI [where opn = "\<lambda>now. OpMarkUnrecoverable now ext"], simp, rule MarkUnrecoverable_def, simp_all,
     rule marksI [where opn = "\<lambda>now. OpMarkExpired now ext"], simp, rule MarkExpired_def, simp_all)

context calm_progress
begin

lemma mark_rule:
  assumes m: "marks f ext from to" and P: "\<And>s s'. calm s s' \<Longrightarrow> P s \<Longrightarrow> P s'"
    and bk: "\<And>s st. sys_ok s \<Longrightarrow> P s \<Longrightarrow> st \<in> insert to (set from) \<Longrightarrow>
      leg_status_of (sy_legs s) ext = Some st \<Longrightarrow> backed (sy_attempts s) (sy_books s) ext (Some to)"
    and R: "\<And>s ldb st. P s \<Longrightarrow> st \<in> insert to (set from) \<Longrightarrow> leg_status_of (sy_legs s) ext = Some st \<Longrightarrow>
      leg_status_of ldb = (leg_status_of (sy_legs s))(ext := Some to) \<Longrightarrow> R s (s\<lparr>sy_legs := ldb\<rparr>)"
  shows "tri P (leg_write te f) R (\<lambda>_ _. True)"
  unfolding leg_write_def leg_update_def
proof (rule call_rule [OF _ P])
  let ?m = "\<lambda>s. case rbind (f (te_now te (sy_calls s)) (sy_legs s)) (\<lambda>db. Inr (db, ())) of
      Inl e \<Rightarrow> (s, Inl (LegFailure e)) | Inr (db, x) \<Rightarrow> (s\<lparr>sy_legs := db\<rparr>, Inr x)"
  show "tri P ?m R (\<lambda>_ _. True)"
  proof (rule triI)
    fix s s' r
    assume s: "sys_ok s" "P s" and q: "?m s = (s', r)"
    have lok: "legs_ok (sy_legs s)" using s(1) by (simp add: sys_ok_def)
    show "sys_ok s' \<and> R s s' \<and> (\<forall>x. r = Inr x \<longrightarrow> True)"
    proof (cases "f (te_now te (sy_calls s)) (sy_legs s)")
      case (Inl e)
      then show ?thesis using s q by auto
    next
      case (Inr ldb)
      let ?now = "te_now te (sy_calls s)"
      obtain g opn where g: "f ?now = mark_leg ext from to g" "\<And>r. lg_status (g r) = to"
          "\<And>r. lg_external_id (g r) = lg_external_id r" and opn: "\<And>db. f ?now db = leg_exec opn db"
        using m unfolding marks_def by metis
      have ml: "mark_leg ext from to g (sy_legs s) = Inr ldb" using Inr g(1) by simp
      have step: "legs_step (sy_legs s) ldb \<and> legs_ok ldb" using leg_exec_ok [OF lok, of opn] Inr opn by simp
      obtain st where st: "st \<in> insert to (set from)" "leg_status_of (sy_legs s) ext = Some st"
        and upd: "leg_status_of ldb = (leg_status_of (sy_legs s))(ext := Some to)"
        using mark_status [OF lok ml g(2,3)] by blast
      have s': "s' = s\<lparr>sy_legs := ldb\<rparr>" using q Inr by auto
      have "sys_ok s'" unfolding s'
        by (rule sys_ok_legs [OF s(1)]) (use step s(1) upd bk [OF s st] in \<open>auto simp: sys_ok_def\<close>)
      then show ?thesis using R [OF s(2) st upd] by (simp add: s')
    qed
  qed
qed

end

lemma onward_mark:
  assumes "leg_status_of ldb = (leg_status_of (sy_legs s))(ext := Some to)" and "leg_status_of (sy_legs s) ext = Some st"
    and "st \<in> {REFUND_PENDING, REFUNDED} \<Longrightarrow> to \<in> {REFUND_PENDING, REFUNDED}"
  shows "unsent s (s\<lparr>sy_legs := ldb\<rparr>)"
  using assms by (auto simp: unsent_def onward_def led_def booked_def status_in_def)

lemma forward_mark:
  assumes "leg_status_of ldb = (leg_status_of (sy_legs s))(ext := Some to)" and "leg_status_of (sy_legs s) ext = Some st"
    and "st \<in> {REFUND_PENDING, REFUNDED} \<Longrightarrow> to \<in> {REFUND_PENDING, REFUNDED}" and "st \<in> forwards \<Longrightarrow> to \<in> forwards"
  shows "forward_on s (s\<lparr>sy_legs := ldb\<rparr>)"
  using onward_mark [OF assms(1-3)] assms by (auto simp: forward_on_def unsent_def status_in_def)

lemma backed_of: "sys_ok s \<Longrightarrow> leg_status_of (sy_legs s) ext = Some st \<Longrightarrow> backed (sy_attempts s) (sy_books s) ext (Some st)"
  unfolding sys_ok_def by metis

text \<open>The seven transitions, each with what it needs.\<close>

lemma MarkForwarding_rule:
  assumes "\<And>s s'. calm s s' \<Longrightarrow> P s \<Longrightarrow> P s'"
  shows "tri P (leg_write te (\<lambda>now. MarkForwarding now ext p i a)) unsent (\<lambda>_ _. True)"
proof (rule send_nothing.mark_rule [OF marks_ops(1) assms])
  show "backed (sy_attempts s) (sy_books s) ext (Some FORWARDING)"
    if "sys_ok s" "st \<in> insert FORWARDING (set [AWAITING_DEPOSIT])" "leg_status_of (sy_legs s) ext = Some st" for s st
    using backed_of [OF that(1,3)] that(2) by (auto simp: backed_def)
qed (auto intro: onward_mark)

lemma MarkForwarded_rule:
  "tri (\<lambda>s. confirmed_job (sy_attempts s) (ext, FORWARD)) (leg_write te (\<lambda>now. MarkForwarded now ext tx)) forward_on (\<lambda>_ _. True)"
proof (rule go_forward.mark_rule [OF marks_ops(2)])
  show "confirmed_job (sy_attempts s') (ext, FORWARD)" if "calm s s'" "confirmed_job (sy_attempts s) (ext, FORWARD)" for s s'
    using that by (simp add: calm_def)
  show "backed (sy_attempts s) (sy_books s) ext (Some FORWARDED)"
    if "sys_ok s" "confirmed_job (sy_attempts s) (ext, FORWARD)" "st \<in> insert FORWARDED (set [FORWARDING])"
      "leg_status_of (sy_legs s) ext = Some st" for s st
    using backed_of [OF that(1,4)] that(2,3) by (auto simp: backed_def)
qed (auto intro: forward_mark simp: forwards_def)

lemma booked_steady: "Terminal st \<Longrightarrow> calm s s' \<Longrightarrow> booked st ext s \<Longrightarrow> booked st ext s'"
  by (auto dest: led_booked [OF calm_led])

lemma terminals [simp]: "Terminal Settled" "Terminal Refunded" "Terminal Expired"
  by simp_all

lemma MarkSettled_rule:
  "tri (booked Settled ext) (leg_write te (\<lambda>now. MarkSettled now ext amt)) forward_on (\<lambda>_ _. True)"
proof (rule go_forward.mark_rule [OF marks_ops(3)])
  show "backed (sy_attempts s) (sy_books s) ext (Some SETTLED)"
    if "sys_ok s" "booked Settled ext s" "st \<in> insert SETTLED (set [FORWARDED])" "leg_status_of (sy_legs s) ext = Some st" for s st
    using backed_of [OF that(1,4)] that(2,3) by (auto simp: backed_def booked_def)
qed (auto intro: forward_mark booked_steady [rotated] simp: forwards_def)

lemma MarkUnrecoverable_rule:
  "tri (\<lambda>_. True) (leg_write te (\<lambda>now. MarkUnrecoverable now ext)) forward_on (\<lambda>_ _. True)"
proof (rule go_forward.mark_rule [OF marks_ops(6)])
  show "backed (sy_attempts s) (sy_books s) ext (Some UNRECOVERABLE)"
    if "sys_ok s" "st \<in> insert UNRECOVERABLE (set [FORWARDED])" "leg_status_of (sy_legs s) ext = Some st" for s st
    using backed_of [OF that(1,3)] that(2) by (auto simp: backed_def)
qed (auto intro: forward_mark simp: forwards_def)

lemma MarkRefundPending_rule:
  "tri (\<lambda>s. booked Refunded ext s \<and> idle ext s) (leg_write te (\<lambda>now. MarkRefundPending now ext)) unsent (\<lambda>_ _. True)"
proof (rule send_nothing.mark_rule [OF marks_ops(4)])
  show "booked Refunded ext s' \<and> idle ext s'" if "calm s s'" "booked Refunded ext s \<and> idle ext s" for s s'
    using that booked_steady [of Refunded s s' ext] calm_idle [OF that(1)] by simp
  show "backed (sy_attempts s) (sy_books s) ext (Some REFUND_PENDING)"
    if "sys_ok s" "booked Refunded ext s \<and> idle ext s" "st \<in> insert REFUND_PENDING (set [AWAITING_DEPOSIT, FORWARDING])"
      "leg_status_of (sy_legs s) ext = Some st" for s st
    using backed_of [OF that(1,4)] that(2,3) by (auto simp: backed_def booked_def idle_def)
qed (auto intro: onward_mark)

lemma MarkRefunded_rule:
  "tri (\<lambda>s. confirmed_job (sy_attempts s) (ext, REFUND)) (leg_write te (\<lambda>now. MarkRefunded now ext tx)) forward_on (\<lambda>_ _. True)"
proof (rule go_forward.mark_rule [OF marks_ops(5)])
  show "confirmed_job (sy_attempts s') (ext, REFUND)" if "calm s s'" "confirmed_job (sy_attempts s) (ext, REFUND)" for s s'
    using that by (simp add: calm_def)
  show "backed (sy_attempts s) (sy_books s) ext (Some REFUNDED)"
    if "sys_ok s" "confirmed_job (sy_attempts s) (ext, REFUND)" "st \<in> insert REFUNDED (set [REFUND_PENDING])"
      "leg_status_of (sy_legs s) ext = Some st" for s st
    using backed_of [OF that(1,4)] that(2,3) by (auto simp: backed_def)
qed (auto intro: forward_mark simp: forwards_def)

lemma MarkExpired_rule:
  "tri (booked Expired ext) (leg_write te (\<lambda>now. MarkExpired now ext)) unsent (\<lambda>_ _. True)"
proof (rule send_nothing.mark_rule [OF marks_ops(7)])
  show "backed (sy_attempts s) (sy_books s) ext (Some EXPIRED)"
    if "sys_ok s" "booked Expired ext s" "st \<in> insert EXPIRED (set [AWAITING_DEPOSIT])" "leg_status_of (sy_legs s) ext = Some st" for s st
    using backed_of [OF that(1,4)] that(2,3) by (auto simp: backed_def booked_def)
qed (auto intro: onward_mark booked_steady [rotated])

section \<open>The driver\<close>

context chain_adapter
begin

lemma trackSent_result:
  assumes "trackSent now (ads c) a w = (w', Inr (Some b))"
  shows "b = a\<lparr>ta_status := Confirmed\<rparr>"
  using assms
  by (auto simp: trackSent_def rthen_def store_call_def sendAttempt_def Let_def
      split: prod.splits sum.splits sent_outcome.splits if_splits option.splits)

text \<open>An attempt the driver returns is a confirmed row of the job it was asked for.\<close>

lemma driveTransfer_confirms:
  assumes ok: "world_ok w" and d: "driveTransfer now sv ads req w = (w', Inr (Some b))"
  shows "confirmed_job (wd_db w') (tr_job req, tr_purpose req)"
proof -
  let ?db = "wd_db w" and ?ad = "ads (tr_chain req)"
  note k = driveTransfer_ok [OF ok d]
  have tok: "transfers_ok ?db" using ok by (simp add: world_ok_def)
  have "\<exists>a \<in> set (attempts ?db). ta_id a = ta_id b \<and> attempt_job a = (tr_job req, tr_purpose req)"
  proof (cases "ConfirmedAttempt ?db (tr_job req) (tr_purpose req)")
    case (Some c)
    then have "c = b" using d by (auto simp: driveTransfer_def adapterFor_def split: if_splits sum.splits chain.splits)
    then show ?thesis using ConfirmedAttempt_Some [OF Some] by blast
  next
    case none: None
    show ?thesis
    proof (cases "OpenAttempt ?db (tr_job req) (tr_purpose req)")
      case (Some a)
      have sg: "signAndSend now sv (ads c) req a w \<noteq> (w', Inr (Some b))" if "ta_status a = Built" for c
        using signAndSend_ok [OF ok OpenAttempt_Some(1) [OF Some] that] by blast
      have "trackSent now ?ad a w = (w', Inr (Some b))"
        using d none Some sg OpenAttempt_Some(3) [OF Some]
        by (auto simp: driveTransfer_def adapterFor_def rthen_def MayLand_def
            split: if_splits sum.splits prod.splits chain.splits)
      then have "b = a\<lparr>ta_status := Confirmed\<rparr>" by (rule trackSent_result)
      then show ?thesis using OpenAttempt_Some [OF Some] by auto
    next
      case None
      obtain w1 q where q: "ad_build ?ad req (CountFailed ?db (tr_job req) (tr_purpose req)) w = (w1, q)" by fastforce
      note w1 = build [OF ok q]
      obtain built db a where c: "q = Inr built" "CreateAttempt now built (wd_db w1) = Inr (db, a)"
          "signAndSend now sv ?ad req a (w1\<lparr>wd_db := db\<rparr>) = (w', Inr (Some b))"
        using d none None q
        by (auto simp: driveTransfer_def adapterFor_def Let_def
            split: if_splits sum.splits build_error.splits option.splits chain.splits)
      have w1w: "w1 = w" using w1 c(1) by blast
      have cr: "CreateAttempt now built ?db = Inr (db, a)" using c(2) w1w by simp
      note ca = CreateAttempt_Inr [OF tok cr]
      have e: "transfer_exec (OpCreateAttempt now built) ?db = Inr db" using cr by simp
      have job: "attempt_job a = (tr_job req, tr_purpose req)" using w1 c(1) by (simp add: ca(1))
      have "one_live db"
      proof (rule new_live [of ?db a])
        show "one_live ?db" using ok by (simp add: world_ok_def)
        show "\<forall>x \<in> set (attempts ?db). live x \<longrightarrow> attempt_job x \<noteq> attempt_job a"
          using none_live [OF None none] job by simp
        show "attempts db = attempts ?db @ [a]" by (simp add: ca(3))
      qed
      then have ok': "world_ok (w\<lparr>wd_db := db\<rparr>)"
        using ok transfer_exec_ok [OF tok e] exec_reads_on [OF tok e] sent_ok_keeps [of w db] CreateAttempt_rentals [OF cr]
        by (simp add: world_ok_def rentals_ok_def)
      have "a \<in> set (attempts (wd_db (w\<lparr>wd_db := db\<rparr>)))" "ta_status a = Built" using ca(3) by (simp_all add: ca(1))
      from signAndSend_ok [OF ok' this c(3) [unfolded w1w]] show ?thesis by blast
    qed
  qed
  then obtain a where a: "a \<in> set (attempts ?db)" "ta_id a = ta_id b" "attempt_job a = (tr_job req, tr_purpose req)" by blast
  then have "tx_at ?db (ta_id b) = Some (attempt_tx a)" using attempt_at_mem [OF tok a(1)] by (simp add: tx_at_def)
  then have "tx_at (wd_db w') (ta_id b) = Some (attempt_tx a)" using k unfolding world_step_def reads_on_def by blast
  then show ?thesis using k a(3) unfolding confirmed_job_def by (auto simp: attempt_tx_def attempt_job_def)
qed

end

text \<open>A step of the world that only touches the attempts of jobs whose legs may pay.\<close>

definition payable :: "(string \<times> purpose) set \<Rightarrow> sys \<Rightarrow> bool" where
  "payable J s \<longleftrightarrow>
     (\<forall>ext. ((ext, FORWARD) \<in> J \<longrightarrow> status_in forwards ext s) \<and>
            ((ext, REFUND) \<in> J \<longrightarrow> status_in {REFUND_PENDING, REFUNDED} ext s))"

lemma frame_pays:
  assumes "frame J db db'" and "j \<notin> J"
  shows "may_pay db' j = may_pay db j" "tried db' j = tried db j"
  using frame_mem [OF assms(1)] assms(2) unfolding may_pay_def tried_def by metis+

lemma backed_world:
  assumes b: "backed t l ext st" and r: "reads_on t t'"
    and f: "may_pay t' (ext, FORWARD) \<Longrightarrow> may_pay t (ext, FORWARD) \<or> (\<exists>x \<in> forwards. st = Some x)"
    and g: "tried t' (ext, REFUND) \<Longrightarrow> tried t (ext, REFUND) \<or> (\<exists>x \<in> {REFUND_PENDING, REFUNDED}. st = Some x)"
  shows "backed t' l ext st"
  unfolding backed_def
proof (intro conjI impI)
  assume p: "may_pay t' (ext, FORWARD)"
  show "st \<in> {Some FORWARDING, Some FORWARDED, Some SETTLED, Some UNRECOVERABLE}"
    using f [OF p]
  proof
    assume "may_pay t (ext, FORWARD)"
    then show ?thesis using b by (simp add: backed_def)
  qed (auto simp: forwards_def)
next
  assume p: "tried t' (ext, REFUND)"
  show "st \<in> {Some REFUND_PENDING, Some REFUNDED}"
    using g [OF p]
  proof
    assume "tried t (ext, REFUND)"
    then show ?thesis using b by (simp add: backed_def)
  qed auto
qed (use b confirmed_job_stays [OF r] in \<open>simp_all add: backed_def\<close>)

text \<open>Where only the world moves, the sweeps stay and what addresses earned is not lost.\<close>

definition paying :: "sys \<Rightarrow> sys \<Rightarrow> bool" where
  "paying s s' \<longleftrightarrow> forward_on s s' \<and> sy_sweeps s' = sy_sweeps s \<and>
     (\<forall>addr. earned_at (sy_legs s) addr \<le> earned_at (sy_legs s') addr)"

interpretation while_paying: calm_progress paying
  using go_forward.calm
  by unfold_locales (auto simp: paying_def calm_def intro: go_forward.trans order_trans)

lemma paying_forward: "paying s s' \<Longrightarrow> forward_on s s'"
  by (simp add: paying_def)

lemma sys_ok_world:
  assumes ok: "sys_ok s" and w: "world_ok w'" "world_step (sy_world s) w'" and f: "frame J (sy_attempts s) (wd_db w')"
    and J: "payable J s"
  shows "sys_ok (s\<lparr>sy_world := w'\<rparr>) \<and> paying s (s\<lparr>sy_world := w'\<rparr>)"
proof -
  have "backed (wd_db w') (sy_books s) ext (leg_status_of (sy_legs s) ext)" for ext
  proof (rule backed_world)
    show "backed (sy_attempts s) (sy_books s) ext (leg_status_of (sy_legs s) ext)" using ok by (simp add: sys_ok_def)
    show "reads_on (sy_attempts s) (wd_db w')" using w(2) by (simp add: world_step_def)
    show "may_pay (sy_attempts s) (ext, FORWARD) \<or> (\<exists>x \<in> forwards. leg_status_of (sy_legs s) ext = Some x)"
      if "may_pay (wd_db w') (ext, FORWARD)"
      using that frame_pays(1) [OF f] J by (auto simp: payable_def status_in_def)
    show "tried (sy_attempts s) (ext, REFUND) \<or> (\<exists>x \<in> {REFUND_PENDING, REFUNDED}. leg_status_of (sy_legs s) ext = Some x)"
      if "tried (wd_db w') (ext, REFUND)"
      using that frame_pays(2) [OF f] J by (auto simp: payable_def status_in_def)
  qed
  then show ?thesis using ok w(1) by (simp add: sys_ok_def paying_def forward_on_def onward_def led_def booked_def status_in_def)
qed

lemma payable_top_ups: "payable (insert (job, purp) top_ups) s \<longleftrightarrow>
    (purp = FORWARD \<longrightarrow> status_in forwards job s) \<and> (purp = REFUND \<longrightarrow> status_in {REFUND_PENDING, REFUNDED} job s)"
  by (auto simp: payable_def top_ups_def)

lemma payable_steady: "calm s s' \<Longrightarrow> payable J s \<Longrightarrow> payable J s'"
  using calm_status unfolding payable_def by blast

lemma forward_rest: "forward_on s (s\<lparr>sy_world := w\<rparr>)"
  by (simp add: forward_on_def onward_def led_def booked_def status_in_def)

lemma drive_pays:
  "tri (payable (insert (tr_job req, tr_purpose req) top_ups)) (drive te req) paying
     (\<lambda>r s. \<forall>b. r = Some b \<longrightarrow> confirmed_job (sy_attempts s) (tr_job req, tr_purpose req))"
  unfolding drive_def
proof (rule while_paying.call_rule)
  let ?J = "insert (tr_job req, tr_purpose req) top_ups"
  let ?m = "\<lambda>s. let n = sy_calls s; env = drive_env te n in
     case driveTransfer (te_now te n) (oe_sv env) (adapters (te_now te n) env) req (sy_world s) of
       (w, r) \<Rightarrow> (s\<lparr>sy_world := w\<rparr>, tag DriveFailure r)"
  show "tri (payable ?J) ?m paying
      (\<lambda>r s. \<forall>b. r = Some b \<longrightarrow> confirmed_job (sy_attempts s) (tr_job req, tr_purpose req))"
  proof (rule triI)
    fix s s' r
    assume s: "sys_ok s" "payable ?J s" and m: "?m s = (s', r)"
    let ?now = "te_now te (sy_calls s)" and ?env = "drive_env te (sy_calls s)"
    obtain w q where d: "driveTransfer ?now (oe_sv ?env) (adapters ?now ?env) req (sy_world s) = (w, q)" by fastforce
    have s': "s' = s\<lparr>sy_world := w\<rparr>" "r = tag DriveFailure q" using m d by (simp_all add: Let_def)
    have ok: "world_ok (sy_world s)" using s(1) by (simp add: sys_ok_def)
    have w: "world_ok w" "world_step (sy_world s) w" using chains.driveTransfer_ok [OF ok d] by blast+
    have "frame ?J (sy_attempts s) (wd_db w)" by (rule frames.driveTransfer_frame [OF ok d]) auto
    note k = sys_ok_world [OF s(1) w this s(2)]
    have "confirmed_job (sy_attempts s') (tr_job req, tr_purpose req)" if "r = Inr (Some b)" for b
      using chains.driveTransfer_confirms [OF ok, where b = b] d s' that by (auto simp: tag_def split: sum.splits)
    then show "sys_ok s' \<and> paying s s' \<and>
        (\<forall>x. r = Inr x \<longrightarrow> (\<forall>b. x = Some b \<longrightarrow> confirmed_job (sy_attempts s') (tr_job req, tr_purpose req)))"
      using k s' by simp
  qed
qed (simp add: payable_steady)

lemma drive_rule:
  "tri (payable (insert (tr_job req, tr_purpose req) top_ups)) (drive te req) forward_on
     (\<lambda>r s. \<forall>b. r = Some b \<longrightarrow> confirmed_job (sy_attempts s) (tr_job req, tr_purpose req))"
  by (rule tri_rel [OF drive_pays paying_forward])

lemma track_rule: "tri (\<lambda>_. True) (track_top_ups te) forward_on (\<lambda>_ _. True)"
  unfolding track_top_ups_def
proof (rule go_forward.call_rule)
  let ?m = "\<lambda>s. let n = sy_calls s in
     case trackTopUps (te_now te n) (drive_env te n) (sy_world s) of
       (w, r) \<Rightarrow> (s\<lparr>sy_world := w\<rparr>, tag DriveFailure r)"
  show "tri (\<lambda>_. True) ?m forward_on (\<lambda>_ _. True)"
  proof (rule triI)
    fix s s' r
    assume s: "sys_ok s" and m: "?m s = (s', r)"
    obtain w q where d: "trackTopUps (te_now te (sy_calls s)) (drive_env te (sy_calls s)) (sy_world s) = (w, q)" by fastforce
    have s': "s' = s\<lparr>sy_world := w\<rparr>" using m d by (simp add: Let_def)
    have ok: "world_ok (sy_world s)" using s by (simp add: sys_ok_def)
    have "payable top_ups s" by (simp add: payable_def top_ups_def)
    then show "sys_ok s' \<and> forward_on s s' \<and> (\<forall>x. r = Inr x \<longrightarrow> True)"
      using sys_ok_world [OF s, of w top_ups] paying_forward trackTopUps_ok [OF ok d] trackTopUps_frame [OF ok d] s' by simp
  qed
qed simp

section \<open>Attempts and sweeps\<close>

lemma abandon_pays:
  assumes "MarkAbandoned now i reason db = Inr db'"
  shows "may_pay db' j \<Longrightarrow> may_pay db j" "tried db' j \<Longrightarrow> tried db j"
proof -
  let ?p = "\<lambda>a. ta_id a = i \<and> ta_status a \<in> set [Built]"
  let ?f = "\<lambda>a. a\<lparr>ta_status := Abandoned, ta_updated_at := now, ta_reason := Some reason\<rparr>"
  have rows: "attempts db' = update_rows ?p ?f (attempts db)"
    using transition_Inr [OF assms [unfolded MarkAbandoned_def]] by (simp add: write_attempts_Inr)
  then have mem: "\<exists>b \<in> set (attempts db). a = (if ?p b then ?f b else b)" if "a \<in> set (attempts db')" for a
    using that by (auto simp: set_update_rows)
  show "may_pay db' j \<Longrightarrow> may_pay db j"
    unfolding may_pay_def using mem by (fastforce simp: attempt_job_def MayLand_def split: if_splits)
  show "tried db' j \<Longrightarrow> tried db j"
    unfolding tried_def using mem by (fastforce simp: attempt_job_def split: if_splits)
qed

text \<open>Giving up an unsigned attempt frees nothing that could pay.\<close>

definition calmer :: "sys \<Rightarrow> sys \<Rightarrow> bool" where
  "calmer s s' \<longleftrightarrow> led s s' \<and> sy_sweeps s' = sy_sweeps s \<and> quiet (sy_legs s) (sy_legs s') \<and>
     (\<forall>addr. earned_at (sy_legs s) addr \<le> earned_at (sy_legs s') addr) \<and>
     (\<forall>j. may_pay (sy_attempts s') j \<longrightarrow> may_pay (sy_attempts s) j)"

interpretation abandoning: calm_progress calmer
  by unfold_locales (auto simp: calmer_def calm_def intro: led_trans quiet_trans order_trans)

lemma calmer_idle: "calmer s s' \<Longrightarrow> idle ext s \<Longrightarrow> idle ext s'"
  by (auto simp: calmer_def idle_def)

lemma calmer_onward: "calmer s s' \<Longrightarrow> onward s s'"
  unfolding calmer_def onward_def status_in_def using quiet_status by blast

lemma calmer_forward: "calmer s s' \<Longrightarrow> forward_on s s'"
  using calmer_onward quiet_status unfolding forward_on_def status_in_def calmer_def by blast

lemma abandon_rule:
  assumes P: "\<And>s s'. calm s s' \<Longrightarrow> P s \<Longrightarrow> P s'" "\<And>s s'. calmer s s' \<Longrightarrow> P s \<Longrightarrow> P s'"
  shows "tri P (attempt_write te (\<lambda>now. MarkAbandoned now i reason)) calmer (\<lambda>_. P)"
  unfolding attempt_write_def
proof (rule abandoning.call_rule [OF _ P(1)])
  let ?m = "\<lambda>s. case MarkAbandoned (te_now te (sy_calls s)) i reason (sy_attempts s) of
      Inl e \<Rightarrow> (s, Inl (AttemptFailure e)) | Inr db \<Rightarrow> (s\<lparr>sy_world := (sy_world s)\<lparr>wd_db := db\<rparr>\<rparr>, Inr ())"
  show "tri P ?m calmer (\<lambda>_. P)"
  proof (rule triI)
    fix s s' r
    assume s: "sys_ok s" "P s" and m: "?m s = (s', r)"
    show "sys_ok s' \<and> calmer s s' \<and> (\<forall>x. r = Inr x \<longrightarrow> P s')"
    proof (cases "MarkAbandoned (te_now te (sy_calls s)) i reason (sy_attempts s)")
      case (Inl e)
      then show ?thesis using s m by auto
    next
      case (Inr db)
      let ?w = "(sy_world s)\<lparr>wd_db := db\<rparr>"
      have s': "s' = s\<lparr>sy_world := ?w\<rparr>" using m Inr by auto
      have ok: "world_ok (sy_world s)" using s(1) by (simp add: sys_ok_def)
      have w: "world_ok ?w \<and> world_step (sy_world s) ?w"
        using exec_world [OF ok, of "OpMarkAbandoned (te_now te (sy_calls s)) i reason" db] Inr by (simp add: creates_def)
      note ab = abandon_pays [OF Inr]
      have "backed db (sy_books s) ext (leg_status_of (sy_legs s) ext)" for ext
        by (rule backed_world [of "sy_attempts s"]) (use s(1) w ab in \<open>auto simp: sys_ok_def world_step_def\<close>)
      then have "sys_ok s'" using s(1) w by (simp add: s' sys_ok_def)
      moreover have c: "calmer s s'" using ab by (simp add: s' calmer_def led_def booked_def)
      ultimately show ?thesis using P(2) [OF c s(2)] by simp
    qed
  qed
qed

lemma sys_ok_sweeps:
  assumes "sys_ok s" and "sweeps_ok db" and "covered db (sy_legs s)"
  shows "sys_ok (s\<lparr>sy_sweeps := db\<rparr>)"
  using assms by (simp add: sys_ok_def)

text \<open>While sweeps run: no address is asked for more than \<open>B\<close>, and what it earned only grows.\<close>

definition swept_at :: "sys \<Rightarrow> string \<Rightarrow> int" where
  "swept_at s addr = swept_units (sweeps (sy_sweeps s)) addr"

definition within :: "(string \<Rightarrow> int) \<Rightarrow> sys \<Rightarrow> sys \<Rightarrow> bool" where
  "within B s s' \<longleftrightarrow>
     forward_on s s' \<and> (\<forall>addr. earned_at (sy_legs s) addr \<le> earned_at (sy_legs s') addr) \<and>
     ((\<forall>addr. swept_at s addr \<le> B addr) \<longrightarrow> (\<forall>addr. swept_at s' addr \<le> B addr))"

interpretation sweeping: calm_progress "within B" for B
  using go_forward.calm
  by unfold_locales (auto simp: within_def calm_def swept_at_def intro: go_forward.trans order_trans)

lemma calm_forward_on [simp]: "calm s s' \<Longrightarrow> forward_on s s'"
  by (rule go_forward.calm)

lemma calm_within: "calm s s' \<Longrightarrow> within B s s'"
  by (rule sweeping.calm)

text \<open>The driver and the abandoning of an attempt leave legs and sweeps alone.\<close>

lemma paying_within: "paying s s' \<Longrightarrow> within B s s'"
  by (simp add: paying_def within_def swept_at_def)

lemma calmer_within: "calmer s s' \<Longrightarrow> within B s s'"
  using calmer_forward by (simp add: calmer_def within_def swept_at_def)

lemma sweep_drive_rule:
  "tri (\<lambda>_. True) (drive te (sweepTransfer sw)) (within B) (\<lambda>_ _. True)"
  by (rule tri_conseq [OF drive_pays _ paying_within]) (simp_all add: payable_top_ups sweepTransfer_def)

lemma sweep_abandon_rule:
  "tri (\<lambda>_. True) (attempt_write te (\<lambda>now. MarkAbandoned now i reason)) (within B) (\<lambda>_ _. True)"
  by (rule tri_rel [OF abandon_rule calmer_within]) simp_all

text \<open>A statement on the sweeps that keeps their invariant and what is covered.\<close>

lemma sweep_update_rule:
  assumes P: "\<And>s s'. calm s s' \<Longrightarrow> P s \<Longrightarrow> P s'"
    and f: "\<And>s now db x. sys_ok s \<Longrightarrow> P s \<Longrightarrow> f now (sy_sweeps s) = Inr (db, x) \<Longrightarrow>
      sweeps_ok db \<and> covered db (sy_legs s) \<and> ((\<forall>addr. swept_at s addr \<le> B addr) \<longrightarrow> (\<forall>addr. swept_units (sweeps db) addr \<le> B addr))"
  shows "tri P (sweep_update te f) (within B) (\<lambda>_ _. True)"
  unfolding sweep_update_def
proof (rule sweeping.call_rule [OF _ P])
  let ?m = "\<lambda>s. case f (te_now te (sy_calls s)) (sy_sweeps s) of
      Inl e \<Rightarrow> (s, Inl (SweepFailure e)) | Inr (db, x) \<Rightarrow> (s\<lparr>sy_sweeps := db\<rparr>, Inr x)"
  show "tri P ?m (within B) (\<lambda>_ _. True)"
  proof (rule triI)
    fix s s' r
    assume s: "sys_ok s" "P s" and m: "?m s = (s', r)"
    show "sys_ok s' \<and> within B s s' \<and> (\<forall>x. r = Inr x \<longrightarrow> True)"
    proof (cases "f (te_now te (sy_calls s)) (sy_sweeps s)")
      case (Inl e)
      then show ?thesis using s m by auto
    next
      case (Inr v)
      obtain db x where v: "v = (db, x)" by fastforce
      have s': "s' = s\<lparr>sy_sweeps := db\<rparr>" using m Inr v by auto
      note k = f [OF s Inr [unfolded v]]
      have "sys_ok s'" unfolding s' by (rule sys_ok_sweeps [OF s(1)]) (use k in auto)
      then show ?thesis using k by (simp add: s' within_def swept_at_def forward_on_def onward_def led_def booked_def status_in_def)
    qed
  qed
qed

lemma sweep_done_rule:
  assumes "\<And>now db db'. f now db = Inr db' \<Longrightarrow> \<exists>extra. sweep_finish now i to extra db = Inr db' \<and>
      (\<forall>s. sp_id (extra s) = sp_id s \<and> sp_chain (extra s) = sp_chain s \<and> sp_amount (extra s) = sp_amount s \<and>
        sp_from (extra s) = sp_from s \<and> sp_status (extra s) = sp_status s)" and "to \<noteq> SweepPending"
  shows "tri (\<lambda>_. True) (sweep_update te (\<lambda>now db. rbind (f now db) (\<lambda>db. Inr (db, ())))) (within B) (\<lambda>_ _. True)"
proof (rule sweep_update_rule)
  fix s now db x
  assume s: "sys_ok s" and "rbind (f now (sy_sweeps s)) (\<lambda>db. Inr (db, ())) = Inr (db, x)"
  then have "f now (sy_sweeps s) = Inr db" by auto
  from assms(1) [OF this] obtain extra where e: "sweep_finish now i to extra (sy_sweeps s) = Inr db"
      "\<forall>s. sp_id (extra s) = sp_id s \<and> sp_chain (extra s) = sp_chain s \<and> sp_amount (extra s) = sp_amount s \<and>
        sp_from (extra s) = sp_from s \<and> sp_status (extra s) = sp_status s"
    by blast
  have ok: "sweeps_ok (sy_sweeps s)" "covered (sy_sweeps s) (sy_legs s)" using s by (simp_all add: sys_ok_def)
  note k = sweep_finish_ok [OF ok(1) e(1) assms(2) e(2) [rule_format]]
  show "sweeps_ok db \<and> covered db (sy_legs s) \<and> ((\<forall>addr. swept_at s addr \<le> B addr) \<longrightarrow> (\<forall>addr. swept_units (sweeps db) addr \<le> B addr))"
    using k covered_finish [OF ok(2) k(2)] order_trans unfolding swept_at_def by blast
qed simp

lemma MarkSweepFailed_rule:
  "tri (\<lambda>_. True) (sweep_update te (\<lambda>now db. rbind (MarkSweepFailed now i reason db) (\<lambda>db. Inr (db, ())))) (within B) (\<lambda>_ _. True)"
proof (rule sweep_done_rule)
  show "\<exists>extra. sweep_finish now i SweepFailed extra db = Inr db' \<and>
      (\<forall>s. sp_id (extra s) = sp_id s \<and> sp_chain (extra s) = sp_chain s \<and> sp_amount (extra s) = sp_amount s \<and>
        sp_from (extra s) = sp_from s \<and> sp_status (extra s) = sp_status s)"
    if "MarkSweepFailed now i reason db = Inr db'" for now db db'
    using that unfolding MarkSweepFailed_def by (intro exI conjI) (assumption, simp)
qed simp

lemma MarkSweepConfirmed_rule:
  "tri (\<lambda>_. True) (sweep_update te (\<lambda>now db. rbind (MarkSweepConfirmed now i h eid db) (\<lambda>db. Inr (db, ())))) (within B) (\<lambda>_ _. True)"
proof (rule sweep_done_rule)
  show "\<exists>extra. sweep_finish now i SweepConfirmed extra db = Inr db' \<and>
      (\<forall>s. sp_id (extra s) = sp_id s \<and> sp_chain (extra s) = sp_chain s \<and> sp_amount (extra s) = sp_amount s \<and>
        sp_from (extra s) = sp_from s \<and> sp_status (extra s) = sp_status s)"
    if "MarkSweepConfirmed now i h eid db = Inr db'" for now db db'
    using that unfolding MarkSweepConfirmed_def by (intro exI conjI) (assumption, simp)
qed simp

end
