(* ===== verification/Orch_Inv.thy ===== *)
theory Orch_Inv
  imports Orch_Calls
begin

text \<open>
  A tick keeps the invariant. Every function of \<open>Orchestrate\<close> has its triple here, with the relation
  that says how far it may move the system: the functions that only book and note are \<open>calm\<close>, those that
  start and refund legs sign nothing (\<open>unsent\<close>), forwarding and settling never turn a leg round
  (\<open>forward_on\<close>), and a whole tick never takes back a refund (\<open>onward\<close>).
\<close>

section \<open>Actions that need and promise nothing\<close>

named_theorems keeping

definition keeps :: "(sys \<Rightarrow> sys \<Rightarrow> bool) \<Rightarrow> 'a act \<Rightarrow> bool" where
  "keeps R m \<longleftrightarrow> tri (\<lambda>_. True) m R (\<lambda>_ _. True)"

lemma keepsI: "tri (\<lambda>_. True) m R Q \<Longrightarrow> keeps R m"
  unfolding keeps_def by (rule tri_True)

lemma keepsD: "keeps R m \<Longrightarrow> tri P m R (\<lambda>_ _. True)"
  unfolding keeps_def by (erule tri_pre) simp

lemma keeps_carry:
  assumes "keeps R m" and "\<And>s s'. R s s' \<Longrightarrow> P s \<Longrightarrow> P s'"
  shows "tri P m R (\<lambda>_. P)"
  by (rule tri_conseq [OF tri_carry [OF assms(1) [unfolded keeps_def] assms(2)]]) auto

lemma keeps_rel: "keeps R m \<Longrightarrow> (\<And>s s'. R s s' \<Longrightarrow> R' s s') \<Longrightarrow> keeps R' m"
  unfolding keeps_def by (rule tri_rel)

lemma keeps_if [keeping]: "(b \<Longrightarrow> keeps R m) \<Longrightarrow> (\<not> b \<Longrightarrow> keeps R n) \<Longrightarrow> keeps R (if b then m else n)"
  by simp

lemma keeps_let [keeping]: "keeps R (f x) \<Longrightarrow> keeps R (Let x f)"
  by simp

lemma keeps_option [keeping]:
  "(x = None \<Longrightarrow> keeps R m) \<Longrightarrow> (\<And>y. x = Some y \<Longrightarrow> keeps R (k y)) \<Longrightarrow> keeps R (case x of None \<Rightarrow> m | Some y \<Rightarrow> k y)"
  by (cases x) auto

lemma keeps_sum [keeping]:
  "(\<And>y. x = Inl y \<Longrightarrow> keeps R (h y)) \<Longrightarrow> (\<And>y. x = Inr y \<Longrightarrow> keeps R (k y)) \<Longrightarrow> keeps R (case x of Inl y \<Rightarrow> h y | Inr y \<Rightarrow> k y)"
  by (cases x) auto

lemma keeps_prod [keeping]: "(\<And>a b. x = (a, b) \<Longrightarrow> keeps R (k a b)) \<Longrightarrow> keeps R (case x of (a, b) \<Rightarrow> k a b)"
  by (cases x) auto

context progress
begin

lemma keeps_ret [keeping]: "keeps R (ret x)"
  by (rule keepsI [OF ret_any])

lemma keeps_fail [keeping]: "keeps R (fail e)"
  by (rule keepsI [OF fail_rule])

lemma keeps_lift [keeping]: "keeps R (lift f r)"
  by (rule keepsI [OF lift_any])

lemma keeps_andthen [keeping]: "keeps R m \<Longrightarrow> (\<And>x. keeps R (k x)) \<Longrightarrow> keeps R (andthen m k)"
  unfolding keeps_def by (rule andthen_rule)

lemma keeps_attempted [keeping]: "keeps R m \<Longrightarrow> keeps R (attempted m)"
  unfolding keeps_def by (rule tri_True [OF attempted_rule])

lemma keeps_logged [keeping]: "keeps R m \<Longrightarrow> keeps R (logged m)"
  unfolding keeps_def by (rule logged_rule)

lemma keeps_clock [keeping]: "(\<And>t. keeps R (k t)) \<Longrightarrow> keeps R (with_clock te k)"
  unfolding keeps_def by (rule clock_rule)

lemma keeps_each [keeping]: "(\<And>x. keeps R (f x)) \<Longrightarrow> keeps R (each f xs)"
  unfolding keeps_def by (rule each_any)

lemma keeps_every [keeping]: "(\<And>x. x \<in> set xs \<Longrightarrow> keeps R (f x)) \<Longrightarrow> keeps R (every f xs)"
  unfolding keeps_def by (rule every_any)

end

context calm_progress
begin

lemma calmly_keeps: "keeps calm m \<Longrightarrow> keeps R m"
  by (rule keeps_rel [OF _ calm])

lemma keeps_leg_read [keeping]: "keeps R (leg_read te f)"
  by (rule keepsI [OF leg_read_rule]) simp

lemma keeps_attempt_read [keeping]: "keeps R (attempt_read te f)"
  by (rule keepsI [OF attempt_read_rule]) simp

lemma keeps_sweep_read [keeping]: "keeps R (sweep_read te f)"
  by (rule keepsI [OF sweep_read_rule]) simp

lemma keeps_ledger_read [keeping]: "keeps R (ledger_read te f)"
  by (rule keepsI [OF ledger_read_rule]) simp

lemma keeps_asked [keeping]: "keeps R (asked te f)"
  by (rule keepsI [OF asked_rule]) simp

lemma keeps_transition [keeping]: "keeps R (transition_with_entry te ext to ver reason ls key)"
  unfolding transition_with_entry_def
  by (rule keepsI, rule ledger_call_rule [where P = "\<lambda>_. True" and Q = "\<lambda>_ _. True"]) (auto intro: client_served)

lemma keeps_ensure [keeping]: "keeps R (ensure_account te code ty a)"
  unfolding ensure_account_def
  by (rule keepsI, rule ledger_call_rule [where P = "\<lambda>_. True" and Q = "\<lambda>_ _. True"]) (auto intro: client_served)

lemma keeps_get_order [keeping]: "keeps R (get_order te ext)"
  unfolding get_order_def by (rule keeps_ledger_read)

lemma keeps_vendorOrder [keeping]: "keeps R (vendorOrder te l)"
  unfolding vendorOrder_def by (rule keeps_asked)

lemma keeps_legs_at [keeping]: "keeps R (legs_at te st)"
  unfolding legs_at_def by (rule keeps_leg_read)

end

text \<open>The fields in memory are of no account.\<close>

lemma memory_ok:
  "sys_ok (s\<lparr>sy_renewals := r\<rparr>) = sys_ok s" "sys_ok (s\<lparr>sy_retry_at := q\<rparr>) = sys_ok s"
  "sys_ok (s\<lparr>sy_last_scan := t\<rparr>) = sys_ok s"
  by (simp_all add: sys_ok_def)

lemma keeps_memory [keeping]:
  "keeps calm (renewals_of ext)" "keeps calm (set_renewals ext n)" "keeps calm (retry_at ext)"
  "keeps calm (set_retry_at ext t)" "keeps calm (scan_due now i)"
  by (simp_all add: keeps_def tri_def renewals_of_def set_renewals_def retry_at_def set_retry_at_def scan_due_def
      memory_ok Let_def calm_def led_def booked_def)

text \<open>The notes on legs.\<close>

lemma note_calm:
  assumes "\<And>now db db'. f now db = Inr db' \<Longrightarrow> leg_exec (opn now) db = Inr db'"
    and "\<And>now db db'. f now db = Inr db' \<Longrightarrow> leg_status_of db' = leg_status_of db"
  shows "keeps calm (leg_write te f)"
  by (rule keepsI [OF calmly.leg_note_write [where opn = opn and P = "\<lambda>_. True"]]) (use assms in auto)

lemma keeps_notes [keeping]:
  "keeps calm (leg_write te (\<lambda>now. ReplaceVendorOrder now ext old p i a))"
  "keeps calm (leg_write te (\<lambda>now. MarkForwardAttemptStarted now ext))"
  "keeps calm (leg_write te (\<lambda>now. MarkLeaseReleased now ext))"
  "keeps calm (leg_write te (\<lambda>_. RecordPayoutTx ext tx))"
  "keeps calm (leg_write te (\<lambda>_. RecordVendorFee ext fee))"
  by (rule note_calm [where opn = "\<lambda>now. OpReplaceVendorOrder now ext old p i a"], simp, erule note_status)
    (rule note_calm [where opn = "\<lambda>now. OpMarkForwardAttemptStarted now ext"], simp, erule note_status,
     rule note_calm [where opn = "\<lambda>now. OpMarkLeaseReleased now ext"], simp, erule note_status,
     rule note_calm [where opn = "\<lambda>_. OpRecordPayoutTx ext tx"], simp, erule note_status,
     rule note_calm [where opn = "\<lambda>_. OpRecordVendorFee ext fee"], simp, erule note_status)

section \<open>What the ledger tells and books\<close>

lemma order_told:
  assumes g: "lc_GetOrder ext srv = Inr ord" and ok: "ledger_ok (ls_db srv)"
    and st: "ro_state ord = state_str st" "StateValid st"
  shows "ext_status (ls_db srv) ext = Some st"
proof -
  obtain o' where o': "GetByExternalID (ls_db srv) ext = Inr o'" "ro_state ord = state_str (o_state o')"
    using g by (auto simp: lc_GetOrder_def getOrder_def toOrder_def toOrderResponse_def Let_def)
  obtain r where r: "order_at (ls_db srv) ext = Some r" "scanOrder r = Inr o'"
    using GetByExternalID_at [OF o'(1)] by blast
  have "o_state o' = r_state r" using scanOrder_Inr(2) [OF r(2)] .
  moreover have "StateValid (r_state r)"
    using ok order_atD [OF r(1)] by (auto simp: ledger_ok_def orders_ok_def order_row_ok_def)
  ultimately have "r_state r = st" using o'(2) st by (metis state_of_str)
  then show ?thesis using r(1) by (simp add: ext_status_def)
qed

lemma valid_states [simp]:
  "StateValid Refunded" "StateValid Settled" "StateValid Expired" "StateValid Screened"
  by (simp_all add: StateValid_def allStates_def)

lemma state_of_names [simp]:
  "state_of ''refunded'' = Refunded" "state_of ''settled'' = Settled" "state_of ''expired'' = Expired"
  using state_of_str [of Refunded] state_of_str [of Settled] state_of_str [of Expired] by simp_all

lemma orders_told:
  assumes p: "lc_ListOrdersByState (state_str st) cur srv = Inr (refs, next)" and ok: "ledger_ok (ls_db srv)"
    and st: "StateValid st" and e: "ext \<in> set refs"
  shows "ext_status (ls_db srv) ext = Some st"
proof -
  let ?rows = "page_rows (ls_db srv) st cur DefaultPollLimit"
  obtain page where page: "ListByStateAfter (ls_db srv) st cur DefaultPollLimit = Inr page" "refs = map o_external_id page"
    using p st by (auto simp: lc_ListOrdersByState_def getOrders_def toOrderResponse_def split: if_splits)
  obtain o' where o': "o' \<in> set page" "ext = o_external_id o'" using e page(2) by auto
  have "list_all2 (\<lambda>r o'. scanOrder r = Inr o') (page_rows (ls_db srv) st cur DefaultPollLimit) page"
    using page(1) by (simp add: ListByStateAfter_def rmap_Inr_iff)
  moreover obtain i where i: "i < length page" "page ! i = o'" using o'(1) by (auto simp: in_set_conv_nth)
  ultimately have "scanOrder (?rows ! i) = Inr o'" "?rows ! i \<in> set ?rows" by (auto simp: list_all2_conv_all_nth)
  then obtain r where r: "r \<in> set ?rows" "scanOrder r = Inr o'" by blast
  have "r \<in> set (orders (ls_db srv))" "r_state r = st" using r(1) by (auto simp: page_rows_def dest: in_set_takeD)
  moreover have "order_at (ls_db srv) ext = Some r" unfolding order_at_def
    by (rule first_row_unique) (use ok calculation(1) o'(2) scanOrder_Inr(4) [OF r(2)] in \<open>auto simp: ledger_ok_def orders_ok_def\<close>)
  ultimately show ?thesis by (simp add: ext_status_def)
qed

lemma sys_ok_books: "sys_ok s \<Longrightarrow> ledger_ok (sy_books s)"
  by (simp add: sys_ok_def)

context calm_progress
begin

text \<open>A final state that the ledger reports is booked, and one that it was moved to.\<close>

lemma get_order_rule:
  "tri (\<lambda>_. True) (get_order te ext) R (\<lambda>ord s. \<forall>st. Terminal st \<longrightarrow> ro_state ord = state_str st \<longrightarrow> booked st ext s)"
proof -
  have "tri (\<lambda>_. True) (get_order te ext) R (\<lambda>ord s. True \<and> lc_GetOrder ext (sy_ledger s) = Inr ord)"
    unfolding get_order_def by (rule ledger_read_rule) simp
  then show ?thesis
  proof (rule tri_post)
    fix ord s
    assume "sys_ok s" and "True \<and> lc_GetOrder ext (sy_ledger s) = Inr ord"
    then have "booked st ext s" if "Terminal st" "ro_state ord = state_str st" for st
      using order_told [of ext "sy_ledger s" ord st] that by (cases st) (auto simp: booked_def sys_ok_books)
    then show "\<forall>st. Terminal st \<longrightarrow> ro_state ord = state_str st \<longrightarrow> booked st ext s" by blast
  qed
qed

lemma transition_rule:
  "tri (\<lambda>_. True) (transition_with_entry te ext to ver reason ls key) R (\<lambda>_. booked (state_of to) ext)"
  unfolding transition_with_entry_def
proof (rule ledger_call_rule)
  show "booked (state_of to) ext s"
    if "ledger_ok (ls_db srv)" "lc_TransitionWithEntry (te_digest te) (te_actor te) now ext to ver reason reason now ls key srv = (sy_ledger s, Inr x)"
    for s now srv x
    using client_state(1) [OF that] by (simp add: booked_def)
qed (auto intro: client_served)

end

lemma booked_carry: "keeps calm m \<Longrightarrow> Terminal st \<Longrightarrow> tri (booked st ext) m calm (\<lambda>_. booked st ext)"
  by (rule keeps_carry) (auto intro: booked_steady)

text \<open>The entries of a forward that starts or is given up; the entries that make a refund final.\<close>

lemma keeps_start_entries [keeping]: "keeps calm (postForwardStartEntry te l)" "keeps calm (postForwardAbandonEntry te l)"
  unfolding postForwardStartEntry_def postForwardAbandonEntry_def by (intro keeping)+

lemma refund_entry_rule:
  assumes "\<And>ord. keeps calm (entry ord)"
    and "\<And>ord. tri (\<lambda>_. True) (entry ord) calm (\<lambda>_. booked Refunded ext)"
  shows "tri (\<lambda>_. True) (andthen (get_order te ext) (\<lambda>ord. if ro_state ord = ''refunded'' then ret () else entry ord)) calm
    (\<lambda>_. booked Refunded ext)"
proof (rule calmly.andthen_rule [OF calmly.get_order_rule])
  fix ord
  show "tri (\<lambda>s. \<forall>st. Terminal st \<longrightarrow> ro_state ord = state_str st \<longrightarrow> booked st ext s)
      (if ro_state ord = ''refunded'' then ret () else entry ord) calm (\<lambda>_. booked Refunded ext)"
  proof (cases "ro_state ord = ''refunded''")
    case True
    have "tri (booked Refunded ext) (ret ()) calm (\<lambda>_. booked Refunded ext)" by (rule calmly.ret_rule)
    then show ?thesis using True by (simp add: tri_pre)
  next
    case False
    then show ?thesis using assms(2) [of ord] by (simp add: tri_pre)
  qed
qed

lemma refund_entries:
  "tri (\<lambda>_. True) (postScreenedRefundEntry te l) calm (\<lambda>_. booked Refunded (lg_external_id l))"
  "tri (\<lambda>_. True) (postRefundEntry te l) calm (\<lambda>_. booked Refunded (lg_external_id l))"
proof -
  have post: "tri (\<lambda>_. True)
      (andthen (lift AmountFailure (Neg r)) (\<lambda>neg. andthen (transition_with_entry te ext ''refunded'' v t (ls neg) key) (\<lambda>_. ret ())))
      calm (\<lambda>_. booked Refunded ext)" for r t v ls key ext
  proof (rule calmly.andthen_rule [OF calmly.lift_any], rule calmly.andthen_rule)
    show "tri (\<lambda>_. True) (transition_with_entry te ext ''refunded'' v t (ls neg) key) calm (\<lambda>_. booked Refunded ext)" for neg
      using calmly.transition_rule [of te ext "''refunded''"] by simp
  qed (rule calmly.ret_rule)
  show "tri (\<lambda>_. True) (postScreenedRefundEntry te l) calm (\<lambda>_. booked Refunded (lg_external_id l))"
    unfolding postScreenedRefundEntry_def Let_def
    by (rule refund_entry_rule) (auto intro: keeping post calmly.fail_rule)
  show "tri (\<lambda>_. True) (postRefundEntry te l) calm (\<lambda>_. booked Refunded (lg_external_id l))"
    unfolding postRefundEntry_def Let_def
    by (rule refund_entry_rule) (auto intro: keeping post calmly.fail_rule)
qed

section \<open>What the store of legs tells\<close>

lemma scanLeg_facts [simp]: "lg_external_id (scanLeg r) = lg_external_id r" "lg_status (scanLeg r) = lg_status r"
  by (simp_all add: scanLeg_def leg_core.defs)

lemma leg_told:
  assumes "Leg_GetByExternalID db ext = Inr l"
  shows "lg_external_id l = ext \<and> leg_status_of db ext = Some (lg_status l)"
  using assms leg_atD [of db ext] by (auto simp: Leg_GetByExternalID_def leg_status_of_def leg_at_def split: option.splits)

lemma legs_told:
  assumes ok: "legs_ok db" and l: "l \<in> set (ListByStatus db st)"
  shows "leg_status_of db (lg_external_id l) = Some st"
proof -
  obtain r where r: "r \<in> set (legs db)" "lg_status r = st" "l = scanLeg r" using l by (auto simp: ListByStatus_def)
  have "leg_at db (lg_external_id r) = Some r" unfolding leg_at_def
    by (rule first_row_unique) (use ok r(1) in \<open>auto simp: legs_ok_def\<close>)
  then show ?thesis using r by (simp add: leg_status_of_def)
qed

lemma awaiting_idle: "sys_ok s \<Longrightarrow> leg_status_of (sy_legs s) ext = Some AWAITING_DEPOSIT \<Longrightarrow> idle ext s"
  using backed_of [of s ext AWAITING_DEPOSIT] by (auto simp: backed_def idle_def)

context calm_progress
begin

lemma get_leg_rule:
  "tri (\<lambda>_. True) (leg_read te (\<lambda>db. Leg_GetByExternalID db ext)) R
     (\<lambda>l s. lg_external_id l = ext \<and> leg_status_of (sy_legs s) ext = Some (lg_status l))"
  by (rule tri_post [OF leg_read_rule [where P = "\<lambda>_. True"]]) (auto dest: leg_told)

lemma legs_at_rule:
  "tri (\<lambda>_. True) (legs_at te st) R (\<lambda>ls s. \<forall>l \<in> set ls. leg_status_of (sy_legs s) (lg_external_id l) = Some st)"
  unfolding legs_at_def
  by (rule tri_post [OF leg_read_rule [where P = "\<lambda>_. True"]]) (auto simp: sys_ok_def intro: legs_told)

text \<open>A loop over the legs of one status: what the status gives each leg is kept while the loop runs.\<close>

lemma over_legs:
  assumes "\<And>l. tri (F (lg_external_id l)) (f l) R (\<lambda>_ _. True)"
    and "\<And>ext s. sys_ok s \<Longrightarrow> leg_status_of (sy_legs s) ext = Some st \<Longrightarrow> F ext s"
    and "\<And>ext s s'. R s s' \<Longrightarrow> F ext s \<Longrightarrow> F ext s'"
  shows "keeps R (andthen (legs_at te st) (each f))"
  unfolding keeps_def
proof (rule andthen_rule [OF legs_at_rule])
  fix ls
  have "tri (\<lambda>s. \<forall>l \<in> set ls. F (lg_external_id l) s) (each f ls) R (\<lambda>_ _. True)"
    by (rule each_rule) (use assms(1,3) in auto)
  then show "tri (\<lambda>s. \<forall>l \<in> set ls. leg_status_of (sy_legs s) (lg_external_id l) = Some st) (each f ls) R (\<lambda>_ _. True)"
    by (rule tri_pre) (use assms(2) in auto)
qed

text \<open>A loop over the orders of one state, page by page.\<close>

lemma over_orders:
  assumes body: "\<And>ext. tri (F ext) (body ext) R (\<lambda>_ _. True)"
    and page: "\<And>s cur refs nxt ext. sys_ok s \<Longrightarrow> lc_ListOrdersByState st cur (sy_ledger s) = Inr (refs, nxt) \<Longrightarrow>
      ext \<in> set refs \<Longrightarrow> F ext s"
    and keep: "\<And>ext s s'. R s s' \<Longrightarrow> F ext s \<Longrightarrow> F ext s'"
  shows "keeps R (for_orders fuel te st body cur)"
proof (induction fuel arbitrary: cur)
  case (Suc fuel)
  have "tri (\<lambda>_. True) (ledger_read te (lc_ListOrdersByState st cur)) R
      (\<lambda>p s. True \<and> lc_ListOrdersByState st cur (sy_ledger s) = Inr p)"
    by (rule ledger_read_rule) simp
  then have r: "tri (\<lambda>_. True) (ledger_read te (lc_ListOrdersByState st cur)) R (\<lambda>p s. \<forall>ext \<in> set (fst p). F ext s)"
    by (rule tri_post) (use page in fastforce)
  have "tri (\<lambda>s. \<forall>ext \<in> set refs. F ext s) (each body refs) R (\<lambda>_ _. True)" for refs
    by (rule each_rule [OF body keep])
  note each = this andthen_rule [OF this]
  show ?case unfolding keeps_def for_orders.simps
  proof (rule andthen_rule [OF r])
    fix p :: "string list \<times> cursor option"
    obtain refs nxt where p: "p = (refs, nxt)" by fastforce
    let ?k = "if int (length refs) < DefaultPollLimit \<or> nxt = None \<or> nxt = cur then ret () else for_orders fuel te st body nxt"
    have "keeps R ?k" by (intro keeping Suc)
    then have "tri (\<lambda>s. \<forall>ext \<in> set refs. F ext s) (andthen (each body refs) (\<lambda>_. ?k)) R (\<lambda>_ _. True)"
      by (intro each(2)) (simp add: keeps_def)
    then show "tri (\<lambda>s. \<forall>ext \<in> set (fst p). F ext s) (case p of (refs, nxt) \<Rightarrow>
        andthen (each body refs) (\<lambda>_. if int (length refs) < DefaultPollLimit \<or> nxt = None \<or> nxt = cur then ret ()
          else for_orders fuel te st body nxt)) R (\<lambda>_ _. True)"
      by (simp add: p)
  qed
qed (simp add: keeps_fail)

end

section \<open>Recording the deposit\<close>

lemma keeps_pricing [keeping]: "keeps calm (pricingFor te l ord)" "keeps calm (under_minimum te l received)"
  unfolding pricingFor_def under_minimum_def by (intro keeping)+

lemma RecordDeposit_told: "RecordDeposit ext rc s p f db = Inr (db', l) \<Longrightarrow> lg_external_id l = ext"
  by (auto simp: RecordDeposit_def split: if_splits dest: leg_told)

lemma record_write_rule:
  "tri (\<lambda>_. True) (leg_update te (\<lambda>_. RecordDeposit ext rc sender p f)) calm (\<lambda>l _. lg_external_id l = ext)"
  by (rule tri_post [OF calmly.leg_note_rule [where P = "\<lambda>_. True" and opn = "\<lambda>_. OpRecordDeposit ext rc sender p f"]])
    (auto dest: RecordDeposit_told note_status(5) [THEN quiet_same])

text \<open>The recorded leg is the leg.\<close>

lemma recordDeposit_rule:
  "tri (\<lambda>_. True) (recordDeposit te l ord) calm (\<lambda>(l', _) _. lg_external_id l' = lg_external_id l)"
proof (cases "lg_received l")
  case None
  show ?thesis unfolding recordDeposit_def None option.case Let_def
    by (auto intro!: calmly.andthen_rule [OF keepsD] calmly.andthen_rule [OF record_write_rule] calmly.fail_rule
        tri_pre [OF calmly.ret_rule] keeping split: prod.splits)
next
  case (Some rc)
  then show ?thesis by (simp add: recordDeposit_def) (rule tri_pre [OF calmly.ret_rule], simp)
qed

lemma keeps_recordDeposit [keeping]: "keeps calm (recordDeposit te l ord)"
  by (rule keepsI [OF recordDeposit_rule])

section \<open>Starting and refunding legs\<close>

lemma tri_pure: "(p \<Longrightarrow> tri P m R Q) \<Longrightarrow> tri (\<lambda>s. p \<and> P s) m R Q"
  by (auto simp: tri_def)

context calm_progress
begin

lemma after_calm:
  assumes "tri (\<lambda>_. True) m calm Q" and "\<And>s s'. calm s s' \<Longrightarrow> F s \<Longrightarrow> F s'"
  shows "tri F m R (\<lambda>x s. Q x s \<and> F s)"
  by (rule tri_conseq [OF tri_carry [OF assms]]) (auto intro: calm)

end

lemma calm_keeps_idle: "calm s s' \<Longrightarrow> idle ext s \<Longrightarrow> idle ext s'"
  by (simp add: calm_idle)

text \<open>An entry that makes the refund final, then the mark.\<close>

lemma book_then_mark:
  assumes "tri (\<lambda>_. True) m calm (\<lambda>_. booked Refunded (lg_external_id l))"
  shows "tri (idle (lg_external_id l)) (andthen m (\<lambda>_. mark_refund_pending te l)) unsent (\<lambda>_ _. True)"
  unfolding mark_refund_pending_def
  by (rule send_nothing.andthen_rule [OF send_nothing.after_calm [OF assms calm_keeps_idle] MarkRefundPending_rule])

lemma startAwaitingDepositRefund_rule:
  "tri (idle (lg_external_id l)) (startAwaitingDepositRefund te l) unsent (\<lambda>_ _. True)"
  unfolding startAwaitingDepositRefund_def
proof (rule send_nothing.andthen_rule)
  have "tri (\<lambda>_. True) (case lg_received l of Some _ \<Rightarrow> ret l
      | None \<Rightarrow> andthen (get_order te (lg_external_id l)) (\<lambda>ord. andthen (recordDeposit te l ord) (\<lambda>(recorded, _). ret recorded)))
      calm (\<lambda>l' _. lg_external_id l' = lg_external_id l)"
    by (cases "lg_received l")
      (auto intro!: calmly.andthen_rule [OF keepsD] calmly.andthen_rule [OF recordDeposit_rule] tri_pre [OF calmly.ret_rule]
        keeping split: prod.splits)
  from send_nothing.after_calm [OF this calm_keeps_idle]
  show "tri (idle (lg_external_id l)) (case lg_received l of Some _ \<Rightarrow> ret l
      | None \<Rightarrow> andthen (get_order te (lg_external_id l)) (\<lambda>ord. andthen (recordDeposit te l ord) (\<lambda>(recorded, _). ret recorded)))
      unsent (\<lambda>l' s. lg_external_id l' = lg_external_id l \<and> idle (lg_external_id l) s)" .
  fix l'
  show "tri (\<lambda>s. lg_external_id l' = lg_external_id l \<and> idle (lg_external_id l) s)
      (andthen (postScreenedRefundEntry te l') (\<lambda>_. mark_refund_pending te l')) unsent (\<lambda>_ _. True)"
    by (rule tri_pure) (use book_then_mark [OF refund_entries(1), of l'] in simp)
qed

lemma startRefund_rule: "tri (idle (lg_external_id l)) (startRefund te l) unsent (\<lambda>_ _. True)"
  unfolding startRefund_def
  by (rule send_nothing.andthen_rule [OF send_nothing.after_calm [OF keepsD calm_keeps_idle]])
    (auto intro: keeping tri_pre [OF book_then_mark [OF refund_entries(2)]])

lemma keeps_mark_forwarding [keeping]: "keeps unsent (leg_write te (\<lambda>now. MarkForwarding now ext p i a))"
  by (rule keepsI [OF MarkForwarding_rule]) simp

lemma keeps_create [keeping]: "keeps unsent (create_and_forward te ext l recorded toForward)"
  unfolding create_and_forward_def
  by (intro send_nothing.keeps_andthen send_nothing.keeps_asked keeps_mark_forwarding
      send_nothing.calmly_keeps [OF calmly.keeps_logged] keeps_notes send_nothing.calmly_keeps [OF keeps_start_entries(1)])

lemma start_recorded_rule:
  "tri (idle (lg_external_id recorded)) (start_recorded te ext l recorded tooSmall) unsent (\<lambda>_ _. True)"
proof (cases tooSmall)
  case True
  then show ?thesis using startAwaitingDepositRefund_rule by (simp add: start_recorded_def)
next
  case False
  show ?thesis by (rule keepsD) (use False in \<open>auto simp: start_recorded_def intro!: keeping\<close>)
qed

lemma idle_carry: "keeps unsent m \<Longrightarrow> tri (idle ext) m unsent (\<lambda>_. idle ext)"
  by (rule keeps_carry) (simp_all add: unsent_idle)

lemma start_awaiting_rule:
  assumes l: "lg_external_id l = ext"
  shows "tri (idle ext) (start_awaiting te ext l) unsent (\<lambda>_ _. True)"
  unfolding start_awaiting_def
proof (rule send_nothing.andthen_rule [OF idle_carry [OF send_nothing.calmly_keeps [OF keeps_notes(2)]]],
    rule send_nothing.andthen_rule [OF idle_carry [OF send_nothing.keeps_get_order]])
  fix ord
  have r: "tri (idle ext) (recordDeposit te l ord) unsent (\<lambda>x s. lg_external_id (fst x) = ext \<and> idle ext s)"
    by (rule tri_post [OF send_nothing.after_calm [OF recordDeposit_rule calm_keeps_idle]]) (auto simp: l)
  have "tri (\<lambda>s. lg_external_id (fst x) = ext \<and> idle ext s)
      (case x of (recorded, tooSmall) \<Rightarrow> start_recorded te ext l recorded tooSmall) unsent (\<lambda>_ _. True)" for x
    by (cases x) (auto intro!: tri_pure tri_pre [OF start_recorded_rule])
  from send_nothing.andthen_rule [OF r this]
  show "tri (idle ext) (if ro_tier ord \<noteq> ''RELAY'' then fail (Broken ''order is not RELAY'')
      else andthen (recordDeposit te l ord) (\<lambda>(recorded, tooSmall). start_recorded te ext l recorded tooSmall)) unsent (\<lambda>_ _. True)"
    by (simp add: send_nothing.fail_rule)
qed

lemma startOne_rule: "keeps unsent (startOne te ext)"
  unfolding keeps_def startOne_def
proof (rule send_nothing.andthen_rule [OF send_nothing.attempted_rule [OF send_nothing.get_leg_rule]])
  fix r :: "orch_error + leg"
  let ?next = "case r of
       Inl e \<Rightarrow> if e = LegFailure ErrLegNotFound then ret () else fail e
     | Inr l \<Rightarrow>
       if lg_status l = AWAITING_DEPOSIT then start_awaiting te ext l
       else if lg_status l = FORWARDING then postForwardStartEntry te l
       else ret ()"
  show "tri (\<lambda>s. \<forall>l. r = Inr l \<longrightarrow> lg_external_id l = ext \<and> leg_status_of (sy_legs s) ext = Some (lg_status l))
      ?next unsent (\<lambda>_ _. True)"
  proof (cases "\<exists>l. r = Inr l \<and> lg_status l = AWAITING_DEPOSIT")
    case True
    then obtain l where l: "r = Inr l" "lg_status l = AWAITING_DEPOSIT" by blast
    have "tri (\<lambda>s. lg_external_id l = ext \<and> idle ext s) (start_awaiting te ext l) unsent (\<lambda>_ _. True)"
      by (rule tri_pure [OF start_awaiting_rule])
    moreover have "?next = start_awaiting te ext l" using l by simp
    ultimately show ?thesis by (simp only:) (erule tri_pre, use l awaiting_idle in auto)
  next
    case False
    then have "keeps unsent ?next"
      by (auto intro!: keeping send_nothing.calmly_keeps [OF keeps_start_entries(1)] split: sum.splits)
    then show ?thesis by (rule keepsD)
  qed
qed

lemma fueled: "(\<And>n. keeps R (for_orders n te st body cur)) \<Longrightarrow> keeps R (\<lambda>s. for_orders (page_fuel s) te st body cur s)"
  unfolding keeps_def tri_def by blast

lemma startScreenedLegs_rule: "keeps unsent (startScreenedLegs te)"
  unfolding startScreenedLegs_def [abs_def]
  by (rule fueled, rule send_nothing.over_orders [where F = "\<lambda>_ _. True"])
    (use startOne_rule in \<open>simp_all add: keeps_def\<close>)

lemma unsent_keeps_idle: "unsent s s' \<Longrightarrow> idle ext s \<Longrightarrow> idle ext s'"
  by (simp add: unsent_idle)

lemma refundStuckAwaitingDepositLegs_rule: "keeps unsent (refundStuckAwaitingDepositLegs te)"
proof -
  have "tri (idle (lg_external_id l)) (case lg_attempt_started_at l of None \<Rightarrow> ret ()
      | Some t \<Rightarrow> with_clock te (\<lambda>now. if now - t < te_forwarding_timeout te then ret () else startAwaitingDepositRefund te l))
      unsent (\<lambda>_ _. True)" for l
    by (cases "lg_attempt_started_at l")
      (auto intro!: send_nothing.ret_any send_nothing.clock_rule startAwaitingDepositRefund_rule)
  from send_nothing.over_legs [where F = idle, OF this awaiting_idle unsent_keeps_idle] show ?thesis
    unfolding refundStuckAwaitingDepositLegs_def by (intro keeps_if send_nothing.keeps_ret)
qed

lemma startExternallyRefundedLegs_rule: "keeps unsent (startExternallyRefundedLegs te)"
proof -
  have keep: "unsent s s' \<Longrightarrow> booked Refunded ext s \<Longrightarrow> booked Refunded ext s'" for ext s s'
    by (auto simp: unsent_def intro: led_booked [OF onward_led])
  have "tri (booked Refunded ext) (startExternallyRefundedOne te ext) unsent (\<lambda>_ _. True)" for ext
    unfolding startExternallyRefundedOne_def
  proof (rule send_nothing.andthen_rule)
    show "tri (booked Refunded ext) (leg_read te (\<lambda>db. Leg_GetByExternalID db ext)) unsent
        (\<lambda>l s. (lg_external_id l = ext \<and> leg_status_of (sy_legs s) ext = Some (lg_status l)) \<and> booked Refunded ext s)"
      by (rule send_nothing.after_calm [OF calmly.get_leg_rule]) (auto intro: booked_steady)
    fix l
    have "tri (\<lambda>s. booked Refunded (lg_external_id l) s \<and> idle (lg_external_id l) s) (mark_refund_pending te l) unsent (\<lambda>_ _. True)"
      unfolding mark_refund_pending_def by (rule MarkRefundPending_rule)
    then show "tri (\<lambda>s. (lg_external_id l = ext \<and> leg_status_of (sy_legs s) ext = Some (lg_status l)) \<and> booked Refunded ext s)
        (if lg_status l \<noteq> AWAITING_DEPOSIT then ret () else mark_refund_pending te l) unsent (\<lambda>_ _. True)"
      by (cases "lg_status l = AWAITING_DEPOSIT") (auto intro: send_nothing.ret_any elim!: tri_pre awaiting_idle)
  qed
  note body = this
  show ?thesis unfolding startExternallyRefundedLegs_def [abs_def]
    by (rule fueled, rule send_nothing.over_orders [OF body _ keep])
      (use orders_told [of Refunded] in \<open>auto simp: booked_def sys_ok_books\<close>)
qed

text \<open>A leg is refunded from \<open>FORWARDING\<close> only when nothing sent for it may land.\<close>

lemma idle_attempts:
  assumes live: "one_live db" and c: "ConfirmedAttempt db ext FORWARD = None"
    and o: "\<And>a. OpenAttempt db ext FORWARD = Some a \<Longrightarrow> \<not> MayLand (ta_status a)"
  shows "\<not> may_pay db (ext, FORWARD)"
proof
  assume "may_pay db (ext, FORWARD)"
  then obtain a where a: "a \<in> set (attempts db)" "attempt_job a = (ext, FORWARD)"
      "MayLand (ta_status a) \<or> ta_status a = Confirmed"
    unfolding may_pay_def by blast
  then have l: "live a" by (auto simp: live_def MayLand_def)
  show False
  proof (cases "OpenAttempt db ext FORWARD")
    case None
    then show False using none_live [OF None c] a l by blast
  next
    case (Some b)
    note b = OpenAttempt_Some [OF Some]
    have "b = a" using b a l live by (auto simp: one_live_def distinct_map inj_on_def live_def)
    then show False using o [OF Some] b(3) a(3) by auto
  qed
qed

lemma forwardMayStillLand_rule:
  "tri (\<lambda>_. True) (forwardMayStillLand te ext) calmer (\<lambda>r s. \<not> r \<longrightarrow> idle ext s)"
  unfolding forwardMayStillLand_def
proof (rule abandoning.andthen_rule)
  show "tri (\<lambda>_. True) (attempt_read te (\<lambda>db. ConfirmedAttempt db ext FORWARD)) calmer
      (\<lambda>c s. True \<and> ConfirmedAttempt (sy_attempts s) ext FORWARD = c)"
    by (rule abandoning.attempt_read_rule) simp
  fix c
  let ?rest = "andthen (attempt_read te (\<lambda>db. OpenAttempt db ext FORWARD)) (\<lambda>opn.
       case opn of
         None \<Rightarrow> ret False
       | Some a \<Rightarrow>
         if MayLand (ta_status a) then ret True
         else andthen (attempt_write te (\<lambda>now. MarkAbandoned now (ta_id a) ''leg is being refunded'')) (\<lambda>_. ret False))"
  have "tri (\<lambda>s. ConfirmedAttempt (sy_attempts s) ext FORWARD = None) ?rest calmer (\<lambda>r s. \<not> r \<longrightarrow> idle ext s)"
  proof (rule abandoning.andthen_rule)
    show "tri (\<lambda>s. ConfirmedAttempt (sy_attempts s) ext FORWARD = None) (attempt_read te (\<lambda>db. OpenAttempt db ext FORWARD)) calmer
        (\<lambda>o' s. ConfirmedAttempt (sy_attempts s) ext FORWARD = None \<and> OpenAttempt (sy_attempts s) ext FORWARD = o')"
      by (rule abandoning.attempt_read_rule) (simp add: calm_def)
    fix o'
    let ?P = "\<lambda>s. ConfirmedAttempt (sy_attempts s) ext FORWARD = None \<and> OpenAttempt (sy_attempts s) ext FORWARD = o'"
    have idle: "idle ext s" if "sys_ok s" "?P s" "\<And>a. o' = Some a \<Longrightarrow> \<not> MayLand (ta_status a)" for s
      unfolding idle_def using idle_attempts [of "sy_attempts s" ext] that by (auto simp: sys_ok_def world_ok_def)
    have dropped: "tri (idle ext) (andthen (attempt_write te (\<lambda>now. MarkAbandoned now i ''leg is being refunded'')) (\<lambda>_. ret False))
        calmer (\<lambda>r s. \<not> r \<longrightarrow> idle ext s)" for i
      by (rule abandoning.andthen_rule [OF abandon_rule]) (auto simp: calm_idle calmer_idle intro: tri_pre [OF abandoning.ret_rule])
    show "tri ?P (case o' of
         None \<Rightarrow> ret False
       | Some a \<Rightarrow>
         if MayLand (ta_status a) then ret True
         else andthen (attempt_write te (\<lambda>now. MarkAbandoned now (ta_id a) ''leg is being refunded'')) (\<lambda>_. ret False))
        calmer (\<lambda>r s. \<not> r \<longrightarrow> idle ext s)"
    proof (cases o')
      case None
      then show ?thesis using idle by (auto intro: tri_pre [OF abandoning.ret_rule])
    next
      case (Some a)
      then show ?thesis using idle by (auto intro: tri_pre [OF abandoning.ret_rule] tri_pre [OF dropped])
    qed
  qed
  then show "tri (\<lambda>s. True \<and> ConfirmedAttempt (sy_attempts s) ext FORWARD = c) (if c \<noteq> None then ret True else ?rest) calmer
      (\<lambda>r s. \<not> r \<longrightarrow> idle ext s)"
    by (cases c) (auto intro: tri_pre [OF abandoning.ret_rule])
qed

lemma refundStuckForwardingLegs_rule: "keeps onward (refundStuckForwardingLegs te)"
proof -
  have "tri (\<lambda>_. True) (andthen (forwardMayStillLand te (lg_external_id l)) (\<lambda>mayLand. if mayLand then ret () else startRefund te l))
      onward (\<lambda>_ _. True)" for l
  proof (rule go_on.andthen_rule [OF tri_rel [OF forwardMayStillLand_rule calmer_onward]])
    fix m :: bool
    show "tri (\<lambda>s. \<not> m \<longrightarrow> idle (lg_external_id l) s) (if m then ret () else startRefund te l) onward (\<lambda>_ _. True)"
      using tri_rel [OF startRefund_rule unsent_onward] by (cases m) (simp_all add: go_on.ret_any)
  qed
  note one = keepsI [OF this]
  show ?thesis unfolding refundStuckForwardingLegs_def
    by (intro keeping one)
qed

section \<open>Forwarding and settling\<close>

lemma forwards_on: "forward_on s s' \<Longrightarrow> status_in forwards ext s \<Longrightarrow> status_in forwards ext s'"
  by (simp add: forward_on_def)

lemma returns_on: "onward s s' \<Longrightarrow> status_in {REFUND_PENDING, REFUNDED} ext s \<Longrightarrow> status_in {REFUND_PENDING, REFUNDED} ext s'"
  by (simp add: onward_def)

text \<open>The driver on a leg, then the mark that its confirmed attempt allows.\<close>

lemma drive_then_mark:
  assumes d: "\<And>s. P s \<Longrightarrow> payable (insert (tr_job req, tr_purpose req) top_ups) s"
    and k: "\<And>a h. tri (\<lambda>s. confirmed_job (sy_attempts s) (tr_job req, tr_purpose req)) (k h) forward_on (\<lambda>_ _. True)"
  shows "tri P (andthen (drive te req) (\<lambda>done. case done of None \<Rightarrow> ret ()
      | Some a \<Rightarrow> (case ta_hash a of None \<Rightarrow> fail (Broken ''nil hash'') | Some h \<Rightarrow> k h))) forward_on (\<lambda>_ _. True)"
proof (rule go_forward.andthen_rule [OF tri_pre [OF drive_rule]])
  fix r :: "attempt option"
  show "tri (\<lambda>s. \<forall>b. r = Some b \<longrightarrow> confirmed_job (sy_attempts s) (tr_job req, tr_purpose req))
      (case r of None \<Rightarrow> ret () | Some a \<Rightarrow> (case ta_hash a of None \<Rightarrow> fail (Broken ''nil hash'') | Some h \<Rightarrow> k h))
      forward_on (\<lambda>_ _. True)"
    using k by (auto intro: go_forward.ret_any go_forward.fail_rule split: option.splits)
qed (rule d)

lemma forwardAmountFor_keeps [keeping]: "keeps calm (forwardAmountFor te l)"
  unfolding forwardAmountFor_def by (intro keeping)+

lemma renewed_rule:
  "tri (\<lambda>_. True) (renewExpiredVendorOrder te l amount) calm (\<lambda>r _. \<forall>l'. r = Some l' \<longrightarrow> lg_external_id l' = lg_external_id l)"
proof -
  have none: "tri P (ret None) calm (\<lambda>r _. \<forall>l'. r = Some l' \<longrightarrow> lg_external_id l' = lg_external_id l)" for P
    by (rule tri_pre [OF calmly.ret_rule]) simp
  have new: "tri P (replace_vendor_order te l old amount n) calm
      (\<lambda>r _. \<forall>l'. r = Some l' \<longrightarrow> lg_external_id l' = lg_external_id l)" for P old n
    unfolding replace_vendor_order_def Let_def
    by (intro calmly.andthen_rule [OF keepsD] keeping keepsD [OF keeps_notes(1)])
      (auto intro: tri_pre [OF calmly.ret_rule])
  show ?thesis unfolding renewExpiredVendorOrder_def Let_def
    by (auto intro!: calmly.andthen_rule [OF keepsD] keeping none new split: option.split)
qed

lemma legTransfer_job [simp]: "tr_job (legTransfer l p to a) = lg_external_id l" "tr_purpose (legTransfer l p to a) = p"
  by (simp_all add: legTransfer_def)

lemma advanceForwardingOne_rule:
  "tri (status_in forwards (lg_external_id l)) (advanceForwardingOne te l) forward_on (\<lambda>_ _. True)"
proof -
  let ?ext = "lg_external_id l"
  have go: "tri (status_in forwards ?ext) (case lg_upstream_address l' of None \<Rightarrow> fail (Broken ''nil upstream address'')
      | Some to \<Rightarrow> andthen (drive te (legTransfer l' FORWARD to amount)) (\<lambda>done. case done of None \<Rightarrow> ret ()
        | Some a \<Rightarrow> (case ta_hash a of None \<Rightarrow> fail (Broken ''nil hash'')
          | Some h \<Rightarrow> leg_write te (\<lambda>now. MarkForwarded now (lg_external_id l') h)))) forward_on (\<lambda>_ _. True)"
    if "lg_external_id l' = ?ext" for l' amount
    using drive_then_mark [of "status_in forwards ?ext" "legTransfer l' FORWARD _ amount"] MarkForwarded_rule [of ?ext] that
    by (auto simp: payable_top_ups intro: go_forward.fail_rule split: option.split)
  have r: "tri (status_in forwards ?ext) (renewExpiredVendorOrder te l amount) forward_on
      (\<lambda>r s. (\<forall>l'. r = Some l' \<longrightarrow> lg_external_id l' = ?ext) \<and> status_in forwards ?ext s)" for amount
    by (rule go_forward.after_calm [OF renewed_rule]) (simp add: calm_status)
  have k: "tri (\<lambda>s. (\<forall>l'. r = Some l' \<longrightarrow> lg_external_id l' = ?ext) \<and> status_in forwards ?ext s)
      (let l = (case r of None \<Rightarrow> l | Some r \<Rightarrow> r) in
       case lg_upstream_address l of None \<Rightarrow> fail (Broken ''nil upstream address'')
      | Some to \<Rightarrow> andthen (drive te (legTransfer l FORWARD to amount)) (\<lambda>done. case done of None \<Rightarrow> ret ()
        | Some a \<Rightarrow> (case ta_hash a of None \<Rightarrow> fail (Broken ''nil hash'')
          | Some h \<Rightarrow> leg_write te (\<lambda>now. MarkForwarded now (lg_external_id l) h)))) forward_on (\<lambda>_ _. True)" for r amount
    unfolding Let_def by (rule tri_pure, rule go) (cases r; simp)
  have a: "tri (status_in forwards ?ext) (forwardAmountFor te l) forward_on (\<lambda>_. status_in forwards ?ext)"
    by (rule keeps_carry [OF go_forward.calmly_keeps [OF forwardAmountFor_keeps] forwards_on])
  show ?thesis unfolding advanceForwardingOne_def
    using go_forward.andthen_rule [OF a go_forward.andthen_rule [OF r k]] by (simp add: go_forward.fail_rule)
qed

lemma advanceForwardingLegs_rule: "keeps forward_on (advanceForwardingLegs te)"
  unfolding advanceForwardingLegs_def
  by (rule go_forward.over_legs [where F = "status_in forwards", OF advanceForwardingOne_rule _ forwards_on])
    (auto simp: status_in_def forwards_def)

lemma forward_steady: "Terminal st \<Longrightarrow> forward_on s s' \<Longrightarrow> booked st ext s \<Longrightarrow> booked st ext s'"
  by (auto simp: forward_on_def intro: led_booked [OF onward_led])

lemma keeps_payout_tx: "keeps forward_on (leg_write te (\<lambda>_. RecordPayoutTx ext tx))"
  by (rule go_forward.calmly_keeps [OF keeps_notes(4)])

lemma keeps_vendor_fee: "keeps forward_on (leg_write te (\<lambda>_. RecordVendorFee ext fee))"
  by (rule go_forward.calmly_keeps [OF keeps_notes(5)])

lemma settled_then:
  assumes "keeps forward_on k"
  shows "tri (booked Settled ext) (andthen (leg_write te (\<lambda>now. MarkSettled now ext actual)) (\<lambda>_. k)) forward_on (\<lambda>_ _. True)"
  by (rule go_forward.andthen_rule [OF MarkSettled_rule keepsD [OF assms]])

lemma settle_rule: "keeps forward_on (settle te l ord actual payout)"
proof -
  have k: "keeps forward_on (andthen (case payout of None \<Rightarrow> ret () | Some tx \<Rightarrow> logged (leg_write te (\<lambda>_. RecordPayoutTx ext tx)))
      (\<lambda>_. case lg_forward l of None \<Rightarrow> ret () | Some f \<Rightarrow> logged (leg_write te (\<lambda>_. RecordVendorFee ext (fee f)))))" for ext fee
    by (intro keeping keeps_payout_tx keeps_vendor_fee)
  have "tri (\<lambda>_. True) (transition_with_entry te ext ''settled'' ver ty ls key) forward_on (\<lambda>_. booked Settled ext)" for ext ver ty ls key
    using go_forward.transition_rule [of te ext "''settled''"] by simp
  note t = keepsI [OF go_forward.andthen_rule [OF this settled_then [OF k]]]
  show ?thesis unfolding settle_def Let_def by (intro keeping t)
qed

lemma keeps_checkPayout [keeping]: "keeps calm (checkPayout te l tx)"
  unfolding checkPayout_def Let_def by (intro keeping)+

lemma settle_completed_rule: "keeps forward_on (settle_completed te l actual payout)"
  unfolding keeps_def settle_completed_def Let_def
proof (rule go_forward.andthen_rule [OF go_forward.get_order_rule])
  fix ord
  let ?ext = "lg_external_id l"
  let ?again = "andthen (case payout of None \<Rightarrow> ret () | Some tx \<Rightarrow> leg_write te (\<lambda>_. RecordPayoutTx ?ext tx)) (\<lambda>_.
        leg_write te (\<lambda>now. MarkSettled now ?ext actual))"
  let ?fresh = "if ro_state ord \<noteq> ''dispatching'' then fail (Broken ''order is not dispatching -- cannot settle'')
      else case payout of
        None \<Rightarrow> settle te l ord actual payout
      | Some tx \<Rightarrow>
        andthen (checkPayout te l tx) (\<lambda>verdict.
        case verdict of
          PayoutUnchecked \<Rightarrow> settle te l ord actual payout
        | PayoutPending \<Rightarrow> ret ()
        | PayoutWrong \<Rightarrow> ret ()
        | PayoutPaid paid \<Rightarrow> settle te l ord paid payout)"
  have "keeps forward_on (case v of PayoutUnchecked \<Rightarrow> settle te l ord actual payout | PayoutPending \<Rightarrow> ret ()
      | PayoutWrong \<Rightarrow> ret () | PayoutPaid paid \<Rightarrow> settle te l ord paid payout)" for v
    by (cases v) (auto intro: keeping settle_rule)
  then have fresh: "keeps forward_on ?fresh"
    by (intro keeping settle_rule go_forward.calmly_keeps [OF keeps_checkPayout])
  have "keeps forward_on (case payout of None \<Rightarrow> ret () | Some tx \<Rightarrow> leg_write te (\<lambda>_. RecordPayoutTx ?ext tx))"
    by (intro keeping keeps_payout_tx)
  from go_forward.andthen_rule [OF keeps_carry [OF this forward_steady [of Settled]] MarkSettled_rule]
  have again: "tri (booked Settled ?ext) ?again forward_on (\<lambda>_ _. True)" by simp
  show "tri (\<lambda>s. \<forall>st. Terminal st \<longrightarrow> ro_state ord = state_str st \<longrightarrow> booked st ?ext s)
      (if ro_state ord = ''settled'' then ?again else ?fresh) forward_on (\<lambda>_ _. True)"
  proof (cases "ro_state ord = ''settled''")
    case True
    have "tri (\<lambda>s. \<forall>st. Terminal st \<longrightarrow> ro_state ord = state_str st \<longrightarrow> booked st ?ext s) ?again forward_on (\<lambda>_ _. True)"
      by (rule tri_pre [OF again]) (use True in \<open>auto dest: spec [of _ Settled]\<close>)
    then show ?thesis using True by simp
  qed (use keepsD [OF fresh] in simp)
qed

lemma advanceForwardedLegs_rule: "keeps forward_on (advanceForwardedLegs te)"
proof -
  have m: "keeps forward_on (handleUnrecoverable te l)" for l
    unfolding handleUnrecoverable_def by (rule keepsI [OF MarkUnrecoverable_rule])
  have "keeps forward_on (case so_status v of
          Complete \<Rightarrow> (case so_out_actual v of
               None \<Rightarrow> fail (Broken ''upstream order reported complete with no amount_out_actual'')
             | Some actual \<Rightarrow> settle_completed te l actual (so_payout v))
        | SwapFailed \<Rightarrow> handleUnrecoverable te l
        | SwapExpired \<Rightarrow> handleUnrecoverable te l
        | _ \<Rightarrow> ret ())" for v l
    by (cases "so_status v") (auto intro: keeping m settle_completed_rule)
  then show ?thesis unfolding advanceForwardedLegs_def advanceForwardedOne_def
    by (intro keeping)
qed

section \<open>Paying back, expiry and leases\<close>

lemma advanceRefundPendingOne_rule:
  "tri (status_in {REFUND_PENDING, REFUNDED} (lg_external_id l)) (advanceRefundPendingOne te l) forward_on (\<lambda>_ _. True)"
proof -
  let ?P = "status_in {REFUND_PENDING, REFUNDED} (lg_external_id l)"
  have pay: "tri ?P (andthen (drive te (legTransfer l REFUND sender amount)) (\<lambda>done. case done of None \<Rightarrow> ret ()
      | Some a \<Rightarrow> (case ta_hash a of None \<Rightarrow> fail (Broken ''nil hash'')
          | Some h \<Rightarrow> leg_write te (\<lambda>now. MarkRefunded now (lg_external_id l) h)))) forward_on (\<lambda>_ _. True)" for sender amount
    by (rule drive_then_mark) (simp_all add: payable_top_ups MarkRefunded_rule)
  have o: "tri ?P (get_order te (lg_external_id l)) forward_on (\<lambda>_. ?P)"
    by (rule keeps_carry [OF go_forward.keeps_get_order]) (auto intro: returns_on forward_onward)
  show ?thesis unfolding advanceRefundPendingOne_def
    by (rule go_forward.andthen_rule [OF o]) (auto intro: pay go_forward.fail_rule split: option.split)
qed

lemma advanceRefundPendingLegs_rule: "keeps forward_on (advanceRefundPendingLegs te)"
  unfolding advanceRefundPendingLegs_def
  by (rule go_forward.over_legs [where F = "status_in {REFUND_PENDING, REFUNDED}",
        OF advanceRefundPendingOne_rule _ returns_on [OF forward_onward]])
    (auto simp: status_in_def)

lemma keeps_unseen [keeping]: "keeps calm (depositMaybeUnseen te l deadline)"
  unfolding depositMaybeUnseen_def by (intro keeping)

lemma expireOne_rule: "keeps unsent (expireOne te l now)"
  unfolding keeps_def expireOne_def Let_def
proof (rule send_nothing.andthen_rule [OF send_nothing.get_order_rule])
  fix ord
  let ?ext = "lg_external_id l"
  let ?P = "\<lambda>s. \<forall>st. Terminal st \<longrightarrow> ro_state ord = state_str st \<longrightarrow> booked st ?ext s"
  let ?book = "ledger_call te (\<lambda>t. lc_Transition (te_digest te) (te_actor te) t ?ext ''expired'' (ro_version ord)
      ''deposit_window_passed'' now (''relayd:expire:'' @ ?ext))"
  let ?fresh = "if ro_state ord \<noteq> ''quoted'' \<or> now < ro_quote_expires_at ord + te_grace te then ret ()
      else andthen (depositMaybeUnseen te l (ro_quote_expires_at ord)) (\<lambda>unseen.
        if unseen then ret () else andthen ?book (\<lambda>_. mark_expired te l))"
  have mark: "tri (booked Expired ?ext) (mark_expired te l) unsent (\<lambda>_ _. True)"
    unfolding mark_expired_def by (rule MarkExpired_rule)
  have "tri (\<lambda>_. True) ?book unsent (\<lambda>_. booked Expired ?ext)"
  proof (rule send_nothing.ledger_call_rule)
    show "booked Expired ?ext s"
      if "ledger_ok (ls_db srv)" "lc_Transition (te_digest te) (te_actor te) t ?ext ''expired'' (ro_version ord)
        ''deposit_window_passed'' now (''relayd:expire:'' @ ?ext) srv = (sy_ledger s, Inr x)" for s t srv x
      using client_state(2) [OF that] by (simp add: booked_def)
  qed (auto intro: client_served)
  note k = keepsI [OF send_nothing.andthen_rule [OF this mark]]
  have fresh: "keeps unsent ?fresh"
    by (intro keeping k send_nothing.calmly_keeps [OF keeps_unseen])
  show "tri ?P (if ro_state ord = ''expired'' then mark_expired te l else ?fresh) unsent (\<lambda>_ _. True)"
  proof (cases "ro_state ord = ''expired''")
    case True
    have "tri ?P (mark_expired te l) unsent (\<lambda>_ _. True)"
      by (rule tri_pre [OF mark]) (use True in \<open>auto dest: spec [of _ Expired]\<close>)
    then show ?thesis using True by simp
  qed (use keepsD [OF fresh] in simp)
qed

lemma expireUnpaidLegs_rule: "keeps unsent (expireUnpaidLegs te)"
  unfolding expireUnpaidLegs_def by (intro keeping expireOne_rule)

lemma releaseFinishedLeases_rule: "keeps calm (releaseFinishedLeases te)"
  unfolding releaseFinishedLeases_def release_one_def Let_def by (intro keeping)

lemma stale_alert [keeping]: "keeps calm (fireStaleLegAlert te l)"
  unfolding fireStaleLegAlert_def
proof (intro calmly.keeps_andthen calmly.keeps_ret)
  show "keeps calm (leg_update te (\<lambda>now. MarkStaleAlerted now (lg_external_id l)))"
    by (rule keepsI [OF calmly.leg_note_rule [where P = "\<lambda>_. True" and opn = "\<lambda>now. OpMarkStaleAlerted now (lg_external_id l)"]])
      (auto dest: note_status(2) [THEN quiet_same])
qed

lemma checkStaleLegs_rule: "keeps calm (checkStaleLegs te)"
  unfolding checkStaleLegs_def by (intro keeping)

section \<open>Sweeps\<close>

context calm_progress
begin

lemma keeps_bookSweep [keeping]: "keeps R (bookSweep te s tx)"
proof -
  have "keeps R (ledger_call te (\<lambda>now. lc_PostEntry digest actor now ty now ls md key))" if "digest = te_digest te"
    for digest actor ty ls md key
    unfolding that by (rule keepsI, rule ledger_call_rule [where P = "\<lambda>_. True" and Q = "\<lambda>_ _. True"]) (auto intro: client_served)
  then show ?thesis unfolding bookSweep_def Let_def by (intro keeping) auto
qed

end

lemma keeps_sweep_writes:
  "keeps (within B) (drive te (sweepTransfer sw))" "keeps (within B) (attempt_write te (\<lambda>now. MarkAbandoned now i reason))"
  "keeps (within B) (sweep_update te (\<lambda>now db. rbind (MarkSweepFailed now j reason db) (\<lambda>db. Inr (db, ()))))"
  "keeps (within B) (sweep_update te (\<lambda>now db. rbind (MarkSweepConfirmed now j h eid db) (\<lambda>db. Inr (db, ()))))"
  by (rule keepsI, rule sweep_drive_rule, rule keepsI, rule sweep_abandon_rule, rule keepsI, rule MarkSweepFailed_rule,
      rule keepsI, rule MarkSweepConfirmed_rule)

lemma keeps_giveUp: "keeps (within B) (giveUpStuckSweep te s)"
  unfolding giveUpStuckSweep_def Let_def by (intro keeping keeps_sweep_writes)

lemma keeps_advanceSweep: "keeps (within B) (advanceSweep te s)"
  unfolding advanceSweep_def by (intro keeping keeps_sweep_writes keeps_giveUp)

lemma within_forward: "within B s s' \<Longrightarrow> forward_on s s'"
  by (simp add: within_def)

lemma advanceSweeps_rule: "keeps forward_on (advanceSweeps te)"
  unfolding advanceSweeps_def
  by (intro keeping keeps_rel [OF keeps_advanceSweep within_forward])

text \<open>A sweep is created for what its wallet earned beyond what is swept already.\<close>

definition roomy :: "(string \<Rightarrow> int) \<Rightarrow> sys \<Rightarrow> bool" where
  "roomy B s \<longleftrightarrow> (\<forall>addr. swept_at s addr \<le> B addr \<and> B addr \<le> earned_at (sy_legs s) addr)"

lemma roomy_within: "within B s s' \<Longrightarrow> roomy B s \<Longrightarrow> roomy B s'"
  unfolding within_def roomy_def by (meson order_trans)

lemma roomy_calm: "calm s s' \<Longrightarrow> roomy B s \<Longrightarrow> roomy B s'"
  by (rule roomy_within [OF calm_within])

definition room :: "wallet list \<Rightarrow> string \<Rightarrow> int" where
  "room ws addr = sum_list (map (\<lambda>w. max 0 (units (Unswept w))) (filter (\<lambda>w. wl_address w = addr) ws))"

lemma room_Cons: "room (w # ws) addr = room ws addr + (if wl_address w = addr then max 0 (units (Unswept w)) else 0)"
  by (simp add: room_def)

lemma room_nonneg: "0 \<le> room ws addr"
  by (induction ws) (auto simp: room_def)

lemma shared_room:
  assumes "\<forall>e \<in> set es. (0 :: int) \<le> e" and "0 \<le> S"
  shows "sum_list (map (\<lambda>e. max 0 (e - S)) es) = 0 \<or> S + sum_list (map (\<lambda>e. max 0 (e - S)) es) \<le> sum_list es"
    "sum_list (map (\<lambda>e. max 0 (e - S)) es) \<le> sum_list es"
  using assms by (induction es) auto

lemma wallets_room:
  assumes W: "Wallets db ldb = Inr ws" and ok: "legs_ok ldb" "sweeps_ok db" and c: "covered db ldb"
  shows "swept_units (sweeps db) addr + room ws addr \<le> earned_at ldb addr"
proof -
  let ?S = "swept_units (sweeps db) addr" and ?ws = "filter (\<lambda>w. wl_address w = addr) ws"
  let ?es = "map (\<lambda>w. units (wl_earned w)) ?ws"
  note b = Wallets_budget [OF W ok]
  have S: "0 \<le> ?S" by (rule swept_units_nonneg [OF ok(2)])
  have "max 0 (units (Unswept w)) = max 0 (units (wl_earned w) - ?S)" if "w \<in> set ?ws" for w
    using Unswept_units [of w] b(1) that S by auto
  then have "map (\<lambda>w. max 0 (units (Unswept w))) ?ws = map (\<lambda>w. max 0 (units (wl_earned w) - ?S)) ?ws"
    by (rule map_cong [OF refl])
  then have "room ws addr = sum_list (map (\<lambda>e. max 0 (e - ?S)) ?es)"
    unfolding room_def map_map comp_def by (rule arg_cong)
  moreover have "\<forall>e \<in> set ?es. 0 \<le> e" using b(1) by auto
  moreover have "sum_list ?es \<le> earned_at ldb addr" using b(2) by (simp add: earned_by_def)
  moreover have "?S \<le> earned_at ldb addr" using c by (simp add: covered_def)
  ultimately show ?thesis using shared_room(1) [of ?es ?S] S by linarith
qed

lemma create_and_sweep_rule:
  assumes n: "n = units (Unswept w)" and a: "a = wl_address w"
  shows "tri (\<lambda>s. roomy B s \<and> B a + n \<le> earned_at (sy_legs s) a) (create_and_sweep te w i to) (within (B(a := B a + n))) (\<lambda>_ _. True)"
proof -
  let ?P = "\<lambda>s. roomy B s \<and> B a + n \<le> earned_at (sy_legs s) a"
  let ?new = "\<lambda>now. CreateSweep now
        \<lparr>sp_id = 0, sp_chain = wl_chain w, sp_from = wl_address w, sp_index = i, sp_to = to, sp_amount = Unswept w,
         sp_status = SweepPending, sp_tx = None, sp_entry = None, sp_error = None, sp_created_at = 0,
         sp_updated_at = 0, sp_finished_at = None\<rparr>"
  have c: "tri ?P (sweep_update te ?new) (within (B(a := B a + n))) (\<lambda>_ _. True)"
  proof (rule sweep_update_rule)
    show "?P s'" if "calm s s'" "?P s" for s s'
    proof -
      have "earned_at (sy_legs s) a \<le> earned_at (sy_legs s') a" using that(1) by (simp add: calm_def)
      then show ?thesis using that(2) roomy_calm [OF that(1)] by simp
    qed
    fix s now db x
    assume s: "sys_ok s" "?P s" and e: "?new now (sy_sweeps s) = Inr (db, x)"
    have ok: "sweeps_ok (sy_sweeps s)" "covered (sy_sweeps s) (sy_legs s)" using s(1) by (simp_all add: sys_ok_def)
    have S: "swept_units (sweeps db) y = swept_at s y + (if y = a then n else 0)" for y
      using CreateSweep_swept [OF e, of y] by (simp add: swept_at_def n a)
    have "swept_units (sweeps (sy_sweeps s)) a + n \<le> earned_at (sy_legs s) a"
      using s(2) by (auto simp: roomy_def swept_at_def dest!: spec [of _ a])
    then have "covered db (sy_legs s)" using CreateSweep_covered [OF ok(2) e] by (simp add: n a)
    moreover have "swept_units (sweeps db) y \<le> (B(a := B a + n)) y" for y
      using s(2) by (simp add: S roomy_def)
    ultimately show "sweeps_ok db \<and> covered db (sy_legs s) \<and>
        ((\<forall>addr. swept_at s addr \<le> (B(a := B a + n)) addr) \<longrightarrow> (\<forall>addr. swept_units (sweeps db) addr \<le> (B(a := B a + n)) addr))"
      using CreateSweep_ok [OF ok(1) e] by blast
  qed
  have k: "keeps (within (B(a := B a + n))) (case r of
       Inl e \<Rightarrow> if e = SweepFailure ErrSweepPending then ret () else fail e
     | Inr s \<Rightarrow> advanceSweep te s)" for r
    by (intro keeping keeps_advanceSweep)
  show ?thesis unfolding create_and_sweep_def
    by (rule sweeping.andthen_rule [OF tri_True [OF sweeping.attempted_rule [OF c]] keepsD [OF k]])
qed

lemma startSweep_rule:
  assumes n: "n = max 0 (units (Unswept w))" and a: "a = wl_address w"
  shows "tri (\<lambda>s. roomy B s \<and> B a + n \<le> earned_at (sy_legs s) a) (startSweep te st now w) (within (B(a := B a + n))) (\<lambda>_ _. True)"
proof (cases "sweep_due w st now")
  case False
  then show ?thesis by (simp add: startSweep_def sweeping.ret_any)
next
  case due: True
  let ?P = "\<lambda>s. roomy B s \<and> B a + n \<le> earned_at (sy_legs s) a"
  have n': "n = units (Unswept w)" using due n by (simp add: sweep_due_def Let_def word_sle_eq)
  have c: "?P s'" if "calm s s'" "?P s" for s s'
  proof -
    have "earned_at (sy_legs s) a \<le> earned_at (sy_legs s') a" using that(1) by (simp add: calm_def)
    then show ?thesis using that(2) roomy_calm [OF that(1)] by simp
  qed
  have busy: "tri ?P (attempt_read te f) (within (B(a := B a + n))) (\<lambda>_. ?P)" for f :: "transfer_db \<Rightarrow> attempt option"
    by (rule tri_post [OF sweeping.attempt_read_rule]) (use c in auto)
  have ask: "tri ?P (asked te f) (within (B(a := B a + n))) (\<lambda>_. ?P)" for f :: "nat \<Rightarrow> orch_error + bool \<times> string"
    by (rule sweeping.asked_rule) (rule c)
  have k: "tri ?P (case x of (short, to) \<Rightarrow> if short then ret ()
          else if to = '''' then fail (Broken ''no sweep destination is configured'')
          else create_and_sweep te w i to) (within (B(a := B a + n))) (\<lambda>_ _. True)" for x i
    using create_and_sweep_rule [OF n' a, of B te i] by (cases x) (simp add: sweeping.ret_any sweeping.fail_rule)
  show ?thesis
  proof (cases "wl_index w")
    case None
    then show ?thesis using due by (simp add: startSweep_def sweeping.ret_any)
  next
    case (Some i)
    have "tri ?P (if busy \<noteq> None then ret () else andthen (asked te f) (\<lambda>(short, to). if short then ret ()
          else if to = '''' then fail (Broken ''no sweep destination is configured'')
          else create_and_sweep te w i to)) (within (B(a := B a + n))) (\<lambda>_ _. True)" for busy :: "attempt option" and f
      using sweeping.andthen_rule [OF ask k] by (simp add: sweeping.ret_any)
    from sweeping.andthen_rule [OF busy this] show ?thesis using due Some by (simp add: startSweep_def)
  qed
qed

lemma sweep_loop_rule:
  "tri (\<lambda>s. roomy B s \<and> (\<forall>addr. B addr + room ws addr \<le> earned_at (sy_legs s) addr)) (each (startSweep te st now) ws) forward_on (\<lambda>_ _. True)"
proof (induction ws arbitrary: B)
  case Nil
  show ?case by (simp add: go_forward.ret_any)
next
  case (Cons w ws)
  define a n B' where an: "a = wl_address w" "n = max 0 (units (Unswept w))" and B': "B' = B(a := B a + n)"
  let ?P = "\<lambda>s. roomy B s \<and> B a + n \<le> earned_at (sy_legs s) a"
  let ?F = "\<lambda>s. roomy B' s \<and> (\<forall>addr. B' addr + room ws addr \<le> earned_at (sy_legs s) addr)"
  have F: "?F s'" if "within B' s s'" "?F s" for s s'
  proof -
    have "earned_at (sy_legs s) addr \<le> earned_at (sy_legs s') addr" for addr using that(1) by (simp add: within_def)
    then show ?thesis using that(2) roomy_within [OF that(1)] by (meson order_trans)
  qed
  have "tri (\<lambda>s. ?P s \<and> ?F s) (logged (startSweep te st now w)) (within B') (\<lambda>_ s. True \<and> ?F s)"
    by (rule tri_carry [where F = ?F, OF sweeping.logged_rule [OF startSweep_rule [OF an(2,1), of B, folded B']] F])
  then have "tri (\<lambda>s. ?P s \<and> ?F s) (logged (startSweep te st now w)) forward_on (\<lambda>_. ?F)"
    by (rule tri_conseq) (auto intro: within_forward)
  from go_forward.andthen_rule [OF this Cons.IH]
  have "tri (\<lambda>s. ?P s \<and> ?F s) (each (startSweep te st now) (w # ws)) forward_on (\<lambda>_ _. True)" by simp
  then show ?case
  proof (rule tri_pre)
    fix s
    assume "roomy B s \<and> (\<forall>addr. B addr + room (w # ws) addr \<le> earned_at (sy_legs s) addr)"
    then have r: "roomy B s" and le: "B addr + room (w # ws) addr \<le> earned_at (sy_legs s) addr" for addr by simp_all
    have F: "B' addr + room ws addr \<le> earned_at (sy_legs s) addr" for addr
      using le [of addr] by (auto simp: B' room_Cons an)
    have "B a + n \<le> earned_at (sy_legs s) a" using F [of a] room_nonneg [of ws a] by (simp add: B')
    moreover have "roomy B' s"
      unfolding roomy_def
    proof (intro allI conjI)
      fix addr
      have "B addr \<le> B' addr" by (simp add: B' an)
      then show "swept_at s addr \<le> B' addr" using r by (meson order_trans roomy_def)
      show "B' addr \<le> earned_at (sy_legs s) addr" using F [of addr] room_nonneg [of ws addr] by simp
    qed
    ultimately show "?P s \<and> ?F s" using r F by simp
  qed
qed

lemma tri_ex: "(\<And>b. tri (P b) m R Q) \<Longrightarrow> tri (\<lambda>s. \<exists>b. P b s) m R Q"
  unfolding tri_def by blast

lemma startSweeps_rule: "keeps forward_on (startSweeps te)"
proof -
  have W: "tri (\<lambda>_. True) (sweep_read te Wallets) forward_on
      (\<lambda>ws s. \<exists>B. roomy B s \<and> (\<forall>addr. B addr + room ws addr \<le> earned_at (sy_legs s) addr))"
  proof (rule tri_post [OF go_forward.sweep_read_rule [where P = "\<lambda>_. True"]])
    fix ws s
    assume s: "sys_ok s" and w: "True \<and> Wallets (sy_sweeps s) (sy_legs s) = Inr ws"
    have ok: "legs_ok (sy_legs s)" "sweeps_ok (sy_sweeps s)" "covered (sy_sweeps s) (sy_legs s)"
      using s by (simp_all add: sys_ok_def)
    have "swept_at s addr + room ws addr \<le> earned_at (sy_legs s) addr" for addr
      using wallets_room [OF w [THEN conjunct2] ok] by (simp add: swept_at_def)
    moreover have "roomy (swept_at s) s" using ok(3) by (simp add: roomy_def covered_def swept_at_def)
    ultimately show "\<exists>B. roomy B s \<and> (\<forall>addr. B addr + room ws addr \<le> earned_at (sy_legs s) addr)" by blast
  qed simp
  note one = keepsI [OF go_forward.andthen_rule [OF W tri_ex [OF sweep_loop_rule]]]
  show ?thesis unfolding startSweeps_def
    by (intro keeping one go_forward.calmly_keeps [OF keeps_memory(5)])
qed

section \<open>The tick\<close>

lemma forward_keeps_onward: "keeps forward_on m \<Longrightarrow> keeps onward m"
  by (rule keeps_rel [OF _ forward_onward])

lemma unsent_keeps_onward: "keeps unsent m \<Longrightarrow> keeps onward m"
  by (rule keeps_rel [OF _ unsent_onward])

lemma RunTick_rule: "keeps onward (RunTick te)"
  unfolding RunTick_def
  by (rule go_on.keeps_every)
    (auto intro: unsent_keeps_onward forward_keeps_onward go_on.calmly_keeps
      startScreenedLegs_rule advanceForwardingLegs_rule advanceForwardedLegs_rule refundStuckAwaitingDepositLegs_rule
      refundStuckForwardingLegs_rule startExternallyRefundedLegs_rule advanceRefundPendingLegs_rule
      keepsI [OF track_rule] expireUnpaidLegs_rule releaseFinishedLeases_rule advanceSweeps_rule startSweeps_rule
      checkStaleLegs_rule)

end
