(* ===== verification/Driver.thy ===== *)
theory Driver
  imports Orch_Inv
begin

text \<open>
  Relayd's front door (\<open>relayd/internal/driver/driver.go\<close>, \<open>relayd/internal/addrcheck\<close>): quotes, the
  creation of a relay leg, the entry that refunds a leg held by screening, and the status of a leg.

  \<^item> \<open>driver_env\<close> is what the struct \<open>Driver\<close> is configured with: the vendor's quotes, the two watchers'
    address pools, the pricing store and the durations; beside them the library functions for
    addresses and the SHA-256 sum. As in \<open>tick_env\<close> an answer may depend on the calls made before.
  \<^item> The text functions of Go's \<open>strings\<close> are those of ASCII text.
\<close>

section \<open>Addresses and names\<close>

definition has_prefix :: "string \<Rightarrow> string \<Rightarrow> bool" where
  "has_prefix p s \<longleftrightarrow> take (length p) s = p"

definition to_upper :: "string \<Rightarrow> string" where
  "to_upper = map (\<lambda>c. if 97 \<le> (of_char c :: nat) \<and> (of_char c :: nat) \<le> 122 then char_of ((of_char c :: nat) - 32) else c)"

definition addrcheck_TRON :: "tron_lib \<Rightarrow> string \<Rightarrow> bool" where
  "addrcheck_TRON l addr \<longleftrightarrow> has_prefix ''T'' addr \<and> (case tl_addr l addr of Inl _ \<Rightarrow> False | Inr _ \<Rightarrow> True)"

text \<open>A mixed-case address must match its checksum, the form in which the library prints it.\<close>

definition addrcheck_EVM :: "eth_lib \<Rightarrow> string \<Rightarrow> bool" where
  "addrcheck_EVM l addr \<longleftrightarrow>
     has_prefix ''0x'' addr \<and> el_is_hex l addr \<and> el_addr l addr \<noteq> 0 \<and>
     (let body = drop 2 addr in
      body = to_lower body \<or> body = to_upper body \<or> el_hex l (el_addr l addr) = addr)"

definition ValidateDestination :: "eth_lib \<Rightarrow> tron_lib \<Rightarrow> leg_direction \<Rightarrow> string \<Rightarrow> bool" where
  "ValidateDestination ethl tronl d dest = (if d = TRC20ToBEP20 then addrcheck_EVM ethl dest else addrcheck_TRON tronl dest)"

definition is_space :: "char \<Rightarrow> bool" where
  "is_space c \<longleftrightarrow> (let n = (of_char c :: nat) in n = 32 \<or> 9 \<le> n \<and> n \<le> 13)"

definition trim_space :: "string \<Rightarrow> string" where
  "trim_space s = rev (dropWhile is_space (rev (dropWhile is_space s)))"

definition hex_digit :: "nat \<Rightarrow> char" where
  "hex_digit n = (if n < 10 then char_of (n + 48) else char_of (n + 87))"

definition hex_string :: "string \<Rightarrow> string" where
  "hex_string = concat \<circ> map (\<lambda>c. [hex_digit (of_char c div 16), hex_digit (of_char c mod 16)])"

definition LedgerCustomerID :: "(string \<Rightarrow> string) \<Rightarrow> string \<Rightarrow> string" where
  "LedgerCustomerID sha label = ''relay-'' @ hex_string (take 8 (sha (to_lower (trim_space label))))"

definition id_char :: "char \<Rightarrow> bool" where
  "id_char c \<longleftrightarrow> (let n = (of_char c :: nat) in
     65 \<le> n \<and> n \<le> 90 \<or> 97 \<le> n \<and> n \<le> 122 \<or> 48 \<le> n \<and> n \<le> 57 \<or> c \<in> set ''._:-'')"

definition validExternalID :: "string \<Rightarrow> bool" where
  "validExternalID s \<longleftrightarrow> 16 \<le> length s \<and> length s \<le> 128 \<and> list_all id_char s"

section \<open>Quotes\<close>

record vendor_quote =
  vq_provider :: string
  vq_amount_out :: amount
  vq_valid_until :: time

record driver_env =
  de_quote :: "nat \<Rightarrow> pair \<Rightarrow> amount \<Rightarrow> string + vendor_quote"
  de_tron_assign :: "nat \<Rightarrow> int64 \<Rightarrow> string \<Rightarrow> string \<Rightarrow> time \<Rightarrow> time \<Rightarrow> string \<Rightarrow> string + string \<times> 32 word option"
  de_bep20_assign :: "nat \<Rightarrow> int64 \<Rightarrow> string \<Rightarrow> string \<Rightarrow> time \<Rightarrow> time \<Rightarrow> string \<Rightarrow> string + string \<times> 32 word option"
  de_pricing :: settings
  de_validity :: time
  de_window :: time
  de_eth :: eth_lib
  de_tron :: tron_lib
  de_sha256 :: "string \<Rightarrow> string"

definition inAssetFor :: "leg_direction \<Rightarrow> asset" where
  "inAssetFor d = (if d = TRC20ToBEP20 then USDT_TRC20 else USDT_BEP20)"

record quote =
  qt_direction :: leg_direction
  qt_amount_in :: amount
  qt_our_fee :: amount
  qt_forward :: amount
  qt_vendor_fee :: amount
  qt_amount_out :: amount
  qt_vendor :: string
  qt_valid_until :: time
  qt_pricing :: pricing

definition Quote :: "tick_env \<Rightarrow> driver_env \<Rightarrow> leg_direction \<Rightarrow> string \<Rightarrow> quote act" where
  "Quote te de d amount_in =
     (if d \<noteq> TRC20ToBEP20 \<and> d \<noteq> BEP20ToTRC20 then fail (BadRequest ''direction'')
      else
        let inAsset = inAssetFor d in
        case ParseDecimal amount_in inAsset of
          Inl _ \<Rightarrow> fail (BadRequest ''amount_in'')
        | Inr amountIn \<Rightarrow>
          andthen (asked te (\<lambda>_. tag PricingFailure (GetPricing (de_pricing de)))) (\<lambda>c.
          let cfg = For c (direction_str d) in
          if amt_units amountIn <s pc_min_in cfg \<or> pc_max_in cfg <s amt_units amountIn then fail (BadRequest ''amount out of range'')
          else case Split cfg amountIn of
            None \<Rightarrow> fail (BadRequest ''amount is too small to cover our fee'')
          | Some (ourFee, forward) \<Rightarrow>
            andthen (asked te (\<lambda>n. tag VendorFailure (de_quote de n (upstreamPairFor d) forward))) (\<lambda>vq.
            with_clock te (\<lambda>now.
            let mine = now + de_validity de in
            ret \<lparr>qt_direction = d, qt_amount_in = amountIn, qt_our_fee = ourFee, qt_forward = forward,
              qt_vendor_fee = Amount inAsset (amt_units forward - amt_units (vq_amount_out vq)),
              qt_amount_out = vq_amount_out vq, qt_vendor = vq_provider vq,
              qt_valid_until = (if vq_valid_until vq < mine then vq_valid_until vq else mine), qt_pricing = cfg\<rparr>))))"

section \<open>Creating a leg\<close>

record create_request =
  cq_external_id :: string
  cq_label :: string
  cq_direction :: leg_direction
  cq_destination :: string
  cq_amount_in :: string

record create_result =
  ce_external_id :: string
  ce_order_id :: int64
  ce_deposit_address :: string
  ce_quote :: quote
  ce_deadline :: time

text \<open>The order: a new one, or the one that an earlier try of this request has left.\<close>

definition order_for ::
  "tick_env \<Rightarrow> create_request \<Rightarrow> string \<Rightarrow> quote \<Rightarrow> time \<Rightarrow> time \<Rightarrow> (remote_order \<times> time) act" where
  "order_for te req customer q quotedAt deadline =
     andthen (attempted (ledger_call te (\<lambda>now. lc_CreateOrder now (cq_external_id req) customer (qt_amount_in q) (qt_amount_out q)
        (qt_our_fee q) (Amount (amt_asset (qt_amount_in q)) 0) (cq_destination req) quotedAt deadline))) (\<lambda>r.
     case r of
       Inr ord \<Rightarrow> ret (ord, deadline)
     | Inl e \<Rightarrow>
       andthen (attempted (get_order te (cq_external_id req))) (\<lambda>g.
       case g of
         Inl _ \<Rightarrow> fail e
       | Inr existing \<Rightarrow>
         if ro_tier existing \<noteq> ''RELAY'' \<or> ro_customer_id existing \<noteq> customer \<or>
            ro_recipient existing \<noteq> cq_destination req \<or> ro_amount_in existing \<noteq> qt_amount_in q
         then fail Conflict
         else ret (existing, ro_quote_expires_at existing)))"

definition leg_for :: "create_request \<Rightarrow> quote \<Rightarrow> remote_order \<Rightarrow> string \<Rightarrow> 32 word option \<Rightarrow> leg" where
  "leg_for req q ord address index =
     \<lparr>lg_id = 0, lg_external_id = ro_external_id ord, lg_order_id = of_int (ro_id ord), lg_direction = cq_direction req,
      lg_status = AWAITING_DEPOSIT, lg_customer_id = ro_customer_id ord, lg_destination = cq_destination req,
      lg_deposit_address = address, lg_provider = None, lg_upstream_order = None, lg_upstream_address = None,
      lg_forward_tx = None, lg_refund_tx = None, lg_stale_alerted_at = None, lg_attempt_started_at = None,
      lg_created_at = 0, lg_updated_at = 0, lg_customer_label = Some (trim_space (cq_label req)),
      lg_profit_bps = Some (pc_bps (qt_pricing q)), lg_min_profit = Some (pc_min (qt_pricing q)), lg_sender = None,
      lg_vendor_fee = None, lg_lease_released_at = None, lg_payout_tx = None, lg_deposit_index = index,
      lg_amount_in = qt_amount_in q, lg_out_expected = qt_amount_out q, lg_out_actual = None, lg_received = None,
      lg_profit = None, lg_forward = None\<rparr>"

text \<open>The local leg, which must be this request's.\<close>

definition register_leg :: "tick_env \<Rightarrow> create_request \<Rightarrow> quote \<Rightarrow> remote_order \<Rightarrow> time \<Rightarrow> string \<Rightarrow> 32 word option \<Rightarrow> create_result act" where
  "register_leg te req q ord deadline address index =
     andthen (leg_update te (\<lambda>now. CreateLeg now (leg_for req q ord address index))) (\<lambda>l.
        if lg_order_id l \<noteq> of_int (ro_id ord) \<or> lg_direction l \<noteq> cq_direction req \<or> lg_destination l \<noteq> cq_destination req
        then fail Conflict
        else ret \<lparr>ce_external_id = lg_external_id l, ce_order_id = lg_order_id l, ce_deposit_address = lg_deposit_address l,
          ce_quote = q, ce_deadline = deadline\<rparr>)"

definition CreateRelayLeg :: "tick_env \<Rightarrow> driver_env \<Rightarrow> create_request \<Rightarrow> create_result act" where
  "CreateRelayLeg te de req =
     (let ext = cq_external_id req in
      if trim_space (cq_label req) = '''' then fail (BadRequest ''customer label is required'')
      else if \<not> validExternalID ext then fail (BadRequest ''external_id'')
      else if \<not> ValidateDestination (de_eth de) (de_tron de) (cq_direction req) (cq_destination req)
      then fail (BadRequest ''destination_address'')
      else
        andthen (Quote te de (cq_direction req) (cq_amount_in req)) (\<lambda>q. with_clock te (\<lambda>quotedAt.
        andthen (order_for te req (LedgerCustomerID (de_sha256 de) (cq_label req)) q quotedAt (quotedAt + de_window de)) (\<lambda>(ord, deadline).
        andthen (asked te (\<lambda>n. tag WatcherFailure
          ((if cq_direction req = TRC20ToBEP20 then de_tron_assign de else de_bep20_assign de)
            n (of_int (ro_id ord)) (ro_external_id ord) (ro_customer_id ord) quotedAt deadline (''relayd:assign-address:'' @ ext)))) (\<lambda>(address, index).
        register_leg te req q ord deadline address index)))))"

section \<open>The entry of a refund that screening decides, and reads\<close>

record refund_entry =
  re_type :: string
  re_occurred_at :: time
  re_lines :: "(string \<times> string \<times> string) list"

definition BuildRefundEntry :: "tick_env \<Rightarrow> string \<Rightarrow> refund_entry act" where
  "BuildRefundEntry te ext =
     andthen (leg_read te (\<lambda>db. Leg_GetByExternalID db ext)) (\<lambda>l.
     if lg_status l \<noteq> AWAITING_DEPOSIT then fail (NotEligible ''leg status'')
     else
       andthen (get_order te ext) (\<lambda>ord.
       if ro_state ord \<noteq> ''held'' then fail (NotEligible ''order state'')
       else
         andthen (ledger_read te (lc_AccountBalance (relayLegAccountCode (lg_order_id l)))) (\<lambda>received.
         if amt_units received \<le>s 0 then fail (NotEligible ''no deposit is held for this order'')
         else
           andthen (leg_update te (\<lambda>_. RecordDeposit ext received (case ro_sender ord of None \<Rightarrow> '''' | Some a \<Rightarrow> a)
             (Amount (amt_asset received) 0) received)) (\<lambda>_.
           andthen (lift AmountFailure (Neg received)) (\<lambda>neg.
           andthen (lift AmountFailure (Format received)) (\<lambda>amountIn.
           andthen (lift AmountFailure (Format neg)) (\<lambda>negAmountIn. with_clock te (\<lambda>now.
           let a = asset_str (amt_asset (ro_amount_in ord)) in
           ret \<lparr>re_type = ''relay_refund'', re_occurred_at = now,
             re_lines = [(customerAccountCode (ro_customer_id ord) (amt_asset (ro_amount_in ord)), a, amountIn),
               (relayLegAccountCode (lg_order_id l), a, negAmountIn)]\<rparr>))))))))"

definition GetStatus :: "tick_env \<Rightarrow> string \<Rightarrow> (remote_order \<times> leg) act" where
  "GetStatus te ext =
     andthen (get_order te ext) (\<lambda>ord.
     andthen (leg_read te (\<lambda>db. Leg_GetByExternalID db ext)) (\<lambda>l.
     ret (ord, l)))"

end
