(* ===== verification/Orch_Run.thy ===== *)
theory Orch_Run
  imports Driver
begin

text \<open>
  Relayd from its first start: ticks, requests to the front door, restarts and what the administrator
  asks for, in any order, each with its own faults. Every state it reaches satisfies \<open>sys_ok\<close>; the
  facts on legs, transfers and books that hold in all of them are derived here.
\<close>

section \<open>The front door keeps the invariant\<close>

context calm_progress
begin

lemma create_leg_rule:
  "tri (\<lambda>_. True) (leg_update te (\<lambda>now. CreateLeg now l)) R (\<lambda>x s. Leg_GetByExternalID (sy_legs s) (lg_external_id l) = Inr x)"
proof (rule tri_post [OF leg_note_rule [where P = "\<lambda>_. True" and opn = "\<lambda>now. OpCreateLeg now l"]])
  fix x s
  assume "True \<and> (\<exists>now db. legs_ok db \<and> CreateLeg now l db = Inr (sy_legs s, x))"
  then obtain now db where c: "CreateLeg now l db = Inr (sy_legs s, x)" by blast
  then show "Leg_GetByExternalID (sy_legs s) (lg_external_id l) = Inr x"
  proof (cases rule: CreateLeg_cases)
    case new
    then show ?thesis by (simp add: Leg_GetByExternalID_def leg_at_def first_row_append split: option.splits)
  next
    case (old r)
    then show ?thesis by (simp add: Leg_GetByExternalID_def leg_at_def)
  qed
qed (auto dest: CreateLeg_quiet)

lemma keeps_create_leg [keeping]: "keeps R (leg_update te (\<lambda>now. CreateLeg now l))"
  by (rule keepsI [OF create_leg_rule])

lemma keeps_create_order [keeping]:
  "keeps R (ledger_call te (\<lambda>now. lc_CreateOrder now ext cust ain aout fee nfee rcp qa ea))"
  by (rule keepsI, rule ledger_call_rule [where P = "\<lambda>_. True" and Q = "\<lambda>_ _. True" and digest = "te_digest te"])
    (auto intro: client_served)

lemma keeps_Quote [keeping]: "keeps R (Quote te de d a)"
  unfolding Quote_def Let_def by (intro keeping)

lemma keeps_order_for [keeping]: "keeps R (order_for te req c q t dl)"
  unfolding order_for_def by (intro keeping)

end

lemma keeps_record: "keeps calm (leg_update te (\<lambda>_. RecordDeposit ext rc sender p f))"
  by (rule keepsI [OF record_write_rule])

lemma BuildRefundEntry_rule: "keeps calm (BuildRefundEntry te ext)"
  unfolding BuildRefundEntry_def Let_def by (intro keeping keeps_record)

text \<open>What the front door hands out is the leg of the request.\<close>

lemma tri_if: "(b \<Longrightarrow> tri P m R Q) \<Longrightarrow> (\<not> b \<Longrightarrow> tri P n R Q) \<Longrightarrow> tri P (if b then m else n) R Q"
  by simp

lemma tri_prod: "(\<And>a b. x = (a, b) \<Longrightarrow> tri P (k a b) R Q) \<Longrightarrow> tri P (case x of (a, b) \<Rightarrow> k a b) R Q"
  by (cases x) auto

lemma toOrder_named: "toOrder (toOrderResponse o') = Inr ord \<Longrightarrow> ro_external_id ord = o_external_id o'"
  by (auto simp: toOrder_def toOrderResponse_def Let_def)

lemma CreateOrder_named: "CreateOrder db cp = Inr (db', o') \<Longrightarrow> o_external_id o' = ExternalID cp"
  using scanOrder_Inr(4) [OF CreateOrder_Inr(4)] by (fastforce simp: new_order_row_def)

lemma postOrder_named: "postOrder now body srv = (srv', Inr j) \<Longrightarrow> toOrder j = Inr ord \<Longrightarrow> ro_external_id ord = cj_external_id body"
  by (auto simp: postOrder_def Let_def split: sum.splits prod.splits if_splits dest!: toOrder_named CreateOrder_named)

lemma order_named:
  "lc_GetOrder ext srv = Inr ord \<Longrightarrow> ro_external_id ord = ext"
  "lc_CreateOrder now ext cust ain aout fee nfee rcp qa ea srv = (srv', Inr ord) \<Longrightarrow> ro_external_id ord = ext"
proof -
  show "ro_external_id ord = ext" if g: "lc_GetOrder ext srv = Inr ord"
  proof -
    obtain o' where o': "GetByExternalID (ls_db srv) ext = Inr o'" "toOrder (toOrderResponse o') = Inr ord"
      using g by (auto simp: lc_GetOrder_def getOrder_def)
    obtain r where "order_at (ls_db srv) ext = Some r" "scanOrder r = Inr o'" using GetByExternalID_at [OF o'(1)] by blast
    then show ?thesis using toOrder_named [OF o'(2)] scanOrder_Inr(4) order_atD by fastforce
  qed
  show "ro_external_id ord = ext" if "lc_CreateOrder now ext cust ain aout fee nfee rcp qa ea srv = (srv', Inr ord)"
    using that by (auto simp: lc_CreateOrder_def map_prod_def split: sum.splits prod.splits dest: postOrder_named)
qed

lemma order_for_rule: "tri (\<lambda>_. True) (order_for te req c q t dl) calm (\<lambda>x _. ro_external_id (fst x) = cq_external_id req)"
  unfolding order_for_def
proof (rule calmly.andthen_rule [OF calmly.attempted_rule])
  show "tri (\<lambda>_. True) (ledger_call te (\<lambda>now. lc_CreateOrder now (cq_external_id req) c (qt_amount_in q) (qt_amount_out q)
      (qt_our_fee q) (Amount (amt_asset (qt_amount_in q)) 0) (cq_destination req) t dl)) calm (\<lambda>ord _. ro_external_id ord = cq_external_id req)"
    by (rule calmly.ledger_call_rule [where digest = "te_digest te"]) (auto intro: client_served order_named(2))
  fix r :: "orch_error + remote_order"
  let ?old = "\<lambda>e. andthen (attempted (get_order te (cq_external_id req))) (\<lambda>g.
       case g of
         Inl _ \<Rightarrow> fail e
       | Inr existing \<Rightarrow>
         if ro_tier existing \<noteq> ''RELAY'' \<or> ro_customer_id existing \<noteq> c \<or>
            ro_recipient existing \<noteq> cq_destination req \<or> ro_amount_in existing \<noteq> qt_amount_in q
         then fail Conflict
         else ret (existing, ro_quote_expires_at existing))"
  have g: "tri (\<lambda>_. True) (get_order te (cq_external_id req)) calm (\<lambda>ord _. ro_external_id ord = cq_external_id req)"
    unfolding get_order_def by (rule tri_post [OF calmly.ledger_read_rule [where P = "\<lambda>_. True"]]) (auto intro: order_named(1))
  have old: "tri (\<lambda>_. True) (?old e) calm (\<lambda>x _. ro_external_id (fst x) = cq_external_id req)" for e
    by (rule calmly.andthen_rule [OF calmly.attempted_rule [OF g]])
      (auto intro: calmly.fail_rule tri_pre [OF calmly.ret_rule] split: sum.split)
  show "tri (\<lambda>_. \<forall>x. r = Inr x \<longrightarrow> ro_external_id x = cq_external_id req)
      (case r of Inr ord \<Rightarrow> ret (ord, dl) | Inl e \<Rightarrow> ?old e) calm (\<lambda>x _. ro_external_id (fst x) = cq_external_id req)"
  proof (cases r)
    case (Inl e)
    then show ?thesis using tri_pre [OF old [of e]] by simp
  qed (auto intro: tri_pre [OF calmly.ret_rule])
qed

text \<open>The leg a request has made: under the request's name, to the requested address.\<close>

definition made_for :: "create_request \<Rightarrow> create_result \<Rightarrow> sys \<Rightarrow> bool" where
  "made_for req r s \<longleftrightarrow> ce_external_id r = cq_external_id req \<and>
     (\<exists>l. Leg_GetByExternalID (sy_legs s) (cq_external_id req) = Inr l \<and> lg_direction l = cq_direction req \<and>
        lg_destination l = cq_destination req \<and> lg_deposit_address l = ce_deposit_address r \<and> lg_order_id l = ce_order_id r)"

lemma register_leg_rule:
  assumes "ro_external_id ord = cq_external_id req"
  shows "tri P (register_leg te req q ord deadline address index) calm (made_for req)"
  unfolding register_leg_def
proof (rule calmly.andthen_rule [OF tri_pre [OF calmly.create_leg_rule]])
  fix l
  have "lg_external_id (leg_for req q ord address index) = cq_external_id req" using assms by (simp add: leg_for_def)
  then show "tri (\<lambda>s. Leg_GetByExternalID (sy_legs s) (lg_external_id (leg_for req q ord address index)) = Inr l)
      (if lg_order_id l \<noteq> of_int (ro_id ord) \<or> lg_direction l \<noteq> cq_direction req \<or> lg_destination l \<noteq> cq_destination req
       then fail Conflict
       else ret \<lparr>ce_external_id = lg_external_id l, ce_order_id = lg_order_id l, ce_deposit_address = lg_deposit_address l,
          ce_quote = q, ce_deadline = deadline\<rparr>) calm (made_for req)"
    by (intro tri_if calmly.fail_rule tri_pre [OF calmly.ret_rule]) (auto simp: made_for_def dest: leg_told)
qed simp

lemma CreateRelayLeg_rule: "tri (\<lambda>_. True) (CreateRelayLeg te de req) calm (made_for req)"
proof -
  have reg: "tri (\<lambda>_. True) (andthen (asked te f) (\<lambda>(address, index). register_leg te req q ord deadline address index)) calm (made_for req)"
    if "ro_external_id ord = cq_external_id req" for f q ord deadline
    by (rule calmly.andthen_rule [OF keepsD [OF calmly.keeps_asked]]) (auto intro: tri_prod register_leg_rule that)
  have k: "tri (\<lambda>_. True) (andthen (order_for te req c q t dl) (\<lambda>(ord, deadline).
      andthen (asked te (f ord deadline)) (\<lambda>(address, index). register_leg te req q ord deadline address index))) calm (made_for req)"
    for c q t dl f
  proof (rule calmly.andthen_rule [OF order_for_rule])
    fix x
    show "tri (\<lambda>_. ro_external_id (fst x) = cq_external_id req) (case x of (ord, deadline) \<Rightarrow>
        andthen (asked te (f ord deadline)) (\<lambda>(address, index). register_leg te req q ord deadline address index)) calm (made_for req)"
      by (cases x) (auto intro: tri_pure [where P = "\<lambda>_. True", simplified] reg)
  qed
  show ?thesis unfolding CreateRelayLeg_def Let_def
    by (intro tri_if calmly.fail_rule calmly.andthen_rule [OF keepsD [OF calmly.keeps_Quote]] calmly.clock_rule k)
qed

section \<open>Runs\<close>

definition RequestSweepScan :: "sys \<Rightarrow> sys" where
  "RequestSweepScan s = s\<lparr>sy_last_scan := None\<rparr>"

datatype event =
    Tick tick_env | CreateRequest tick_env driver_env create_request | RefundEntryRequest tick_env string
  | Restart | SweepNow | PutSweepSettings sweep_settings

fun run_event :: "event \<Rightarrow> sys \<Rightarrow> sys" where
  "run_event (Tick te) s = fst (RunTick te s)"
| "run_event (CreateRequest te de req) s = fst (CreateRelayLeg te de req s)"
| "run_event (RefundEntryRequest te ext) s = fst (BuildRefundEntry te ext s)"
| "run_event Restart s = s\<lparr>sy_renewals := [], sy_retry_at := [], sy_last_scan := None\<rparr>"
| "run_event SweepNow s = RequestSweepScan s"
| "run_event (PutSweepSettings st) s =
     (case PutSettings st (sy_sweeps s) of Inl _ \<Rightarrow> s | Inr db \<Rightarrow> s\<lparr>sy_sweeps := db\<rparr>)"

definition first_start :: sys where
  "first_start =
     \<lparr>sy_legs = empty_relay_db, sy_world = empty_world, sy_ledger = \<lparr>ls_db = empty_db, ls_cache = Some \<lparr>c_halted = False, c_updated_at = 0\<rparr>\<rparr>,
      sy_sweeps = empty_sweeps_db, sy_renewals = [], sy_retry_at = [], sy_last_scan = None, sy_faults = [], sy_calls = 0\<rparr>"

definition run_events :: "(fault list \<times> event) list \<Rightarrow> sys \<Rightarrow> sys" where
  "run_events evs s = fold (\<lambda>(faults, e) s. run_event e (s\<lparr>sy_faults := faults\<rparr>)) evs s"

lemma run_events_simps [simp]:
  "run_events [] s = s"
  "run_events ((faults, e) # evs) s = run_events evs (run_event e (s\<lparr>sy_faults := faults\<rparr>))"
  by (simp_all add: run_events_def)

lemma run_events_append: "run_events (xs @ ys) s = run_events ys (run_events xs s)"
  by (simp add: run_events_def)

lemma first_start_ok: "sys_ok first_start"
  using legs_ok_empty world_ok_empty ledger_ok_empty sweeps_ok_empty covered_empty
  by (simp add: sys_ok_def first_start_def backed_def may_pay_def tried_def leg_status_of_def leg_at_def empty_relay_db_def
      empty_world_def empty_transfer_db_def)

lemma keepsE: "keeps R m \<Longrightarrow> sys_ok s \<Longrightarrow> sys_ok (fst (m s)) \<and> R s (fst (m s))"
  using triD [of "\<lambda>_. True" m R "\<lambda>_ _. True" s "fst (m s)" "snd (m s)"] by (simp add: keeps_def)

lemma PutSettings_ok: "PutSettings st db = Inr db' \<Longrightarrow> sweeps db' = sweeps db \<and> sweeps_seq db' = sweeps_seq db"
  by (auto simp: PutSettings_def)

lemma run_event_ok:
  assumes ok: "sys_ok s"
  shows "sys_ok (run_event e s) \<and> onward s (run_event e s)"
proof (cases e)
  case (Tick te)
  then show ?thesis using keepsE [OF RunTick_rule ok] by simp
next
  case (CreateRequest te de req)
  have "keeps onward (CreateRelayLeg te de req)"
    by (rule go_on.calmly_keeps [OF keepsI [OF CreateRelayLeg_rule]])
  then show ?thesis using CreateRequest keepsE ok by simp
next
  case (RefundEntryRequest te ext)
  then show ?thesis using keepsE [OF go_on.calmly_keeps [OF BuildRefundEntry_rule] ok] by simp
next
  case (PutSweepSettings st)
  have same: "sys_ok (s\<lparr>sy_sweeps := db\<rparr>) \<and> onward s (s\<lparr>sy_sweeps := db\<rparr>)" if "PutSettings st (sy_sweeps s) = Inr db" for db
    using ok PutSettings_ok [OF that]
    by (simp add: sys_ok_def sweeps_ok_def covered_def onward_def led_def booked_def status_in_def)
  then show ?thesis using PutSweepSettings ok by (auto split: sum.split)
qed (use ok in \<open>simp_all add: RequestSweepScan_def sys_ok_def onward_def led_def booked_def status_in_def\<close>)

lemma run_events_ok: "sys_ok s \<Longrightarrow> sys_ok (run_events evs s) \<and> onward s (run_events evs s)"
proof (induction evs arbitrary: s)
  case (Cons ev evs)
  obtain faults e where ev: "ev = (faults, e)" by fastforce
  let ?s = "s\<lparr>sy_faults := faults\<rparr>"
  have s: "sys_ok ?s \<and> onward s ?s"
    using Cons.prems by (simp add: sys_ok_def onward_def led_def booked_def status_in_def)
  note e = run_event_ok [OF s [THEN conjunct1], of e]
  show ?case using Cons.IH [OF e [THEN conjunct1]] s e by (auto simp: ev intro: onward_trans)
qed simp

text \<open>Every state of relayd.\<close>

abbreviation relayd_at :: "(fault list \<times> event) list \<Rightarrow> sys" where
  "relayd_at evs \<equiv> run_events evs first_start"

lemma relayd_at_ok: "sys_ok (relayd_at evs)"
  using run_events_ok [OF first_start_ok] by blast

lemma relayd_at_backed: "backed (sy_attempts (relayd_at evs)) (sy_books (relayd_at evs)) ext (leg_status_of (sy_legs (relayd_at evs)) ext)"
  using relayd_at_ok by (simp add: sys_ok_def)

end
