(* ===== verification/Orch_Demo.thy ===== *)
theory Orch_Demo
  imports Orch_Run Ledger_Demo Drive_Props
begin

text \<open>
  A small configuration for the witnesses. The customer sends 7 units on BSC, the profit is 2, the vendor
  gets 5.
\<close>

definition demo_pricing :: settings where
  "demo_pricing = Some \<lparr>st_value = Doc \<lparr>w_bps = 0, w_min = ''0.000002'', w_min_in = ''0.000003'', w_max_in = ''10'',
     w_directions = []\<rparr>, st_updated_at = 0, st_updated_by = ''a''\<rparr>"

definition demo_vendor :: "swap_status \<Rightarrow> swap_order" where
  "demo_vendor st =
     \<lparr>so_provider = ''v'', so_id = ''u1'', so_deposit = ''vendor-deposit'', so_destination = ''Tcustomer'', so_status = st,
      so_amount_in = Amount USDT_BEP20 5, so_out_expected = Amount USDT_TRC20 4,
      so_out_actual = (if st = Complete then Some (Amount USDT_TRC20 4) else None), so_payout = None\<rparr>"

definition demo_watcher :: watcher where
  "demo_watcher = \<lparr>wt_get = (\<lambda>_ _. Inr (''wallet'', Some 3)), wt_scan = None, wt_retire = None\<rparr>"

definition demo_tick :: "bool \<Rightarrow> swap_status \<Rightarrow> tick_env" where
  "demo_tick mined st =
     \<lparr>te_now = (\<lambda>_. 1000), te_digest = demo_digest, te_actor = ''relayd'', te_orch = (\<lambda>_. demo_orch mined),
      te_create = (\<lambda>_ _ _ _. Inr (demo_vendor AwaitingDeposit)), te_named = None, te_get = (\<lambda>_ _. Inr (demo_vendor st)),
      te_bep20 = Some demo_watcher, te_tron = None, te_evm_payouts = None, te_tron_payouts = None,
      te_pricing = Some demo_pricing, te_sweeping = True, te_forwarding_timeout = 0, te_stale_after = 0, te_grace = 0,
      te_sweep_bsc = ''s'', te_sweep_tron = ''''\<rparr>"

abbreviation (input) demo_ext :: string where "demo_ext \<equiv> ''relay-order-0001''"

end
