(* ===== verification/Orch_Props.thy ===== *)
theory Orch_Props
  imports Orch_Demo
begin

text \<open>
  The properties of relayd as a whole: of its ticks, its front door and its restarts, in any order and
  with any faults, beside the other users of the ledger.
\<close>

section \<open>Every reachable state\<close>

lemma refund_tried_status:
  "tried (sy_attempts (relayd_at evs)) (ext, REFUND) \<Longrightarrow> status_in {REFUND_PENDING, REFUNDED} ext (relayd_at evs)"
  using relayd_at_backed [of evs ext] by (auto simp: backed_def status_in_def)

lemma relayd_at_onward: "onward (relayd_at evs) (relayd_at (evs @ later))"
  using run_events_ok [OF relayd_at_ok] by (simp add: run_events_append)

lemma returning_never_pays:
  "status_in {REFUND_PENDING, REFUNDED} ext (relayd_at evs) \<Longrightarrow> \<not> may_pay (sy_attempts (relayd_at evs)) (ext, FORWARD)"
  using relayd_at_backed [of evs ext] by (auto simp: backed_def status_in_def)

text \<open>C2: once a refund of a leg was even built, no transfer forwarding its money is signed, in flight
  or confirmed, then or at any later time: whatever ticks, requests, restarts, crashes, lost replies
  and operations of other services follow.\<close>

theorem never_forwarded_and_refunded:
  "\<not> (tried (sy_attempts (relayd_at evs)) (ext, REFUND) \<and>
      may_pay (sy_attempts (relayd_at (evs @ later))) (ext, FORWARD))"
proof
  assume a: "tried (sy_attempts (relayd_at evs)) (ext, REFUND) \<and> may_pay (sy_attempts (relayd_at (evs @ later))) (ext, FORWARD)"
  then have "status_in {REFUND_PENDING, REFUNDED} ext (relayd_at (evs @ later))"
    using refund_tried_status relayd_at_onward unfolding onward_def by blast
  then show False using returning_never_pays a by blast
qed

text \<open>C3: the books come first. Money is sent back only for orders the ledger has as refunded, and
  money that is sent on belongs to a leg that has left the waiting state for the vendor.\<close>

theorem books_before_money:
  "{ext. tried (sy_attempts (relayd_at evs)) (ext, REFUND)} \<subseteq> {ext. ext_status (sy_books (relayd_at evs)) ext = Some Refunded} \<and>
   {ext. may_pay (sy_attempts (relayd_at evs)) (ext, FORWARD)} \<subseteq> {ext. status_in forwards ext (relayd_at evs)}"
  using relayd_at_backed [of evs] by (auto simp: backed_def status_in_def forwards_def)

text \<open>C4: what a leg says of its end is true. A settled leg's forward is confirmed on the chain and its
  order settled in the ledger; an unrecoverable leg's forward is confirmed; a refunded leg's refund
  is confirmed and its order refunded; an expired leg's order is expired.\<close>

theorem final_legs_true:
  "{ext. leg_status_of (sy_legs (relayd_at evs)) ext = Some SETTLED} \<subseteq>
     {ext. confirmed_job (sy_attempts (relayd_at evs)) (ext, FORWARD) \<and> ext_status (sy_books (relayd_at evs)) ext = Some Settled} \<and>
   {ext. leg_status_of (sy_legs (relayd_at evs)) ext = Some UNRECOVERABLE} \<subseteq>
     {ext. confirmed_job (sy_attempts (relayd_at evs)) (ext, FORWARD)} \<and>
   {ext. leg_status_of (sy_legs (relayd_at evs)) ext = Some REFUNDED} \<subseteq>
     {ext. confirmed_job (sy_attempts (relayd_at evs)) (ext, REFUND) \<and> ext_status (sy_books (relayd_at evs)) ext = Some Refunded} \<and>
   {ext. leg_status_of (sy_legs (relayd_at evs)) ext = Some EXPIRED} \<subseteq>
     {ext. ext_status (sy_books (relayd_at evs)) ext = Some Expired}"
  using relayd_at_backed [of evs] by (fastforce simp: backed_def)+

text \<open>C13: the sweeps of a deposit wallet, pending and confirmed together, never take more out than the
  profit its settled legs have left there.\<close>

theorem sweeps_never_overdraw:
  "swept_units (sweeps (sy_sweeps (relayd_at evs))) addr \<le> earned_at (sy_legs (relayd_at evs)) addr"
  using relayd_at_ok [of evs] by (simp add: sys_ok_def covered_def)

text \<open>C12: an order relayd's front door hands out is the order asked for: the leg in the store under
  the request's id pays out to the requested address in the requested direction, and waits for its
  deposit at the address the customer is shown, also when the request is repeated, lost or meets
  an order that is already there.\<close>

theorem created_leg_is_the_customers:
  "case CreateRelayLeg te de req (relayd_at evs) of
     (s, Inl e) \<Rightarrow> True
   | (s, Inr r) \<Rightarrow> ce_external_id r = cq_external_id req \<and>
       (\<exists>l. Leg_GetByExternalID (sy_legs s) (cq_external_id req) = Inr l \<and> lg_direction l = cq_direction req \<and>
         lg_destination l = cq_destination req \<and> lg_deposit_address l = ce_deposit_address r \<and> lg_order_id l = ce_order_id r)"
proof -
  obtain s r where r: "CreateRelayLeg te de req (relayd_at evs) = (s, r)" by fastforce
  show ?thesis
  proof (cases r)
    case (Inr x)
    show ?thesis using triD(3) [OF CreateRelayLeg_rule relayd_at_ok TrueI r Inr] by (simp add: r Inr made_for_def)
  qed (simp add: r)
qed

section \<open>What the ticks do not look at\<close>

text \<open>An action is blind when, with no faults left, it neither reads nor writes the ledger.\<close>

named_theorems blinding

definition blind :: "'a act \<Rightarrow> bool" where
  "blind m \<longleftrightarrow>
     (\<forall>s srv. sy_faults s = [] \<longrightarrow>
        m (s\<lparr>sy_ledger := srv\<rparr>) = ((fst (m s))\<lparr>sy_ledger := srv\<rparr>, snd (m s)) \<and> sy_faults (fst (m s)) = [])"

lemma blind_call [blinding]:
  assumes "\<And>s srv. f (s\<lparr>sy_ledger := srv\<rparr>) = ((fst (f s))\<lparr>sy_ledger := srv\<rparr>, snd (f s)) \<and> sy_faults (fst (f s)) = sy_faults s"
  shows "blind (call te f)"
  unfolding blind_def
proof (intro allI impI)
  fix s :: sys and srv
  assume none: "sy_faults s = []"
  let ?s = "s\<lparr>sy_calls := Suc (sy_calls s)\<rparr>"
  have eq: "(s\<lparr>sy_ledger := srv\<rparr>)\<lparr>sy_calls := Suc (sy_calls s)\<rparr> = ?s\<lparr>sy_ledger := srv\<rparr>" by simp
  have c: "call te f s = f ?s" "call te f (s\<lparr>sy_ledger := srv\<rparr>) = f (?s\<lparr>sy_ledger := srv\<rparr>)"
    using none by (simp_all add: call_def next_fault_def Let_def eq)
  show "call te f (s\<lparr>sy_ledger := srv\<rparr>) = ((fst (call te f s))\<lparr>sy_ledger := srv\<rparr>, snd (call te f s)) \<and>
      sy_faults (fst (call te f s)) = []"
    unfolding c using assms none by simp
qed

lemma blind_ret [blinding]: "blind (ret x)" "blind (fail e)"
  by (simp_all add: blind_def ret_def fail_def)

lemma blind_andthen [blinding]:
  assumes "blind m" and "\<And>x. blind (k x)"
  shows "blind (andthen m k)"
  unfolding blind_def
proof (intro allI impI)
  fix s :: sys and srv
  assume "sy_faults s = []"
  then have m: "m (s\<lparr>sy_ledger := srv\<rparr>) = ((fst (m s))\<lparr>sy_ledger := srv\<rparr>, snd (m s))" "sy_faults (fst (m s)) = []"
    using assms(1) by (simp_all add: blind_def)
  show "andthen m k (s\<lparr>sy_ledger := srv\<rparr>) = ((fst (andthen m k s))\<lparr>sy_ledger := srv\<rparr>, snd (andthen m k s)) \<and>
      sy_faults (fst (andthen m k s)) = []"
  proof (cases "snd (m s)")
    case (Inl e)
    then show ?thesis using m by (cases "m s") (simp add: andthen_def rthen_def)
  next
    case (Inr x)
    then show ?thesis using m assms(2) [of x] by (cases "m s") (simp add: andthen_def rthen_def blind_def)
  qed
qed

lemma blind_attempted [blinding]: "blind m \<Longrightarrow> blind (attempted m)"
  by (simp add: blind_def attempted_def)

lemma blind_split [blinding]:
  "(b \<Longrightarrow> blind m) \<Longrightarrow> (\<not> b \<Longrightarrow> blind n) \<Longrightarrow> blind (if b then m else n)"
  "(y = None \<Longrightarrow> blind m) \<Longrightarrow> (\<And>x. y = Some x \<Longrightarrow> blind (g x)) \<Longrightarrow> blind (case y of None \<Rightarrow> m | Some x \<Rightarrow> g x)"
  by (auto split: option.split)

lemma blind_calls [blinding]:
  "blind (leg_update te g)" "blind (attempt_read te h)" "blind (asked te q)" "blind (drive te req)"
  unfolding leg_update_def attempt_read_def asked_def drive_def
  by (intro blinding; simp add: Let_def split: sum.splits prod.splits)+

lemma blind_write [blinding]: "blind (leg_write te g)"
  unfolding leg_write_def by (rule blind_calls)

lemma blind_memory [blinding]: "blind (renewals_of ext)" "blind (set_renewals ext n)"
  by (simp_all add: blind_def renewals_of_def set_renewals_def)

lemma blind_forwarding:
  assumes "lg_forward l = Some a"
  shows "blind (advanceForwardingOne te l)"
proof -
  have f: "forwardAmountFor te l = ret a" using assms by (simp add: forwardAmountFor_def)
  have r: "blind (renewExpiredVendorOrder te l x)" for x
    unfolding renewExpiredVendorOrder_def replace_vendor_order_def vendorOrder_def Let_def by (intro blinding)
  show ?thesis unfolding advanceForwardingOne_def f Let_def by (intro blinding r)
qed

text \<open>C36: forwarding a leg whose deposit is recorded does not look at the ledger. Whatever the ledger
  holds, the same transfer is built, signed and sent; so a leg left \<open>FORWARDING\<close> by a crash after its
  refund was booked is still forwarded by the next tick.\<close>

theorem forwarding_ignores_the_ledger:
  assumes "lg_forward l = Some a" and "sy_faults s = []"
  shows "advanceForwardingOne te l (s\<lparr>sy_ledger := srv\<rparr>) =
    ((fst (advanceForwardingOne te l s))\<lparr>sy_ledger := srv\<rparr>, snd (advanceForwardingOne te l s))"
  using blind_forwarding [OF assms(1)] assms(2) by (simp add: blind_def)

definition demo_remote :: remote_order where
  "demo_remote = \<lparr>ro_id = 1, ro_external_id = demo_ext, ro_customer_id = ''relay-63'', ro_tier = ''RELAY'', ro_state = ''quoted'',
     ro_amount_in = Amount USDT_BEP20 7, ro_amount_out = Amount USDT_TRC20 4, ro_fee = Amount USDT_BEP20 2,
     ro_network_fee = Amount USDT_BEP20 0, ro_recipient = ''Tcustomer'', ro_sender = None, ro_version = 0, ro_quote_expires_at = 5000\<rparr>"

definition demo_leg :: leg where
  "demo_leg = leg_for \<lparr>cq_external_id = demo_ext, cq_label = ''c'', cq_direction = BEP20ToTRC20, cq_destination = ''Tcustomer'',
      cq_amount_in = ''0.000007''\<rparr>
     \<lparr>qt_direction = BEP20ToTRC20, qt_amount_in = Amount USDT_BEP20 7, qt_our_fee = Amount USDT_BEP20 2,
      qt_forward = Amount USDT_BEP20 5, qt_vendor_fee = Amount USDT_BEP20 1, qt_amount_out = Amount USDT_TRC20 4, qt_vendor = ''v'',
      qt_valid_until = 1010, qt_pricing = \<lparr>pc_bps = 0, pc_min = 2, pc_min_in = 3, pc_max_in = 10000000, pc_directions = []\<rparr>\<rparr>
     demo_remote
     ''wallet'' (Some 3)"

definition demo_forwarding_leg :: leg where
  "demo_forwarding_leg = demo_leg\<lparr>lg_status := FORWARDING, lg_upstream_order := Some ''u1'', lg_provider := Some ''v'',
     lg_upstream_address := Some ''vendor-deposit'', lg_received := Some (Amount USDT_BEP20 7),
     lg_profit := Some (Amount USDT_BEP20 2), lg_forward := Some (Amount USDT_BEP20 5)\<rparr>"

theorem forwarding_ignores_the_ledger_witness:
  "advanceForwardingOne (demo_tick True Complete) demo_forwarding_leg (first_start\<lparr>sy_ledger := \<lparr>ls_db = demo_relay, ls_cache = None\<rparr>\<rparr>) =
    ((fst (advanceForwardingOne (demo_tick True Complete) demo_forwarding_leg first_start))\<lparr>sy_ledger := \<lparr>ls_db = demo_relay, ls_cache = None\<rparr>\<rparr>,
     snd (advanceForwardingOne (demo_tick True Complete) demo_forwarding_leg first_start))"
  by (rule forwarding_ignores_the_ledger [of _ "Amount USDT_BEP20 5"]) (simp_all add: demo_forwarding_leg_def first_start_def)

end
