(* ===== verification/Orch_Small.thy ===== *)
theory Orch_Small
  imports Orch_Props
begin

text \<open>
  What becomes of a deposit that is too small to forward when its refund cannot be booked: the two passes
  of \<open>startOne\<close> over its leg (\<open>relayd/internal/orchestrate/amounts.go\<close>, \<open>orchestrate.go\<close>), call by call.
  \<open>write_row\<close> says when a statement on one leg goes through, which the runs below need beside the
  invariants, and \<open>answered\<close> and \<open>refused\<close> what a call does under a fault that leaves the stores alone.
\<close>

section \<open>A statement on one leg\<close>

lemma update_one:
  assumes "distinct (map k rows)" and "r \<in> set rows" and "\<And>q. p q \<Longrightarrow> k q = k r"
  obtains as bs where "rows = as @ r # bs" "update_rows p f rows = as @ (if p r then f r else r) # bs"
proof -
  obtain as bs where s: "rows = as @ r # bs" using split_list [OF assms(2)] by blast
  have "\<not> p q" if "q \<in> set as \<union> set bs" for q
    using that assms(1,3) unfolding s by (auto simp: image_iff)
  then have "update_rows p f as = as" "update_rows p f bs = bs" by (auto intro!: update_rows_none)
  then show ?thesis using that [OF s] by (simp add: s update_rows_def)
qed

definition vendor_orders :: "relay_db \<Rightarrow> (string \<times> string) option set" where
  "vendor_orders db = vendor_order ` set (legs db)"

lemma write_row:
  assumes ok: "legs_ok db" and r: "leg_at db ext = Some r" and p: "\<And>q. p q \<Longrightarrow> lg_external_id q = ext"
    and step: "\<And>q. p q \<Longrightarrow> row_step q (f q)" and c: "p r \<Longrightarrow> leg_check (f r)"
    and v: "p r \<Longrightarrow> vendor_order (f r) = vendor_order r \<or> vendor_order (f r) \<notin> vendor_orders db"
  obtains db' where "write_legs db (update_rows p f (legs db)) = Inr db'" "legs_ok db'"
    "leg_at db' ext = Some (if p r then f r else r)"
    "vendor_orders db' \<subseteq> insert (vendor_order (if p r then f r else r)) (vendor_orders db)"
proof -
  let ?r = "if p r then f r else r" and ?rows = "update_rows p f (legs db)"
  note rd = leg_atD [OF r]
  have d: "distinct (map lg_external_id (legs db))" using ok by (simp add: legs_ok_def)
  obtain as bs where s: "legs db = as @ r # bs" and u: "?rows = as @ ?r # bs"
    using update_one [OF d, of r p f] rd p by metis
  have chk: "list_all leg_check ?rows"
    using ok c unfolding u by (auto simp: legs_ok_def list_all_iff s)
  have mf: "List.map_filter vendor_order (xs @ q # ys) =
      List.map_filter vendor_order xs @ List.map_filter vendor_order [q] @ List.map_filter vendor_order ys" for xs q ys
    by (induction xs) (simp_all split: option.split)
  have st: "set (List.map_filter vendor_order xs) = {y. Some y \<in> vendor_order ` set xs}" for xs
    by (induction xs) (auto split: option.splits)
  have old: "distinct (List.map_filter vendor_order (as @ r # bs))" using ok by (simp add: legs_ok_def upstream_unique_def s)
  have uniq: "upstream_unique ?rows"
  proof (cases "vendor_order ?r = vendor_order r")
    case True
    then show ?thesis using old unfolding u upstream_unique_def mf by (simp del: List.map_filter_simps(2) add: List.map_filter_simps(2) [of _ _ "[]"])
  next
    case False
    then have "vendor_order ?r \<notin> vendor_orders db" using v by (auto split: if_splits)
    then show ?thesis using old unfolding u upstream_unique_def mf
      by (cases "vendor_order ?r") (auto simp: st vendor_orders_def s split: option.splits)
  qed
  have mem: "set ?rows \<subseteq> insert ?r (set (legs db))" unfolding u by (auto simp: s)
  let ?db = "db\<lparr>legs := ?rows\<rparr>"
  have w: "write_legs db ?rows = Inr ?db" using chk uniq by (simp add: write_legs_Inr)
  show thesis
  proof (rule that [OF w])
    show "legs_ok ?db" using update_ok [OF ok w] step by blast
    show "leg_at ?db ext = Some ?r"
      using r step by (simp add: leg_at_def leg_at_update row_step_def)
    show "vendor_orders ?db \<subseteq> insert (vendor_order ?r) (vendor_orders db)"
      using mem by (auto simp: vendor_orders_def)
  qed
qed

lemma scanLeg_fields [simp]:
  "lg_received (scanLeg r) = map_option (Amount (lr_amount_in_asset r)) (lr_received r)"
  "lg_profit (scanLeg r) = map_option (Amount (lr_amount_in_asset r)) (lr_profit r)"
  "lg_forward (scanLeg r) = map_option (Amount (lr_amount_in_asset r)) (lr_forward r)"
  "lg_amount_in (scanLeg r) = Amount (lr_amount_in_asset r) (lr_amount_in r)"
  "lg_order_id (scanLeg r) = lg_order_id r" "lg_direction (scanLeg r) = lg_direction r"
  "lg_destination (scanLeg r) = lg_destination r" "lg_profit_bps (scanLeg r) = lg_profit_bps r"
  "lg_min_profit (scanLeg r) = lg_min_profit r" "lg_upstream_address (scanLeg r) = lg_upstream_address r"
  "lg_upstream_order (scanLeg r) = lg_upstream_order r"
  by (simp_all add: scanLeg_def leg_core.defs leg.defs)

lemma leg_read_at: "leg_at db ext = Some r \<Longrightarrow> Leg_GetByExternalID db ext = Inr (scanLeg r)"
  by (simp add: leg_at_def Leg_GetByExternalID_def)

section \<open>Calls in sequence\<close>

text \<open>A call that nothing interrupts, and one that does not get through.\<close>

definition answered :: fault where
  "answered = \<lparr>ft_others = [], ft_legs = [], ft_reply = Answered\<rparr>"

definition refused :: fault where
  "refused = \<lparr>ft_others = [], ft_legs = [], ft_reply = Refused\<rparr>"

lemma call_answered:
  "sy_faults s = answered # fs \<Longrightarrow> call te f s = f (s\<lparr>sy_calls := Suc (sy_calls s), sy_faults := fs\<rparr>)"
  "sy_faults s = [] \<Longrightarrow> call te f s = f (s\<lparr>sy_calls := Suc (sy_calls s)\<rparr>)"
  by (cases s; simp add: call_def next_fault_def answered_def meanwhile_def run_ops_simps others_def)+

lemma call_refused:
  "sy_faults s = refused # fs \<Longrightarrow> call te f s = (s\<lparr>sy_calls := Suc (sy_calls s), sy_faults := fs\<rparr>, Inl Unavailable)"
  by (cases s) (simp add: call_def next_fault_def refused_def meanwhile_def run_ops_simps others_def)

lemmas calling = andthen_def rthen_def attempted_def logged_def ret_def lift_def leg_read_def leg_update_def leg_write_def
  ledger_read_def ledger_call_def asked_def get_order_def tag_def call_answered call_refused

text \<open>An action of the ledger leaves the legs alone.\<close>

definition rests_legs :: "'a act \<Rightarrow> bool" where
  "rests_legs m \<longleftrightarrow> (\<forall>s. sy_faults s = [] \<longrightarrow> sy_faults (fst (m s)) = [] \<and> sy_legs (fst (m s)) = sy_legs s)"

lemma rests_andthen:
  assumes "rests_legs m" and "\<And>x. rests_legs (k x)"
  shows "rests_legs (andthen m k)"
  unfolding rests_legs_def
proof (intro allI impI)
  fix s :: sys
  assume "sy_faults s = []"
  then have m: "sy_faults (fst (m s)) = []" "sy_legs (fst (m s)) = sy_legs s"
    using assms(1) by (simp_all add: rests_legs_def)
  show "sy_faults (fst (andthen m k s)) = [] \<and> sy_legs (fst (andthen m k s)) = sy_legs s"
  proof (cases "snd (m s)")
    case (Inl e)
    then show ?thesis using m by (cases "m s") (simp add: andthen_def rthen_def)
  next
    case (Inr x)
    then show ?thesis using m assms(2) [of x] by (cases "m s") (simp add: andthen_def rthen_def rests_legs_def)
  qed
qed

lemma rests_calls: "rests_legs (ledger_read te f)" "rests_legs (ledger_call te g)" "rests_legs (ret x)" "rests_legs (lift h y)"
  by (auto simp: rests_legs_def ledger_read_def ledger_call_def call_answered ret_def lift_def fail_def
      split: sum.split prod.split)

lemma rests_forward_start: "rests_legs (postForwardStartEntry te l)"
proof -
  have c: "rests_legs m \<Longrightarrow> rests_legs n \<Longrightarrow> rests_legs (if b then m else n)" for m n :: "unit act" and b by simp
  show ?thesis
    unfolding postForwardStartEntry_def get_order_def ensure_account_def transition_with_entry_def Let_def
    by (intro rests_andthen rests_calls c)
qed

section \<open>Two passes over a deposit that is too small\<close>

text \<open>The statements of the two passes on the leg's row: the attempt is noted, the deposit is recorded as
  all to hand back, and, in the second pass, the vendor's order is stored.\<close>

definition handed_back :: "leg_row \<Rightarrow> int64 \<Rightarrow> bool" where
  "handed_back r u \<longleftrightarrow> lr_received r = Some u \<and> lr_profit r = Some 0 \<and> lr_forward r = Some u"

lemma attempt_noted:
  assumes "legs_ok db" and "leg_at db ext = Some r"
  obtains db' r' where "MarkForwardAttemptStarted now ext db = Inr db'" "legs_ok db'" "leg_at db' ext = Some r'"
    "vendor_orders db' \<subseteq> vendor_orders db" "\<exists>t. r' = r\<lparr>lg_attempt_started_at := t\<rparr>"
proof -
  let ?p = "\<lambda>r. lg_external_id r = ext \<and> lg_attempt_started_at r = None" and ?f = "\<lambda>r. r\<lparr>lg_attempt_started_at := Some now\<rparr>"
  note rd = leg_atD [OF assms(2)]
  have c: "leg_check r" using assms(1) rd by (simp add: legs_ok_def)
  have v: "vendor_order (?f q) = vendor_order q" "leg_check (?f q) = leg_check q" for q
    by (simp_all add: vendor_order_def leg_check_def)
  obtain db' where db': "write_legs db (update_rows ?p ?f (legs db)) = Inr db'" "legs_ok db'"
      "leg_at db' ext = Some (if ?p r then ?f r else r)"
      "vendor_orders db' \<subseteq> insert (vendor_order (if ?p r then ?f r else r)) (vendor_orders db)"
    by (rule write_row [OF assms, of ?p ?f]) (use c v in \<open>auto intro: note_row_steps\<close>)
  have "vendor_order (if ?p r then ?f r else r) \<in> vendor_orders db" using v rd by (simp add: vendor_orders_def)
  moreover have "\<exists>t. (if ?p r then ?f r else r) = r\<lparr>lg_attempt_started_at := t\<rparr>"
    by (rule exI [of _ "if ?p r then Some now else lg_attempt_started_at r"]) simp
  ultimately show thesis using db' by (intro that [of db']) (auto simp: MarkForwardAttemptStarted_def)
qed

lemma deposit_recorded:
  assumes ok: "legs_ok db" and r: "leg_at db ext = Some r" "lr_received r = None" and u: "0 <s u"
  obtains db' r' where "RecordDeposit ext (Amount (lr_amount_in_asset r) u) sender (Amount (lr_amount_in_asset r) 0)
      (Amount (lr_amount_in_asset r) u) db = Inr (db', scanLeg r')" "legs_ok db'" "leg_at db' ext = Some r'"
    "vendor_orders db' \<subseteq> vendor_orders db"
    "r' = r\<lparr>lr_received := Some u, lg_sender := Some sender, lr_profit := Some 0, lr_forward := Some u\<rparr>"
proof -
  let ?p = "\<lambda>r. lg_external_id r = ext \<and> lr_received r = None"
    and ?f = "\<lambda>r. r\<lparr>lr_received := Some u, lg_sender := Some sender, lr_profit := Some 0, lr_forward := Some u\<rparr>"
  note rd = leg_atD [OF r(1)]
  have p: "?p r" using rd r(2) by simp
  have c: "leg_check (?f r)" using ok rd u by (simp add: legs_ok_def leg_check_def)
  have v: "vendor_order (?f q) = vendor_order q" for q by (simp add: vendor_order_def)
  obtain db' where db': "write_legs db (update_rows ?p ?f (legs db)) = Inr db'" "legs_ok db'"
      "leg_at db' ext = Some (if ?p r then ?f r else r)"
      "vendor_orders db' \<subseteq> insert (vendor_order (if ?p r then ?f r else r)) (vendor_orders db)"
    by (rule write_row [OF ok r(1), of ?p ?f]) (use c v in \<open>auto intro!: note_row_steps(7)\<close>)
  have at: "leg_at db' ext = Some (?f r)" using db'(3) p by simp
  have "vendor_orders db' \<subseteq> vendor_orders db" using db'(4) p v rd by (auto simp: vendor_orders_def)
  then show thesis using db'(1,2) at leg_read_at [OF at] by (intro that [of db' "?f r"]) (simp_all add: RecordDeposit_def)
qed

lemma forwarding_marked:
  assumes ok: "legs_ok db" and r: "leg_at db ext = Some r" "lg_status r = AWAITING_DEPOSIT" and v: "Some (p, i) \<notin> vendor_orders db"
  obtains db' r' where "MarkForwarding now ext p i a db = Inr db'" "legs_ok db'" "leg_at db' ext = Some r'"
    "r' = r\<lparr>lg_status := FORWARDING, lg_provider := Some p, lg_upstream_order := Some i, lg_upstream_address := Some a,
       lg_updated_at := now\<rparr>"
proof -
  let ?p = "at_status ext [AWAITING_DEPOSIT]"
    and ?f = "\<lambda>r. r\<lparr>lg_status := FORWARDING, lg_provider := Some p, lg_upstream_order := Some i, lg_upstream_address := Some a,
       lg_updated_at := now\<rparr>"
  note rd = leg_atD [OF r(1)]
  have p: "?p r" using rd r(2) by (simp add: at_status_def)
  have c: "leg_check (?f r)" using ok rd by (simp add: legs_ok_def leg_check_def)
  have n: "vendor_order (?f r) \<notin> vendor_orders db" using v by (simp add: vendor_order_def)
  obtain db' where db': "write_legs db (update_rows ?p ?f (legs db)) = Inr db'" "legs_ok db'"
      "leg_at db' ext = Some (if ?p r then ?f r else r)"
    by (rule write_row [OF ok r(1), of ?p ?f]) (use c n in \<open>auto simp: at_status_def intro!: mark_row_steps(1)\<close>)
  have "affected ?p (legs db) \<noteq> 0" unfolding affected_0 using p rd by blast
  then show thesis using db' p by (intro that [of db']) (simp_all add: MarkForwarding_def mark_leg_def)
qed

lemma first_pass:
  assumes ok: "legs_ok (sy_legs s)" and r: "leg_at (sy_legs s) ext = Some r" "lg_status r = AWAITING_DEPOSIT" "lr_received r = None"
    and bps: "lg_profit_bps r = Some bps"
    and ord: "lc_GetOrder ext (sy_ledger s) = Inr ord" "ro_tier ord = ''RELAY''" "ro_state ord = ''screened''"
    and b: "lc_AccountBalance (relayLegAccountCode (lg_order_id r)) (sy_ledger s) = Inr b" "0 <s amt_units b" "amt_asset b = lr_amount_in_asset r"
    and small: "Split (flat_pricing bps (case lg_min_profit r of None \<Rightarrow> 0 | Some m \<Rightarrow> m)) b = None"
    and f: "sy_faults s = replicate 6 answered @ [refused]"
  obtains s1 r1 t where "startOne te ext s = (s1, Inl Unavailable)" "sy_faults s1 = []" "sy_ledger s1 = sy_ledger s" "legs_ok (sy_legs s1)"
    "leg_at (sy_legs s1) ext = Some r1" "vendor_orders (sy_legs s1) \<subseteq> vendor_orders (sy_legs s)"
    "r1 = r\<lparr>lg_attempt_started_at := t, lr_received := Some (amt_units b), lg_sender := Some (case ro_sender ord of None \<Rightarrow> '''' | Some a \<Rightarrow> a),
       lr_profit := Some 0, lr_forward := Some (amt_units b)\<rparr>"
proof -
  let ?now = "te_now te (Suc (Suc (sy_calls s)))" and ?sender = "case ro_sender ord of None \<Rightarrow> '''' | Some a \<Rightarrow> a"
  have be: "b = Amount (lr_amount_in_asset r) (amt_units b)" using b(3) by (cases b) simp
  have chk: "leg_check r" "lg_external_id r = ext" using ok leg_atD [OF r(1)] by (auto simp: legs_ok_def)
  obtain d1 r1 t where d1: "MarkForwardAttemptStarted ?now ext (sy_legs s) = Inr d1" "legs_ok d1" "leg_at d1 ext = Some r1"
      "vendor_orders d1 \<subseteq> vendor_orders (sy_legs s)" "r1 = r\<lparr>lg_attempt_started_at := t\<rparr>"
    using attempt_noted [OF ok r(1)] by metis
  have r1: "lr_received r1 = None" "lr_amount_in_asset r1 = lr_amount_in_asset r" using d1(5) r(3) by simp_all
  obtain d2 r2 where d2: "RecordDeposit ext b ?sender (Amount (amt_asset b) 0) b d1 = Inr (d2, scanLeg r2)" "legs_ok d2"
      "leg_at d2 ext = Some r2" "vendor_orders d2 \<subseteq> vendor_orders d1"
      "r2 = r1\<lparr>lr_received := Some (amt_units b), lg_sender := Some ?sender, lr_profit := Some 0, lr_forward := Some (amt_units b)\<rparr>"
    using deposit_recorded [OF d1(2,3) r1(1) b(2), of ?sender] be b(3) r1(2) by metis
  have pos: "amt_units b \<noteq> MinInt64" "\<not> amt_units b \<le>s 0" using b(2) by (auto simp: word_sless_alt word_sle_eq MinInt64_iff min_int64_def)
  have "is_ok (amount_validate b)" using chk(1) b(3) by (cases b) (auto simp: leg_check_def amount_validate_def is_ok_iff)
  then obtain neg where neg: "Neg b = Inr neg" using pos(1) by (auto simp: Neg_def is_ok_iff)
  have rec: "recordDeposit te (scanLeg r) ord x = (x\<lparr>sy_calls := Suc (Suc (sy_calls x)), sy_faults := fs, sy_legs := d2\<rparr>, Inr (scanLeg r2, True))"
    if "sy_faults x = answered # answered # fs" "sy_ledger x = sy_ledger s" "sy_legs x = d1" for x fs
    using that r(3) bps b(1,3) small chk(2) d2(1) pos(2)
    by (simp add: recordDeposit_def calling pricingFor_def Let_def)
  have refund: "startAwaitingDepositRefund te (scanLeg r2) x = (x\<lparr>sy_calls := Suc (Suc (sy_calls x)), sy_faults := []\<rparr>, Inl Unavailable)"
    if "sy_faults x = [answered, refused]" "sy_ledger x = sy_ledger s" for x
    using that d2(5) d1(5) ord chk(2) neg be
    by (simp add: startAwaitingDepositRefund_def postScreenedRefundEntry_def transition_with_entry_def calling Let_def receivedFor_def)
  let ?s1 = "s\<lparr>sy_calls := Suc (Suc (Suc (Suc (Suc (Suc (Suc (sy_calls s))))))), sy_faults := [], sy_legs := d2\<rparr>"
  have "startOne te ext s = (?s1, Inl Unavailable)"
    using f r(2) leg_read_at [OF r(1)] d1(1) ord(1,2)
    by (simp add: startOne_def start_awaiting_def start_recorded_def calling rec refund numeral_eq_Suc)
  then show thesis using d2 d1 by (intro that [of ?s1 r2 t]) auto
qed

lemma second_pass:
  assumes ok: "legs_ok (sy_legs s)" and r: "leg_at (sy_legs s) ext = Some r" "lg_status r = AWAITING_DEPOSIT" "handed_back r u"
    and ord: "lc_GetOrder ext (sy_ledger s) = Inr ord" "ro_tier ord = ''RELAY''"
    and v: "\<forall>n. te_create te n (upstreamPairFor (lg_direction r)) (Amount (lr_amount_in_asset r) u) (lg_destination r) = Inr v"
      "Some (so_provider v, so_id v) \<notin> vendor_orders (sy_legs s)"
    and f: "sy_faults s = []"
  obtains l where "l \<in> set (ListByStatus (sy_legs (fst (startOne te ext s))) FORWARDING)" "lg_external_id l = ext"
    "lg_forward l = Some (Amount (lr_amount_in_asset r) u)" "lg_profit l = Some (Amount (lr_amount_in_asset r) 0)"
    "lg_upstream_order l = Some (so_id v)" "lg_upstream_address l = Some (so_deposit v)"
proof -
  let ?now = "te_now te (Suc (Suc (sy_calls s)))" and ?later = "te_now te (Suc (Suc (Suc (Suc (Suc (sy_calls s))))))"
  let ?set = "\<lambda>fee q. q\<lparr>lg_vendor_fee := fee\<rparr>"
  obtain d1 r1 t where d1: "MarkForwardAttemptStarted ?now ext (sy_legs s) = Inr d1" "legs_ok d1" "leg_at d1 ext = Some r1"
      "vendor_orders d1 \<subseteq> vendor_orders (sy_legs s)" "r1 = r\<lparr>lg_attempt_started_at := t\<rparr>"
    using attempt_noted [OF ok r(1)] by metis
  obtain d2 r2 where d2: "MarkForwarding ?later ext (so_provider v) (so_id v) (so_deposit v) d1 = Inr d2" "legs_ok d2"
      "leg_at d2 ext = Some r2"
      "r2 = r1\<lparr>lg_status := FORWARDING, lg_provider := Some (so_provider v), lg_upstream_order := Some (so_id v),
         lg_upstream_address := Some (so_deposit v), lg_updated_at := ?later\<rparr>"
    using forwarding_marked [OF d1(2,3), where p = "so_provider v" and i = "so_id v" and a = "so_deposit v" and now = ?later]
      r(2) d1(4,5) v(2) by auto
  let ?fee = "u - amt_units (so_out_expected v)"
  obtain d3 where d3: "RecordVendorFee ext ?fee d2 = Inr d3" "leg_at d3 ext = Some (?set (Some ?fee) r2)"
  proof -
    let ?p = "\<lambda>r. lg_external_id r = ext"
    have "leg_check r2" using d2(2) leg_atD [OF d2(3)] by (simp add: legs_ok_def)
    then have "leg_check (?set (Some ?fee) r2)" by (simp add: leg_check_def)
    moreover have "vendor_order (?set (Some ?fee) r2) = vendor_order r2" by (simp add: vendor_order_def)
    moreover have "row_step q (?set (Some ?fee) q)" for q by (rule note_row_steps)
    ultimately obtain d3 where "write_legs d2 (update_rows ?p (?set (Some ?fee)) (legs d2)) = Inr d3"
        "leg_at d3 ext = Some (if ?p r2 then ?set (Some ?fee) r2 else r2)"
      using write_row [OF d2(2,3), where p = ?p and f = "?set (Some ?fee)"] by metis
    then show thesis using leg_atD [OF d2(3)] by (intro that [of d3]) (simp_all add: RecordVendorFee_def)
  qed
  have again: "recordDeposit te (scanLeg r) ord = ret (scanLeg r, False)"
    using r(3) by (simp add: recordDeposit_def handed_back_def)
  let ?x = "s\<lparr>sy_calls := Suc (Suc (Suc (Suc (Suc (Suc (sy_calls s)))))), sy_legs := d3\<rparr>"
  have "startOne te ext s = postForwardStartEntry te (scanLeg r) ?x"
    using f r leg_read_at [OF r(1)] d1(1) d2(1) d3(1) ord v(1)
    by (simp add: startOne_def start_awaiting_def start_recorded_def create_and_forward_def calling again handed_back_def)
  then have legs: "sy_legs (fst (startOne te ext s)) = d3"
    using rests_forward_start [of te "scanLeg r"] f by (simp add: rests_legs_def)
  let ?l = "scanLeg (?set (Some ?fee) r2)"
  have "?l \<in> set (ListByStatus d3 FORWARDING)"
    using leg_atD [OF d3(2)] d2(4) by (auto simp: ListByStatus_def intro!: imageI)
  then show thesis using r(3) leg_atD [OF d3(2)] d2(4) d1(5)
    by (intro that [of ?l]) (simp_all add: legs handed_back_def)
qed

text \<open>C37: a deposit is judged too small only once. The first pass over its leg records it with no profit and all of
  it as the amount to hand back; when the booking of the refund then does not get through, the leg is still waiting
  and its order still screened. The second pass finds a split that adds up, orders the swap of the whole deposit from
  the vendor, and makes the leg one of those whose transfer is sent: all of it, with no profit.\<close>

theorem too_small_deposit_forwarded:
  assumes "legs_ok (sy_legs s)" and l: "Leg_GetByExternalID (sy_legs s) ext = Inr l" "lg_status l = AWAITING_DEPOSIT"
      "lg_received l = None" "lg_profit_bps l = Some bps"
    and ord: "lc_GetOrder ext (sy_ledger s) = Inr ord" "ro_tier ord = ''RELAY''" "ro_state ord = ''screened''"
    and b: "lc_AccountBalance (relayLegAccountCode (lg_order_id l)) (sy_ledger s) = Inr b" "0 <s amt_units b"
      "amt_asset b = amt_asset (lg_amount_in l)"
    and small: "Split (flat_pricing bps (case lg_min_profit l of None \<Rightarrow> 0 | Some m \<Rightarrow> m)) b = None"
    and v: "\<forall>n. te_create te n (upstreamPairFor (lg_direction l)) b (lg_destination l) = Inr v"
      "\<forall>q \<in> set (legs (sy_legs s)). vendor_order q \<noteq> Some (so_provider v, so_id v)"
    and f: "sy_faults s = replicate 6 answered @ [refused]"
  shows "\<exists>s1 l1 l2. startOne te ext s = (s1, Inl Unavailable) \<and> sy_ledger s1 = sy_ledger s \<and>
    Leg_GetByExternalID (sy_legs s1) ext = Inr l1 \<and> lg_status l1 = AWAITING_DEPOSIT \<and> lg_received l1 = Some b \<and>
    lg_profit l1 = Some (Amount (amt_asset b) 0) \<and> lg_forward l1 = Some b \<and>
    l2 \<in> set (ListByStatus (sy_legs (fst (startOne te ext s1))) FORWARDING) \<and> lg_external_id l2 = ext \<and>
    lg_forward l2 = Some b \<and> lg_profit l2 = Some (Amount (amt_asset b) 0) \<and>
    lg_upstream_order l2 = Some (so_id v) \<and> lg_upstream_address l2 = Some (so_deposit v)"
proof -
  obtain r where r: "leg_at (sy_legs s) ext = Some r" and lr: "l = scanLeg r"
    using l(1) by (auto simp: Leg_GetByExternalID_def leg_at_def split: option.splits)
  have be: "Amount (lr_amount_in_asset r) (amt_units b) = b" using b(3) lr by (cases b) simp
  obtain s1 r1 t where s1: "startOne te ext s = (s1, Inl Unavailable)" "sy_faults s1 = []" "sy_ledger s1 = sy_ledger s"
      "legs_ok (sy_legs s1)" "leg_at (sy_legs s1) ext = Some r1" "vendor_orders (sy_legs s1) \<subseteq> vendor_orders (sy_legs s)"
      "r1 = r\<lparr>lg_attempt_started_at := t, lr_received := Some (amt_units b),
         lg_sender := Some (case ro_sender ord of None \<Rightarrow> '''' | Some a \<Rightarrow> a), lr_profit := Some 0, lr_forward := Some (amt_units b)\<rparr>"
    by (rule first_pass [OF assms(1) r, of bps ord b te]) (use l ord b small f lr in simp_all)
  have r1: "lg_status r1 = AWAITING_DEPOSIT" "handed_back r1 (amt_units b)" using s1(7) l(2) lr by (simp_all add: handed_back_def)
  obtain l2 where l2: "l2 \<in> set (ListByStatus (sy_legs (fst (startOne te ext s1))) FORWARDING)" "lg_external_id l2 = ext"
      "lg_forward l2 = Some (Amount (lr_amount_in_asset r1) (amt_units b))" "lg_profit l2 = Some (Amount (lr_amount_in_asset r1) 0)"
      "lg_upstream_order l2 = Some (so_id v)" "lg_upstream_address l2 = Some (so_deposit v)"
  proof (rule second_pass [OF s1(4,5) r1, of ord te v])
    show "Some (so_provider v, so_id v) \<notin> vendor_orders (sy_legs s1)"
      using v(2) s1(6) by (auto simp: vendor_orders_def)
  qed (use s1 ord v(1) lr be in simp_all)
  have "lr_amount_in_asset r1 = amt_asset b" using s1(7) b(3) lr by simp
  then show ?thesis using s1(1,3) l2 leg_read_at [OF s1(5)] r1 be b(3) lr
    by (intro exI [of _ s1] exI [of _ "scanLeg r1"] exI [of _ l2]) (simp add: handed_back_def)
qed

text \<open>The customer, quoted 7 units on BSC, sends 1; the least profit is 2.\<close>

definition demo_small_ops :: "ledger_op list" where
  "demo_small_ops =
     [OpCreateAccount ''asset:relay:leg:1'' Asset USDT_BEP20, OpCreateAccount ''liability:customer:relay-63:USDT_BEP20'' Liability USDT_BEP20,
      OpCreateOrder (demo_order\<lparr>ExternalID := demo_ext, CustomerID := ''relay-63'', Tier := Relay, AmountIn := Amount USDT_BEP20 7,
        AmountOut := Amount USDT_TRC20 4, FeeUnits := Amount USDT_BEP20 2, NetworkFeeUnits := Amount USDT_BEP20 0\<rparr>),
      OpTransition demo_env 1 Funded 0 (demo_params (Some (demo_deposit\<lparr>Lines :=
        [Line ''asset:relay:leg:1'' (Amount USDT_BEP20 1), Line ''liability:customer:relay-63:USDT_BEP20'' (Amount USDT_BEP20 (-1))]\<rparr>))),
      OpTransition demo_env 1 Screened 1 (demo_params None)]"

definition demo_small_ledger :: ledger_server where
  "demo_small_ledger = \<lparr>ls_db = reached demo_digest demo_small_ops, ls_cache = None\<rparr>"

definition demo_small_tick :: tick_env where
  "demo_small_tick = (demo_tick True Complete)\<lparr>te_create := \<lambda>_ _ a _. Inr ((demo_vendor AwaitingDeposit)\<lparr>so_amount_in := a\<rparr>)\<rparr>"

definition demo_small :: sys where
  "demo_small = first_start\<lparr>sy_legs := \<lparr>legs = [new_leg_row 0 1 demo_leg], legs_seq = 1\<rparr>, sy_ledger := demo_small_ledger,
     sy_faults := replicate 6 answered @ [refused]\<rparr>"

lemma demo_small_books:
  "is_ok (lc_GetOrder demo_ext demo_small_ledger)"
  "map_sum id (\<lambda>ord. (ro_tier ord, ro_state ord)) (lc_GetOrder demo_ext demo_small_ledger) = Inr (''RELAY'', ''screened'')"
  "lc_AccountBalance (relayLegAccountCode 1) demo_small_ledger = Inr (Amount USDT_BEP20 1)"
  by code_simp+

lemma demo_small_leg:
  "lg_order_id demo_leg = 1" "lg_profit_bps demo_leg = Some 0" "lg_min_profit demo_leg = Some 2"
  "lg_amount_in demo_leg = Amount USDT_BEP20 7" "lg_out_expected demo_leg = Amount USDT_TRC20 4"
  "lg_direction demo_leg = BEP20ToTRC20" "lg_external_id demo_leg = demo_ext" "lg_deposit_index demo_leg = Some 3"
  by (simp_all add: demo_leg_def leg_for_def demo_remote_def)

lemma demo_small_ok: "legs_ok \<lparr>legs = [new_leg_row 0 1 demo_leg], legs_seq = 1\<rparr>"
  by (simp add: legs_ok_def upstream_unique_def leg_check_def new_leg_row_def leg_split_def vendor_order_def demo_small_leg word_sless_alt word_sle_eq)

theorem too_small_deposit_forwarded_witness:
  "\<exists>s1 l1 l2. startOne demo_small_tick demo_ext demo_small = (s1, Inl Unavailable) \<and> sy_ledger s1 = sy_ledger demo_small \<and>
    Leg_GetByExternalID (sy_legs s1) demo_ext = Inr l1 \<and> lg_status l1 = AWAITING_DEPOSIT \<and>
    lg_received l1 = Some (Amount USDT_BEP20 1) \<and>
    lg_profit l1 = Some (Amount USDT_BEP20 0) \<and> lg_forward l1 = Some (Amount USDT_BEP20 1) \<and>
    l2 \<in> set (ListByStatus (sy_legs (fst (startOne demo_small_tick demo_ext s1))) FORWARDING) \<and> lg_external_id l2 = demo_ext \<and>
    lg_forward l2 = Some (Amount USDT_BEP20 1) \<and> lg_profit l2 = Some (Amount USDT_BEP20 0) \<and>
    lg_upstream_order l2 = Some ''u1'' \<and> lg_upstream_address l2 = Some ''vendor-deposit''"
proof -
  obtain ord where ord: "lc_GetOrder demo_ext demo_small_ledger = Inr ord" "ro_tier ord = ''RELAY''" "ro_state ord = ''screened''"
    using demo_small_books(1,2) by (cases "lc_GetOrder demo_ext demo_small_ledger") auto
  let ?row = "new_leg_row 0 1 demo_leg" and ?v = "(demo_vendor AwaitingDeposit)\<lparr>so_amount_in := Amount USDT_BEP20 1\<rparr>"
  have l: "Leg_GetByExternalID (sy_legs demo_small) demo_ext = Inr (scanLeg ?row)"
    by (simp add: Leg_GetByExternalID_def demo_small_def demo_small_leg)
  have row: "lg_profit_bps ?row = Some 0" "lg_min_profit ?row = Some 2" "lg_order_id ?row = 1" "lr_amount_in_asset ?row = USDT_BEP20"
    "lr_received ?row = None" "vendor_order ?row = None"
    by (simp_all add: new_leg_row_def demo_small_leg vendor_order_def)
  have small: "Split (flat_pricing 0 2) (Amount USDT_BEP20 1) = None" by code_simp
  show ?thesis
    using too_small_deposit_forwarded [of demo_small demo_ext "scanLeg ?row" 0 ord "Amount USDT_BEP20 1" demo_small_tick ?v]
      demo_small_ok l ord small row demo_small_books(3)
    by (simp add: demo_small_def demo_small_tick_def demo_vendor_def word_sless_alt)
qed

end
