(* ===== verification/Ledger_Api_Props.thy ===== *)
theory Ledger_Api_Props
  imports Ledger_Api_Inv Ledger_Demo
begin

text \<open>
  The properties of the ledger's HTTP API and of relayd's client for it: what relayd asks for over the
  wire is what it would have asked the ledger for directly, and what the API reads back it can read.
\<close>

text \<open>C22: relayd's \<open>TransitionWithEntry\<close>, over the JSON of its request and of the response, does what the
  ledger's \<open>Transition\<close> does with the same lines, the same key and the same times: nothing is lost or
  rounded on the way, in success and in failure.\<close>

theorem transition_over_the_wire:
  assumes "ledger_ok (ls_db srv)" and "list_all line_wireable ls" and "GetByExternalID (ls_db srv) ext = Inr ord"
  shows "lc_TransitionWithEntry digest actor now ext to ver reason ty at ls key srv =
    (case Transition digest (server_env now srv) (at_time now srv) (o_id ord) (state_of to) ver
        (relay_transition actor at reason ty ls key (o_id ord)) of
       (env', Inl e) \<Rightarrow> (srv\<lparr>ls_cache := he_cache env'\<rparr>, Inl (ApiError e))
     | (env', Inr (db', updated)) \<Rightarrow>
         (srv\<lparr>ls_db := db', ls_cache := he_cache env'\<rparr>, toOrder (toOrderResponse updated)))"
  by (rule TransitionWithEntry_eq [OF assms])

definition demo_server :: ledger_server where
  "demo_server = \<lparr>ls_db = demo_relay, ls_cache = Some \<lparr>c_halted = False, c_updated_at = 0\<rparr>\<rparr>"

definition demo_settle_lines :: "(string \<times> string \<times> amount) list" where
  "demo_settle_lines = [(''a:1'', ''USDT_TRC20'', Amount USDT_TRC20 (-99)), (''b:2'', ''USDT_TRC20'', Amount USDT_TRC20 99)]"

theorem transition_over_the_wire_witness:
  "\<exists>ord. GetByExternalID (ls_db demo_server) ''o1'' = Inr ord \<and>
    lc_TransitionWithEntry demo_digest ''relayd'' 7 ''o1'' ''settled'' 3 ''r'' ''relay_settle'' 7 demo_settle_lines ''k'' demo_server =
    (case Transition demo_digest (server_env 7 demo_server) (at_time 7 demo_server) (o_id ord) (state_of ''settled'') 3
        (relay_transition ''relayd'' 7 ''r'' ''relay_settle'' demo_settle_lines ''k'' (o_id ord)) of
       (env', Inl e) \<Rightarrow> (demo_server\<lparr>ls_cache := he_cache env'\<rparr>, Inl (ApiError e))
     | (env', Inr (db', updated)) \<Rightarrow>
         (demo_server\<lparr>ls_db := db', ls_cache := he_cache env'\<rparr>, toOrder (toOrderResponse updated)))"
proof -
  have "is_ok (GetByExternalID (ls_db demo_server) ''o1'')" by code_simp
  then obtain ord where ord: "GetByExternalID (ls_db demo_server) ''o1'' = Inr ord" by (auto simp: is_ok_iff)
  have ls: "list_all line_wireable demo_settle_lines" by code_simp
  have ok: "ledger_ok (ls_db demo_server)" using demo_relay_ok by (simp add: demo_server_def)
  show ?thesis by (rule exI [of _ ord], rule conjI [OF ord transition_over_the_wire [OF ok ls ord]])
qed

text \<open>C23: the table of orders is well typed in every reachable state: every row has a known tier and a
  known state, a direction exactly when it is a relay order, amounts of 64 bits, and reads back as
  an order.\<close>

theorem order_rows_well_typed:
  "list_all (\<lambda>r. TierValid (r_tier r) \<and> StateValid (r_state r) \<and> (r_tier r = Relay) = (r_direction r \<noteq> None) \<and>
      is_ok (scanOrder r)) (orders (reached digest ops))"
proof -
  have ok: "orders_ok (reached digest ops)" using reached_ok by (simp add: ledger_ok_def)
  have "is_ok (scanOrder r)" if "order_row_ok db r" for db r
    using that by (cases "order_assets r") (auto simp: order_row_ok_def scanOrder_def scan_int64_def is_ok_iff)
  then show ?thesis using ok by (auto simp: orders_ok_def list_all_iff order_row_ok_def)
qed

end
