(* ===== verification/Wallet_Pool.thy ===== *)
theory Wallet_Pool
  imports Ledger_Schema Store
begin

text \<open>
  The pool of deposit wallets of a watcher (\<open>depositwatcher/internal/addresses/pool.go\<close> and
  \<open>store.go\<close>, migrations 0002 and 0007, and the table of deposits as far as leasing reads it).

  \<^item> \<open>lease\<close> is the struct \<open>WatchedAddress\<close> and a row of \<open>watched_addresses\<close>, \<open>pool_wallet\<close> a row of
    \<open>pool_wallets\<close>; \<open>pool_db\<close> the database. Its unique indexes and the trigger on the status of a
    lease are conditions of the writes.
  \<^item> A statement reads the clock of the database as \<open>now\<close>. The index of a new wallet comes from a
    sequence that no rollback returns, so \<open>provision\<close> gives back a database in failure too. The wallet
    behind an index, made by S1 or derived from the public key, is the argument \<open>mk\<close>; the address
    functions of the Ethereum library are \<open>is_hex\<close> and \<open>canon\<close>.
  \<^item> \<open>Assign\<close> is several statements. Its argument \<open>gaps\<close> holds what other calls do before each of them.
\<close>

section \<open>Tables\<close>

datatype lease_status = Watching | Funded_lease | Retired

record lease =
  ls_id :: int
  ls_address :: string
  ls_index :: "32 word"
  ls_order :: int64
  ls_external :: string
  ls_customer :: string
  ls_status :: lease_status
  ls_quoted_at :: time
  ls_quote_expires :: time
  ls_assigned_at :: time
  ls_retired_at :: "time option"
  ls_reason :: "string option"

record pool_wallet =
  pw_address :: string
  pw_index :: "32 word"
  pw_active :: bool
  pw_available_after :: time
  pw_last_leased :: "time option"
  pw_created_at :: time

record pool_settings =
  ps_max_wallets :: int
  ps_after_use :: time
  ps_after_expiry :: time

record pool_db =
  pd_leases :: "lease list"
  pd_lease_seq :: int
  pd_wallets :: "pool_wallet list"
  pd_settings :: pool_settings
  pd_index_seq :: int
  pd_paid :: "string set"

text \<open>\<open>pd_paid\<close> are the addresses with a deposit that no reorganization has dropped.\<close>

definition seconds :: "int \<Rightarrow> time" where "seconds n = n * 10 ^ 9"

definition empty_pool :: pool_db where
  "empty_pool = \<lparr>pd_leases = [], pd_lease_seq = 0, pd_wallets = [],
     pd_settings = \<lparr>ps_max_wallets = 10, ps_after_use = seconds (30 * 60), ps_after_expiry = seconds (6 * 60 * 60)\<rparr>,
     pd_index_seq = 0, pd_paid = {}\<rparr>"

datatype pool_error =
    ErrNoWalletAvailable | ErrWalletNotFound | ErrNoLeaseForOrder | ErrPoolNotConfigured | ErrIllegalStatusTransition
  | ErrNegativeSettings | ErrEmptyReason | ErrMakeWallet string | ErrPoolConstraint

definition leaseTimeTolerance :: time where "leaseTimeTolerance = seconds 30"

definition retiredWatchWindow :: time where "retiredWatchWindow = seconds (7 * 24 * 60 * 60)"

section \<open>Settings and reads\<close>

definition GetPoolSettings :: "pool_db \<Rightarrow> pool_settings" where
  "GetPoolSettings db = pd_settings db"

definition PutPoolSettings :: "pool_settings \<Rightarrow> pool_db \<Rightarrow> pool_error + pool_db" where
  "PutPoolSettings st db =
     (if ps_max_wallets st < 0 \<or> ps_after_use st < 0 \<or> ps_after_expiry st < 0 then Inl ErrNegativeSettings
      else Inr (db\<lparr>pd_settings := st\<rparr>))"

definition open_lease :: "lease list \<Rightarrow> string \<Rightarrow> bool" where
  "open_lease rows addr \<longleftrightarrow> list_ex (\<lambda>l. ls_address l = addr \<and> ls_status l \<noteq> Retired) rows"

definition GetByOrderID :: "pool_db \<Rightarrow> int64 \<Rightarrow> pool_error + lease" where
  "GetByOrderID db i =
     (case first_row (\<lambda>l. ls_order l = i) (pd_leases db) of None \<Rightarrow> Inl ErrNoLeaseForOrder | Some l \<Rightarrow> Inr l)"

text \<open>The lease a deposit belongs to: the last one that had started by its block time.\<close>

definition LeaseAt :: "(string \<Rightarrow> string) \<Rightarrow> pool_db \<Rightarrow> string \<Rightarrow> time \<Rightarrow> lease option" where
  "LeaseAt canon db addr block =
     (case rev (sort_key ls_assigned_at (filter (\<lambda>l. ls_address l = canon addr \<and>
         ls_assigned_at l \<le> pg_time (block + leaseTimeTolerance)) (pd_leases db))) of
        [] \<Rightarrow> None | l # _ \<Rightarrow> Some l)"

definition IsPoolWallet :: "(string \<Rightarrow> string) \<Rightarrow> pool_db \<Rightarrow> string \<Rightarrow> bool" where
  "IsPoolWallet canon db addr = (0 < affected (\<lambda>w. pw_address w = canon addr) (pd_wallets db))"

definition WatchSet :: "(string \<Rightarrow> string) \<Rightarrow> time \<Rightarrow> pool_db \<Rightarrow> string list" where
  "WatchSet canon now db = map canon (remdups (map pw_address (pd_wallets db) @
     map ls_address (filter (\<lambda>l. ls_status l \<noteq> Retired \<or>
       (case ls_retired_at l of None \<Rightarrow> False | Some t \<Rightarrow> now - retiredWatchWindow < t)) (pd_leases db))))"

definition ListActive :: "pool_db \<Rightarrow> lease list" where
  "ListActive db = sort_key ls_id (filter (\<lambda>l. ls_status l \<noteq> Retired) (pd_leases db))"

section \<open>Leasing\<close>

record lease_request =
  lq_order :: int64
  lq_external :: string
  lq_customer :: string
  lq_quoted_at :: time
  lq_quote_expires :: time

definition eligible :: "time \<Rightarrow> pool_db \<Rightarrow> pool_wallet \<Rightarrow> bool" where
  "eligible now db w \<longleftrightarrow> pw_active w \<and> pw_available_after w \<le> now \<and> \<not> open_lease (pd_leases db) (pw_address w)"

text \<open>The order in which wallets go: paid ones first, then those leased longest ago, never leased ones
  before all, then by index.\<close>

definition lease_rank :: "pool_db \<Rightarrow> pool_wallet \<Rightarrow> int \<times> int \<times> time \<times> int" where
  "lease_rank db w =
     (if pw_address w \<in> pd_paid db then 0 else 1,
      case pw_last_leased w of None \<Rightarrow> 0 | Some _ \<Rightarrow> 1, case pw_last_leased w of None \<Rightarrow> 0 | Some t \<Rightarrow> t,
      uint (pw_index w))"

definition new_lease :: "time \<Rightarrow> int \<Rightarrow> pool_wallet \<Rightarrow> lease_request \<Rightarrow> lease" where
  "new_lease now i w q =
     \<lparr>ls_id = i, ls_address = pw_address w, ls_index = pw_index w, ls_order = lq_order q, ls_external = lq_external q,
      ls_customer = lq_customer q, ls_status = Watching, ls_quoted_at = pg_time (lq_quoted_at q),
      ls_quote_expires = pg_time (lq_quote_expires q), ls_assigned_at = now, ls_retired_at = None, ls_reason = None\<rparr>"

text \<open>A conflict with any unique index inserts nothing. The insert and the note of its time, two statements, count
  as one: the time only says which wallet goes next.\<close>

definition leaseFromPool :: "time \<Rightarrow> lease_request \<Rightarrow> pool_db \<Rightarrow> pool_db \<times> string option" where
  "leaseFromPool now q db =
     (case sort_key (lease_rank db) (filter (eligible now db) (pd_wallets db)) of
        [] \<Rightarrow> (db, None)
      | w # _ \<Rightarrow>
        if list_ex (\<lambda>l. ls_order l = lq_order q \<or> ls_external l = lq_external q) (pd_leases db) then (db, None)
        else (let i = pd_lease_seq db + 1 in
          (db\<lparr>pd_leases := pd_leases db @ [new_lease now i w q], pd_lease_seq := i,
              pd_wallets := update_rows (\<lambda>v. pw_address v = pw_address w) (\<lambda>v. v\<lparr>pw_last_leased := Some now\<rparr>) (pd_wallets db)\<rparr>,
           Some (pw_address w))))"

definition eligibleWallets :: "time \<Rightarrow> pool_db \<Rightarrow> nat" where
  "eligibleWallets now db = affected (eligible now db) (pd_wallets db)"

section \<open>Provisioning\<close>

type_synonym wallet_maker = "32 word \<Rightarrow> string + string"

definition add_wallet :: "time \<Rightarrow> string \<Rightarrow> 32 word \<Rightarrow> pool_db \<Rightarrow> pool_error + pool_db" where
  "add_wallet now addr i db =
     (if list_ex (\<lambda>w. pw_address w = addr \<or> pw_index w = i) (pd_wallets db) then Inl ErrPoolConstraint
      else Inr (db\<lparr>pd_wallets := pd_wallets db @ [\<lparr>pw_address = addr, pw_index = i, pw_active = True,
        pw_available_after = now, pw_last_leased = None, pw_created_at = now\<rparr>]\<rparr>))"

definition MaxIndex :: int where "MaxIndex = 2147483647"

text \<open>The wallet at the next index. The sequence moves on whatever becomes of the wallet.\<close>

definition make_wallet ::
  "(string \<Rightarrow> bool) \<Rightarrow> (string \<Rightarrow> string) \<Rightarrow> wallet_maker \<Rightarrow> time \<Rightarrow> pool_db \<Rightarrow> pool_db \<times> (pool_error + string \<times> pool_db)" where
  "make_wallet is_hex canon mk now db =
     (let n = pd_index_seq db; i = of_int n; db' = db\<lparr>pd_index_seq := n + 1\<rparr> in
      if MaxIndex < n then (db, Inl ErrPoolConstraint)
      else (db', case mk i of
          Inl e \<Rightarrow> Inl (ErrMakeWallet e)
        | Inr raw \<Rightarrow>
          if \<not> is_hex raw then Inl (ErrMakeWallet ''not an EVM address'')
          else rbind (add_wallet now (canon raw) i db') (\<lambda>db'. Inr (canon raw, db'))))"

definition provision ::
  "(string \<Rightarrow> bool) \<Rightarrow> (string \<Rightarrow> string) \<Rightarrow> wallet_maker option \<Rightarrow> time \<Rightarrow> lease_request option \<Rightarrow> pool_db \<Rightarrow>
   pool_db \<times> (pool_error + string)" where
  "provision is_hex canon maker now q db =
     (case maker of
        None \<Rightarrow> (db, Inl ErrPoolNotConfigured)
      | Some mk \<Rightarrow>
        (case (case q of None \<Rightarrow> (db, None) | Some r \<Rightarrow> leaseFromPool now r db) of
           (db', Some addr) \<Rightarrow> (db', Inr addr)
         | (_, None) \<Rightarrow>
           if ps_max_wallets (pd_settings db) \<le> int (length (pd_wallets db)) then (db, Inl ErrNoWalletAvailable)
           else
             (case make_wallet is_hex canon mk now db of
                (db1, Inl e) \<Rightarrow> (db1, Inl e)
              | (_, Inr (addr, db2)) \<Rightarrow>
                (case q of
                   None \<Rightarrow> (db2, Inr addr)
                 | Some r \<Rightarrow>
                   (case leaseFromPool now r db2 of
                      (db3, Some leased) \<Rightarrow> (db3, Inr leased) | (_, None) \<Rightarrow> (db2, Inr addr))))))"

section \<open>The life of a lease\<close>

definition MarkLeaseFunded :: "int64 \<Rightarrow> pool_db \<Rightarrow> pool_error + pool_db" where
  "MarkLeaseFunded i db =
     (let p = (\<lambda>l. ls_order l = i) in
      if list_ex (\<lambda>l. p l \<and> ls_status l = Retired) (pd_leases db) then Inl ErrIllegalStatusTransition
      else if affected p (pd_leases db) = 0 then Inl ErrNoLeaseForOrder
      else Inr (db\<lparr>pd_leases := update_rows p (\<lambda>l. l\<lparr>ls_status := Funded_lease\<rparr>) (pd_leases db)\<rparr>))"

definition retire_lease :: "time \<Rightarrow> int64 \<Rightarrow> string \<Rightarrow> pool_db \<Rightarrow> pool_db" where
  "retire_lease now i reason db =
     db\<lparr>pd_leases := update_rows (\<lambda>l. ls_order l = i \<and> ls_status l \<noteq> Retired)
       (\<lambda>l. l\<lparr>ls_status := Retired, ls_retired_at := Some now, ls_reason := Some reason\<rparr>) (pd_leases db)\<rparr>"

definition start_cooldown :: "time \<Rightarrow> string \<Rightarrow> string \<Rightarrow> pool_db \<Rightarrow> pool_db" where
  "start_cooldown now addr reason db =
     db\<lparr>pd_wallets := update_rows (\<lambda>w. pw_address w = addr)
       (\<lambda>w. w\<lparr>pw_available_after := now +
          (if reason = ''expired'' then ps_after_expiry (pd_settings db) else ps_after_use (pd_settings db))\<rparr>) (pd_wallets db)\<rparr>"

text \<open>\<open>Retire\<close> is two statements outside a transaction; \<open>lost\<close> says that the second is lost.\<close>

definition RetireLease :: "bool \<Rightarrow> time \<Rightarrow> int64 \<Rightarrow> string \<Rightarrow> pool_db \<Rightarrow> pool_error + pool_db" where
  "RetireLease lost now i reason db =
     (if reason = '''' then Inl ErrEmptyReason
      else case first_row (\<lambda>l. ls_order l = i \<and> ls_status l \<noteq> Retired) (pd_leases db) of
        None \<Rightarrow> rbind (GetByOrderID db i) (\<lambda>_. Inr db)
      | Some l \<Rightarrow>
        (let db' = retire_lease now i reason db in
         Inr (if lost then db' else start_cooldown now (ls_address l) reason db')))"

definition SetWalletStatus :: "(string \<Rightarrow> string) \<Rightarrow> string \<Rightarrow> bool \<Rightarrow> pool_db \<Rightarrow> pool_error + pool_db" where
  "SetWalletStatus canon addr active db =
     (let p = (\<lambda>w. pw_address w = canon addr) in
      if affected p (pd_wallets db) = 0 then Inl ErrWalletNotFound
      else Inr (db\<lparr>pd_wallets := update_rows p (\<lambda>w. w\<lparr>pw_active := active\<rparr>) (pd_wallets db)\<rparr>))"

section \<open>Calls, and \<open>Assign\<close>\<close>

datatype pool_op =
    LeaseOp lease_request | ProvisionOp "wallet_maker option" "lease_request option" | FundOp int64
  | RetireOp bool int64 string | WalletOp string bool | SettingsOp pool_settings | PaidOp "string set"

definition pool_exec :: "(string \<Rightarrow> bool) \<Rightarrow> (string \<Rightarrow> string) \<Rightarrow> time \<times> pool_op \<Rightarrow> pool_db \<Rightarrow> pool_error + pool_db" where
  "pool_exec is_hex canon opn db =
     (case opn of
        (now, LeaseOp q) \<Rightarrow> Inr (fst (leaseFromPool now q db))
      | (now, ProvisionOp maker q) \<Rightarrow> Inr (fst (provision is_hex canon maker now q db))
      | (now, FundOp i) \<Rightarrow> MarkLeaseFunded i db
      | (now, RetireOp lost i reason) \<Rightarrow> RetireLease lost now i reason db
      | (now, WalletOp addr active) \<Rightarrow> SetWalletStatus canon addr active db
      | (now, SettingsOp st) \<Rightarrow> PutPoolSettings st db
      | (now, PaidOp addrs) \<Rightarrow> Inr (db\<lparr>pd_paid := addrs\<rparr>))"

text \<open>What others do before the next statement, and its clock.\<close>

type_synonym gap = "time \<times> (time \<times> pool_op) list"

fun next_gap :: "(string \<Rightarrow> bool) \<Rightarrow> (string \<Rightarrow> string) \<Rightarrow> time \<Rightarrow> gap list \<Rightarrow> pool_db \<Rightarrow> time \<times> gap list \<times> pool_db" where
  "next_gap is_hex canon now [] db = (now, [], db)"
| "next_gap is_hex canon now ((t, ops) # gs) db = (t, gs, run_ops (pool_exec is_hex canon) ops db)"

fun assign_loop ::
  "(string \<Rightarrow> bool) \<Rightarrow> (string \<Rightarrow> string) \<Rightarrow> wallet_maker option \<Rightarrow> nat \<Rightarrow> lease_request \<Rightarrow> time \<Rightarrow> gap list \<Rightarrow> pool_db \<Rightarrow>
   pool_db \<times> (pool_error + string)" where
  "assign_loop is_hex canon maker 0 q now gaps db = (db, Inl ErrNoWalletAvailable)"
| "assign_loop is_hex canon maker (Suc n) q now gaps db =
     (case next_gap is_hex canon now gaps db of (now, gaps, db) \<Rightarrow>
      case leaseFromPool now q db of
        (db, Some addr) \<Rightarrow> (db, Inr addr)
      | (db, None) \<Rightarrow>
        (case next_gap is_hex canon now gaps db of (now, gaps, db) \<Rightarrow>
         case GetByOrderID db (lq_order q) of
           Inr l \<Rightarrow> (db, Inr (ls_address l))
         | Inl _ \<Rightarrow>
           (case next_gap is_hex canon now gaps db of (now, gaps, db) \<Rightarrow>
            if 0 < eligibleWallets now db then assign_loop is_hex canon maker n q now gaps db
            else
              (case next_gap is_hex canon now gaps db of (now, gaps, db) \<Rightarrow>
               case provision is_hex canon maker now (Some q) db of
                 (db, Inl e) \<Rightarrow> (db, Inl e)
               | (db, Inr _) \<Rightarrow> assign_loop is_hex canon maker n q now gaps db))))"

definition Assign ::
  "(string \<Rightarrow> bool) \<Rightarrow> (string \<Rightarrow> string) \<Rightarrow> wallet_maker option \<Rightarrow> lease_request \<Rightarrow> time \<Rightarrow> gap list \<Rightarrow> pool_db \<Rightarrow>
   pool_db \<times> (pool_error + string)" where
  "Assign is_hex canon maker q now gaps db =
     (if maker = None then (db, Inl ErrPoolNotConfigured)
      else
        (case next_gap is_hex canon now gaps db of (now, gaps, db) \<Rightarrow>
         case GetByOrderID db (lq_order q) of
           Inr l \<Rightarrow> (db, Inr (ls_address l))
         | Inl _ \<Rightarrow> assign_loop is_hex canon maker 5 q now gaps db))"

end
