(* ===== verification/Wallet_Pool_Inv.thy ===== *)
theory Wallet_Pool_Inv
  imports Wallet_Pool
begin

text \<open>
  The invariant of the wallet pool: a wallet has one open lease, an order has one lease, a lease names the
  index of its wallet. \<open>spaced\<close> is the stronger invariant of a pool whose cool-downs are long enough
  and never lost: two leases of a wallet are at least the tolerance of \<open>LeaseAt\<close> apart.
\<close>

section \<open>One wallet, one lease\<close>

definition lease_wallet :: "pool_wallet list \<Rightarrow> lease \<Rightarrow> bool" where
  "lease_wallet ws l \<longleftrightarrow> (ls_address l, ls_index l) \<in> set (map (\<lambda>w. (pw_address w, pw_index w)) ws)"

definition pool_ok :: "pool_db \<Rightarrow> bool" where
  "pool_ok db \<longleftrightarrow>
     distinct (map ls_order (pd_leases db)) \<and> distinct (map ls_external (pd_leases db)) \<and>
     distinct (map ls_address (filter (\<lambda>l. ls_status l \<noteq> Retired) (pd_leases db))) \<and>
     distinct (map pw_address (pd_wallets db)) \<and> distinct (map pw_index (pd_wallets db)) \<and>
     (\<forall>l \<in> set (pd_leases db). lease_wallet (pd_wallets db) l \<and> (ls_status l = Retired \<longleftrightarrow> ls_retired_at l \<noteq> None) \<and>
        ls_id l \<le> pd_lease_seq db) \<and>
     sorted_wrt (<) (map ls_id (pd_leases db))"

lemma pool_ok_empty: "pool_ok empty_pool"
  by (simp add: pool_ok_def empty_pool_def)

lemma leaseFromPool_cases:
  assumes "leaseFromPool now q db = (db', r)"
  obtains "r = None" "db' = db"
  | w where "r = Some (pw_address w)" "w \<in> set (pd_wallets db)" "eligible now db w"
      "\<forall>l \<in> set (pd_leases db). ls_order l \<noteq> lq_order q \<and> ls_external l \<noteq> lq_external q"
      "db' = db\<lparr>pd_leases := pd_leases db @ [new_lease now (pd_lease_seq db + 1) w q], pd_lease_seq := pd_lease_seq db + 1,
        pd_wallets := update_rows (\<lambda>v. pw_address v = pw_address w) (\<lambda>v. v\<lparr>pw_last_leased := Some now\<rparr>) (pd_wallets db)\<rparr>"
proof (cases "sort_key (lease_rank db) (filter (eligible now db) (pd_wallets db))")
  case Nil
  then show ?thesis using assms that(1) by (simp add: leaseFromPool_def)
next
  case (Cons w ws)
  then have "w \<in> set (sort_key (lease_rank db) (filter (eligible now db) (pd_wallets db)))" by simp
  then have w: "w \<in> set (pd_wallets db)" "eligible now db w" by simp_all
  show ?thesis
  proof (cases "list_ex (\<lambda>l. ls_order l = lq_order q \<or> ls_external l = lq_external q) (pd_leases db)")
    case True
    then show ?thesis using assms that(1) Cons by (simp add: leaseFromPool_def)
  next
    case False
    then have "\<forall>l \<in> set (pd_leases db). ls_order l \<noteq> lq_order q \<and> ls_external l \<noteq> lq_external q"
      by (auto simp: list_ex_iff)
    then show ?thesis using assms that(2) [OF _ w] Cons False by (auto simp: leaseFromPool_def Let_def)
  qed
qed

lemma new_lease_simps [simp]:
  "ls_id (new_lease now i w q) = i" "ls_address (new_lease now i w q) = pw_address w"
  "ls_index (new_lease now i w q) = pw_index w" "ls_order (new_lease now i w q) = lq_order q"
  "ls_external (new_lease now i w q) = lq_external q" "ls_status (new_lease now i w q) = Watching"
  "ls_retired_at (new_lease now i w q) = None" "ls_assigned_at (new_lease now i w q) = now"
  by (simp_all add: new_lease_def)

text \<open>Updates that leave addresses and indexes alone keep the wallets of all leases.\<close>

lemma lease_wallet_update:
  "(\<And>w. pw_address (f w) = pw_address w \<and> pw_index (f w) = pw_index w) \<Longrightarrow>
     lease_wallet (update_rows p f ws) l = lease_wallet ws l"
  unfolding lease_wallet_def by (subst map_update_rows) simp_all

lemma leaseFromPool_ok: "pool_ok db \<Longrightarrow> pool_ok (fst (leaseFromPool now q db))"
proof (cases "leaseFromPool now q db")
  case (Pair db' r)
  assume ok: "pool_ok db"
  from Pair show ?thesis
  proof (cases rule: leaseFromPool_cases)
    case (2 w)
    have u: "map pw_address (update_rows (\<lambda>v. pw_address v = pw_address w) (\<lambda>v. v\<lparr>pw_last_leased := Some now\<rparr>) ws) = map pw_address ws"
      "map pw_index (update_rows (\<lambda>v. pw_address v = pw_address w) (\<lambda>v. v\<lparr>pw_last_leased := Some now\<rparr>) ws) = map pw_index ws" for ws
      by (simp_all add: map_update_rows)
    have "\<forall>l \<in> set (pd_leases db). ls_id l < pd_lease_seq db + 1" using ok by (force simp: pool_ok_def)
    moreover have "lease_wallet (pd_wallets db) (new_lease now i w q)" for i
      using 2 by (auto simp: lease_wallet_def)
    ultimately show ?thesis using ok 2 Pair
      by (auto simp: pool_ok_def u lease_wallet_update sorted_wrt_append eligible_def open_lease_def list_ex_iff image_iff)
  qed (use ok Pair in simp)
qed

lemma add_wallet_ok:
  "add_wallet now addr i db = Inr db' \<Longrightarrow> pool_ok db \<Longrightarrow> pool_ok db'"
  by (auto simp: add_wallet_def pool_ok_def lease_wallet_def list_ex_iff split: if_splits)

lemma make_wallet_cases:
  assumes "make_wallet is_hex canon mk now db = (db1, r)"
  shows "(db1 = db \<or> db1 = db\<lparr>pd_index_seq := pd_index_seq db + 1\<rparr>) \<and>
    (\<forall>addr db2. r = Inr (addr, db2) \<longrightarrow> add_wallet now addr (of_int (pd_index_seq db)) db1 = Inr db2)"
  using assms by (auto simp: make_wallet_def Let_def split: if_splits sum.splits)

lemma pool_ok_seq [simp]: "pool_ok (db\<lparr>pd_index_seq := n\<rparr>) = pool_ok db" "pool_ok (db\<lparr>pd_paid := a\<rparr>) = pool_ok db"
  "pool_ok (db\<lparr>pd_settings := st\<rparr>) = pool_ok db"
  by (simp_all add: pool_ok_def)

lemma pool_provision_ok:
  assumes "pool_ok db"
  shows "pool_ok (fst (provision is_hex canon maker now q db))"
proof (cases maker)
  case (Some mk)
  obtain db1 r where m: "make_wallet is_hex canon mk now db = (db1, r)" by fastforce
  note mc = make_wallet_cases [OF m]
  have db1: "pool_ok db1" using mc assms by auto
  have db2: "pool_ok db2" if "r = Inr (addr, db2)" for addr db2
    using mc that add_wallet_ok db1 by blast
  have lq: "pool_ok (fst (leaseFromPool now x d))" if "pool_ok d" for x d using leaseFromPool_ok that .
  show ?thesis using assms lq [OF assms] db1 db2 lq [OF db2]
    by (auto simp: provision_def Some m split: option.splits sum.splits prod.splits) (metis fst_conv)+
qed (use assms in \<open>simp add: provision_def\<close>)

section \<open>The life of a lease\<close>

definition lease_edge :: "lease_status \<Rightarrow> lease_status \<Rightarrow> bool" where
  "lease_edge s t \<longleftrightarrow> s = Watching \<and> t = Funded_lease \<or> s \<noteq> Retired \<and> t = Retired"

lemma MarkLeaseFunded_ok:
  assumes "MarkLeaseFunded i db = Inr db'" and "pool_ok db"
  shows "pool_ok db'"
proof -
  let ?p = "\<lambda>l. ls_order l = i" and ?f = "\<lambda>l. l\<lparr>ls_status := Funded_lease\<rparr>"
  have db': "db' = db\<lparr>pd_leases := update_rows ?p ?f (pd_leases db)\<rparr>"
    and st: "\<forall>l \<in> set (pd_leases db). ?p l \<longrightarrow> ls_status l \<noteq> Retired"
    using assms(1) by (auto simp: MarkLeaseFunded_def Let_def list_ex_iff split: if_splits)
  have m: "map ls_order (update_rows ?p ?f rows) = map ls_order rows" "map ls_external (update_rows ?p ?f rows) = map ls_external rows"
    "map ls_id (update_rows ?p ?f rows) = map ls_id rows" for rows
    by (simp_all add: map_update_rows)
  have f: "map ls_address (filter (\<lambda>l. ls_status l \<noteq> Retired) (update_rows ?p ?f rows)) =
      map ls_address (filter (\<lambda>l. ls_status l \<noteq> Retired) rows)" if "\<forall>l \<in> set rows. ?p l \<longrightarrow> ls_status l \<noteq> Retired" for rows
    using that by (induction rows) (auto simp: update_rows_def)
  have e: "lease_wallet (pd_wallets db) l \<and> (ls_status l = Retired \<longleftrightarrow> ls_retired_at l \<noteq> None) \<and> ls_id l \<le> pd_lease_seq db"
    if "l \<in> set (update_rows ?p ?f (pd_leases db))" for l
    using that assms(2) st by (auto simp: set_update_rows pool_ok_def lease_wallet_def split: if_splits)
  show ?thesis using assms(2) e by (simp add: db' pool_ok_def m f [OF st])
qed

lemma retire_lease_ok:
  assumes "pool_ok db"
  shows "pool_ok (retire_lease now i reason db)"
proof -
  let ?p = "\<lambda>l. ls_order l = i \<and> ls_status l \<noteq> Retired"
    and ?f = "\<lambda>l. l\<lparr>ls_status := Retired, ls_retired_at := Some now, ls_reason := Some reason\<rparr>"
  have m: "map ls_order (update_rows ?p ?f rows) = map ls_order rows" "map ls_external (update_rows ?p ?f rows) = map ls_external rows"
    "map ls_id (update_rows ?p ?f rows) = map ls_id rows" for rows
    by (simp_all add: map_update_rows)
  have sub: "set (map ls_address (filter (\<lambda>l. ls_status l \<noteq> Retired) (update_rows ?p ?f rows))) \<subseteq>
      set (map ls_address (filter (\<lambda>l. ls_status l \<noteq> Retired) rows))" for rows
    by (auto simp: update_rows_def)
  have f: "distinct (map ls_address (filter (\<lambda>l. ls_status l \<noteq> Retired) (update_rows ?p ?f rows)))"
    if "distinct (map ls_address (filter (\<lambda>l. ls_status l \<noteq> Retired) rows))" for rows
    using that
  proof (induction rows)
    case (Cons l rows)
    then show ?case using sub [of rows] by (auto simp: update_rows_def)
  qed (simp add: update_rows_def)
  have e: "lease_wallet (pd_wallets db) l \<and> (ls_status l = Retired \<longleftrightarrow> ls_retired_at l \<noteq> None) \<and> ls_id l \<le> pd_lease_seq db"
    if "l \<in> set (update_rows ?p ?f (pd_leases db))" for l
    using that assms by (auto simp: set_update_rows pool_ok_def lease_wallet_def split: if_splits)
  have "distinct (map ls_address (filter (\<lambda>l. ls_status l \<noteq> Retired) (pd_leases db)))" using assms by (simp add: pool_ok_def)
  from f [OF this] show ?thesis using assms e by (simp add: retire_lease_def pool_ok_def m)
qed

lemma wallets_updated_ok:
  assumes "pool_ok db" and "\<And>w. pw_address (f w) = pw_address w \<and> pw_index (f w) = pw_index w"
  shows "pool_ok (db\<lparr>pd_wallets := update_rows p f (pd_wallets db)\<rparr>)"
  using assms by (simp add: pool_ok_def lease_wallet_update map_update_rows)

lemma RetireLease_ok: "RetireLease lost now i reason db = Inr db' \<Longrightarrow> pool_ok db \<Longrightarrow> pool_ok db'"
  using retire_lease_ok [of db now i reason]
  by (auto simp: RetireLease_def start_cooldown_def Let_def intro: wallets_updated_ok split: if_splits option.splits)

lemma pool_exec_ok: "pool_exec is_hex canon opn db = Inr db' \<Longrightarrow> pool_ok db \<Longrightarrow> pool_ok db'"
  by (cases opn; cases "snd opn")
    (auto simp: pool_exec_def PutPoolSettings_def SetWalletStatus_def Let_def leaseFromPool_ok pool_provision_ok
      intro: MarkLeaseFunded_ok RetireLease_ok wallets_updated_ok split: if_splits)

interpretation wallet_pool: transactional "pool_exec is_hex canon" pool_ok for is_hex canon
  by unfold_locales (rule pool_exec_ok)

section \<open>What becomes of a lease\<close>

definition lease_by :: "pool_db \<Rightarrow> int64 \<Rightarrow> lease option" where
  "lease_by db i = first_row (\<lambda>l. ls_order l = i) (pd_leases db)"

text \<open>What an order was given never changes; its status moves along the edges.\<close>

definition lease_terms :: "lease \<Rightarrow> int \<times> string \<times> 32 word \<times> string \<times> time" where
  "lease_terms l = (ls_id l, ls_address l, ls_index l, ls_external l, ls_assigned_at l)"

definition lease_step :: "lease \<Rightarrow> lease \<Rightarrow> bool" where
  "lease_step l l' \<longleftrightarrow> lease_terms l' = lease_terms l \<and> (ls_status l' = ls_status l \<or> lease_edge (ls_status l) (ls_status l'))"

definition leases_step :: "pool_db \<Rightarrow> pool_db \<Rightarrow> bool" where
  "leases_step db db' \<longleftrightarrow> (\<forall>i l. lease_by db i = Some l \<longrightarrow> (\<exists>l'. lease_by db' i = Some l' \<and> lease_step l l'))"

lemma leases_step_same: "pd_leases db' = pd_leases db \<Longrightarrow> leases_step db db'"
  by (simp add: leases_step_def lease_by_def lease_step_def)

lemma leases_step_update:
  assumes "pd_leases db' = update_rows p f (pd_leases db)"
    and "\<And>l. p l \<Longrightarrow> ls_order (f l) = ls_order l"
    and "\<And>l. l \<in> set (pd_leases db) \<Longrightarrow> p l \<Longrightarrow> lease_step l (f l)"
  shows "leases_step db db'"
  unfolding leases_step_def
proof (intro allI impI)
  fix i l
  assume l: "lease_by db i = Some l"
  then have "l \<in> set (pd_leases db)" by (auto simp: lease_by_def dest: first_row_Some)
  moreover have "lease_by db' i = Some (if p l then f l else l)"
    using l by (simp add: lease_by_def assms(1) first_row_update_key [where k = ls_order, OF assms(2)])
  ultimately show "\<exists>l'. lease_by db' i = Some l' \<and> lease_step l l'"
    using assms(3) by (auto simp: lease_step_def)
qed

lemma leaseFromPool_step: "leases_step db (fst (leaseFromPool now q db))"
proof (cases "leaseFromPool now q db")
  case (Pair db' r)
  then show ?thesis
    by (cases rule: leaseFromPool_cases)
      (auto simp: Pair leases_step_def lease_by_def first_row_append lease_step_def)
qed

lemma provision_step: "leases_step db (fst (provision is_hex canon maker now q db))"
proof (cases maker)
  case (Some mk)
  obtain db1 r where m: "make_wallet is_hex canon mk now db = (db1, r)" by fastforce
  note mc = make_wallet_cases [OF m]
  have db1: "pd_leases db1 = pd_leases db" using mc by auto
  have db2: "pd_leases db2 = pd_leases db" if "r = Inr (addr, db2)" for addr db2
    using mc that db1 by (auto simp: add_wallet_def split: if_splits)
  have l2: "leases_step db (fst (leaseFromPool now x db2))" if "r = Inr (addr, db2)" for x addr db2
    using leaseFromPool_step [of db2 now x] db2 [OF that] by (simp add: leases_step_def lease_by_def)
  show ?thesis using leaseFromPool_step [of db now] leases_step_same [OF db1] leases_step_same [OF db2] l2
    by (auto simp: provision_def Some m leases_step_same split: option.splits sum.splits prod.splits) (metis fst_conv)+
qed (simp add: provision_def leases_step_same)

lemma pool_exec_step: "pool_exec is_hex canon opn db = Inr db' \<Longrightarrow> leases_step db db'"
proof -
  have f: "leases_step db db'" if "MarkLeaseFunded i db = Inr db'" for i
    using that by (auto simp: MarkLeaseFunded_def Let_def list_ex_iff lease_step_def lease_edge_def lease_terms_def
      intro!: leases_step_update split: if_splits) (metis lease_status.exhaust)
  have r: "leases_step db db'" if "RetireLease lost now i reason db = Inr db'" for lost now i reason
    using that
    by (auto simp: RetireLease_def start_cooldown_def retire_lease_def Let_def lease_step_def lease_edge_def lease_terms_def
      leases_step_same intro!: leases_step_update split: if_splits option.splits)
  assume "pool_exec is_hex canon opn db = Inr db'"
  then show ?thesis using f r leaseFromPool_step [of db] provision_step [of db]
    by (cases opn; cases "snd opn")
      (auto simp: pool_exec_def PutPoolSettings_def SetWalletStatus_def Let_def intro: leases_step_same split: if_splits)
qed

definition lease_status_of :: "pool_db \<Rightarrow> int64 \<Rightarrow> lease_status option" where
  "lease_status_of db i = map_option ls_status (lease_by db i)"

definition terms_of :: "pool_db \<Rightarrow> int64 \<Rightarrow> (int \<times> string \<times> 32 word \<times> string \<times> time) option" where
  "terms_of db i = map_option lease_terms (lease_by db i)"

interpretation lease_store: status_store "pool_exec is_hex canon" pool_ok lease_status_of lease_edge for is_hex canon
proof unfold_locales
  fix db opn db' i s
  assume "pool_exec is_hex canon opn db = Inr db'" and "lease_status_of db i = Some s"
  then show "\<exists>t. lease_status_of db' i = Some t \<and> (t = s \<or> lease_edge s t)"
    using pool_exec_step by (fastforce simp: lease_status_of_def leases_step_def lease_step_def)
qed

interpretation lease_terms: write_once "pool_exec is_hex canon" pool_ok terms_of for is_hex canon
proof unfold_locales
  fix db opn db' i v
  assume "pool_exec is_hex canon opn db = Inr db'" and "terms_of db i = Some v"
  then show "terms_of db' i = Some v"
    using pool_exec_step by (fastforce simp: terms_of_def leases_step_def lease_step_def)
qed

section \<open>Cool-downs that are long enough\<close>

definition apart :: "lease \<Rightarrow> lease \<Rightarrow> bool" where
  "apart l l' \<longleftrightarrow> ls_address l = ls_address l' \<longrightarrow>
     (\<exists>t. ls_retired_at l = Some t \<and> t + leaseTimeTolerance \<le> ls_assigned_at l')"

definition cooled :: "lease list \<Rightarrow> pool_wallet \<Rightarrow> bool" where
  "cooled rows w \<longleftrightarrow> (\<forall>l \<in> set rows. \<forall>t. ls_address l = pw_address w \<longrightarrow> ls_retired_at l = Some t \<longrightarrow>
     t + leaseTimeTolerance \<le> pw_available_after w)"

definition spaced :: "time \<Rightarrow> pool_db \<Rightarrow> bool" where
  "spaced T db \<longleftrightarrow>
     (\<forall>l \<in> set (pd_leases db). ls_assigned_at l \<le> T \<and>
        (\<forall>t. ls_retired_at l = Some t \<longrightarrow> ls_assigned_at l \<le> t \<and> t \<le> T)) \<and>
     sorted_wrt apart (pd_leases db) \<and> (\<forall>w \<in> set (pd_wallets db). cooled (pd_leases db) w) \<and>
     leaseTimeTolerance \<le> ps_after_use (pd_settings db) \<and> leaseTimeTolerance \<le> ps_after_expiry (pd_settings db)"

text \<open>Operations that keep the cool-downs: settings of at least the tolerance, and no retirement cut short.\<close>

definition long_enough :: "pool_op \<Rightarrow> bool" where
  "long_enough opn = (case opn of
     RetireOp lost _ _ \<Rightarrow> \<not> lost
   | SettingsOp st \<Rightarrow> leaseTimeTolerance \<le> ps_after_use st \<and> leaseTimeTolerance \<le> ps_after_expiry st
   | _ \<Rightarrow> True)"

lemma spaced_empty: "spaced T empty_pool"
  by (simp add: spaced_def empty_pool_def leaseTimeTolerance_def seconds_def)

lemma spaced_later: "spaced T db \<Longrightarrow> T \<le> T' \<Longrightarrow> spaced T' db"
  by (force simp: spaced_def)

lemma spaced_seq [simp]: "spaced T (db\<lparr>pd_index_seq := n\<rparr>) = spaced T db" "spaced T (db\<lparr>pd_paid := a\<rparr>) = spaced T db"
  by (simp_all add: spaced_def)

lemma spaced_wallets:
  assumes "spaced T db" and "\<And>w. pw_address (f w) = pw_address w \<and> pw_available_after (f w) = pw_available_after w"
  shows "spaced T (db\<lparr>pd_wallets := update_rows p f (pd_wallets db)\<rparr>)"
  using assms by (auto simp: spaced_def cooled_def set_update_rows)

lemma leaseFromPool_spaced:
  assumes ok: "pool_ok db" and sp: "spaced now db"
  shows "spaced now (fst (leaseFromPool now q db))"
proof (cases "leaseFromPool now q db")
  case (Pair db' r)
  then show ?thesis
  proof (cases rule: leaseFromPool_cases)
    case (2 w)
    let ?l = "new_lease now (pd_lease_seq db + 1) w q"
    have "apart l ?l" if l: "l \<in> set (pd_leases db)" for l
      using 2(2,3) l ok sp
      by (force simp: apart_def eligible_def open_lease_def list_ex_iff pool_ok_def spaced_def cooled_def)
    then have "spaced now (db\<lparr>pd_leases := pd_leases db @ [?l], pd_lease_seq := pd_lease_seq db + 1\<rparr>)"
      using sp by (auto simp: spaced_def sorted_wrt_append cooled_def)
    from spaced_wallets [OF this, of "\<lambda>v. v\<lparr>pw_last_leased := Some now\<rparr>" "\<lambda>v. pw_address v = pw_address w"]
    show ?thesis by (simp add: Pair 2)
  qed (use sp Pair in simp)
qed

lemma add_wallet_spaced:
  assumes "add_wallet now addr i db = Inr db'" and ok: "pool_ok db" and sp: "spaced T db"
  shows "spaced T db'"
proof -
  have "\<forall>w \<in> set (pd_wallets db). pw_address w \<noteq> addr" using assms(1) by (auto simp: add_wallet_def list_ex_iff split: if_splits)
  moreover have "\<exists>w \<in> set (pd_wallets db). pw_address w = ls_address l" if "l \<in> set (pd_leases db)" for l
    using that ok by (force simp: pool_ok_def lease_wallet_def)
  ultimately have "\<forall>l \<in> set (pd_leases db). ls_address l \<noteq> addr" by metis
  then show ?thesis using assms by (auto simp: add_wallet_def spaced_def cooled_def split: if_splits)
qed

lemma provision_spaced:
  assumes ok: "pool_ok db" and sp: "spaced now db"
  shows "spaced now (fst (provision is_hex canon maker now q db))"
proof (cases maker)
  case (Some mk)
  obtain db1 r where m: "make_wallet is_hex canon mk now db = (db1, r)" by fastforce
  note mc = make_wallet_cases [OF m]
  have db1: "spaced now db1" "pool_ok db1" using mc sp ok by auto
  have db2: "spaced now db2" "pool_ok db2" if "r = Inr (addr, db2)" for addr db2
    using mc that add_wallet_spaced [OF _ db1(2,1)] add_wallet_ok [OF _ db1(2)] by blast+
  show ?thesis using leaseFromPool_spaced [OF ok sp] db1 db2 leaseFromPool_spaced [OF db2(2,1)] sp
    by (auto simp: provision_def Some m split: option.splits sum.splits prod.splits) (metis fst_conv)+
qed (use sp in \<open>simp add: provision_def\<close>)

lemma retired_apart:
  assumes ok: "pool_ok db" and sp: "spaced T db"
  shows "sorted_wrt apart (pd_leases (retire_lease now i reason db))"
proof -
  let ?g = "\<lambda>l. if ls_order l = i \<and> ls_status l \<noteq> Retired
    then l\<lparr>ls_status := Retired, ls_retired_at := Some now, ls_reason := Some reason\<rparr> else l"
  have leases: "pd_leases (retire_lease now i reason db) = map ?g (pd_leases db)"
    by (simp add: retire_lease_def update_rows_def)
  have "apart (?g l) (?g l')" if "l \<in> set (pd_leases db)" "apart l l'" for l l'
    using that ok by (auto simp: apart_def pool_ok_def)
  then show ?thesis using sp unfolding leases sorted_wrt_map spaced_def
    by (blast intro: sorted_wrt_mono_rel [where P = apart])
qed

lemma RetireLease_spaced:
  assumes r: "RetireLease False now i reason db = Inr db'" and ok: "pool_ok db" and sp: "spaced now db"
  shows "spaced now db'"
proof (cases "first_row (\<lambda>l. ls_order l = i \<and> ls_status l \<noteq> Retired) (pd_leases db)")
  case None
  then show ?thesis using r sp by (auto simp: RetireLease_def split: if_splits)
next
  case (Some l)
  let ?db = "retire_lease now i reason db"
  note l = first_row_Some [OF Some]
  have same: "k = l" if "k \<in> set (pd_leases db)" "ls_order k = i" for k
    using that l ok by (auto simp: pool_ok_def distinct_map inj_on_def)
  have db': "db' = start_cooldown now (ls_address l) reason ?db" using r Some by (auto simp: RetireLease_def split: if_splits)
  have st: "pd_settings ?db = pd_settings db" "pd_wallets ?db = pd_wallets db" by (simp_all add: retire_lease_def)
  have cd: "leaseTimeTolerance \<le> (if reason = ''expired'' then ps_after_expiry (pd_settings db) else ps_after_use (pd_settings db))"
    using sp by (simp add: spaced_def)
  have old: "k \<in> set (pd_leases ?db) \<Longrightarrow> (k \<in> set (pd_leases db) \<or> ls_address k = ls_address l \<and> ls_retired_at k = Some now) \<and>
      ls_assigned_at k \<le> now \<and> (\<forall>t. ls_retired_at k = Some t \<longrightarrow> ls_assigned_at k \<le> t \<and> t \<le> now)" for k
  proof -
    assume "k \<in> set (pd_leases ?db)"
    then obtain q where q: "q \<in> set (pd_leases db)" and k: "k = (if ls_order q = i \<and> ls_status q \<noteq> Retired
        then q\<lparr>ls_status := Retired, ls_retired_at := Some now, ls_reason := Some reason\<rparr> else q)"
      by (auto simp: retire_lease_def set_update_rows)
    have "ls_assigned_at q \<le> now \<and> (\<forall>t. ls_retired_at q = Some t \<longrightarrow> ls_assigned_at q \<le> t \<and> t \<le> now)" using q sp by (auto simp: spaced_def)
    then show ?thesis using q same [OF q] by (cases "ls_order q = i \<and> ls_status q \<noteq> Retired") (simp_all add: k)
  qed
  have "cooled (pd_leases ?db) v" if "v \<in> set (pd_wallets db')" for v
  proof -
    have "v \<in> set (update_rows (\<lambda>w. pw_address w = ls_address l) (\<lambda>w. w\<lparr>pw_available_after := now +
        (if reason = ''expired'' then ps_after_expiry (pd_settings db) else ps_after_use (pd_settings db))\<rparr>) (pd_wallets db))"
      using that unfolding db' start_cooldown_def st by simp
    then obtain w where w: "w \<in> set (pd_wallets db)" and v: "v = (if pw_address w = ls_address l then w\<lparr>pw_available_after := now +
        (if reason = ''expired'' then ps_after_expiry (pd_settings db) else ps_after_use (pd_settings db))\<rparr> else w)"
      unfolding set_update_rows by blast
    show ?thesis unfolding cooled_def
    proof (intro ballI allI impI)
      fix k t
      assume k: "k \<in> set (pd_leases ?db)" "ls_address k = pw_address v" "ls_retired_at k = Some t"
      show "t + leaseTimeTolerance \<le> pw_available_after v"
      proof (cases "pw_address w = ls_address l")
        case True
        then show ?thesis using old [OF k(1)] k(3) cd by (simp add: v)
      next
        case False
        then show ?thesis using old [OF k(1)] k w sp by (auto simp: v spaced_def cooled_def)
      qed
    qed
  qed
  then show ?thesis using retired_apart [OF ok sp] old sp
    by (auto simp: db' spaced_def start_cooldown_def) (simp_all add: retire_lease_def)
qed

lemma pool_exec_spaced:
  assumes "pool_exec is_hex canon (now, opn) db = Inr db'" and "pool_ok db" and "spaced T db" and "T \<le> now" and "long_enough opn"
  shows "spaced now db'"
proof -
  have sp: "spaced now db" using assms(3,4) spaced_later by blast
  have f: "spaced now db'" if "MarkLeaseFunded i db = Inr db'" for i
  proof -
    have "apart (if b then l\<lparr>ls_status := Funded_lease\<rparr> else l) (if b' then l'\<lparr>ls_status := Funded_lease\<rparr> else l') = apart l l'"
      for b b' l l' by (simp add: apart_def)
    then have "sorted_wrt apart (update_rows p (\<lambda>l. l\<lparr>ls_status := Funded_lease\<rparr>) (pd_leases db))" for p
      using sp by (simp add: update_rows_def sorted_wrt_map spaced_def)
    then show ?thesis using that sp
      by (auto simp: MarkLeaseFunded_def Let_def spaced_def set_update_rows cooled_def split: if_splits)
  qed
  have s: "spaced now (db\<lparr>pd_settings := st\<rparr>)" if "opn = SettingsOp st" for st
    using that sp assms(5) by (simp add: spaced_def long_enough_def)
  show ?thesis
    using assms(1,2,5) sp f s
    by (cases opn)
      (auto simp: pool_exec_def PutPoolSettings_def SetWalletStatus_def Let_def long_enough_def leaseFromPool_spaced
        provision_spaced spaced_wallets RetireLease_spaced split: if_splits)
qed

lemma run_spaced:
  assumes "pool_ok db" and "spaced T db" and "sorted (T # map fst ops)" and "list_all (long_enough \<circ> snd) ops"
  shows "\<exists>T'. spaced T' (run_ops (pool_exec is_hex canon) ops db)"
  using assms
proof (induction ops arbitrary: db T)
  case (Cons op ops)
  obtain now opn where op: "op = (now, opn)" by fastforce
  let ?db = "commit_op (pool_exec is_hex canon) op db"
  have le: "T \<le> now" "sorted (now # map fst ops)" using Cons.prems(3) by (auto simp: op)
  have "spaced now ?db"
    using Cons.prems(1,2,4) le(1) pool_exec_spaced spaced_later
    by (auto simp: commit_op_def op split: sum.split)
  then show ?case using Cons.IH [OF wallet_pool.commit_inv [OF Cons.prems(1)] _ le(2)] Cons.prems(4)
    by (simp add: run_ops_simps)
qed (auto simp: run_ops_simps)

text \<open>The lease found for a block is not one that started after a lease that was still open in it.\<close>

lemma LeaseAt_Some:
  assumes "LeaseAt canon db addr block = Some l"
  shows "l \<in> set (pd_leases db)" "ls_address l = canon addr" "ls_assigned_at l \<le> block + leaseTimeTolerance"
proof -
  let ?xs = "sort_key ls_assigned_at (filter (\<lambda>l. ls_address l = canon addr \<and>
    ls_assigned_at l \<le> pg_time (block + leaseTimeTolerance)) (pd_leases db))"
  obtain ys where xs: "?xs = rev ys @ [l]" using assms by (auto simp: LeaseAt_def split: list.splits)
  have "l \<in> set ?xs" unfolding xs by simp
  then have l: "l \<in> set (pd_leases db) \<and> ls_address l = canon addr \<and> ls_assigned_at l \<le> pg_time (block + leaseTimeTolerance)"
    by simp
  have "pg_time t \<le> t" for t by (simp add: pg_time_def minus_mod_eq_div_mult [symmetric])
  then show "l \<in> set (pd_leases db)" "ls_address l = canon addr" "ls_assigned_at l \<le> block + leaseTimeTolerance"
    using l by (auto intro: order_trans)
qed

text \<open>Two leases of a wallet follow each other.\<close>

lemma spaced_order:
  assumes "spaced T db" and "l \<in> set (pd_leases db)" "l' \<in> set (pd_leases db)" "l \<noteq> l'" "ls_address l = ls_address l'"
  shows "(\<exists>t. ls_retired_at l = Some t \<and> t + leaseTimeTolerance \<le> ls_assigned_at l') \<or>
    ls_assigned_at l' < ls_assigned_at l"
proof -
  obtain m n where mn: "m < length (pd_leases db)" "pd_leases db ! m = l" "n < length (pd_leases db)" "pd_leases db ! n = l'"
    using assms(2,3) by (auto simp: in_set_conv_nth)
  consider "m < n" | "n < m" using mn assms(4) by (cases m n rule: linorder_cases) auto
  then show ?thesis
  proof cases
    case 1
    then have "apart l l'" using assms(1) mn by (auto simp: spaced_def sorted_wrt_iff_nth_less)
    then show ?thesis using assms(5) by (simp add: apart_def)
  next
    case 2
    then have "apart l' l" using assms(1) mn by (auto simp: spaced_def sorted_wrt_iff_nth_less)
    then obtain t where "ls_retired_at l' = Some t" "t + leaseTimeTolerance \<le> ls_assigned_at l"
      using assms(5) by (auto simp: apart_def)
    moreover have "ls_assigned_at l' \<le> t" using assms(1,3) calculation(1) by (auto simp: spaced_def)
    ultimately show ?thesis by (simp add: leaseTimeTolerance_def seconds_def)
  qed
qed

lemma LeaseAt_exact:
  assumes sp: "spaced T db" and l: "l \<in> set (pd_leases db)" "ls_address l = canon addr"
    and b: "ls_assigned_at l \<le> pg_time (block + leaseTimeTolerance)" "\<forall>t. ls_retired_at l = Some t \<longrightarrow> block < t"
  shows "LeaseAt canon db addr block = Some l"
proof -
  let ?xs = "sort_key ls_assigned_at (filter (\<lambda>l. ls_address l = canon addr \<and>
    ls_assigned_at l \<le> pg_time (block + leaseTimeTolerance)) (pd_leases db))"
  have "l \<in> set ?xs" using l b by simp
  then obtain l' ys where xs: "?xs = ys @ [l']" by (cases ?xs rule: rev_cases) auto
  then have at: "LeaseAt canon db addr block = Some l'" by (simp add: LeaseAt_def)
  note l' = LeaseAt_Some [OF at]
  have "sorted (map ls_assigned_at ?xs)" by simp
  then have "ls_assigned_at l \<le> ls_assigned_at l'" using \<open>l \<in> set ?xs\<close> unfolding xs by (auto simp: sorted_append)
  moreover have "\<not> ls_assigned_at l' < ls_assigned_at l \<Longrightarrow> l = l'"
    using spaced_order [OF sp l(1) l'(1)] l(2) l'(2,3) b(2) by fastforce
  ultimately show ?thesis using at by simp
qed

section \<open>Leases stay\<close>

text \<open>What a lease was given to: its wallet, its order, its customer and its time.\<close>

definition lease_grant :: "lease \<Rightarrow> string \<times> int64 \<times> string \<times> string \<times> time" where
  "lease_grant l = (ls_address l, ls_order l, ls_external l, ls_customer l, ls_assigned_at l)"

definition grants_kept :: "pool_db \<Rightarrow> pool_db \<Rightarrow> bool" where
  "grants_kept db db' \<longleftrightarrow> lease_grant ` set (pd_leases db) \<subseteq> lease_grant ` set (pd_leases db')"

lemma grants_kept_same: "pd_leases db' = pd_leases db \<Longrightarrow> grants_kept db db'"
  by (simp add: grants_kept_def)

lemma grants_kept_trans: "grants_kept a b \<Longrightarrow> grants_kept b c \<Longrightarrow> grants_kept a c"
  by (auto simp: grants_kept_def)

lemma grants_kept_update:
  assumes "pd_leases db' = update_rows p f (pd_leases db)" and "\<And>l. p l \<Longrightarrow> lease_grant (f l) = lease_grant l"
  shows "grants_kept db db'"
proof -
  have "lease_grant (if p l then f l else l) = lease_grant l" for l using assms(2) by simp
  then have "map lease_grant (pd_leases db') = map lease_grant (pd_leases db)" unfolding assms(1) update_rows_def by simp
  then show ?thesis unfolding grants_kept_def by (metis list.set_map order_refl)
qed

lemma leaseFromPool_grants: "grants_kept db (fst (leaseFromPool now q db))"
proof (cases "leaseFromPool now q db")
  case (Pair db' r)
  then show ?thesis by (cases rule: leaseFromPool_cases) (auto simp: Pair grants_kept_def)
qed

lemma provision_grants: "grants_kept db (fst (provision is_hex canon maker now q db))"
proof (cases maker)
  case (Some mk)
  obtain db1 r where m: "make_wallet is_hex canon mk now db = (db1, r)" by fastforce
  note mc = make_wallet_cases [OF m]
  have db1: "pd_leases db1 = pd_leases db" using mc by auto
  have db2: "pd_leases db2 = pd_leases db" if "r = Inr (addr, db2)" for addr db2
    using mc that db1 by (auto simp: add_wallet_def split: if_splits)
  have l2: "grants_kept db (fst (leaseFromPool now x db2))" if "r = Inr (addr, db2)" for x addr db2
    using leaseFromPool_grants [of db2 now x] db2 [OF that] by (simp add: grants_kept_def)
  show ?thesis using leaseFromPool_grants [of db now] grants_kept_same [OF db1] grants_kept_same [OF db2] l2
    by (auto simp: provision_def Some m grants_kept_same split: option.splits sum.splits prod.splits) (metis fst_conv)+
qed (simp add: provision_def grants_kept_same)

lemma pool_exec_grants: "pool_exec is_hex canon opn db = Inr db' \<Longrightarrow> grants_kept db db'"
proof -
  have f: "grants_kept db db'" if "MarkLeaseFunded i db = Inr db'" for i
    using that by (auto simp: MarkLeaseFunded_def Let_def lease_grant_def intro!: grants_kept_update split: if_splits)
  have r: "grants_kept db db'" if "RetireLease lost now i reason db = Inr db'" for lost now i reason
    using that by (auto simp: RetireLease_def start_cooldown_def retire_lease_def Let_def lease_grant_def
      grants_kept_same intro!: grants_kept_update split: if_splits option.splits)
  assume "pool_exec is_hex canon opn db = Inr db'"
  then show ?thesis using f r leaseFromPool_grants [of db] provision_grants [of db]
    by (cases opn; cases "snd opn")
      (auto simp: pool_exec_def PutPoolSettings_def SetWalletStatus_def Let_def intro: grants_kept_same split: if_splits)
qed

lemma run_grants: "grants_kept db (run_ops (pool_exec is_hex canon) ops db)"
proof (induction ops arbitrary: db)
  case (Cons opn ops)
  have "grants_kept db (commit_op (pool_exec is_hex canon) opn db)"
    using pool_exec_grants [of is_hex canon opn db] by (auto simp: commit_op_def grants_kept_same split: sum.split)
  then show ?case using Cons.IH grants_kept_trans unfolding run_ops_simps by blast
qed (simp add: run_ops_simps grants_kept_same)

end
