(* ===== verification/Watcher_Props.thy ===== *)
theory Watcher_Props
  imports Wallet_Pool_Inv
begin

text \<open>
  The properties of the wallet pool of a watcher.
\<close>

section \<open>What \<open>Assign\<close> leaves\<close>

lemma next_gap_ok:
  "next_gap is_hex canon now gaps db = (now', gaps', db') \<Longrightarrow> pool_ok db \<Longrightarrow> pool_ok db'"
  by (cases gaps) (auto intro: wallet_pool.run_inv)

lemma leaseFromPool_leased:
  assumes "leaseFromPool now q db = (db', Some addr)"
  shows "\<exists>l. lease_by db' (lq_order q) = Some l \<and> ls_address l = addr"
  using assms
proof (cases rule: leaseFromPool_cases)
  case (2 w)
  then have "first_row (\<lambda>l. ls_order l = lq_order q) (pd_leases db) = None" by (auto simp: first_row_None)
  then show ?thesis using 2 by (auto simp: lease_by_def first_row_append)
qed simp

lemma GetByOrderID_lease: "GetByOrderID db i = Inr l \<Longrightarrow> lease_by db i = Some l"
  by (auto simp: GetByOrderID_def lease_by_def split: option.splits)

lemma assign_loop_leased:
  "pool_ok db \<Longrightarrow> assign_loop is_hex canon maker n q now gaps db = (db', Inr addr) \<Longrightarrow>
     pool_ok db' \<and> (\<exists>l. lease_by db' (lq_order q) = Some l \<and> ls_address l = addr)"
proof (induction n arbitrary: now gaps db)
  case (Suc n)
  note lq = leaseFromPool_ok leaseFromPool_leased and pv = pool_provision_ok [of _ is_hex canon maker _ "Some q"]
  obtain t1 g1 d1 where 1: "next_gap is_hex canon now gaps db = (t1, g1, d1)" by (metis prod_cases3)
  note ok1 = next_gap_ok [OF 1 Suc.prems(1)]
  show ?case
  proof (cases "leaseFromPool t1 q d1")
    case l1: (Pair e1 r1)
    have e1: "pool_ok e1" using lq(1) [OF ok1, of t1 q] by (simp add: l1)
    show ?thesis
    proof (cases r1)
      case (Some a)
      then show ?thesis using Suc.prems(2) 1 l1 e1 lq(2) [of t1 q d1 e1 a] by simp
    next
      case None
      obtain t2 g2 d2 where 2: "next_gap is_hex canon t1 g1 e1 = (t2, g2, d2)" by (metis prod_cases3)
      note ok2 = next_gap_ok [OF 2 e1]
      show ?thesis
      proof (cases "GetByOrderID d2 (lq_order q)")
        case (Inr l)
        then show ?thesis using Suc.prems(2) 1 l1 None 2 ok2 GetByOrderID_lease by auto
      next
        case (Inl e)
        obtain t3 g3 d3 where 3: "next_gap is_hex canon t2 g2 d2 = (t3, g3, d3)" by (metis prod_cases3)
        note ok3 = next_gap_ok [OF 3 ok2]
        obtain t4 g4 d4 where 4: "next_gap is_hex canon t3 g3 d3 = (t4, g4, d4)" by (metis prod_cases3)
        note ok4 = next_gap_ok [OF 4 ok3]
        have "pool_ok (fst (provision is_hex canon maker t4 (Some q) d4))" using pv [OF ok4] .
        then show ?thesis using Suc.prems(2) 1 l1 None 2 Inl 3 4 ok3 Suc.IH
          by (auto split: if_splits prod.splits sum.splits)
      qed
    qed
  qed
qed simp

lemma Assign_leased:
  assumes "pool_ok db" and "Assign is_hex canon maker q now gaps db = (db', Inr addr)"
  shows "pool_ok db' \<and> (\<exists>l. lease_by db' (lq_order q) = Some l \<and> ls_address l = addr)"
proof -
  obtain t g d where n: "next_gap is_hex canon now gaps db = (t, g, d)" by (metis prod_cases3)
  note ok = next_gap_ok [OF n assms(1)]
  show ?thesis
  proof (cases "GetByOrderID d (lq_order q)")
    case (Inl e)
    then have "assign_loop is_hex canon maker 5 q t g d = (db', Inr addr)"
      using assms(2) n by (simp add: Assign_def split: if_splits)
    from assign_loop_leased [OF ok this] show ?thesis .
  next
    case (Inr l)
    then show ?thesis using assms(2) n ok GetByOrderID_lease [OF Inr] by (auto simp: Assign_def split: if_splits)
  qed
qed

text \<open>Once the order has a lease, a call that gets as far as a read answers with it.\<close>

lemma Assign_again:
  assumes ok: "pool_ok db" and l: "lease_by db (lq_order q) = Some l"
    and r: "Assign is_hex canon (Some mk) q now gaps db = (db', r)"
  shows "r = Inr (ls_address l)"
proof -
  obtain t g d where n: "next_gap is_hex canon now gaps db = (t, g, d)" by (metis prod_cases3)
  have "terms_of db (lq_order q) = Some (lease_terms l)" using l by (simp add: terms_of_def)
  then have "terms_of d (lq_order q) = Some (lease_terms l)"
    using n lease_terms.run_keeps [OF ok, of "lq_order q" "lease_terms l"] by (cases gaps) (auto simp del: split_paired_All)
  then obtain l' where l': "lease_by d (lq_order q) = Some l'" "ls_address l' = ls_address l"
    by (auto simp: terms_of_def lease_terms_def)
  then have "GetByOrderID d (lq_order q) = Inr l'" by (simp add: lease_by_def GetByOrderID_def)
  then show ?thesis using r n l' by (simp add: Assign_def)
qed

section \<open>Properties\<close>

definition pool_reached :: "(string \<Rightarrow> bool) \<Rightarrow> (string \<Rightarrow> string) \<Rightarrow> (time \<times> pool_op) list \<Rightarrow> pool_db" where
  "pool_reached is_hex canon ops = run_ops (pool_exec is_hex canon) ops empty_pool"

lemmas pool_reached_ok = wallet_pool.run_inv [OF pool_ok_empty, folded pool_reached_def]

text \<open>C9: whatever calls were made, no wallet has two open leases, no order and no external id two leases,
  no index two wallets, and every lease stands on a wallet of the pool with the index of its lease.\<close>

theorem wallets_leased_once:
  "let db = pool_reached is_hex canon ops in
     distinct (map ls_address (ListActive db)) \<and>
     distinct (map ls_order (pd_leases db)) \<and> distinct (map ls_external (pd_leases db)) \<and>
     distinct (map pw_index (pd_wallets db)) \<and>
     {(ls_address l, ls_index l) | l. l \<in> set (pd_leases db)} \<subseteq> {(pw_address w, pw_index w) | w. w \<in> set (pd_wallets db)}"
proof -
  let ?db = "pool_reached is_hex canon ops"
  note ok = pool_reached_ok [of is_hex canon ops]
  have "mset (map ls_address (ListActive ?db)) = mset (map ls_address (filter (\<lambda>l. ls_status l \<noteq> Retired) (pd_leases ?db)))"
    by (simp add: ListActive_def)
  then have "distinct (map ls_address (ListActive ?db))"
    using ok by (metis (no_types, lifting) mset_eq_imp_distinct_iff pool_ok_def)
  moreover have "{(ls_address l, ls_index l) | l. l \<in> set (pd_leases ?db)} \<subseteq> {(pw_address w, pw_index w) | w. w \<in> set (pd_wallets ?db)}"
    using ok by (force simp: pool_ok_def lease_wallet_def)
  ultimately show ?thesis using ok by (simp add: pool_ok_def)
qed

text \<open>C20: the address \<open>Assign\<close> gives an order is a wallet of the pool, and every later \<open>Assign\<close> for that
  order answers with it, whatever is called between the two and between their statements.\<close>

theorem assigned_wallet_stays:
  assumes "Assign is_hex canon maker q now gaps (pool_reached is_hex canon before) = (db, Inr addr)"
    and "lq_order q' = lq_order q"
    and "Assign is_hex canon (Some mk) q' now' gaps' (run_ops (pool_exec is_hex canon) between db) = (db', r)"
  shows "r = Inr addr \<and> addr \<in> set (map pw_address (pd_wallets db))"
proof -
  obtain l where ok: "pool_ok db" and l: "lease_by db (lq_order q) = Some l" "ls_address l = addr"
    using Assign_leased [OF pool_reached_ok assms(1)] by blast
  have "terms_of (run_ops (pool_exec is_hex canon) between db) (lq_order q) = Some (lease_terms l)"
    using lease_terms.run_keeps [OF ok, of "lq_order q" "lease_terms l"] l(1) by (simp add: terms_of_def)
  then obtain l' where "lease_by (run_ops (pool_exec is_hex canon) between db) (lq_order q') = Some l'" "ls_address l' = addr"
    using l(2) assms(2) by (auto simp: terms_of_def lease_terms_def)
  then have "r = Inr addr" using Assign_again [OF wallet_pool.run_inv [OF ok] _ assms(3)] by blast
  moreover have "l \<in> set (pd_leases db)" using l(1) by (auto simp: lease_by_def dest: first_row_Some)
  then have "addr \<in> set (map pw_address (pd_wallets db))" using ok l(2) by (force simp: pool_ok_def lease_wallet_def)
  ultimately show ?thesis by blast
qed

text \<open>A pool with one wallet maker, and an order that asks for a wallet.\<close>

definition demo_maker :: wallet_maker where
  "demo_maker i = Inr (if i = 0 then ''w0'' else ''w1'')"

definition demo_request :: "int64 \<Rightarrow> string \<Rightarrow> lease_request" where
  "demo_request i ext = \<lparr>lq_order = i, lq_external = ext, lq_customer = ''c'', lq_quoted_at = 0, lq_quote_expires = seconds 900\<rparr>"

abbreviation demo_assign :: "int64 \<Rightarrow> string \<Rightarrow> time \<Rightarrow> gap list \<Rightarrow> pool_db \<Rightarrow> pool_db \<times> (pool_error + string)" where
  "demo_assign i ext now gaps db \<equiv> Assign (\<lambda>_. True) (\<lambda>a. a) (Some demo_maker) (demo_request i ext) now gaps db"

theorem assigned_wallet_stays_witness:
  "snd (demo_assign 7 ''x7'' (seconds 5) []
     (run_ops (pool_exec (\<lambda>_. True) (\<lambda>a. a)) [(seconds 2, FundOp 7), (seconds 4, RetireOp False 7 ''settled'')]
       (fst (demo_assign 7 ''x7'' (seconds 1) [] empty_pool)))) = Inr ''w0''"
proof -
  let ?d = "fst (demo_assign 7 ''x7'' (seconds 1) [] (pool_reached (\<lambda>_. True) (\<lambda>a. a) []))"
  let ?o = "[(seconds 2, FundOp 7), (seconds 4, RetireOp False 7 ''settled'')]"
  have 1: "demo_assign 7 ''x7'' (seconds 1) [] (pool_reached (\<lambda>_. True) (\<lambda>a. a) []) = (?d, Inr ''w0'')" by code_simp
  have q: "lq_order (demo_request 7 ''x7'') = lq_order (demo_request 7 ''x7'')" ..
  have e: "pool_reached (\<lambda>_. True) (\<lambda>a. a) [] = empty_pool" by code_simp
  obtain d' r where 2: "demo_assign 7 ''x7'' (seconds 5) [] (run_ops (pool_exec (\<lambda>_. True) (\<lambda>a. a)) ?o ?d) = (d', r)"
    by fastforce
  from assigned_wallet_stays [OF 1 q 2] show ?thesis using 2 unfolding e by simp
qed

text \<open>C14: with cool-downs of at least the tolerance, retirements that are not cut short and a clock that
  does not go back, the lease found for a deposit is the one that was open in the deposit's block: a
  late payment is never taken for the next customer's.\<close>

theorem deposit_finds_its_lease:
  assumes "sorted (map fst ops)" and "list_all (long_enough \<circ> snd) ops"
    and "l \<in> set (pd_leases (pool_reached is_hex canon ops))" and "ls_address l = canon addr"
    and "ls_assigned_at l \<le> pg_time (block + leaseTimeTolerance)" and "\<forall>t. ls_retired_at l = Some t \<longrightarrow> block < t"
  shows "LeaseAt canon (pool_reached is_hex canon ops) addr block = Some l"
proof -
  have "sorted ((if ops = [] then 0 else fst (hd ops)) # map fst ops)" using assms(1) by (cases ops) auto
  from run_spaced [OF pool_ok_empty spaced_empty this assms(2)]
  obtain T where "spaced T (pool_reached is_hex canon ops)" by (auto simp: pool_reached_def)
  then show ?thesis using assms(3-6) by (rule LeaseAt_exact)
qed

definition demo_two_leases :: "(time \<times> pool_op) list" where
  "demo_two_leases = [(seconds 10, ProvisionOp (Some demo_maker) (Some (demo_request 7 ''x7''))),
     (seconds 1000, RetireOp False 7 ''expired''), (seconds 30000, LeaseOp (demo_request 8 ''x8''))]"

theorem deposit_finds_its_lease_witness:
  "map_option ls_order (LeaseAt (\<lambda>a. a) (pool_reached (\<lambda>_. True) (\<lambda>a. a) demo_two_leases) ''w0'' (seconds 999)) = Some 7"
proof -
  let ?db = "pool_reached (\<lambda>_. True) (\<lambda>a. a) demo_two_leases" and ?l = "hd (pd_leases (pool_reached (\<lambda>_. True) (\<lambda>a. a) demo_two_leases))"
  have h: "sorted (map fst demo_two_leases)" "list_all (long_enough \<circ> snd) demo_two_leases" by code_simp+
  have n: "pd_leases ?db \<noteq> []" and a: "ls_address ?l = ''w0''" and
    b: "ls_assigned_at ?l \<le> pg_time (seconds 999 + leaseTimeTolerance)" and
    c: "ls_retired_at ?l = Some (seconds 1000)" "ls_order ?l = 7" "seconds 999 < seconds 1000" by code_simp+
  from n have l: "?l \<in> set (pd_leases ?db)" by (rule hd_in_set)
  have "LeaseAt (\<lambda>a. a) ?db ''w0'' (seconds 999) = Some ?l"
    by (rule deposit_finds_its_lease [OF h l a b]) (use c in simp)
  then show ?thesis using c by simp
qed

text \<open>C39: a retirement cut short after its first statement is never finished: each retry of it changes
  nothing, so the wallet can be leased again at once, without the cool-down that a whole retirement
  starts.\<close>

theorem retire_cut_skips_cooldown:
  assumes ok: "db = pool_reached is_hex canon ops" and w: "w \<in> set (pd_wallets db)" "pw_active w" "pw_available_after w \<le> now"
    and l: "l \<in> set (pd_leases db)" "ls_order l = i" "ls_address l = pw_address w" "ls_status l \<noteq> Retired"
    and r: "reason \<noteq> ''''" "reason' \<noteq> ''''" "RetireLease True now i reason db = Inr db'"
  shows "RetireLease lost now' i reason' db' = Inr db' \<and> eligible now db' w \<and>
    (\<forall>db2. RetireLease False now i reason db = Inr db2 \<longrightarrow> (\<forall>v \<in> set (pd_wallets db2). pw_address v = pw_address w \<longrightarrow>
       pw_available_after v = now +
         (if reason = ''expired'' then ps_after_expiry (GetPoolSettings db) else ps_after_use (GetPoolSettings db))))"
proof -
  have ok: "pool_ok db" unfolding ok by (rule pool_reached_ok)
  have same: "k = l" if "k \<in> set (pd_leases db)" "ls_order k = i" for k
    using that l ok by (auto simp: pool_ok_def distinct_map inj_on_def)
  obtain k where k: "first_row (\<lambda>l. ls_order l = i \<and> ls_status l \<noteq> Retired) (pd_leases db) = Some k"
    using l by (cases "first_row (\<lambda>l. ls_order l = i \<and> ls_status l \<noteq> Retired) (pd_leases db)") (auto simp: first_row_None)
  then have k': "first_row (\<lambda>l. ls_order l = i \<and> ls_status l \<noteq> Retired) (pd_leases db) = Some l"
    using same first_row_Some [OF k] by auto
  then have db': "db' = retire_lease now i reason db" using r by (simp add: RetireLease_def)
  let ?f = "\<lambda>l. if ls_order l = i \<and> ls_status l \<noteq> Retired
      then l\<lparr>ls_status := Retired, ls_retired_at := Some now, ls_reason := Some reason\<rparr> else l"
  have leases: "pd_leases db' = map ?f (pd_leases db)" by (simp add: db' retire_lease_def update_rows_def)
  have none: "first_row (\<lambda>l. ls_order l = i \<and> ls_status l \<noteq> Retired) (pd_leases db') = None"
    unfolding leases first_row_None by (simp add: ball_Un)
  have "?f l \<in> set (pd_leases db')" "ls_order (?f l) = i" using l by (auto simp: leases)
  then have "\<exists>m. GetByOrderID db' i = Inr m"
    by (cases "first_row (\<lambda>l. ls_order l = i) (pd_leases db')") (auto simp: GetByOrderID_def first_row_None)
  then have again: "RetireLease lost now' i reason' db' = Inr db'" using r(2) none by (auto simp: RetireLease_def)
  have "\<not> open_lease (pd_leases db') (pw_address w)"
  proof
    assume "open_lease (pd_leases db') (pw_address w)"
    then obtain m where m: "m \<in> set (pd_leases db)" "ls_address (?f m) = pw_address w" "ls_status (?f m) \<noteq> Retired"
      unfolding leases open_lease_def by (auto simp: list_ex_iff)
    then have "ls_order m \<noteq> i" "ls_status m \<noteq> Retired" "ls_address m = ls_address l"
      using l(3) by (auto split: if_splits)
    moreover have "inj_on ls_address {l \<in> set (pd_leases db). ls_status l \<noteq> Retired}"
      using ok by (simp add: pool_ok_def distinct_map)
    ultimately have "m = l" using m(1) l by (simp add: inj_on_def)
    then show False using l(2) \<open>ls_order m \<noteq> i\<close> by simp
  qed
  then have "eligible now db' w" using w by (simp add: eligible_def)
  then show ?thesis using again k' l(3) r(1)
    by (auto simp: RetireLease_def start_cooldown_def retire_lease_def set_update_rows GetPoolSettings_def)
qed

theorem retire_cut_skips_cooldown_witness:
  "let db = pool_reached (\<lambda>_. True) (\<lambda>a. a) (take 1 demo_two_leases) in
     eligible (seconds 1000) (projr (RetireLease True (seconds 1000) 7 ''expired'' db)) (hd (pd_wallets db))"
proof -
  let ?db = "pool_reached (\<lambda>_. True) (\<lambda>a. a) (take 1 demo_two_leases)"
  let ?w = "hd (pd_wallets ?db)" and ?l = "hd (pd_leases ?db)"
  have n: "pd_leases ?db \<noteq> []" "pd_wallets ?db \<noteq> []" by code_simp+
  have w: "pw_active ?w" "pw_available_after ?w \<le> seconds 1000" by code_simp+
  have l: "ls_order ?l = 7" "ls_address ?l = pw_address ?w" "ls_status ?l \<noteq> Retired" by code_simp+
  have "\<not> isl (RetireLease True (seconds 1000) 7 ''expired'' ?db)" by code_simp
  then obtain db' where r: "RetireLease True (seconds 1000) 7 ''expired'' ?db = Inr db'"
    by (cases "RetireLease True (seconds 1000) 7 ''expired'' ?db") simp_all
  have "eligible (seconds 1000) db' ?w"
    using retire_cut_skips_cooldown [OF refl hd_in_set [OF n(2)] w hd_in_set [OF n(1)] l _ _ r, of "''expired''" True 0] by simp
  then show ?thesis unfolding Let_def r by simp
qed

end
