(* ===== verification/Sign_Keys.thy ===== *)
theory Sign_Keys
  imports Ledger_Schema Store
begin

text \<open>
  The keys of the signing service S1: how a raw signature becomes one that the chains accept
  (\<open>s1/internal/kmssign/wrapper.go\<close>) and the registry of the payout slots
  (\<open>s1/internal/slots/slots.go\<close>, migration 0002).

  The library of the curve is the record \<open>curve\<close>: parsing a public key, parsing a DER signature and
  recovering the public key behind a signature, each of which may fail. The key store (cloud KMS, Privy,
  or a key in memory) answers anything.
\<close>

section \<open>Signatures\<close>

type_synonym scalar = "256 word"

record 'p curve =
  cu_parse :: "string \<Rightarrow> 'p option"
  cu_der :: "string \<Rightarrow> (scalar \<times> scalar) option"
  cu_recover :: "scalar \<Rightarrow> scalar \<Rightarrow> nat \<Rightarrow> string \<Rightarrow> 'p option"
  cu_tron_address :: "'p \<Rightarrow> string"
  cu_evm_address :: "'p \<Rightarrow> string"

definition curveOrder :: int where
  "curveOrder = 115792089237316195423570985008687907852837564279074904382605163141518161494337"

record signature =
  sg_r :: scalar
  sg_s :: scalar
  sg_v :: nat

datatype sign_error =
    ErrKms string | ErrMalformedSignature | ErrMalformedPublicKey | ErrSignatureDoesNotMatchKey
  | ErrSlotNotFound | ErrDepositSigningNotConfigured | ErrTronDepositSigningNotConfigured | ErrNoKey

text \<open>The half of the two equivalent signatures with the small \<open>s\<close>.\<close>

definition low_s :: "scalar \<Rightarrow> scalar" where
  "low_s s = (if curveOrder div 2 < uint s then word_of_int (curveOrder - uint s) else s)"

definition finishRecoverableSignatureRS ::
  "'p curve \<Rightarrow> scalar \<Rightarrow> scalar \<Rightarrow> string \<Rightarrow> string \<Rightarrow> sign_error + signature" where
  "finishRecoverableSignatureRS cv r s digest pub =
     (if curveOrder \<le> uint r then Inl ErrMalformedSignature
      else if curveOrder \<le> uint s then Inl ErrMalformedSignature
      else (case cu_parse cv pub of
          None \<Rightarrow> Inl ErrMalformedPublicKey
        | Some expected \<Rightarrow>
          (case find (\<lambda>v. cu_recover cv r (low_s s) v digest = Some expected) [0, 1] of
             None \<Rightarrow> Inl ErrSignatureDoesNotMatchKey
           | Some v \<Rightarrow> Inr \<lparr>sg_r = r, sg_s = low_s s, sg_v = v\<rparr>)))"

definition finishRecoverableSignature ::
  "'p curve \<Rightarrow> string \<Rightarrow> string \<Rightarrow> string \<Rightarrow> sign_error + signature" where
  "finishRecoverableSignature cv der digest pub =
     (case cu_der cv der of
        None \<Rightarrow> Inl ErrMalformedSignature | Some (r, s) \<Rightarrow> finishRecoverableSignatureRS cv r s digest pub)"

text \<open>What a key store answers: an error, a DER signature, or the bare \<open>r\<close> and \<open>s\<close> that Privy returns.\<close>

datatype key_answer = KeyFails string | Der string | RS scalar scalar

definition KeySign :: "'p curve \<Rightarrow> key_answer \<Rightarrow> string \<Rightarrow> string \<Rightarrow> sign_error + signature" where
  "KeySign cv answer digest pub =
     (case answer of
        KeyFails e \<Rightarrow> Inl (ErrKms e)
      | Der der \<Rightarrow> finishRecoverableSignature cv der digest pub
      | RS r s \<Rightarrow> finishRecoverableSignatureRS cv r s digest pub)"

text \<open>A signature a chain accepts for a key: canonical, and it recovers to the key over the digest.\<close>

definition signature_of :: "'p curve \<Rightarrow> string \<Rightarrow> string \<Rightarrow> signature \<Rightarrow> bool" where
  "signature_of cv pub digest sg \<longleftrightarrow>
     uint (sg_r sg) < curveOrder \<and> uint (sg_s sg) \<le> curveOrder div 2 \<and> sg_v sg \<le> 1 \<and>
     cu_parse cv pub \<noteq> None \<and> cu_recover cv (sg_r sg) (sg_s sg) (sg_v sg) digest = cu_parse cv pub"

lemma low_s_half: "uint s < curveOrder \<Longrightarrow> uint (low_s s) \<le> curveOrder div 2"
proof -
  assume s: "uint s < curveOrder"
  have "uint (word_of_int (curveOrder - uint s) :: scalar) = curveOrder - uint s"
  proof -
    have "curveOrder - uint s < 2 ^ LENGTH(256)" by (simp add: curveOrder_def) (use uint_ge_0 [of s] in linarith)
    then show ?thesis using s by (simp add: uint_word_of_int take_bit_int_eq_self del: of_int_diff)
  qed
  then show ?thesis using s by (auto simp: low_s_def curveOrder_def)
qed

lemma finish_signature_of:
  assumes "finishRecoverableSignatureRS cv r s digest pub = Inr sg"
  shows "signature_of cv pub digest sg"
  using assms low_s_half [of s]
  by (auto simp: finishRecoverableSignatureRS_def signature_of_def split: if_splits option.splits)

lemma KeySign_signature_of: "KeySign cv answer digest pub = Inr sg \<Longrightarrow> signature_of cv pub digest sg"
  by (auto simp: KeySign_def finishRecoverableSignature_def intro: finish_signature_of
      split: key_answer.splits option.splits prod.splits)

section \<open>Slots\<close>

record slot_key =
  sk_slot :: int
  sk_kms :: string
  sk_tron :: string
  sk_pub :: string
  sk_active :: bool
  sk_created_at :: time
  sk_retired_at :: "time option"

datatype slot_error = ErrDuplicateSlot | SlotNotFound | ErrAlreadyRetired | ErrPublicKey | ErrSlotColumn

definition fits_smallint :: "int \<Rightarrow> bool" where
  "fits_smallint n \<longleftrightarrow> - 32768 \<le> n \<and> n \<le> 32767"

definition GetSlot :: "slot_key list \<Rightarrow> int \<Rightarrow> slot_error + slot_key" where
  "GetSlot rows slot = (case first_row (\<lambda>k. sk_slot k = slot) rows of None \<Rightarrow> Inl SlotNotFound | Some k \<Rightarrow> Inr k)"

text \<open>\<open>pub\<close> is the key store's answer for the public key.\<close>

definition RegisterSlot ::
  "'p curve \<Rightarrow> time \<Rightarrow> int \<Rightarrow> string \<Rightarrow> string option \<Rightarrow> slot_key list \<Rightarrow> slot_error + slot_key list" where
  "RegisterSlot cv now slot kms pub rows =
     (case pub of
        None \<Rightarrow> Inl ErrPublicKey
      | Some compressed \<Rightarrow>
        (case cu_parse cv compressed of
           None \<Rightarrow> Inl ErrPublicKey
         | Some p \<Rightarrow>
           if \<not> fits_smallint slot then Inl ErrSlotColumn
           else if list_ex (\<lambda>k. sk_slot k = slot \<or> sk_kms k = kms \<or> sk_tron k = cu_tron_address cv p) rows
           then Inl ErrDuplicateSlot
           else Inr (rows @ [\<lparr>sk_slot = slot, sk_kms = kms, sk_tron = cu_tron_address cv p, sk_pub = compressed,
             sk_active = True, sk_created_at = now, sk_retired_at = None\<rparr>])))"

definition RetireSlot :: "time \<Rightarrow> int \<Rightarrow> slot_key list \<Rightarrow> slot_error + slot_key list" where
  "RetireSlot now slot rows =
     rbind (GetSlot rows slot) (\<lambda>k.
     if \<not> sk_active k then Inl ErrAlreadyRetired
     else Inr (update_rows (\<lambda>k. sk_slot k = slot) (\<lambda>k. k\<lparr>sk_active := False, sk_retired_at := Some now\<rparr>) rows))"

definition SlotEVMAddress :: "'p curve \<Rightarrow> slot_key list \<Rightarrow> int \<Rightarrow> slot_error + string" where
  "SlotEVMAddress cv rows slot =
     rbind (GetSlot rows slot) (\<lambda>k.
     case cu_parse cv (sk_pub k) of None \<Rightarrow> Inl ErrPublicKey | Some p \<Rightarrow> Inr (cu_evm_address cv p))"

text \<open>The public key of a slot, once registered, stays.\<close>

definition slot_pub :: "slot_key list \<Rightarrow> int \<Rightarrow> string option" where
  "slot_pub rows slot = map_option sk_pub (first_row (\<lambda>k. sk_slot k = slot) rows)"

lemma slot_pub_Get: "GetSlot rows slot = Inr k \<Longrightarrow> slot_pub rows slot = Some (sk_pub k)"
  by (auto simp: GetSlot_def slot_pub_def split: option.splits)

lemma RegisterSlot_keeps:
  "RegisterSlot cv now slot' kms pub rows = Inr rows' \<Longrightarrow> slot_pub rows slot = Some p \<Longrightarrow> slot_pub rows' slot = Some p"
  by (auto simp: RegisterSlot_def slot_pub_def first_row_append split: option.splits if_splits)

lemma RetireSlot_keeps:
  "RetireSlot now slot' rows = Inr rows' \<Longrightarrow> slot_pub rows slot = Some p \<Longrightarrow> slot_pub rows' slot = Some p"
  by (auto simp: RetireSlot_def slot_pub_def rbind_Inr_iff first_row_update_key split: if_splits)

end
