(* ===== verification/Signing.thy ===== *)
theory Signing
  imports Complex_Main Sign_Keys
begin

text \<open>
  The signing requests of S1 (\<open>s1/internal/requests/store.go\<close>, \<open>requests.go\<close>, migrations 0003 to
  0006): a transaction below a threshold is signed at once, one at or above it after two approvals.

  \<^item> A call is a sequence of statements, and several calls are under way at a time. What a call has
    left to do is a \<open>pc\<close>: the statement it is at with the variables it holds. \<open>call_step\<close> runs one
    statement. A statement is answered, fails without an effect, or has its effect and is not heard.
  \<^item> \<open>s1_sys\<close> is the database, the slots, the calls under way, and the signatures the key store has given.
    \<open>s1_exec\<close> starts a call, lets one take its next step, or changes the slots.
  \<^item> The lock that makes calls of one idempotency key wait for each other is left out: every order of
    steps it allows is one of those here.
\<close>

section \<open>Requests\<close>

text \<open>A \<open>float64\<close> compares like its number; a NaN is not at or above anything.\<close>

datatype usd = NaN | NegInf | Usd rat | PosInf

fun usd_ge :: "usd \<Rightarrow> usd \<Rightarrow> bool" where
  "usd_ge NaN _ = False"
| "usd_ge _ NaN = False"
| "usd_ge PosInf _ = True"
| "usd_ge _ NegInf = True"
| "usd_ge NegInf _ = False"
| "usd_ge _ PosInf = False"
| "usd_ge (Usd a) (Usd b) = (b \<le> a)"

record key_ref =
  kr_slot :: "int option"
  kr_bsc :: "32 word option"
  kr_tron :: "32 word option"

definition slot_ref :: "int \<Rightarrow> key_ref" where "slot_ref n = \<lparr>kr_slot = Some n, kr_bsc = None, kr_tron = None\<rparr>"

definition bsc_ref :: "32 word \<Rightarrow> key_ref" where "bsc_ref i = \<lparr>kr_slot = None, kr_bsc = Some i, kr_tron = None\<rparr>"

definition tron_ref :: "32 word \<Rightarrow> key_ref" where "tron_ref i = \<lparr>kr_slot = None, kr_bsc = None, kr_tron = Some i\<rparr>"

definition sameKeyRef :: "key_ref \<Rightarrow> key_ref \<Rightarrow> bool" where
  "sameKeyRef a b \<longleftrightarrow> kr_slot a = kr_slot b \<and> kr_bsc a = kr_bsc b \<and> kr_tron a = kr_tron b"

datatype sign_status = SPending | SSigned | SRejected

record sreq =
  sr_id :: int
  sr_key :: string
  sr_ref :: key_ref
  sr_digest :: string
  sr_usd :: usd
  sr_status :: sign_status
  sr_tx :: "signature option"
  sr_created_at :: time

record audit_row =
  au_request :: int
  au_ref :: key_ref
  au_digest :: string
  au_approvers :: "string list option"

datatype decision = APPROVE | REJECT

record approval =
  ap_request :: int
  ap_approver :: string
  ap_decision :: decision

record sign_db =
  sd_requests :: "sreq list"
  sd_req_seq :: int
  sd_audit :: "audit_row list"
  sd_approvals :: "approval list"

definition empty_sign_db :: sign_db where
  "empty_sign_db = \<lparr>sd_requests = [], sd_req_seq = 0, sd_audit = [], sd_approvals = []\<rparr>"

record signing_request =
  sq_id :: int
  sq_status :: sign_status
  sq_tx :: "signature option"
  sq_created_at :: time

definition scanRequest :: "sreq \<Rightarrow> signing_request" where
  "scanRequest r = \<lparr>sq_id = sr_id r, sq_status = sr_status r, sq_tx = sr_tx r, sq_created_at = sr_created_at r\<rparr>"

datatype request_error =
    ErrRequestNotFound | ErrRequestAlreadyResolved | ErrKeyReused | ErrSign sign_error | ErrUnavailable | ErrRequestColumn

section \<open>Statements\<close>

definition insert_row :: "time \<Rightarrow> key_ref \<Rightarrow> string \<Rightarrow> usd \<Rightarrow> string \<Rightarrow> sign_db \<Rightarrow> sign_db \<times> sreq" where
  "insert_row now ref digest usd key db =
     (let i = sd_req_seq db + 1;
          r = \<lparr>sr_id = i, sr_key = key, sr_ref = ref, sr_digest = digest, sr_usd = usd, sr_status = SPending,
               sr_tx = None, sr_created_at = now\<rparr> in
      (db\<lparr>sd_requests := sd_requests db @ [r], sd_req_seq := i\<rparr>, r))"

definition getByIdempotencyKey :: "sign_db \<Rightarrow> string \<Rightarrow> request_error + signing_request" where
  "getByIdempotencyKey db key =
     (case first_row (\<lambda>r. sr_key r = key) (sd_requests db) of
        None \<Rightarrow> Inl ErrRequestNotFound | Some r \<Rightarrow> Inr (scanRequest r))"

definition GetSignature :: "sign_db \<Rightarrow> int \<Rightarrow> request_error + signing_request" where
  "GetSignature db i =
     (case first_row (\<lambda>r. sr_id r = i) (sd_requests db) of
        None \<Rightarrow> Inl ErrRequestNotFound | Some r \<Rightarrow> Inr (scanRequest r))"

record request_detail =
  rd_ref :: key_ref
  rd_digest :: string
  rd_status :: sign_status
  rd_usd :: usd

definition getPendingDetail :: "sign_db \<Rightarrow> int \<Rightarrow> request_error + request_detail" where
  "getPendingDetail db i =
     (case first_row (\<lambda>r. sr_id r = i) (sd_requests db) of
        None \<Rightarrow> Inl ErrRequestNotFound
      | Some r \<Rightarrow> Inr \<lparr>rd_ref = sr_ref r, rd_digest = sr_digest r, rd_status = sr_status r, rd_usd = sr_usd r\<rparr>)"

definition ListPending :: "sign_db \<Rightarrow> sreq list" where
  "ListPending db = sort_key sr_created_at (filter (\<lambda>r. sr_status r = SPending) (sd_requests db))"

definition approversFor :: "sign_db \<Rightarrow> int \<Rightarrow> decision \<Rightarrow> string list" where
  "approversFor db i d = sort (map ap_approver (filter (\<lambda>a. ap_request a = i \<and> ap_decision a = d) (sd_approvals db)))"

definition record_decision :: "int \<Rightarrow> string \<Rightarrow> decision \<Rightarrow> sign_db \<Rightarrow> sign_db" where
  "record_decision i who d db =
     (if list_ex (\<lambda>a. ap_request a = i \<and> ap_approver a = who) (sd_approvals db) then db
      else db\<lparr>sd_approvals := sd_approvals db @ [\<lparr>ap_request = i, ap_approver = who, ap_decision = d\<rparr>]\<rparr>)"

definition requiredApprovals :: nat where "requiredApprovals = 2"

text \<open>The transaction that ends \<open>signAndRecord\<close>; the flag is \<open>alreadyDone\<close>.\<close>

definition record_signed ::
  "int \<Rightarrow> key_ref \<Rightarrow> string \<Rightarrow> string list option \<Rightarrow> signature \<Rightarrow> sign_db \<Rightarrow> sign_db \<times> bool" where
  "record_signed i ref digest approvers sg db =
     (let p = (\<lambda>r. sr_id r = i \<and> sr_status r = SPending) in
      if affected p (sd_requests db) = 0 then (db, True)
      else (db\<lparr>sd_requests := update_rows p (\<lambda>r. r\<lparr>sr_status := SSigned, sr_tx := Some sg\<rparr>) (sd_requests db),
              sd_audit := sd_audit db @ [\<lparr>au_request = i, au_ref = ref, au_digest = digest, au_approvers = approvers\<rparr>]\<rparr>,
            False))"

definition mark_rejected :: "int \<Rightarrow> sign_db \<Rightarrow> sign_db" where
  "mark_rejected i db =
     db\<lparr>sd_requests := update_rows (\<lambda>r. sr_id r = i \<and> sr_status r = SPending) (\<lambda>r. r\<lparr>sr_status := SRejected\<rparr>) (sd_requests db)\<rparr>"

section \<open>Keys\<close>

text \<open>What S1 is started with. A missing deposit key is \<open>None\<close>; the public key of a deposit index is what
  its key says, always the same.\<close>

record 'p s1_env =
  se_curve :: "'p curve"
  se_threshold :: usd
  se_bsc :: "(32 word \<Rightarrow> string + string) option"
  se_tron :: "(32 word \<Rightarrow> string + string) option"

definition deposit_pub :: "sign_error \<Rightarrow> (32 word \<Rightarrow> string + string) option \<Rightarrow> 32 word \<Rightarrow> sign_error + string" where
  "deposit_pub missing keys i =
     (case keys of None \<Rightarrow> Inl missing | Some pub \<Rightarrow> (case pub i of Inl e \<Rightarrow> Inl (ErrKms e) | Inr p \<Rightarrow> Inr p))"

definition slot_pub_for_signing :: "'p curve \<Rightarrow> slot_key list \<Rightarrow> int \<Rightarrow> sign_error + string" where
  "slot_pub_for_signing cv slots n =
     (case GetSlot slots n of
        Inl _ \<Rightarrow> Inl ErrSlotNotFound
      | Inr k \<Rightarrow> if cu_parse cv (sk_pub k) = None then Inl ErrMalformedPublicKey else Inr (sk_pub k))"

definition pub_for :: "'p s1_env \<Rightarrow> slot_key list \<Rightarrow> key_ref \<Rightarrow> sign_error + string" where
  "pub_for ev slots ref =
     (case kr_slot ref of
        Some n \<Rightarrow> slot_pub_for_signing (se_curve ev) slots n
      | None \<Rightarrow>
        (case kr_bsc ref of
           Some i \<Rightarrow> deposit_pub ErrDepositSigningNotConfigured (se_bsc ev) i
         | None \<Rightarrow>
           (case kr_tron ref of
              Some i \<Rightarrow> deposit_pub ErrTronDepositSigningNotConfigured (se_tron ev) i
            | None \<Rightarrow> Inl ErrNoKey)))"

definition signWith :: "'p s1_env \<Rightarrow> slot_key list \<Rightarrow> key_answer \<Rightarrow> key_ref \<Rightarrow> string \<Rightarrow> sign_error + signature" where
  "signWith ev slots answer ref digest =
     rbind (pub_for ev slots ref) (\<lambda>pub. KeySign (se_curve ev) answer digest pub)"

section \<open>Calls\<close>

datatype s1_call =
    RequestSignature int string usd string
  | RequestDepositSweepSignature "32 word" string usd string
  | RequestTronDepositSweepSignature "32 word" string usd string
  | Approve int string
  | Reject int string

datatype pc =
    AtInsert key_ref string usd string
  | AtExisting key_ref string string
  | AtResume signing_request key_ref string
  | AtSign int key_ref string "string list option"
  | AtRecord int key_ref string "string list option" signature
  | AtGet int
  | AtApprove int string
  | AtVote int string request_detail
  | AtCount int request_detail
  | AtReject int string
  | AtVeto int string
  | AtMark int
  | Returned "request_error + signing_request"

definition start_call :: "'p s1_env \<Rightarrow> s1_call \<Rightarrow> pc" where
  "start_call ev call =
     (case call of
        RequestSignature n digest usd key \<Rightarrow> AtInsert (slot_ref n) digest usd key
      | RequestDepositSweepSignature i digest usd key \<Rightarrow>
        if se_bsc ev = None then Returned (Inl (ErrSign ErrDepositSigningNotConfigured)) else AtInsert (bsc_ref i) digest usd key
      | RequestTronDepositSweepSignature i digest usd key \<Rightarrow>
        if se_tron ev = None then Returned (Inl (ErrSign ErrTronDepositSigningNotConfigured))
        else AtInsert (tron_ref i) digest usd key
      | Approve i who \<Rightarrow> AtApprove i who
      | Reject i who \<Rightarrow> AtReject i who)"

text \<open>The next statement of a call: the database after it and what is left to do. A column the row
  cannot hold makes the insert fail.\<close>

fun call_step :: "'p s1_env \<Rightarrow> slot_key list \<Rightarrow> time \<Rightarrow> key_answer \<Rightarrow> pc \<Rightarrow> sign_db \<Rightarrow> sign_db \<times> pc" where
  "call_step ev slots now answer (AtInsert ref digest usd key) db =
     (if (case kr_slot ref of None \<Rightarrow> False | Some n \<Rightarrow> \<not> fits_smallint n) then (db, Returned (Inl ErrRequestColumn))
      else if list_ex (\<lambda>r. sr_key r = key) (sd_requests db) then (db, AtExisting ref digest key)
      else (case insert_row now ref digest usd key db of (db', r) \<Rightarrow>
        (db', if usd_ge usd (se_threshold ev) then Returned (Inr (scanRequest r)) else AtSign (sr_id r) ref digest None)))"
| "call_step ev slots now answer (AtExisting ref digest key) db =
     (db, case getByIdempotencyKey db key of Inl e \<Rightarrow> Returned (Inl e)
        | Inr req \<Rightarrow> if sq_status req \<noteq> SPending then Returned (Inr req) else AtResume req ref digest)"
| "call_step ev slots now answer (AtResume req ref digest) db =
     (db, case getPendingDetail db (sq_id req) of Inl e \<Rightarrow> Returned (Inl e)
        | Inr d \<Rightarrow>
          if rd_status d \<noteq> SPending \<or> usd_ge (rd_usd d) (se_threshold ev) then Returned (Inr req)
          else if rd_digest d \<noteq> digest \<or> \<not> sameKeyRef (rd_ref d) ref then Returned (Inl ErrKeyReused)
          else AtSign (sq_id req) (rd_ref d) (rd_digest d) None)"
| "call_step ev slots now answer (AtSign i ref digest approvers) db =
     (db, case signWith ev slots answer ref digest of Inl e \<Rightarrow> Returned (Inl (ErrSign e))
        | Inr sg \<Rightarrow> AtRecord i ref digest approvers sg)"
| "call_step ev slots now answer (AtRecord i ref digest approvers sg) db =
     (case record_signed i ref digest approvers sg db of
        (db', True) \<Rightarrow> (db', AtGet i)
      | (db', False) \<Rightarrow> (db', Returned (Inr \<lparr>sq_id = i, sq_status = SSigned, sq_tx = Some sg, sq_created_at = 0\<rparr>)))"
| "call_step ev slots now answer (AtGet i) db = (db, Returned (GetSignature db i))"
| "call_step ev slots now answer (AtApprove i who) db =
     (db, case getPendingDetail db i of Inl e \<Rightarrow> Returned (Inl e)
        | Inr d \<Rightarrow> if rd_status d \<noteq> SPending then Returned (Inl ErrRequestAlreadyResolved) else AtVote i who d)"
| "call_step ev slots now answer (AtVote i who d) db = (record_decision i who APPROVE db, AtCount i d)"
| "call_step ev slots now answer (AtCount i d) db =
     (db, let approvers = approversFor db i APPROVE in
        if length approvers < requiredApprovals then AtGet i else AtSign i (rd_ref d) (rd_digest d) (Some approvers))"
| "call_step ev slots now answer (AtReject i who) db =
     (db, case getPendingDetail db i of Inl e \<Rightarrow> Returned (Inl e)
        | Inr d \<Rightarrow>
          if rd_status d = SRejected then AtGet i
          else if rd_status d \<noteq> SPending then Returned (Inl ErrRequestAlreadyResolved) else AtVeto i who)"
| "call_step ev slots now answer (AtVeto i who) db = (record_decision i who REJECT db, AtMark i)"
| "call_step ev slots now answer (AtMark i) db = (mark_rejected i db, AtGet i)"
| "call_step ev slots now answer (Returned r) db = (db, Returned r)"

section \<open>The service\<close>

record s1_sys =
  ss_db :: sign_db
  ss_slots :: "slot_key list"
  ss_calls :: "pc list"
  ss_given :: "(key_ref \<times> string \<times> signature) list"

datatype s1_fault = Answered_stmt | Failed_stmt | Unheard_stmt

datatype s1_event =
    Call s1_call
  | Step nat time key_answer s1_fault
  | Register time int string "string option"
  | Retire time int

definition given_by :: "pc \<Rightarrow> pc \<Rightarrow> (key_ref \<times> string \<times> signature) list" where
  "given_by c c' =
     (case (c, c') of (AtSign _ ref digest _, AtRecord _ _ _ _ sg) \<Rightarrow> [(ref, digest, sg)] | _ \<Rightarrow> [])"

definition s1_exec :: "'p s1_env \<Rightarrow> s1_event \<Rightarrow> s1_sys \<Rightarrow> slot_error + s1_sys" where
  "s1_exec ev event s =
     (case event of
        Call c \<Rightarrow> Inr (s\<lparr>ss_calls := ss_calls s @ [start_call ev c]\<rparr>)
      | Step n now answer fault \<Rightarrow>
        if length (ss_calls s) \<le> n then Inr s
        else
          (let c = ss_calls s ! n in
           case call_step ev (ss_slots s) now answer c (ss_db s) of (db', c') \<Rightarrow>
           Inr (case fault of
                  Answered_stmt \<Rightarrow> s\<lparr>ss_db := db', ss_calls := (ss_calls s)[n := c'], ss_given := ss_given s @ given_by c c'\<rparr>
                | Failed_stmt \<Rightarrow> s\<lparr>ss_calls := (ss_calls s)[n := Returned (Inl ErrUnavailable)]\<rparr>
                | Unheard_stmt \<Rightarrow> s\<lparr>ss_db := db', ss_calls := (ss_calls s)[n := Returned (Inl ErrUnavailable)],
                    ss_given := ss_given s @ given_by c c'\<rparr>))
      | Register now n kms pub \<Rightarrow>
        rbind (RegisterSlot (se_curve ev) now n kms pub (ss_slots s)) (\<lambda>rows. Inr (s\<lparr>ss_slots := rows\<rparr>))
      | Retire now n \<Rightarrow> rbind (RetireSlot now n (ss_slots s)) (\<lambda>rows. Inr (s\<lparr>ss_slots := rows\<rparr>)))"

definition s1_start :: s1_sys where
  "s1_start = \<lparr>ss_db = empty_sign_db, ss_slots = [], ss_calls = [], ss_given = []\<rparr>"

definition s1_reached :: "'p s1_env \<Rightarrow> s1_event list \<Rightarrow> s1_sys" where
  "s1_reached ev events = run_ops (s1_exec ev) events s1_start"

end
