(* ===== verification/Signing_Inv.thy ===== *)
theory Signing_Inv
  imports Signing
begin

text \<open>
  The invariant of S1: a signed request has a signature of its own digest with its own key, one audit row,
  and was either below the threshold or approved by two. \<open>pc_ok\<close> is what holds of a call that is
  between two statements, whatever the others do meanwhile: it rests only on what no statement changes.
\<close>

section \<open>What no statement changes\<close>

definition req_by :: "sign_db \<Rightarrow> int \<Rightarrow> sreq option" where
  "req_by db i = first_row (\<lambda>r. sr_id r = i) (sd_requests db)"

definition req_terms :: "sign_db \<Rightarrow> int \<Rightarrow> (string \<times> key_ref \<times> string \<times> usd) option" where
  "req_terms db i = map_option (\<lambda>r. (sr_key r, sr_ref r, sr_digest r, sr_usd r)) (req_by db i)"

definition approved :: "sign_db \<Rightarrow> int \<Rightarrow> string \<Rightarrow> bool" where
  "approved db i who \<longleftrightarrow> (\<exists>a \<in> set (sd_approvals db). ap_request a = i \<and> ap_approver a = who \<and> ap_decision a = APPROVE)"

definition grows :: "sign_db \<Rightarrow> sign_db \<Rightarrow> bool" where
  "grows db db' \<longleftrightarrow> (\<forall>i t. req_terms db i = Some t \<longrightarrow> req_terms db' i = Some t) \<and>
     (\<forall>i who. approved db i who \<longrightarrow> approved db' i who)"

definition authorised :: "'p s1_env \<Rightarrow> sign_db \<Rightarrow> int \<Rightarrow> usd \<Rightarrow> string list option \<Rightarrow> bool" where
  "authorised ev db i usd approvers \<longleftrightarrow>
     (case approvers of
        None \<Rightarrow> \<not> usd_ge usd (se_threshold ev)
      | Some whos \<Rightarrow> distinct whos \<and> requiredApprovals \<le> length whos \<and> (\<forall>who \<in> set whos. approved db i who))"

definition signed_for :: "'p s1_env \<Rightarrow> slot_key list \<Rightarrow> key_ref \<Rightarrow> string \<Rightarrow> signature \<Rightarrow> bool" where
  "signed_for ev slots ref digest sg \<longleftrightarrow> (\<exists>pub. pub_for ev slots ref = Inr pub \<and> signature_of (se_curve ev) pub digest sg)"

lemma authorised_grows: "grows db db' \<Longrightarrow> authorised ev db i usd approvers \<Longrightarrow> authorised ev db' i usd approvers"
  by (auto simp: authorised_def grows_def split: option.splits)

lemma signWith_signed_for: "signWith ev slots answer ref digest = Inr sg \<Longrightarrow> signed_for ev slots ref digest sg"
  by (auto simp: signWith_def signed_for_def rbind_Inr_iff dest: KeySign_signature_of)

section \<open>The invariant\<close>

definition req_ok :: "'p s1_env \<Rightarrow> slot_key list \<Rightarrow> (key_ref \<times> string \<times> signature) list \<Rightarrow> sign_db \<Rightarrow> sreq \<Rightarrow> bool" where
  "req_ok ev slots given db r \<longleftrightarrow>
     (case filter (\<lambda>a. au_request a = sr_id r) (sd_audit db) of
        [] \<Rightarrow> sr_status r \<noteq> SSigned \<and> sr_tx r = None
      | [a] \<Rightarrow> sr_status r = SSigned \<and> au_ref a = sr_ref r \<and> au_digest a = sr_digest r \<and>
          authorised ev db (sr_id r) (sr_usd r) (au_approvers a) \<and>
          (\<exists>sg. sr_tx r = Some sg \<and> signed_for ev slots (sr_ref r) (sr_digest r) sg \<and> (sr_ref r, sr_digest r, sg) \<in> set given)
      | _ \<Rightarrow> False)"

definition sign_db_ok :: "'p s1_env \<Rightarrow> slot_key list \<Rightarrow> (key_ref \<times> string \<times> signature) list \<Rightarrow> sign_db \<Rightarrow> bool" where
  "sign_db_ok ev slots given db \<longleftrightarrow>
     distinct (map sr_id (sd_requests db)) \<and> distinct (map sr_key (sd_requests db)) \<and>
     distinct (map (\<lambda>a. (ap_request a, ap_approver a)) (sd_approvals db)) \<and>
     (\<forall>r \<in> set (sd_requests db). sr_id r \<le> sd_req_seq db \<and> req_ok ev slots given db r) \<and>
     (\<forall>a \<in> set (sd_audit db). au_request a \<le> sd_req_seq db)"

definition stands :: "sign_db \<Rightarrow> int \<Rightarrow> key_ref \<Rightarrow> string \<Rightarrow> bool" where
  "stands db i ref digest \<longleftrightarrow> (\<exists>key usd. req_terms db i = Some (key, ref, digest, usd))"

definition may_sign :: "'p s1_env \<Rightarrow> sign_db \<Rightarrow> int \<Rightarrow> key_ref \<Rightarrow> string \<Rightarrow> string list option \<Rightarrow> bool" where
  "may_sign ev db i ref digest approvers \<longleftrightarrow>
     (\<exists>key usd. req_terms db i = Some (key, ref, digest, usd) \<and> authorised ev db i usd approvers)"

fun pc_ok :: "'p s1_env \<Rightarrow> slot_key list \<Rightarrow> (key_ref \<times> string \<times> signature) list \<Rightarrow> sign_db \<Rightarrow> pc \<Rightarrow> bool" where
  "pc_ok ev slots given db (AtSign i ref digest approvers) = may_sign ev db i ref digest approvers"
| "pc_ok ev slots given db (AtRecord i ref digest approvers sg) =
     (may_sign ev db i ref digest approvers \<and> signed_for ev slots ref digest sg \<and> (ref, digest, sg) \<in> set given)"
| "pc_ok ev slots given db (AtVote i who d) = stands db i (rd_ref d) (rd_digest d)"
| "pc_ok ev slots given db (AtCount i d) = stands db i (rd_ref d) (rd_digest d)"
| "pc_ok ev slots given db _ = True"

definition s1_ok :: "'p s1_env \<Rightarrow> s1_sys \<Rightarrow> bool" where
  "s1_ok ev s \<longleftrightarrow> sign_db_ok ev (ss_slots s) (ss_given s) (ss_db s) \<and>
     (\<forall>c \<in> set (ss_calls s). pc_ok ev (ss_slots s) (ss_given s) (ss_db s) c)"

lemma may_sign_grows: "grows db db' \<Longrightarrow> may_sign ev db i ref digest approvers \<Longrightarrow> may_sign ev db' i ref digest approvers"
  unfolding may_sign_def using authorised_grows unfolding grows_def by blast

lemma stands_grows: "grows db db' \<Longrightarrow> stands db i ref digest \<Longrightarrow> stands db' i ref digest"
  unfolding stands_def grows_def by blast

lemma pc_ok_grows:
  assumes "grows db db'" and "set given \<subseteq> set given'" and "pc_ok ev slots given db c"
  shows "pc_ok ev slots given' db' c"
  using assms by (cases c) (auto intro: may_sign_grows stands_grows)

section \<open>Each statement\<close>

lemma grows_same: "sd_requests db' = sd_requests db \<Longrightarrow> sd_approvals db' = sd_approvals db \<Longrightarrow> grows db db'"
  by (simp add: grows_def req_terms_def req_by_def approved_def)

lemma req_grows_refl [simp]: "grows db db"
  by (rule grows_same) simp_all

lemma grows_update:
  assumes "sd_requests db' = update_rows p f (sd_requests db)" and "sd_approvals db' = sd_approvals db"
    and "\<And>r. sr_id (f r) = sr_id r \<and> sr_key (f r) = sr_key r \<and> sr_ref (f r) = sr_ref r \<and> sr_digest (f r) = sr_digest r \<and> sr_usd (f r) = sr_usd r"
  shows "grows db db'"
proof -
  have "req_by db' i = map_option (\<lambda>r. if p r then f r else r) (req_by db i)" for i
    unfolding req_by_def assms(1) by (rule first_row_update_key) (simp add: assms(3))
  then have "req_terms db' i = req_terms db i" for i
    by (cases "req_by db i") (auto simp: req_terms_def assms(3))
  then show ?thesis by (simp add: grows_def approved_def assms(2))
qed

lemma grows_insert: "insert_row now ref digest usd key db = (db', r) \<Longrightarrow> grows db db'"
  by (auto simp: insert_row_def Let_def grows_def req_terms_def req_by_def approved_def first_row_append)

lemma grows_decision: "grows db (record_decision i who d db)"
  by (auto simp: record_decision_def grows_def req_terms_def req_by_def approved_def)

lemma call_step_grows: "call_step ev slots now answer c db = (db', c') \<Longrightarrow> grows db db'"
  by (cases c)
    (auto simp: record_signed_def mark_rejected_def Let_def grows_decision intro: grows_insert grows_update
      split: if_splits prod.splits)

lemma req_ok_grows:
  "grows db db' \<Longrightarrow> sd_audit db' = sd_audit db \<Longrightarrow> req_ok ev slots given db r \<Longrightarrow> req_ok ev slots given db' r"
  by (auto simp: req_ok_def dest: authorised_grows split: list.splits)

lemma insert_row_ok:
  assumes "insert_row now ref digest usd key db = (db', r)" and ok: "sign_db_ok ev slots given db"
    and "\<not> list_ex (\<lambda>r. sr_key r = key) (sd_requests db)"
  shows "sign_db_ok ev slots given db' \<and> req_terms db' (sr_id r) = Some (key, ref, digest, usd)"
proof -
  note g = grows_insert [OF assms(1)]
  have db': "db' = db\<lparr>sd_requests := sd_requests db @ [r], sd_req_seq := sd_req_seq db + 1\<rparr>"
    and r: "sr_id r = sd_req_seq db + 1" "sr_key r = key" "sr_ref r = ref" "sr_digest r = digest" "sr_usd r = usd"
      "sr_status r = SPending" "sr_tx r = None"
    using assms(1) by (auto simp: insert_row_def Let_def)
  have lt: "\<forall>q \<in> set (sd_requests db). sr_id q < sr_id r" using ok by (force simp: sign_db_ok_def r)
  have none: "filter (\<lambda>a. au_request a = sr_id r) (sd_audit db) = []"
    using ok by (fastforce simp: sign_db_ok_def r filter_empty_conv)
  have old: "req_ok ev slots given db' q" if "q \<in> set (sd_requests db)" for q
    using that ok g by (auto simp: sign_db_ok_def db' intro: req_ok_grows)
  have new: "req_ok ev slots given db' r" by (simp add: req_ok_def db' none r(6,7))
  have "first_row (\<lambda>q. sr_id q = sr_id r) (sd_requests db) = None" using lt by (auto simp: first_row_None)
  then have t: "req_terms db' (sr_id r) = Some (key, ref, digest, usd)"
    by (simp add: req_terms_def req_by_def db' first_row_append r)
  show ?thesis
    using ok assms(3) old new lt t by (fastforce simp: sign_db_ok_def db' r(1,2) list_ex_iff)
qed

lemma record_decision_ok:
  assumes ok: "sign_db_ok ev slots given db"
  shows "sign_db_ok ev slots given (record_decision i who d db)"
proof -
  let ?db = "record_decision i who d db"
  have same: "sd_requests ?db = sd_requests db" "sd_req_seq ?db = sd_req_seq db" "sd_audit ?db = sd_audit db"
    by (simp_all add: record_decision_def)
  have "req_ok ev slots given ?db r" if "r \<in> set (sd_requests db)" for r
    using req_ok_grows [OF grows_decision same(3), where ev = ev] that ok by (simp add: sign_db_ok_def)
  moreover have "distinct (map (\<lambda>a. (ap_request a, ap_approver a)) (sd_approvals ?db))"
    using ok by (auto simp: sign_db_ok_def record_decision_def list_ex_iff)
  ultimately show ?thesis using ok by (simp add: sign_db_ok_def same)
qed

lemma req_ok_unsigned:
  "req_ok ev slots given db r \<Longrightarrow> sr_status r \<noteq> SSigned \<Longrightarrow> filter (\<lambda>a. au_request a = sr_id r) (sd_audit db) = []"
  by (auto simp: req_ok_def split: list.splits)

lemma mark_rejected_ok:
  assumes ok: "sign_db_ok ev slots given db"
  shows "sign_db_ok ev slots given (mark_rejected i db)"
proof -
  let ?p = "\<lambda>r. sr_id r = i \<and> sr_status r = SPending" and ?f = "\<lambda>r. r\<lparr>sr_status := SRejected\<rparr>"
  have g: "grows db (mark_rejected i db)" by (rule grows_update [where p = ?p and f = ?f]) (simp_all add: mark_rejected_def)
  have "req_ok ev slots given (mark_rejected i db) (if ?p q then ?f q else q)" if "q \<in> set (sd_requests db)" for q
  proof -
    have "req_ok ev slots given (mark_rejected i db) q"
      using that ok by (auto simp: sign_db_ok_def mark_rejected_def intro: req_ok_grows [OF g, unfolded mark_rejected_def])
    then show ?thesis by (auto simp: req_ok_def mark_rejected_def split: list.splits)
  qed
  moreover have "map sr_id (sd_requests (mark_rejected i db)) = map sr_id (sd_requests db)"
    "map sr_key (sd_requests (mark_rejected i db)) = map sr_key (sd_requests db)"
    by (simp_all add: mark_rejected_def map_update_rows)
  ultimately show ?thesis using ok by (auto simp: sign_db_ok_def mark_rejected_def set_update_rows)
qed

lemma record_signed_ok:
  assumes step: "record_signed i ref digest approvers sg db = (db', late)" and ok: "sign_db_ok ev slots given db"
    and may: "may_sign ev db i ref digest approvers" "signed_for ev slots ref digest sg" "(ref, digest, sg) \<in> set given"
  shows "sign_db_ok ev slots given db'"
proof (cases "\<forall>r \<in> set (sd_requests db). \<not> (sr_id r = i \<and> sr_status r = SPending)")
  case True
  then show ?thesis using step ok by (auto simp: record_signed_def Let_def affected_0 split: if_splits)
next
  case False
  let ?p = "\<lambda>r. sr_id r = i \<and> sr_status r = SPending" and ?f = "\<lambda>r. r\<lparr>sr_status := SSigned, sr_tx := Some sg\<rparr>"
  let ?a = "\<lparr>au_request = i, au_ref = ref, au_digest = digest, au_approvers = approvers\<rparr>"
  have db': "db' = db\<lparr>sd_requests := update_rows ?p ?f (sd_requests db), sd_audit := sd_audit db @ [?a]\<rparr>"
    using step False by (auto simp: record_signed_def Let_def affected_0 split: if_splits)
  obtain r where r: "r \<in> set (sd_requests db)" "sr_id r = i" "sr_status r = SPending" using False by blast
  have same: "q = r" if "q \<in> set (sd_requests db)" "sr_id q = i" for q
    using that r ok by (auto simp: sign_db_ok_def distinct_map inj_on_def)
  have g: "grows db db'" by (rule grows_update [where p = ?p and f = ?f]) (simp_all add: db')
  have "req_by db i = Some r" unfolding req_by_def using r ok by (intro first_row_unique) (auto simp: sign_db_ok_def)
  then have t: "sr_ref r = ref" "sr_digest r = digest" "authorised ev db i (sr_usd r) approvers"
    using may(1) by (auto simp: may_sign_def req_terms_def)
  have none: "filter (\<lambda>a. au_request a = i) (sd_audit db) = []"
    using req_ok_unsigned [of ev slots given db r] ok r by (simp add: sign_db_ok_def)
  have new: "req_ok ev slots given db' (?f r)"
    using may(2,3) t authorised_grows [OF g t(3)] by (simp add: req_ok_def db' none r(2))
  have old: "req_ok ev slots given db' q" if "q \<in> set (sd_requests db)" "sr_id q \<noteq> i" for q
  proof -
    have "req_ok ev slots given db q" using that(1) ok by (simp add: sign_db_ok_def)
    moreover have "filter (\<lambda>a. au_request a = sr_id q) (sd_audit db') = filter (\<lambda>a. au_request a = sr_id q) (sd_audit db)"
      using that(2) by (simp add: db')
    ultimately show ?thesis by (auto simp: req_ok_def dest: authorised_grows [OF g] split: list.splits)
  qed
  have all: "req_ok ev slots given db' (if ?p q then ?f q else q)" if "q \<in> set (sd_requests db)" for q
    using same [OF that] old [OF that] new r by auto
  have m: "map sr_id (sd_requests db') = map sr_id (sd_requests db)" "map sr_key (sd_requests db') = map sr_key (sd_requests db)"
    by (simp_all add: db' map_update_rows)
  have le: "i \<le> sd_req_seq db" using ok r by (auto simp: sign_db_ok_def)
  have "sr_id q \<le> sd_req_seq db' \<and> req_ok ev slots given db' q" if "q \<in> set (sd_requests db')" for q
  proof -
    obtain q' where q': "q' \<in> set (sd_requests db)" "q = (if ?p q' then ?f q' else q')"
      using \<open>q \<in> set (sd_requests db')\<close> by (auto simp: db' set_update_rows)
    moreover have "sr_id q' \<le> sd_req_seq db" using ok q'(1) by (simp add: sign_db_ok_def)
    ultimately show ?thesis using all [OF q'(1)] by (simp add: db')
  qed
  then show ?thesis using ok m le by (simp add: sign_db_ok_def) (simp add: db')
qed

text \<open>A statement keeps the invariant and what holds of its call, with the signature it was given.\<close>

lemma getPendingDetail_stands:
  "getPendingDetail db i = Inr d \<Longrightarrow> req_terms db i = Some (key, rd_ref d, rd_digest d, rd_usd d) \<longleftrightarrow>
     (\<exists>r. req_by db i = Some r \<and> sr_key r = key)"
  by (auto simp: getPendingDetail_def req_terms_def req_by_def split: option.splits)

lemma getPendingDetail_terms:
  assumes "getPendingDetail db i = Inr d"
  obtains key where "req_terms db i = Some (key, rd_ref d, rd_digest d, rd_usd d)"
  using assms by (auto simp: getPendingDetail_def req_terms_def req_by_def split: option.splits)

lemma approversFor_authorised:
  assumes "sign_db_ok ev slots given db" and "\<not> length (approversFor db i APPROVE) < requiredApprovals"
  shows "authorised ev db i usd (Some (approversFor db i APPROVE))"
proof -
  have "distinct (map ap_approver (filter (\<lambda>a. ap_request a = i \<and> ap_decision a = APPROVE) xs))"
    if "distinct (map (\<lambda>a. (ap_request a, ap_approver a)) xs)" for xs
    using that by (induction xs) (auto simp: image_iff)
  moreover have "distinct (map (\<lambda>a. (ap_request a, ap_approver a)) (sd_approvals db))"
    using assms(1) by (simp add: sign_db_ok_def)
  ultimately have "distinct (approversFor db i APPROVE)" unfolding approversFor_def by simp
  moreover have "approved db i who" if "who \<in> set (approversFor db i APPROVE)" for who
    using that by (auto simp: approversFor_def approved_def)
  ultimately show ?thesis using assms(2) by (simp add: authorised_def)
qed

lemma sign_db_ok_given:
  assumes "sign_db_ok ev slots given db" and "set given \<subseteq> set given'"
  shows "sign_db_ok ev slots given' db"
  using assms by (fastforce simp: sign_db_ok_def req_ok_def split: list.splits)

lemma call_step_ok:
  assumes step: "call_step ev slots now answer c db = (db', c')"
    and ok: "sign_db_ok ev slots given db" and pc: "pc_ok ev slots given db c"
  shows "sign_db_ok ev slots (given @ given_by c c') db' \<and> pc_ok ev slots (given @ given_by c c') db' c'"
proof -
  have sub: "sign_db_ok ev slots given d \<Longrightarrow> sign_db_ok ev slots (given @ xs) d" for d xs
    by (erule sign_db_ok_given) simp
  show ?thesis
  proof (cases c)
    case (AtInsert ref digest usd key)
    obtain d r where i: "insert_row now ref digest usd key db = (d, r)" by fastforce
    note io = insert_row_ok [OF i ok]
    show ?thesis
      using step ok io sub by (auto simp: AtInsert i may_sign_def authorised_def given_by_def split: if_splits)
  next
    case (AtResume req ref digest)
    then show ?thesis using step ok sub
      by (auto simp: may_sign_def authorised_def given_by_def split: sum.splits if_splits elim!: getPendingDetail_terms)
  next
    case (AtSign i ref digest approvers)
    then show ?thesis using step pc ok sub
      by (auto simp: given_by_def dest: signWith_signed_for split: sum.splits)
  next
    case (AtRecord i ref digest approvers sg)
    then show ?thesis using step pc record_signed_ok [OF _ ok, of i ref digest approvers sg]
      by (cases "record_signed i ref digest approvers sg db") (auto simp: given_by_def split: bool.splits if_splits)
  next
    case (AtApprove i who)
    then show ?thesis using step ok sub
      by (auto simp: given_by_def stands_def split: sum.splits if_splits elim!: getPendingDetail_terms)
  next
    case (AtVote i who d)
    then show ?thesis using step pc record_decision_ok [OF ok] stands_grows [OF grows_decision]
      by (auto simp: given_by_def)
  next
    case (AtCount i d)
    then show ?thesis using step pc ok sub approversFor_authorised [OF ok]
      by (auto simp: given_by_def Let_def may_sign_def stands_def split: if_splits)
  qed (use step ok sub record_decision_ok mark_rejected_ok in
      \<open>auto simp: given_by_def split: sum.splits if_splits\<close>)
qed

section \<open>The slots\<close>

definition slots_keep :: "slot_key list \<Rightarrow> slot_key list \<Rightarrow> bool" where
  "slots_keep slots slots' \<longleftrightarrow> (\<forall>n p. slot_pub slots n = Some p \<longrightarrow> slot_pub slots' n = Some p)"

lemma slots_steps:
  "RegisterSlot cv now n kms pub slots = Inr slots' \<Longrightarrow> slots_keep slots slots'"
  "RetireSlot now n slots = Inr slots' \<Longrightarrow> slots_keep slots slots'"
  unfolding slots_keep_def using RegisterSlot_keeps RetireSlot_keeps by blast+

lemma slot_pub_for_signing_iff:
  "slot_pub_for_signing cv slots n = Inr p \<longleftrightarrow> slot_pub slots n = Some p \<and> cu_parse cv p \<noteq> None"
  by (auto simp: slot_pub_for_signing_def slot_pub_def GetSlot_def split: option.splits sum.splits)

lemma pub_for_keep: "slots_keep slots slots' \<Longrightarrow> pub_for ev slots ref = Inr p \<Longrightarrow> pub_for ev slots' ref = Inr p"
  by (auto simp: pub_for_def slot_pub_for_signing_iff slots_keep_def split: option.splits)

lemma signed_for_keep: "slots_keep slots slots' \<Longrightarrow> signed_for ev slots ref digest sg \<Longrightarrow> signed_for ev slots' ref digest sg"
  by (auto simp: signed_for_def intro: pub_for_keep)

lemma sign_db_ok_keep: "slots_keep slots slots' \<Longrightarrow> sign_db_ok ev slots given db \<Longrightarrow> sign_db_ok ev slots' given db"
  by (fastforce simp: sign_db_ok_def req_ok_def dest: signed_for_keep split: list.splits)

lemma pc_ok_keep: "slots_keep slots slots' \<Longrightarrow> pc_ok ev slots given db c \<Longrightarrow> pc_ok ev slots' given db c"
  by (cases c) (auto dest: signed_for_keep)

section \<open>The service\<close>

lemma start_call_ok: "pc_ok ev slots given db (start_call ev c)"
  by (cases c) (auto simp: start_call_def)

text \<open>One step of a service: the statement it ran, if any, grew the database.\<close>

lemma s1_exec_cases:
  assumes "s1_exec ev event s = Inr s'"
  obtains (call) c where "s' = s\<lparr>ss_calls := ss_calls s @ [start_call ev c]\<rparr>"
  | (idle) "s' = s"
  | (step) n now answer db' c' cs where "n < length (ss_calls s)"
      "call_step ev (ss_slots s) now answer (ss_calls s ! n) (ss_db s) = (db', c')"
      "s' = s\<lparr>ss_db := db', ss_calls := (ss_calls s)[n := cs], ss_given := ss_given s @ given_by (ss_calls s ! n) c'\<rparr>"
      "cs = c' \<or> cs = Returned (Inl ErrUnavailable)"
  | (failed) n where "s' = s\<lparr>ss_calls := (ss_calls s)[n := Returned (Inl ErrUnavailable)]\<rparr>"
  | (slots) slots' where "s' = s\<lparr>ss_slots := slots'\<rparr>" "slots_keep (ss_slots s) slots'"
proof (cases event)
  case (Step n now answer fault)
  show ?thesis
  proof (cases "length (ss_calls s) \<le> n")
    case False
    obtain db' c' where st: "call_step ev (ss_slots s) now answer (ss_calls s ! n) (ss_db s) = (db', c')" by fastforce
    then show ?thesis using assms False step [of n now answer db' c'] failed
      by (cases fault) (auto simp: s1_exec_def Step Let_def)
  qed (use assms idle Step in \<open>simp add: s1_exec_def\<close>)
next
  case (Register now n kms pub)
  then obtain x where x: "RegisterSlot (se_curve ev) now n kms pub (ss_slots s) = Inr x" "s' = s\<lparr>ss_slots := x\<rparr>"
    using assms by (auto simp: s1_exec_def rbind_Inr_iff)
  show ?thesis by (rule slots [OF x(2) slots_steps(1) [OF x(1)]])
next
  case (Retire now n)
  then obtain x where x: "RetireSlot now n (ss_slots s) = Inr x" "s' = s\<lparr>ss_slots := x\<rparr>"
    using assms by (auto simp: s1_exec_def rbind_Inr_iff)
  show ?thesis by (rule slots [OF x(2) slots_steps(2) [OF x(1)]])
next
  case (Call c)
  then have "s' = s\<lparr>ss_calls := ss_calls s @ [start_call ev c]\<rparr>" using assms by (simp add: s1_exec_def)
  then show ?thesis by (rule call)
qed

lemma s1_exec_ok:
  assumes ok: "s1_ok ev s" and ex: "s1_exec ev event s = Inr s'"
  shows "s1_ok ev s'"
  using ex
proof (cases rule: s1_exec_cases)
  case (step n now answer db' c' cs)
  let ?c = "ss_calls s ! n" and ?given = "ss_given s @ given_by (ss_calls s ! n) c'"
  have pc: "sign_db_ok ev (ss_slots s) (ss_given s) (ss_db s)" "pc_ok ev (ss_slots s) (ss_given s) (ss_db s) ?c"
    using ok step(1) by (simp_all add: s1_ok_def)
  note co = call_step_ok [OF step(2) pc] and g = call_step_grows [OF step(2)]
  have "pc_ok ev (ss_slots s) ?given db' c" if "c \<in> set ((ss_calls s)[n := cs])" for c
  proof (cases "c \<in> set (ss_calls s)")
    case True
    then have "pc_ok ev (ss_slots s) (ss_given s) (ss_db s) c" using ok by (simp add: s1_ok_def)
    from pc_ok_grows [OF g _ this] show ?thesis by simp
  next
    case False
    then have "c = cs" using that set_update_subset_insert by fastforce
    then show ?thesis using co step(4) by auto
  qed
  then show ?thesis using co by (simp add: s1_ok_def step(3))
next
  case (failed n)
  have "pc_ok ev (ss_slots s) (ss_given s) (ss_db s) c" if "c \<in> set (ss_calls s')" for c
    using that ok set_update_subset_insert [of "ss_calls s" n "Returned (Inl ErrUnavailable)"]
    by (cases "c = Returned (Inl ErrUnavailable)") (auto simp: s1_ok_def failed)
  then show ?thesis using ok failed by (simp add: s1_ok_def)
next
  case (slots slots')
  then show ?thesis using ok by (auto simp: s1_ok_def intro: sign_db_ok_keep pc_ok_keep)
qed (use ok start_call_ok in \<open>auto simp: s1_ok_def\<close>)

interpretation s1: transactional "s1_exec ev" "s1_ok ev" for ev
  by unfold_locales (rule s1_exec_ok)

lemma s1_reached_ok: "s1_ok ev (s1_reached ev events)"
  unfolding s1_reached_def
  by (rule s1.run_inv) (simp add: s1_ok_def s1_start_def sign_db_ok_def empty_sign_db_def)

section \<open>What is final\<close>

definition sign_status_of :: "s1_sys \<Rightarrow> int \<Rightarrow> sign_status option" where
  "sign_status_of s i = map_option sr_status (req_by (ss_db s) i)"

definition signature_at :: "s1_sys \<Rightarrow> int \<Rightarrow> signature option" where
  "signature_at s i = Option.bind (req_by (ss_db s) i) sr_tx"

definition sign_edge :: "sign_status \<Rightarrow> sign_status \<Rightarrow> bool" where
  "sign_edge a b \<longleftrightarrow> a = SPending \<and> b \<noteq> SPending"

definition req_moves :: "sign_db \<Rightarrow> sign_db \<Rightarrow> bool" where
  "req_moves db db' \<longleftrightarrow> (\<forall>i r. req_by db i = Some r \<longrightarrow>
     (\<exists>r'. req_by db' i = Some r' \<and> (r' = r \<or> sr_status r = SPending \<and> sr_status r' \<noteq> SPending)))"

lemma req_moves_same: "sd_requests db' = sd_requests db \<Longrightarrow> req_moves db db'"
  by (simp add: req_moves_def req_by_def)

lemma req_moves_update:
  assumes "sd_requests db' = update_rows p f (sd_requests db)"
    and "\<And>r. p r \<Longrightarrow> sr_id (f r) = sr_id r \<and> sr_status r = SPending \<and> sr_status (f r) \<noteq> SPending"
  shows "req_moves db db'"
proof -
  have "req_by db' i = map_option (\<lambda>r. if p r then f r else r) (req_by db i)" for i
    unfolding req_by_def assms(1) by (rule first_row_update_key) (simp add: assms(2))
  then show ?thesis using assms(2) by (auto simp: req_moves_def)
qed

lemma req_moves_insert: "insert_row now ref digest usd key db = (db', r) \<Longrightarrow> req_moves db db'"
  by (auto simp: insert_row_def Let_def req_moves_def req_by_def first_row_append)

lemma req_moves_signed: "record_signed i ref digest approvers sg db = (db', late) \<Longrightarrow> req_moves db db'"
  by (auto simp: record_signed_def Let_def req_moves_same intro: req_moves_update split: if_splits)

lemma req_moves_rejected: "req_moves db (mark_rejected i db)"
  by (rule req_moves_update [where p = "\<lambda>r. sr_id r = i \<and> sr_status r = SPending" and f = "\<lambda>r. r\<lparr>sr_status := SRejected\<rparr>"])
    (auto simp: mark_rejected_def)

lemma call_step_moves: "call_step ev slots now answer c db = (db', c') \<Longrightarrow> req_moves db db'"
  by (cases c)
    (auto simp: record_decision_def req_moves_same req_moves_rejected intro: req_moves_insert req_moves_signed
      split: if_splits prod.splits bool.splits)

lemma s1_exec_moves: "s1_exec ev event s = Inr s' \<Longrightarrow> req_moves (ss_db s) (ss_db s')"
  by (erule s1_exec_cases) (auto simp: req_moves_same dest: call_step_moves)

interpretation s1_status: status_store "s1_exec ev" "s1_ok ev" sign_status_of sign_edge for ev
proof unfold_locales
  fix s event s' i t
  assume "s1_exec ev event s = Inr s'" and "sign_status_of s i = Some t"
  then show "\<exists>t'. sign_status_of s' i = Some t' \<and> (t' = t \<or> sign_edge t t')"
    using s1_exec_moves by (fastforce simp: sign_status_of_def req_moves_def sign_edge_def)
qed

lemma signed_has_tx:
  assumes "s1_ok ev s" and "req_by (ss_db s) i = Some r"
  shows "sr_tx r \<noteq> None \<longleftrightarrow> sr_status r = SSigned"
proof -
  have "r \<in> set (sd_requests (ss_db s))" using assms(2) by (auto simp: req_by_def dest: first_row_Some)
  then have "req_ok ev (ss_slots s) (ss_given s) (ss_db s) r" using assms(1) by (simp add: s1_ok_def sign_db_ok_def)
  then show ?thesis by (auto simp: req_ok_def split: list.splits)
qed

interpretation s1_signature: write_once "s1_exec ev" "s1_ok ev" signature_at for ev
proof unfold_locales
  fix s event s' i sg
  assume ok: "s1_ok ev s" and ex: "s1_exec ev event s = Inr s'" and "signature_at s i = Some sg"
  then obtain r where r: "req_by (ss_db s) i = Some r" "sr_tx r = Some sg"
    by (auto simp: signature_at_def bind_eq_Some_conv)
  then have "sr_status r = SSigned" using signed_has_tx [OF ok r(1)] by simp
  then have "req_by (ss_db s') i = Some r" using s1_exec_moves [OF ex] r(1) by (fastforce simp: req_moves_def)
  then show "signature_at s' i = Some sg" using r(2) by (simp add: signature_at_def)
qed

end
