(* ===== verification/Signing_Props.thy ===== *)
theory Signing_Props
  imports Signing_Inv
begin

text \<open>
  The properties of the signing service S1.
\<close>

section \<open>A service to try things on\<close>

text \<open>A curve on which every signature with recovery code 0 recovers to the one key there is.\<close>

definition demo_curve :: "string curve" where
  "demo_curve = \<lparr>cu_parse = (\<lambda>s. if s = ''pub'' then Some ''point'' else None), cu_der = (\<lambda>_. Some (7, 9)),
     cu_recover = (\<lambda>r s v d. if v = 0 then Some ''point'' else None), cu_tron_address = (\<lambda>_. ''T''), cu_evm_address = (\<lambda>_. ''0x'')\<rparr>"

definition demo_s1 :: "string s1_env" where
  "demo_s1 = \<lparr>se_curve = demo_curve, se_threshold = Usd 10000, se_bsc = Some (\<lambda>_. Inr ''pub''), se_tron = None\<rparr>"

abbreviation demo_stmt :: "nat \<Rightarrow> s1_event" where
  "demo_stmt n \<equiv> Step n 1 (Der ''der'') Answered_stmt"

text \<open>A small request, signed at once, and a large one that two approve.\<close>

definition demo_small :: "s1_event list" where
  "demo_small = [Register 1 3 ''kms'' (Some ''pub''), Call (RequestSignature 3 ''digest'' (Usd 500) ''k1''),
     demo_stmt 0, demo_stmt 0, demo_stmt 0]"

definition demo_large :: "s1_event list" where
  "demo_large = [Call (RequestDepositSweepSignature 5 ''digest'' (Usd 20000) ''k2''), demo_stmt 0,
     Call (Approve 1 ''ann''), Call (Approve 1 ''bob'')] @ map demo_stmt [1, 2, 1, 1, 2, 1, 2, 2, 2]"

section \<open>Properties\<close>

text \<open>C10: whatever calls are made, in whatever order their statements run and fail, a signed request has
  a canonical signature that recovers, over the digest of the request, to the key the request names. The
  audit log has exactly one row for it, with that digest and key. Either the request was below the
  threshold, or the row names at least two people and each of them approved it.\<close>

theorem signed_is_authorised:
  assumes "s = s1_reached ev events" and "r \<in> set (sd_requests (ss_db s))" and "sr_status r = SSigned"
  shows "\<exists>pub sg a. sr_tx r = Some sg \<and> pub_for ev (ss_slots s) (sr_ref r) = Inr pub \<and>
     signature_of (se_curve ev) pub (sr_digest r) sg \<and>
     filter (\<lambda>a. au_request a = sr_id r) (sd_audit (ss_db s)) = [a] \<and> au_ref a = sr_ref r \<and> au_digest a = sr_digest r \<and>
     (case au_approvers a of
        None \<Rightarrow> \<not> usd_ge (sr_usd r) (se_threshold ev)
      | Some whos \<Rightarrow> distinct whos \<and> 2 \<le> length whos \<and> set whos \<subseteq> {who. approved (ss_db s) (sr_id r) who})"
proof -
  have "s1_ok ev s" unfolding assms(1) by (rule s1_reached_ok)
  then have "req_ok ev (ss_slots s) (ss_given s) (ss_db s) r" using assms(2) by (simp add: s1_ok_def sign_db_ok_def)
  then show ?thesis using assms(3)
    by (auto simp: req_ok_def signed_for_def authorised_def requiredApprovals_def split: list.splits option.splits)
qed

theorem signed_is_authorised_witness:
  "map (\<lambda>a. (au_digest a, au_approvers a)) (sd_audit (ss_db (s1_reached demo_s1 demo_large))) =
     [(''digest'', Some [''ann'', ''bob''])] \<and>
   (\<exists>sg. signature_of demo_curve ''pub'' ''digest'' sg)"
proof -
  let ?s = "s1_reached demo_s1 demo_large" and ?r = "hd (sd_requests (ss_db (s1_reached demo_s1 demo_large)))"
  have n: "sd_requests (ss_db ?s) \<noteq> []" and st: "sr_status ?r = SSigned" and d: "sr_digest ?r = ''digest''"
    and k: "pub_for demo_s1 (ss_slots ?s) (sr_ref ?r) = Inr ''pub''" and c: "se_curve demo_s1 = demo_curve"
    by (code_simp, code_simp, code_simp, code_simp, simp add: demo_s1_def)
  have a: "map (\<lambda>a. (au_digest a, au_approvers a)) (sd_audit (ss_db ?s)) = [(''digest'', Some [''ann'', ''bob''])]" by code_simp
  from signed_is_authorised [OF refl hd_in_set [OF n] st] show ?thesis using a d k c by auto
qed

text \<open>C15: a signature, once recorded, is never replaced, and a rejected request is never signed, whatever
  calls follow.\<close>

theorem signatures_final:
  assumes "s = s1_reached ev events" and "s' = run_ops (s1_exec ev) later s"
  shows "(signature_at s i = Some sg \<longrightarrow> signature_at s' i = Some sg \<and> sign_status_of s' i = Some SSigned) \<and>
    (sign_status_of s i = Some SRejected \<longrightarrow> sign_status_of s' i = Some SRejected \<and> signature_at s' i = None)"
proof -
  have ok: "s1_ok ev s" unfolding assms(1) by (rule s1_reached_ok)
  then have ok': "s1_ok ev s'" unfolding assms(2) by (rule s1.run_inv)
  have sig: "signature_at s' i \<noteq> None \<longleftrightarrow> sign_status_of s' i = Some SSigned"
    using signed_has_tx [OF ok', of i] by (cases "req_by (ss_db s') i") (auto simp: signature_at_def sign_status_of_def)
  have "signature_at s i = Some sg \<Longrightarrow> signature_at s' i = Some sg" using s1_signature.run_keeps [OF ok] assms(2) by simp
  moreover have "sign_status_of s i = Some SRejected \<Longrightarrow> sign_status_of s' i = Some SRejected"
    using s1_status.run_final [OF ok] assms(2) by (simp add: sign_edge_def)
  ultimately show ?thesis using sig by auto
qed

theorem signatures_final_witness:
  "sign_status_of (run_ops (s1_exec demo_s1) (Call (Reject 1 ''eve'') # map demo_stmt [1, 1, 1]) (s1_reached demo_s1 demo_small)) 1 =
     Some SSigned"
proof -
  have "signature_at (s1_reached demo_s1 demo_small) 1 \<noteq> None" by code_simp
  then obtain sg where "signature_at (s1_reached demo_s1 demo_small) 1 = Some sg" by blast
  then show ?thesis using signatures_final [OF refl refl, of demo_s1 demo_small] by blast
qed

text \<open>C38: a call with the idempotency key of a signed request is answered with that request and its
  signature, whatever slot, digest and amount the call names.\<close>

theorem signed_replay_ignores_digest:
  assumes "s = s1_reached ev events" and "r \<in> set (sd_requests (ss_db s))" and "sr_status r = SSigned"
    and "fits_smallint n" and "k = length (ss_calls s)"
  shows "ss_calls (run_ops (s1_exec ev) [Call (RequestSignature n digest usd (sr_key r)),
      Step k now answer Answered_stmt, Step k now' answer' Answered_stmt] s) ! k = Returned (Inr (scanRequest r))"
proof -
  have ok: "sign_db_ok ev (ss_slots s) (ss_given s) (ss_db s)" using s1_reached_ok [of ev events] assms(1) by (simp add: s1_ok_def)
  have "first_row (\<lambda>q. sr_key q = sr_key r) (sd_requests (ss_db s)) = Some r"
    using assms(2) ok by (intro first_row_unique) (auto simp: sign_db_ok_def)
  moreover have "list_ex (\<lambda>q. sr_key q = sr_key r) (sd_requests (ss_db s))" using assms(2) by (auto simp: list_ex_iff)
  ultimately show ?thesis using assms(3-5)
    by (simp add: run_ops_simps commit_op_def s1_exec_def start_call_def slot_ref_def getByIdempotencyKey_def scanRequest_def Let_def)
qed

theorem signed_replay_ignores_digest_witness:
  "ss_calls (run_ops (s1_exec demo_s1) [Call (RequestSignature 4 ''another digest'' (Usd 1) ''k1''), demo_stmt 1, demo_stmt 1]
     (s1_reached demo_s1 demo_small)) ! 1 =
   Returned (Inr \<lparr>sq_id = 1, sq_status = SSigned, sq_tx = Some \<lparr>sg_r = 7, sg_s = 9, sg_v = 0\<rparr>, sq_created_at = 1\<rparr>)"
proof -
  let ?s = "s1_reached demo_s1 demo_small" and ?r = "hd (sd_requests (ss_db (s1_reached demo_s1 demo_small)))"
  have n: "sd_requests (ss_db ?s) \<noteq> []" and st: "sr_status ?r = SSigned" and f: "fits_smallint 4"
    and k: "1 = length (ss_calls ?s)" and key: "sr_key ?r = ''k1''"
    and r: "scanRequest ?r = \<lparr>sq_id = 1, sq_status = SSigned, sq_tx = Some \<lparr>sg_r = 7, sg_s = 9, sg_v = 0\<rparr>, sq_created_at = 1\<rparr>"
    by code_simp+
  from signed_replay_ignores_digest [OF refl hd_in_set [OF n] st f k, of "''another digest''" "Usd 1" 1 "Der ''der''" 1 "Der ''der''"]
  show ?thesis unfolding key r .
qed

end
