(* ===== verification/Base58.thy ===== *)
theory Base58
  imports Prelude
begin

text \<open>
  Addresses and extended keys as text: base58 and base58check (\<open>s1/internal/slots/tron.go\<close>,
  \<open>s1/internal/kmssign/bscdeposit.go\<close>, \<open>tronwatcher/internal/addresses/address.go\<close>,
  \<open>depositwatcher/internal/addresses/bip32.go\<close>, which hold copies of the two directions).

  Bytes are a list of \<open>8 word\<close>, a \<open>big.Int\<close> that is never negative a \<open>nat\<close>. SHA-256 is the argument \<open>sha\<close>.
  \<open>to_base\<close> is the reference: the digits of a number, the most significant first.
\<close>

type_synonym bytes = "8 word list"

section \<open>Digits\<close>

definition from_base :: "nat \<Rightarrow> nat list \<Rightarrow> nat" where
  "from_base b ds = foldl (\<lambda>n d. n * b + d) 0 ds"

fun to_base :: "nat \<Rightarrow> nat \<Rightarrow> nat list" where
  "to_base b n = (if n = 0 \<or> b \<le> 1 then [] else to_base b (n div b) @ [n mod b])"

declare to_base.simps [simp del]

lemma from_base_simps [simp]: "from_base b [] = 0" "from_base b (ds @ [d]) = from_base b ds * b + d"
  by (simp_all add: from_base_def)

lemma from_to_base: "2 \<le> b \<Longrightarrow> from_base b (to_base b n) = n"
proof (induction b n rule: to_base.induct)
  case (1 b n)
  then show ?case by (subst to_base.simps) (auto simp: from_base_def)
qed

lemma to_base_digits: "d \<in> set (to_base b n) \<Longrightarrow> d < b"
proof (induction b n rule: to_base.induct)
  case (1 b n)
  then show ?case by (subst (asm) (2) to_base.simps) (auto split: if_splits)
qed

lemma to_base_hd: "2 \<le> b \<Longrightarrow> to_base b n \<noteq> [] \<Longrightarrow> hd (to_base b n) \<noteq> 0"
proof (induction b n rule: to_base.induct)
  case (1 b n)
  have "n \<noteq> 0" using 1(3) by (cases "n = 0") (simp_all add: to_base.simps [of b 0])
  then have step: "to_base b n = to_base b (n div b) @ [n mod b]" using 1(2) by (subst to_base.simps) simp
  show ?case
  proof (cases "n < b")
    case True
    then show ?thesis using step \<open>n \<noteq> 0\<close> by (simp add: to_base.simps [of b 0])
  next
    case False
    then have "n div b \<noteq> 0" using 1(2) by (simp add: div_eq_0_iff)
    then have "to_base b (n div b) \<noteq> []" using 1(2) by (subst to_base.simps) simp
    then show ?thesis using 1 step \<open>n \<noteq> 0\<close> by simp
  qed
qed

lemma to_from_base:
  assumes b: "2 \<le> b" and ds: "\<forall>d \<in> set ds. d < b"
  shows "to_base b (from_base b ds) = dropWhile (\<lambda>d. d = 0) ds"
  using ds
proof (induction ds rule: rev_induct)
  case (snoc d ds)
  have IH: "to_base b (from_base b ds) = dropWhile (\<lambda>d. d = 0) ds" and d: "d < b" using snoc by auto
  show ?case
  proof (cases "from_base b ds = 0")
    case True
    then have z: "dropWhile (\<lambda>d. d = 0) ds = []" using IH by (simp add: to_base.simps [of b 0])
    then show ?thesis using True d b
      by (cases "d = 0") (auto simp: to_base.simps [of b d] to_base.simps [of b 0] dropWhile_append)
  next
    case False
    then have "to_base b (from_base b (ds @ [d])) = to_base b (from_base b ds) @ [d]"
      using b d by (subst to_base.simps) (simp add: div_mult_self3)
    moreover have "to_base b (from_base b ds) \<noteq> []" using False b by (subst to_base.simps) simp
    then have "dropWhile (\<lambda>d. d = 0) ds \<noteq> []" unfolding IH .
    ultimately show ?thesis using IH by (simp add: dropWhile_append)
  qed
qed (simp add: to_base.simps)

lemma from_base_zeros: "from_base b (replicate z 0 @ ds) = from_base b ds"
  by (induction z) (simp_all add: from_base_def)

text \<open>\<open>big.Int\<close>: \<open>SetBytes\<close> and \<open>Bytes\<close>.\<close>

definition SetBytes :: "bytes \<Rightarrow> nat" where
  "SetBytes bs = from_base 256 (map unat bs)"

definition Bytes :: "nat \<Rightarrow> bytes" where
  "Bytes n = map of_nat (to_base 256 n)"

section \<open>Base 58\<close>

definition base58Alphabet :: string where
  "base58Alphabet = ''123456789ABCDEFGHJKLMNPQRSTUVWXYZabcdefghijkmnopqrstuvwxyz''"

definition base58Index :: "char \<Rightarrow> nat option" where
  "base58Index c = find (\<lambda>i. base58Alphabet ! i = c) [0..<58]"

text \<open>The loop that takes the digits off the number, the least significant first.\<close>

function base58_loop :: "nat \<Rightarrow> string \<Rightarrow> string" where
  "base58_loop num out = (if num = 0 then out else base58_loop (num div 58) (out @ [base58Alphabet ! (num mod 58)]))"
  by pat_completeness auto

termination by (relation "measure fst") auto

declare base58_loop.simps [simp del]

definition base58Encode :: "bytes \<Rightarrow> string" where
  "base58Encode bs =
     (let leadingZeros = length (takeWhile (\<lambda>c. c = 0) bs) in
      rev (base58_loop (SetBytes bs) '''' @ replicate leadingZeros (base58Alphabet ! 0)))"

fun base58_value :: "string \<Rightarrow> nat \<Rightarrow> nat option" where
  "base58_value [] num = Some num"
| "base58_value (c # s) num = (case base58Index c of None \<Rightarrow> None | Some d \<Rightarrow> base58_value s (num * 58 + d))"

definition base58Decode :: "string \<Rightarrow> bytes option" where
  "base58Decode s =
     (case base58_value s 0 of
        None \<Rightarrow> None
      | Some num \<Rightarrow> Some (replicate (length (takeWhile (\<lambda>c. c = CHR ''1'') s)) 0 @ Bytes num))"

section \<open>With a checksum\<close>

definition doubleSHA256 :: "(bytes \<Rightarrow> bytes) \<Rightarrow> bytes \<Rightarrow> bytes" where
  "doubleSHA256 sha bs = sha (sha bs)"

definition base58CheckEncode :: "(bytes \<Rightarrow> bytes) \<Rightarrow> bytes \<Rightarrow> string" where
  "base58CheckEncode sha payload = base58Encode (payload @ take 4 (doubleSHA256 sha payload))"

datatype base58_error = ErrInvalidBase58 | ErrTooShort | ErrInvalidChecksum

definition base58CheckDecode :: "(bytes \<Rightarrow> bytes) \<Rightarrow> string \<Rightarrow> base58_error + bytes" where
  "base58CheckDecode sha s =
     (case base58Decode s of
        None \<Rightarrow> Inl ErrInvalidBase58
      | Some decoded \<Rightarrow>
        if length decoded < 4 then Inl ErrTooShort
        else
          (let payload = take (length decoded - 4) decoded; checksum = drop (length decoded - 4) decoded in
           if take 4 (doubleSHA256 sha payload) \<noteq> checksum then Inl ErrInvalidChecksum else Inr payload))"

section \<open>TRON addresses\<close>

definition tronAddressVersion :: "8 word" where "tronAddressVersion = 0x41"

definition toTronAddress :: "(bytes \<Rightarrow> bytes) \<Rightarrow> bytes \<Rightarrow> string" where
  "toTronAddress sha addr20 =
     (let payload = tronAddressVersion # addr20 in base58Encode (payload @ take 4 (doubleSHA256 sha payload)))"

definition ValidTron :: "(bytes \<Rightarrow> bytes) \<Rightarrow> string \<Rightarrow> bool" where
  "ValidTron sha addr \<longleftrightarrow> addr \<noteq> '''' \<and> hd addr = CHR ''T'' \<and>
     (case base58CheckDecode sha addr of
        Inl _ \<Rightarrow> False | Inr payload \<Rightarrow> length payload = 21 \<and> hd payload = tronAddressVersion)"

text \<open>\<open>deriveTronAddress\<close> of a key given by its uncompressed point; \<open>keccak\<close> is Keccak-256.\<close>

definition deriveTronAddress :: "(bytes \<Rightarrow> bytes) \<Rightarrow> (bytes \<Rightarrow> bytes) \<Rightarrow> bytes \<Rightarrow> string" where
  "deriveTronAddress keccak sha uncompressed =
     (let hash = keccak (tl uncompressed) in
      base58CheckEncode sha (tronAddressVersion # drop (length hash - 20) hash))"

section \<open>Encoding and decoding\<close>

lemma alphabet_length: "length base58Alphabet = 58"
  by (simp add: base58Alphabet_def)

lemma base58Index_alphabet: "d < 58 \<Longrightarrow> base58Index (base58Alphabet ! d) = Some d"
proof -
  have "list_all (\<lambda>d. base58Index (base58Alphabet ! d) = Some d) [0..<58]" by code_simp
  then show "d < 58 \<Longrightarrow> ?thesis" by (simp add: list_all_iff)
qed

lemma base58Index_Some: "base58Index c = Some d \<Longrightarrow> d < 58 \<and> base58Alphabet ! d = c"
  by (auto simp: base58Index_def find_Some_iff simp del: upt_conv_Cons_Cons)

lemma base58_zero: "base58Alphabet ! 0 = CHR ''1''" by (simp add: base58Alphabet_def)

lemma base58_loop_digits:
  "base58_loop num out = out @ rev (map (\<lambda>d. base58Alphabet ! d) (to_base 58 num))"
proof (induction num out rule: base58_loop.induct)
  case (1 num out)
  then show ?case by (subst base58_loop.simps, subst to_base.simps) auto
qed

lemma takeWhile_zeros: "takeWhile (\<lambda>c. c = (0 :: 'a :: zero)) bs = replicate (length (takeWhile (\<lambda>c. c = 0) bs)) 0"
  by (induction bs) auto

lemma base58Encode_digits:
  "base58Encode bs = map (\<lambda>d. base58Alphabet ! d) (replicate (length (takeWhile (\<lambda>c. c = 0) bs)) 0 @ to_base 58 (SetBytes bs))"
  by (simp add: base58Encode_def base58_loop_digits Let_def rev_map)

lemma base58_value_of:
  "\<forall>d \<in> set ds. d < 58 \<Longrightarrow> base58_value (map (\<lambda>d. base58Alphabet ! d) ds) num = Some (foldl (\<lambda>n d. n * 58 + d) num ds)"
  by (induction ds arbitrary: num) (simp_all add: base58Index_alphabet)

lemma base58_value_Some:
  "base58_value s num = Some m \<Longrightarrow>
     \<exists>ds. (\<forall>d \<in> set ds. d < 58) \<and> s = map (\<lambda>d. base58Alphabet ! d) ds \<and> m = foldl (\<lambda>n d. n * 58 + d) num ds"
proof (induction s arbitrary: num)
  case (Cons c s)
  then obtain d where d: "base58Index c = Some d" "base58_value s (num * 58 + d) = Some m"
    by (auto split: option.splits)
  then obtain ds where ds: "\<forall>d \<in> set ds. d < 58" "s = map (\<lambda>d. base58Alphabet ! d) ds"
    "m = foldl (\<lambda>n d. n * 58 + d) (num * 58 + d) ds"
    using Cons.IH by blast
  note i = base58Index_Some [OF d(1)]
  have "\<forall>d \<in> set (d # ds). d < 58" using ds(1) i by simp
  moreover have "c # s = map (\<lambda>d. base58Alphabet ! d) (d # ds)" using i unfolding ds(2) by simp
  moreover have "m = foldl (\<lambda>n d. n * 58 + d) num (d # ds)" unfolding ds(3) by simp
  ultimately show ?case by (intro exI [of _ "d # ds"] conjI)
qed simp

lemma takeWhile_ones:
  "\<forall>d \<in> set ds. d < 58 \<Longrightarrow>
     length (takeWhile (\<lambda>c. c = CHR ''1'') (map (\<lambda>d. base58Alphabet ! d) ds)) = length (takeWhile (\<lambda>d. d = 0) ds)"
proof (induction ds)
  case (Cons d ds)
  have "base58Alphabet ! d = CHR ''1'' \<longleftrightarrow> d = 0"
    using base58Index_alphabet [of d] base58Index_alphabet [of 0] base58_zero Cons.prems by auto
  then show ?case using Cons by simp
qed simp

lemma unat_lt_8: "unat (c :: 8 word) < 256"
  using unsigned_less [of c] by simp

lemma unat_zero_while: "length (takeWhile (\<lambda>c. c = (0 :: 8 word)) bs) = length (takeWhile (\<lambda>d. d = 0) (map unat bs))"
  by (induction bs) (auto simp: unat_eq_0)

lemma takeWhile_to_base: "2 \<le> b \<Longrightarrow> takeWhile (\<lambda>d. d = 0) (to_base b n) = []"
  using to_base_hd [of b n] by (cases "to_base b n") auto

lemma base58_encode_decode: "base58Decode (base58Encode bs) = Some bs"
proof -
  let ?z = "length (takeWhile (\<lambda>c. c = 0) bs)" and ?n = "SetBytes bs"
  let ?ds = "replicate ?z 0 @ to_base 58 ?n"
  have lt: "\<forall>d \<in> set ?ds. d < 58" using to_base_digits [of _ 58 ?n] by auto
  have "base58_value (base58Encode bs) 0 = Some (from_base 58 ?ds)"
    unfolding base58Encode_digits from_base_def by (rule base58_value_of [OF lt])
  moreover have "from_base 58 ?ds = ?n" unfolding from_base_zeros by (simp add: from_to_base)
  moreover have "length (takeWhile (\<lambda>c. c = CHR ''1'') (base58Encode bs)) = ?z"
    unfolding base58Encode_digits takeWhile_ones [OF lt] by (simp add: takeWhile_append takeWhile_to_base)
  moreover have "Bytes ?n = dropWhile (\<lambda>c. c = 0) bs"
  proof -
    have "to_base 256 ?n = dropWhile (\<lambda>d. d = 0) (map unat bs)"
      unfolding SetBytes_def by (rule to_from_base) (use unat_lt_8 in auto)
    then show ?thesis by (simp add: Bytes_def dropWhile_map comp_def unat_eq_0)
  qed
  ultimately have "base58Decode (base58Encode bs) = Some (replicate ?z 0 @ dropWhile (\<lambda>c. c = 0) bs)"
    by (simp add: base58Decode_def)
  then show ?thesis using takeWhile_zeros [of bs] takeWhile_dropWhile_id [of "\<lambda>c. c = 0" bs] by simp
qed

lemma base58_decode_encode:
  assumes "base58Decode s = Some bs"
  shows "base58Encode bs = s"
proof -
  obtain num where num: "base58_value s 0 = Some num"
    and bs: "bs = replicate (length (takeWhile (\<lambda>c. c = CHR ''1'') s)) 0 @ Bytes num"
    using assms by (auto simp: base58Decode_def split: option.splits)
  obtain ds where lt: "\<forall>d \<in> set ds. d < 58" and s: "s = map (\<lambda>d. base58Alphabet ! d) ds" and n: "num = from_base 58 ds"
    using base58_value_Some [OF num] unfolding from_base_def by metis
  let ?z = "length (takeWhile (\<lambda>d. d = 0) ds)"
  have z: "length (takeWhile (\<lambda>c. c = CHR ''1'') s) = ?z" unfolding s by (rule takeWhile_ones [OF lt])
  have u: "map unat (Bytes num) = to_base 256 num"
    using to_base_digits [of _ 256 num] by (auto simp: Bytes_def unat_of_nat intro!: map_idI)
  have "SetBytes bs = num" by (simp add: SetBytes_def bs u from_base_zeros from_to_base)
  moreover have "length (takeWhile (\<lambda>c. c = 0) bs) = ?z"
    unfolding unat_zero_while by (simp add: bs z u takeWhile_append takeWhile_to_base)
  moreover have "to_base 58 num = dropWhile (\<lambda>d. d = 0) ds" unfolding n by (rule to_from_base) (use lt in auto)
  ultimately show ?thesis
    using takeWhile_zeros [of ds] takeWhile_dropWhile_id [of "\<lambda>d. d = 0" ds] by (simp add: base58Encode_digits s)
qed

section \<open>Checksums and TRON addresses\<close>

lemma base58Check_encode_decode:
  assumes "\<And>bs. 4 \<le> length (sha bs)"
  shows "base58CheckDecode sha (base58CheckEncode sha payload) = Inr payload"
  using assms [of "sha payload"]
  by (simp add: base58CheckDecode_def base58CheckEncode_def base58_encode_decode doubleSHA256_def Let_def min_absorb2)

lemma base58Check_decode_encode:
  assumes "base58CheckDecode sha s = Inr payload"
  shows "base58CheckEncode sha payload = s"
proof -
  obtain bs where bs: "base58Decode s = Some bs" "payload = take (length bs - 4) bs"
    "take 4 (doubleSHA256 sha payload) = drop (length bs - 4) bs"
    using assms by (auto simp: base58CheckDecode_def Let_def split: option.splits if_splits)
  then have "payload @ take 4 (doubleSHA256 sha payload) = bs" by simp
  then show ?thesis unfolding base58CheckEncode_def using base58_decode_encode [OF bs(1)] by simp
qed

lemma from_base_Cons: "from_base b (d # ds) = d * b ^ length ds + from_base b ds"
proof -
  have "foldl (\<lambda>n d. n * b + d) n ds = n * b ^ length ds + from_base b ds" for n
  proof (induction ds rule: rev_induct)
    case (snoc d ds)
    then show ?case by (simp add: from_base_def algebra_simps)
  qed (simp add: from_base_def)
  from this [of d] show ?thesis by (simp add: from_base_def)
qed

lemma from_base_less: "\<forall>d \<in> set ds. d < b \<Longrightarrow> from_base b ds < b ^ length ds"
proof (induction ds rule: rev_induct)
  case (snoc d ds)
  then have "from_base b ds * b + d < from_base b ds * b + b" "Suc (from_base b ds) * b \<le> b ^ length ds * b"
    by (simp, intro mult_right_mono) (auto simp: Suc_le_eq)
  then show ?case by (simp add: mult.commute)
qed (simp add: from_base_def)

text \<open>The leading digits of a number between \<open>d\<close> and \<open>d + 1\<close> times a power of the base are those of \<open>d\<close>.\<close>

lemma to_base_lead:
  assumes "2 \<le> b" and "0 < d" and "d * b ^ k \<le> n" "n < (d + 1) * b ^ k"
  shows "\<exists>ys. to_base b n = to_base b d @ ys \<and> length ys = k"
  using assms(3,4)
proof (induction k arbitrary: n)
  case 0
  then have "n = d" by simp
  then show ?case by simp
next
  case (Suc k)
  have "0 < d * b ^ Suc k" using assms(1,2) by simp
  then have "0 < n" using Suc.prems(1) by linarith
  then have "to_base b n = to_base b (n div b) @ [n mod b]" using assms(1) by (subst to_base.simps) simp
  moreover have "d * b ^ k \<le> n div b"
    using Suc.prems(1) assms(1) by (simp add: less_eq_div_iff_mult_less_eq algebra_simps)
  moreover have "n div b < (d + 1) * b ^ k"
    using Suc.prems(2) assms(1) by (intro less_mult_imp_div_less) (simp add: algebra_simps)
  ultimately show ?case using Suc.IH [of "n div b"] by fastforce
qed

lemma to_base_4: "to_base 58 10892318 = [55, 47, 52, 34]" "to_base 58 26 = [26]"
  by (simp_all add: to_base.simps)

lemma SetBytes_Cons: "SetBytes (c # bs) = unat c * 256 ^ length bs + SetBytes bs"
  by (simp add: SetBytes_def from_base_Cons)

lemma SetBytes_less: "SetBytes bs < 256 ^ length bs"
  unfolding SetBytes_def using from_base_less [of "map unat bs" 256] unat_lt_8 by simp

lemma SetBytes_Bytes: "SetBytes (replicate z 0 @ Bytes n) = n"
proof -
  have "map unat (Bytes n) = to_base 256 n"
    using to_base_digits [of _ 256 n] by (auto simp: Bytes_def unat_of_nat intro!: map_idI)
  then show ?thesis by (simp add: SetBytes_def from_base_zeros from_to_base)
qed

lemma toTronAddress_check: "toTronAddress sha addr20 = base58CheckEncode sha (tronAddressVersion # addr20)"
  by (simp add: toTronAddress_def base58CheckEncode_def Let_def)

lemma toTronAddress_T:
  assumes "\<And>bs. 4 \<le> length (sha bs)" and "length addr20 = 20"
  shows "toTronAddress sha addr20 \<noteq> [] \<and> hd (toTronAddress sha addr20) = CHR ''T''"
proof -
  let ?bs = "addr20 @ take 4 (doubleSHA256 sha (tronAddressVersion # addr20))"
  have len: "length ?bs = 24" using assms(1) [of "sha (tronAddressVersion # addr20)"] assms(2) by (simp add: doubleSHA256_def)
  have lt: "SetBytes ?bs < 256 ^ 24" using SetBytes_less [of ?bs] unfolding len .
  have n: "SetBytes (tronAddressVersion # ?bs) = 65 * 256 ^ 24 + SetBytes ?bs"
    unfolding SetBytes_Cons len by (simp add: tronAddressVersion_def)
  have "\<exists>ys. to_base 58 (SetBytes (tronAddressVersion # ?bs)) = to_base 58 26 @ ys \<and> length ys = 33"
    by (rule to_base_lead) (use lt in \<open>simp_all add: n\<close>)
  moreover have "tronAddressVersion \<noteq> 0" by (simp add: tronAddressVersion_def)
  moreover have "base58Alphabet ! 26 = CHR ''T''" by code_simp
  ultimately show ?thesis by (auto simp: toTronAddress_def base58Encode_digits to_base_4 Let_def)
qed

end
