(* ===== verification/Bip32.thy ===== *)
theory Bip32
  imports Base58 Sign_Keys
begin

text \<open>
  Deposit addresses without private keys. A watcher derives the address at an index from an extended public
  key (\<open>depositwatcher/internal/addresses\<close>: \<open>bip32.go\<close>, \<open>derive.go\<close>, \<open>address.go\<close>, and their copies in
  tronwatcher), S1 derives the private key at that index from the extended private key
  (\<open>s1/internal/kmssign/bscdeposit.go\<close>, \<open>trondeposit.go\<close>).

  The libraries are arguments: \<open>group\<close> is secp256k1, \<open>hm\<close> HMAC-SHA512, \<open>keccak\<close> Keccak-256, \<open>sha\<close> SHA-256.
  \<open>curve_laws\<close> is what the theorems need of the group: multiples of the base point add up modulo the order of the
  curve, and a compressed point other than the point at infinity parses to itself. A private key is a number below
  the order. The libraries refuse the point at infinity, so nothing is assumed of parsing it.
\<close>

section \<open>EVM addresses\<close>

definition hexDigits :: string where "hexDigits = ''0123456789abcdef''"

definition hexEncode :: "bytes \<Rightarrow> string" where
  "hexEncode bs = concat (map (\<lambda>b. [hexDigits ! (unat b div 16), hexDigits ! (unat b mod 16)]) bs)"

definition bytes_of :: "string \<Rightarrow> bytes" where
  "bytes_of s = map of_char s"

definition is_digit_char :: "char \<Rightarrow> bool" where
  "is_digit_char c \<longleftrightarrow> CHR ''0'' \<le> c \<and> c \<le> CHR ''9''"

definition hexNibble :: "char \<Rightarrow> int" where
  "hexNibble c =
     (if is_digit_char c then of_char c - of_char CHR ''0''
      else if CHR ''a'' \<le> c \<and> c \<le> CHR ''f'' then of_char c - of_char CHR ''a'' + 10 else - 1)"

definition upper_char :: "char \<Rightarrow> char" where
  "upper_char c = char_of ((of_char c :: nat) - of_char CHR ''a'' + of_char CHR ''A'')"

definition toChecksumAddress :: "(bytes \<Rightarrow> bytes) \<Rightarrow> bytes \<Rightarrow> string" where
  "toChecksumAddress keccak addr20 =
     (let lower = hexEncode addr20; hash = hexEncode (keccak (bytes_of lower)) in
      ''0x'' @ map2 (\<lambda>c h. if is_digit_char c then c else if 8 \<le> hexNibble h then upper_char c else c) lower hash)"

definition lower_char :: "char \<Rightarrow> char" where
  "lower_char c = (if CHR ''A'' \<le> c \<and> c \<le> CHR ''Z'' then char_of ((of_char c :: nat) + 32) else c)"

fun hexDecode :: "string \<Rightarrow> bytes option" where
  "hexDecode [] = Some []"
| "hexDecode [c] = None"
| "hexDecode (c # d # s) =
     (if hexNibble c < 0 \<or> hexNibble d < 0 then None
      else map_option (Cons (of_int (hexNibble c * 16 + hexNibble d))) (hexDecode s))"

definition ValidChecksum :: "(bytes \<Rightarrow> bytes) \<Rightarrow> string \<Rightarrow> bool" where
  "ValidChecksum keccak addr \<longleftrightarrow>
     take 2 addr = ''0x'' \<and> length addr = 42 \<and>
     (case hexDecode (map lower_char (drop 2 addr)) of None \<Rightarrow> False | Some raw \<Rightarrow> toChecksumAddress keccak raw = addr)"

text \<open>\<open>deriveEVMAddress\<close> of a key given by its uncompressed point.\<close>

definition deriveEVMAddress :: "(bytes \<Rightarrow> bytes) \<Rightarrow> bytes \<Rightarrow> string" where
  "deriveEVMAddress keccak uncompressed =
     (let hash = keccak (tl uncompressed) in toChecksumAddress keccak (drop (length hash - 20) hash))"

section \<open>The curve\<close>

record 'p group =
  gr_parse :: "bytes \<Rightarrow> 'p option"
  gr_compress :: "'p \<Rightarrow> bytes"
  gr_uncompress :: "'p \<Rightarrow> bytes"
  gr_mul_base :: "int \<Rightarrow> 'p"
  gr_add :: "'p \<Rightarrow> 'p \<Rightarrow> 'p"

definition curve_laws :: "'p group \<Rightarrow> bool" where
  "curve_laws gr \<longleftrightarrow>
     (\<forall>a b. gr_mul_base gr ((a + b) mod curveOrder) = gr_add gr (gr_mul_base gr a) (gr_mul_base gr b)) \<and>
     (\<forall>k. k mod curveOrder \<noteq> 0 \<longrightarrow> gr_parse gr (gr_compress gr (gr_mul_base gr k)) = Some (gr_mul_base gr k))"

definition scalar_of :: "bytes \<Rightarrow> int" where
  "scalar_of bs = int (SetBytes bs)"

definition index_bytes :: "32 word \<Rightarrow> bytes" where
  "index_bytes i = map (\<lambda>k. ucast (drop_bit k i)) [24, 16, 8, 0]"

definition hardenedOffset :: "32 word" where "hardenedOffset = 0x80000000"

section \<open>The watcher\<close>

datatype address_error =
    ErrHardenedIndex | ErrPrivateKeyMaterial | ErrNotExtendedPublicKey | ErrXpubText base58_error
  | ErrChildOverflow | ErrParentKey

definition is_space_char :: "char \<Rightarrow> bool" where
  "is_space_char c \<longleftrightarrow> c \<in> {CHR '' '', CHR 0x09, CHR 0x0A, CHR 0x0B, CHR 0x0C, CHR 0x0D}"

definition TrimSpace_text :: "string \<Rightarrow> string" where
  "TrimSpace_text s = rev (dropWhile is_space_char (rev (dropWhile is_space_char s)))"

text \<open>The number of words: a word begins at a character that is no space after a space or at the start.\<close>

fun count_fields :: "bool \<Rightarrow> string \<Rightarrow> nat" where
  "count_fields inside [] = 0"
| "count_fields inside (c # s) =
     (if is_space_char c then count_fields False s else (if inside then 0 else 1) + count_fields True s)"

definition looksLikeWIF :: "string \<Rightarrow> bool" where
  "looksLikeWIF s \<longleftrightarrow> (length s = 51 \<or> length s = 52) \<and> hd s \<in> {CHR ''5'', CHR ''K'', CHR ''L''}"

definition rejectPrivateKeyShaped :: "string \<Rightarrow> address_error option" where
  "rejectPrivateKeyShaped s =
     (let trimmed = TrimSpace_text s in
      if take 4 trimmed = ''xprv'' \<or> take 4 trimmed = ''tprv'' \<or> 12 \<le> count_fields False trimmed \<or> looksLikeWIF trimmed
      then Some ErrPrivateKeyMaterial else None)"

record ext_pub_key =
  xp_chain :: bytes
  xp_key :: bytes

definition xpubVersion :: bytes where "xpubVersion = [0x04, 0x88, 0xB2, 0x1E]"

definition xprvVersion :: bytes where "xprvVersion = [0x04, 0x88, 0xAD, 0xE4]"

definition slice :: "nat \<Rightarrow> nat \<Rightarrow> bytes \<Rightarrow> bytes" where
  "slice i j bs = take (j - i) (drop i bs)"

definition parseXpub :: "(bytes \<Rightarrow> bytes) \<Rightarrow> string \<Rightarrow> address_error + ext_pub_key" where
  "parseXpub sha s =
     (case base58CheckDecode sha s of
        Inl e \<Rightarrow> Inl (ErrXpubText e)
      | Inr payload \<Rightarrow>
        if length payload \<noteq> 78 then Inl ErrNotExtendedPublicKey
        else if slice 0 4 payload = xpubVersion then Inr \<lparr>xp_chain = slice 13 45 payload, xp_key = slice 45 78 payload\<rparr>
        else if slice 0 4 payload = xprvVersion then Inl ErrPrivateKeyMaterial
        else Inl ErrNotExtendedPublicKey)"

definition ckdPub :: "'p group \<Rightarrow> (bytes \<Rightarrow> bytes \<Rightarrow> bytes) \<Rightarrow> ext_pub_key \<Rightarrow> 32 word \<Rightarrow> address_error + bytes" where
  "ckdPub gr hm parent i =
     (let il = scalar_of (take 32 (hm (xp_chain parent) (xp_key parent @ index_bytes i))) in
      if curveOrder \<le> il then Inl ErrChildOverflow
      else (case gr_parse gr (xp_key parent) of
          None \<Rightarrow> Inl ErrParentKey
        | Some p \<Rightarrow> Inr (gr_uncompress gr (gr_add gr p (gr_mul_base gr il)))))"

definition derive_child ::
  "'p group \<Rightarrow> (bytes \<Rightarrow> bytes \<Rightarrow> bytes) \<Rightarrow> (bytes \<Rightarrow> bytes) \<Rightarrow> string \<Rightarrow> 32 word \<Rightarrow> address_error + bytes" where
  "derive_child gr hm sha xpub i =
     (if hardenedOffset \<le> i then Inl ErrHardenedIndex
      else (case rejectPrivateKeyShaped xpub of
          Some e \<Rightarrow> Inl e
        | None \<Rightarrow> rbind (parseXpub sha xpub) (\<lambda>parent. ckdPub gr hm parent i)))"

definition DeriveAddress ::
  "'p group \<Rightarrow> (bytes \<Rightarrow> bytes \<Rightarrow> bytes) \<Rightarrow> (bytes \<Rightarrow> bytes) \<Rightarrow> (bytes \<Rightarrow> bytes) \<Rightarrow> string \<Rightarrow> 32 word \<Rightarrow> address_error + string" where
  "DeriveAddress gr hm keccak sha xpub i =
     rbind (derive_child gr hm sha xpub i) (\<lambda>uncompressed.
     let hash = keccak (tl uncompressed) in Inr (toChecksumAddress keccak (drop (length hash - 20) hash)))"

definition DeriveTronAddress ::
  "'p group \<Rightarrow> (bytes \<Rightarrow> bytes \<Rightarrow> bytes) \<Rightarrow> (bytes \<Rightarrow> bytes) \<Rightarrow> (bytes \<Rightarrow> bytes) \<Rightarrow> string \<Rightarrow> 32 word \<Rightarrow> address_error + string" where
  "DeriveTronAddress gr hm keccak sha xpub i =
     rbind (derive_child gr hm sha xpub i) (\<lambda>uncompressed.
     let hash = keccak (tl uncompressed) in Inr (toTronAddress sha (drop (length hash - 20) hash)))"

definition ConfigureXpub :: "(bytes \<Rightarrow> bytes) \<Rightarrow> string \<Rightarrow> address_error + string" where
  "ConfigureXpub sha xpub =
     (case rejectPrivateKeyShaped xpub of
        Some e \<Rightarrow> Inl e | None \<Rightarrow> rbind (parseXpub sha xpub) (\<lambda>_. Inr xpub))"

section \<open>The signer\<close>

datatype deposit_key_error =
    ErrNotExtendedPrivateKey | ErrXprvText base58_error | ErrCrossCheckXpub | ErrXprvXpubMismatch | ErrTronXprvXpubMismatch
  | ErrDepositChildOverflow | ErrHardenedDeposit

record deposit_keys =
  dk_chain :: bytes
  dk_priv :: int
  dk_compressed :: bytes

definition parseXprv :: "(bytes \<Rightarrow> bytes) \<Rightarrow> string \<Rightarrow> deposit_key_error + bytes \<times> int" where
  "parseXprv sha s =
     (case base58CheckDecode sha s of
        Inl e \<Rightarrow> Inl (ErrXprvText e)
      | Inr payload \<Rightarrow>
        if length payload \<noteq> 78 then Inl ErrNotExtendedPrivateKey
        else if slice 0 4 payload \<noteq> xprvVersion then Inl ErrNotExtendedPrivateKey
        else if payload ! 45 \<noteq> 0 then Inl ErrNotExtendedPrivateKey
        else Inr (slice 13 45 payload, scalar_of (slice 46 78 payload) mod curveOrder))"

definition parseXpubForCrossCheck :: "(bytes \<Rightarrow> bytes) \<Rightarrow> string \<Rightarrow> (bytes \<times> bytes) option" where
  "parseXpubForCrossCheck sha s =
     (case base58CheckDecode sha s of
        Inl e \<Rightarrow> None
      | Inr payload \<Rightarrow>
        if length payload \<noteq> 78 \<or> slice 0 4 payload \<noteq> xpubVersion then None
        else Some (slice 13 45 payload, slice 45 78 payload))"

definition new_deposit_keys ::
  "deposit_key_error \<Rightarrow> 'p group \<Rightarrow> (bytes \<Rightarrow> bytes) \<Rightarrow> string \<Rightarrow> string \<Rightarrow> deposit_key_error + deposit_keys" where
  "new_deposit_keys mismatch gr sha xprv xpub =
     rbind (parseXprv sha xprv) (\<lambda>(chain, priv).
     let compressed = gr_compress gr (gr_mul_base gr priv) in
     case parseXpubForCrossCheck sha xpub of
       None \<Rightarrow> Inl ErrCrossCheckXpub
     | Some (xpub_chain, xpub_key) \<Rightarrow>
       if chain \<noteq> xpub_chain \<or> compressed \<noteq> xpub_key then Inl mismatch
       else Inr \<lparr>dk_chain = chain, dk_priv = priv, dk_compressed = compressed\<rparr>)"

definition NewBSCDepositKeys where "NewBSCDepositKeys = new_deposit_keys ErrXprvXpubMismatch"

definition NewTronDepositKeys where "NewTronDepositKeys = new_deposit_keys ErrTronXprvXpubMismatch"

definition ckdPrivChild ::
  "(bytes \<Rightarrow> bytes \<Rightarrow> bytes) \<Rightarrow> bytes \<Rightarrow> int \<Rightarrow> bytes \<Rightarrow> 32 word \<Rightarrow> deposit_key_error + int" where
  "ckdPrivChild hm chain priv compressed i =
     (if hardenedOffset \<le> i then Inl ErrHardenedDeposit
      else
        (let il = scalar_of (take 32 (hm chain (compressed @ index_bytes i))) in
         if curveOrder \<le> il then Inl ErrDepositChildOverflow
         else if curveOrder \<le> priv then Inl ErrDepositChildOverflow
         else
           (let child = (il + priv) mod curveOrder in
            if child = 0 then Inl ErrDepositChildOverflow else Inr child)))"

definition deriveChild :: "(bytes \<Rightarrow> bytes \<Rightarrow> bytes) \<Rightarrow> deposit_keys \<Rightarrow> 32 word \<Rightarrow> deposit_key_error + int" where
  "deriveChild hm k i = ckdPrivChild hm (dk_chain k) (dk_priv k) (dk_compressed k) i"

definition DepositPublicKey ::
  "'p group \<Rightarrow> (bytes \<Rightarrow> bytes \<Rightarrow> bytes) \<Rightarrow> deposit_keys \<Rightarrow> 32 word \<Rightarrow> deposit_key_error + bytes" where
  "DepositPublicKey gr hm k i = rbind (deriveChild hm k i) (\<lambda>child. Inr (gr_compress gr (gr_mul_base gr child)))"

text \<open>The addresses of a key S1 signs with (\<open>s1/internal/slots\<close>).\<close>

definition SlotsDeriveEVMAddress :: "'p group \<Rightarrow> (bytes \<Rightarrow> bytes) \<Rightarrow> bytes \<Rightarrow> string option" where
  "SlotsDeriveEVMAddress gr keccak compressed =
     map_option (\<lambda>p. deriveEVMAddress keccak (gr_uncompress gr p)) (gr_parse gr compressed)"

definition SlotsDeriveTronAddress :: "'p group \<Rightarrow> (bytes \<Rightarrow> bytes) \<Rightarrow> (bytes \<Rightarrow> bytes) \<Rightarrow> bytes \<Rightarrow> string option" where
  "SlotsDeriveTronAddress gr keccak sha compressed =
     map_option (\<lambda>p. deriveTronAddress keccak sha (gr_uncompress gr p)) (gr_parse gr compressed)"

end
