(* ===== verification/Key_Props.thy ===== *)
theory Key_Props
  imports Bip32
begin

text \<open>
  The properties of addresses and deposit keys: what is encoded reads back, and the watcher and the signer
  agree on the key of every index.
\<close>

section \<open>Hexadecimal\<close>

lemma hex_digit:
  assumes "n < 16"
  shows "hexNibble (hexDigits ! n) = int n" "lower_char (upper_char (hexDigits ! n)) = hexDigits ! n \<or> is_digit_char (hexDigits ! n)"
    "lower_char (hexDigits ! n) = hexDigits ! n"
proof -
  have "list_all (\<lambda>n. hexNibble (hexDigits ! n) = int n \<and>
      (lower_char (upper_char (hexDigits ! n)) = hexDigits ! n \<or> is_digit_char (hexDigits ! n)) \<and>
      lower_char (hexDigits ! n) = hexDigits ! n) [0..<16]" by code_simp
  then show "hexNibble (hexDigits ! n) = int n" "lower_char (upper_char (hexDigits ! n)) = hexDigits ! n \<or> is_digit_char (hexDigits ! n)"
    "lower_char (hexDigits ! n) = hexDigits ! n"
    using assms by (simp_all add: list_all_iff)
qed

lemma hexEncode_simps [simp]:
  "hexEncode [] = []" "hexEncode (b # bs) = hexDigits ! (unat b div 16) # hexDigits ! (unat b mod 16) # hexEncode bs"
  by (simp_all add: hexEncode_def)

lemma hexEncode_length [simp]: "length (hexEncode bs) = 2 * length bs"
  by (induction bs) simp_all

lemma nibble_bounds: "unat (b :: 8 word) div 16 < 16" "unat (b :: 8 word) mod 16 < 16"
  using unat_lt_8 [of b] by simp_all

lemma hexDecode_hexEncode: "hexDecode (hexEncode bs) = Some bs"
proof (induction bs)
  case (Cons b bs)
  have "int (unat b div 16) * 16 + int (unat b mod 16) = int (unat b)" by presburger
  then have "(of_int (int (unat b div 16) * 16 + int (unat b mod 16)) :: 8 word) = b" by (simp add: of_int_of_nat_eq)
  then show ?case using Cons by (simp add: hex_digit nibble_bounds)
qed simp

lemma hexEncode_digits: "c \<in> set (hexEncode bs) \<Longrightarrow> \<exists>n < 16. c = hexDigits ! n"
proof (induction bs)
  case (Cons b bs)
  then consider "c = hexDigits ! (unat b div 16)" | "c = hexDigits ! (unat b mod 16)" | "c \<in> set (hexEncode bs)" by auto
  then show ?case by cases (use nibble_bounds [of b] Cons.IH in blast)+
qed simp

lemma checksum_lower:
  assumes "length hash = length (hexEncode bs)"
  shows "map lower_char (map2 (\<lambda>c h. if is_digit_char c then c else if 8 \<le> hexNibble h then upper_char c else c) (hexEncode bs) hash) =
    hexEncode bs"
proof -
  have "lower_char (if is_digit_char c then c else if 8 \<le> hexNibble h then upper_char c else c) = c" if "c \<in> set (hexEncode bs)" for c h
    using hexEncode_digits [OF that] hex_digit by auto
  then show ?thesis using assms by (auto simp: list_eq_iff_nth_eq)
qed

lemma zip_short: "zip xs ys = zip xs (take (length xs) ys)"
  by (induction xs arbitrary: ys) (simp, case_tac ys, simp_all)

lemma checksum_valid:
  assumes "length addr20 = 20" and "length (keccak (bytes_of (hexEncode addr20))) = 32"
  shows "hexDecode (map lower_char (drop 2 (toChecksumAddress keccak addr20))) = Some addr20"
    and "ValidChecksum keccak (toChecksumAddress keccak addr20)"
proof -
  let ?h = "take 40 (hexEncode (keccak (bytes_of (hexEncode addr20))))"
  have z: "zip (hexEncode addr20) (hexEncode (keccak (bytes_of (hexEncode addr20)))) = zip (hexEncode addr20) ?h"
    using zip_short [of "hexEncode addr20"] assms by simp
  show d: "hexDecode (map lower_char (drop 2 (toChecksumAddress keccak addr20))) = Some addr20"
    using checksum_lower [of ?h addr20] assms by (simp add: toChecksumAddress_def Let_def z hexDecode_hexEncode)
  show "ValidChecksum keccak (toChecksumAddress keccak addr20)"
    using d assms by (simp add: ValidChecksum_def) (simp add: toChecksumAddress_def Let_def)
qed

section \<open>Extended public keys as text\<close>

lemma alphabet_no_space: "d < 58 \<Longrightarrow> \<not> is_space_char (base58Alphabet ! d)"
proof -
  have "list_all (\<lambda>d. \<not> is_space_char (base58Alphabet ! d)) [0..<58]" by code_simp
  then show "d < 58 \<Longrightarrow> ?thesis" by (simp add: list_all_iff)
qed

lemma base58Encode_no_space: "c \<in> set (base58Encode bs) \<Longrightarrow> \<not> is_space_char c"
  using alphabet_no_space to_base_digits [of _ 58] by (auto simp: base58Encode_digits)

lemma count_fields_one: "\<forall>c \<in> set s. \<not> is_space_char c \<Longrightarrow> count_fields inside s \<le> 1"
proof -
  have "\<forall>c \<in> set s. \<not> is_space_char c \<Longrightarrow> count_fields True s = 0" for s by (induction s) auto
  then show "\<forall>c \<in> set s. \<not> is_space_char c \<Longrightarrow> ?thesis" by (cases s) auto
qed

lemma drop_no_space: "\<forall>c \<in> set s. \<not> is_space_char c \<Longrightarrow> dropWhile is_space_char s = s"
  by (cases s) auto

lemma trim_no_space: "\<forall>c \<in> set s. \<not> is_space_char c \<Longrightarrow> TrimSpace_text s = s"
  by (simp add: TrimSpace_text_def drop_no_space)

text \<open>The version bytes make the text begin with \<open>xpub\<close>, so the guard against private keys lets it pass.\<close>

lemma xpub_not_rejected:
  assumes sha: "\<And>bs. 4 \<le> length (sha bs)" and p: "length payload = 78" "slice 0 4 payload = xpubVersion"
  shows "rejectPrivateKeyShaped (base58CheckEncode sha payload) = None"
proof -
  let ?bs = "payload @ take 4 (doubleSHA256 sha payload)"
  obtain rest where rest: "payload = 0x04 # 0x88 # 0xB2 # 0x1E # rest"
  proof -
    have "take 4 payload = [0x04, 0x88, 0xB2, 0x1E]" using p(2) by (simp add: slice_def xpubVersion_def)
    then have "payload = [0x04, 0x88, 0xB2, 0x1E] @ drop 4 payload" by (metis append_take_drop_id)
    then show thesis using that by simp
  qed
  let ?r = "rest @ take 4 (doubleSHA256 sha payload)"
  have len: "length ?r = 78" using p(1) sha [of "sha payload"] by (simp add: rest doubleSHA256_def)
  have lt: "SetBytes ?r < 256 ^ 78" using SetBytes_less [of ?r] unfolding len .
  have n: "SetBytes ?bs = 0x0488B21E * 256 ^ 78 + SetBytes ?r"
    using len by (simp add: rest SetBytes_Cons)
  have "\<exists>ys. to_base 58 (SetBytes ?bs) = to_base 58 10892318 @ ys \<and> length ys = 107"
    by (rule to_base_lead) (use lt in \<open>simp_all add: n\<close>)
  then obtain ys where ys: "to_base 58 (SetBytes ?bs) = [55, 47, 52, 34] @ ys" "length ys = 107" by (auto simp: to_base_4)
  let ?s = "base58CheckEncode sha payload"
  have s: "?s = map (\<lambda>d. base58Alphabet ! d) ([55, 47, 52, 34] @ ys)"
    unfolding base58CheckEncode_def base58Encode_digits ys(1) by (simp add: rest)
  have sp: "\<forall>c \<in> set ?s. \<not> is_space_char c" using base58Encode_no_space by (simp add: base58CheckEncode_def)
  then have t: "TrimSpace_text ?s = ?s" by (rule trim_no_space)
  have "map (\<lambda>d. base58Alphabet ! d) [55, 47, 52, 34] = ''xpub''" by code_simp
  then have "take 4 ?s = ''xpub''" unfolding s by simp
  moreover have "length ?s = 111" unfolding s using ys(2) by simp
  moreover have "count_fields False ?s \<le> 1" by (rule count_fields_one [OF sp])
  ultimately show ?thesis by (simp add: rejectPrivateKeyShaped_def Let_def t looksLikeWIF_def)
qed

section \<open>Properties\<close>

text \<open>C21: text in base 58 with a checksum decodes to a payload, of any length and with any number of leading zero
  bytes, exactly if it is the encoding of that payload, and likewise without the checksum. Every address the program
  makes from a 20-byte hash passes its own validity check and reads back to that hash, as an EVM and as a TRON
  address.\<close>

theorem addresses_read_back:
  assumes "length addr20 = 20" and "\<forall>bs. length (keccak bs) = 32" and "\<forall>bs. length (sha bs) = 32"
  shows "(\<forall>a payload. base58CheckDecode sha a = Inr payload \<longleftrightarrow> a = base58CheckEncode sha payload) \<and>
    (\<forall>a bs. base58Decode a = Some bs \<longleftrightarrow> a = base58Encode bs) \<and>
    ValidChecksum keccak (toChecksumAddress keccak addr20) \<and>
    hexDecode (map lower_char (drop 2 (toChecksumAddress keccak addr20))) = Some addr20 \<and>
    ValidTron sha (toTronAddress sha addr20) \<and>
    (\<forall>a. base58CheckDecode sha a = Inr (tronAddressVersion # addr20) \<longleftrightarrow> a = toTronAddress sha addr20)"
proof -
  have sha: "4 \<le> length (sha bs)" for bs using assms(3) by simp
  have reads: "base58CheckDecode sha (toTronAddress sha addr20) = Inr (tronAddressVersion # addr20)"
    unfolding toTronAddress_check by (rule base58Check_encode_decode [OF sha])
  then have "ValidTron sha (toTronAddress sha addr20)"
    using toTronAddress_T [where sha = sha, OF sha assms(1)] assms(1) by (simp add: ValidTron_def)
  moreover have "a = toTronAddress sha addr20" if "base58CheckDecode sha a = Inr (tronAddressVersion # addr20)" for a
    using base58Check_decode_encode [OF that] by (simp add: toTronAddress_check)
  moreover have "ValidChecksum keccak (toChecksumAddress keccak addr20)"
    "hexDecode (map lower_char (drop 2 (toChecksumAddress keccak addr20))) = Some addr20"
    using checksum_valid [OF assms(1), of keccak] assms(2) by simp_all
  moreover have "base58CheckDecode sha a = Inr payload \<longleftrightarrow> a = base58CheckEncode sha payload" for a payload
    using base58Check_encode_decode [where sha = sha, OF sha] base58Check_decode_encode by blast
  moreover have "base58Decode a = Some bs \<longleftrightarrow> a = base58Encode bs" for a bs
    using base58_encode_decode base58_decode_encode by blast
  ultimately show ?thesis using reads by blast
qed

definition demo_hash :: "bytes \<Rightarrow> bytes" where
  "demo_hash bs = take 32 (bs @ replicate 32 0x5A)"

theorem addresses_read_back_witness:
  "base58CheckDecode demo_hash (toTronAddress demo_hash (replicate 20 7)) = Inr (0x41 # replicate 20 7) \<and>
   base58CheckDecode demo_hash (base58CheckEncode demo_hash [0, 0, 9]) = Inr [0, 0, 9] \<and>
   base58Decode ''112'' = Some [0, 0, 1] \<and>
   ValidChecksum demo_hash (toChecksumAddress demo_hash (replicate 20 0xAB))"
proof -
  have l: "length (replicate 20 (7 :: 8 word)) = 20" "length (replicate 20 (0xAB :: 8 word)) = 20"
    and h: "\<forall>bs. length (demo_hash bs) = 32"
    by (simp, simp, simp add: demo_hash_def min_def)
  have "''112'' = base58Encode [0, 0, 1]" by code_simp
  then show ?thesis using addresses_read_back [OF l(1) h h] addresses_read_back [OF l(2) h h]
    by (simp add: tronAddressVersion_def)
qed

text \<open>C11: for every index the watcher derives, from the extended public key alone, the address of the
  very key S1 signs with at that index, on both chains: what a customer pays to can be moved on. The extended
  private key must not be zero modulo the order of the curve: S1 takes such a key as it is, and the watcher cannot
  parse its public key.\<close>

theorem watcher_and_signer_agree:
  assumes "curve_laws gr" and "\<forall>bs. length (sha bs) = 32"
    and "NewBSCDepositKeys gr sha xprv xpub = Inr keys \<or> NewTronDepositKeys gr sha xprv xpub = Inr keys"
    and "dk_priv keys \<noteq> 0" and "DepositPublicKey gr hm keys i = Inr pub"
  shows "\<exists>evm tron. DeriveAddress gr hm keccak sha xpub i = Inr evm \<and> SlotsDeriveEVMAddress gr keccak pub = Some evm \<and>
    DeriveTronAddress gr hm keccak sha xpub i = Inr tron \<and> SlotsDeriveTronAddress gr keccak sha pub = Some tron"
proof -
  obtain mismatch where "new_deposit_keys mismatch gr sha xprv xpub = Inr keys"
    using assms(3) by (auto simp: NewBSCDepositKeys_def NewTronDepositKeys_def)
  then obtain chain priv where p: "parseXprv sha xprv = Inr (chain, priv)"
    and x: "parseXpubForCrossCheck sha xpub = Some (chain, gr_compress gr (gr_mul_base gr priv))"
    and keys: "keys = \<lparr>dk_chain = chain, dk_priv = priv, dk_compressed = gr_compress gr (gr_mul_base gr priv)\<rparr>"
    by (auto simp: new_deposit_keys_def rbind_Inr_iff Let_def split: option.splits if_splits)
  have "priv = priv mod curveOrder"
    using p by (auto simp: parseXprv_def Let_def split: sum.splits if_splits)
  then have priv: "priv mod curveOrder \<noteq> 0" using assms(4) by (simp add: keys)
  let ?il = "scalar_of (take 32 (hm chain (gr_compress gr (gr_mul_base gr priv) @ index_bytes i)))"
  let ?child = "(?il + priv) mod curveOrder"
  have pub: "pub = gr_compress gr (gr_mul_base gr ?child)" and il: "?il < curveOrder" and i: "\<not> hardenedOffset \<le> i"
    and child: "?child mod curveOrder \<noteq> 0"
    using assms(5) by (auto simp: DepositPublicKey_def deriveChild_def ckdPrivChild_def keys rbind_Inr_iff Let_def split: if_splits)
  have "rejectPrivateKeyShaped (base58CheckEncode sha payload) = None"
    if "base58CheckDecode sha xpub = Inr payload" "length payload = 78" "slice 0 4 payload = xpubVersion" for payload
    using assms(2) that by (intro xpub_not_rejected) simp_all
  then have guard: "rejectPrivateKeyShaped xpub = None"
    using x base58Check_decode_encode [of sha xpub] by (auto simp: parseXpubForCrossCheck_def split: sum.splits if_splits)
  have xpub: "parseXpub sha xpub = Inr \<lparr>xp_chain = chain, xp_key = gr_compress gr (gr_mul_base gr priv)\<rparr>"
    using x by (auto simp: parseXpubForCrossCheck_def parseXpub_def split: sum.splits if_splits)
  have add: "gr_mul_base gr ?child = gr_add gr (gr_mul_base gr priv) (gr_mul_base gr ?il)"
    using assms(1) by (simp add: curve_laws_def add.commute)
  have parse: "gr_parse gr (gr_compress gr (gr_mul_base gr k)) = Some (gr_mul_base gr k)" if "k mod curveOrder \<noteq> 0" for k
    using assms(1) that by (simp add: curve_laws_def)
  have "derive_child gr hm sha xpub i = Inr (gr_uncompress gr (gr_mul_base gr ?child))"
    using i guard il by (simp add: derive_child_def xpub ckdPub_def parse [OF priv] add Let_def)
  then show ?thesis
    by (simp add: DeriveAddress_def DeriveTronAddress_def SlotsDeriveEVMAddress_def SlotsDeriveTronAddress_def pub parse [OF child]
        deriveEVMAddress_def deriveTronAddress_def toTronAddress_check Let_def)
qed

text \<open>A group with the laws: the numbers below the order, written as 33 bytes. As in the library, zero does not parse.\<close>

definition demo_group :: "nat group" where
  "demo_group = \<lparr>gr_parse = (\<lambda>bs. if SetBytes (tl bs) = 0 then None else Some (SetBytes (tl bs))),
     gr_compress = (\<lambda>p. 2 # replicate (32 - length (Bytes p)) 0 @ Bytes p), gr_uncompress = (\<lambda>p. 4 # Bytes p),
     gr_mul_base = (\<lambda>k. nat (k mod curveOrder)), gr_add = (\<lambda>p q. (p + q) mod nat curveOrder)\<rparr>"

lemma demo_group_laws: "curve_laws demo_group"
proof -
  have "nat ((a + b) mod curveOrder) = (nat (a mod curveOrder) + nat (b mod curveOrder)) mod nat curveOrder" for a b
  proof -
    have n: "0 < curveOrder" by (simp add: curveOrder_def)
    then have "nat (a mod curveOrder) + nat (b mod curveOrder) = nat (a mod curveOrder + b mod curveOrder)"
      by (simp add: nat_add_distrib)
    then show ?thesis using n by (simp add: mod_add_eq flip: nat_mod_distrib)
  qed
  moreover have "nat (k mod curveOrder) \<noteq> 0" if "k mod curveOrder \<noteq> 0" for k
    using that pos_mod_sign [of curveOrder k] by (simp add: curveOrder_def)
  ultimately show ?thesis by (simp add: curve_laws_def demo_group_def SetBytes_Bytes)
qed

definition demo_xprv :: string where
  "demo_xprv = base58CheckEncode demo_hash (xprvVersion @ replicate 73 0 @ [9])"

definition demo_xpub :: string where
  "demo_xpub = base58CheckEncode demo_hash (xpubVersion @ replicate 41 0 @ 2 # replicate 31 0 @ [9])"

definition demo_hm :: "bytes \<Rightarrow> bytes \<Rightarrow> bytes" where
  "demo_hm key msg = replicate 31 0 @ [5] @ replicate 32 0"

theorem watcher_and_signer_agree_witness:
  "\<exists>pub evm. DepositPublicKey demo_group demo_hm \<lparr>dk_chain = replicate 32 0, dk_priv = 9, dk_compressed = 2 # replicate 31 0 @ [9]\<rparr> 3 =
      Inr pub \<and> DeriveAddress demo_group demo_hm demo_hash demo_hash demo_xpub 3 = Inr evm \<and>
      SlotsDeriveEVMAddress demo_group demo_hash pub = Some evm"
proof -
  let ?k = "\<lparr>dk_chain = replicate 32 0, dk_priv = 9, dk_compressed = 2 # replicate 31 0 @ [9]\<rparr> :: deposit_keys"
  have h: "\<forall>bs. length (demo_hash bs) = 32" by (simp add: demo_hash_def min_def)
  have h4: "4 \<le> length (demo_hash bs)" for bs using h by simp
  have S: "SetBytes (replicate 31 0 @ [c]) = unat c" for c
    using from_base_zeros [of 256 31 "[unat c]"] by (simp add: SetBytes_def map_replicate_const) (simp add: from_base_def)
  have z: "replicate 73 0 @ [9] = replicate 42 0 @ replicate 31 0 @ [9 :: 8 word]" by (simp add: numeral_eq_Suc)
  have prv: "parseXprv demo_hash demo_xprv = Inr (replicate 32 0, 9)"
    by (simp add: parseXprv_def demo_xprv_def base58Check_encode_decode [OF h4] slice_def xprvVersion_def
        scalar_of_def S curveOrder_def nth_append z)
  have pub: "parseXpubForCrossCheck demo_hash demo_xpub = Some (replicate 32 0, 2 # replicate 31 0 @ [9])"
    by (simp add: parseXpubForCrossCheck_def demo_xpub_def base58Check_encode_decode [OF h4] slice_def xpubVersion_def)
  have B: "Bytes 9 = [9]" by (simp add: Bytes_def to_base.simps)
  have "NewBSCDepositKeys demo_group demo_hash demo_xprv demo_xpub = Inr ?k"
    by (simp add: NewBSCDepositKeys_def new_deposit_keys_def prv pub demo_group_def curveOrder_def B)
  then have k: "NewBSCDepositKeys demo_group demo_hash demo_xprv demo_xpub = Inr ?k \<or>
      NewTronDepositKeys demo_group demo_hash demo_xprv demo_xpub = Inr ?k" by blast
  have "deriveChild demo_hm ?k 3 = Inr 14"
    by (simp add: deriveChild_def ckdPrivChild_def hardenedOffset_def demo_hm_def scalar_of_def S curveOrder_def)
  then obtain p where p: "DepositPublicKey demo_group demo_hm ?k 3 = Inr p" by (simp add: DepositPublicKey_def)
  from watcher_and_signer_agree [OF demo_group_laws h k _ p, of demo_hash] p show ?thesis by auto
qed

end
