(* ===== verification/Quorum.thy ===== *)
theory Quorum
  imports Base58 "HOL-Library.AList"
begin

text \<open>
  How the BSC watcher reads a chain through several providers it does not trust
  (\<open>depositwatcher/internal/chain\<close>: \<open>agreement.go\<close>, \<open>finality.go\<close>, \<open>logs.go\<close>; \<open>internal/finality/async.go\<close>).

  \<^item> A query is sent to every provider; what they answer is a list of names with an answer or an error.
    \<open>resolveAgreement\<close> takes the answer that enough of them gave. The order in which Go walks a map of
    groups is that of their first answers here; \<open>resolveAgreement_iff\<close> shows that it does not matter.
  \<^item> \<open>CandidateConfirmations\<close> collects, for one deposit, what each provider said on its own. Its two maps are
    association lists. The note on a disagreement is left out, the flag kept.
  \<^item> The health of providers, which only a status page reads, is left out.
\<close>

section \<open>Agreement\<close>

record 'k named_result =
  nr_name :: string
  nr_key :: "'k option"

type_synonym 'k groups = "('k \<times> string list) list"

definition names_of :: "'k groups \<Rightarrow> 'k \<Rightarrow> string list" where
  "names_of gs k = (case map_of gs k of None \<Rightarrow> [] | Some ns \<Rightarrow> ns)"

definition add_result :: "'k named_result \<Rightarrow> 'k groups \<Rightarrow> 'k groups" where
  "add_result r gs = (case nr_key r of None \<Rightarrow> gs | Some k \<Rightarrow> AList.update k (names_of gs k @ [nr_name r]) gs)"

datatype agree_error = ErrNoAgreement | ErrAmbiguousAgreement

text \<open>The loop over the groups, with the winner so far, how many reported it, and whether another group
  has as many.\<close>

fun contend :: "nat \<Rightarrow> 'k groups \<Rightarrow> 'k option \<times> nat \<times> bool \<Rightarrow> 'k option \<times> nat \<times> bool" where
  "contend least [] best = best"
| "contend least ((k, names) # gs) (winner, votes, ambiguous) =
     contend least gs
       (if length names < least then (winner, votes, ambiguous)
        else if votes = 0 then (Some k, length names, ambiguous)
        else if length names = votes then (winner, votes, True)
        else if votes < length names then (Some k, length names, False)
        else (winner, votes, ambiguous))"

text \<open>The answer, and the providers that gave it.\<close>

definition resolveAgreement :: "nat \<Rightarrow> 'k named_result list \<Rightarrow> agree_error + 'k \<times> string list" where
  "resolveAgreement least results =
     (let gs = fold add_result results [] in
      case contend least gs (None, 0, False) of
        (_, _, True) \<Rightarrow> Inl ErrAmbiguousAgreement
      | (None, _, _) \<Rightarrow> Inl ErrNoAgreement
      | (Some k, _, _) \<Rightarrow> Inr (k, names_of gs k))"

text \<open>Who reported what.\<close>

definition reporters :: "'k named_result list \<Rightarrow> 'k \<Rightarrow> string list" where
  "reporters results k = map nr_name (filter (\<lambda>r. nr_key r = Some k) results)"

lemma names_of_update: "names_of (AList.update k ns gs) j = (if j = k then ns else names_of gs j)"
  by (simp add: names_of_def update_conv')

lemma groups_names: "names_of (fold add_result results gs) k = names_of gs k @ reporters results k"
  by (induction results arbitrary: gs)
    (auto simp: add_result_def names_of_update reporters_def split: option.splits)

lemma groups_distinct: "distinct (map fst gs) \<Longrightarrow> distinct (map fst (fold add_result results gs))"
  by (induction results arbitrary: gs) (auto simp: add_result_def distinct_update split: option.splits)

text \<open>What the loop knows of the groups it has seen.\<close>

definition contended :: "nat \<Rightarrow> 'k groups \<Rightarrow> 'k option \<times> nat \<times> bool \<Rightarrow> bool" where
  "contended least seen best \<longleftrightarrow> (case best of (winner, votes, ambiguous) \<Rightarrow>
     (votes = 0 \<longrightarrow> winner = None \<and> \<not> ambiguous) \<and>
     (\<forall>g \<in> set seen. least \<le> length (snd g) \<longrightarrow> length (snd g) \<le> votes) \<and>
     (0 < votes \<longrightarrow> least \<le> votes \<and> (\<exists>g \<in> set seen. winner = Some (fst g) \<and> length (snd g) = votes)) \<and>
     (ambiguous \<longrightarrow> (\<exists>g \<in> set seen. \<exists>h \<in> set seen. fst g \<noteq> fst h \<and> length (snd g) = votes \<and> length (snd h) = votes)) \<and>
     (\<not> ambiguous \<longrightarrow> (\<forall>g \<in> set seen. least \<le> length (snd g) \<longrightarrow> length (snd g) = votes \<longrightarrow> winner = Some (fst g))))"

lemma contended_step:
  assumes "contended least seen (winner, votes, amb)" and "1 \<le> least" and "k \<notin> fst ` set seen"
  shows "contended least ((k, ns) # seen)
       (if length ns < least then (winner, votes, amb)
        else if votes = 0 then (Some k, length ns, amb)
        else if length ns = votes then (winner, votes, True)
        else if votes < length ns then (Some k, length ns, False) else (winner, votes, amb))"
proof -
  note c = assms(1) [unfolded contended_def prod.case]
  consider "length ns < least" | "least \<le> length ns" "votes = 0" | "least \<le> length ns" "0 < votes" "length ns = votes"
    | "least \<le> length ns" "votes < length ns" "0 < votes" | "least \<le> length ns" "0 < votes" "length ns < votes"
    by linarith
  then show ?thesis
  proof cases
    case 1
    then show ?thesis using c by (simp add: contended_def) blast
  next
    case 2
    then have "\<forall>g \<in> set seen. length (snd g) < least" using c assms(2) by force
    then show ?thesis using c 2 assms(2) by (simp add: contended_def) force
  next
    case 3
    then obtain g where "g \<in> set seen" "length (snd g) = votes" using c by auto
    moreover from this have "fst g \<noteq> k" using assms(3) by auto
    ultimately have two: "\<exists>g \<in> set ((k, ns) # seen). \<exists>h \<in> set ((k, ns) # seen). fst g \<noteq> fst h \<and> length (snd g) = votes \<and> length (snd h) = votes"
      using 3 by (intro bexI [of _ g] bexI [of _ "(k, ns)"]) auto
    have "least \<le> votes \<and> (\<exists>g \<in> set seen. winner = Some (fst g) \<and> length (snd g) = votes)" using c 3(2) by blast
    then have won: "least \<le> votes \<and> (\<exists>g \<in> set ((k, ns) # seen). winner = Some (fst g) \<and> length (snd g) = votes)" by auto
    have all: "\<forall>g \<in> set ((k, ns) # seen). least \<le> length (snd g) \<longrightarrow> length (snd g) \<le> votes" using c 3(3) by simp
    have "contended least ((k, ns) # seen) (winner, votes, True)"
      unfolding contended_def prod.case using two won all 3(2) by blast
    then show ?thesis using 3 by simp
  next
    case 4
    have less: "length (snd g) < length ns" if "g \<in> set seen" for g
    proof (cases "least \<le> length (snd g)")
      case True
      then have "length (snd g) \<le> votes" using c that by blast
      then show ?thesis using 4 by linarith
    next
      case False
      then show ?thesis using 4 by linarith
    qed
    then have "contended least ((k, ns) # seen) (Some k, length ns, False)"
      using 4 assms(2) less_imp_le [OF less] by (fastforce simp: contended_def)
    then show ?thesis using 4 by simp
  next
    case 5
    then show ?thesis using c assms(2) by (simp add: contended_def)
  qed
qed

lemma contended_run:
  "contended least seen best \<Longrightarrow> 1 \<le> least \<Longrightarrow> distinct (map fst (seen @ gs)) \<Longrightarrow>
     contended least (rev gs @ seen) (contend least gs best)"
proof (induction gs arbitrary: seen best)
  case (Cons g gs)
  obtain k ns where g: "g = (k, ns)" by fastforce
  obtain winner votes amb where b: "best = (winner, votes, amb)" by (cases best)
  have k: "k \<notin> fst ` set seen" using Cons.prems(3) g by auto
  have "distinct (map fst ((g # seen) @ gs))" using Cons.prems(3) by auto
  from Cons.IH [OF contended_step [OF Cons.prems(1) [unfolded b] Cons.prems(2) k, of ns, folded g] Cons.prems(2) this]
  show ?case by (simp add: g b)
qed simp

text \<open>An answer wins when enough providers gave it and fewer gave any other.\<close>

lemma resolveAgreement_iff:
  assumes least: "1 \<le> least"
  shows "resolveAgreement least results = Inr (k, names) \<longleftrightarrow>
    names = reporters results k \<and> least \<le> length names \<and>
    (\<forall>j. j \<noteq> k \<longrightarrow> length (reporters results j) < length names)"
proof -
  let ?gs = "fold add_result results []"
  have d: "distinct (map fst ?gs)" by (rule groups_distinct) simp
  have n: "names_of ?gs j = reporters results j" for j using groups_names [of results "[]"] by (simp add: names_of_def)
  have grp: "(j, ns) \<in> set ?gs \<Longrightarrow> ns = reporters results j" for j ns
    using n [of j] d by (auto simp: names_of_def)
  have has: "reporters results j \<noteq> [] \<Longrightarrow> (j, reporters results j) \<in> set ?gs" for j
    using n [of j] by (auto simp: names_of_def dest: map_of_SomeD split: option.splits)
  obtain winner votes amb where c: "contend least ?gs (None, 0, False) = (winner, votes, amb)" by (cases "contend least ?gs (None, 0, False)")
  have "contended least (rev ?gs @ []) (winner, votes, amb)"
    unfolding c [symmetric] by (rule contended_run) (use least d in \<open>simp_all add: contended_def\<close>)
  then have inv: "contended least ?gs (winner, votes, amb)" by (simp only: contended_def append_Nil2 set_rev)
  have r: "resolveAgreement least results = (if amb then Inl ErrAmbiguousAgreement
      else case winner of None \<Rightarrow> Inl ErrNoAgreement | Some w \<Rightarrow> Inr (w, reporters results w))"
    by (simp add: resolveAgreement_def Let_def c n split: bool.splits option.splits)
  show ?thesis
  proof
    assume "resolveAgreement least results = Inr (k, names)"
    then have w: "\<not> amb" "winner = Some k" "names = reporters results k"
      unfolding r by (auto split: if_splits option.splits)
    then have v: "0 < votes" using inv by (auto simp: contended_def)
    obtain g where "g \<in> set ?gs" "k = fst g" "length (snd g) = votes" "least \<le> votes"
      using inv w v by (auto simp: contended_def)
    then have len: "length names = votes" "least \<le> length names" using grp [of k "snd g"] w(3) by auto
    have "length (reporters results j) < length names" if "j \<noteq> k" for j
    proof (rule ccontr)
      assume "\<not> ?thesis"
      then have big: "votes \<le> length (reporters results j)" using len by simp
      then have "reporters results j \<noteq> []" using v by auto
      from has [OF this] have "(j, reporters results j) \<in> set ?gs" .
      then have "length (reporters results j) \<le> votes" "length (reporters results j) = votes \<longrightarrow> winner = Some j"
        using inv w(1) big len by (fastforce simp: contended_def)+
      then show False using big w(2) that by simp
    qed
    then show "names = reporters results k \<and> least \<le> length names \<and>
      (\<forall>j. j \<noteq> k \<longrightarrow> length (reporters results j) < length names)" using w len by blast
  next
    assume h: "names = reporters results k \<and> least \<le> length names \<and>
      (\<forall>j. j \<noteq> k \<longrightarrow> length (reporters results j) < length names)"
    then have ne: "reporters results k \<noteq> []" using least by auto
    from has [OF this] have "length names \<le> votes" using inv h by (fastforce simp: contended_def)
    then have v: "0 < votes" using h least by linarith
    obtain g where g: "g \<in> set ?gs" "winner = Some (fst g)" "length (snd g) = votes"
      using inv v by (auto simp: contended_def)
    then have "fst g = k" using grp [of "fst g" "snd g"] h \<open>length names \<le> votes\<close> by (metis not_less prod.collapse)
    moreover have "\<not> amb"
    proof
      assume amb
      then obtain a b where ab: "a \<in> set ?gs" "b \<in> set ?gs" "fst a \<noteq> fst b" "length (snd a) = votes" "length (snd b) = votes"
        using inv by (auto simp: contended_def)
      then show False using grp [of "fst a" "snd a"] grp [of "fst b" "snd b"] h \<open>length names \<le> votes\<close>
        by (metis not_less prod.collapse)
    qed
    ultimately show "resolveAgreement least results = Inr (k, names)" using g h unfolding r by simp
  qed
qed

section \<open>What each provider confirms on its own\<close>

type_synonym hash_key = "nat \<times> string"

type_synonym facts_key = "hash_key \<times> int64 \<times> int64"

record observation =
  ob_height :: nat
  ob_hash :: string
  ob_present :: bool
  ob_order :: int64
  ob_amount :: int64

definition hashKey :: "observation \<Rightarrow> hash_key" where
  "hashKey o' = (ob_height o', ob_hash o')"

definition factsKey :: "observation \<Rightarrow> facts_key" where
  "factsKey o' = (hashKey o', ob_order o', ob_amount o')"

datatype async_status = AsyncPending | AsyncQuorumReached | AsyncNotFound | AsyncDisagreementAlert

record confirmations =
  cc_min :: nat
  cc_present :: "(string \<times> facts_key) list"
  cc_absent :: "(string \<times> hash_key) list"
  cc_disagreement :: bool

definition NewCandidateConfirmations :: "int \<Rightarrow> confirmations" where
  "NewCandidateConfirmations least =
     \<lparr>cc_min = nat (if least < 1 then 1 else least), cc_present = [], cc_absent = [], cc_disagreement = False\<rparr>"

definition status_of :: "confirmations \<Rightarrow> async_status" where
  "status_of c =
     (if cc_disagreement c then AsyncDisagreementAlert
      else if cc_min c \<le> length (cc_present c) then AsyncQuorumReached
      else if cc_min c \<le> length (cc_absent c) then AsyncNotFound
      else AsyncPending)"

text \<open>The map an observation belongs in; the provider leaves the other one.\<close>

definition note_observation :: "string \<Rightarrow> observation \<Rightarrow> confirmations \<Rightarrow> confirmations" where
  "note_observation name o' c =
     (if ob_present o' then c\<lparr>cc_absent := AList.delete name (cc_absent c), cc_present := AList.update name (factsKey o') (cc_present c)\<rparr>
      else c\<lparr>cc_present := AList.delete name (cc_present c), cc_absent := AList.update name (hashKey o') (cc_absent c)\<rparr>)"

definition recordDisagreement :: "string \<Rightarrow> observation \<Rightarrow> confirmations \<Rightarrow> confirmations \<times> async_status" where
  "recordDisagreement name o' c = (note_observation name o' (c\<lparr>cc_disagreement := True\<rparr>), AsyncDisagreementAlert)"

definition RecordConfirmed :: "string \<Rightarrow> observation \<Rightarrow> confirmations \<Rightarrow> confirmations \<times> async_status" where
  "RecordConfirmed name o' c =
     (if list_ex (\<lambda>(other, f). other \<noteq> name \<and> fst f \<noteq> hashKey o') (cc_present c) then recordDisagreement name o' c
      else if list_ex (\<lambda>(other, h). other \<noteq> name \<and> h \<noteq> hashKey o') (cc_absent c) then recordDisagreement name o' c
      else if \<not> ob_present o' then (let c' = note_observation name o' c in (c', status_of c'))
      else if list_ex (\<lambda>(other, f). other \<noteq> name \<and> f \<noteq> factsKey o') (cc_present c) then recordDisagreement name o' c
      else (let c' = note_observation name o' c in (c', status_of c')))"

definition ConfirmedProviders :: "confirmations \<Rightarrow> string list" where
  "ConfirmedProviders c = sort (map fst (cc_present c))"

definition AbsentProviders :: "confirmations \<Rightarrow> string list" where
  "AbsentProviders c = sort (map fst (cc_absent c))"

text \<open>Heights of a provider never go back.\<close>

definition CheckHeight :: "string \<Rightarrow> nat \<Rightarrow> (string \<times> nat) list \<Rightarrow> (string \<times> nat) list \<times> bool" where
  "CheckHeight name height marks =
     (case map_of marks name of
        None \<Rightarrow> (AList.update name height marks, True)
      | Some prior \<Rightarrow>
        if height < prior then (marks, False)
        else if prior < height then (AList.update name height marks, True) else (marks, True))"

text \<open>Everything that was observed, in order.\<close>

definition observe_all :: "int \<Rightarrow> (string \<times> observation) list \<Rightarrow> confirmations" where
  "observe_all least obs = fold (\<lambda>(name, o') c. fst (RecordConfirmed name o' c)) obs (NewCandidateConfirmations least)"

definition latest_of :: "(string \<times> observation) list \<Rightarrow> string \<Rightarrow> observation option" where
  "latest_of obs name = map_of (rev obs) name"

text \<open>The maps hold the latest observation of each provider. As long as nobody disagrees, all of them are
  of one block, and the present ones of one deposit.\<close>

definition confirmations_ok :: "(string \<times> observation) list \<Rightarrow> confirmations \<Rightarrow> bool" where
  "confirmations_ok obs c \<longleftrightarrow>
     distinct (map fst (cc_present c)) \<and> distinct (map fst (cc_absent c)) \<and>
     (\<forall>name f. map_of (cc_present c) name = Some f \<longleftrightarrow>
        (\<exists>o'. latest_of obs name = Some o' \<and> ob_present o' \<and> f = factsKey o')) \<and>
     (\<forall>name h. map_of (cc_absent c) name = Some h \<longleftrightarrow>
        (\<exists>o'. latest_of obs name = Some o' \<and> \<not> ob_present o' \<and> h = hashKey o')) \<and>
     (\<not> cc_disagreement c \<longrightarrow>
        (\<forall>name other o1 o2. latest_of obs name = Some o1 \<longrightarrow> latest_of obs other = Some o2 \<longrightarrow>
           hashKey o1 = hashKey o2 \<and> (ob_present o1 \<longrightarrow> ob_present o2 \<longrightarrow> factsKey o1 = factsKey o2)))"

lemma latest_of_snoc: "latest_of (obs @ [(name, o')]) p = (if p = name then Some o' else latest_of obs p)"
  by (simp add: latest_of_def)

lemma note_observation_maps:
  "map_of (cc_present (note_observation name o' c)) p =
     (if p = name then (if ob_present o' then Some (factsKey o') else None) else map_of (cc_present c) p)"
  "map_of (cc_absent (note_observation name o' c)) p =
     (if p = name then (if ob_present o' then None else Some (hashKey o')) else map_of (cc_absent c) p)"
  by (simp_all add: note_observation_def update_conv' delete_conv')

lemma note_observation_distinct:
  "distinct (map fst (cc_present c)) \<Longrightarrow> distinct (map fst (cc_absent c)) \<Longrightarrow>
     distinct (map fst (cc_present (note_observation name o' c))) \<and> distinct (map fst (cc_absent (note_observation name o' c)))"
  by (simp add: note_observation_def distinct_update distinct_delete)

definition conflicts :: "string \<Rightarrow> observation \<Rightarrow> confirmations \<Rightarrow> bool" where
  "conflicts name o' c \<longleftrightarrow>
     (\<exists>(other, f) \<in> set (cc_present c). other \<noteq> name \<and> (fst f \<noteq> hashKey o' \<or> ob_present o' \<and> f \<noteq> factsKey o')) \<or>
     (\<exists>(other, h) \<in> set (cc_absent c). other \<noteq> name \<and> h \<noteq> hashKey o')"

lemma RecordConfirmed_note:
  "fst (RecordConfirmed name o' c) =
     note_observation name o' (c\<lparr>cc_disagreement := cc_disagreement c \<or> conflicts name o' c\<rparr>)"
  "snd (RecordConfirmed name o' c) = status_of (fst (RecordConfirmed name o' c))"
proof -
  let ?dis = "list_ex (\<lambda>(other, f). other \<noteq> name \<and> fst f \<noteq> hashKey o') (cc_present c) \<or>
      list_ex (\<lambda>(other, h). other \<noteq> name \<and> h \<noteq> hashKey o') (cc_absent c) \<or>
      ob_present o' \<and> list_ex (\<lambda>(other, f). other \<noteq> name \<and> f \<noteq> factsKey o') (cc_present c)"
  have iff: "?dis \<longleftrightarrow> conflicts name o' c" unfolding conflicts_def list_ex_iff by blast
  have r: "RecordConfirmed name o' c =
      (if ?dis then recordDisagreement name o' c else (note_observation name o' c, status_of (note_observation name o' c)))"
    by (simp add: RecordConfirmed_def Let_def)
  have same: "c\<lparr>cc_disagreement := cc_disagreement c\<rparr> = c" by simp
  show "fst (RecordConfirmed name o' c) =
     note_observation name o' (c\<lparr>cc_disagreement := cc_disagreement c \<or> conflicts name o' c\<rparr>)"
    unfolding r iff by (simp add: recordDisagreement_def)
  show "snd (RecordConfirmed name o' c) = status_of (fst (RecordConfirmed name o' c))"
    unfolding r by (simp add: recordDisagreement_def status_of_def note_observation_def)
qed

lemma RecordConfirmed_ok:
  assumes ok: "confirmations_ok obs c"
  shows "confirmations_ok (obs @ [(name, o')]) (fst (RecordConfirmed name o' c))"
proof -
  let ?c = "note_observation name o' (c\<lparr>cc_disagreement := cc_disagreement c \<or> conflicts name o' c\<rparr>)"
  have pres: "map_of (cc_present c) q = Some f \<longleftrightarrow> (\<exists>o1. latest_of obs q = Some o1 \<and> ob_present o1 \<and> f = factsKey o1)"
    and absn: "map_of (cc_absent c) q = Some h \<longleftrightarrow> (\<exists>o1. latest_of obs q = Some o1 \<and> \<not> ob_present o1 \<and> h = hashKey o1)" for q f h
    using ok unfolding confirmations_ok_def by blast+
  have others: "hashKey o1 = hashKey o' \<and> (ob_present o1 \<longrightarrow> ob_present o' \<longrightarrow> factsKey o1 = factsKey o')"
    if "\<not> conflicts name o' c" "q \<noteq> name" "latest_of obs q = Some o1" for q o1
  proof (cases "ob_present o1")
    case True
    then have "(q, factsKey o1) \<in> set (cc_present c)" using pres that(3) map_of_SomeD by metis
    then have "fst (factsKey o1) = hashKey o'" "ob_present o' \<longrightarrow> factsKey o1 = factsKey o'"
      using that(1,2) unfolding conflicts_def by blast+
    then show ?thesis by (simp add: factsKey_def)
  next
    case False
    then have "(q, hashKey o1) \<in> set (cc_absent c)" using absn that(3) map_of_SomeD by metis
    then show ?thesis using that(1,2) False unfolding conflicts_def by blast
  qed
  have agree: "hashKey o1 = hashKey o2 \<and> (ob_present o1 \<longrightarrow> ob_present o2 \<longrightarrow> factsKey o1 = factsKey o2)"
    if d: "\<not> cc_disagreement c" "\<not> conflicts name o' c"
      and l: "latest_of (obs @ [(name, o')]) q = Some o1" "latest_of (obs @ [(name, o')]) q' = Some o2" for q q' o1 o2
  proof -
    have old: "hashKey a = hashKey b \<and> (ob_present a \<longrightarrow> ob_present b \<longrightarrow> factsKey a = factsKey b)"
      if "latest_of obs q = Some a" "latest_of obs q' = Some b" for a b
      using ok d(1) that unfolding confirmations_ok_def by blast
    show ?thesis using l old others [OF d(2)] by (auto simp: latest_of_snoc split: if_splits)
  qed
  have dis: "cc_disagreement ?c \<longleftrightarrow> cc_disagreement c \<or> conflicts name o' c" by (simp add: note_observation_def)
  have "confirmations_ok (obs @ [(name, o')]) ?c"
    unfolding confirmations_ok_def dis
  proof (intro conjI)
    show "distinct (map fst (cc_present ?c))" "distinct (map fst (cc_absent ?c))"
      using note_observation_distinct [of "c\<lparr>cc_disagreement := cc_disagreement c \<or> conflicts name o' c\<rparr>" name o'] ok
      by (simp_all add: confirmations_ok_def)
    show "\<forall>q f. map_of (cc_present ?c) q = Some f \<longleftrightarrow>
        (\<exists>o1. latest_of (obs @ [(name, o')]) q = Some o1 \<and> ob_present o1 \<and> f = factsKey o1)"
      by (auto simp: note_observation_maps latest_of_snoc pres)
    show "\<forall>q h. map_of (cc_absent ?c) q = Some h \<longleftrightarrow>
        (\<exists>o1. latest_of (obs @ [(name, o')]) q = Some o1 \<and> \<not> ob_present o1 \<and> h = hashKey o1)"
      by (auto simp: note_observation_maps latest_of_snoc absn)
    show "\<not> (cc_disagreement c \<or> conflicts name o' c) \<longrightarrow> (\<forall>q q' o1 o2. latest_of (obs @ [(name, o')]) q = Some o1 \<longrightarrow>
        latest_of (obs @ [(name, o')]) q' = Some o2 \<longrightarrow>
        hashKey o1 = hashKey o2 \<and> (ob_present o1 \<longrightarrow> ob_present o2 \<longrightarrow> factsKey o1 = factsKey o2))"
      using agree by blast
  qed
  then show ?thesis unfolding RecordConfirmed_note .
qed

lemma observe_all_snoc:
  "observe_all least (obs @ [(name, o')]) = fst (RecordConfirmed name o' (observe_all least obs))"
  by (simp add: observe_all_def)

lemma observe_all_ok: "confirmations_ok obs (observe_all least obs)"
proof (induction obs rule: rev_induct)
  case Nil
  then show ?case by (simp add: observe_all_def NewCandidateConfirmations_def confirmations_ok_def latest_of_def)
next
  case (snoc x obs)
  obtain name o' where "x = (name, o')" by fastforce
  then show ?case using RecordConfirmed_ok [OF snoc] by (simp add: observe_all_snoc)
qed

lemma observe_all_min: "cc_min (observe_all least obs) = nat (max 1 least)"
proof (induction obs rule: rev_induct)
  case (snoc x obs)
  obtain name o' where "x = (name, o')" by fastforce
  then show ?case using snoc unfolding RecordConfirmed_note [THEN sym] observe_all_snoc
    by (simp add: observe_all_snoc RecordConfirmed_note note_observation_def)
qed (simp add: observe_all_def NewCandidateConfirmations_def)

end
