(* ===== verification/Deposits.thy ===== *)
theory Deposits
  imports Ledger_Api_Inv Wallet_Pool Quorum
begin

text \<open>
  The deposits a BSC watcher has seen (\<open>depositwatcher/internal\<close>: \<open>money/money.go\<close>, \<open>chain/classify.go\<close>,
  \<open>deposits/deposits.go\<close>, \<open>orphaned/orphaned.go\<close>) and its client of the ledger
  (\<open>internal/ledgerclient\<close>), which posts one entry for each.

  \<^item> A token transfer is a \<open>chain_log\<close>; what it pays a customer's order is an \<open>observed\<close>, the struct
    \<open>ObservedLog\<close>. Amounts have one asset, so the watcher's type \<open>Amount\<close> is \<open>int64\<close>.
  \<^item> \<open>deposit_row\<close> is a row of \<open>deposits\<close>, \<open>orphan_row\<close> one of \<open>orphaned_deposits\<close>; a deposit is named by
    its transaction and the index of its log.
  \<^item> The requests to the ledger are those of \<open>Ledger_Api\<close>. An address is the text \<open>hex\<close> makes of 20 bytes.
\<close>

section \<open>Logs and amounts\<close>

record chain_log =
  lg_address :: bytes
  lg_topics :: "bytes list"
  lg_data :: bytes
  lg_tx :: string
  lg_block :: nat
  lg_txindex :: nat
  lg_index :: nat

type_synonym deposit_key = "string \<times> nat"

definition log_key :: "chain_log \<Rightarrow> deposit_key" where
  "log_key l = (lg_tx l, lg_index l)"

definition sortLogs :: "chain_log list \<Rightarrow> chain_log list" where
  "sortLogs = sort_key (\<lambda>l. (lg_block l, lg_txindex l, lg_index l))"

datatype log_error = ErrWrongToken | ErrAmountOverflow

definition usdtDecimals :: nat where "usdtDecimals = 6"

definition TokenDecimals :: nat where "TokenDecimals = 18"

definition FromOnChainUnits :: "nat \<Rightarrow> nat \<Rightarrow> log_error + int64" where
  "FromOnChainUnits raw onChainDecimals =
     (let scaled = raw div 10 ^ (onChainDecimals - usdtDecimals) in
      if max_int64 < int scaled then Inl ErrAmountOverflow else Inr (of_nat scaled))"

text \<open>The topic of the event \<open>Transfer(address,address,uint256)\<close>, a hash.\<close>

definition ParseTransferLog :: "bytes \<Rightarrow> chain_log \<Rightarrow> log_error + bytes \<times> bytes \<times> int64" where
  "ParseTransferLog transferTopic l =
     (if length (lg_topics l) \<noteq> 3 \<or> lg_topics l ! 0 \<noteq> transferTopic then Inl ErrWrongToken
      else if length (lg_data l) \<noteq> 32 then Inl ErrWrongToken
      else rbind (FromOnChainUnits (SetBytes (lg_data l)) TokenDecimals) (\<lambda>amount.
        Inr (drop 12 (lg_topics l ! 1), drop 12 (lg_topics l ! 2), amount)))"

datatype classification = Exact | Overpay | Underpay | Dust | ZeroValue

definition ClassifyAgainstOrder :: "int64 \<Rightarrow> int64 \<Rightarrow> int64 \<Rightarrow> classification" where
  "ClassifyAgainstOrder amount quoted dustFloor =
     (if amount = 0 then ZeroValue
      else if amount = quoted then Exact
      else if quoted <s amount then Overpay
      else if amount <s dustFloor then Dust
      else Underpay)"

record observed =
  ob_tx :: string
  ob_index :: nat
  ob_block :: nat
  ob_block_time :: time
  ob_order_id :: int64
  ob_external :: string
  ob_customer :: string
  ob_units :: int64
  ob_sender :: string
  ob_address :: string

definition observed_key :: "observed \<Rightarrow> deposit_key" where
  "observed_key c = (ob_tx c, ob_index c)"

section \<open>Tables\<close>

datatype deposit_status = Detected | Reported | Orphaned | Dropped

record deposit_row =
  dr_log :: observed
  dr_class :: classification
  dr_status :: deposit_status

definition dr_key :: "deposit_row \<Rightarrow> deposit_key" where
  "dr_key r = observed_key (dr_log r)"

record orphan_row =
  or_id :: int
  or_order :: int64
  or_external :: string
  or_key :: deposit_key
  or_units :: int64
  or_detected_at :: time
  or_state :: string
  or_address :: "string option"
  or_resolution :: "string option"
  or_resolved_at :: "time option"
  or_resolved_by :: "string option"

record watch_db =
  wd_deposits :: "deposit_row list"
  wd_orphans :: "orphan_row list"
  wd_orphan_seq :: int
  wd_scanned :: nat
  wd_candidates :: "nat option"

definition empty_watch_db :: watch_db where
  "empty_watch_db = \<lparr>wd_deposits = [], wd_orphans = [], wd_orphan_seq = 0, wd_scanned = 0, wd_candidates = None\<rparr>"

text \<open>\<open>Save\<close> answers with the status of the row when there was one.\<close>

definition SaveDeposit :: "observed \<Rightarrow> classification \<Rightarrow> watch_db \<Rightarrow> watch_db \<times> deposit_status option" where
  "SaveDeposit c cls db =
     (case first_row (\<lambda>r. dr_key r = observed_key c) (wd_deposits db) of
        Some r \<Rightarrow> (db, Some (dr_status r))
      | None \<Rightarrow> (db\<lparr>wd_deposits := wd_deposits db @ [\<lparr>dr_log = c, dr_class = cls, dr_status = Detected\<rparr>]\<rparr>, None))"

definition SetStatus :: "deposit_key \<Rightarrow> deposit_status \<Rightarrow> watch_db \<Rightarrow> watch_db" where
  "SetStatus k st db = db\<lparr>wd_deposits := update_rows (\<lambda>r. dr_key r = k) (\<lambda>r. r\<lparr>dr_status := st\<rparr>) (wd_deposits db)\<rparr>"

definition LoadDetected :: "watch_db \<Rightarrow> deposit_row list" where
  "LoadDetected db =
     sort_key (\<lambda>r. (ob_block (dr_log r), dr_key r)) (filter (\<lambda>r. dr_status r = Detected) (wd_deposits db))"

definition ForOrder :: "watch_db \<Rightarrow> int64 \<Rightarrow> deposit_row list" where
  "ForOrder db i = sort_key (\<lambda>r. (ob_block (dr_log r), ob_index (dr_log r)))
     (filter (\<lambda>r. ob_order_id (dr_log r) = i) (wd_deposits db))"

definition RecordOrphan ::
  "int64 \<Rightarrow> string \<Rightarrow> deposit_key \<Rightarrow> int64 \<Rightarrow> time \<Rightarrow> string \<Rightarrow> string \<Rightarrow> watch_db \<Rightarrow> watch_db" where
  "RecordOrphan i ext k amt now st addr db =
     (if list_ex (\<lambda>o'. or_key o' = k) (wd_orphans db) then db
      else db\<lparr>wd_orphan_seq := wd_orphan_seq db + 1, wd_orphans := wd_orphans db @
        [\<lparr>or_id = wd_orphan_seq db + 1, or_order = i, or_external = ext, or_key = k, or_units = amt,
          or_detected_at = pg_time now, or_state = st, or_address = (if addr = '''' then None else Some addr),
          or_resolution = None, or_resolved_at = None, or_resolved_by = None\<rparr>]\<rparr>)"

datatype orphan_error = ErrOrphanNotFound | ErrAlreadyResolved

definition GetOrphan :: "watch_db \<Rightarrow> int \<Rightarrow> orphan_error + orphan_row" where
  "GetOrphan db i =
     (case first_row (\<lambda>o'. or_id o' = i) (wd_orphans db) of None \<Rightarrow> Inl ErrOrphanNotFound | Some o' \<Rightarrow> Inr o')"

definition ListOrphans :: "bool option \<Rightarrow> watch_db \<Rightarrow> orphan_row list" where
  "ListOrphans resolved db =
     rev (sort_key or_detected_at (filter (\<lambda>o'. case resolved of None \<Rightarrow> True
       | Some b \<Rightarrow> (or_resolution o' \<noteq> None) = b) (rev (wd_orphans db))))"

definition ResolveOrphan :: "time \<Rightarrow> int \<Rightarrow> string \<Rightarrow> string \<Rightarrow> watch_db \<Rightarrow> orphan_error + watch_db" where
  "ResolveOrphan now i resolution actor db =
     (let p = (\<lambda>o'. or_id o' = i \<and> or_resolution o' = None) in
      if affected p (wd_orphans db) = 0 then
        (case GetOrphan db i of Inl _ \<Rightarrow> Inl ErrOrphanNotFound | Inr _ \<Rightarrow> Inl ErrAlreadyResolved)
      else Inr (db\<lparr>wd_orphans := update_rows p (\<lambda>o'. o'\<lparr>or_resolution := Some resolution, or_resolved_at := Some now,
        or_resolved_by := Some actor\<rparr>) (wd_orphans db)\<rparr>))"

section \<open>Requests to the ledger\<close>

definition DepositFinalIdempotencyKey :: "deposit_key \<Rightarrow> string" where
  "DepositFinalIdempotencyKey k = ''watcher:deposit_final:'' @ fst k @ '':'' @ fmt_int (int (snd k))"

definition usdt :: "int64 \<Rightarrow> string" where
  "usdt a = formatted (Amount USDT_BEP20 a)"

definition watch_GetOrder :: "string \<Rightarrow> ledger_server \<Rightarrow> client_error + order_json" where
  "watch_GetOrder ext srv = api (getOrder ext srv)"

definition QuotedAmount :: "string \<Rightarrow> ledger_server \<Rightarrow> client_error + int64" where
  "QuotedAmount ext srv =
     rbind (watch_GetOrder ext srv) (\<lambda>ord.
     rbind (lift_amount (ParseDecimal (oj_amount_in ord) USDT_BEP20)) (\<lambda>a. Inr (amt_units a)))"

definition depositAccountCode :: "string \<Rightarrow> int64 \<Rightarrow> string" where
  "depositAccountCode tier i = (if tier = ''RELAY'' then ''asset:relay:leg:'' else ''asset:bsc:deposit:'') @ FormatInt i"

definition customerAccountCode :: "string \<Rightarrow> string" where
  "customerAccountCode customer = ''liability:customer:'' @ customer @ '':USDT_BEP20''"

text \<open>The body of the report: the order becomes funded, with the entry that credits the deposit.\<close>

definition final_request :: "order_json \<Rightarrow> observed \<Rightarrow> transition_json" where
  "final_request ord c =
     \<lparr>tj_to = ''funded'', tj_version = oj_version ord, tj_reason = ''bep20_deposit_final'', tj_occurred_at = ob_block_time c,
      tj_entry = Some \<lparr>ej_type = ''deposit_final'', ej_occurred_at = ob_block_time c,
        ej_lines =
          [\<lparr>lj_account = depositAccountCode (oj_tier ord) (ob_order_id c), lj_asset = ''USDT_BEP20'', lj_amount = usdt (ob_units c)\<rparr>,
           \<lparr>lj_account = customerAccountCode (ob_customer c), lj_asset = ''USDT_BEP20'', lj_amount = usdt (- ob_units c)\<rparr>],
        ej_metadata = None\<rparr>,
      tj_entry_id = None, tj_sender = (if ob_sender c = '''' then None else Some (ob_sender c))\<rparr>"

definition postFinal ::
  "(hash_payload \<Rightarrow> hash) \<Rightarrow> string \<Rightarrow> time \<Rightarrow> order_json \<Rightarrow> observed \<Rightarrow> ledger_server \<Rightarrow> ledger_server \<times> (client_error + unit)" where
  "postFinal digest actor now ord c srv =
     map_prod id (\<lambda>r. rbind (api r) (\<lambda>_. Inr ()))
       (postTransition digest actor (DepositFinalIdempotencyKey (observed_key c)) now (ob_external c) (final_request ord c) srv)"

text \<open>A reorg that was reported before counts as reported.\<close>

definition ReportReorg ::
  "(hash_payload \<Rightarrow> hash) \<Rightarrow> string \<Rightarrow> time \<Rightarrow> string \<Rightarrow> string \<Rightarrow> ledger_server \<Rightarrow> ledger_server \<times> (client_error + unit)" where
  "ReportReorg digest actor now ext original_key srv =
     (case postReorg digest actor now ext original_key srv of
        (srv', Inl ErrAlreadyReversed) \<Rightarrow> (srv', Inr ())
      | (srv', r) \<Rightarrow> (srv', rbind (api r) (\<lambda>_. Inr ())))"

end
