(* ===== verification/Tracker.thy ===== *)
theory Tracker
  imports Deposits
begin

text \<open>
  The BSC watcher at work (\<open>depositwatcher/internal/candidates\<close>, \<open>internal/finality\<close>, the pool of providers in
  \<open>internal/chain\<close> and the recorder of orphans in \<open>cmd/watcherd/engine.go\<close>): it scans new blocks for payments
  to its wallets, keeps each as a candidate until its block is final, and reports it to the ledger.

  \<^item> \<open>watch_sys\<close> is the database, the wallet pool, the ledger behind the client, and what the process keeps in
    memory: the maps \<open>pending\<close> and \<open>finalized\<close> of the struct \<open>Tracker\<close> and the heights of the providers.
  \<^item> An action goes from a state to the next one and an error or a value. Every call to a store, the ledger or
    the chain is a \<open>wcall\<close>: before it others may change the ledger and the leases; it is then answered, refused
    or unheard (theory \<open>Ledger_Api\<close>). A list of refused calls and a restart stand for a crash.
  \<^item> \<open>watch_env\<close> holds the configuration and what each provider answers, which may change from call to call.
    The order in which Go walks a map is a rank of its keys, any at every walk.
  \<^item> Alerts, metrics and the time of detection, which only alerts read, are left out. The loop that follows the
    tip of the chain only moves the height up to which blocks may be scanned: here an event of its own.
\<close>

section \<open>State and calls\<close>

record candidate =
  cd_log :: observed
  cd_class :: classification
  cd_finalized_at :: time
  cd_votes :: "confirmations option"

definition cd_key :: "candidate \<Rightarrow> deposit_key" where
  "cd_key c = observed_key (cd_log c)"

definition cd_height :: "candidate \<Rightarrow> nat" where
  "cd_height c = ob_block (cd_log c)"

record watch_fault =
  wf_ledger :: "(time \<times> ledger_op) list"
  wf_pool :: "(time \<times> pool_op) list"
  wf_reply :: reply

record watch_sys =
  wy_db :: watch_db
  wy_pool :: pool_db
  wy_ledger :: ledger_server
  wy_pending :: "candidate list"
  wy_finalized :: "candidate list"
  wy_heights :: "(string \<times> nat) list"
  wy_faults :: "watch_fault list"
  wy_calls :: nat

record watch_env =
  we_now :: "nat \<Rightarrow> time"
  we_digest :: "hash_payload \<Rightarrow> hash"
  we_actor :: string
  we_least :: nat
  we_providers :: "string list"
  we_final :: "nat \<Rightarrow> string \<Rightarrow> (nat \<times> string) option"
  we_logs :: "nat \<Rightarrow> string \<Rightarrow> nat \<Rightarrow> nat \<Rightarrow> string list option \<Rightarrow> chain_log list option"
  we_block_hash :: "nat \<Rightarrow> string \<Rightarrow> nat \<Rightarrow> string option"
  we_block_secs :: "nat \<Rightarrow> nat \<Rightarrow> nat option"
  we_topic :: bytes
  we_hex :: "bytes \<Rightarrow> string"
  we_is_hex :: "string \<Rightarrow> bool"
  we_canon :: "string \<Rightarrow> string"
  we_dust :: int64
  we_async :: bool
  we_turn :: "nat \<Rightarrow> deposit_key \<Rightarrow> nat"
  we_height_turn :: "nat \<Rightarrow> nat \<Rightarrow> nat"

datatype watch_error =
    CallLost | LedgerSaid client_error | ReportPermanent client_error | NoQuorum agree_error | BadTransfer log_error

type_synonym 'a wact = "watch_sys \<Rightarrow> watch_sys \<times> (watch_error + 'a)"

definition wret :: "'a \<Rightarrow> 'a wact" where "wret x s = (s, Inr x)"

definition wfail :: "watch_error \<Rightarrow> 'a wact" where "wfail e s = (s, Inl e)"

definition wthen :: "'a wact \<Rightarrow> ('a \<Rightarrow> 'b wact) \<Rightarrow> 'b wact" where
  "wthen m k s = (case m s of (s', Inl e) \<Rightarrow> (s', Inl e) | (s', Inr x) \<Rightarrow> k x s')"

text \<open>A loop whose body logs its errors, and one that stops at the first.\<close>

definition weach :: "('a \<Rightarrow> unit wact) \<Rightarrow> 'a list \<Rightarrow> unit wact" where
  "weach f xs s = (fold (\<lambda>x s. fst (f x s)) xs s, Inr ())"

fun wevery :: "('a \<Rightarrow> 'b \<Rightarrow> 'b wact) \<Rightarrow> 'a list \<Rightarrow> 'b \<Rightarrow> 'b wact" where
  "wevery f [] y = wret y"
| "wevery f (x # xs) y = wthen (f x y) (wevery f xs)"

text \<open>An error that is only logged.\<close>

definition wlogged :: "unit wact \<Rightarrow> unit wact" where
  "wlogged m s = (fst (m s), Inr ())"

definition wclock :: "watch_env \<Rightarrow> watch_sys \<Rightarrow> time" where
  "wclock we s = we_now we (wy_calls s)"

definition next_wfault :: "watch_env \<Rightarrow> watch_sys \<Rightarrow> watch_sys \<times> reply" where
  "next_wfault we s =
     (let s = s\<lparr>wy_calls := Suc (wy_calls s)\<rparr> in
      case wy_faults s of
        [] \<Rightarrow> (s, Answered)
      | f # fs \<Rightarrow> (s\<lparr>wy_faults := fs, wy_ledger := others (we_digest we) (wf_ledger f) (wy_ledger s),
            wy_pool := run_ops (pool_exec (we_is_hex we) (we_canon we)) (wf_pool f) (wy_pool s)\<rparr>, wf_reply f))"

definition wcall :: "watch_env \<Rightarrow> 'a wact \<Rightarrow> 'a wact" where
  "wcall we f s =
     (case next_wfault we s of
        (s, Answered) \<Rightarrow> f s
      | (s, Refused) \<Rightarrow> (s, Inl CallLost)
      | (s, Unheard) \<Rightarrow> (fst (f s), Inl CallLost))"

definition store_call :: "watch_env \<Rightarrow> (time \<Rightarrow> watch_db \<Rightarrow> watch_db \<times> 'a) \<Rightarrow> 'a wact" where
  "store_call we g = wcall we (\<lambda>s. case g (wclock we s) (wy_db s) of (db, x) \<Rightarrow> (s\<lparr>wy_db := db\<rparr>, Inr x))"

definition pool_read :: "watch_env \<Rightarrow> (time \<Rightarrow> pool_db \<Rightarrow> 'a) \<Rightarrow> 'a wact" where
  "pool_read we g = wcall we (\<lambda>s. (s, Inr (g (wclock we s) (wy_pool s))))"

definition said :: "client_error + 'a \<Rightarrow> watch_error + 'a" where
  "said r = (case r of Inl e \<Rightarrow> Inl (LedgerSaid e) | Inr x \<Rightarrow> Inr x)"

definition ledger_ask :: "watch_env \<Rightarrow> (ledger_server \<Rightarrow> client_error + 'a) \<Rightarrow> 'a wact" where
  "ledger_ask we g = wcall we (\<lambda>s. (s, said (g (wy_ledger s))))"

definition ledger_tell ::
  "watch_env \<Rightarrow> (time \<Rightarrow> ledger_server \<Rightarrow> ledger_server \<times> (client_error + unit)) \<Rightarrow> unit wact" where
  "ledger_tell we g = wcall we (\<lambda>s.
     case g (wclock we s) (wy_ledger s) of (srv, r) \<Rightarrow> (s\<lparr>wy_ledger := srv\<rparr>, said r))"

definition chain_ask :: "watch_env \<Rightarrow> (nat \<Rightarrow> watch_error + 'a) \<Rightarrow> 'a wact" where
  "chain_ask we g = wcall we (\<lambda>s. (s, g (wy_calls s)))"

section \<open>The chain\<close>

definition agreed :: "agree_error + 'a \<Rightarrow> watch_error + 'a" where
  "agreed r = (case r of Inl e \<Rightarrow> Inl (NoQuorum e) | Inr x \<Rightarrow> Inr x)"

definition latest_final :: "watch_env \<Rightarrow> nat \<Rightarrow> watch_error + nat \<times> string" where
  "latest_final we n =
     rbind (agreed (resolveAgreement (we_least we)
       (map (\<lambda>p. \<lparr>nr_name = p, nr_key = we_final we n p\<rparr>) (we_providers we)))) (\<lambda>(k, _). Inr k)"

definition LatestFinalized :: "watch_env \<Rightarrow> (nat \<times> string) wact" where
  "LatestFinalized we = chain_ask we (latest_final we)"

text \<open>Two providers agree on logs when they give the same ones, in whatever order.\<close>

definition logs_at :: "watch_env \<Rightarrow> nat \<Rightarrow> nat \<Rightarrow> string list option \<Rightarrow> nat \<Rightarrow> watch_error + chain_log list" where
  "logs_at we lo hi wallets n =
     (let answer = (\<lambda>p. we_logs we n p lo hi wallets) in
      rbind (agreed (resolveAgreement (we_least we)
        (map (\<lambda>p. \<lparr>nr_name = p, nr_key = map_option sortLogs (answer p)\<rparr>) (we_providers we)))) (\<lambda>(_, names).
      case answer (hd names) of None \<Rightarrow> Inl CallLost | Some logs \<Rightarrow> Inr logs))"

definition LogsAt :: "watch_env \<Rightarrow> nat \<Rightarrow> nat \<Rightarrow> string list option \<Rightarrow> chain_log list wact" where
  "LogsAt we lo hi wallets = chain_ask we (logs_at we lo hi wallets)"

definition heard :: "'a option \<Rightarrow> watch_error + 'a" where
  "heard r = (case r of None \<Rightarrow> Inl CallLost | Some x \<Rightarrow> Inr x)"

section \<open>Reports\<close>

text \<open>\<open>retry\<close> is what happens on a version conflict.\<close>

definition report_final :: "watch_env \<Rightarrow> unit wact \<Rightarrow> observed \<Rightarrow> unit wact" where
  "report_final we retry c =
     wthen (ledger_ask we (watch_GetOrder (ob_external c))) (\<lambda>ord.
     wthen (ledger_tell we (\<lambda>now. lc_EnsureAccount now (depositAccountCode (oj_tier ord) (ob_order_id c)) ''ASSET'' ''USDT_BEP20'')) (\<lambda>_.
     wthen (ledger_tell we (\<lambda>now. lc_EnsureAccount now (customerAccountCode (ob_customer c)) ''LIABILITY'' ''USDT_BEP20'')) (\<lambda>_ s.
     case ledger_tell we (\<lambda>now. postFinal (we_digest we) (we_actor we) now ord c) s of
       (s', Inl (LedgerSaid e)) \<Rightarrow>
         (if e = ApiError ErrVersionConflict then retry s'
          else if e = ApiError ErrIllegalTransition \<or> e = ApiError ErrIdempotencyConflict then (s', Inl (ReportPermanent e))
          else (s', Inl (LedgerSaid e)))
     | r \<Rightarrow> r)))"

definition ReportDepositFinal :: "watch_env \<Rightarrow> observed \<Rightarrow> unit wact" where
  "ReportDepositFinal we c = report_final we (report_final we (wfail (LedgerSaid (ApiError ErrVersionConflict))) c) c"

text \<open>The recorder of orphans gives no address.\<close>

definition RecordOrphanedDeposit :: "watch_env \<Rightarrow> observed \<Rightarrow> unit wact" where
  "RecordOrphanedDeposit we c s =
     (case ledger_ask we (watch_GetOrder (ob_external c)) s of
        (s', r) \<Rightarrow>
          store_call we (\<lambda>now db. (RecordOrphan (ob_order_id c) (ob_external c) (observed_key c) (ob_units c) now
            (case r of Inl _ \<Rightarrow> ''unknown'' | Inr ord \<Rightarrow> oj_state ord) '''' db, ())) s')"

section \<open>The tracker\<close>

definition tracked :: "candidate list \<Rightarrow> deposit_key \<Rightarrow> bool" where
  "tracked cs k = list_ex (\<lambda>c. cd_key c = k) cs"

definition new_candidate :: "observed \<Rightarrow> classification \<Rightarrow> candidate" where
  "new_candidate c cls = \<lparr>cd_log = c, cd_class = cls, cd_finalized_at = 0, cd_votes = None\<rparr>"

definition OnLogObserved :: "watch_env \<Rightarrow> observed \<Rightarrow> classification \<Rightarrow> unit wact" where
  "OnLogObserved we c cls s =
     (if tracked (wy_finalized s) (observed_key c) \<or> tracked (wy_pending s) (observed_key c) then (s, Inr ())
      else if cls = ZeroValue then (s, Inr ())
      else wthen (store_call we (\<lambda>_. SaveDeposit c cls)) (\<lambda>known s.
        if known \<noteq> None \<and> known \<noteq> Some Detected then (s, Inr ())
        else (s\<lparr>wy_pending := wy_pending s @ [new_candidate c cls]\<rparr>, Inr ())) s)"

definition Restore :: "watch_env \<Rightarrow> unit wact" where
  "Restore we =
     wthen (store_call we (\<lambda>_ db. (db, LoadDetected db))) (\<lambda>rows s.
       (s\<lparr>wy_pending := fold (\<lambda>r cs. if tracked cs (dr_key r) then cs else cs @ [new_candidate (dr_log r) (dr_class r)])
          rows (wy_pending s)\<rparr>, Inr ()))"

definition setStatus :: "watch_env \<Rightarrow> deposit_key \<Rightarrow> deposit_status \<Rightarrow> unit wact" where
  "setStatus we k st = wlogged (store_call we (\<lambda>_ db. (SetStatus k st db, ())))"

definition untrack :: "deposit_key \<Rightarrow> candidate list \<Rightarrow> candidate list" where
  "untrack k = filter (\<lambda>c. cd_key c \<noteq> k)"

definition drop_candidate :: "deposit_key \<Rightarrow> unit wact" where
  "drop_candidate k s = (s\<lparr>wy_pending := untrack k (wy_pending s)\<rparr>, Inr ())"

definition topicsFor :: "candidate list \<Rightarrow> string list option" where
  "topicsFor cs = (if list_ex (\<lambda>c. ob_address (cd_log c) = '''') cs then None else Some (map (ob_address \<circ> cd_log) cs))"

definition HandleUnreportable :: "watch_env \<Rightarrow> candidate \<Rightarrow> unit wact" where
  "HandleUnreportable we c = RecordOrphanedDeposit we (cd_log c)"

definition mark_final :: "watch_env \<Rightarrow> candidate \<Rightarrow> unit wact" where
  "mark_final we c s =
     (s\<lparr>wy_finalized := untrack (cd_key c) (wy_finalized s) @ [c\<lparr>cd_finalized_at := wclock we s\<rparr>],
        wy_pending := untrack (cd_key c) (wy_pending s)\<rparr>, Inr ())"

definition finalize :: "watch_env \<Rightarrow> candidate \<Rightarrow> unit wact" where
  "finalize we c s =
     (case ReportDepositFinal we (cd_log c) s of
        (s', Inl (ReportPermanent e)) \<Rightarrow>
          wlogged (wthen (HandleUnreportable we c) (\<lambda>_.
            wthen (setStatus we (cd_key c) Orphaned) (\<lambda>_. drop_candidate (cd_key c)))) s'
      | (s', Inl e) \<Rightarrow> (s', Inr ())
      | (s', Inr _) \<Rightarrow> wthen (setStatus we (cd_key c) Reported) (\<lambda>_. mark_final we c) s')"

text \<open>Candidates in the order of a walk through a map, and in groups of one height.\<close>

definition walk :: "watch_env \<Rightarrow> watch_sys \<Rightarrow> candidate list \<Rightarrow> candidate list" where
  "walk we s = sort_key (we_turn we (wy_calls s) \<circ> cd_key)"

definition by_height :: "watch_env \<Rightarrow> watch_sys \<Rightarrow> candidate list \<Rightarrow> (nat \<times> candidate list) list" where
  "by_height we s cs =
     map (\<lambda>h. (h, filter (\<lambda>c. cd_height c = h) (walk we s cs)))
       (sort_key (we_height_turn we (wy_calls s)) (remdups (map cd_height cs)))"

definition readyCandidates :: "nat \<Rightarrow> candidate list \<Rightarrow> candidate list" where
  "readyCandidates finalHeight = filter (\<lambda>c. cd_height c \<le> finalHeight)"

definition verify_one :: "watch_env \<Rightarrow> chain_log list \<Rightarrow> candidate \<Rightarrow> unit wact" where
  "verify_one we logs c =
     (if cd_key c \<notin> set (map log_key logs)
      then wthen (drop_candidate (cd_key c)) (\<lambda>_. setStatus we (cd_key c) Dropped)
      else finalize we c)"

definition verify_height :: "watch_env \<Rightarrow> nat \<times> candidate list \<Rightarrow> unit wact" where
  "verify_height we g = wthen (LogsAt we (fst g) (fst g) (topicsFor (snd g))) (\<lambda>logs. weach (verify_one we logs) (snd g))"

definition finalizedRetention :: time where "finalizedRetention = seconds (10 * 60)"

definition handlePostFinalReorg :: "watch_env \<Rightarrow> candidate \<Rightarrow> unit wact" where
  "handlePostFinalReorg we c =
     wthen (ledger_tell we (\<lambda>now. ReportReorg (we_digest we) (we_actor we) now (ob_external (cd_log c))
         (DepositFinalIdempotencyKey (cd_key c)))) (\<lambda>_ s.
       (s\<lparr>wy_finalized := untrack (cd_key c) (wy_finalized s)\<rparr>, Inr ()))"

definition recheck_height :: "watch_env \<Rightarrow> nat \<times> candidate list \<Rightarrow> unit wact" where
  "recheck_height we g =
     wthen (LogsAt we (fst g) (fst g) (topicsFor (snd g))) (\<lambda>logs.
       weach (\<lambda>c. if cd_key c \<notin> set (map log_key logs) then handlePostFinalReorg we c else wret ()) (snd g))"

definition checkPostFinalReorgs :: "watch_env \<Rightarrow> unit wact" where
  "checkPostFinalReorgs we s =
     (let kept = filter (\<lambda>c. \<not> (cd_finalized_at c \<noteq> 0 \<and> finalizedRetention < wclock we s - cd_finalized_at c)) (wy_finalized s) in
      weach (recheck_height we) (by_height we s kept) (s\<lparr>wy_finalized := kept\<rparr>))"

definition CheckFinality :: "watch_env \<Rightarrow> unit wact" where
  "CheckFinality we =
     wthen (LatestFinalized we) (\<lambda>(finalHeight, _).
     wthen (\<lambda>s. weach (verify_height we) (by_height we s (readyCandidates finalHeight (wy_pending s))) s) (\<lambda>_.
     checkPostFinalReorgs we))"

section \<open>The tracker, one provider at a time\<close>

text \<open>What one provider says of a candidate; a log it cannot read is no observation.\<close>

definition observation_of :: "watch_env \<Rightarrow> candidate \<Rightarrow> string \<Rightarrow> chain_log list \<Rightarrow> observation option" where
  "observation_of we c block_hash logs =
     (case find (\<lambda>l. log_key l = cd_key c) logs of
        None \<Rightarrow> Some \<lparr>ob_height = cd_height c, ob_hash = block_hash, ob_present = False, ob_order = ob_order_id (cd_log c), ob_amount = 0\<rparr>
      | Some l \<Rightarrow>
        (case ParseTransferLog (we_topic we) l of
           Inl _ \<Rightarrow> None
         | Inr (_, _, amount) \<Rightarrow> Some \<lparr>ob_height = cd_height c, ob_hash = block_hash, ob_present = True,
             ob_order = ob_order_id (cd_log c), ob_amount = amount\<rparr>))"

definition votes_of :: "watch_env \<Rightarrow> candidate \<Rightarrow> confirmations" where
  "votes_of we c = (case cd_votes c of None \<Rightarrow> NewCandidateConfirmations (int (we_least we)) | Some v \<Rightarrow> v)"

definition act_on :: "watch_env \<Rightarrow> candidate \<Rightarrow> async_status \<Rightarrow> unit wact" where
  "act_on we c st =
     (case st of AsyncQuorumReached \<Rightarrow> finalize we c | AsyncNotFound \<Rightarrow> drop_candidate (cd_key c) | _ \<Rightarrow> wret ())"

definition checkOneCandidateAsync :: "watch_env \<Rightarrow> string \<Rightarrow> deposit_key \<Rightarrow> unit wact" where
  "checkOneCandidateAsync we p k s =
     (case find (\<lambda>c. cd_key c = k) (wy_pending s) of
        None \<Rightarrow> (s, Inr ())
      | Some c \<Rightarrow>
        wthen (chain_ask we (\<lambda>n. heard (we_block_hash we n p (cd_height c)))) (\<lambda>block_hash.
        wthen (chain_ask we (\<lambda>n. heard (we_logs we n p (cd_height c) (cd_height c) None))) (\<lambda>logs s.
        case observation_of we c block_hash logs of
          None \<Rightarrow> (s, Inr ())
        | Some o' \<Rightarrow>
          (case RecordConfirmed p o' (votes_of we c) of (votes, st) \<Rightarrow>
           let c' = c\<lparr>cd_votes := Some votes\<rparr> in
           act_on we c' st (s\<lparr>wy_pending := map (\<lambda>d. if cd_key d = k then c' else d) (wy_pending s)\<rparr>)))) s)"

definition checkOneProviderAsync :: "watch_env \<Rightarrow> string \<Rightarrow> unit wact" where
  "checkOneProviderAsync we p =
     wthen (chain_ask we (\<lambda>n. heard (we_final we n p))) (\<lambda>(height, _) s.
       case CheckHeight p height (wy_heights s) of (heights, ok) \<Rightarrow>
       let s = s\<lparr>wy_heights := heights\<rparr> in
       if \<not> ok then (s, Inr ())
       else weach (\<lambda>c. if height < cd_height c then wret () else checkOneCandidateAsync we p (cd_key c))
         (walk we s (wy_pending s)) s)"

definition CheckFinalityAsync :: "watch_env \<Rightarrow> unit wact" where
  "CheckFinalityAsync we = wthen (weach (checkOneProviderAsync we) (we_providers we)) (\<lambda>_. checkPostFinalReorgs we)"

section \<open>Scanning\<close>

definition recordOrphan :: "watch_env \<Rightarrow> int64 \<Rightarrow> string \<Rightarrow> string \<Rightarrow> chain_log \<Rightarrow> int64 \<Rightarrow> string \<Rightarrow> unit wact" where
  "recordOrphan we i ext addr l amount reason =
     store_call we (\<lambda>now db. (RecordOrphan i ext (log_key l) amount now reason addr db, ()))"

definition blockTimeFor :: "watch_env \<Rightarrow> nat \<Rightarrow> (nat \<times> time) list \<Rightarrow> ((nat \<times> time) list \<times> time) wact" where
  "blockTimeFor we h cache =
     (case map_of cache h of
        Some t \<Rightarrow> wret (cache, t)
      | None \<Rightarrow> wthen (chain_ask we (\<lambda>n. heard (we_block_secs we n h))) (\<lambda>secs.
          let t = seconds (int secs) in wret ((h, t) # cache, t)))"

text \<open>Block times are whole seconds, so a payment in the second the lease ended is late.\<close>

definition too_late :: "lease \<Rightarrow> time \<Rightarrow> bool" where
  "too_late l t \<longleftrightarrow> ls_status l = Retired \<and>
     (case ls_retired_at l of None \<Rightarrow> False | Some r \<Rightarrow> \<not> t < r - r mod seconds 1)"

definition processLog :: "watch_env \<Rightarrow> chain_log \<Rightarrow> (nat \<times> time) list \<Rightarrow> (nat \<times> time) list wact" where
  "processLog we l cache =
     (case ParseTransferLog (we_topic we) l of
        Inl ErrWrongToken \<Rightarrow> wret cache
      | Inl e \<Rightarrow> wfail (BadTransfer e)
      | Inr (from, to, amount) \<Rightarrow>
        wthen (blockTimeFor we (lg_block l) cache) (\<lambda>(cache, t).
        wthen (pool_read we (\<lambda>_ db. LeaseAt (we_canon we) db (we_hex we to) t)) (\<lambda>found.
        wthen (case found of
            None \<Rightarrow> recordOrphan we 0 '''' (we_hex we to) l amount ''no_lease''
          | Some le \<Rightarrow>
            if too_late le t then recordOrphan we (ls_order le) (ls_external le) (ls_address le) l amount ''address_retired''
            else
              wthen (ledger_ask we (QuotedAmount (ls_external le))) (\<lambda>quoted.
              let cls = ClassifyAgainstOrder amount quoted (we_dust we) in
              if cls = Dust then recordOrphan we (ls_order le) (ls_external le) (ls_address le) l amount ''dust''
              else OnLogObserved we
                \<lparr>ob_tx = lg_tx l, ob_index = lg_index l, ob_block = lg_block l, ob_block_time = t, ob_order_id = ls_order le,
                 ob_external = ls_external le, ob_customer = ls_customer le, ob_units = amount, ob_sender = we_hex we from,
                 ob_address = ls_address le\<rparr> cls)) (\<lambda>_.
        wret cache))))"

definition ScanRange :: "watch_env \<Rightarrow> nat \<Rightarrow> nat \<Rightarrow> unit wact" where
  "ScanRange we lo hi =
     (if hi < lo then wret ()
      else
        wthen (pool_read we (WatchSet (we_canon we))) (\<lambda>watch.
        if watch = [] then wret ()
        else
          wthen (LogsAt we lo hi (Some watch)) (\<lambda>logs.
          wthen (wevery (processLog we) logs []) (\<lambda>_. wret ()))))"

definition maxBlocksPerTick :: nat where "maxBlocksPerTick = 10"

definition set_candidates :: "nat \<Rightarrow> watch_db \<Rightarrow> watch_db" where
  "set_candidates h db = db\<lparr>wd_candidates := Some h\<rparr>"

definition scan_new :: "watch_env \<Rightarrow> nat \<Rightarrow> nat \<Rightarrow> unit wact" where
  "scan_new we lastCandidate ingested =
     (if ingested \<le> lastCandidate then wret ()
      else
        (let hi = (if maxBlocksPerTick < ingested - lastCandidate then lastCandidate + maxBlocksPerTick else ingested) in
         wthen (ScanRange we (lastCandidate + 1) hi) (\<lambda>_. store_call we (\<lambda>_ db. (set_candidates hi db, ())))))"

definition runTick :: "watch_env \<Rightarrow> unit wact" where
  "runTick we =
     wthen (store_call we (\<lambda>_ db. (db, wd_scanned db))) (\<lambda>ingested.
     wthen (store_call we (\<lambda>_ db. (db, wd_candidates db))) (\<lambda>found.
     wthen (case found of Some h \<Rightarrow> wret h
       | None \<Rightarrow> wthen (store_call we (\<lambda>_ db. (set_candidates ingested db, ()))) (\<lambda>_. wret ingested)) (\<lambda>lastCandidate.
     wthen (scan_new we lastCandidate ingested) (\<lambda>_.
     if we_async we then CheckFinalityAsync we else CheckFinality we))))"

section \<open>Runs\<close>

text \<open>A restart forgets the memory and restores the pending deposits. A process that cannot does not start:
  it is started again.\<close>

definition restarted :: "watch_env \<Rightarrow> watch_sys \<Rightarrow> watch_sys" where
  "restarted we s =
     (case Restore we s of (s', Inr _) \<Rightarrow> s' | (s', Inl _) \<Rightarrow> fst (Restore we (s'\<lparr>wy_faults := []\<rparr>)))"

datatype watch_event =
    Tick "watch_fault list"
  | Restart "watch_fault list"
  | Ingested nat
  | SetCursors nat nat
  | Resolve time int string string

definition run_watch_event :: "watch_env \<Rightarrow> watch_event \<Rightarrow> watch_sys \<Rightarrow> unit + watch_sys" where
  "run_watch_event we event s =
     (case event of
        Tick fs \<Rightarrow> Inr (fst (runTick we (s\<lparr>wy_faults := fs\<rparr>)))
      | Restart fs \<Rightarrow> Inr (restarted we (s\<lparr>wy_pending := [], wy_finalized := [], wy_heights := [], wy_faults := fs\<rparr>))
      | Ingested h \<Rightarrow> Inr (s\<lparr>wy_db := (wy_db s)\<lparr>wd_scanned := h\<rparr>\<rparr>)
      | SetCursors h k \<Rightarrow> Inr (s\<lparr>wy_db := (wy_db s)\<lparr>wd_scanned := h, wd_candidates := Some k\<rparr>\<rparr>)
      | Resolve now i resolution actor \<Rightarrow>
        (case ResolveOrphan now i resolution actor (wy_db s) of
           Inl _ \<Rightarrow> Inl () | Inr db \<Rightarrow> Inr (s\<lparr>wy_db := db\<rparr>)))"

definition watch_start :: "pool_db \<Rightarrow> ledger_server \<Rightarrow> watch_sys" where
  "watch_start pool srv =
     \<lparr>wy_db = empty_watch_db, wy_pool = pool, wy_ledger = srv, wy_pending = [], wy_finalized = [], wy_heights = [],
      wy_faults = [], wy_calls = 0\<rparr>"

definition watch_reached :: "watch_env \<Rightarrow> watch_event list \<Rightarrow> watch_sys \<Rightarrow> watch_sys" where
  "watch_reached we events s = run_ops (run_watch_event we) events s"

end
