(* ===== verification/Ledger_Told.thy ===== *)
theory Ledger_Told
  imports Ledger_Api_Inv "HOL-Library.Multiset"
begin

text \<open>
  What an entry of the ledger says. \<open>entry_told\<close> is an entry as a reader of the journal sees it: its row, and its
  lines with the codes of their accounts. \<open>entries_hashed\<close> ties it to the stored hash: every hash in the table is the
  digest of what the entry says, so two requests under one key are taken for the same only if they say the same, or
  the digest clashes.
  \<^item> \<open>books_steps\<close> is what any operation of the ledger does to accounts, entries and lines: nothing, one more account,
    or one more entry that carries the digest of its own lines.
  \<^item> The interpretations \<open>told_store\<close> and \<open>order_idents\<close>: what an entry says, and which order goes by an external
    name, is written once.
\<close>

section \<open>An entry with the codes of its accounts\<close>

definition told_line :: "db \<Rightarrow> line_row \<Rightarrow> hash_line" where
  "told_line db l = HashLine (acc_code (account_of db l)) (asset_str (l_asset l)) (l_units l)"

definition entry_told :: "db \<Rightarrow> string \<Rightarrow> (entry_row \<times> hash_line list) option" where
  "entry_told db key = map_option (\<lambda>(row, ls). (row, map (told_line db) ls)) (entry_at db key)"

definition told_payload :: "entry_row \<Rightarrow> hash_line list \<Rightarrow> hash_payload" where
  "told_payload row ls =
     \<lparr>hp_type = e_type row, hp_order = e_order row, hp_lines = sort ls, hp_occurred = e_occurred_at row\<rparr>"

definition entries_hashed :: "(hash_payload \<Rightarrow> hash) \<Rightarrow> db \<Rightarrow> bool" where
  "entries_hashed digest db \<longleftrightarrow>
     (\<forall>k row ls. entry_told db k = Some (row, ls) \<longrightarrow> e_hash row = digest (told_payload row ls))"

text \<open>The line a request asks for, as it will be stored.\<close>

definition asked_line :: "line_to_apply \<Rightarrow> hash_line" where
  "asked_line l = HashLine (la_code l) (asset_str (la_asset l)) (sint (la_units l))"

inductive books_step :: "(hash_payload \<Rightarrow> hash) \<Rightarrow> db \<Rightarrow> db \<Rightarrow> bool" for digest where
  same: "accounts db' = accounts db \<Longrightarrow> entries db' = entries db \<Longrightarrow> lines db' = lines db \<Longrightarrow> journal_ok db' \<Longrightarrow>
    books_step digest db db'"
| opened: "accounts db' = accounts db @ [a] \<Longrightarrow> entries db' = entries db \<Longrightarrow> lines db' = lines db \<Longrightarrow> journal_ok db' \<Longrightarrow>
    books_step digest db db'"
| posted: "appended db db' row ls \<Longrightarrow>
    \<forall>l \<in> set ls. \<exists>a \<in> set (accounts db). acc_id a = la_account l \<and> acc_code a = la_code l \<Longrightarrow>
    e_hash row = digest (told_payload row (map asked_line ls)) \<Longrightarrow> books_step digest db db'"

abbreviation books_steps :: "(hash_payload \<Rightarrow> hash) \<Rightarrow> db \<Rightarrow> db \<Rightarrow> bool" where
  "books_steps digest \<equiv> (books_step digest)\<^sup>*\<^sup>*"

lemma told_payload_mset: "mset ls = mset ls' \<Longrightarrow> told_payload row ls = told_payload row ls'"
  by (simp add: told_payload_def) (metis sorted_list_of_multiset_mset)

lemma account_of_more:
  assumes "journal_ok db" and "accounts db' = accounts db @ new" and "l \<in> set (lines db)"
  shows "account_of db' l = account_of db l"
proof -
  have "account_of db l \<in> set (accounts db)" "acc_id (account_of db l) = l_account l"
    using line_account [OF assms(1,3)] by simp_all
  then obtain a where "first_row (\<lambda>a. acc_id a = l_account l) (accounts db) = Some a"
    by (cases "first_row (\<lambda>a. acc_id a = l_account l) (accounts db)") (auto simp: first_row_None)
  then show ?thesis by (simp add: account_of_def assms(2) first_row_append)
qed

lemma told_line_more:
  assumes "journal_ok db" and "accounts db' = accounts db @ new" and "set ls \<subseteq> set (lines db)"
  shows "map (told_line db') ls = map (told_line db) ls"
  using account_of_more [OF assms(1,2)] assms(3) by (auto simp: told_line_def)

lemma entry_at_lines: "entry_at db k = Some (row, ls) \<Longrightarrow> set ls \<subseteq> set (lines db)"
  by (auto simp: entry_at_def set_entry_lines)

lemma entry_told_kept:
  assumes "journal_ok db" and "accounts db' = accounts db @ new"
    and "\<And>v. entry_at db k = Some v \<Longrightarrow> entry_at db' k = Some v" and "entry_told db k = Some v"
  shows "entry_told db' k = Some v"
proof -
  obtain row ls where e: "entry_at db k = Some (row, ls)" "v = (row, map (told_line db) ls)"
    using assms(4) by (auto simp: entry_told_def)
  then show ?thesis using assms(3) told_line_more [OF assms(1,2) entry_at_lines [OF e(1)]] by (simp add: entry_told_def)
qed

text \<open>The entry just appended says what was asked.\<close>

lemma appended_told:
  assumes ap: "appended db db' row ls" and ok: "journal_ok db'"
    and codes: "\<forall>l \<in> set ls. \<exists>a \<in> set (accounts db). acc_id a = la_account l \<and> acc_code a = la_code l"
  shows "\<exists>told. entry_told db' (e_key row) = Some (row, told) \<and> mset told = mset (map asked_line ls)"
proof -
  note d = appendedD [OF ap]
  have "distinct (map e_key (entries db'))" using ok by (simp add: journal_ok_def entries_ok_def)
  then have row: "first_row (\<lambda>r. e_key r = e_key row) (entries db') = Some row"
    using d(4) by (intro first_row_unique) auto
  have old: "filter (\<lambda>l. l_entry l = e_id row) (lines db) = []"
    using appended_old_entry [OF ap] by (fastforce simp: filter_empty_conv)
  have ids: "distinct (map acc_id (accounts db'))" using ok by (simp add: journal_ok_def accounts_ok_def)
  have told: "told_line db' (line_row_of (e_id row) l) = asked_line l" if l: "l \<in> set ls" for l
  proof -
    obtain a where a: "a \<in> set (accounts db)" "acc_id a = la_account l" "acc_code a = la_code l" using codes l by blast
    then have "first_row (\<lambda>a. acc_id a = la_account l) (accounts db') = Some a"
      by (intro first_row_unique [OF ids]) (simp_all add: d(2))
    then show ?thesis by (simp add: told_line_def asked_line_def account_of_def line_row_of_def a(3))
  qed
  have "mset (entry_lines db' (e_id row)) = mset (map (line_row_of (e_id row)) ls)"
    by (simp add: entry_lines_def d(7) old line_row_of_def filter_map comp_def)
  then have "mset (map (told_line db') (entry_lines db' (e_id row))) = mset (map (told_line db' \<circ> line_row_of (e_id row)) ls)"
    by (simp add: multiset.map_comp)
  also have "\<dots> = mset (map asked_line ls)" using told by (intro arg_cong [where f = mset] map_cong) simp_all
  finally show ?thesis by (simp add: entry_told_def entry_at_def row)
qed

lemma books_step_ok: "books_step digest db db' \<Longrightarrow> journal_ok db'"
  by (cases rule: books_step.cases) (auto intro: appended_ok)

lemma books_step_hashed:
  assumes "books_step digest db db'" and ok: "journal_ok db" and h: "entries_hashed digest db"
  shows "entries_hashed digest db'"
  using assms(1)
proof cases
  case same
  then have "told_line db' = told_line db" "entry_at db' k = entry_at db k" for k
    by (simp_all add: fun_eq_iff entry_at_def entry_lines_def told_line_def account_of_def)
  then have "entry_told db' k = entry_told db k" for k by (simp add: entry_told_def)
  then show ?thesis using h by (simp add: entries_hashed_def)
next
  case (opened a)
  have "entry_at db' k = entry_at db k" for k using opened by (simp add: entry_at_def entry_lines_def)
  then have "entry_told db' k = entry_told db k" for k
    using told_line_more [OF ok opened(1) entry_at_lines [of db k]]
    by (cases "entry_at db k") (auto simp: entry_told_def \<open>\<And>k. entry_at db' k = entry_at db k\<close>)
  then show ?thesis using h by (simp add: entries_hashed_def)
next
  case (posted row ls)
  note d = appendedD [OF posted(1)]
  obtain told where t: "entry_told db' (e_key row) = Some (row, told)" "mset told = mset (map asked_line ls)"
    using appended_told [OF posted(1) books_step_ok [OF assms(1)] posted(2)] by blast
  have kept: "entry_told db k = Some v \<Longrightarrow> entry_told db' k = Some v" for k v
    using grows_entry_at [OF appended_grows [OF posted(1)] ok] by (rule entry_told_kept [OF ok, rotated]) (simp_all add: d(2))
  have new: "entry_told db k \<noteq> None" if "entry_told db' k \<noteq> None" "k \<noteq> e_key row" for k
    using that by (auto simp: entry_told_def entry_at_def d(4) first_row_append split: option.splits if_splits)
  show ?thesis unfolding entries_hashed_def
  proof (intro allI impI)
    fix k r l
    assume e: "entry_told db' k = Some (r, l)"
    show "e_hash r = digest (told_payload r l)"
    proof (cases "k = e_key row")
      case True
      then show ?thesis using e t posted(3) told_payload_mset [OF t(2), of row] by simp
    next
      case False
      then obtain v where "entry_told db k = Some v" using new e by fastforce
      then show ?thesis using kept e h by (fastforce simp: entries_hashed_def)
    qed
  qed
qed

lemma books_steps_hashed:
  assumes "books_steps digest db db'" and "journal_ok db" and "entries_hashed digest db"
  shows "entries_hashed digest db'"
proof -
  have "journal_ok db' \<and> entries_hashed digest db'"
    using assms by (induction rule: rtranclp_induct) (auto intro: books_step_hashed books_step_ok)
  then show ?thesis ..
qed

lemma books_step_accounts: "books_step digest db db' \<Longrightarrow> \<exists>new. accounts db' = accounts db @ new"
  by (cases rule: books_step.cases) (auto simp: appendedD)

lemma books_steps_accounts: "books_steps digest db db' \<Longrightarrow> \<exists>new. accounts db' = accounts db @ new"
  by (induction rule: rtranclp_induct) (auto dest!: books_step_accounts)

section \<open>The operations of the ledger\<close>

lemma books_same:
  "accounts db' = accounts db \<Longrightarrow> entries db' = entries db \<Longrightarrow> lines db' = lines db \<Longrightarrow> journal_ok db' \<Longrightarrow> books_steps digest db db'"
  by (rule r_into_rtranclp, rule books_step.same)

lemma Post_books:
  assumes p: "Post digest db req = Inr (db', e)" and ok: "journal_ok db"
  shows "books_steps digest db db'"
  using assms
proof (cases rule: Post_cases)
  case (fresh rs)
  note l = resolved_lines [OF fresh(1)]
  have "map asked_line (map to_apply rs) = map hash_line_of (Lines req)"
  proof -
    have "map (\<lambda>(c, a). HashLine c (asset_str (amt_asset a)) (units a)) (map (\<lambda>l. (la_code l, Amount (la_asset l) (la_units l))) (map to_apply rs)) =
        map (\<lambda>(c, a). HashLine c (asset_str (amt_asset a)) (units a)) (map (\<lambda>l. (AccountCode l, LineAmount l)) (Lines req))"
      unfolding l(3) ..
    then show ?thesis by (simp add: comp_def asked_line_def [abs_def] hash_line_of_def [abs_def])
  qed
  then have "e_hash (request_row digest db req) = digest (told_payload (request_row digest db req) (map asked_line (map to_apply rs)))"
    by (simp add: request_row_def new_entry_row_def canonicalHash_def canonical_payload_def told_payload_def pg_time_def)
  moreover have "\<forall>l \<in> set (map to_apply rs). \<exists>a \<in> set (accounts db). acc_id a = la_account l \<and> acc_code a = la_code l"
    using l(2) by blast
  ultimately show ?thesis using books_step.posted [OF fresh(2)] by blast
next
  case (replay old ls)
  then show ?thesis using Post_ok [OF p ok] by (intro books_same) simp_all
qed

lemma Reverse_books:
  assumes r: "Reverse digest db i actor reason at = Inr (db', e)" and ok: "journal_ok db"
  shows "books_steps digest db db'"
  using assms
proof (cases rule: Reverse_cases)
  case (1 orig)
  let ?row = "reversal_row digest db orig actor reason at"
  have "map asked_line (map (negated_apply db) (entry_lines db i)) = map hash_line_of (Lines (reverse_request db orig actor at))"
    using 1(2) by (simp add: reverse_request_def asked_line_def hash_line_of_def negated_apply_def)
  then have "e_hash ?row = digest (told_payload ?row (map asked_line (map (negated_apply db) (entry_lines db i))))"
    by (simp add: reversal_row_def new_entry_row_def canonicalHash_def canonical_payload_def told_payload_def pg_time_def)
      (simp add: reverse_request_def)
  moreover have "\<exists>a \<in> set (accounts db). acc_id a = la_account l \<and> acc_code a = la_code l"
    if l: "l \<in> set (map (negated_apply db) (entry_lines db i))" for l
  proof -
    obtain q where q: "q \<in> set (lines db)" "l = negated_apply db q" using l by (auto simp: set_entry_lines)
    show ?thesis using line_account(2,3) [OF ok q(1)] by (intro bexI [of _ "account_of db q"]) (simp_all add: q(2) negated_apply_def)
  qed
  ultimately show ?thesis using books_step.posted [OF 1(8)] by blast
qed

lemma Transition_books:
  assumes t: "Transition digest env db i to ver p = (env', Inr (db', o'))" and ok: "ledger_ok db"
  shows "books_steps digest db db'"
  using t
proof (cases rule: Transition_cases)
  case (moved current r)
  have j: "journal_ok db" "journal_ok db'" using ok Transition_ok [OF t ok] by (simp_all add: ledger_ok_def)
  obtain db1 eid where c: "case tp_entry p of None \<Rightarrow> db1 = db \<and> eid = tp_entry_id p
     | Some req \<Rightarrow> \<exists>e. Post digest db req = Inr (db1, e) \<and> eid = Some (e_id e)"
    "db' = moved_db db1 i (o_state current) to ver eid p"
    by (rule transition_commit_Inr [OF moved(5)]) (rule that; assumption)
  have "books_steps digest db db1" using c(1) Post_books [OF _ j(1)] by (auto split: option.splits)
  moreover have "books_steps digest db1 db'" by (rule books_same) (use j(2) in \<open>simp_all add: c(2) moved_db_def\<close>)
  ultimately show ?thesis by simp
next
  case (replayed req e)
  then show ?thesis using Post_books ok by (auto simp: ledger_ok_def)
qed

lemma Reorg_books:
  assumes h: "HandleDepositReorg digest env db i key actor now = (env', Inr (db', o'))" and ok: "ledger_ok db"
  shows "books_steps digest db db'"
  using h
proof (cases rule: HandleDepositReorg_cases)
  case (A ord)
  obtain original :: entry and db1 and e :: entry where r: "Reverse digest db (e_id original) actor reason_A now = Inr (db1, e)"
    and t: "Transition digest env db1 (o_id ord) Quoted (o_version ord)
       \<lparr>tp_actor = actor, tp_reason = reason_A, tp_occurred_at = now, tp_entry = None,
        tp_entry_id = Some (e_id e), tp_sender = None\<rparr> = (env', Inr (db', o'))"
    using A(3) by (rule ScenarioA_Inr) (rule that; assumption)
  have "books_steps digest db db1" using Reverse_books [OF r] ok by (simp add: ledger_ok_def)
  then show ?thesis using Transition_books [OF t Reverse_ledger_ok [OF r ok]] by simp
next
  case (B ord)
  obtain original :: entry and db1 and e :: entry and db2 and e2 :: entry where r: "Reverse digest db (e_id original) actor reason_B now = Inr (db1, e)"
    and p: "Post digest db1 (loss_request ord actor now) = Inr (db2, e2)"
    and d: "db' = SetHalt db2 (reorg_halt ord key actor)"
    using B(3) by (rule ScenarioB_Inr) (rule that; assumption)
  have j: "journal_ok db" using ok by (simp add: ledger_ok_def)
  have j1: "journal_ok db1" and j2: "journal_ok db2" using Reverse_ok [OF r j] Post_ok [OF p] by blast+
  have "journal_ok db'" using j2 by (intro journal_ok_cong [of db' db2]) (simp_all add: d)
  then have "books_steps digest db2 db'" by (intro books_same) (simp_all add: d)
  then show ?thesis using Reverse_books [OF r j] Post_books [OF p j1] by simp
next
  case Q
  then show ?thesis by simp
qed

lemma CreateAccount_books:
  assumes "CreateAccount db c t a = Inr (db', row)" and "journal_ok db"
  shows "books_steps digest db db'"
  using assms(1)
proof (cases rule: CreateAccount_cases)
  case existing
  then show ?thesis using CreateAccount_journal_ok [OF assms] by (intro books_same) simp_all
next
  case (new side)
  then show ?thesis using CreateAccount_journal_ok [OF assms]
    by (intro r_into_rtranclp books_step.opened) simp_all
qed

lemma ledger_body_books:
  assumes b: "ledger_body digest opn db = Inr db'" and ok: "ledger_ok db"
  shows "books_steps digest db db'"
proof -
  have j: "journal_ok db" "journal_ok db'" using ok ledger_body_ok [OF b ok] by (simp_all add: ledger_ok_def)
  note same = books_same [OF _ _ _ j(2)]
  show ?thesis
  proof (cases opn)
    case OpSeed
    have "journal_ok db' \<and> books_steps digest db db'"
    proof (rule Seed_steps [where P = "\<lambda>d. journal_ok d \<and> books_steps digest db d"])
      show "Seed db = Inr db'" using b OpSeed by simp
      show "journal_ok db \<and> books_steps digest db db" using j(1) by simp
      show "journal_ok d' \<and> books_steps digest db d'"
        if c: "CreateAccount d c t a = Inr (d', row)" and d: "journal_ok d \<and> books_steps digest db d" for d d' c t a row
        using CreateAccount_journal_ok [OF c] CreateAccount_books [OF c] d rtranclp_trans by metis
    qed
    then show ?thesis ..
  next
    case (OpTransition env i to ver p)
    then show ?thesis using b Transition_books [OF _ ok] by (cases "Transition digest env db i to ver p") auto
  next
    case (OpReorg env i key actor now)
    then show ?thesis using b Reorg_books [OF _ ok] by (cases "HandleDepositReorg digest env db i key actor now") auto
  next
    case (OpClearHalt p)
    then have c: "ClearHalt db p = Inr db'" using b by simp
    show ?thesis by (rule same) (simp_all add: ClearHalt_tables [OF c])
  next
    case (OpSnapshot cfg p)
    then obtain r where "IngestSnapshot db cfg p = Inr (db', r)" using b by auto
    from IngestSnapshot_same [OF this] show ?thesis by (intro same) simp_all
  next
    case (OpCreateOrder p)
    then obtain o' where "CreateOrder db p = Inr (db', o')" using b by auto
    from CreateOrder_Inr(1) [OF this] show ?thesis by (intro same) simp_all
  next
    case (OpSetHalt p)
    then show ?thesis using b by (intro same) auto
  next
    case (OpSelfCheck rc now)
    then show ?thesis using b by (simp add: RunOnce_same [OF ok])
  qed (use b j(1) in \<open>auto dest: CreateAccount_books Post_books Reverse_books\<close>)
qed

interpretation told_store: write_once "ledger_exec digest" ledger_ok entry_told for digest
proof
  fix opn db db' k v
  assume ok: "ledger_ok db" and e: "ledger_exec digest opn db = Inr db'"
  obtain new where "accounts db' = accounts db @ new"
    using books_steps_accounts ledger_body_books ok e ledger_exec_body by metis
  then show "entry_told db' k = Some v" if "entry_told db k = Some v"
    using ok that by (intro entry_told_kept [OF _ _ journal_store.keeps [OF ok e]]) (simp_all add: ledger_ok_def)
qed

definition order_named :: "db \<Rightarrow> string \<Rightarrow> (int \<times> tier) option" where
  "order_named db ext = map_option (\<lambda>r. (r_id r, r_tier r)) (order_at db ext)"

interpretation order_names: write_once "ledger_exec digest" ledger_ok order_named for digest
proof
  fix opn db db' k v
  assume ok: "ledger_ok db" and e: "ledger_exec digest opn db = Inr db'" and n: "order_named db k = Some v"
  then obtain r where r: "order_at db k = Some r" "v = (r_id r, r_tier r)" by (auto simp: order_named_def)
  have "orders_step db db'" using ledger_body_orders_step ok e by (simp add: ledger_exec_body)
  from orders_step_at [OF this r(1)] obtain r' where "order_at db' k = Some r'" "order_row_step r r'" by blast
  then show "order_named db' k = Some v" by (simp add: order_named_def r(2) order_row_step_def order_ident_def)
qed

section \<open>What a caller keeps\<close>

text \<open>The books after calls of the ledger: what was told and named stays, and the hashes stay those of the entries.\<close>

definition books_after :: "(hash_payload \<Rightarrow> hash) \<Rightarrow> db \<Rightarrow> db \<Rightarrow> bool" where
  "books_after digest db db' \<longleftrightarrow> (ledger_ok db \<longrightarrow> ledger_ok db' \<and>
     (\<forall>k v. entry_told db k = Some v \<longrightarrow> entry_told db' k = Some v) \<and>
     (\<forall>ext v. order_named db ext = Some v \<longrightarrow> order_named db' ext = Some v) \<and>
     (entries_hashed digest db \<longrightarrow> entries_hashed digest db'))"

lemma books_after_refl [simp]: "books_after digest db db"
  by (simp add: books_after_def)

lemma books_after_trans: "books_after digest db db1 \<Longrightarrow> books_after digest db1 db2 \<Longrightarrow> books_after digest db db2"
  unfolding books_after_def by blast

lemma told_at_time [simp]: "entry_told (at_time now srv) = entry_told (ls_db srv)" "order_named (at_time now srv) = order_named (ls_db srv)"
  "entries_hashed digest (at_time now srv) = entries_hashed digest (ls_db srv)"
proof -
  have l: "told_line (at_time now srv) = told_line (ls_db srv)" "entry_at (at_time now srv) = entry_at (ls_db srv)"
    by (simp_all add: fun_eq_iff told_line_def account_of_def entry_at_def entry_lines_def at_time_def)
  then show "entry_told (at_time now srv) = entry_told (ls_db srv)" by (simp add: entry_told_def [abs_def])
  then show "entries_hashed digest (at_time now srv) = entries_hashed digest (ls_db srv)" by (simp add: entries_hashed_def)
  show "order_named (at_time now srv) = order_named (ls_db srv)"
    by (simp add: fun_eq_iff order_named_def order_at_def at_time_def)
qed

lemma exec_books_after: "ledger_exec digest opn db = Inr db' \<Longrightarrow> books_after digest db db'"
  unfolding books_after_def
  using ledger_exec_ok told_store.keeps order_names.keeps ledger_body_books books_steps_hashed
  by (metis ledger_exec_body ledger_ok_def)

lemma served_books_after:
  assumes "served digest srv srv'"
  shows "books_after digest (ls_db srv) (ls_db srv')"
proof (cases "ls_db srv' = ls_db srv")
  case False
  then obtain now opn where "ledger_exec digest opn (at_time now srv) = Inr (ls_db srv')"
    using assms by (auto simp: served_def)
  from exec_books_after [OF this] show ?thesis by (simp add: books_after_def)
qed simp

lemma others_books_after: "books_after digest (ls_db srv) (ls_db (others digest ops srv))"
proof (induction ops arbitrary: srv)
  case (Cons o1 ops)
  obtain now opn where o1: "o1 = (now, opn)" by fastforce
  show ?case
  proof (cases "ledger_exec digest opn (at_time now srv)")
    case (Inl e)
    then show ?thesis using Cons.IH [of srv] by (simp add: others_def o1)
  next
    case (Inr db)
    then have "books_after digest (ls_db srv) (ls_db (srv\<lparr>ls_db := db\<rparr>))"
      by (intro served_books_after) (auto simp: served_def)
    then show ?thesis using Cons.IH [of "srv\<lparr>ls_db := db\<rparr>"] Inr books_after_trans by (fastforce simp: others_def o1)
  qed
qed (simp add: others_def)

text \<open>Every ledger the service can be in has hashed its entries.\<close>

lemma reached_hashed: "entries_hashed digest (reached digest ops)"
proof -
  have "books_after digest empty_db (reached digest ops)"
    by (rule journal_store.run_induct [where P = "books_after digest empty_db", OF ledger_ok_empty])
      (auto intro: books_after_trans exec_books_after)
  moreover have "entries_hashed digest empty_db"
    by (simp add: entries_hashed_def entry_told_def entry_at_def empty_db_def)
  ultimately show ?thesis using ledger_ok_empty unfolding books_after_def by blast
qed

end
