(* ===== verification/Tracker_Inv.thy ===== *)
theory Tracker_Inv
  imports Tracker Ledger_Told Wallet_Pool_Inv
begin

text \<open>
  What the BSC watcher keeps whatever the providers answer, whichever calls fail and whoever else uses the ledger:
  \<open>watch_ok\<close>. Every recorded deposit was seen by a quorum of providers; what is pending is \<open>DETECTED\<close>; what was
  reported is in the ledger and was seen by a quorum in a final block.
  \<^item> \<open>credited\<close> says which entry with which lines credits a deposit. A report that is answered leaves \<open>booked_as\<close>:
    an entry with the hash of that one; where the hashes are those of the entries this is \<open>credited\<close>, or two
    payloads share a digest. \<open>granted\<close> says that the wallet was leased to the customer for the order.
  \<^item> \<open>outside\<close> relates a state to one after calls that touch the ledger only; \<open>quiet\<close> actions do no more, and
    \<open>books\<close> says that one of them posts the entry of a deposit when it answers.
  \<^item> \<open>moves we ks\<close> relates states between which the invariant is kept, the outcome of a deposit does not change,
    and only pending deposits with a key in \<open>ks\<close> may leave.
  \<^item> \<open>settle\<close> is the one lemma on the end of a candidate; \<open>finalize_moves\<close> rests on it.
\<close>

section \<open>A report that went through is an entry of the ledger\<close>

definition final_entry :: "string \<Rightarrow> int \<Rightarrow> string \<Rightarrow> observed \<Rightarrow> entry_request" where
  "final_entry actor i tier c =
     \<lparr>IdempotencyKey = DepositFinalIdempotencyKey (observed_key c), EntryType = ''deposit_final'', Actor = actor,
      OccurredAt = ob_block_time c, OrderID = Some i,
      Lines = [Line (depositAccountCode tier (ob_order_id c)) (Amount USDT_BEP20 (ob_units c)),
               Line (customerAccountCode (ob_customer c)) (Amount USDT_BEP20 (- ob_units c))],
      Metadata = None\<rparr>"

text \<open>
  The ledger has credited a deposit: the entry under its key belongs to the order of the deposit, and has two lines:
  the amount into the account of the deposit and, with the other sign, into the account of the customer.
\<close>

definition credited :: "db \<Rightarrow> observed \<Rightarrow> bool" where
  "credited db c \<longleftrightarrow>
     (\<exists>row ls i tier. entry_told db (DepositFinalIdempotencyKey (observed_key c)) = Some (row, ls) \<and>
        order_named db (ob_external c) = Some (i, tier) \<and>
        e_type row = ''deposit_final'' \<and> e_order row = Some i \<and> e_occurred_at row = pg_time (ob_block_time c) \<and>
        mset ls = {#HashLine (depositAccountCode (tier_str tier) (ob_order_id c)) ''USDT_BEP20'' (sint (ob_units c)),
                    HashLine (customerAccountCode (ob_customer c)) ''USDT_BEP20'' (- sint (ob_units c))#})"

text \<open>What the watcher can see of it: the entry under the key has the hash of the entry that credits the deposit.\<close>

definition booked_as :: "watch_env \<Rightarrow> db \<Rightarrow> observed \<Rightarrow> bool" where
  "booked_as we db c \<longleftrightarrow>
     (\<exists>row ls i tier. entry_told db (DepositFinalIdempotencyKey (observed_key c)) = Some (row, ls) \<and>
        order_named db (ob_external c) = Some (i, tier) \<and> ob_units c \<noteq> MinInt64 \<and>
        e_hash row = canonicalHash (we_digest we) (final_entry (we_actor we) i (tier_str tier) c))"

text \<open>Two payloads with one digest: the one of the stored entry, and the one of the entry that credits the deposit.\<close>

definition digest_clash :: "watch_env \<Rightarrow> db \<Rightarrow> observed \<Rightarrow> bool" where
  "digest_clash we db c \<longleftrightarrow>
     (\<exists>row ls i tier. entry_told db (DepositFinalIdempotencyKey (observed_key c)) = Some (row, ls) \<and>
        order_named db (ob_external c) = Some (i, tier) \<and>
        told_payload row ls \<noteq> canonical_payload (final_entry (we_actor we) i (tier_str tier) c) \<and>
        we_digest we (told_payload row ls) = we_digest we (canonical_payload (final_entry (we_actor we) i (tier_str tier) c)))"

lemma sort_eq_mset: "sort xs = sort ys \<Longrightarrow> mset xs = mset (ys :: 'a :: linorder list)"
  by (metis mset_sort)

lemma sint_neg: "u \<noteq> MinInt64 \<Longrightarrow> sint (- u) = - sint (u :: int64)"
  by (rule sint64_neg) (simp add: fits64_neg_iff)

lemma booked_credited:
  assumes "booked_as we db c" and "entries_hashed (we_digest we) db"
  shows "credited db c \<or> digest_clash we db c"
proof -
  obtain row ls i tier where b: "entry_told db (DepositFinalIdempotencyKey (observed_key c)) = Some (row, ls)"
    "order_named db (ob_external c) = Some (i, tier)" "ob_units c \<noteq> MinInt64"
    "e_hash row = canonicalHash (we_digest we) (final_entry (we_actor we) i (tier_str tier) c)"
    using assms(1) by (auto simp: booked_as_def)
  let ?p = "canonical_payload (final_entry (we_actor we) i (tier_str tier) c)"
  have d: "we_digest we (told_payload row ls) = we_digest we ?p"
    using b(1,4) assms(2) by (simp add: entries_hashed_def canonicalHash_def)
  show ?thesis
  proof (cases "told_payload row ls = ?p")
    case True
    then have "e_type row = ''deposit_final''" "e_order row = Some i" "e_occurred_at row = pg_time (ob_block_time c)"
      and l: "sort ls = sort (map hash_line_of (Lines (final_entry (we_actor we) i (tier_str tier) c)))"
      by (simp_all add: told_payload_def canonical_payload_def pg_time_def) (simp_all add: final_entry_def)
    moreover have "mset ls = {#HashLine (depositAccountCode (tier_str tier) (ob_order_id c)) ''USDT_BEP20'' (sint (ob_units c)),
        HashLine (customerAccountCode (ob_customer c)) ''USDT_BEP20'' (- sint (ob_units c))#}"
      using sort_eq_mset [OF l] sint_neg [OF b(3)] by (simp add: final_entry_def hash_line_of_def)
    ultimately show ?thesis using b(1,2) unfolding credited_def by blast
  next
    case False
    then show ?thesis using b(1,2) d unfolding digest_clash_def by blast
  qed
qed

text \<open>What the watcher read of the order before it reports.\<close>

definition order_read :: "db \<Rightarrow> observed \<Rightarrow> order_json \<Rightarrow> bool" where
  "order_read db c ord \<longleftrightarrow> (\<exists>i tier. order_named db (ob_external c) = Some (i, tier) \<and> oj_tier ord = tier_str tier)"

lemma GetByExternalID_named:
  assumes "GetByExternalID db ext = Inr o'"
  shows "order_named db ext = Some (o_id o', o_tier o')"
proof -
  have "o_tier o' = r_tier r" if "scanOrder r = Inr o'" for r
    using that by (cases "order_assets r") (auto simp: scanOrder_def)
  then show ?thesis using GetByExternalID_at [OF assms] scanOrder_id by (auto simp: order_named_def)
qed

lemma GetOrder_read: "watch_GetOrder (ob_external c) srv = Inr ord \<Longrightarrow> order_read (ls_db srv) c ord"
  by (auto simp: watch_GetOrder_def api_def getOrder_def order_read_def toOrderResponse_def dest!: GetByExternalID_named split: sum.splits)

lemma Post_entry_at:
  assumes "Post digest db req = Inr (db', e)" and "journal_ok db"
  shows "\<exists>row ls. entry_at db' (IdempotencyKey req) = Some (row, ls) \<and> e_hash row = canonicalHash digest req"
  using assms
proof (cases rule: Post_cases)
  case (fresh rs)
  let ?row = "request_row digest db req"
  have "journal_ok db'" using Post_ok [OF assms] .
  then have "distinct (map e_key (entries db'))" by (simp add: journal_ok_def entries_ok_def)
  moreover have "?row \<in> set (entries db')" using appendedD [OF fresh(2)] by simp
  moreover have "e_key ?row = IdempotencyKey req" "e_hash ?row = canonicalHash digest req"
    by (simp_all add: request_row_def new_entry_row_def)
  ultimately show ?thesis 
    using first_row_unique [of e_key "entries db'" ?row "IdempotencyKey req"] by (auto simp: entry_at_def)
next
  case (replay old ls)
  have "distinct (map e_key (entries db))" using assms(2) by (simp add: journal_ok_def entries_ok_def)
  then have "first_row (\<lambda>r. e_key r = IdempotencyKey req) (entries db) = Some old"
    using replay(1,2) first_row_unique [of e_key "entries db" old] by simp
  then show ?thesis using replay by (auto simp: entry_at_def)
qed

lemma Transition_entry_at:
  assumes t: "Transition digest env db i to ver p = (env', Inr (db', o'))" and ok: "ledger_ok db" and e: "tp_entry p = Some req"
  shows "\<exists>row ls. entry_at db' (IdempotencyKey req) = Some (row, ls) \<and> e_hash row = canonicalHash digest req"
  using t
proof (cases rule: Transition_cases)
  case (moved current r)
  have j: "journal_ok db" using ok by (simp add: ledger_ok_def)
  obtain db1 eid where c: "\<exists>e. Post digest db req = Inr (db1, e)" "db' = moved_db db1 i (o_state current) to ver eid p"
    by (rule transition_commit_Inr [OF moved(5)]) (use e that in auto)
  have "entry_at db' = entry_at db1" by (simp add: c(2) moved_db_def entry_at_def entry_lines_def fun_eq_iff)
  then show ?thesis using c(1) Post_entry_at [OF _ j] by auto
next
  case (replayed req' e')
  then show ?thesis using Post_entry_at e ok by (auto simp: ledger_ok_def)
qed

lemma usdt_line:
  assumes "ParseDecimal (usdt a) USDT_BEP20 = Inr x"
  shows "x = Amount USDT_BEP20 a"
proof (cases "a = MinInt64")
  case True
  have "\<exists>s. Format (Amount USDT_BEP20 a) = Inr s"
    using Format_Inr [of "Amount USDT_BEP20 a"] Valid_Decimals [OF Valid_simps(1)] by auto
  then obtain t where "Format (Amount USDT_BEP20 a) = Inr t" "usdt a = t" by (auto simp: usdt_def formatted_def)
  then show ?thesis using assms Format_MinInt64 [of "Amount USDT_BEP20 a"] True by auto
next
  case False
  then have "wireable (Amount USDT_BEP20 a)" by (simp add: wireable_def)
  from ParseDecimal_formatted [OF this] assms show ?thesis by (simp add: usdt_def)
qed

lemma postFinal_booked:
  assumes "postFinal (we_digest we) (we_actor we) now ord c srv = (srv', Inr ())" and ok: "ledger_ok (ls_db srv)"
    and read: "order_read (ls_db srv) c ord"
  shows "booked_as we (ls_db srv') c"
proof -
  obtain resp where p: "postTransition (we_digest we) (we_actor we) (DepositFinalIdempotencyKey (observed_key c)) now
      (ob_external c) (final_request ord c) srv = (srv', Inr resp)"
    using assms(1) by (auto simp: postFinal_def api_def map_prod_def split: prod.splits sum.splits)
  note posted = this
  then show ?thesis
  proof (rule postTransition_Inr)
    fix o' :: order and p env' upd
    assume g: "transition_request (ls_db srv) (we_actor we) (DepositFinalIdempotencyKey (observed_key c)) (ob_external c)
        (final_request ord c) = Inr (o', p)"
      and t: "Transition (we_digest we) (server_env now srv) (at_time now srv) (o_id o') (state_of (tj_to (final_request ord c)))
        (tj_version (final_request ord c)) p = (env', Inr (ls_db srv', upd))"
    obtain a b where lines: "ParseDecimal (usdt (ob_units c)) USDT_BEP20 = Inr a" "ParseDecimal (usdt (- ob_units c)) USDT_BEP20 = Inr b"
      and e: "tp_entry p = Some \<lparr>IdempotencyKey = DepositFinalIdempotencyKey (observed_key c), EntryType = ''deposit_final'',
        Actor = we_actor we, OccurredAt = ob_block_time c, OrderID = Some (o_id o'),
        Lines = [Line (depositAccountCode (oj_tier ord) (ob_order_id c)) a, Line (customerAccountCode (ob_customer c)) b],
        Metadata = None\<rparr>"
      using g by (auto simp: transition_request_def final_request_def entryLinesToJournalLines_def asset_of_def)
    have p: "tp_entry p = Some (final_entry (we_actor we) (o_id o') (oj_tier ord) c)"
      unfolding e usdt_line [OF lines(1)] usdt_line [OF lines(2)] by (simp add: final_entry_def)
    have n: "order_named (ls_db srv) (ob_external c) = Some (o_id o', o_tier o')"
      by (rule GetByExternalID_named [OF transition_request_order [OF g]])
    then have tier: "oj_tier ord = tier_str (o_tier o')" using read by (simp add: order_read_def)
    have "served (we_digest we) srv srv'" by (rule postTransition_served [OF posted])
    then have "order_named (ls_db srv') (ob_external c) = Some (o_id o', o_tier o')"
      using served_books_after n ok unfolding books_after_def by blast
    moreover have "ob_units c \<noteq> MinInt64"
    proof
      assume m: "ob_units c = MinInt64"
      obtain u where "usdt MinInt64 = u" "Format (Amount USDT_BEP20 MinInt64) = Inr u"
        using Format_Inr [of "Amount USDT_BEP20 MinInt64"] Valid_Decimals [OF Valid_simps(1)] by (auto simp: usdt_def formatted_def)
      then show False using lines(1) m Format_MinInt64 [of "Amount USDT_BEP20 MinInt64"] by auto
    qed
    moreover obtain row ls where "entry_at (ls_db srv') (IdempotencyKey (final_entry (we_actor we) (o_id o') (oj_tier ord) c)) = Some (row, ls)"
      "e_hash row = canonicalHash (we_digest we) (final_entry (we_actor we) (o_id o') (oj_tier ord) c)"
      using Transition_entry_at [OF t _ p] ok by auto
    ultimately show ?thesis
      unfolding booked_as_def tier by (simp add: entry_told_def final_entry_def)
  qed
qed

section \<open>What a quorum of providers said\<close>

definition gave_deposit :: "watch_env \<Rightarrow> observed \<Rightarrow> string \<Rightarrow> bool" where
  "gave_deposit we c p \<longleftrightarrow>
     (\<exists>n lo hi wallets logs l from to. we_logs we n p lo hi wallets = Some logs \<and> l \<in> set logs \<and>
        log_key l = observed_key c \<and> lg_block l = ob_block c \<and>
        ParseTransferLog (we_topic we) l = Inr (from, to, ob_units c) \<and> ob_address c = we_canon we (we_hex we to))"

definition gave_final :: "watch_env \<Rightarrow> observed \<Rightarrow> string \<Rightarrow> bool" where
  "gave_final we c p \<longleftrightarrow> (\<exists>n h x. we_final we n p = Some (h, x) \<and> ob_block c \<le> h)"

definition gave_log :: "watch_env \<Rightarrow> observed \<Rightarrow> string \<Rightarrow> bool" where
  "gave_log we c p \<longleftrightarrow>
     (\<exists>n wallets logs. we_logs we n p (ob_block c) (ob_block c) wallets = Some logs \<and> observed_key c \<in> log_key ` set logs)"

definition quorum :: "watch_env \<Rightarrow> (string \<Rightarrow> bool) \<Rightarrow> bool" where
  "quorum we P \<longleftrightarrow>
     (\<exists>ps. distinct ps \<and> set ps \<subseteq> set (we_providers we) \<and> we_least we \<le> length ps \<and> (\<forall>p \<in> set ps. P p))"

lemma quorum_mono: "quorum we P \<Longrightarrow> (\<And>p. P p \<Longrightarrow> Q p) \<Longrightarrow> quorum we Q"
  unfolding quorum_def by blast

definition env_ok :: "watch_env \<Rightarrow> bool" where
  "env_ok we \<longleftrightarrow> 1 \<le> we_least we \<and> distinct (we_providers we)"

lemma resolved_quorum:
  assumes "env_ok we"
    and r: "resolveAgreement (we_least we) (map (\<lambda>p. \<lparr>nr_name = p, nr_key = f p\<rparr>) (we_providers we)) = Inr (k, names)"
  shows "names \<noteq> [] \<and> (\<forall>p \<in> set names. f p = Some k) \<and> quorum we (\<lambda>p. f p = Some k)"
proof -
  have "1 \<le> we_least we" "distinct (we_providers we)" using assms(1) by (simp_all add: env_ok_def)
  then have n: "names = filter (\<lambda>p. f p = Some k) (we_providers we)" "we_least we \<le> length names"
    using r by (auto simp: resolveAgreement_iff reporters_def filter_map comp_def)
  have "names \<noteq> []" using n(2) \<open>1 \<le> we_least we\<close> by auto
  moreover have "quorum we (\<lambda>p. f p = Some k)" unfolding quorum_def
    by (rule exI [of _ names]) (use n \<open>distinct (we_providers we)\<close> in auto)
  ultimately show ?thesis using n(1) by auto
qed

lemma latest_final_quorum:
  assumes "env_ok we" and "latest_final we n = Inr (h, x)"
  shows "quorum we (\<lambda>p. we_final we n p = Some (h, x))"
  using assms resolved_quorum [OF assms(1), of "we_final we n"]
  by (auto simp: latest_final_def agreed_def split: sum.splits)

lemma logs_at_quorum:
  assumes "env_ok we" and "logs_at we lo hi wallets n = Inr logs"
  shows "quorum we (\<lambda>p. \<exists>ls. we_logs we n p lo hi wallets = Some ls \<and> set ls = set logs)"
proof -
  obtain k names where r: "resolveAgreement (we_least we) (map (\<lambda>p. \<lparr>nr_name = p, nr_key = map_option sortLogs
      (we_logs we n p lo hi wallets)\<rparr>) (we_providers we)) = Inr (k, names)"
    and l: "we_logs we n (hd names) lo hi wallets = Some logs"
    using assms(2) by (auto simp: logs_at_def agreed_def split: sum.splits option.splits)
  note q = resolved_quorum [OF assms(1) r]
  then have "hd names \<in> set names" by simp
  with q have "map_option sortLogs (we_logs we n (hd names) lo hi wallets) = Some k" by blast
  then have "k = sortLogs logs" using l by simp
  moreover have "set ls = set logs" if "sortLogs ls = sortLogs logs" for ls
    using arg_cong [OF that, of set] by (simp add: sortLogs_def)
  ultimately have each: "\<exists>ls. we_logs we n p lo hi wallets = Some ls \<and> set ls = set logs"
    if h: "map_option sortLogs (we_logs we n p lo hi wallets) = Some k" for p
  proof -
    obtain ls where "we_logs we n p lo hi wallets = Some ls" "sortLogs ls = sortLogs logs"
      using h \<open>k = sortLogs logs\<close> by auto
    with \<open>\<And>ls. sortLogs ls = sortLogs logs \<Longrightarrow> set ls = set logs\<close> show ?thesis by blast
  qed
  have "quorum we (\<lambda>p. map_option sortLogs (we_logs we n p lo hi wallets) = Some k)" using q by blast
  from quorum_mono [OF this each] show ?thesis .
qed

definition deposit_seen :: "watch_env \<Rightarrow> observed \<Rightarrow> bool" where
  "deposit_seen we c \<longleftrightarrow> quorum we (gave_deposit we c)"

text \<open>The deposit went to a wallet that was given to its customer, for its order, before the block.\<close>

definition granted :: "pool_db \<Rightarrow> observed \<Rightarrow> bool" where
  "granted db c \<longleftrightarrow>
     (\<exists>t. (ob_address c, ob_order_id c, ob_external c, ob_customer c, t) \<in> lease_grant ` set (pd_leases db) \<and>
        t \<le> pg_time (ob_block_time c + leaseTimeTolerance))"

lemma granted_kept: "grants_kept db db' \<Longrightarrow> granted db c \<Longrightarrow> granted db' c"
  unfolding grants_kept_def granted_def by blast

definition deposit_known :: "watch_env \<Rightarrow> watch_sys \<Rightarrow> observed \<Rightarrow> bool" where
  "deposit_known we s c \<longleftrightarrow> deposit_seen we c \<and> granted (wy_pool s) c"

lemma deposit_known_simps [simp]:
  "deposit_known we (s\<lparr>wy_pending := cs\<rparr>) = deposit_known we s" "deposit_known we (s\<lparr>wy_finalized := cs\<rparr>) = deposit_known we s"
  "deposit_known we (s\<lparr>wy_faults := fs\<rparr>) = deposit_known we s" "deposit_known we (s\<lparr>wy_db := db\<rparr>) = deposit_known we s"
  "deposit_known we (s\<lparr>wy_heights := hs\<rparr>) = deposit_known we s"
  by (simp_all add: fun_eq_iff deposit_known_def)

definition deposit_final :: "watch_env \<Rightarrow> observed \<Rightarrow> bool" where
  "deposit_final we c \<longleftrightarrow> quorum we (gave_final we c) \<and> quorum we (gave_log we c)"

text \<open>Each provider counted in the votes said itself that the block is final, and gave the log.\<close>

definition votes_ok :: "watch_env \<Rightarrow> candidate \<Rightarrow> bool" where
  "votes_ok we c \<longleftrightarrow>
     (let v = votes_of we c in
      cc_min v = we_least we \<and> distinct (map fst (cc_present v)) \<and>
      (\<forall>p \<in> fst ` set (cc_present v). p \<in> set (we_providers we) \<and> gave_final we (cd_log c) p \<and> gave_log we (cd_log c) p))"

lemma votes_ok_final:
  assumes "votes_ok we c" and "status_of (votes_of we c) = AsyncQuorumReached"
  shows "deposit_final we (cd_log c)"
proof -
  let ?ps = "map fst (cc_present (votes_of we c))"
  have "we_least we \<le> length ?ps" using assms by (auto simp: status_of_def votes_ok_def Let_def split: if_splits)
  then have "quorum we (\<lambda>p. gave_final we (cd_log c) p \<and> gave_log we (cd_log c) p)"
    unfolding quorum_def by (intro exI [of _ ?ps]) (use assms(1) in \<open>auto simp: votes_ok_def Let_def\<close>)
  then show ?thesis unfolding deposit_final_def using quorum_mono by (metis (mono_tags, lifting))
qed

section \<open>The invariant\<close>

definition row_at :: "watch_sys \<Rightarrow> deposit_key \<Rightarrow> deposit_row option" where
  "row_at s k = first_row (\<lambda>r. dr_key r = k) (wd_deposits (wy_db s))"

definition row_ok :: "watch_env \<Rightarrow> watch_sys \<Rightarrow> deposit_row \<Rightarrow> bool" where
  "row_ok we s r \<longleftrightarrow> deposit_known we s (dr_log r) \<and>
     (dr_status r = Reported \<longrightarrow> (\<exists>c. observed_key c = dr_key r \<and> deposit_known we s c \<and> deposit_final we c \<and>
        booked_as we (ls_db (wy_ledger s)) c)) \<and>
     (dr_status r = Orphaned \<longrightarrow> dr_key r \<in> or_key ` set (wd_orphans (wy_db s)))"

definition pending_ok :: "watch_env \<Rightarrow> watch_sys \<Rightarrow> candidate \<Rightarrow> bool" where
  "pending_ok we s c \<longleftrightarrow> deposit_known we s (cd_log c) \<and> votes_ok we c \<and>
     (\<exists>r. row_at s (cd_key c) = Some r \<and> dr_status r = Detected)"

definition finalized_ok :: "watch_env \<Rightarrow> watch_sys \<Rightarrow> candidate \<Rightarrow> bool" where
  "finalized_ok we s c \<longleftrightarrow> deposit_known we s (cd_log c) \<and> deposit_final we (cd_log c) \<and>
     booked_as we (ls_db (wy_ledger s)) (cd_log c)"

definition watch_ok :: "watch_env \<Rightarrow> watch_sys \<Rightarrow> bool" where
  "watch_ok we s \<longleftrightarrow> ledger_ok (ls_db (wy_ledger s)) \<and> distinct (map dr_key (wd_deposits (wy_db s))) \<and>
     distinct (map cd_key (wy_pending s)) \<and>
     (\<forall>r \<in> set (wd_deposits (wy_db s)). row_ok we s r) \<and> (\<forall>c \<in> set (wy_pending s). pending_ok we s c) \<and>
     (\<forall>c \<in> set (wy_finalized s). finalized_ok we s c)"

text \<open>What was posted stays posted.\<close>

definition books_kept :: "watch_env \<Rightarrow> watch_sys \<Rightarrow> watch_sys \<Rightarrow> bool" where
  "books_kept we s s' \<longleftrightarrow> books_after (we_digest we) (ls_db (wy_ledger s)) (ls_db (wy_ledger s')) \<and>
     grants_kept (wy_pool s) (wy_pool s')"

lemma books_kept_ok: "books_kept we s s' \<Longrightarrow> ledger_ok (ls_db (wy_ledger s)) \<Longrightarrow> ledger_ok (ls_db (wy_ledger s'))"
  by (simp add: books_kept_def books_after_def)

definition outside :: "watch_env \<Rightarrow> watch_sys \<Rightarrow> watch_sys \<Rightarrow> bool" where
  "outside we s s' \<longleftrightarrow> wy_db s' = wy_db s \<and> wy_pending s' = wy_pending s \<and> wy_finalized s' = wy_finalized s \<and> books_kept we s s'"

lemma books_kept_refl [simp]: "books_kept we s s" by (simp add: books_kept_def grants_kept_same)

lemma books_kept_trans: "books_kept we s s1 \<Longrightarrow> books_kept we s1 s2 \<Longrightarrow> books_kept we s s2"
  unfolding books_kept_def using books_after_trans grants_kept_trans by blast

lemma books_kept_same [simp]: "wy_ledger s' = wy_ledger s \<Longrightarrow> wy_pool s' = wy_pool s \<Longrightarrow> books_kept we s s'"
  by (simp add: books_kept_def grants_kept_same)

lemma books_kept_known: "books_kept we s s' \<Longrightarrow> deposit_known we s c \<Longrightarrow> deposit_known we s' c"
  unfolding books_kept_def deposit_known_def using granted_kept by blast

lemma outside_refl [simp]: "outside we s s" by (simp add: outside_def)

lemma outside_trans: "outside we s s1 \<Longrightarrow> outside we s1 s2 \<Longrightarrow> outside we s s2"
  unfolding outside_def using books_kept_trans by metis

lemma books_kept_booked:
  assumes "books_kept we s s'" and "ledger_ok (ls_db (wy_ledger s))" and "booked_as we (ls_db (wy_ledger s)) c"
  shows "booked_as we (ls_db (wy_ledger s')) c"
  using assms unfolding books_kept_def books_after_def booked_as_def by metis

lemma books_kept_credited:
  assumes "books_kept we s s'" and "ledger_ok (ls_db (wy_ledger s))" and "credited (ls_db (wy_ledger s)) c"
  shows "credited (ls_db (wy_ledger s')) c"
  using assms unfolding books_kept_def books_after_def credited_def by blast

lemma books_kept_read:
  assumes "books_kept we s s'" and "ledger_ok (ls_db (wy_ledger s))" and "order_read (ls_db (wy_ledger s)) c ord"
  shows "order_read (ls_db (wy_ledger s')) c ord"
  using assms unfolding books_kept_def books_after_def order_read_def by blast

definition row_kept :: "watch_sys \<Rightarrow> watch_sys \<Rightarrow> bool" where
  "row_kept s s' \<longleftrightarrow> (\<forall>k r. row_at s k = Some r \<longrightarrow> (\<exists>r'. row_at s' k = Some r' \<and> dr_log r' = dr_log r \<and>
     dr_class r' = dr_class r \<and> (dr_status r' = dr_status r \<or> dr_status r = Detected)))"

definition keeps_deposits :: "watch_env \<Rightarrow> watch_sys \<Rightarrow> watch_sys \<Rightarrow> bool" where
  "keeps_deposits we s s' \<longleftrightarrow> row_kept s s' \<and> books_kept we s s'"

lemma row_kept_trans:
  assumes a: "row_kept s s1" and b: "row_kept s1 s2"
  shows "row_kept s s2"
  unfolding row_kept_def
proof (intro allI impI)
  fix k r
  assume "row_at s k = Some r"
  then obtain r1 where r1: "row_at s1 k = Some r1" "dr_log r1 = dr_log r" "dr_class r1 = dr_class r"
    "dr_status r1 = dr_status r \<or> dr_status r = Detected" using a unfolding row_kept_def by meson
  moreover obtain r2 where "row_at s2 k = Some r2" "dr_log r2 = dr_log r1" "dr_class r2 = dr_class r1"
    "dr_status r2 = dr_status r1 \<or> dr_status r1 = Detected" using b r1(1) unfolding row_kept_def by meson
  ultimately show "\<exists>r'. row_at s2 k = Some r' \<and> dr_log r' = dr_log r \<and> dr_class r' = dr_class r \<and>
    (dr_status r' = dr_status r \<or> dr_status r = Detected)" by (intro exI [of _ r2]) auto
qed

lemma row_kept_same [simp]: "wd_deposits (wy_db s') = wd_deposits (wy_db s) \<Longrightarrow> row_kept s s'"
  by (simp add: row_kept_def row_at_def)

definition spares :: "deposit_key set \<Rightarrow> watch_sys \<Rightarrow> watch_sys \<Rightarrow> bool" where
  "spares ks s s' \<longleftrightarrow> (\<forall>c \<in> set (wy_pending s). cd_key c \<notin> ks \<longrightarrow> c \<in> set (wy_pending s'))"

definition moves :: "watch_env \<Rightarrow> deposit_key set \<Rightarrow> watch_sys \<Rightarrow> watch_sys \<Rightarrow> bool" where
  "moves we ks s s' \<longleftrightarrow> (watch_ok we s \<longrightarrow> watch_ok we s' \<and> keeps_deposits we s s' \<and> spares ks s s')"

lemma moves_refl [simp]: "moves we ks s s"
  by (simp add: moves_def keeps_deposits_def spares_def)

lemma moves_trans:
  assumes "moves we ks s s1" and "moves we ls s1 s2"
  shows "moves we (ks \<union> ls) s s2"
proof -
  have "keeps_deposits we s s2" if "keeps_deposits we s s1" "keeps_deposits we s1 s2"
    using that row_kept_trans books_kept_trans unfolding keeps_deposits_def by blast
  moreover have "spares (ks \<union> ls) s s2" if "spares ks s s1" "spares ls s1 s2"
    using that unfolding spares_def by blast
  ultimately show ?thesis using assms unfolding moves_def by blast
qed

lemma moves_mono: "moves we ks s s' \<Longrightarrow> ks \<subseteq> ls \<Longrightarrow> moves we ls s s'"
  unfolding moves_def spares_def by blast

lemma moves_then: "moves we ks s s1 \<Longrightarrow> moves we ks s1 s2 \<Longrightarrow> moves we ks s s2"
  using moves_trans [of we ks s s1 ks s2] by simp

text \<open>Calls that only touch the ledger, or that record an orphan, change none of this.\<close>

lemma rows_kept:
  assumes b: "books_kept we s s'" and l: "ledger_ok (ls_db (wy_ledger s))"
  shows "or_key ` set (wd_orphans (wy_db s)) \<subseteq> or_key ` set (wd_orphans (wy_db s')) \<Longrightarrow> row_ok we s r \<Longrightarrow> row_ok we s' r"
    and "finalized_ok we s c \<Longrightarrow> finalized_ok we s' c"
    and "row_at s' (cd_key c) = row_at s (cd_key c) \<Longrightarrow> pending_ok we s c \<Longrightarrow> pending_ok we s' c"
proof -
  note kept = books_kept_booked [OF b l] books_kept_known [OF b]
  show "finalized_ok we s' c" if "finalized_ok we s c" using that kept unfolding finalized_ok_def by blast
  show "pending_ok we s' c" if "row_at s' (cd_key c) = row_at s (cd_key c)" "pending_ok we s c"
    using that kept unfolding pending_ok_def by metis
  assume o: "or_key ` set (wd_orphans (wy_db s)) \<subseteq> or_key ` set (wd_orphans (wy_db s'))" and r: "row_ok we s r"
  have "\<exists>c. observed_key c = dr_key r \<and> deposit_known we s' c \<and> deposit_final we c \<and> booked_as we (ls_db (wy_ledger s')) c"
    if "dr_status r = Reported"
    using r that kept unfolding row_ok_def by meson
  then show "row_ok we s' r" using r o kept(2) unfolding row_ok_def by auto
qed

lemma watch_ok_frame:
  assumes ok: "watch_ok we s" and b: "books_kept we s s'" and d: "wd_deposits (wy_db s') = wd_deposits (wy_db s)"
    and o: "or_key ` set (wd_orphans (wy_db s)) \<subseteq> or_key ` set (wd_orphans (wy_db s'))"
    and f: "wy_pending s' = wy_pending s" "wy_finalized s' = wy_finalized s"
  shows "watch_ok we s'"
proof -
  have l: "ledger_ok (ls_db (wy_ledger s))" using ok by (simp add: watch_ok_def)
  note kept = rows_kept [OF b l]
  have "pending_ok we s c \<Longrightarrow> pending_ok we s' c" for c by (rule kept(3)) (simp_all add: row_at_def d)
  moreover have "ledger_ok (ls_db (wy_ledger s'))" using books_kept_ok [OF b l] .
  ultimately show ?thesis using ok kept(1) [OF o] kept(2) unfolding watch_ok_def d f by simp
qed

lemma outside_moves: "outside we s s' \<Longrightarrow> moves we ks s s'"
  unfolding moves_def
proof (intro impI conjI)
  assume o: "outside we s s'" and ok: "watch_ok we s"
  show "watch_ok we s'" by (rule watch_ok_frame [OF ok]) (use o in \<open>simp_all add: outside_def\<close>)
  show "keeps_deposits we s s'" using o by (simp add: keeps_deposits_def outside_def)
  show "spares ks s s'" using o by (simp add: spares_def outside_def)
qed

lemma orphan_moves:
  assumes "wy_db s' = RecordOrphan i ext k amt now st addr (wy_db s)"
    and "wy_pending s' = wy_pending s" "wy_finalized s' = wy_finalized s" "books_kept we s s'"
  shows "moves we ks s s'" and "k \<in> or_key ` set (wd_orphans (wy_db s'))"
proof -
  have d: "wd_deposits (wy_db s') = wd_deposits (wy_db s)"
    and o: "or_key ` set (wd_orphans (wy_db s)) \<subseteq> or_key ` set (wd_orphans (wy_db s'))"
    using assms(1) by (auto simp: RecordOrphan_def)
  show "moves we ks s s'" unfolding moves_def
    using watch_ok_frame [OF _ assms(4) d o assms(2,3)] d assms(2,4) by (simp add: keeps_deposits_def spares_def)
  show "k \<in> or_key ` set (wd_orphans (wy_db s'))"
    using assms(1) by (force simp: RecordOrphan_def list_ex_iff)
qed

section \<open>Calls\<close>

definition quiet :: "watch_env \<Rightarrow> 'a wact \<Rightarrow> bool" where
  "quiet we m \<longleftrightarrow> (\<forall>s. outside we s (fst (m s)))"

lemma next_wfault_outside: "outside we s (fst (next_wfault we s))"
  using others_books_after [of "we_digest we" "wy_ledger s"] run_grants
  by (auto simp: grants_kept_same next_wfault_def Let_def outside_def books_kept_def split: list.splits)

lemma wcall_cases:
  assumes "wcall we m s = (s', r)"
  obtains s1 where "outside we s s1" "(s', r) = m s1 \<or> r = Inl CallLost \<and> (s' = s1 \<or> s' = fst (m s1))"
proof -
  obtain s1 rep where n: "next_wfault we s = (s1, rep)" by fastforce
  then have o: "outside we s s1" using next_wfault_outside [of we s] by simp
  show ?thesis by (rule that [OF o]) (use assms n in \<open>auto simp: wcall_def split: reply.splits\<close>)
qed

lemma wcall_quiet:
  assumes "quiet we m"
  shows "quiet we (wcall we m)"
  unfolding quiet_def
proof
  fix s
  obtain s1 where o: "outside we s s1" and w: "wcall we m s = m s1 \<or> fst (wcall we m s) = s1 \<or> fst (wcall we m s) = fst (m s1)"
    using wcall_cases [OF surjective_pairing [of "wcall we m s"]] by (metis prod.collapse)
  moreover have "outside we s1 (fst (m s1))" using assms by (simp add: quiet_def)
  ultimately show "outside we s (fst (wcall we m s))" using outside_trans [OF o] by metis
qed

lemma store_call_cases:
  fixes g :: "time \<Rightarrow> watch_db \<Rightarrow> watch_db \<times> 'a"
  assumes "store_call we g s = (s', r)"
  obtains s1 now where "outside we s s1" "s' = s1 \<and> r = Inl CallLost \<or>
    s' = s1\<lparr>wy_db := fst (g now (wy_db s))\<rparr> \<and> (r = Inl CallLost \<or> r = Inr (snd (g now (wy_db s))))"
proof -
  obtain s1 where o: "outside we s s1" and w: "(s', r) = (case g (wclock we s1) (wy_db s1) of (db, x) \<Rightarrow> (s1\<lparr>wy_db := db\<rparr>, Inr x)) \<or>
      r = Inl CallLost \<and> (s' = s1 \<or> s' = fst (case g (wclock we s1) (wy_db s1) of (db, x) \<Rightarrow> (s1\<lparr>wy_db := db\<rparr>, Inr x :: watch_error + 'a)))"
    using assms unfolding store_call_def by (rule wcall_cases)
  have db: "wy_db s1 = wy_db s" using o by (simp add: outside_def)
  obtain db' x where g: "g (wclock we s1) (wy_db s) = (db', x)" by fastforce
  show ?thesis by (rule that [of s1 "wclock we s1", OF o]) (use w in \<open>auto simp: db g\<close>)
qed

lemma quiet_simps [simp]: "quiet we (wret x)" "quiet we (wfail e)"
  by (simp_all add: quiet_def wret_def wfail_def)

lemma asks_quiet [simp]: "quiet we (pool_read we g1)" "quiet we (ledger_ask we g2)" "quiet we (chain_ask we g3)"
  unfolding pool_read_def ledger_ask_def chain_ask_def by (rule wcall_quiet, simp add: quiet_def)+

lemma quiet_wthen: "quiet we m \<Longrightarrow> (\<And>x. quiet we (k x)) \<Longrightarrow> quiet we (wthen m k)"
  unfolding quiet_def wthen_def by (auto split: prod.splits sum.splits) (metis fst_conv outside_trans)+

lemma ledger_tell_quiet:
  assumes "\<And>now srv. served (we_digest we) srv (fst (g now srv))"
  shows "quiet we (ledger_tell we g)"
  unfolding ledger_tell_def
proof (rule wcall_quiet, unfold quiet_def, rule allI)
  fix s
  obtain srv r where g: "g (wclock we s) (wy_ledger s) = (srv, r)" by fastforce
  then have "served (we_digest we) (wy_ledger s) srv" using assms [of "wy_ledger s" "wclock we s"] by simp
  then show "outside we s (fst (case g (wclock we s) (wy_ledger s) of (srv, r) \<Rightarrow> (s\<lparr>wy_ledger := srv\<rparr>, said r)))"
    using served_books_after by (auto simp: g outside_def books_kept_def grants_kept_same)
qed

lemma postFinal_served: "served digest srv (fst (postFinal digest actor now ord c srv))"
  by (auto simp: postFinal_def intro: postTransition_served [OF surjective_pairing])

lemma ReportReorg_served: "served digest srv (fst (ReportReorg digest actor now ext k srv))"
  using postReorg_served [OF surjective_pairing [of "postReorg digest actor now ext k srv"]]
  by (auto simp: ReportReorg_def split: prod.splits sum.splits ledger_error.splits)

lemma EnsureAccount_served: "served digest srv (fst (lc_EnsureAccount now c t a srv))"
  by (rule client_served(3) [OF surjective_pairing])

lemma LogsAt_quiet [simp, intro]: "quiet we (LogsAt we lo hi wallets)" and LatestFinalized_quiet [simp, intro]: "quiet we (LatestFinalized we)"
  by (simp_all add: LogsAt_def LatestFinalized_def)

text \<open>What was answered, and when.\<close>

lemma chain_ask_Inr: "chain_ask we g s = (s', Inr x) \<Longrightarrow> \<exists>n. g n = Inr x"
  unfolding chain_ask_def by (erule wcall_cases) auto

section \<open>Reports\<close>

text \<open>A call that makes something true of the books when it answers.\<close>

lemma ledger_tell_Inr:
  assumes "ledger_tell we g s = (s', Inr x)"
  shows "\<exists>now s1. outside we s s1 \<and> g now (wy_ledger s1) = (wy_ledger s', Inr x)"
proof -
  obtain s1 where o: "outside we s s1"
    and m: "(s', Inr x) = (case g (wclock we s1) (wy_ledger s1) of (srv, r) \<Rightarrow> (s1\<lparr>wy_ledger := srv\<rparr>, said r))"
    by (rule wcall_cases [OF assms [unfolded ledger_tell_def]]) (use that in blast)
  then show ?thesis by (cases "g (wclock we s1) (wy_ledger s1)") (auto simp: said_def split: sum.splits)
qed

lemma ledger_ask_Inr: "ledger_ask we g s = (s', Inr x) \<Longrightarrow> g (wy_ledger s') = Inr x"
  unfolding ledger_ask_def by (erule wcall_cases) (auto simp: said_def split: sum.splits)

lemma ledger_tell_postFinal [simp]:
  "quiet we (ledger_tell we (\<lambda>now. postFinal (we_digest we) (we_actor we) now ord c))"
  "quiet we (ledger_tell we (\<lambda>now. ReportReorg (we_digest we) (we_actor we) now ext k))"
  "quiet we (ledger_tell we (\<lambda>now. lc_EnsureAccount now a t asset))"
  by (rule ledger_tell_quiet; (rule postFinal_served ReportReorg_served EnsureAccount_served))+

text \<open>An action that books a deposit when it answers, started on books of which \<open>P\<close> holds.\<close>

definition books_from :: "watch_env \<Rightarrow> observed \<Rightarrow> (db \<Rightarrow> bool) \<Rightarrow> unit wact \<Rightarrow> bool" where
  "books_from we c P m \<longleftrightarrow> quiet we m \<and> (\<forall>s s'. ledger_ok (ls_db (wy_ledger s)) \<longrightarrow> P (ls_db (wy_ledger s)) \<longrightarrow>
     m s = (s', Inr ()) \<longrightarrow> booked_as we (ls_db (wy_ledger s')) c)"

abbreviation books :: "watch_env \<Rightarrow> observed \<Rightarrow> unit wact \<Rightarrow> bool" where
  "books we c \<equiv> books_from we c (\<lambda>_. True)"

lemma books_wthen:
  assumes "quiet we m" and "\<And>x. books_from we c (Q x) (k x)"
    and "\<And>s s1 x. outside we s s1 \<Longrightarrow> ledger_ok (ls_db (wy_ledger s)) \<Longrightarrow> P (ls_db (wy_ledger s)) \<Longrightarrow> m s = (s1, Inr x) \<Longrightarrow>
      Q x (ls_db (wy_ledger s1))"
  shows "books_from we c P (wthen m k)"
proof -
  have "booked_as we (ls_db (wy_ledger s')) c"
    if ok: "ledger_ok (ls_db (wy_ledger s))" and pre: "P (ls_db (wy_ledger s))" and w: "wthen m k s = (s', Inr ())" for s s'
  proof -
    obtain s1 x where m: "m s = (s1, Inr x)" "k x s1 = (s', Inr ())"
      using w by (auto simp: wthen_def split: prod.splits sum.splits)
    have o: "outside we s s1" using assms(1) m(1) unfolding quiet_def by (metis fst_conv)
    then have "ledger_ok (ls_db (wy_ledger s1))" using ok books_kept_ok by (auto simp: outside_def)
    then show ?thesis using assms(2) [of x] assms(3) [OF o ok pre m(1)] m(2) unfolding books_from_def by blast
  qed
  then show ?thesis using quiet_wthen [OF assms(1)] assms(2) unfolding books_from_def by blast
qed

lemma books_after_read:
  assumes "quiet we m" and "\<And>x. books_from we c (\<lambda>db. order_read db c ord) (k x)"
  shows "books_from we c (\<lambda>db. order_read db c ord) (wthen m k)"
  by (rule books_wthen [OF assms]) (auto simp: outside_def intro: books_kept_read)

lemma report_final_books:
  assumes r: "books we c retry"
  shows "books we c (report_final we retry c)"
proof -
  let ?post = "\<lambda>ord. ledger_tell we (\<lambda>now. postFinal (we_digest we) (we_actor we) now ord c)"
  let ?last = "\<lambda>ord s. case ?post ord s of
       (s', Inl (LedgerSaid e)) \<Rightarrow>
         (if e = ApiError ErrVersionConflict then retry s'
          else if e = ApiError ErrIllegalTransition \<or> e = ApiError ErrIdempotencyConflict then (s', Inl (ReportPermanent e))
          else (s', Inl (LedgerSaid e)))
     | r \<Rightarrow> r"
  have last: "books_from we c (\<lambda>db. order_read db c ord) (?last ord)" for ord
    unfolding books_from_def quiet_def
  proof (intro conjI allI impI)
    fix s
    obtain s1 x where p: "?post ord s = (s1, x)" by fastforce
    have o: "outside we s s1" using ledger_tell_postFinal(1) [of we ord c] p unfolding quiet_def by (metis fst_conv)
    have "outside we s1 (fst (retry s1))" using r by (simp add: books_from_def quiet_def)
    then show "outside we s (fst (?last ord s))"
      using o outside_trans [OF o] by (auto simp: p split: sum.splits watch_error.splits)
  next
    fix s s'
    assume ok: "ledger_ok (ls_db (wy_ledger s))" and read: "order_read (ls_db (wy_ledger s)) c ord"
      and l: "?last ord s = (s', Inr ())"
    obtain s1 x where p: "?post ord s = (s1, x)" by fastforce
    have o: "outside we s s1" using ledger_tell_postFinal(1) [of we ord c] p unfolding quiet_def by (metis fst_conv)
    then have ok1: "ledger_ok (ls_db (wy_ledger s1))" using ok books_kept_ok by (auto simp: outside_def)
    show "booked_as we (ls_db (wy_ledger s')) c"
    proof (cases x)
      case (Inl e)
      then have "retry s1 = (s', Inr ())" using l by (auto simp: p split: watch_error.splits if_splits)
      then show ?thesis using r ok1 unfolding books_from_def by blast
    next
      case (Inr u)
      then have "?post ord s = (s', Inr ())" using l p by simp
      from ledger_tell_Inr [OF this] obtain now s2 where o2: "outside we s s2"
        and post: "postFinal (we_digest we) (we_actor we) now ord c (wy_ledger s2) = (wy_ledger s', Inr ())" by auto
      then have b: "books_kept we s s2" by (simp add: outside_def)
      show ?thesis by (rule postFinal_booked [OF post books_kept_ok [OF b ok] books_kept_read [OF b ok read]])
    qed
  qed
  show ?thesis unfolding report_final_def
    by (rule books_wthen [where Q = "\<lambda>ord db. order_read db c ord"], simp, rule books_after_read, simp, rule books_after_read,
      simp, rule last, rule GetOrder_read, erule ledger_ask_Inr)
qed

lemma ReportDepositFinal_books: "books we c (ReportDepositFinal we c)"
proof -
  have "books we c (wfail e)" for e by (simp add: books_from_def) (simp add: wfail_def)
  then show ?thesis unfolding ReportDepositFinal_def by (intro report_final_books)
qed

section \<open>The end of a candidate\<close>

lemma row_at_SetStatus:
  "first_row (\<lambda>r. dr_key r = j) (wd_deposits (SetStatus k st db)) =
     map_option (\<lambda>r. if dr_key r = k then r\<lparr>dr_status := st\<rparr> else r) (first_row (\<lambda>r. dr_key r = j) (wd_deposits db))"
  unfolding SetStatus_def using first_row_update_key [of "\<lambda>r. dr_key r = k" dr_key] by (simp add: dr_key_def)

lemma SetStatus_simps [simp]:
  "map dr_key (wd_deposits (SetStatus k st db)) = map dr_key (wd_deposits db)"
  "wd_orphans (SetStatus k st db) = wd_orphans db"
  by (simp_all add: SetStatus_def update_rows_def dr_key_def)

lemma row_at_key: "row_at s k = Some r \<Longrightarrow> dr_key r = k \<and> r \<in> set (wd_deposits (wy_db s))"
  unfolding row_at_def by (drule first_row_Some) simp

lemma settle:
  assumes ok: "watch_ok we s" and c: "c \<in> set (wy_pending s)" "cd_key c = k"
    and db: "wy_db s' = wy_db s \<or> wy_db s' = SetStatus k st (wy_db s)"
    and pend: "wy_pending s' = untrack k (wy_pending s)"
    and fin: "\<And>d. d \<in> set (wy_finalized s') \<Longrightarrow> d \<in> set (wy_finalized s) \<or> finalized_ok we s' d"
    and b: "books_kept we s s'"
    and reported: "st = Reported \<Longrightarrow> \<exists>d. observed_key d = k \<and> deposit_known we s' d \<and> deposit_final we d \<and>
      booked_as we (ls_db (wy_ledger s')) d"
    and orphaned: "st = Orphaned \<Longrightarrow> k \<in> or_key ` set (wd_orphans (wy_db s))"
  shows "watch_ok we s' \<and> keeps_deposits we s s' \<and> spares {k} s s'"
proof (intro conjI)
  have l: "ledger_ok (ls_db (wy_ledger s))" using ok by (simp add: watch_ok_def)
  note kept = rows_kept [OF b l]
  have o: "wd_orphans (wy_db s') = wd_orphans (wy_db s)" using db by auto
  have at: "row_at s' j = row_at s j" if "j \<noteq> k" for j
  proof (cases "row_at s j")
    case (Some q)
    then have "dr_key q = j" using row_at_key by blast
    then show ?thesis using db row_at_SetStatus [of j k st "wy_db s"] that Some by (auto simp: row_at_def)
  qed (use db row_at_SetStatus [of j k st "wy_db s"] in \<open>auto simp: row_at_def\<close>)
  obtain r where r: "row_at s k = Some r" "dr_status r = Detected"
    using ok c unfolding watch_ok_def pending_ok_def by blast
  have atk: "row_at s' k = Some r \<or> row_at s' k = Some (r\<lparr>dr_status := st\<rparr>)"
    using db row_at_SetStatus [of k k st "wy_db s"] r(1) row_at_key [OF r(1)] by (auto simp: row_at_def)
  have rows: "row_ok we s' q" if q: "q \<in> set (wd_deposits (wy_db s'))" for q
  proof -
    have same: "row_ok we s q0 \<Longrightarrow> row_ok we s' q0" for q0 by (rule kept(1)) (simp_all add: o)
    from db q consider "q \<in> set (wd_deposits (wy_db s))"
      | q0 where "q0 \<in> set (wd_deposits (wy_db s))" "dr_key q0 = k" "q = q0\<lparr>dr_status := st\<rparr>"
      by (auto simp: SetStatus_def update_rows_def split: if_splits)
    then show ?thesis
    proof cases
      case 1
      then show ?thesis using same ok by (simp add: watch_ok_def)
    next
      case 2
      then have "deposit_known we s' (dr_log q0)" using ok books_kept_known [OF b] by (simp add: watch_ok_def row_ok_def)
      moreover have "dr_key q = k" "dr_log q = dr_log q0" "dr_status q = st" using 2 by (simp_all add: dr_key_def)
      ultimately show ?thesis using reported orphaned unfolding row_ok_def o by auto
    qed
  qed
  have "pending_ok we s' d" if "d \<in> set (wy_pending s')" for d
    by (rule kept(3)) (use that ok in \<open>simp_all add: at pend untrack_def watch_ok_def\<close>)
  moreover have "finalized_ok we s' d" if "d \<in> set (wy_finalized s')" for d
    using fin [OF that] ok kept(2) by (auto simp: watch_ok_def)
  moreover have "distinct (map dr_key (wd_deposits (wy_db s')))" using db ok by (auto simp: watch_ok_def)
  moreover have "distinct (map cd_key (wy_pending s'))" using ok by (simp add: pend untrack_def watch_ok_def distinct_map_filter)
  moreover have "ledger_ok (ls_db (wy_ledger s'))" by (rule books_kept_ok [OF b l])
  ultimately show "watch_ok we s'" using rows unfolding watch_ok_def by blast
  have "row_kept s s'" unfolding row_kept_def
  proof (intro allI impI)
    fix j q
    assume "row_at s j = Some q"
    then show "\<exists>r'. row_at s' j = Some r' \<and> dr_log r' = dr_log q \<and> dr_class r' = dr_class q \<and>
        (dr_status r' = dr_status q \<or> dr_status q = Detected)"
      using at [of j] atk r by (cases "j = k") auto
  qed
  then show "keeps_deposits we s s'" using b by (simp add: keeps_deposits_def)
  show "spares {k} s s'" by (simp add: spares_def pend untrack_def)
qed

lemma setStatus_cases:
  obtains s1 where "outside we s s1" "fst (setStatus we k st s) = s1 \<or> fst (setStatus we k st s) = s1\<lparr>wy_db := SetStatus k st (wy_db s)\<rparr>"
    "snd (setStatus we k st s) = Inr ()"
proof -
  obtain s' r where c: "store_call we (\<lambda>_ db. (SetStatus k st db, ())) s = (s', r)" by fastforce
  then show thesis
    by (rule store_call_cases) (rule that, auto simp: setStatus_def wlogged_def c)
qed

lemma RecordOrphanedDeposit_moves:
  assumes "RecordOrphanedDeposit we c s = (s', r)"
  shows "moves we ks s s' \<and> wy_pending s' = wy_pending s \<and> wy_finalized s' = wy_finalized s \<and> books_kept we s s' \<and>
    wd_deposits (wy_db s') = wd_deposits (wy_db s) \<and>
    (r = Inr () \<longrightarrow> observed_key c \<in> or_key ` set (wd_orphans (wy_db s')))"
proof -
  obtain s1 q where a: "ledger_ask we (watch_GetOrder (ob_external c)) s = (s1, q)" by fastforce
  let ?g = "\<lambda>now db. (RecordOrphan (ob_order_id c) (ob_external c) (observed_key c) (ob_units c) now
            (case q of Inl _ \<Rightarrow> ''unknown'' | Inr ord \<Rightarrow> oj_state ord) '''' db, ())"
  have o: "outside we s s1" using asks_quiet(2) [unfolded quiet_def, rule_format] a by (metis fst_conv)
  have "store_call we ?g s1 = (s', r)" using assms a by (simp add: RecordOrphanedDeposit_def)
  then show ?thesis
  proof (rule store_call_cases)
    fix s2 now
    assume o2: "outside we s1 s2" and w: "s' = s2 \<and> r = Inl CallLost \<or>
      s' = s2\<lparr>wy_db := fst (?g now (wy_db s1))\<rparr> \<and> (r = Inl CallLost \<or> r = Inr (snd (?g now (wy_db s1))))"
    have o12: "outside we s s2" by (rule outside_trans [OF o o2])
    then have f: "wy_pending s2 = wy_pending s" "wy_finalized s2 = wy_finalized s" "books_kept we s s2" "wy_db s1 = wy_db s"
      "wy_db s2 = wy_db s" using o by (simp_all add: outside_def)
    from w show ?thesis
    proof
      assume "s' = s2 \<and> r = Inl CallLost"
      then show ?thesis using outside_moves [OF o12] f by simp
    next
      assume s': "s' = s2\<lparr>wy_db := fst (?g now (wy_db s1))\<rparr> \<and> (r = Inl CallLost \<or> r = Inr (snd (?g now (wy_db s1))))"
      then have d: "wy_db s' = RecordOrphan (ob_order_id c) (ob_external c) (observed_key c) (ob_units c) now
          (case q of Inl _ \<Rightarrow> ''unknown'' | Inr ord \<Rightarrow> oj_state ord) '''' (wy_db s)" using f by simp
      have b: "wy_pending s' = wy_pending s" "wy_finalized s' = wy_finalized s" "books_kept we s s'"
        using s' f by (simp_all add: books_kept_def)
      have "wd_deposits (wy_db s') = wd_deposits (wy_db s)" using d by (simp add: RecordOrphan_def)
      then show ?thesis using orphan_moves [OF d b] b by simp
    qed
  qed
qed

lemma drop_settled:
  assumes ok: "watch_ok we s" and c: "c \<in> set (wy_pending s)" "cd_key c = k"
    and s0: "fst (drop_candidate k s) = s0" and o: "outside we s0 s1"
    and s': "s' = s1 \<or> s' = s1\<lparr>wy_db := SetStatus k Dropped (wy_db s0)\<rparr>"
  shows "moves we {k} s s'"
  unfolding moves_def using assms
  by (intro impI settle [where st = Dropped and c = c]) (auto simp: outside_def books_kept_def drop_candidate_def)

lemma finalize_moves:
  assumes ok: "watch_ok we s" and c: "c \<in> set (wy_pending s)" and final: "deposit_final we (cd_log c)"
  shows "moves we {cd_key c} s (fst (finalize we c s))"
proof -
  let ?k = "cd_key c"
  obtain s1 r where p: "ReportDepositFinal we (cd_log c) s = (s1, r)" by fastforce
  have o: "outside we s s1" using ReportDepositFinal_books p unfolding books_from_def quiet_def by (metis fst_conv)
  have l: "ledger_ok (ls_db (wy_ledger s))" and seen: "deposit_known we s (cd_log c)"
    using ok c by (auto simp: watch_ok_def pending_ok_def)
  have c1: "c \<in> set (wy_pending s1)" using o c by (simp add: outside_def)
  have ok1: "watch_ok we s1" using outside_moves [OF o] ok by (auto simp: moves_def)
  consider u where "r = Inr u" | e where "r = Inl (ReportPermanent e)" | "fst (finalize we c s) = s1"
  proof (cases r)
    case (Inl e)
    then show ?thesis using that by (cases e) (simp_all add: finalize_def p)
  qed (use that in blast)
  then show ?thesis
  proof cases
    case 1
    obtain s2 where s2: "outside we s1 s2" "fst (setStatus we ?k Reported s1) = s2 \<or>
        fst (setStatus we ?k Reported s1) = s2\<lparr>wy_db := SetStatus ?k Reported (wy_db s1)\<rparr>" "snd (setStatus we ?k Reported s1) = Inr ()"
      by (rule setStatus_cases)
    let ?s3 = "fst (setStatus we ?k Reported s1)"
    have f: "fst (finalize we c s) = fst (mark_final we c ?s3)"
      using s2(3) by (cases "setStatus we ?k Reported s1") (simp add: finalize_def p 1 wthen_def)
    have "booked_as we (ls_db (wy_ledger s1)) (cd_log c)"
      using ReportDepositFinal_books p l 1 unfolding books_from_def by auto
    then have bk: "booked_as we (ls_db (wy_ledger s2)) (cd_log c)"
      using books_kept_booked s2(1) ok1 by (auto simp: outside_def watch_ok_def)
    have lg: "wy_pool ?s3 = wy_pool s2" "wy_ledger ?s3 = wy_ledger s2" "wy_pending ?s3 = wy_pending s1" "wy_finalized ?s3 = wy_finalized s1"
      using s2 by (auto simp: outside_def)
    let ?t = "fst (mark_final we c ?s3)"
    have t: "wy_ledger ?t = wy_ledger s2" "wy_pending ?t = untrack ?k (wy_pending s1)" "wy_db ?t = wy_db ?s3"
      "wy_finalized ?t = untrack ?k (wy_finalized s1) @ [c\<lparr>cd_finalized_at := wclock we ?s3\<rparr>]" "wy_pool ?t = wy_pool s2"
      using lg by (simp_all add: mark_final_def)
    have "books_kept we s s2" using o s2(1) books_kept_trans unfolding outside_def by blast
    then have known: "deposit_known we ?t (cd_log c)" using books_kept_known seen t(5) by (auto simp: deposit_known_def)
    have "watch_ok we ?t \<and> keeps_deposits we s1 ?t \<and> spares {?k} s1 ?t"
    proof (rule settle [OF ok1 c1 refl, where st = Reported])
      show "wy_db ?t = wy_db s1 \<or> wy_db ?t = SetStatus ?k Reported (wy_db s1)" using t(3) s2 by (auto simp: outside_def)
      show "wy_pending ?t = untrack ?k (wy_pending s1)" by (rule t(2))
      show "d \<in> set (wy_finalized s1) \<or> finalized_ok we ?t d" if "d \<in> set (wy_finalized ?t)" for d
        using that known final bk unfolding t(4) by (auto simp: untrack_def finalized_ok_def t(1) simp del: fst_conv)
      show "books_kept we s1 ?t" using s2(1) by (simp add: outside_def books_kept_def t(1,5))
      show "\<exists>d. observed_key d = ?k \<and> deposit_known we ?t d \<and> deposit_final we d \<and> booked_as we (ls_db (wy_ledger ?t)) d"
        unfolding t(1) by (rule exI [of _ "cd_log c"]) (use known final bk in \<open>simp add: cd_key_def\<close>)
    qed simp
    then have "moves we {?k} s1 ?t" by (simp add: moves_def)
    from moves_then [OF outside_moves [OF o] this] show ?thesis unfolding f .
  next
    case 2
    obtain s2 q where h: "RecordOrphanedDeposit we (cd_log c) s1 = (s2, q)" by fastforce
    note m = RecordOrphanedDeposit_moves [OF h, of "{?k}"]
    have m02: "moves we {?k} s s2" using moves_then [OF outside_moves [OF o]] m by blast
    show ?thesis
    proof (cases q)
      case (Inl e')
      then have "fst (finalize we c s) = s2"
        by (simp add: finalize_def p 2 wlogged_def wthen_def HandleUnreportable_def h)
      then show ?thesis using m02 by simp
    next
      case (Inr u)
      have ok2: "watch_ok we s2" using m02 ok by (simp add: moves_def)
      have c2: "c \<in> set (wy_pending s2)" using m c1 by simp
      obtain s3 where s3: "outside we s2 s3" "fst (setStatus we ?k Orphaned s2) = s3 \<or>
          fst (setStatus we ?k Orphaned s2) = s3\<lparr>wy_db := SetStatus ?k Orphaned (wy_db s2)\<rparr>" "snd (setStatus we ?k Orphaned s2) = Inr ()"
        by (rule setStatus_cases)
      let ?t = "fst (drop_candidate ?k (fst (setStatus we ?k Orphaned s2)))"
      have f: "fst (finalize we c s) = ?t"
        using s3(3) Inr by (cases "setStatus we ?k Orphaned s2")
          (simp add: finalize_def p 2 wlogged_def wthen_def HandleUnreportable_def h drop_candidate_def)
      have "watch_ok we ?t \<and> keeps_deposits we s2 ?t \<and> spares {?k} s2 ?t"
        by (rule settle [OF ok2 c2 refl, where st = Orphaned])
          (use s3 m Inr in \<open>auto simp: drop_candidate_def outside_def books_kept_def cd_key_def\<close>)
      then have "moves we {?k} s2 ?t" by (simp add: moves_def)
      from moves_then [OF m02 this] show ?thesis unfolding f .
    qed
  qed (use outside_moves [OF o] in simp)
qed

end
