(* ===== verification/Tracker_Run.thy ===== *)
theory Tracker_Run
  imports Tracker_Inv
begin

text \<open>
  The invariant of theory \<open>Tracker_Inv\<close> along the runs of the BSC watcher: the two ways to check finality, the scan
  for new deposits, the restart, and any sequence of events.
  \<^item> \<open>weach_own\<close> is the rule for a loop over candidates: each round ends at most the candidates of its own group.
  \<^item> The watcher's store of deposits is a \<open>status_store\<close> and a \<open>write_once\<close> store (theory \<open>Store\<close>).
\<close>

section \<open>Loops\<close>

lemma weach_Cons: "weach f (x # xs) s = weach f xs (fst (f x s))"
  by (simp add: weach_def)

lemma weach_Nil: "weach f [] s = (s, Inr ())"
  by (simp add: weach_def)

text \<open>A loop whose steps need nothing.\<close>

lemma weach_moves:
  assumes "\<And>x s. x \<in> set xs \<Longrightarrow> moves we ks s (fst (f x s))"
  shows "moves we ks s (fst (weach f xs s))"
  using assms
proof (induction xs arbitrary: s)
  case (Cons x xs)
  have "moves we ks (fst (f x s)) (fst (weach f xs (fst (f x s))))" by (rule Cons.IH) (use Cons.prems in simp)
  then show ?case using moves_then [OF Cons.prems [of x s]] by (simp add: weach_Cons)
qed (simp add: weach_Nil)

text \<open>A loop each of whose steps needs candidates of its own to be pending, and ends no others.\<close>

lemma weach_own:
  assumes step: "\<And>x s. x \<in> set xs \<Longrightarrow> watch_ok we s \<Longrightarrow> C x \<subseteq> set (wy_pending s) \<Longrightarrow>
      moves we (cd_key ` C x) s (fst (f x s))"
    and apart: "sorted_wrt (\<lambda>x y. cd_key ` C x \<inter> cd_key ` C y = {}) xs"
    and own: "(\<Union>x \<in> set xs. C x) \<subseteq> set (wy_pending s)" and ok: "watch_ok we s"
  shows "moves we (\<Union>x \<in> set xs. cd_key ` C x) s (fst (weach f xs s))"
  using assms
proof (induction xs arbitrary: s)
  case (Cons x xs)
  let ?s1 = "fst (f x s)"
  have m: "moves we (cd_key ` C x) s ?s1" by (rule Cons.prems(1)) (use Cons.prems(3,4) in auto)
  then have ok1: "watch_ok we ?s1" and sp: "spares (cd_key ` C x) s ?s1" using Cons.prems(4) by (simp_all add: moves_def)
  have "(\<Union>y \<in> set xs. C y) \<subseteq> set (wy_pending ?s1)"
  proof
    fix d
    assume "d \<in> (\<Union>y \<in> set xs. C y)"
    then obtain y where y: "y \<in> set xs" "d \<in> C y" by blast
    then have "cd_key ` C x \<inter> cd_key ` C y = {}" using Cons.prems(2) by simp
    then have "cd_key d \<notin> cd_key ` C x" using y(2) by blast
    moreover have "d \<in> set (wy_pending s)" using Cons.prems(3) y by auto
    ultimately show "d \<in> set (wy_pending ?s1)" using sp by (simp add: spares_def)
  qed
  moreover have "sorted_wrt (\<lambda>x y. cd_key ` C x \<inter> cd_key ` C y = {}) xs" using Cons.prems(2) by simp
  ultimately have "moves we (\<Union>x \<in> set xs. cd_key ` C x) ?s1 (fst (weach f xs ?s1))"
    using Cons.IH [OF Cons.prems(1) _ _ ok1] by (meson list.set_intros(2))
  from moves_trans [OF m this] show ?case by (simp add: weach_Cons)
qed (simp add: weach_Nil)

lemma quiet_then_moves:
  assumes "quiet we m" and "\<And>s1 x. outside we s s1 \<Longrightarrow> m s = (s1, Inr x) \<Longrightarrow> moves we ks s1 (fst (k x s1))"
  shows "moves we ks s (fst (wthen m k s))"
proof -
  obtain s1 r where m: "m s = (s1, r)" by fastforce
  then have o: "outside we s s1" using assms(1) unfolding quiet_def by (metis fst_conv)
  show ?thesis
  proof (cases r)
    case (Inl e)
    then show ?thesis using outside_moves [OF o] by (simp add: wthen_def m)
  next
    case (Inr x)
    then show ?thesis using moves_then [OF outside_moves [OF o] assms(2) [OF o]] m by (simp add: wthen_def)
  qed
qed

lemma then_moves:
  assumes "moves we ks s (fst (m s))" and "\<And>s1 x. m s = (s1, Inr x) \<Longrightarrow> moves we ks s1 (fst (k x s1))"
  shows "moves we ks s (fst (wthen m k s))"
proof -
  obtain s1 r where m: "m s = (s1, r)" by fastforce
  then show ?thesis using assms moves_then [of we ks s s1] by (cases r) (simp_all add: wthen_def)
qed

section \<open>The tracker\<close>

lemma verify_one_moves:
  assumes ok: "watch_ok we s" and c: "c \<in> set (wy_pending s)" and final: "quorum we (gave_final we (cd_log c))"
    and logs: "cd_key c \<in> log_key ` set logs \<Longrightarrow> quorum we (gave_log we (cd_log c))"
  shows "moves we {cd_key c} s (fst (verify_one we logs c s))"
proof (cases "cd_key c \<in> log_key ` set logs")
  case True
  then show ?thesis using finalize_moves [OF ok c] final logs by (simp add: verify_one_def deposit_final_def)
next
  case False
  let ?s0 = "fst (drop_candidate (cd_key c) s)"
  obtain s1 where s1: "outside we ?s0 s1" "fst (setStatus we (cd_key c) Dropped ?s0) = s1 \<or>
      fst (setStatus we (cd_key c) Dropped ?s0) = s1\<lparr>wy_db := SetStatus (cd_key c) Dropped (wy_db ?s0)\<rparr>"
    by (rule setStatus_cases)
  have "fst (verify_one we logs c s) = fst (setStatus we (cd_key c) Dropped ?s0)"
    using False by (simp add: verify_one_def wthen_def drop_candidate_def)
  then show ?thesis using drop_settled [OF ok c refl refl s1] by simp
qed

lemma LogsAt_gave_log:
  assumes "env_ok we" and "LogsAt we h h wallets s = (s1, Inr logs)" and "cd_key c \<in> log_key ` set logs" and "cd_height c = h"
  shows "quorum we (gave_log we (cd_log c))"
proof -
  obtain n where "logs_at we h h wallets n = Inr logs" using chain_ask_Inr [OF assms(2) [unfolded LogsAt_def]] ..
  from logs_at_quorum [OF assms(1) this] show ?thesis
  proof (rule quorum_mono)
    fix p
    assume "\<exists>ls. we_logs we n p h h wallets = Some ls \<and> set ls = set logs"
    then obtain ls where "we_logs we n p h h wallets = Some ls" "set ls = set logs" by blast
    then show "gave_log we (cd_log c) p"
      unfolding gave_log_def using assms(3,4) by (intro exI [of _ n] exI [of _ wallets] exI [of _ ls]) (simp add: cd_height_def cd_key_def)
  qed
qed

lemma distinct_own: "distinct (map cd_key cs) \<Longrightarrow> sorted_wrt (\<lambda>c c'. cd_key ` {c} \<inter> cd_key ` {c'} = {}) cs"
  by (induction cs) (auto simp: image_iff)

lemma verify_height_moves:
  assumes env: "env_ok we" and ok: "watch_ok we s" and own: "set cs \<subseteq> set (wy_pending s)" and d: "distinct (map cd_key cs)"
    and h: "\<And>c. c \<in> set cs \<Longrightarrow> cd_height c = h" and final: "\<And>c. c \<in> set cs \<Longrightarrow> quorum we (gave_final we (cd_log c))"
  shows "moves we (cd_key ` set cs) s (fst (verify_height we (h, cs) s))"
  unfolding verify_height_def fst_conv snd_conv
proof (rule quiet_then_moves)
  fix s1 logs
  assume o: "outside we s s1" and l: "LogsAt we h h (topicsFor cs) s = (s1, Inr logs)"
  have "moves we (\<Union>c \<in> set cs. cd_key ` {c}) s1 (fst (weach (verify_one we logs) cs s1))"
  proof (rule weach_own)
    show "moves we (cd_key ` {c}) s' (fst (verify_one we logs c s'))"
      if "c \<in> set cs" "watch_ok we s'" "{c} \<subseteq> set (wy_pending s')" for c s'
      using verify_one_moves [OF that(2) _ final [OF that(1)] LogsAt_gave_log [OF env l _ h [OF that(1)]]] that(3) by simp
    show "sorted_wrt (\<lambda>c c'. cd_key ` {c} \<inter> cd_key ` {c'} = {}) cs"
      by (rule distinct_own [OF d])
    show "(\<Union>c \<in> set cs. {c}) \<subseteq> set (wy_pending s1)" using own o by (auto simp: outside_def)
    show "watch_ok we s1" using outside_moves [OF o] ok by (auto simp: moves_def)
  qed
  moreover have "(\<Union>c \<in> set cs. cd_key ` {c}) = cd_key ` set cs" by blast
  ultimately show "moves we (cd_key ` set cs) s1 (fst (weach (verify_one we logs) cs s1))" by (simp only:)
qed simp

lemma fewer_finalized_moves:
  assumes "set fs \<subseteq> set (wy_finalized s)" and "s' = s\<lparr>wy_finalized := fs\<rparr>"
  shows "moves we ks s s'"
proof -
  have "row_ok we s' = row_ok we s" "pending_ok we s' = pending_ok we s" "finalized_ok we s' = finalized_ok we s"
    by (simp_all add: fun_eq_iff row_ok_def pending_ok_def finalized_ok_def row_at_def assms(2))
  then have "watch_ok we s \<Longrightarrow> watch_ok we s'" unfolding watch_ok_def using assms by auto
  then show ?thesis by (simp add: moves_def keeps_deposits_def spares_def assms(2))
qed

lemma handlePostFinalReorg_moves: "moves we ks s (fst (handlePostFinalReorg we c s))"
  unfolding handlePostFinalReorg_def
  by (rule quiet_then_moves, simp)
    (rule fewer_finalized_moves [where fs = "untrack (cd_key c) (wy_finalized s1)" for s1], auto simp: untrack_def)

lemma recheck_height_moves: "moves we ks s (fst (recheck_height we g s))"
  unfolding recheck_height_def
  by (rule quiet_then_moves, simp, rule weach_moves) (simp add: handlePostFinalReorg_moves wret_def)

lemma checkPostFinalReorgs_moves: "moves we ks s (fst (checkPostFinalReorgs we s))"
  unfolding checkPostFinalReorgs_def Let_def
  by (rule moves_then [OF fewer_finalized_moves [OF _ refl] weach_moves]) (auto simp: recheck_height_moves)

lemma LatestFinalized_gave_final:
  assumes "env_ok we" and "LatestFinalized we s = (s1, Inr (h, x))" and "ob_block c \<le> h"
  shows "quorum we (gave_final we c)"
proof -
  obtain n where "latest_final we n = Inr (h, x)" using chain_ask_Inr [OF assms(2) [unfolded LatestFinalized_def]] ..
  from latest_final_quorum [OF assms(1) this] show ?thesis
    by (rule quorum_mono) (use assms(3) in \<open>auto simp: gave_final_def\<close>)
qed

lemma walk_set [simp]: "set (walk we s cs) = set cs"
  by (simp add: walk_def)

lemma walk_distinct: "distinct (map cd_key cs) \<Longrightarrow> distinct (map cd_key (walk we s cs))"
  by (metis distinct_map distinct_sort set_sort walk_def)

lemma distinct_apart: "distinct (map f xs) \<Longrightarrow> sorted_wrt (\<lambda>a b. f a \<noteq> f b) xs"
  by (induction xs) (auto simp: image_iff)

lemma CheckFinality_moves:
  assumes env: "env_ok we"
  shows "moves we UNIV s (fst (CheckFinality we s))"
  unfolding CheckFinality_def
proof (rule quiet_then_moves, simp)
  fix s1 and hx :: "nat \<times> string"
  assume lf: "LatestFinalized we s = (s1, Inr hx)"
  obtain h x where hx: "hx = (h, x)" by fastforce
  let ?cs = "readyCandidates h (wy_pending s1)"
  let ?gs = "by_height we s1 ?cs"
  have "moves we (\<Union>g \<in> set ?gs. cd_key ` set (snd g)) s1 (fst (weach (verify_height we) ?gs s1))" if ok: "watch_ok we s1"
  proof (rule weach_own [OF _ _ _ ok])
    have d: "distinct (map cd_key (wy_pending s1))" using ok by (simp add: watch_ok_def)
    have dw: "distinct (map cd_key (walk we s1 ?cs))"
      by (rule walk_distinct) (use d in \<open>simp add: readyCandidates_def distinct_map_filter\<close>)
    have g: "\<exists>k. g = (k, filter (\<lambda>c. cd_height c = k) (walk we s1 ?cs))" if "g \<in> set ?gs" for g
      using that by (auto simp: by_height_def)
    show "(\<Union>g \<in> set ?gs. set (snd g)) \<subseteq> set (wy_pending s1)" using g by (fastforce simp: readyCandidates_def)
    show "moves we (cd_key ` set (snd g)) s' (fst (verify_height we g s'))"
      if "g \<in> set ?gs" "watch_ok we s'" "set (snd g) \<subseteq> set (wy_pending s')" for g s'
    proof -
      from g [OF that(1)] obtain k where k: "g = (k, filter (\<lambda>c. cd_height c = k) (walk we s1 ?cs))" ..
      show ?thesis unfolding k snd_conv
      proof (rule verify_height_moves [OF env that(2)])
        show "quorum we (gave_final we (cd_log c))" if "c \<in> set (filter (\<lambda>c. cd_height c = k) (walk we s1 ?cs))" for c
          by (rule LatestFinalized_gave_final [OF env lf [unfolded hx]]) (use that in \<open>simp add: readyCandidates_def cd_height_def\<close>)
      qed (use that(3) dw k in \<open>auto simp: distinct_map_filter\<close>)
    qed
    have "distinct (map fst ?gs)" by (simp add: by_height_def comp_def)
    then have "sorted_wrt (\<lambda>a b. fst a \<noteq> fst b) ?gs" by (rule distinct_apart)
    then show "sorted_wrt (\<lambda>a b. cd_key ` set (snd a) \<inter> cd_key ` set (snd b) = {}) ?gs"
    proof (rule sorted_wrt_mono_rel [rotated])
      fix a b
      assume "a \<in> set ?gs" "b \<in> set ?gs" "fst a \<noteq> fst b"
      then show "cd_key ` set (snd a) \<inter> cd_key ` set (snd b) = {}"
        using g [of a] g [of b] dw by (auto simp: distinct_map dest: inj_onD)
    qed
  qed
  then have "moves we UNIV s1 (fst (weach (verify_height we) ?gs s1))" unfolding moves_def spares_def by blast
  then show "moves we UNIV s1 (fst ((case hx of (finalHeight, _) \<Rightarrow>
      wthen (\<lambda>s. weach (verify_height we) (by_height we s (readyCandidates finalHeight (wy_pending s))) s)
        (\<lambda>_. checkPostFinalReorgs we)) s1))"
    unfolding hx prod.case by (rule then_moves) (rule checkPostFinalReorgs_moves)
qed

section \<open>The tracker, one provider at a time\<close>

lemma RecordConfirmed_votes:
  assumes env: "env_ok we" and v: "votes_ok we c" and p: "p \<in> set (we_providers we)" "gave_final we (cd_log c) p"
    and o': "ob_present o' \<Longrightarrow> gave_log we (cd_log c) p"
    and c': "c' = c\<lparr>cd_votes := Some (fst (RecordConfirmed p o' (votes_of we c)))\<rparr>"
  shows "votes_ok we c'"
proof -
  let ?v = "(votes_of we c)\<lparr>cc_disagreement := cc_disagreement (votes_of we c) \<or> conflicts p o' (votes_of we c)\<rparr>"
  have n: "votes_of we c' = note_observation p o' ?v" by (simp add: votes_of_def c' RecordConfirmed_note(1))
  have "q \<in> set (we_providers we) \<and> gave_final we (cd_log c) q \<and> gave_log we (cd_log c) q"
    if "q \<in> fst ` set (cc_present (note_observation p o' ?v))" for q
  proof -
    have "map_of (cc_present (note_observation p o' ?v)) q \<noteq> None" using that by (simp add: map_of_eq_None_iff)
    then have "q = p \<and> ob_present o' \<or> map_of (cc_present (votes_of we c)) q \<noteq> None"
      by (simp add: note_observation_maps split: if_splits)
    then have "q = p \<and> ob_present o' \<or> q \<in> fst ` set (cc_present (votes_of we c))" by (simp add: map_of_eq_None_iff)
    then show ?thesis using v p o' unfolding votes_ok_def Let_def by blast
  qed
  moreover have "distinct (map fst (cc_present (note_observation p o' ?v)))"
    using v by (simp add: note_observation_def distinct_update distinct_delete votes_ok_def Let_def)
  moreover have "cc_min (note_observation p o' ?v) = cc_min (votes_of we c)" by (simp add: note_observation_def)
  moreover have "cd_log c' = cd_log c" by (simp add: c')
  ultimately show ?thesis using v unfolding votes_ok_def n Let_def by simp
qed

lemma voted_moves:
  assumes ok: "watch_ok we s" and c: "c \<in> set (wy_pending s)" and v: "votes_ok we c'" and same: "cd_log c' = cd_log c"
    and s': "s' = s\<lparr>wy_pending := map (\<lambda>d. if cd_key d = cd_key c then c' else d) (wy_pending s)\<rparr>"
  shows "moves we {cd_key c} s s' \<and> c' \<in> set (wy_pending s')"
proof -
  have k: "cd_key c' = cd_key c" using same by (simp add: cd_key_def)
  have "row_ok we s' = row_ok we s" "finalized_ok we s' = finalized_ok we s"
    by (simp_all add: fun_eq_iff row_ok_def finalized_ok_def s')
  moreover have "pending_ok we s' d" if "d \<in> set (wy_pending s')" for d
  proof (cases "d = c'")
    case True
    then show ?thesis using ok c v same k unfolding watch_ok_def pending_ok_def by (auto simp: row_at_def s')
  next
    case False
    then have "d \<in> set (wy_pending s)" using that by (auto simp: s')
    then show ?thesis using ok unfolding watch_ok_def pending_ok_def by (auto simp: row_at_def s')
  qed
  moreover have "map cd_key (wy_pending s') = map cd_key (wy_pending s)" using k by (simp add: s')
  moreover have "wy_db s' = wy_db s" "wy_finalized s' = wy_finalized s" "wy_ledger s' = wy_ledger s" by (simp_all add: s')
  ultimately have "watch_ok we s'" using ok unfolding watch_ok_def by simp
  moreover have "spares {cd_key c} s s'" by (auto simp: spares_def s' image_iff)
  ultimately have "moves we {cd_key c} s s'" by (simp add: moves_def keeps_deposits_def s')
  then show ?thesis using c by (force simp: s')
qed

lemma act_on_moves:
  assumes ok: "watch_ok we s" and c: "c \<in> set (wy_pending s)" and st: "st = status_of (votes_of we c)"
  shows "moves we {cd_key c} s (fst (act_on we c st s))"
proof (cases st)
  case AsyncQuorumReached
  have "votes_ok we c" using ok c by (simp add: watch_ok_def pending_ok_def)
  from votes_ok_final [OF this] AsyncQuorumReached st finalize_moves [OF ok c] show ?thesis by (simp add: act_on_def)
next
  case AsyncNotFound
  then show ?thesis using drop_settled [OF ok c refl refl outside_refl] by (simp add: act_on_def)
qed (simp_all add: act_on_def wret_def)

lemma find_distinct: "distinct (map f xs) \<Longrightarrow> x \<in> set xs \<Longrightarrow> find (\<lambda>y. f y = f x) xs = Some x"
  by (induction xs) (auto simp: image_iff)

lemma observation_gave_log:
  assumes "observation_of we c hash logs = Some o'" and "ob_present o'"
    and "we_logs we n p (cd_height c) (cd_height c) None = Some logs"
  shows "gave_log we (cd_log c) p"
proof -
  obtain l where "find (\<lambda>l. log_key l = cd_key c) logs = Some l"
    using assms(1,2) by (auto simp: observation_of_def split: option.splits)
  then have "l \<in> set logs \<and> log_key l = cd_key c" by (auto simp: find_Some_iff)
  then have "observed_key (cd_log c) \<in> log_key ` set logs" by (force simp: cd_key_def)
  then show ?thesis unfolding gave_log_def
    by (intro exI [of _ n] exI [of _ None] exI [of _ logs]) (use assms(3) in \<open>simp add: cd_height_def\<close>)
qed

lemma checkOneCandidateAsync_moves:
  assumes env: "env_ok we" and ok: "watch_ok we s" and c: "c \<in> set (wy_pending s)"
    and p: "p \<in> set (we_providers we)" "gave_final we (cd_log c) p"
  shows "moves we {cd_key c} s (fst (checkOneCandidateAsync we p (cd_key c) s))"
proof -
  have "find (\<lambda>d. cd_key d = cd_key c) (wy_pending s) = Some c" using ok c by (intro find_distinct) (simp add: watch_ok_def)
  then show ?thesis unfolding checkOneCandidateAsync_def option.case
  proof (simp only: option.case, intro quiet_then_moves)
    fix s1 s2 and hash :: string and logs :: "chain_log list"
    assume o1: "outside we s s1" and o2: "outside we s1 s2"
      and l: "chain_ask we (\<lambda>n. heard (we_logs we n p (cd_height c) (cd_height c) None)) s1 = (s2, Inr logs)"
    have o: "outside we s s2" by (rule outside_trans [OF o1 o2])
    have ok2: "watch_ok we s2" using outside_moves [OF o] ok by (auto simp: moves_def)
    have c2: "c \<in> set (wy_pending s2)" using o c by (simp add: outside_def)
    obtain n where n: "we_logs we n p (cd_height c) (cd_height c) None = Some logs"
      using chain_ask_Inr [OF l] by (auto simp: heard_def split: option.splits)
    show "moves we {cd_key c} s2 (fst (case observation_of we c hash logs of
          None \<Rightarrow> (s2, Inr ())
        | Some o' \<Rightarrow>
          (case RecordConfirmed p o' (votes_of we c) of (votes, st) \<Rightarrow>
           let c' = c\<lparr>cd_votes := Some votes\<rparr> in
           act_on we c' st (s2\<lparr>wy_pending := map (\<lambda>d. if cd_key d = cd_key c then c' else d) (wy_pending s2)\<rparr>))))"
    proof (cases "observation_of we c hash logs")
      case (Some o')
      obtain v st where r: "RecordConfirmed p o' (votes_of we c) = (v, st)" by fastforce
      let ?c = "c\<lparr>cd_votes := Some v\<rparr>"
      let ?s3 = "s2\<lparr>wy_pending := map (\<lambda>d. if cd_key d = cd_key c then ?c else d) (wy_pending s2)\<rparr>"
      have "votes_ok we c" using ok c by (simp add: watch_ok_def pending_ok_def)
      moreover have "ob_present o' \<Longrightarrow> gave_log we (cd_log c) p" by (rule observation_gave_log [OF Some _ n])
      moreover have "?c = c\<lparr>cd_votes := Some (fst (RecordConfirmed p o' (votes_of we c)))\<rparr>" unfolding r fst_conv ..
      ultimately have v: "votes_ok we ?c" by (rule RecordConfirmed_votes [OF env _ p])
      note m = voted_moves [OF ok2 c2 v _ refl]
      have ok3: "watch_ok we ?s3" using m ok2 by (simp add: moves_def)
      have "st = status_of (votes_of we ?c)" using RecordConfirmed_note(2) [of p o' "votes_of we c"] r by (simp add: votes_of_def)
      then have "moves we {cd_key c} ?s3 (fst (act_on we ?c st ?s3))"
        using act_on_moves [OF ok3, of ?c st] m by (simp add: cd_key_def)
      then have "moves we {cd_key c} s2 (fst (act_on we ?c st ?s3))" using m moves_then by fastforce
      then show ?thesis by (simp add: Some r Let_def)
    qed simp
  qed simp_all
qed

lemma checkOneProviderAsync_moves:
  assumes env: "env_ok we" and p: "p \<in> set (we_providers we)"
  shows "moves we UNIV s (fst (checkOneProviderAsync we p s))"
  unfolding checkOneProviderAsync_def
proof (rule quiet_then_moves, simp)
  fix s1 and hx :: "nat \<times> string"
  assume q: "chain_ask we (\<lambda>n. heard (we_final we n p)) s = (s1, Inr hx)"
  obtain h x where hx: "hx = (h, x)" by fastforce
  obtain n where n: "we_final we n p = Some (h, x)"
    using chain_ask_Inr [OF q] by (auto simp: hx heard_def split: option.splits)
  obtain marks ok where ch: "CheckHeight p h (wy_heights s1) = (marks, ok)" by fastforce
  let ?s = "s1\<lparr>wy_heights := marks\<rparr>"
  have o: "outside we s1 ?s" by (simp add: outside_def)
  let ?f = "\<lambda>c. if h < cd_height c then wret () else checkOneCandidateAsync we p (cd_key c)"
  have "moves we UNIV ?s (fst (weach ?f (walk we ?s (wy_pending ?s)) ?s))"
  proof (cases "watch_ok we ?s")
    case True
    have "moves we (\<Union>c \<in> set (walk we ?s (wy_pending ?s)). cd_key ` {c}) ?s (fst (weach ?f (walk we ?s (wy_pending ?s)) ?s))"
    proof (rule weach_own [OF _ _ _ True])
      show "moves we (cd_key ` {c}) s' (fst (?f c s'))" if "watch_ok we s'" "{c} \<subseteq> set (wy_pending s')" for c s'
      proof (cases "h < cd_height c")
        case False
        then have "gave_final we (cd_log c) p" unfolding gave_final_def
          by (intro exI [of _ n] exI [of _ h] exI [of _ x]) (use n in \<open>simp add: cd_height_def\<close>)
        then show ?thesis using checkOneCandidateAsync_moves [OF env that(1) _ p] that(2) False by simp
      qed (simp add: wret_def)
      show "sorted_wrt (\<lambda>c c'. cd_key ` {c} \<inter> cd_key ` {c'} = {}) (walk we ?s (wy_pending ?s))"
        by (rule distinct_own, rule walk_distinct) (use True in \<open>simp add: watch_ok_def\<close>)
    qed simp
    then show ?thesis unfolding moves_def spares_def by blast
  qed (simp add: moves_def)
  then have "moves we UNIV s1 (fst (weach ?f (walk we ?s (wy_pending ?s)) ?s))" by (rule moves_then [OF outside_moves [OF o]])
  then show "moves we UNIV s1 (fst ((case hx of (height, _) \<Rightarrow> \<lambda>s.
       case CheckHeight p height (wy_heights s) of (heights, ok) \<Rightarrow>
       let s = s\<lparr>wy_heights := heights\<rparr> in
       if \<not> ok then (s, Inr ())
       else weach (\<lambda>c. if height < cd_height c then wret () else checkOneCandidateAsync we p (cd_key c))
         (walk we s (wy_pending s)) s) s1))"
    using outside_moves [OF o] by (simp add: hx ch Let_def)
qed

lemma CheckFinalityAsync_moves: "env_ok we \<Longrightarrow> moves we UNIV s (fst (CheckFinalityAsync we s))"
  unfolding CheckFinalityAsync_def
  by (rule then_moves [OF weach_moves]) (simp_all add: checkOneProviderAsync_moves checkPostFinalReorgs_moves)

section \<open>Scanning\<close>

lemma SaveDeposit_row:
  assumes "wy_db s' = fst (SaveDeposit c cls (wy_db s))"
  shows "row_at s k = Some r \<Longrightarrow> row_at s' k = Some r"
    and "snd (SaveDeposit c cls (wy_db s)) \<in> {None, Some Detected} \<Longrightarrow> \<exists>r. row_at s' (observed_key c) = Some r \<and> dr_status r = Detected"
  using assms by (auto simp: SaveDeposit_def row_at_def first_row_append dr_key_def split: option.splits)

lemma SaveDeposit_kept:
  assumes ok: "watch_ok we s" and seen: "deposit_known we s c" and db: "wy_db s' = fst (SaveDeposit c cls (wy_db s))"
    and f: "wy_finalized s' = wy_finalized s" "books_kept we s s'"
    and pend: "wy_pending s' = wy_pending s \<or> wy_pending s' = wy_pending s @ [d] \<and> cd_key d \<notin> cd_key ` set (wy_pending s) \<and>
      pending_ok we s' d"
  shows "watch_ok we s' \<and> keeps_deposits we s s' \<and> spares {} s s'"
proof (intro conjI)
  have l: "ledger_ok (ls_db (wy_ledger s))" using ok by (simp add: watch_ok_def)
  note kept = rows_kept [OF f(2) l]
  have o: "wd_orphans (wy_db s') = wd_orphans (wy_db s)" by (simp add: db SaveDeposit_def split: option.splits)
  have same: "row_ok we s q \<Longrightarrow> row_ok we s' q" for q by (rule kept(1)) (simp_all add: o)
  have "row_ok we s' q" if "q \<in> set (wd_deposits (wy_db s'))" for q
  proof (cases "q \<in> set (wd_deposits (wy_db s))")
    case False
    then have "q = \<lparr>dr_log = c, dr_class = cls, dr_status = Detected\<rparr>"
      using that by (simp add: db SaveDeposit_def split: option.splits)
    then show ?thesis using books_kept_known [OF f(2) seen] by (simp add: row_ok_def)
  qed (use ok same in \<open>simp add: watch_ok_def\<close>)
  moreover have "distinct (map dr_key (wd_deposits (wy_db s')))"
    using ok by (auto simp: db SaveDeposit_def watch_ok_def dr_key_def first_row_None image_iff split: option.splits)
  moreover have "pending_ok we s q \<Longrightarrow> pending_ok we s' q" for q
    unfolding pending_ok_def using SaveDeposit_row(1) [OF db] books_kept_known [OF f(2)] by blast
  then have "\<forall>q \<in> set (wy_pending s'). pending_ok we s' q" using pend ok unfolding watch_ok_def by auto
  moreover have "finalized_ok we s q \<Longrightarrow> finalized_ok we s' q" for q by (rule kept(2))
  moreover have "distinct (map cd_key (wy_pending s'))" using pend ok by (auto simp: watch_ok_def)
  moreover have "ledger_ok (ls_db (wy_ledger s'))" by (rule books_kept_ok [OF f(2) l])
  ultimately show "watch_ok we s'" using ok unfolding watch_ok_def f(1) by blast
  show "keeps_deposits we s s'" unfolding keeps_deposits_def row_kept_def using SaveDeposit_row(1) [OF db] f(2) by blast
  show "spares {} s s'" using pend by (auto simp: spares_def)
qed

lemma new_votes_ok: "env_ok we \<Longrightarrow> votes_ok we (new_candidate c cls)"
  by (simp add: votes_ok_def votes_of_def new_candidate_def NewCandidateConfirmations_def env_ok_def)

lemma OnLogObserved_moves:
  assumes env: "env_ok we" and seen: "deposit_known we s c"
  shows "moves we ks s (fst (OnLogObserved we c cls s))"
proof (cases "tracked (wy_finalized s) (observed_key c) \<or> tracked (wy_pending s) (observed_key c) \<or> cls = ZeroValue")
  case False
  obtain s' r where sc: "store_call we (\<lambda>_. SaveDeposit c cls) s = (s', r)" by fastforce
  let ?t = "fst (OnLogObserved we c cls s)"
  have t: "?t = fst (wthen (store_call we (\<lambda>_. SaveDeposit c cls)) (\<lambda>known s.
        if known \<noteq> None \<and> known \<noteq> Some Detected then (s, Inr ())
        else (s\<lparr>wy_pending := wy_pending s @ [new_candidate c cls]\<rparr>, Inr ())) s)"
    using False by (simp add: OnLogObserved_def)
  have "cd_key (new_candidate c cls) \<notin> cd_key ` set (wy_pending s)"
    using False by (auto simp: tracked_def list_ex_iff cd_key_def new_candidate_def)
  note fresh = this
  show ?thesis using sc
  proof (rule store_call_cases)
    fix s1 now
    assume o: "outside we s s1" and w: "s' = s1 \<and> r = Inl CallLost \<or> s' = s1\<lparr>wy_db := fst (SaveDeposit c cls (wy_db s))\<rparr> \<and>
        (r = Inl CallLost \<or> r = Inr (snd (SaveDeposit c cls (wy_db s))))"
    from w show ?thesis
    proof
      assume "s' = s1 \<and> r = Inl CallLost"
      then show ?thesis using outside_moves [OF o] by (simp add: t wthen_def sc)
    next
      assume s': "s' = s1\<lparr>wy_db := fst (SaveDeposit c cls (wy_db s))\<rparr> \<and>
        (r = Inl CallLost \<or> r = Inr (snd (SaveDeposit c cls (wy_db s))))"
      have db: "wy_db ?t = fst (SaveDeposit c cls (wy_db s))" "wy_finalized ?t = wy_finalized s" "books_kept we s ?t"
        using s' o by (auto simp: t wthen_def sc outside_def books_kept_def)
      have "wy_pending ?t = wy_pending s \<or> wy_pending ?t = wy_pending s @ [new_candidate c cls] \<and>
          snd (SaveDeposit c cls (wy_db s)) \<in> {None, Some Detected}"
        by (cases "snd (SaveDeposit c cls (wy_db s)) \<in> {None, Some Detected}") (use s' o in \<open>auto simp: t wthen_def sc outside_def\<close>)
      moreover have "pending_ok we ?t (new_candidate c cls)" if "snd (SaveDeposit c cls (wy_db s)) \<in> {None, Some Detected}"
        using SaveDeposit_row(2) [OF db(1) that] books_kept_known [OF db(3) seen] new_votes_ok [OF env]
        by (simp add: pending_ok_def cd_key_def) (simp add: new_candidate_def)
      ultimately have "watch_ok we s \<Longrightarrow> watch_ok we ?t \<and> keeps_deposits we s ?t \<and> spares {} s ?t"
        using SaveDeposit_kept [OF _ seen db, where d = "new_candidate c cls"] fresh by blast
      then have "moves we {} s ?t" by (simp add: moves_def)
      then show ?thesis by (rule moves_mono) simp
    qed
  qed
qed (auto simp: OnLogObserved_def)

lemma recordOrphan_moves: "moves we ks s (fst (recordOrphan we i ext addr l amount reason s))"
proof -
  let ?g = "\<lambda>now db. (RecordOrphan i ext (log_key l) amount now reason addr db, ())"
  obtain s' r where sc: "store_call we ?g s = (s', r)" by fastforce
  then show ?thesis
  proof (rule store_call_cases)
    fix s1 now
    assume o: "outside we s s1" and w: "s' = s1 \<and> r = Inl CallLost \<or>
        s' = s1\<lparr>wy_db := fst (?g now (wy_db s))\<rparr> \<and> (r = Inl CallLost \<or> r = Inr (snd (?g now (wy_db s))))"
    have f: "fst (recordOrphan we i ext addr l amount reason s) = s'" using sc by (simp add: recordOrphan_def)
    show ?thesis unfolding f using w
    proof
      assume s': "s' = s1\<lparr>wy_db := fst (?g now (wy_db s))\<rparr> \<and> (r = Inl CallLost \<or> r = Inr (snd (?g now (wy_db s))))"
      show "moves we ks s s'"
        by (rule orphan_moves(1)) (use s' o in \<open>auto simp: outside_def books_kept_def\<close>)
    qed (use outside_moves [OF o] in simp)
  qed
qed

lemma blockTimeFor_quiet [simp]: "quiet we (blockTimeFor we h cache)"
  by (auto simp: blockTimeFor_def Let_def intro!: quiet_wthen split: option.splits)

text \<open>A log that a quorum gave is a deposit that a quorum saw.\<close>

lemma logs_at_seen:
  assumes "env_ok we" and "logs_at we lo hi wallets n = Inr logs" and "l \<in> set logs"
    and "ParseTransferLog (we_topic we) l = Inr (from, to, ob_units c)"
    and "log_key l = observed_key c" "lg_block l = ob_block c" "ob_address c = we_canon we (we_hex we to)"
  shows "deposit_seen we c"
  unfolding deposit_seen_def using logs_at_quorum [OF assms(1,2)]
proof (rule quorum_mono)
  fix p
  assume "\<exists>ls. we_logs we n p lo hi wallets = Some ls \<and> set ls = set logs"
  then obtain ls where "we_logs we n p lo hi wallets = Some ls" "set ls = set logs" by blast
  then show "gave_deposit we c p" unfolding gave_deposit_def
    using assms(3-7) by (intro exI [of _ n] exI [of _ lo] exI [of _ hi] exI [of _ wallets] exI [of _ ls] exI [of _ l]
      exI [of _ "from"] exI [of _ to]) simp
qed

lemma LeaseAt_in_time:
  assumes "LeaseAt canon db addr t = Some le"
  shows "le \<in> set (pd_leases db) \<and> ls_address le = canon addr \<and> ls_assigned_at le \<le> pg_time (t + leaseTimeTolerance)"
proof -
  let ?ls = "rev (sort_key ls_assigned_at (filter (\<lambda>l. ls_address l = canon addr \<and>
      ls_assigned_at l \<le> pg_time (t + leaseTimeTolerance)) (pd_leases db)))"
  have "le \<in> set ?ls" using assms by (cases ?ls) (simp_all add: LeaseAt_def)
  then show ?thesis by simp
qed

lemma pool_read_Inr: "pool_read we g s = (s1, Inr x) \<Longrightarrow> \<exists>now. x = g now (wy_pool s1)"
  unfolding pool_read_def by (erule wcall_cases) auto

lemma processLog_moves:
  assumes env: "env_ok we" and logs: "logs_at we lo hi wallets n = Inr logs" and l: "l \<in> set logs"
  shows "moves we ks s (fst (processLog we l cache s))"
proof (cases "ParseTransferLog (we_topic we) l")
  case (Inl e)
  then show ?thesis by (cases e) (simp_all add: processLog_def wret_def wfail_def)
next
  case (Inr fta)
  obtain "from" to amount where fta: "fta = (from, to, amount)" by (cases fta)
  let ?obs = "\<lambda>t le. \<lparr>ob_tx = lg_tx l, ob_index = lg_index l, ob_block = lg_block l, ob_block_time = t, ob_order_id = ls_order le,
      ob_external = ls_external le, ob_customer = ls_customer le, ob_units = amount, ob_sender = we_hex we from, ob_address = ls_address le\<rparr>"
  have known: "deposit_known we s (?obs t le)" if le: "LeaseAt (we_canon we) (wy_pool s) (we_hex we to) t = Some le" for s t le
  proof -
    note a = LeaseAt_in_time [OF le]
    have "lease_grant le \<in> lease_grant ` set (pd_leases (wy_pool s))" using a by blast
    then have "granted (wy_pool s) (?obs t le)" unfolding granted_def
      by (intro exI [of _ "ls_assigned_at le"]) (use a in \<open>simp add: lease_grant_def\<close>)
    moreover have "deposit_seen we (?obs t le)"
      by (rule logs_at_seen [OF env logs l]) (use a in \<open>simp_all add: Inr fta log_key_def observed_key_def\<close>)
    ultimately show ?thesis by (simp add: deposit_known_def)
  qed
  let ?found = "\<lambda>t found. case found of
            None \<Rightarrow> recordOrphan we 0 '''' (we_hex we to) l amount ''no_lease''
          | Some le \<Rightarrow>
            if too_late le t then recordOrphan we (ls_order le) (ls_external le) (ls_address le) l amount ''address_retired''
            else
              wthen (ledger_ask we (QuotedAmount (ls_external le))) (\<lambda>quoted.
              let cls = ClassifyAgainstOrder amount quoted (we_dust we) in
              if cls = Dust then recordOrphan we (ls_order le) (ls_external le) (ls_address le) l amount ''dust''
              else OnLogObserved we
                \<lparr>ob_tx = lg_tx l, ob_index = lg_index l, ob_block = lg_block l, ob_block_time = t, ob_order_id = ls_order le,
                 ob_external = ls_external le, ob_customer = ls_customer le, ob_units = amount, ob_sender = we_hex we from,
                 ob_address = ls_address le\<rparr> cls)"
  have found: "moves we ks s (fst (?found t f s))" if f: "f = LeaseAt (we_canon we) (wy_pool s) (we_hex we to) t" for t f s
  proof (cases f)
    case (Some le)
    have le: "deposit_known we s (?obs t le)" by (rule known) (use f Some in simp)
    have "moves we ks s2 (fst (OnLogObserved we (?obs t le) cls s2))" if o: "outside we s s2" for s2 cls
      by (rule OnLogObserved_moves [OF env books_kept_known [OF _ le]]) (use o in \<open>simp add: outside_def\<close>)
    then show ?thesis using Some
      by (cases "too_late le t") (auto simp: recordOrphan_moves Let_def intro!: quiet_then_moves)
  qed (simp add: recordOrphan_moves)
  have rest: "moves we ks s (fst (wthen (pool_read we (\<lambda>_ db. LeaseAt (we_canon we) db (we_hex we to) t))
      (\<lambda>f. wthen (?found t f) (\<lambda>_. wret cache)) s))" for t s and cache :: "(nat \<times> time) list"
    by (rule quiet_then_moves, simp, rule then_moves, rule found) (auto simp: wret_def dest: pool_read_Inr)
  show ?thesis unfolding processLog_def Inr sum.case fta prod.case
    by (rule quiet_then_moves, simp, split prod.split, intro allI impI, rule rest)
qed

lemma wevery_moves:
  assumes "\<And>x y s. x \<in> set xs \<Longrightarrow> moves we ks s (fst (f x y s))"
  shows "moves we ks s (fst (wevery f xs y s))"
  using assms by (induction xs arbitrary: y s) (auto simp: wret_def intro: then_moves)

lemma ScanRange_moves:
  assumes env: "env_ok we"
  shows "moves we ks s (fst (ScanRange we lo hi s))"
proof (cases "hi < lo")
  case False
  have "moves we ks s1 (fst (wthen (LogsAt we lo hi wallets) (\<lambda>logs. wthen (wevery (processLog we) logs []) (\<lambda>_. wret ())) s1))"
    for s1 wallets
  proof (rule quiet_then_moves, simp)
    fix s2 logs
    assume "LogsAt we lo hi wallets s1 = (s2, Inr logs)"
    then obtain n where n: "logs_at we lo hi wallets n = Inr logs" unfolding LogsAt_def by (blast dest: chain_ask_Inr)
    show "moves we ks s2 (fst (wthen (wevery (processLog we) logs []) (\<lambda>_. wret ()) s2))"
      by (rule then_moves, rule wevery_moves) (simp_all add: processLog_moves [OF env n] wret_def)
  qed
  then show ?thesis using False unfolding ScanRange_def by (auto simp: wret_def intro!: quiet_then_moves)
qed (simp add: ScanRange_def wret_def)

lemma other_fields_moves:
  assumes "wd_deposits (wy_db s') = wd_deposits (wy_db s)" "wd_orphans (wy_db s') = wd_orphans (wy_db s)"
    "wy_pending s' = wy_pending s" "wy_finalized s' = wy_finalized s" "books_kept we s s'"
  shows "moves we ks s s'"
  using watch_ok_frame [of we s s'] assms by (simp add: moves_def keeps_deposits_def spares_def)

lemma store_call_moves:
  assumes "\<And>now db. wd_deposits (fst (g now db)) = wd_deposits db \<and> wd_orphans (fst (g now db)) = wd_orphans db"
  shows "moves we ks s (fst (store_call we g s))"
proof -
  obtain s' r where sc: "store_call we g s = (s', r)" by fastforce
  then show ?thesis
  proof (rule store_call_cases)
    fix s1 now
    assume o: "outside we s s1" and "s' = s1 \<and> r = Inl CallLost \<or>
        s' = s1\<lparr>wy_db := fst (g now (wy_db s))\<rparr> \<and> (r = Inl CallLost \<or> r = Inr (snd (g now (wy_db s))))"
    then have "s' = s1 \<or> s' = s1\<lparr>wy_db := fst (g now (wy_db s))\<rparr>" by blast
    then have "moves we ks s s'"
      by (intro other_fields_moves) (use o assms in \<open>auto simp: outside_def books_kept_def\<close>)
    then show ?thesis by (simp add: sc)
  qed
qed

lemma runTick_moves:
  assumes env: "env_ok we"
  shows "moves we UNIV s (fst (runTick we s))"
proof -
  have scan: "moves we UNIV s (fst (scan_new we lo hi s))" for s lo hi
    unfolding scan_new_def Let_def
    by (auto simp: wret_def set_candidates_def intro!: then_moves ScanRange_moves [OF env] store_call_moves)
  have fin: "moves we UNIV s (fst ((if we_async we then CheckFinalityAsync we else CheckFinality we) s))" for s
    by (simp add: CheckFinalityAsync_moves CheckFinality_moves env)
  show ?thesis unfolding runTick_def
    by (intro then_moves scan fin store_call_moves)
      (auto simp: set_candidates_def wret_def intro!: then_moves store_call_moves split: option.splits)
qed

section \<open>Runs\<close>

definition add_row :: "deposit_row \<Rightarrow> candidate list \<Rightarrow> candidate list" where
  "add_row r cs = (if tracked cs (dr_key r) then cs else cs @ [new_candidate (dr_log r) (dr_class r)])"

lemma new_candidate_key [simp]: "cd_key (new_candidate (dr_log r) cls) = dr_key r" "cd_log (new_candidate c cls) = c"
  by (simp_all add: cd_key_def new_candidate_def dr_key_def)

lemma tracked_iff: "tracked cs k \<longleftrightarrow> k \<in> cd_key ` set cs"
  by (auto simp: tracked_def list_ex_iff)

lemma add_rows:
  shows "set cs \<subseteq> set (fold add_row rows cs)"
    and "c \<in> set (fold add_row rows cs) \<Longrightarrow> c \<in> set cs \<or> (\<exists>r \<in> set rows. c = new_candidate (dr_log r) (dr_class r))"
    and "cd_key ` set (fold add_row rows cs) = cd_key ` set cs \<union> dr_key ` set rows"
    and "distinct (map cd_key cs) \<Longrightarrow> distinct (map cd_key (fold add_row rows cs))"
proof (induction rows arbitrary: cs)
  case (Cons r rows)
  { case 1 show ?case using Cons(1) [of "add_row r cs"] by (auto simp: add_row_def) }
  { case 2 then show ?case using Cons(2) [of "add_row r cs"] by (auto simp: add_row_def split: if_splits) }
  { case 3 show ?case using Cons(3) [of "add_row r cs"] by (auto simp: add_row_def tracked_iff) }
  { case 4 then show ?case using Cons(4) [of "add_row r cs"] by (auto simp: add_row_def tracked_iff) }
qed simp_all

lemma detected_row:
  assumes "watch_ok we s"
  shows "r \<in> set (LoadDetected (wy_db s)) \<longleftrightarrow> row_at s (dr_key r) = Some r \<and> dr_status r = Detected"
proof -
  have "distinct (map dr_key (wd_deposits (wy_db s)))" using assms by (simp add: watch_ok_def)
  then have "r \<in> set (wd_deposits (wy_db s)) \<Longrightarrow> row_at s (dr_key r) = Some r"
    unfolding row_at_def by (rule first_row_unique) simp_all
  then show ?thesis using row_at_key [of s "dr_key r" r] by (auto simp: LoadDetected_def)
qed

lemma Restore_cases:
  assumes "Restore we s = (s', r)"
  obtains s1 where "outside we s s1" "s' = s1 \<and> (\<exists>e. r = Inl e) \<or>
    s' = s1\<lparr>wy_pending := fold add_row (LoadDetected (wy_db s)) (wy_pending s)\<rparr> \<and> r = Inr ()"
proof -
  obtain s1 q where sc: "store_call we (\<lambda>_ db. (db, LoadDetected db)) s = (s1, q)" by fastforce
  have "(\<lambda>r cs. if tracked cs (dr_key r) then cs else cs @ [new_candidate (dr_log r) (dr_class r)]) = add_row"
    by (simp add: add_row_def fun_eq_iff)
  note f = this
  have same: "s1\<lparr>wy_db := wy_db s1\<rparr> = s1" for s1 :: watch_sys by simp
  from sc show thesis
  proof (rule store_call_cases)
    fix s2 now
    assume o: "outside we s s2" and w: "s1 = s2 \<and> q = Inl CallLost \<or>
      s1 = s2\<lparr>wy_db := fst (wy_db s, LoadDetected (wy_db s))\<rparr> \<and> (q = Inl CallLost \<or> q = Inr (snd (wy_db s, LoadDetected (wy_db s))))"
    then have "s1 = s2" by (auto simp: outside_def)
    then show thesis
      using w assms o by (intro that [of s2]) (auto simp: Restore_def wthen_def sc f outside_def)
  qed
qed

lemma Restore_moves:
  assumes env: "env_ok we"
  shows "moves we ks s (fst (Restore we s))"
proof -
  obtain s' r where R: "Restore we s = (s', r)" by fastforce
  then show ?thesis
  proof (rule Restore_cases)
    fix s1
    assume o: "outside we s s1" and w: "s' = s1 \<and> (\<exists>e. r = Inl e) \<or>
      s' = s1\<lparr>wy_pending := fold add_row (LoadDetected (wy_db s)) (wy_pending s)\<rparr> \<and> r = Inr ()"
    let ?p = "fold add_row (LoadDetected (wy_db s)) (wy_pending s)"
    have "moves we ks s (s1\<lparr>wy_pending := ?p\<rparr>)"
      unfolding moves_def
    proof (intro impI conjI)
      assume ok: "watch_ok we s"
      have ok1: "watch_ok we s1" using outside_moves [OF o] ok by (auto simp: moves_def)
      let ?t = "s1\<lparr>wy_pending := ?p\<rparr>"
      have same: "row_ok we ?t = row_ok we s1" "finalized_ok we ?t = finalized_ok we s1" "pending_ok we ?t = pending_ok we s1"
        by (simp_all add: fun_eq_iff row_ok_def finalized_ok_def pending_ok_def row_at_def)
      have "pending_ok we s1 c" if cp: "c \<in> set ?p" for c
      proof -
        from add_rows(2) [OF cp] consider "c \<in> set (wy_pending s)"
          | r where "r \<in> set (LoadDetected (wy_db s))" "c = new_candidate (dr_log r) (dr_class r)" by blast
        then show ?thesis
        proof cases
          case 1
          then show ?thesis using ok1 o by (simp add: watch_ok_def outside_def)
        next
          case 2
          then have r: "row_at s1 (dr_key r) = Some r" "dr_status r = Detected"
            using detected_row [OF ok, of r] o by (simp_all add: row_at_def outside_def)
          then have "row_ok we s1 r" using ok1 row_at_key unfolding watch_ok_def by blast
          then show ?thesis using r new_votes_ok [OF env] by (simp add: pending_ok_def row_ok_def 2)
        qed
      qed
      moreover have "distinct (map cd_key ?p)" using add_rows(4) ok by (simp add: watch_ok_def)
      ultimately show "watch_ok we ?t" using ok1 unfolding watch_ok_def same by simp
      show "keeps_deposits we s ?t" using o by (simp add: keeps_deposits_def outside_def books_kept_def)
      show "spares ks s ?t" using add_rows(1) by (auto simp: spares_def)
    qed
    then show ?thesis using w R outside_moves [OF o] by auto
  qed
qed

lemma next_wfault_none: "wy_faults s = [] \<Longrightarrow> next_wfault we s = (s\<lparr>wy_calls := Suc (wy_calls s)\<rparr>, Answered)"
  by (simp add: next_wfault_def)

lemma Restore_calm: "wy_faults s = [] \<Longrightarrow> snd (Restore we s) = Inr ()"
  by (simp add: Restore_def wthen_def store_call_def wcall_def next_wfault_none)

lemma restarted_ends: "\<exists>s0 s1. restarted we s = s1 \<and> Restore we s0 = (s1, Inr ()) \<and> (s0 = s \<or> (\<exists>e s'. Restore we s = (s', Inl e) \<and> s0 = s'\<lparr>wy_faults := []\<rparr>))"
proof (cases "Restore we s")
  case (Pair s' r)
  show ?thesis
  proof (cases r)
    case (Inl e)
    let ?s = "s'\<lparr>wy_faults := []\<rparr>"
    have "snd (Restore we ?s) = Inr ()" by (rule Restore_calm) simp
    then have "Restore we ?s = (fst (Restore we ?s), Inr ())" by (simp add: prod_eq_iff)
    then show ?thesis using Pair Inl by (intro exI [of _ ?s] exI [of _ "fst (Restore we ?s)"]) (simp add: restarted_def)
  qed (use Pair in \<open>auto simp: restarted_def\<close>)
qed

lemma restarted_moves:
  assumes env: "env_ok we"
  shows "moves we ks s (restarted we s)"
proof -
  obtain s0 s1 where r: "restarted we s = s1" "Restore we s0 = (s1, Inr ())"
    "s0 = s \<or> (\<exists>e s'. Restore we s = (s', Inl e) \<and> s0 = s'\<lparr>wy_faults := []\<rparr>)" using restarted_ends by metis
  have "moves we ks s s0"
  proof (cases "s0 = s")
    case False
    then obtain e s' where s': "Restore we s = (s', Inl e)" "s0 = s'\<lparr>wy_faults := []\<rparr>" using r(3) by blast
    then have "moves we ks s s'" using Restore_moves [OF env, of ks s] by simp
    moreover have "outside we s' s0" by (simp add: s' outside_def)
    ultimately show ?thesis using moves_then outside_moves by blast
  qed simp
  then show ?thesis using moves_then Restore_moves [OF env, of ks s0] r by fastforce
qed

lemma forget_moves: "moves we UNIV s (s\<lparr>wy_pending := [], wy_finalized := [], wy_heights := [], wy_faults := fs\<rparr>)"
proof -
  let ?s = "s\<lparr>wy_pending := [], wy_finalized := [], wy_heights := [], wy_faults := fs\<rparr>"
  have "row_ok we ?s = row_ok we s" by (simp add: fun_eq_iff row_ok_def)
  then show ?thesis by (simp add: moves_def watch_ok_def keeps_deposits_def spares_def)
qed

lemma watch_event_moves:
  assumes env: "env_ok we" and r: "run_watch_event we ev s = Inr s'"
  shows "moves we UNIV s s'"
proof (cases ev)
  case (Tick fs)
  have "moves we UNIV s (s\<lparr>wy_faults := fs\<rparr>)" by (rule outside_moves) (simp add: outside_def)
  then show ?thesis using moves_then runTick_moves [OF env] r Tick by (fastforce simp: run_watch_event_def)
next
  case (Restart fs)
  then show ?thesis using moves_then [OF forget_moves [of we s fs] restarted_moves [OF env]] r by (simp add: run_watch_event_def)
next
  case (Resolve now i res actor)
  then obtain db where d: "ResolveOrphan now i res actor (wy_db s) = Inr db" "s' = s\<lparr>wy_db := db\<rparr>"
    using r by (auto simp: run_watch_event_def split: sum.splits)
  have u: "\<exists>p f. (\<forall>o'. or_key (f o') = or_key o') \<and> db = (wy_db s)\<lparr>wd_orphans := update_rows p f (wd_orphans (wy_db s))\<rparr>"
    using d(1) unfolding ResolveOrphan_def Let_def
    by (intro exI [of _ "\<lambda>o'. or_id o' = i \<and> or_resolution o' = None"]
        exI [of _ "\<lambda>o'. o'\<lparr>or_resolution := Some res, or_resolved_at := Some now, or_resolved_by := Some actor\<rparr>"])
      (simp split: if_splits sum.splits)
  then obtain p f where f: "\<forall>o'. or_key (f o') = or_key o'" "db = (wy_db s)\<lparr>wd_orphans := update_rows p f (wd_orphans (wy_db s))\<rparr>"
    by blast
  have "map or_key (update_rows p f (wd_orphans (wy_db s))) = map or_key (wd_orphans (wy_db s))"
    by (rule map_update_rows) (simp add: f(1))
  from arg_cong [OF this, of set] have "or_key ` set (wd_orphans db) = or_key ` set (wd_orphans (wy_db s))" by (simp add: f(2))
  then have "watch_ok we s'" if "watch_ok we s"
    by (intro watch_ok_frame [OF that]) (simp_all add: d f)
  then show ?thesis by (simp add: moves_def keeps_deposits_def spares_def d f)
qed (use r in \<open>auto simp: run_watch_event_def intro!: other_fields_moves\<close>)

text \<open>The outcome of a deposit is a state machine with one step, and what was observed of it is written once.\<close>

definition deposit_edge :: "deposit_status \<Rightarrow> deposit_status \<Rightarrow> bool" where
  "deposit_edge a b \<longleftrightarrow> a = Detected \<and> b \<noteq> Detected"

definition deposit_status_of :: "watch_sys \<Rightarrow> deposit_key \<Rightarrow> deposit_status option" where
  "deposit_status_of s k = map_option dr_status (row_at s k)"

definition deposit_log_of :: "watch_sys \<Rightarrow> deposit_key \<Rightarrow> (observed \<times> classification) option" where
  "deposit_log_of s k = map_option (\<lambda>r. (dr_log r, dr_class r)) (row_at s k)"

definition watch_run_ok :: "watch_env \<Rightarrow> watch_sys \<Rightarrow> bool" where
  "watch_run_ok we s \<longleftrightarrow> env_ok we \<and> watch_ok we s"

lemma watch_run_moves:
  assumes "watch_run_ok we s" and "run_watch_event we ev s = Inr s'"
  shows "watch_run_ok we s' \<and> keeps_deposits we s s'"
  using watch_event_moves [of we ev s s'] assms by (simp add: watch_run_ok_def moves_def)

interpretation deposit_store: status_store "run_watch_event we" "watch_run_ok we" deposit_status_of deposit_edge for we
proof
  fix ev s s'
  assume a: "watch_run_ok we s" "run_watch_event we ev s = Inr s'"
  show "watch_run_ok we s'" using watch_run_moves [OF a] by blast
  fix k st
  assume "deposit_status_of s k = Some st"
  then obtain r where r: "row_at s k = Some r" "dr_status r = st" by (auto simp: deposit_status_of_def)
  then obtain r' where "row_at s' k = Some r'" "dr_status r' = st \<or> st = Detected"
    using watch_run_moves [OF a] unfolding keeps_deposits_def row_kept_def by metis
  then show "\<exists>t. deposit_status_of s' k = Some t \<and> (t = st \<or> deposit_edge st t)"
    by (auto simp: deposit_status_of_def deposit_edge_def)
qed

interpretation deposit_logs: write_once "run_watch_event we" "watch_run_ok we" deposit_log_of for we
proof
  fix ev s s'
  assume a: "watch_run_ok we s" "run_watch_event we ev s = Inr s'"
  fix k v
  assume "deposit_log_of s k = Some v"
  then obtain r where r: "row_at s k = Some r" "v = (dr_log r, dr_class r)" by (auto simp: deposit_log_of_def)
  then obtain r' where "row_at s' k = Some r'" "dr_log r' = dr_log r" "dr_class r' = dr_class r"
    using watch_run_moves [OF a] unfolding keeps_deposits_def row_kept_def by metis
  then show "deposit_log_of s' k = Some v" using r by (simp add: deposit_log_of_def)
qed

lemma watch_start_ok:
  assumes "env_ok we" and "ledger_ok (ls_db srv)"
  shows "watch_run_ok we (watch_start pool srv)"
  using assms by (simp add: watch_run_ok_def watch_ok_def watch_start_def empty_watch_db_def)

lemma watch_reached_ok:
  assumes "env_ok we" and "ledger_ok (ls_db srv)"
  shows "watch_run_ok we (watch_reached we events (watch_start pool srv))"
  unfolding watch_reached_def by (rule deposit_store.run_inv [OF watch_start_ok [OF assms]])

text \<open>What the ledger told at the start it still tells, with the hashes of its entries.\<close>

lemma watch_reached_books:
  assumes "env_ok we" and "ledger_ok (ls_db srv)"
  shows "books_kept we (watch_start pool srv) (watch_reached we events (watch_start pool srv))"
  unfolding watch_reached_def
proof (rule deposit_store.run_induct [where P = "books_kept we (watch_start pool srv)", OF watch_start_ok [OF assms]])
  show "books_kept we (watch_start pool srv) s'"
    if "watch_run_ok we s" "books_kept we (watch_start pool srv) s" "run_watch_event we ev s = Inr s'" for ev s s'
    using watch_run_moves [OF that(1,3)] that(2) books_kept_trans unfolding keeps_deposits_def by blast
qed simp

lemma watch_reached_hashed:
  assumes "env_ok we" and "ledger_ok (ls_db srv)" and "entries_hashed (we_digest we) (ls_db srv)"
  shows "entries_hashed (we_digest we) (ls_db (wy_ledger (watch_reached we events (watch_start pool srv))))"
  using watch_reached_books [OF assms(1,2), of pool events] assms(2,3)
  by (simp add: books_kept_def books_after_def watch_start_def)

text \<open>A process that started has every open deposit pending.\<close>

lemma restarted_pending:
  assumes env: "env_ok we" and ok: "watch_ok we s" and r: "row_at (restarted we s) k = Some r" "dr_status r = Detected"
  shows "\<exists>c \<in> set (wy_pending (restarted we s)). cd_key c = k"
proof -
  obtain s0 s1 where e: "restarted we s = s1" "Restore we s0 = (s1, Inr ())"
    "s0 = s \<or> (\<exists>e s'. Restore we s = (s', Inl e) \<and> s0 = s'\<lparr>wy_faults := []\<rparr>)" using restarted_ends by metis
  have ok0: "watch_ok we s0"
  proof (cases "s0 = s")
    case False
    then obtain e s' where s': "Restore we s = (s', Inl e)" "s0 = s'\<lparr>wy_faults := []\<rparr>" using e(3) by blast
    then have "watch_ok we s'" using Restore_moves [OF env, of UNIV s] ok by (simp add: moves_def)
    moreover have "outside we s' s0" by (simp add: s' outside_def)
    ultimately show ?thesis using outside_moves [of we s' s0 UNIV] by (simp add: moves_def)
  qed (use ok in simp)
  from e(2) show ?thesis
  proof (rule Restore_cases)
    fix s2
    assume o: "outside we s0 s2" and "s1 = s2 \<and> (\<exists>e. Inr () = Inl e) \<or>
      s1 = s2\<lparr>wy_pending := fold add_row (LoadDetected (wy_db s0)) (wy_pending s0)\<rparr> \<and> Inr () = Inr ()"
    then have s1: "s1 = s2\<lparr>wy_pending := fold add_row (LoadDetected (wy_db s0)) (wy_pending s0)\<rparr>" by simp
    have r0: "row_at s0 k = Some r" using r(1) o by (simp add: e(1) s1 row_at_def outside_def)
    then have "r \<in> set (LoadDetected (wy_db s0))" "dr_key r = k"
      using detected_row [OF ok0, of r] row_at_key [OF r0] r(2) by simp_all
    then have "k \<in> cd_key ` set (wy_pending s1)" by (auto simp: s1 add_rows(3))
    then show ?thesis by (auto simp: e(1))
  qed
qed

end
