(* ===== verification/Tracker_Late.thy ===== *)
theory Tracker_Late
  imports Tracker_Run
begin

text \<open>
  Calls when nothing fails, and the report of a deposit whose order has moved on: the ledger refuses it, also when
  it has the entry already, and the watcher takes the deposit for an orphan.
\<close>

section \<open>Calls that go through\<close>

lemma wthen_cong: "s = s' \<Longrightarrow> wthen m k s = wthen m k s'" by simp

lemma calm_calls:
  assumes "wy_faults s = []"
  shows "store_call we g s = (s\<lparr>wy_calls := Suc (wy_calls s), wy_db := fst (g (we_now we (Suc (wy_calls s))) (wy_db s))\<rparr>,
      Inr (snd (g (we_now we (Suc (wy_calls s))) (wy_db s))))"
    and "pool_read we p s = (s\<lparr>wy_calls := Suc (wy_calls s)\<rparr>, Inr (p (we_now we (Suc (wy_calls s))) (wy_pool s)))"
    and "ledger_ask we q s = (s\<lparr>wy_calls := Suc (wy_calls s)\<rparr>, said (q (wy_ledger s)))"
    and "ledger_tell we t s = (s\<lparr>wy_calls := Suc (wy_calls s), wy_ledger := fst (t (we_now we (Suc (wy_calls s))) (wy_ledger s))\<rparr>,
      said (snd (t (we_now we (Suc (wy_calls s))) (wy_ledger s))))"
    and "chain_ask we c s = (s\<lparr>wy_calls := Suc (wy_calls s)\<rparr>, c (Suc (wy_calls s)))"
  using assms by (simp_all add: store_call_def pool_read_def ledger_ask_def ledger_tell_def chain_ask_def wcall_def next_wfault_def
      wclock_def split: prod.splits)

section \<open>A report that comes too late\<close>

lemma existing_account:
  assumes ok: "ledger_ok (ls_db srv)" and a: "GetByCode (ls_db srv) c = Inr a" and ty: "ty \<in> {''ASSET'', ''LIABILITY''}"
  shows "lc_EnsureAccount now c ty ''USDT_BEP20'' srv =
    (srv\<lparr>ls_db := (at_time now srv)\<lparr>accounts_seq := accounts_seq (ls_db srv) + 1\<rparr>\<rparr>, Inr ())"
proof -
  have acc: "accounts_ok (ls_db srv)" using ok by (simp add: ledger_ok_def journal_ok_def)
  moreover have "a \<in> set (accounts (ls_db srv))" "acc_code a = c" using GetByCode_Inr [OF a] by simp_all
  ultimately have p: "is_ok (ParseCode c)" unfolding accounts_ok_def account_ok_def by blast
  have "account_type_of ty = Asset \<or> account_type_of ty = Liability" using ty by (elim insertE) (simp_all add: account_type_of_def)
  then have t: "type_valid (account_type_of ty)" "is_ok (NormalSideFor (account_type_of ty))" by (auto simp: type_valid_def)
  have g: "first_row (\<lambda>r. acc_code r = c) (accounts (ls_db srv)) = Some a" using a by (simp add: GetByCode_def split: option.splits)
  show ?thesis
    using p t g by (auto simp: lc_EnsureAccount_def postAccount_def CreateAccount_def insert_account_def at_time_def GetByCode_def is_ok_iff
        asset_of_def api_def Let_def split: if_splits)
qed

lemma existing_account_same:
  "orders ((at_time now srv)\<lparr>accounts_seq := n\<rparr>) = orders (ls_db srv)" "accounts ((at_time now srv)\<lparr>accounts_seq := n\<rparr>) = accounts (ls_db srv)"
  by (simp_all add: at_time_def)

lemma GetByExternalID_GetOrder:
  assumes ok: "ledger_ok db" and g: "GetByExternalID db ext = Inr ord"
  shows "GetOrder db (o_id ord) = Inr ord"
proof -
  obtain r where r: "first_row (\<lambda>r. r_external_id r = ext) (orders db) = Some r" "scanOrder r = Inr ord"
    using g by (auto simp: GetByExternalID_def split: option.splits)
  moreover have "distinct (map r_id (orders db))" using ok by (simp add: ledger_ok_def orders_ok_def)
  ultimately have "first_row (\<lambda>q. r_id q = o_id ord) (orders db) = Some r"
    using first_row_Some [OF r(1)] scanOrder_id [OF r(2)] by (intro first_row_unique) simp_all
  then show ?thesis using r(2) by (simp add: GetOrder_def)
qed

lemma usdt_parses:
  assumes "a \<noteq> MinInt64"
  shows "ParseDecimal (usdt a) USDT_BEP20 = Inr (Amount USDT_BEP20 a)"
proof -
  have "wireable (Amount USDT_BEP20 a)" using assms by (simp add: wireable_def)
  from ParseDecimal_formatted [OF this] show ?thesis by (simp add: usdt_def)
qed

lemma late_postFinal:
  assumes ok: "ledger_ok (ls_db srv)" and g: "GetByExternalID (ls_db srv) (ob_external c) = Inr ord"
    and late: "o_state ord \<noteq> Funded" "legal (o_state ord) Funded = None"
    and wf: "actor \<noteq> ''''" "ob_block_time c \<noteq> 0" "ob_units c \<noteq> MinInt64"
  shows "snd (postFinal digest actor now (toOrderResponse ord) c srv) = Inl (ApiError ErrIllegalTransition)"
proof -
  have "- ob_units c \<noteq> MinInt64"
  proof
    assume "- ob_units c = MinInt64"
    then have "ob_units c = - MinInt64" by (metis minus_minus)
    moreover have "- MinInt64 = MinInt64" by (simp add: MinInt64_def min_int64_def)
    ultimately show False using wf(3) by simp
  qed
  note parse = usdt_parses [OF wf(3)] usdt_parses [OF this]
  have "GetOrder (ls_db srv) (o_id ord) = Inr ord" by (rule GetByExternalID_GetOrder [OF ok g])
  then have o: "GetOrder (at_time now srv) (o_id ord) = Inr ord" by (simp add: GetOrder_def at_time_def)
  have st: "state_of ''funded'' = Funded" by code_simp
  show ?thesis using late wf
    by (auto simp: postFinal_def postTransition_def transition_request_def g final_request_def entryLinesToJournalLines_def
      asset_of_def parse lift_money_def Transition_def o st StateValid_def allStates_def transition_validate_def toOrderResponse_def run_tx_def api_def)
qed

lemma existing_account_obtain:
  assumes "ledger_ok (ls_db srv)" and "GetByCode (ls_db srv) c = Inr a" and "ty \<in> {''ASSET'', ''LIABILITY''}"
  obtains srv' where "lc_EnsureAccount now c ty ''USDT_BEP20'' srv = (srv', Inr ())" "ledger_ok (ls_db srv')"
    "orders (ls_db srv') = orders (ls_db srv)" "accounts (ls_db srv') = accounts (ls_db srv)"
proof -
  let ?srv = "srv\<lparr>ls_db := (at_time now srv)\<lparr>accounts_seq := accounts_seq (ls_db srv) + 1\<rparr>\<rparr>"
  have e: "lc_EnsureAccount now c ty ''USDT_BEP20'' srv = (?srv, Inr ())" by (rule existing_account [OF assms])
  have "ledger_ok (ls_db ?srv)" by (rule served_ok [OF client_served(3) [OF e] assms(1)])
  then show thesis by (rule that [OF e]) (simp_all add: existing_account_same)
qed

text \<open>The order of a candidate is past \<open>funded\<close>: the report is refused for good.\<close>

definition too_late_for :: "observed \<Rightarrow> order \<Rightarrow> ledger_server \<Rightarrow> bool" where
  "too_late_for c ord srv \<longleftrightarrow>
     GetByExternalID (ls_db srv) (ob_external c) = Inr ord \<and> o_state ord \<noteq> Funded \<and> legal (o_state ord) Funded = None \<and>
     ob_block_time c \<noteq> 0 \<and> ob_units c \<noteq> MinInt64 \<and>
     is_ok (GetByCode (ls_db srv) (depositAccountCode (tier_str (o_tier ord)) (ob_order_id c))) \<and>
     is_ok (GetByCode (ls_db srv) (customerAccountCode (ob_customer c)))"

lemma late_report:
  assumes ok: "ledger_ok (ls_db (wy_ledger s))" and calm: "wy_faults s = []" and actor: "we_actor we \<noteq> ''''"
    and late: "too_late_for c ord (wy_ledger s)"
  shows "\<exists>s'. ReportDepositFinal we c s = (s', Inl (ReportPermanent (ApiError ErrIllegalTransition))) \<and>
    wy_faults s' = [] \<and> wy_db s' = wy_db s"
proof -
  have g: "GetByExternalID (ls_db (wy_ledger s)) (ob_external c) = Inr ord" and st: "o_state ord \<noteq> Funded" "legal (o_state ord) Funded = None"
    and wf: "ob_block_time c \<noteq> 0" "ob_units c \<noteq> MinInt64" using late by (simp_all add: too_late_for_def)
  obtain a1 a2 where a: "GetByCode (ls_db (wy_ledger s)) (depositAccountCode (tier_str (o_tier ord)) (ob_order_id c)) = Inr a1"
    "GetByCode (ls_db (wy_ledger s)) (customerAccountCode (ob_customer c)) = Inr a2"
    using late by (auto simp: too_late_for_def is_ok_iff)
  let ?n = "wy_calls s"
  obtain srv1 where e1: "lc_EnsureAccount (we_now we (Suc (Suc ?n))) (depositAccountCode (tier_str (o_tier ord)) (ob_order_id c)) ''ASSET'' ''USDT_BEP20''
      (wy_ledger s) = (srv1, Inr ())" "ledger_ok (ls_db srv1)"
    "orders (ls_db srv1) = orders (ls_db (wy_ledger s))" "accounts (ls_db srv1) = accounts (ls_db (wy_ledger s))"
    by (rule existing_account_obtain [OF ok a(1), of "''ASSET''" "we_now we (Suc (Suc ?n))"]) simp_all
  have "GetByCode (ls_db srv1) (customerAccountCode (ob_customer c)) = Inr a2" using a(2) e1(4) by (simp add: GetByCode_def)
  then obtain srv2 where e2: "lc_EnsureAccount (we_now we (Suc (Suc (Suc ?n)))) (customerAccountCode (ob_customer c)) ''LIABILITY'' ''USDT_BEP20''
      srv1 = (srv2, Inr ())" "ledger_ok (ls_db srv2)" "orders (ls_db srv2) = orders (ls_db srv1)"
    by (rule existing_account_obtain [OF e1(2), of _ a2 "''LIABILITY''" "we_now we (Suc (Suc (Suc ?n)))"]) simp_all
  have "GetByExternalID (ls_db srv2) (ob_external c) = Inr ord" using g e1(3) e2(3) by (simp add: GetByExternalID_def)
  then have post: "snd (postFinal (we_digest we) (we_actor we) now (toOrderResponse ord) c srv2) = Inl (ApiError ErrIllegalTransition)" for now
    using late_postFinal [OF e2(2) _ st actor wf] by blast
  have get: "watch_GetOrder (ob_external c) (wy_ledger s) = Inr (toOrderResponse ord)"
    by (simp add: watch_GetOrder_def getOrder_def g api_def)
  have tier: "oj_tier (toOrderResponse ord) = tier_str (o_tier ord)" by (simp add: toOrderResponse_def)
  show ?thesis
    by (simp add: ReportDepositFinal_def report_final_def wthen_def calm_calls calm said_def get tier e1(1) e2(1) post cong: wthen_cong)
qed

lemma late_finalize:
  assumes ok: "ledger_ok (ls_db (wy_ledger s))" and calm: "wy_faults s = []" and actor: "we_actor we \<noteq> ''''"
    and late: "too_late_for (cd_log c) ord (wy_ledger s)" and row: "row_at s (cd_key c) = Some r"
  shows "row_at (fst (finalize we c s)) (cd_key c) = Some (r\<lparr>dr_status := Orphaned\<rparr>) \<and>
    books_kept we s (fst (finalize we c s))"
proof -
  let ?k = "cd_key c"
  obtain s1 where rep: "ReportDepositFinal we (cd_log c) s = (s1, Inl (ReportPermanent (ApiError ErrIllegalTransition)))"
    and s1: "wy_faults s1 = []" "wy_db s1 = wy_db s"
    using late_report [OF ok calm actor late] by (elim exE conjE) (rule that; assumption)
  have o1: "outside we s s1" using ReportDepositFinal_books rep unfolding books_from_def quiet_def by (metis fst_conv)
  obtain s2 q where h: "RecordOrphanedDeposit we (cd_log c) s1 = (s2, q)" by fastforce
  note m = RecordOrphanedDeposit_moves [OF h, of UNIV]
  have s2: "wd_deposits (wy_db s2) = wd_deposits (wy_db s)" "books_kept we s1 s2" using m s1(2) by simp_all
  have q: "q = Inr ()" "wy_faults s2 = []" using h by (auto simp: RecordOrphanedDeposit_def calm_calls s1(1))
  let ?s3 = "s2\<lparr>wy_calls := Suc (wy_calls s2), wy_db := SetStatus ?k Orphaned (wy_db s2)\<rparr>"
  have f: "fst (finalize we c s) = ?s3\<lparr>wy_pending := untrack ?k (wy_pending s2)\<rparr>"
    by (simp add: finalize_def rep wlogged_def wthen_def HandleUnreportable_def h q setStatus_def calm_calls drop_candidate_def)
  have "books_kept we s s2" using books_kept_trans o1 s2(2) unfolding outside_def by blast
  moreover have "first_row (\<lambda>r. dr_key r = ?k) (wd_deposits (wy_db s2)) = Some r" using row s2(1) by (simp add: row_at_def)
  then have "first_row (\<lambda>r. dr_key r = ?k) (wd_deposits (SetStatus ?k Orphaned (wy_db s2))) = Some (r\<lparr>dr_status := Orphaned\<rparr>)"
    using row_at_key [OF row] by (simp add: row_at_SetStatus)
  ultimately show ?thesis unfolding f by (simp add: row_at_def books_kept_def)
qed

end
