(* ===== verification/Finality_Demo.thy ===== *)
theory Finality_Demo
  imports Tracker_Late Ledger_Demo
begin

text \<open>
  A small world for the witnesses on the BSC watcher: three providers of which two must agree, one wallet with an
  active lease for the order \<open>o1\<close> of theory \<open>Ledger_Demo\<close>, and one transfer of the order's 100 units to it in
  block 7.
\<close>

section \<open>An injective digest\<close>

text \<open>A payload written out, each part closed by a mark that does not occur within it.\<close>

function demo_bits :: "int \<Rightarrow> string" where
  "demo_bits i = (if i \<le> 0 then [] else (if i mod 2 = 1 then CHR ''1'' else CHR ''0'') # demo_bits (i div 2))"
  by pat_completeness auto

termination by (relation "measure nat") auto

declare demo_bits.simps [simp del]

fun demo_value :: "string \<Rightarrow> int" where
  "demo_value [] = 0"
| "demo_value (c # s) = (if c = CHR ''1'' then 1 else 0) + 2 * demo_value s"

lemma demo_value_bits: "0 \<le> i \<Longrightarrow> demo_value (demo_bits i) = i"
proof (induction i rule: demo_bits.induct)
  case (1 i)
  show ?case
  proof (cases "i \<le> 0")
    case False
    then have "demo_value (demo_bits (i div 2)) = i div 2" using 1 by (simp add: pos_imp_zdiv_nonneg_iff)
    then have "demo_value (demo_bits i) = (if i mod 2 = 1 then 1 else 0) + 2 * (i div 2)"
      using False by (simp add: demo_bits.simps [of i])
    then show ?thesis by presburger
  next
    case True
    then have "i = 0" using 1(2) by simp
    then show ?thesis by (simp add: demo_bits.simps [of 0])
  qed
qed

definition demo_int :: "int \<Rightarrow> string" where
  "demo_int i = (if i < 0 then CHR ''-'' else CHR ''+'') # demo_bits \<bar>i\<bar>"

lemma demo_int_inj [simp]: "demo_int i = demo_int j \<longleftrightarrow> i = j"
proof
  assume d: "demo_int i = demo_int j"
  then have "demo_bits \<bar>i\<bar> = demo_bits \<bar>j\<bar>" by (simp add: demo_int_def)
  then have "\<bar>i\<bar> = \<bar>j\<bar>" by (metis demo_value_bits abs_ge_zero)
  then show "i = j" using d by (auto simp: demo_int_def split: if_splits)
qed simp

fun demo_text :: "string \<Rightarrow> string" where
  "demo_text [] = ''|''"
| "demo_text (c # s) = CHR ''.'' # c # demo_text s"

lemma demo_text_inj [simp]: "demo_text s @ x = demo_text t @ y \<longleftrightarrow> s = t \<and> x = y"
  by (induction s t rule: list_induct2') auto

fun demo_lines :: "hash_line list \<Rightarrow> string" where
  "demo_lines [] = ''|''"
| "demo_lines (l # ls) =
     CHR ''.'' # demo_text (hl_code l) @ demo_text (hl_asset l) @ demo_text (demo_int (hl_amount l)) @ demo_lines ls"

lemma demo_lines_inj [simp]: "demo_lines ls = demo_lines ms \<longleftrightarrow> ls = ms"
proof (induction ls ms rule: list_induct2')
  case (4 l ls m ms)
  then show ?case by (cases l; cases m) simp
qed simp_all

definition demo_hashed :: "hash_payload \<Rightarrow> hash" where
  "demo_hashed p =
     demo_text (hp_type p) @ demo_text (case hp_order p of None \<Rightarrow> '''' | Some i \<Rightarrow> demo_int i) @
     demo_text (demo_int (hp_occurred p)) @ demo_lines (hp_lines p)"

lemma demo_hashed_inj: "demo_hashed p = demo_hashed q \<Longrightarrow> p = q"
proof -
  assume d: "demo_hashed p = demo_hashed q"
  have "i = j" if "(case i of None \<Rightarrow> '''' | Some n \<Rightarrow> demo_int n) = (case j of None \<Rightarrow> '''' | Some n \<Rightarrow> demo_int n)" for i j
    using that by (cases i; cases j) (simp_all, simp_all add: demo_int_def)
  then show "p = q" using d by (intro hash_payload.equality) (auto simp: demo_hashed_def)
qed

section \<open>The world\<close>

definition demo_log :: chain_log where
  "demo_log = \<lparr>lg_address = [], lg_topics = [[1], replicate 31 0 @ [2], replicate 31 0 @ [3]],
     lg_data = replicate 24 0 @ [0, 0, 0x5a, 0xf3, 0x10, 0x7a, 0x40, 0], lg_tx = ''t'', lg_block = 7, lg_txindex = 0, lg_index = 0\<rparr>"

definition demo_watch :: watch_env where
  "demo_watch =
     \<lparr>we_now = (\<lambda>n. seconds (int n)), we_digest = demo_hashed, we_actor = ''watcher'', we_least = 2, we_providers = [''p'', ''q'', ''r''],
      we_final = (\<lambda>_ p. if p = ''r'' then None else Some (7, ''h'')),
      we_logs = (\<lambda>_ p lo hi _. if p = ''r'' then Some [] else Some (if lo \<le> 7 \<and> 7 \<le> hi then [demo_log] else [])),
      we_block_hash = (\<lambda>_ _ _. Some ''h''), we_block_secs = (\<lambda>_ _. Some 3), we_topic = [1], we_hex = (\<lambda>_. ''w0''),
      we_is_hex = (\<lambda>_. True), we_canon = (\<lambda>a. a), we_dust = 1, we_async = False, we_turn = (\<lambda>_ _. 0),
      we_height_turn = (\<lambda>_ _. 0)\<rparr>"

definition demo_pool :: pool_db where
  "demo_pool = empty_pool\<lparr>pd_leases := [\<lparr>ls_id = 1, ls_address = ''w0'', ls_index = 0, ls_order = 1, ls_external = ''o1'',
     ls_customer = ''c'', ls_status = Watching, ls_quoted_at = 0, ls_quote_expires = seconds 900, ls_assigned_at = seconds 1,
     ls_retired_at = None, ls_reason = None\<rparr>]\<rparr>"

lemma demo_log_parsed: "ParseTransferLog [1] demo_log = Inr (replicate 19 0 @ [2], replicate 19 0 @ [3], 100)"
proof -
  have "SetBytes (lg_data demo_log) = 10 ^ 14"
    by (simp add: demo_log_def SetBytes_def map_replicate_const from_base_zeros) (simp add: from_base_def)
  moreover have "FromOnChainUnits (10 ^ 14) 18 = Inr 100"
    by (simp add: FromOnChainUnits_def usdtDecimals_def max_int64_def)
  moreover have "length (lg_data demo_log) = 32" "lg_topics demo_log = [[1], replicate 31 0 @ [2], replicate 31 0 @ [3]]"
    by (simp_all add: demo_log_def)
  ultimately show ?thesis by (simp add: ParseTransferLog_def TokenDecimals_def)
qed

definition demo_ledger :: ledger_server where
  "demo_ledger = \<lparr>ls_db = demo_quoted, ls_cache = Some \<lparr>c_halted = False, c_updated_at = 0\<rparr>\<rparr>"

definition demo_obs :: observed where
  "demo_obs = \<lparr>ob_tx = ''t'', ob_index = 0, ob_block = 7, ob_block_time = seconds 3, ob_order_id = 1, ob_external = ''o1'',
     ob_customer = ''c'', ob_units = 100, ob_sender = ''w0'', ob_address = ''w0''\<rparr>"

definition demo_scanned :: watch_sys where
  "demo_scanned = \<lparr>wy_db = \<lparr>wd_deposits = [\<lparr>dr_log = demo_obs, dr_class = Exact, dr_status = Detected\<rparr>], wd_orphans = [],
     wd_orphan_seq = 0, wd_scanned = 8, wd_candidates = Some 8\<rparr>, wy_pool = demo_pool, wy_ledger = demo_ledger,
     wy_pending = [new_candidate demo_obs Exact], wy_finalized = [], wy_heights = [], wy_faults = [], wy_calls = 9\<rparr>"

lemma demo_fields:
  "we_hex demo_watch x = ''w0''" "we_block_secs demo_watch n h = Some 3" "we_topic demo_watch = [1]" "we_now demo_watch n = seconds (int n)"
  "we_dust demo_watch = 1" "\<not> we_async demo_watch" "we_digest demo_watch = demo_hashed" "we_actor demo_watch = ''watcher''"
  by (simp_all add: demo_watch_def)

lemma demo_logs_at: "lo \<le> 7 \<Longrightarrow> 7 \<le> hi \<Longrightarrow> logs_at demo_watch lo hi w n = Inr [demo_log]"
  by (simp add: logs_at_def demo_watch_def resolveAgreement_def add_result_def sortLogs_def agreed_def names_of_def)

lemma demo_latest_final: "latest_final demo_watch n = Inr (7, ''h'')"
  by (simp add: latest_final_def demo_watch_def resolveAgreement_def add_result_def agreed_def names_of_def)

lemma demo_pool_reads:
  "WatchSet (we_canon demo_watch) now demo_pool = [''w0'']"
  "LeaseAt (we_canon demo_watch) demo_pool ''w0'' (seconds 3) = Some (hd (pd_leases demo_pool))"
  by (simp_all add: WatchSet_def LeaseAt_def demo_watch_def demo_pool_def empty_pool_def leaseTimeTolerance_def seconds_def pg_time_def)

lemma demo_log_fields [simp]: "lg_tx demo_log = ''t''" "lg_index demo_log = 0" "lg_block demo_log = 7"
  by (simp_all add: demo_log_def)

lemma demo_lease: "ls_order (hd (pd_leases demo_pool)) = 1" "ls_external (hd (pd_leases demo_pool)) = ''o1''"
  "ls_customer (hd (pd_leases demo_pool)) = ''c''" "ls_address (hd (pd_leases demo_pool)) = ''w0''"
  "ls_status (hd (pd_leases demo_pool)) = Watching"
  by (simp_all add: demo_pool_def)

lemma demo_quote: "QuotedAmount ''o1'' demo_ledger = Inr 100"
  by code_simp

lemma demo_scan_new:
  "scan_new demo_watch 6 8 (demo_scanned\<lparr>wy_db := empty_watch_db\<lparr>wd_scanned := 8, wd_candidates := Some 6\<rparr>, wy_pending := [], wy_calls := 2\<rparr>) =
     (demo_scanned, Inr ())"
  by (simp add: scan_new_def maxBlocksPerTick_def ScanRange_def wthen_def calm_calls demo_scanned_def LogsAt_def demo_logs_at
     processLog_def demo_fields demo_log_parsed blockTimeFor_def Let_def heard_def wret_def demo_pool_reads demo_quote said_def
     demo_lease too_late_def ClassifyAgainstOrder_def OnLogObserved_def tracked_def SaveDeposit_def set_candidates_def empty_watch_db_def
     demo_obs_def observed_key_def dr_key_def demo_log_fields
   cong: wthen_cong)

text \<open>The ledger after each call of the report.\<close>

definition demo_with_wallet :: ledger_server where
  "demo_with_wallet = fst (lc_EnsureAccount (seconds 13) ''asset:bsc:deposit:1'' ''ASSET'' ''USDT_BEP20'' demo_ledger)"

definition demo_with_customer :: ledger_server where
  "demo_with_customer = fst (lc_EnsureAccount (seconds 14) ''liability:customer:c:USDT_BEP20'' ''LIABILITY'' ''USDT_BEP20'' demo_with_wallet)"

definition demo_read :: order_json where
  "demo_read = (case watch_GetOrder ''o1'' demo_ledger of Inr ord \<Rightarrow> ord)"

lemma demo_report:
  "watch_GetOrder ''o1'' demo_ledger = Inr demo_read" "oj_tier demo_read = ''STANDARD''"
  "snd (lc_EnsureAccount (seconds 13) ''asset:bsc:deposit:1'' ''ASSET'' ''USDT_BEP20'' demo_ledger) = Inr ()"
  "snd (lc_EnsureAccount (seconds 14) ''liability:customer:c:USDT_BEP20'' ''LIABILITY'' ''USDT_BEP20'' demo_with_wallet) = Inr ()"
  "snd (postFinal demo_hashed ''watcher'' (seconds 15) demo_read demo_obs demo_with_customer) = Inr ()"
  by code_simp+
definition demo_reported :: watch_sys where
  "demo_reported = fst (weach (verify_height demo_watch) [(7, [new_candidate demo_obs Exact])] (demo_scanned\<lparr>wy_calls := 10\<rparr>))"

lemma demo_obs_fields: "ob_tx demo_obs = ''t''" "ob_index demo_obs = 0" "ob_order_id demo_obs = 1" "ob_external demo_obs = ''o1''"
  "ob_customer demo_obs = ''c''" "ob_address demo_obs = ''w0''" "ob_block demo_obs = 7"
  by (simp_all add: demo_obs_def)

lemma demo_codes: "depositAccountCode ''STANDARD'' 1 = ''asset:bsc:deposit:1''" "customerAccountCode ''c'' = ''liability:customer:c:USDT_BEP20''"
  by code_simp+

lemma demo_finalize:
  "wy_db demo_reported = (wy_db demo_scanned)\<lparr>wd_deposits := [\<lparr>dr_log = demo_obs, dr_class = Exact, dr_status = Reported\<rparr>]\<rparr>"
  "wy_faults demo_reported = []"
  by (simp_all add: demo_reported_def weach_def verify_height_def LogsAt_def demo_logs_at wthen_def calm_calls demo_scanned_def verify_one_def
      log_key_def cd_key_def new_candidate_def demo_obs_fields observed_key_def finalize_def ReportDepositFinal_def report_final_def
      demo_report demo_fields said_def demo_codes
      demo_with_wallet_def [symmetric] demo_with_customer_def [symmetric]
      setStatus_def wlogged_def SetStatus_def update_rows_def dr_key_def mark_final_def untrack_def
    cong: wthen_cong)

lemma checkPostFinalReorgs_db: "wy_db (fst (checkPostFinalReorgs we s)) = wy_db s"
proof -
  have each: "wy_db (fst (weach f xs s)) = wy_db s" if "\<And>x s. wy_db (fst (f x s)) = wy_db s"
    for f :: "'x \<Rightarrow> unit wact" and xs s
    using that by (induction xs arbitrary: s) (simp_all add: weach_Cons weach_Nil)
  have then_db: "wy_db (fst (wthen m k s)) = wy_db s" if "quiet we m" "\<And>x s. wy_db (fst (k x s)) = wy_db s"
    for m :: "'x wact" and k :: "'x \<Rightarrow> unit wact" and s
  proof -
    have "wy_db (fst (m s)) = wy_db s" using that(1) by (simp add: quiet_def outside_def)
    then show ?thesis using that(2) by (cases "m s") (simp add: wthen_def split: sum.splits)
  qed
  have "wy_db (fst (handlePostFinalReorg we c s)) = wy_db s" for c s
    unfolding handlePostFinalReorg_def by (rule then_db) simp_all
  then have "wy_db (fst (recheck_height we g s)) = wy_db s" for g s
    unfolding recheck_height_def by (intro then_db each) (simp_all add: wret_def)
  then show ?thesis by (simp add: checkPostFinalReorgs_def Let_def each)
qed

definition demo_events :: "watch_event list" where
  "demo_events = [SetCursors 8 6, Tick []]"

abbreviation demo_reached :: watch_sys where
  "demo_reached \<equiv> watch_reached demo_watch demo_events (watch_start demo_pool demo_ledger)"

lemma demo_reached_db: "wy_db demo_reached = wy_db demo_reported"
proof -
  let ?s0 = "demo_scanned\<lparr>wy_db := empty_watch_db\<lparr>wd_scanned := 8, wd_candidates := Some 6\<rparr>, wy_pending := [], wy_calls := 0\<rparr>"
  have "watch_reached demo_watch demo_events (watch_start demo_pool demo_ledger) = fst (runTick demo_watch ?s0)"
    by (simp add: watch_reached_def run_ops_def commit_op_def demo_events_def run_watch_event_def watch_start_def demo_scanned_def empty_watch_db_def)
  moreover have "fst (runTick demo_watch ?s0) = fst (CheckFinality demo_watch demo_scanned)"
  proof -
    have c: "wy_faults ?s0 = []" "wy_db ?s0 = empty_watch_db\<lparr>wd_scanned := 8, wd_candidates := Some 6\<rparr>" by (simp_all add: demo_scanned_def)
    have "fst (runTick demo_watch ?s0) = fst (wthen (scan_new demo_watch 6 8) (\<lambda>_. CheckFinality demo_watch) (?s0\<lparr>wy_calls := 2\<rparr>))"
      by (simp add: runTick_def wthen_def calm_calls c demo_scanned_def wret_def demo_fields numeral_2_eq_2)
    also have "\<dots> = fst (CheckFinality demo_watch demo_scanned)" using demo_scan_new by (simp add: wthen_def)
    finally show ?thesis .
  qed
  moreover have "wy_db (fst (CheckFinality demo_watch demo_scanned)) = wy_db demo_reported"
  proof -
    have f: "wy_faults demo_scanned = []" "wy_calls demo_scanned = 9" by (simp_all add: demo_scanned_def)
    have "by_height demo_watch (demo_scanned\<lparr>wy_calls := 10\<rparr>) (readyCandidates 7 (wy_pending demo_scanned)) = [(7, [new_candidate demo_obs Exact])]"
      by (simp add: by_height_def walk_def readyCandidates_def demo_scanned_def cd_height_def new_candidate_def demo_obs_fields)
    then have "wy_db (fst (CheckFinality demo_watch demo_scanned)) = wy_db (fst (checkPostFinalReorgs demo_watch demo_reported))"
      by (simp add: CheckFinality_def LatestFinalized_def wthen_def calm_calls f demo_latest_final demo_reported_def weach_def)
    then show ?thesis by (simp add: checkPostFinalReorgs_db)
  qed
  ultimately show ?thesis by simp
qed

lemma demo_ledger_ok: "ledger_ok (ls_db demo_ledger)"
  using demo_orders_ok(1) by (simp add: demo_ledger_def)

lemma demo_ledger_hashed: "entries_hashed (we_digest demo_watch) (ls_db demo_ledger)"
  by (simp add: entries_hashed_def entry_told_def entry_at_def demo_ledger_def demo_quoted_def empty_db_def)

lemma demo_watch_env: "env_ok demo_watch"
  by (simp add: env_ok_def demo_watch_def)

lemma demo_is_reported: "deposit_status_of demo_reached (''t'', 0) = Some Reported"
  by (simp add: deposit_status_of_def row_at_def demo_reached_db demo_finalize dr_key_def observed_key_def demo_obs_fields)

section \<open>A credited deposit whose order has moved on\<close>

definition demo_credited :: ledger_server where
  "demo_credited = fst (postFinal demo_hashed ''watcher'' (seconds 15) demo_read demo_obs demo_with_customer)"

definition demo_moved_on :: ledger_server where
  "demo_moved_on = others demo_hashed [(seconds 20, OpTransition demo_env 1 Screened 1 (demo_params None))] demo_credited"

lemma demo_credited_ok: "ledger_ok (ls_db demo_with_customer)" "ledger_ok (ls_db demo_credited)" "ledger_ok (ls_db demo_moved_on)"
proof -
  show c: "ledger_ok (ls_db demo_with_customer)"
    unfolding demo_with_customer_def demo_with_wallet_def by (intro served_ok [OF EnsureAccount_served] demo_ledger_ok)
  show p: "ledger_ok (ls_db demo_credited)" unfolding demo_credited_def by (rule served_ok [OF postFinal_served c])
  show "ledger_ok (ls_db demo_moved_on)" unfolding demo_moved_on_def using others_books_after p unfolding books_after_def by blast
qed

lemma demo_credits: "credited (ls_db demo_moved_on) demo_obs"
proof -
  have "(case entry_told (ls_db demo_moved_on) (DepositFinalIdempotencyKey (observed_key demo_obs)) of
        None \<Rightarrow> False
      | Some (row, ls) \<Rightarrow>
          order_named (ls_db demo_moved_on) (ob_external demo_obs) = Some (1, Standard) \<and>
          e_type row = ''deposit_final'' \<and> e_order row = Some 1 \<and> e_occurred_at row = pg_time (ob_block_time demo_obs) \<and>
          ls = [HashLine ''asset:bsc:deposit:1'' ''USDT_BEP20'' 100, HashLine ''liability:customer:c:USDT_BEP20'' ''USDT_BEP20'' (- 100)])"
    by code_simp
  moreover have "sint (ob_units demo_obs) = 100" by (simp add: demo_obs_def)
  ultimately show ?thesis
    by (auto simp: credited_def demo_codes demo_obs_fields split: option.splits prod.splits)
qed

lemma demo_moved_on_late: "\<exists>ord. too_late_for demo_obs ord demo_moved_on"
proof -
  have "(case GetByExternalID (ls_db demo_moved_on) ''o1'' of Inl _ \<Rightarrow> False | Inr ord \<Rightarrow> too_late_for demo_obs ord demo_moved_on)"
    by code_simp
  then show ?thesis by (auto split: sum.splits)
qed

end
