(* ===== verification/Finality_Props.thy ===== *)
theory Finality_Props
  imports Finality_Demo
begin

text \<open>
  The properties of the BSC watcher's ingestion: what it reports to the ledger was seen and is final by the word of
  enough providers, an outcome never changes, a restart forgets nothing; and one way in which a deposit that was
  credited ends among the orphaned ones.
\<close>

section \<open>Agreement\<close>

text \<open>C19: an answer is accepted when, and only when, enough providers gave it and more than gave any other;
  \<open>resolveAgreement\<close> then names exactly those that gave it. The order of the answers does not matter.\<close>

theorem agreement_is_a_majority:
  assumes "1 \<le> least"
  shows "(resolveAgreement least results = Inr (k, names)) \<longleftrightarrow>
    (names = reporters results k \<and> least \<le> length names \<and> (\<forall>j. j = k \<or> length (reporters results j) < length names))"
  using resolveAgreement_iff [OF assms, of results k names] by auto

theorem agreement_is_a_majority_witness:
  "resolveAgreement 2 [\<lparr>nr_name = ''p'', nr_key = Some (7 :: nat)\<rparr>, \<lparr>nr_name = ''q'', nr_key = Some 8\<rparr>, \<lparr>nr_name = ''r'', nr_key = Some 7\<rparr>] =
     Inr (7, [''p'', ''r''])"
proof -
  have "(1 :: nat) \<le> 2" by simp
  show ?thesis unfolding agreement_is_a_majority [OF \<open>(1 :: nat) \<le> 2\<close>] by (auto simp: reporters_def)
qed

text \<open>C18: when the votes on a deposit reach a quorum, at least that many different providers said last that its log is
  there, all with the same block, order and amount, and no other provider's last word is of another block.
  A disagreement, once noted, stays.\<close>

theorem quorum_is_one_deposit:
  assumes "status_of (observe_all least obs) = AsyncQuorumReached"
  shows "\<exists>f names. distinct names \<and> max 1 least \<le> int (length names) \<and>
    list_all (\<lambda>p. map_option (\<lambda>o'. (ob_present o', factsKey o')) (latest_of obs p) = Some (True, f)) names \<and>
    {hashKey o' | p o'. latest_of obs p = Some o'} = {fst f}"
proof -
  let ?c = "observe_all least obs"
  have ok: "confirmations_ok obs ?c" by (rule observe_all_ok)
  have no: "\<not> cc_disagreement ?c" and enough: "nat (max 1 least) \<le> length (cc_present ?c)"
    using assms by (auto simp: status_of_def observe_all_min split: if_splits)
  have d: "distinct (map fst (cc_present ?c))"
    and pres: "\<And>p f. map_of (cc_present ?c) p = Some f \<longleftrightarrow> (\<exists>o'. latest_of obs p = Some o' \<and> ob_present o' \<and> f = factsKey o')"
    and same: "\<And>p q o1 o2. latest_of obs p = Some o1 \<Longrightarrow> latest_of obs q = Some o2 \<Longrightarrow>
        hashKey o1 = hashKey o2 \<and> (ob_present o1 \<longrightarrow> ob_present o2 \<longrightarrow> factsKey o1 = factsKey o2)"
    using ok no unfolding confirmations_ok_def by blast+
  have "cc_present ?c \<noteq> []" using enough by auto
  then obtain p0 f rest where c: "cc_present ?c = (p0, f) # rest" by (metis neq_Nil_conv prod.collapse)
  then have "map_of (cc_present ?c) p0 = Some f" by simp
  then obtain o0 where o0: "latest_of obs p0 = Some o0" "ob_present o0" "f = factsKey o0" using pres by blast
  have each: "map_option (\<lambda>o'. (ob_present o', factsKey o')) (latest_of obs p) = Some (True, f)"
    if h: "p \<in> set (map fst (cc_present ?c))" for p
  proof -
    obtain g where "map_of (cc_present ?c) p = Some g" using h by (metis map_of_eq_None_iff not_None_eq set_map)
    then obtain o1 where "latest_of obs p = Some o1" "ob_present o1" using pres by blast
    then show ?thesis using same [of p o1 p0 o0] o0 by simp
  qed
  have "{hashKey o' | p o'. latest_of obs p = Some o'} = {fst f}"
  proof (intro equalityI subsetI)
    fix x
    assume "x \<in> {hashKey o' | p o'. latest_of obs p = Some o'}"
    then obtain p o1 where "x = hashKey o1" "latest_of obs p = Some o1" by blast
    then show "x \<in> {fst f}" using same [of p o1 p0 o0] o0 by (simp add: factsKey_def)
  next
    fix x
    assume "x \<in> {fst f}"
    then have "x = hashKey o0" using o0 by (simp add: factsKey_def)
    then show "x \<in> {hashKey o' | p o'. latest_of obs p = Some o'}" using o0(1) by blast
  qed
  then show ?thesis
    by (intro exI [of _ f] exI [of _ "map fst (cc_present ?c)"]) (use d enough each in \<open>simp add: list_all_iff nat_le_iff\<close>)
qed

definition demo_vote :: "string \<Rightarrow> string \<times> observation" where
  "demo_vote p = (p, \<lparr>ob_height = 7, ob_hash = ''h'', ob_present = True, ob_order = 1, ob_amount = 100\<rparr>)"

theorem quorum_is_one_deposit_witness:
  "\<exists>f names. distinct names \<and> max 1 2 \<le> int (length names) \<and>
    list_all (\<lambda>p. map_option (\<lambda>o'. (ob_present o', factsKey o')) (latest_of [demo_vote ''p'', demo_vote ''q''] p) = Some (True, f)) names \<and>
    {hashKey o' | p o'. latest_of [demo_vote ''p'', demo_vote ''q''] p = Some o'} = {fst f}"
proof -
  have "status_of (observe_all 2 [demo_vote ''p'', demo_vote ''q'']) = AsyncQuorumReached" by code_simp
  from quorum_is_one_deposit [OF this] show ?thesis .
qed

section \<open>Deposits\<close>

text \<open>C8: a deposit marked \<open>REPORTED\<close> is in the ledger: the entry under its own key belongs to its order and has two
  lines, exactly the amount transferred into the account of the deposit and its opposite into the account of the
  customer (or the entry was there before with another payload, and the two payloads have one SHA-256). A quorum of
  providers gave that transfer to that wallet, which was leased to that customer for that order; a quorum said that
  its block is final, and a quorum gave it again in that block. This
  holds whatever the providers answer, whatever calls fail or go unheard, and whatever others do with the ledger, if
  the hashes in it at the start are those of its entries, as they are in every ledger the service reaches.\<close>

theorem reported_deposits_are_credited:
  assumes "env_ok we" and "ledger_ok (ls_db srv)" and "entries_hashed (we_digest we) (ls_db srv)"
    and "deposit_status_of (watch_reached we events (watch_start pool srv)) k = Some Reported"
  shows "\<exists>c. observed_key c = k \<and> deposit_seen we c \<and> deposit_final we c \<and>
    granted (wy_pool (watch_reached we events (watch_start pool srv))) c \<and>
    (credited (ls_db (wy_ledger (watch_reached we events (watch_start pool srv)))) c \<or>
     digest_clash we (ls_db (wy_ledger (watch_reached we events (watch_start pool srv)))) c)"
proof -
  let ?s = "watch_reached we events (watch_start pool srv)"
  have ok: "watch_ok we ?s" using watch_reached_ok [OF assms(1,2)] by (simp add: watch_run_ok_def)
  obtain r where r: "row_at ?s k = Some r" "dr_status r = Reported" using assms(4) by (auto simp: deposit_status_of_def)
  then have "row_ok we ?s r" "dr_key r = k" using ok row_at_key [OF r(1)] by (simp_all add: watch_ok_def)
  then show ?thesis using r(2) booked_credited watch_reached_hashed [OF assms(1-3)] unfolding row_ok_def deposit_known_def by blast
qed

theorem reported_deposits_are_credited_witness:
  "\<exists>c. observed_key c = (''t'', 0) \<and> deposit_seen demo_watch c \<and> deposit_final demo_watch c \<and>
    granted (wy_pool demo_reached) c \<and> credited (ls_db (wy_ledger demo_reached)) c"
proof -
  have "\<not> digest_clash demo_watch db c" for db c
    using demo_hashed_inj by (auto simp: digest_clash_def demo_fields)
  with reported_deposits_are_credited [OF demo_watch_env demo_ledger_ok demo_ledger_hashed demo_is_reported]
  show ?thesis by blast
qed

text \<open>C16: the outcome of a deposit is final: once reported, orphaned or dropped it stays so, and what was observed of it
  stays what it was, whatever ticks, restarts and failures follow.\<close>

theorem deposit_outcome_final:
  assumes "env_ok we" and "ledger_ok (ls_db srv)"
    and "deposit_status_of (watch_reached we events (watch_start pool srv)) k = Some st" and "st \<noteq> Detected"
  shows "deposit_status_of (watch_reached we later (watch_reached we events (watch_start pool srv))) k = Some st \<and>
    deposit_log_of (watch_reached we later (watch_reached we events (watch_start pool srv))) k =
      deposit_log_of (watch_reached we events (watch_start pool srv)) k"
proof -
  let ?s = "watch_reached we events (watch_start pool srv)"
  have ok: "watch_run_ok we ?s" by (rule watch_reached_ok [OF assms(1,2)])
  obtain v where v: "deposit_log_of ?s k = Some v"
    using assms(3) by (auto simp: deposit_status_of_def deposit_log_of_def)
  have "deposit_status_of (watch_reached we later ?s) k = Some st"
    unfolding watch_reached_def [of we later]
    by (rule deposit_store.run_final [OF ok assms(3)]) (use assms(4) in \<open>simp add: deposit_edge_def\<close>)
  moreover have "deposit_log_of (watch_reached we later ?s) k = Some v"
    unfolding watch_reached_def [of we later] by (rule deposit_logs.run_keeps [OF ok v])
  ultimately show ?thesis using v by simp
qed

theorem deposit_outcome_final_witness:
  "deposit_status_of (watch_reached demo_watch [Restart [], Ingested 9, Tick []] demo_reached) (''t'', 0) = Some Reported"
  using deposit_outcome_final [OF demo_watch_env demo_ledger_ok demo_is_reported, of "[Restart [], Ingested 9, Tick []]"] by simp

text \<open>C17: a restart forgets nothing: whatever happened before, and whichever calls fail while it starts, the process that
  comes up follows exactly the deposits without an outcome.\<close>

theorem restart_follows_open_deposits:
  assumes "env_ok we" and "ledger_ok (ls_db srv)"
  shows "cd_key ` set (wy_pending (watch_reached we (events @ [Restart fs]) (watch_start pool srv))) =
    {k. deposit_status_of (watch_reached we (events @ [Restart fs]) (watch_start pool srv)) k = Some Detected}"
proof -
  let ?s = "watch_reached we events (watch_start pool srv)"
  let ?fresh = "?s\<lparr>wy_pending := [], wy_finalized := [], wy_heights := [], wy_faults := fs\<rparr>"
  have r: "watch_reached we (events @ [Restart fs]) (watch_start pool srv) = restarted we ?fresh"
    by (simp add: watch_reached_def run_ops_def commit_op_def run_watch_event_def)
  have "watch_ok we ?s" using watch_reached_ok [OF assms] by (simp add: watch_run_ok_def)
  then have ok0: "watch_ok we ?fresh" using forget_moves [of we ?s fs] unfolding moves_def by blast
  then have ok: "watch_ok we (restarted we ?fresh)" using restarted_moves [OF assms(1), of UNIV ?fresh] by (simp add: moves_def)
  show ?thesis unfolding r
  proof (intro equalityI subsetI)
    fix k
    assume "k \<in> cd_key ` set (wy_pending (restarted we ?fresh))"
    then obtain r where "row_at (restarted we ?fresh) k = Some r" "dr_status r = Detected"
      using ok unfolding watch_ok_def pending_ok_def by blast
    then show "k \<in> {k. deposit_status_of (restarted we ?fresh) k = Some Detected}" by (simp add: deposit_status_of_def)
  next
    fix k
    assume "k \<in> {k. deposit_status_of (restarted we ?fresh) k = Some Detected}"
    then obtain r where "row_at (restarted we ?fresh) k = Some r" "dr_status r = Detected" by (auto simp: deposit_status_of_def)
    from restarted_pending [OF assms(1) ok0 this] show "k \<in> cd_key ` set (wy_pending (restarted we ?fresh))" by blast
  qed
qed

theorem restart_follows_open_deposits_witness:
  "cd_key ` set (wy_pending (watch_reached demo_watch (demo_events @ [Restart []]) (watch_start demo_pool demo_ledger))) =
    {k. deposit_status_of (watch_reached demo_watch (demo_events @ [Restart []]) (watch_start demo_pool demo_ledger)) k = Some Detected}"
  by (rule restart_follows_open_deposits [OF demo_watch_env demo_ledger_ok])

section \<open>What the report does not look for\<close>

text \<open>C40: when the answer to a report was lost, the deposit is credited but still pending; if its order has meanwhile
  moved past \<open>funded\<close>, the next report is refused as illegal, since the ledger looks for the posted entry only
  while the order is funded. The watcher then marks the credited deposit \<open>ORPHANED\<close>, one to be paid back by hand.\<close>

theorem credited_deposit_orphaned:
  assumes "ledger_ok (ls_db (wy_ledger s))" and "wy_faults s = []" and "we_actor we \<noteq> ''''"
    and "row_at s (cd_key c) = Some r" and "credited (ls_db (wy_ledger s)) (cd_log c)"
    and "too_late_for (cd_log c) ord (wy_ledger s)"
  shows "deposit_status_of (fst (finalize we c s)) (cd_key c) = Some Orphaned \<and>
    credited (ls_db (wy_ledger (fst (finalize we c s)))) (cd_log c)"
proof -
  note l = late_finalize [OF assms(1-3,6,4)]
  have "deposit_status_of (fst (finalize we c s)) (cd_key c) = Some Orphaned" using l by (simp add: deposit_status_of_def)
  moreover have "credited (ls_db (wy_ledger (fst (finalize we c s)))) (cd_log c)"
    using books_kept_credited [OF _ assms(1,5)] l by blast
  ultimately show ?thesis ..
qed

theorem credited_deposit_orphaned_witness:
  "let s = demo_scanned\<lparr>wy_ledger := demo_moved_on\<rparr>; s' = fst (finalize demo_watch (new_candidate demo_obs Exact) s) in
     credited (ls_db (wy_ledger s)) demo_obs \<and> deposit_status_of s (''t'', 0) = Some Detected \<and>
     deposit_status_of s' (''t'', 0) = Some Orphaned \<and> credited (ls_db (wy_ledger s')) demo_obs"
proof -
  let ?s = "demo_scanned\<lparr>wy_ledger := demo_moved_on\<rparr>" and ?c = "new_candidate demo_obs Exact"
  have k: "cd_key ?c = (''t'', 0)" by (simp add: cd_key_def observed_key_def demo_obs_fields)
  have r: "row_at ?s (cd_key ?c) = Some \<lparr>dr_log = demo_obs, dr_class = Exact, dr_status = Detected\<rparr>"
    by (simp add: k row_at_def demo_scanned_def dr_key_def observed_key_def demo_obs_fields)
  obtain ord where late: "too_late_for demo_obs ord demo_moved_on" using demo_moved_on_late by blast
  have "deposit_status_of (fst (finalize demo_watch ?c ?s)) (cd_key ?c) = Some Orphaned \<and>
      credited (ls_db (wy_ledger (fst (finalize demo_watch ?c ?s)))) (cd_log ?c)"
    by (rule credited_deposit_orphaned [OF _ _ _ r, where ord = ord])
      (simp_all add: demo_credited_ok demo_scanned_def demo_fields demo_credits late)
  then show ?thesis using demo_credits r by (simp add: Let_def k deposit_status_of_def)
qed

end
