(* ===== verification/Spec2Isabelle.thy ===== *)
theory Spec2Isabelle
  imports Ledger_Props Ledger_Checks Relay_Props Drive_Props Orch_Props Orch_Small Ledger_Api_Props
    Watcher_Props Signing_Props Key_Props Finality_Props
begin

text \<open>
  A verification development for the USDT network converter: the double-entry ledger
  (\<open>src/ledger\<close>) that records every movement of money, \<open>src/relayd\<close>, the service that takes a
  customer's deposit on one chain and pays it on through a vendor to the other, the pool of deposit
  wallets of the two watchers (\<open>src/depositwatcher\<close>, \<open>src/tronwatcher\<close>), the way the BSC watcher makes
  deposits out of what its chain providers say and reports them to the ledger, and the signing service
  S1 (\<open>src/s1\<close>).

  \<^bold>\<open>The program\<close>. A relay order lives in two databases. The ledger holds the order, its state machine
  and its journal entries; relayd holds the leg (what was deposited, what is kept, what is forwarded)
  and the transfer attempts that move the money. relayd drives each leg in ticks: it records the
  deposit, asks a vendor for an order, builds, signs (through the service S1), sends and follows one
  transaction, and posts each step to the ledger. A crash may fall between any two writes, so each
  write is meant to be repeatable. The watchers lease the wallets that customers pay to, derived from an
  extended public key; the BSC watcher scans blocks at two of three providers, confirms each transfer
  with the second, classifies it, reports it as seen, and, once two providers that can say so call the
  block final, as final; a block that was replaced orphans its deposits. S1 holds the private keys
  and signs digests, large ones after two approvals.

  \<^bold>\<open>Theories, ledger\<close>.
  \<^item> \<open>Prelude\<close>: results, machine integers, tables as lists of rows.
  \<^item> \<open>Money\<close> (\<open>internal/money\<close>): amounts, checked 64-bit arithmetic, decimal strings.
  \<^item> \<open>Ledger_Schema\<close> (\<open>migrations\<close>), \<open>Accounts\<close> (\<open>internal/accounts\<close>), \<open>Journal\<close> (\<open>internal/journal\<close>:
    \<open>Post\<close>, \<open>Reverse\<close>, balances), \<open>Halt\<close> (\<open>internal/halt\<close>), \<open>Orders\<close> and \<open>Orders_Pages\<close>
    (\<open>internal/orders\<close>: \<open>Create\<close>, \<open>Transition\<close>, listings), \<open>Reorg\<close> (\<open>orders/reorg.go\<close>), \<open>Recon\<close>
    (\<open>internal/recon\<close>).
  \<^item> \<open>Journal_Inv\<close>, \<open>Journal_Replay\<close>, \<open>Orders_Inv\<close>: the invariants \<open>journal_ok\<close>, \<open>orders_ok\<close>,
    \<open>history_ok\<close>, and the behaviour of each operation on every branch.
  \<^item> \<open>Store\<close>: the contracts of a store as locales. \<open>Ledger\<close>: all write operations as
    \<open>ledger_op\<close>, each in its transaction \<open>Tx\<close>, the reachable states, the interpretations of the
    locales, and the abstract order machine \<open>order_step\<close> that they refine.
  \<^item> \<open>Ledger_Api\<close> (\<open>internal/httpapi\<close>, \<open>relayd/internal/ledgerclient\<close>): the handlers relayd calls and the
    client that calls them, on the fields of the JSON; \<open>Ledger_Api_Inv\<close>: a call over the wire is the
    operation of the ledger. \<open>Ledger_Told\<close>: what an entry says (its row and its lines by account code) and which
    order a name belongs to stay under every operation, and the stored hash is the digest of what is said.
  \<^item> \<open>Ledger_Demo\<close>: literal databases for the witnesses. \<open>Ledger_Props\<close>, \<open>Ledger_Checks\<close>,
    \<open>Ledger_Api_Props\<close>: the properties.

  \<^bold>\<open>Theories, relayd\<close>.
  \<^item> \<open>Pricing\<close> (\<open>internal/pricing\<close>), \<open>RelayLegs\<close> (\<open>internal/relay\<close>), \<open>Transfers\<close>
    (\<open>internal/transfers\<close>): the three stores; \<open>RelayLegs_Inv\<close>, \<open>Transfers_Inv\<close> their invariants
    and status graphs; \<open>Relay_Props\<close> their properties.
  \<^item> \<open>Drive\<close> (\<open>orchestrate/transfer.go\<close>): \<open>driveTransfer\<close> over the interface \<open>chainAdapter\<close>.
    \<open>Drive_Inv\<close>: what it keeps over every adapter that satisfies the locale \<open>chain_adapter\<close>.
  \<^item> \<open>Evm\<close> (\<open>internal/evmtx\<close>, \<open>internal/evmbroadcast\<close>), \<open>Tron\<close> (\<open>internal/txbuild\<close>,
    \<open>internal/tronbroadcast\<close>), both with their part of \<open>orchestrate/preflight.go\<close>: building,
    decoding and checking transactions. \<open>Resources\<close> (\<open>orchestrate/chain_bsc.go\<close>,
    \<open>chain_tron.go\<close>, \<open>resources.go\<close>): the two adapters, top-ups and energy rentals.
    \<open>Resources_Inv\<close>: they satisfy \<open>chain_adapter\<close>. \<open>Preflight_Inv\<close>: what the checks establish.
  \<^item> \<open>Drive_Run\<close>: any sequence of calls of the driver from an empty store. \<open>Drive_Props\<close>: the
    properties. \<open>Drive_Frame\<close>: what one call leaves alone.
  \<^item> \<open>Sweeps\<close> (\<open>internal/sweeps\<close>): the store of sweeps and the profit of each wallet.
  \<^item> \<open>Orch_Sys\<close>, \<open>Orchestrate\<close> (\<open>internal/orchestrate\<close>): the state of a running relayd, its calls
    with their faults, and \<open>RunTick\<close> with its phases. \<open>Driver\<close> (\<open>internal/driver\<close>,
    \<open>internal/addrcheck\<close>): quotes and the creation of a leg. \<open>Orch_Run\<close>: any sequence of ticks,
    requests and restarts.
  \<^item> \<open>Orch_Logic\<close>: the invariant \<open>sys_ok\<close> that ties the legs, the attempts and the ledger, and triples
    \<open>tri\<close> over actions; \<open>Orch_Calls\<close>: the triple of every call; \<open>Orch_Inv\<close>: of every phase of a tick.
    \<open>Orch_Demo\<close>, \<open>Orch_Props\<close>: the properties of relayd as a whole. \<open>Orch_Small\<close>: two passes over one leg,
    call by call, with the refund of a too small deposit lost in between.

  \<^bold>\<open>Theories, watchers and S1\<close>.
  \<^item> \<open>Wallet_Pool\<close> (\<open>depositwatcher/internal/addresses\<close>: \<open>pool.go\<close>, \<open>store.go\<close>): the pool of deposit wallets and
    their leases; \<open>Wallet_Pool_Inv\<close>: the invariant \<open>pool_ok\<close>, what a lease keeps, \<open>spaced\<close>: how far
    apart two leases of a wallet are, and \<open>grants_kept\<close>: a lease stays the customer's. \<open>Watcher_Props\<close>: the properties.
  \<^item> \<open>Quorum\<close> (\<open>internal/chain/agreement.go\<close>, \<open>internal/finality/async.go\<close>): how many providers must say the
    same, and when. \<open>Deposits\<close> (\<open>internal/money\<close>, \<open>chain/classify.go\<close>, \<open>internal/deposits\<close>,
    \<open>internal/orphaned\<close>, \<open>internal/ledgerclient\<close>): amounts, the kinds of a transfer, the stored deposits and
    the watcher's calls of the ledger. \<open>Tracker\<close> (\<open>internal/candidates\<close>, \<open>internal/finality\<close>,
    \<open>chain/finality.go\<close>, \<open>chain/logs.go\<close>, \<open>cmd/watcherd/engine.go\<close>): a tick of the running watcher.
  \<^item> \<open>Tracker_Inv\<close>: the invariant \<open>watch_ok\<close>, with what it is for a deposit to be \<open>credited\<close> in the ledger, and
    the moves of every step; \<open>Tracker_Run\<close>: of every loop, and of
    any sequence of ticks, restarts and tips. \<open>Tracker_Late\<close>: a tick in which every call is heard.
    \<open>Finality_Demo\<close>: a literal watcher; \<open>Finality_Props\<close>: the properties.
  \<^item> \<open>Sign_Keys\<close> (\<open>s1/internal/kmssign/wrapper.go\<close>, \<open>s1/internal/slots\<close>), \<open>Signing\<close>
    (\<open>s1/internal/requests\<close>): slots, signatures, and the requests as interleaved statements of calls;
    \<open>Signing_Inv\<close>: the invariant \<open>s1_ok\<close>; \<open>Signing_Props\<close>: the properties.
  \<^item> \<open>Base58\<close>, \<open>Bip32\<close>: addresses and extended keys as text, and the derivation of deposit keys on both sides
    (\<open>s1/internal/slots/tron.go\<close>, \<open>evm.go\<close>, \<open>s1/internal/kmssign/bscdeposit.go\<close>, \<open>addresses/bip32.go\<close>).
    \<open>Key_Props\<close>: the properties.

  \<^bold>\<open>How code becomes definitions\<close>. A struct or a row is a record, a string enumeration a datatype with
  a constructor for the strings the code does not know. A call that writes is a function from the
  database to an error or the next database: the error branch is the rolled-back statement or
  transaction. A \<open>bigint\<close> or \<open>int64\<close> that is computed with is a \<open>64 word\<close>, \<open>numeric(38,0)\<close> and \<open>big.Int\<close>
  are integers, times are nanoseconds. Unique indexes, CHECK constraints and foreign keys the
  operations rely on are conditions of the write. What is not in the repository -- SHA-256, the
  libraries of the two chains, their nodes, the signing service and the vendors as relayd sees
  them -- is an argument: a function or a record of functions that may answer anything.

  \<^bold>\<open>What the lemmas show\<close>. Balances: every entry sums to zero, the cache equals the lines, a replay
  moves nothing, a reversal undoes exactly its entry, once. Orders: a refinement of the state machine, with
  the log as its run, and a halt that only an operator ends. Legs: one deposit, one split, one vendor order,
  never both refunded and forwarded. Transfers: one attempt at a time, nothing sent after a
  confirmation, only what was asked for is sent, five energy rentals at most. relayd as a whole: a
  deposit is never both forwarded and refunded, whatever calls fail and whoever else uses the
  ledger; the ledger has a refund before it is sent; a finished leg tells the truth; sweeps take no more
  than the profit. Watchers: a wallet has one customer at a time, and a payment is taken for the customer who
  had the wallet in its block. What the BSC watcher has reported is in the ledger as an
  entry with the two lines that credit exactly the amount to the customer of the lease, was seen and is final by
  two providers. The ledger compares a request with a stored entry by SHA-256 only, so this leaves the case of two
  payloads with one digest, which the theorem names. An outcome of a deposit is never changed; a restart follows exactly the open deposits;
  a majority is of those asked, and none is claimed against a dissent. S1: a signature is of the digest that
  was asked for, under its key, and authorised; the watcher's address of an index is that of the signer's key, unless
  the extended private key is zero. Base58 text, with and without a checksum, reads back to the bytes it was made
  from, leading zeros included, and to no others. A few theorems state what the code does against its intention;
  the manifest lists them as findings.

  \<^bold>\<open>Bounds\<close>. Loops of the modelled code run over lists. The one loop that ends when the ledger says so is
  \<open>for_orders\<close>, the walk through the pages of orders in one state: it takes as fuel the orders in the
  ledger and the operations of others still to come, and one more. \<open>paging_complete\<close> shows for a ledger
  at rest that as many pages as there are orders suffice. \<open>adapters\<close> ties the mutual call of building and topping up in two
  layers, and \<open>treasury_build\<close> shows that the inner layer never needs a third.

  \<^bold>\<open>Not modelled\<close>. JSON bytes, transport, authentication, metrics, logs and alerts; the operator endpoints
  of the two HTTP APIs. Between two calls of a tick other services may run operations of the ledger,
  and relayd's own API may create a leg or record a deposit; inside one call nothing interleaves, and
  the front door's requests and the ticks otherwise run one after another. The vendors' HTTP clients,
  screening and the services of the earlier design may answer anything, and relayd takes the answers of the
  watchers and of S1 as anything, whatever their own models promise. Of the BSC watcher, what its providers answer is a parameter, and a tip of the
  chain is an event; each of its calls of the ledger may be refused or go unheard, and others use the
  ledger and the pool between two of its steps. Not modelled are its health checks of providers, its HTTP
  API and its restart from the last block; of the TRON watcher, its scan of the chain; of S1, the
  clients of the key stores. A sequence
  that Postgres advanced for a refused insert is reused. Texts of errors keep their fixed words only,
  and trimming and case of texts are those of ASCII.
\<close>

end
